(* ===== verification/Prelude.thy ===== *)
theory Prelude
  imports Main "HOL-Library.Word" "HOL-Library.Signed_Division"
begin

text \<open>
  The vocabulary the component theories share: the machine integers of the contracts with their
  ranges, the result of a contract invocation, the invocation environment, and the generic
  argument that an invariant holds in every reachable state.

  Integers are kept as \<open>nat\<close> (\<open>u32\<close>, \<open>u64\<close>, \<open>u128\<close>) and \<open>int\<close> (\<open>i128\<close>) with their ranges
  written out: an operation that is checked in the source tests the range and reports the
  error, an unchecked one panics when it leaves the range (the release profile of the workspace
  keeps \<open>overflow-checks\<close> on), and an \<open>as\<close> cast is the remainder modulo the width.
\<close>

named_theorems ok_simps \<open>inversion of a computation that returned \<open>Ok\<close>\<close>
named_theorems guard_defs \<open>the small guards of the contracts, unfolded in every entrypoint\<close>

section \<open>Machine integers\<close>

type_synonym u32 = nat
type_synonym u64 = nat
type_synonym u128 = nat
type_synonym i128 = int

definition u32_max :: nat where
  "u32_max = 4294967295"

definition u64_max :: nat where
  "u64_max = 18446744073709551615"

definition u128_max :: nat where
  "u128_max = 340282366920938463463374607431768211455"

definition i128_max :: int where
  "i128_max = 170141183460469231731687303715884105727"

definition i128_min :: int where
  "i128_min = - 170141183460469231731687303715884105728"

lemmas int_limits = u32_max_def u64_max_def u128_max_def i128_max_def i128_min_def

lemma int_limits_pow:
  "u32_max = 2 ^ 32 - 1" "u64_max = 2 ^ 64 - 1" "u128_max = 2 ^ 128 - 1"
  "i128_max = 2 ^ 127 - 1" "i128_min = - (2 ^ 127)"
  by (simp_all add: int_limits)

definition in_i128 :: "int \<Rightarrow> bool" where
  "in_i128 x \<longleftrightarrow> i128_min \<le> x \<and> x \<le> i128_max"

text \<open>The conversions \<open>as u32\<close>, \<open>as u64\<close> of an \<open>i128\<close>: they truncate, they never fail.\<close>

definition as_u32 :: "int \<Rightarrow> u32" where
  "as_u32 x = nat (x mod 4294967296)"

definition as_u64 :: "int \<Rightarrow> u64" where
  "as_u64 x = nat (x mod 18446744073709551616)"

lemma as_u32_int [simp]: "n \<le> u32_max \<Longrightarrow> as_u32 (int n) = n"
  by (simp add: as_u32_def u32_max_def)

lemma as_u64_int [simp]: "n \<le> u64_max \<Longrightarrow> as_u64 (int n) = n"
  by (simp add: as_u64_def u64_max_def)

lemma as_u64_le: "as_u64 x \<le> u64_max"
proof -
  have "x mod 18446744073709551616 < 18446744073709551616" by simp
  then show ?thesis by (simp add: as_u64_def u64_max_def nat_le_iff)
qed

lemma in_i128_u64: "n \<le> u64_max \<Longrightarrow> in_i128 (int n)"
  by (simp add: in_i128_def int_limits)

lemma in_i128_u32: "n \<le> u32_max \<Longrightarrow> in_i128 (int n)"
  by (simp add: in_i128_def int_limits)

text \<open>The saturating \<open>u64\<close> operations of the core library.\<close>

definition sat_add_u64 :: "u64 \<Rightarrow> u64 \<Rightarrow> u64" where
  "sat_add_u64 a b = min (a + b) u64_max"

definition checked_add_word :: "nat \<Rightarrow> nat \<Rightarrow> nat \<Rightarrow> nat option" where
  "checked_add_word limit a b = (if a + b \<le> limit then Some (a + b) else None)"

definition checked_sub_word :: "nat \<Rightarrow> nat \<Rightarrow> nat option" where
  "checked_sub_word a b = (if b \<le> a then Some (a - b) else None)"

definition checked_mul_word :: "nat \<Rightarrow> nat \<Rightarrow> nat \<Rightarrow> nat option" where
  "checked_mul_word limit a b = (if a * b \<le> limit then Some (a * b) else None)"

lemma checked_add_word_Some [simp]:
  "checked_add_word l a b = Some c \<longleftrightarrow> c = a + b \<and> a + b \<le> l"
  by (auto simp: checked_add_word_def)

lemma checked_sub_word_Some [simp]:
  "checked_sub_word a b = Some c \<longleftrightarrow> c = a - b \<and> b \<le> a"
  by (auto simp: checked_sub_word_def)

lemma checked_mul_word_Some [simp]:
  "checked_mul_word l a b = Some c \<longleftrightarrow> c = a * b \<and> a * b \<le> l"
  by (auto simp: checked_mul_word_def)

section \<open>Opaque host values\<close>

type_synonym address = nat
type_synonym symbol = string
type_synonym bytes = "8 word list"

text \<open>
  The raw host values (\<open>Val\<close>) that reach a signature payload or a cross-contract call. Only the
  shapes the contracts build themselves are distinguished; everything else is \<open>SvOther\<close>.
\<close>

datatype sval =
    SvU64 u64
  | SvI128 i128
  | SvAddress address
  | SvSymbol symbol
  | SvBytes bytes
  | SvVec "sval list"
  | SvOther nat

section \<open>Results of an invocation\<close>

text \<open>
  A Rust \<open>Result\<close> with one more outcome: \<open>Panic\<close>, a host trap (a failed \<open>require_auth\<close>, an
  assertion, an arithmetic overflow of an unchecked operator, a refused direct token call).
  Both failures roll every storage write and event of the invocation back, so an entrypoint is a
  function from the state to a result that carries the new state only under \<open>Ok\<close>.
\<close>

datatype ('e, 'a) result = Ok 'a | Err 'e | Panic

fun rbind :: "('e, 'a) result \<Rightarrow> ('a \<Rightarrow> ('e, 'b) result) \<Rightarrow> ('e, 'b) result" where
  "rbind (Ok x) f = f x"
| "rbind (Err e) f = Err e"
| "rbind Panic f = Panic"

fun is_ok :: "('e, 'a) result \<Rightarrow> bool" where
  "is_ok (Ok _) = True"
| "is_ok _ = False"

fun map_err :: "('e \<Rightarrow> 'f) \<Rightarrow> ('e, 'a) result \<Rightarrow> ('f, 'a) result" where
  "map_err h (Ok x) = Ok x"
| "map_err h (Err e) = Err (h e)"
| "map_err h Panic = Panic"

definition ok_or :: "'a option \<Rightarrow> 'e \<Rightarrow> ('e, 'a) result" where
  "ok_or v e = (case v of None \<Rightarrow> Err e | Some x \<Rightarrow> Ok x)"

definition unwrap_or :: "'a option \<Rightarrow> 'a \<Rightarrow> 'a" where
  "unwrap_or v d = (case v of None \<Rightarrow> d | Some x \<Rightarrow> x)"

lemma rbind_eq_Ok [ok_simps]:
  "rbind m f = Ok y \<longleftrightarrow> (\<exists>x. m = Ok x \<and> f x = Ok y)"
  by (cases m) auto

lemma rbind_eq_Err:
  "rbind m f = Err e \<longleftrightarrow> m = Err e \<or> (\<exists>x. m = Ok x \<and> f x = Err e)"
  by (cases m) auto

lemma rbind_assoc: "rbind (rbind m f) g = rbind m (\<lambda>x. rbind (f x) g)"
  by (cases m) auto

lemma rbind_Ok_right [simp]: "rbind m Ok = m"
  by (cases m) auto

lemma ok_or_eq_Ok [ok_simps]: "ok_or v e = Ok x \<longleftrightarrow> v = Some x"
  by (auto simp: ok_or_def split: option.splits)

lemma ok_or_simps [simp]: "ok_or (Some x) e = Ok x" "ok_or None e = Err e"
  by (simp_all add: ok_or_def)

lemma unwrap_or_simps [simp]: "unwrap_or (Some x) d = x" "unwrap_or None d = d"
  by (simp_all add: unwrap_or_def)

lemma is_ok_iff: "is_ok r \<longleftrightarrow> (\<exists>x. r = Ok x)"
  by (cases r) auto

lemma map_err_eq_Ok [ok_simps]: "map_err h r = Ok x \<longleftrightarrow> r = Ok x"
  by (cases r) auto

lemma if_Err_eq_Ok [ok_simps]:
  "(if b then Err e else m) = Ok y \<longleftrightarrow> \<not> b \<and> m = Ok y"
  "(if b then m else Err e) = Ok y \<longleftrightarrow> b \<and> m = Ok y"
  by auto

lemma if_Panic_eq_Ok [ok_simps]:
  "(if b then Panic else m) = Ok y \<longleftrightarrow> \<not> b \<and> m = Ok y"
  "(if b then m else Panic) = Ok y \<longleftrightarrow> b \<and> m = Ok y"
  by auto

lemma Err_neq_Ok [ok_simps]: "(Err e = Ok y) = False" "(Panic = Ok y) = False"
  by auto

lemma case_prod_eq_Ok:
  "(case p of (a, b) \<Rightarrow> f a b) = Ok y \<longleftrightarrow> (\<exists>a b. p = (a, b) \<and> f a b = Ok y)"
  by (cases p) auto

lemma rbind_OkE:
  assumes "rbind m f = Ok y"
  obtains x where "m = Ok x" and "f x = Ok y"
  using assms by (cases m) auto

lemma case_prod_OkE:
  assumes "(case p of (a, b) \<Rightarrow> f a b) = Ok y"
  obtains a b where "p = (a, b)" and "f a b = Ok y"
  using assms by (cases p) auto

lemma if_OkE:
  assumes "(if b then Err e else m) = Ok y"
  obtains "\<not> b" and "m = Ok y"
  using assms by (cases b) auto

lemma is_ok_rbind: "is_ok (rbind m f) \<longleftrightarrow> (\<exists>x. m = Ok x \<and> is_ok (f x))"
  by (cases m) auto

text \<open>A loop \<open>for x in xs { .. ? .. }\<close> over an accumulator that stops at the first failure.\<close>

fun rfold :: "('a \<Rightarrow> 's \<Rightarrow> ('e, 's) result) \<Rightarrow> 'a list \<Rightarrow> 's \<Rightarrow> ('e, 's) result" where
  "rfold f [] s = Ok s"
| "rfold f (x # xs) s = rbind (f x s) (rfold f xs)"

lemma rfold_append: "rfold f (xs @ ys) s = rbind (rfold f xs s) (rfold f ys)"
proof (induction xs arbitrary: s)
  case Nil
  then show ?case by simp
next
  case (Cons x xs)
  then show ?case by (cases "f x s") auto
qed

lemma rfold_inv:
  assumes "rfold f xs s = Ok t" and "P s"
    and "\<And>x s s'. x \<in> set xs \<Longrightarrow> P s \<Longrightarrow> f x s = Ok s' \<Longrightarrow> P s'"
  shows "P t"
  using assms by (induction xs arbitrary: s) (auto simp: rbind_eq_Ok)

section \<open>The invocation environment\<close>

text \<open>
  What the host fixes for one invocation: the ledger clock and sequence number, the address of
  the running contract, who authorized the invocation, and who authorized exactly the given
  arguments (\<open>require_auth_for_args\<close>).
\<close>

record env =
  timestamp :: u64
  sequence :: u32
  this_contract :: address
  authorized :: "address \<Rightarrow> bool"
  authorized_args :: "address \<Rightarrow> sval list \<Rightarrow> bool"

definition require_auth :: "env \<Rightarrow> address \<Rightarrow> ('e, unit) result" where
  "require_auth env who = (if authorized env who then Ok () else Panic)"

definition require_auth_for_args :: "env \<Rightarrow> address \<Rightarrow> sval list \<Rightarrow> ('e, unit) result" where
  "require_auth_for_args env who args = (if authorized_args env who args then Ok () else Panic)"

lemma require_auth_eq_Ok [ok_simps]: "require_auth env who = Ok u \<longleftrightarrow> authorized env who"
  by (simp add: require_auth_def)

lemma require_auth_for_args_eq_Ok [ok_simps]:
  "require_auth_for_args env who args = Ok u \<longleftrightarrow> authorized_args env who args"
  by (simp add: require_auth_for_args_def)

text \<open>The state after a transaction: a failed invocation leaves the ledger as it was.\<close>

fun commit :: "'s \<Rightarrow> ('e, 'a \<times> 's) result \<Rightarrow> 's" where
  "commit s (Ok (_, s')) = s'"
| "commit s _ = s"

lemma commit_cases: "commit s r = s \<or> (\<exists>x. r = Ok (x, commit s r))"
  by (cases r) auto

section \<open>Reachable states and invariants\<close>

inductive reach :: "('s \<Rightarrow> bool) \<Rightarrow> ('s \<Rightarrow> 's \<Rightarrow> bool) \<Rightarrow> 's \<Rightarrow> bool"
  for init :: "'s \<Rightarrow> bool" and step :: "'s \<Rightarrow> 's \<Rightarrow> bool" where
  reach_init: "init s \<Longrightarrow> reach init step s"
| reach_step: "reach init step s \<Longrightarrow> step s t \<Longrightarrow> reach init step t"

text \<open>
  Every contract promises the same thing of its storage: the initial storage satisfies an
  invariant and no committed invocation breaks it. The interface states it once, the contracts
  interpret it.
\<close>

locale invariant_system =
  fixes init :: "'s \<Rightarrow> bool"
    and step :: "'s \<Rightarrow> 's \<Rightarrow> bool"
    and inv :: "'s \<Rightarrow> bool"
  assumes init_inv: "init s \<Longrightarrow> inv s"
    and step_inv: "inv s \<Longrightarrow> step s t \<Longrightarrow> inv t"
begin

lemma reach_inv: "reach init step s \<Longrightarrow> inv s"
  by (induction rule: reach.induct) (auto intro: init_inv step_inv)

lemma steps_inv: "step\<^sup>*\<^sup>* s t \<Longrightarrow> inv s \<Longrightarrow> inv t"
  by (induction rule: rtranclp_induct) (auto intro: step_inv)

end

text \<open>
  A contract that refines an abstract machine: its invariant lets every committed invocation be read as
  a step of the machine, so whatever the machine keeps holds of the contract.
\<close>

locale refinement_system = invariant_system init step inv
  for init :: "'s \<Rightarrow> bool" and step :: "'s \<Rightarrow> 's \<Rightarrow> bool" and inv :: "'s \<Rightarrow> bool" +
  fixes ainit :: "'a \<Rightarrow> bool"
    and astep :: "'a \<Rightarrow> 'a \<Rightarrow> bool"
    and view :: "'s \<Rightarrow> 'a"
  assumes init_view: "init s \<Longrightarrow> ainit (view s)"
    and step_view: "inv s \<Longrightarrow> step s t \<Longrightarrow> astep (view s) (view t)"
begin

lemma reach_view: "reach init step s \<Longrightarrow> reach ainit astep (view s)"
proof (induction rule: reach.induct)
  case (reach_step s t)
  then show ?case by (blast intro: reach.reach_step step_view reach_inv)
qed (simp add: init_view reach.reach_init)

lemma steps_view: "step\<^sup>*\<^sup>* s t \<Longrightarrow> inv s \<Longrightarrow> astep\<^sup>*\<^sup>* (view s) (view t)"
proof (induction rule: rtranclp_induct)
  case (step t u)
  then have "astep (view t) (view u)" using steps_inv step_view by blast
  then show ?case using step by (simp add: rtranclp.rtrancl_into_rtrancl)
qed simp

lemma reach_steps: "reach init step s \<Longrightarrow> step\<^sup>*\<^sup>* s t \<Longrightarrow> reach init step t"
  by (rotate_tac, induction rule: rtranclp_induct) (auto intro: reach.reach_step)

end

section \<open>Lists\<close>

lemma sum_list_filter_le:
  fixes f :: "'a \<Rightarrow> nat"
  shows "sum_list (map f (filter P xs)) \<le> sum_list (map f xs)"
  by (induction xs) auto

lemma find_eq_Some_distinct:
  assumes "distinct (map f xs)" and "x \<in> set xs"
  shows "find (\<lambda>y. f y = f x) xs = Some x"
  using assms by (induction xs) (auto simp: rev_image_eqI)

lemma find_None_iff_notin: "find (\<lambda>y. f y = a) xs = None \<longleftrightarrow> a \<notin> f ` set xs"
  by (induction xs) auto

end
