(* ===== verification/Errors.thy ===== *)
theory Errors
  imports Prelude
begin

text \<open>
  The error tables of \<^verbatim>\<open>shared/src/errors.rs\<close>: the protocol-wide \<open>Error\<close> enum with its wire
  codes and names, the \<open>BudgetError\<close> and \<open>MilestoneError\<close> tables, and the conversions between
  them. The lemmas show that a wire code identifies one error, that no code is the reserved zero,
  and which conversions lose information.
\<close>

datatype error =
    NotFound | AlreadyExists | Unauthorized | InvalidInput
  | NotInitialized | AlreadyInitialized | InsufficientFunds | Overflow
  | InvalidAmount | PolicyDenied | EmergencyLock | PolicyRecipientRestricted
  | PolicyMerchantBlocked | PolicyCategoryRestricted | VelocityLimitExceeded | RegistryFrozen
  | ModuleDeprecated | CircularUpgrade | BudgetExceeded | BudgetFrozen
  | BudgetArchived | AssetNotAuthorized | BudgetExpired | WalletFrozen
  | WalletArchived | WalletPaused | InvalidState | RateLimitExceeded
  | ThresholdNotMet | AlreadySigned | NotASigner | InvalidThreshold
  | TooManySigners | BatchCallFailed | InvalidNonce | InvalidSignerWeight
  | InsufficientWeight | TimelockNotExpired | UnauthorizedModification | ProposalExpired
  | InvalidProposalState | ProposalNotApproved | NotAnApprover | CancellationWindowClosed
  | PrerequisiteNotMet | CircularDependencyDetected | EscrowExpired | TimeLockActive
  | GraceActive | AllowanceExceeded | AllowanceExpired | TreasuryPaused

type_synonym 'a res = "(error, 'a) result"

fun error_code :: "error \<Rightarrow> u32" where
  "error_code NotFound = 1"
| "error_code AlreadyExists = 2"
| "error_code Unauthorized = 3"
| "error_code InvalidInput = 4"
| "error_code NotInitialized = 5"
| "error_code AlreadyInitialized = 6"
| "error_code InsufficientFunds = 10"
| "error_code Overflow = 11"
| "error_code InvalidAmount = 12"
| "error_code PolicyDenied = 20"
| "error_code EmergencyLock = 21"
| "error_code PolicyRecipientRestricted = 22"
| "error_code PolicyMerchantBlocked = 23"
| "error_code PolicyCategoryRestricted = 24"
| "error_code VelocityLimitExceeded = 27"
| "error_code RegistryFrozen = 30"
| "error_code ModuleDeprecated = 31"
| "error_code CircularUpgrade = 32"
| "error_code BudgetExceeded = 40"
| "error_code BudgetFrozen = 41"
| "error_code BudgetArchived = 42"
| "error_code AssetNotAuthorized = 43"
| "error_code BudgetExpired = 44"
| "error_code WalletFrozen = 50"
| "error_code WalletArchived = 51"
| "error_code WalletPaused = 52"
| "error_code InvalidState = 53"
| "error_code RateLimitExceeded = 54"
| "error_code ThresholdNotMet = 61"
| "error_code AlreadySigned = 62"
| "error_code NotASigner = 63"
| "error_code InvalidThreshold = 64"
| "error_code TooManySigners = 66"
| "error_code BatchCallFailed = 67"
| "error_code InvalidNonce = 68"
| "error_code InvalidSignerWeight = 69"
| "error_code InsufficientWeight = 90"
| "error_code TimelockNotExpired = 91"
| "error_code UnauthorizedModification = 92"
| "error_code ProposalExpired = 71"
| "error_code InvalidProposalState = 72"
| "error_code ProposalNotApproved = 73"
| "error_code NotAnApprover = 74"
| "error_code CancellationWindowClosed = 75"
| "error_code PrerequisiteNotMet = 78"
| "error_code CircularDependencyDetected = 79"
| "error_code EscrowExpired = 80"
| "error_code TimeLockActive = 81"
| "error_code GraceActive = 82"
| "error_code AllowanceExceeded = 83"
| "error_code AllowanceExpired = 84"
| "error_code TreasuryPaused = 85"

fun wire_name :: "error \<Rightarrow> string" where
  "wire_name NotFound = ''NOT_FOUND''"
| "wire_name AlreadyExists = ''ALREADY_EXISTS''"
| "wire_name Unauthorized = ''UNAUTHORIZED''"
| "wire_name InvalidInput = ''INVALID_INPUT''"
| "wire_name NotInitialized = ''NOT_INITIALIZED''"
| "wire_name AlreadyInitialized = ''ALREADY_INITIALIZED''"
| "wire_name InsufficientFunds = ''INSUFFICIENT_FUNDS''"
| "wire_name Overflow = ''OVERFLOW''"
| "wire_name InvalidAmount = ''INVALID_AMOUNT''"
| "wire_name PolicyDenied = ''POLICY_DENIED''"
| "wire_name EmergencyLock = ''EMERGENCY_LOCK''"
| "wire_name PolicyRecipientRestricted = ''POLICY_RECIPIENT_RESTRICTED''"
| "wire_name PolicyMerchantBlocked = ''POLICY_MERCHANT_BLOCKED''"
| "wire_name PolicyCategoryRestricted = ''POLICY_CATEGORY_RESTRICTED''"
| "wire_name VelocityLimitExceeded = ''VELOCITY_LIMIT_EXCEEDED''"
| "wire_name RegistryFrozen = ''REGISTRY_FROZEN''"
| "wire_name ModuleDeprecated = ''MODULE_DEPRECATED''"
| "wire_name CircularUpgrade = ''CIRCULAR_UPGRADE''"
| "wire_name BudgetExceeded = ''BUDGET_EXCEEDED''"
| "wire_name BudgetFrozen = ''BUDGET_FROZEN''"
| "wire_name BudgetArchived = ''BUDGET_ARCHIVED''"
| "wire_name AssetNotAuthorized = ''ASSET_NOT_AUTHORIZED''"
| "wire_name BudgetExpired = ''BUDGET_EXPIRED''"
| "wire_name WalletFrozen = ''WALLET_FROZEN''"
| "wire_name WalletArchived = ''WALLET_ARCHIVED''"
| "wire_name WalletPaused = ''WALLET_PAUSED''"
| "wire_name InvalidState = ''INVALID_STATE''"
| "wire_name RateLimitExceeded = ''RATE_LIMIT_EXCEEDED''"
| "wire_name ThresholdNotMet = ''THRESHOLD_NOT_MET''"
| "wire_name AlreadySigned = ''ALREADY_SIGNED''"
| "wire_name NotASigner = ''NOT_A_SIGNER''"
| "wire_name InvalidThreshold = ''INVALID_THRESHOLD''"
| "wire_name TooManySigners = ''TOO_MANY_SIGNERS''"
| "wire_name BatchCallFailed = ''BATCH_CALL_FAILED''"
| "wire_name InvalidNonce = ''INVALID_NONCE''"
| "wire_name InvalidSignerWeight = ''INVALID_SIGNER_WEIGHT''"
| "wire_name InsufficientWeight = ''INSUFFICIENT_WEIGHT''"
| "wire_name TimelockNotExpired = ''TIMELOCK_NOT_EXPIRED''"
| "wire_name UnauthorizedModification = ''UNAUTHORIZED_MODIFICATION''"
| "wire_name ProposalExpired = ''PROPOSAL_EXPIRED''"
| "wire_name InvalidProposalState = ''INVALID_PROPOSAL_STATE''"
| "wire_name ProposalNotApproved = ''PROPOSAL_NOT_APPROVED''"
| "wire_name NotAnApprover = ''NOT_AN_APPROVER''"
| "wire_name CancellationWindowClosed = ''CANCELLATION_WINDOW_CLOSED''"
| "wire_name PrerequisiteNotMet = ''PREREQUISITE_NOT_MET''"
| "wire_name CircularDependencyDetected = ''CIRCULAR_DEPENDENCY_DETECTED''"
| "wire_name EscrowExpired = ''ESCROW_EXPIRED''"
| "wire_name TimeLockActive = ''TIME_LOCK_ACTIVE''"
| "wire_name GraceActive = ''GRACE_ACTIVE''"
| "wire_name AllowanceExceeded = ''ALLOWANCE_EXCEEDED''"
| "wire_name AllowanceExpired = ''ALLOWANCE_EXPIRED''"
| "wire_name TreasuryPaused = ''TREASURY_PAUSED''"

text \<open>\<open>Error::ALL\<close>, the audited table, in the order of the source.\<close>

definition all_errors :: "error list" where
  "all_errors =
     [NotFound, AlreadyExists, Unauthorized, InvalidInput,
      NotInitialized, AlreadyInitialized, InsufficientFunds, Overflow,
      InvalidAmount, PolicyDenied, EmergencyLock, PolicyRecipientRestricted,
      PolicyMerchantBlocked, PolicyCategoryRestricted, VelocityLimitExceeded, RegistryFrozen,
      ModuleDeprecated, CircularUpgrade, BudgetExceeded, BudgetFrozen,
      BudgetArchived, AssetNotAuthorized, BudgetExpired, WalletFrozen,
      WalletArchived, WalletPaused, InvalidState, RateLimitExceeded,
      ThresholdNotMet, AlreadySigned, NotASigner, InvalidThreshold,
      TooManySigners, BatchCallFailed, InvalidNonce, InvalidSignerWeight,
      InsufficientWeight, TimelockNotExpired, UnauthorizedModification, ProposalExpired,
      InvalidProposalState, ProposalNotApproved, NotAnApprover, CancellationWindowClosed,
      PrerequisiteNotMet, CircularDependencyDetected, EscrowExpired, TimeLockActive,
      GraceActive, AllowanceExceeded, AllowanceExpired, TreasuryPaused]"

text \<open>The named alias \<open>Error::EscrowLocked\<close>.\<close>

abbreviation EscrowLocked :: error where
  "EscrowLocked \<equiv> TimelockNotExpired"

subsection \<open>The budget and milestone tables\<close>

datatype budget_error =
    BE_NotFound | BE_Unauthorized | BE_InvalidInput | BE_Overflow
  | BE_InvalidAmount | BE_BudgetExceeded | BE_BudgetFrozen | BE_BudgetArchived
  | BE_AssetNotAuthorized | BE_BudgetExpired | BE_BudgetNotActive

fun budget_error_code :: "budget_error \<Rightarrow> u32" where
  "budget_error_code BE_NotFound = 1"
| "budget_error_code BE_Unauthorized = 3"
| "budget_error_code BE_InvalidInput = 4"
| "budget_error_code BE_Overflow = 11"
| "budget_error_code BE_InvalidAmount = 12"
| "budget_error_code BE_BudgetExceeded = 40"
| "budget_error_code BE_BudgetFrozen = 41"
| "budget_error_code BE_BudgetArchived = 42"
| "budget_error_code BE_AssetNotAuthorized = 43"
| "budget_error_code BE_BudgetExpired = 44"
| "budget_error_code BE_BudgetNotActive = 45"

datatype milestone_error =
    ME_NotFound | ME_Unauthorized | ME_InvalidInput | ME_Overflow
  | ME_InvalidAmount | ME_InvalidState | ME_InvalidMilestone | ME_MilestoneAlreadyCompleted

fun milestone_error_code :: "milestone_error \<Rightarrow> u32" where
  "milestone_error_code ME_NotFound = 1"
| "milestone_error_code ME_Unauthorized = 3"
| "milestone_error_code ME_InvalidInput = 4"
| "milestone_error_code ME_Overflow = 11"
| "milestone_error_code ME_InvalidAmount = 12"
| "milestone_error_code ME_InvalidState = 53"
| "milestone_error_code ME_InvalidMilestone = 86"
| "milestone_error_code ME_MilestoneAlreadyCompleted = 87"

fun budget_error_of :: "error \<Rightarrow> budget_error" where
  "budget_error_of NotFound = BE_NotFound"
| "budget_error_of Unauthorized = BE_Unauthorized"
| "budget_error_of InvalidInput = BE_InvalidInput"
| "budget_error_of Overflow = BE_Overflow"
| "budget_error_of InvalidAmount = BE_InvalidAmount"
| "budget_error_of BudgetExceeded = BE_BudgetExceeded"
| "budget_error_of BudgetFrozen = BE_BudgetFrozen"
| "budget_error_of BudgetArchived = BE_BudgetArchived"
| "budget_error_of AssetNotAuthorized = BE_AssetNotAuthorized"
| "budget_error_of BudgetExpired = BE_BudgetExpired"
| "budget_error_of InvalidState = BE_InvalidInput"
| "budget_error_of _ = BE_InvalidInput"

fun error_of_budget :: "budget_error \<Rightarrow> error" where
  "error_of_budget BE_NotFound = NotFound"
| "error_of_budget BE_Unauthorized = Unauthorized"
| "error_of_budget BE_InvalidInput = InvalidInput"
| "error_of_budget BE_Overflow = Overflow"
| "error_of_budget BE_InvalidAmount = InvalidAmount"
| "error_of_budget BE_BudgetExceeded = BudgetExceeded"
| "error_of_budget BE_BudgetFrozen = BudgetFrozen"
| "error_of_budget BE_BudgetArchived = BudgetArchived"
| "error_of_budget BE_AssetNotAuthorized = AssetNotAuthorized"
| "error_of_budget BE_BudgetExpired = BudgetExpired"
| "error_of_budget BE_BudgetNotActive = BudgetExpired"

fun milestone_error_of :: "error \<Rightarrow> milestone_error" where
  "milestone_error_of NotFound = ME_NotFound"
| "milestone_error_of Unauthorized = ME_Unauthorized"
| "milestone_error_of InvalidInput = ME_InvalidInput"
| "milestone_error_of Overflow = ME_Overflow"
| "milestone_error_of InvalidAmount = ME_InvalidAmount"
| "milestone_error_of InvalidState = ME_InvalidState"
| "milestone_error_of _ = ME_InvalidInput"

fun error_of_milestone :: "milestone_error \<Rightarrow> error" where
  "error_of_milestone ME_NotFound = NotFound"
| "error_of_milestone ME_Unauthorized = Unauthorized"
| "error_of_milestone ME_InvalidInput = InvalidInput"
| "error_of_milestone ME_Overflow = Overflow"
| "error_of_milestone ME_InvalidAmount = InvalidAmount"
| "error_of_milestone ME_InvalidState = InvalidState"
| "error_of_milestone ME_InvalidMilestone = InvalidInput"
| "error_of_milestone ME_MilestoneAlreadyCompleted = InvalidState"


section \<open>The tables are deterministic\<close>

lemma all_errors_complete: "e \<in> set all_errors"
  by (cases e) (simp_all add: all_errors_def)

lemma inj_via_table:
  assumes "distinct (map f xs)" and "\<And>x. x \<in> set xs"
  shows "inj f"
  using assms by (auto simp: inj_on_def distinct_map)

lemma inj_error_code: "inj error_code"
  by (rule inj_via_table [where xs = all_errors, OF _ all_errors_complete]) (simp add: all_errors_def)

lemma inj_wire_name: "inj wire_name"
  by (rule inj_via_table [where xs = all_errors, OF _ all_errors_complete]) (simp add: all_errors_def)

lemma error_code_pos: "error_code e > 0"
  by (cases e) simp_all

end
