(* ===== verification/Safe_Math.thy ===== *)
theory Safe_Math
  imports Errors
begin

text \<open>
  The checked arithmetic of \<^verbatim>\<open>shared/src/math.rs\<close>: the \<open>SafeAdd\<close>, \<open>SafeSub\<close>, \<open>SafeMul\<close> and
  \<open>SafeDiv\<close> traits for \<open>i128\<close>, \<open>u64\<close> and \<open>u128\<close>, the balance helpers, the batch allowance
  verifiers and the budget rollover calculation. The generic functions over the \<open>BatchAmount\<close>
  trait take the trait's dictionary as their first argument; the locale states the laws of a
  dictionary and is interpreted for the three instances of the source.
\<close>

section \<open>Checked arithmetic on i128\<close>

definition safe_add :: "i128 \<Rightarrow> i128 \<Rightarrow> i128 res" where
  "safe_add a b = (if in_i128 (a + b) then Ok (a + b) else Err Overflow)"

definition safe_sub :: "i128 \<Rightarrow> i128 \<Rightarrow> i128 res" where
  "safe_sub a b = (if in_i128 (a - b) then Ok (a - b) else Err Overflow)"

definition safe_mul :: "i128 \<Rightarrow> i128 \<Rightarrow> i128 res" where
  "safe_mul a b = (if in_i128 (a * b) then Ok (a * b) else Err Overflow)"

text \<open>Rust's \<open>/\<close> and \<open>%\<close> truncate towards zero: \<open>sdiv\<close> and \<open>smod\<close>.\<close>

definition safe_div :: "i128 \<Rightarrow> i128 \<Rightarrow> i128 res" where
  "safe_div a b =
     (if b = 0 then Err InvalidInput
      else if in_i128 (a sdiv b) then Ok (a sdiv b) else Err Overflow)"

definition checked_add :: "i128 \<Rightarrow> i128 \<Rightarrow> i128 res" where
  "checked_add a b = safe_add a b"

definition checked_sub :: "i128 \<Rightarrow> i128 \<Rightarrow> i128 res" where
  "checked_sub a b = safe_sub a b"

definition checked_mul :: "i128 \<Rightarrow> i128 \<Rightarrow> i128 res" where
  "checked_mul a b = safe_mul a b"

definition checked_div :: "i128 \<Rightarrow> i128 \<Rightarrow> i128 res" where
  "checked_div a b = safe_div a b"

text \<open>\<open>i128::checked_rem\<close> fails for \<open>MIN % -1\<close>, whose quotient is not representable.\<close>

definition checked_rem :: "i128 \<Rightarrow> i128 \<Rightarrow> i128 res" where
  "checked_rem a b =
     (if b = 0 then Err InvalidInput
      else if a = i128_min \<and> b = -1 then Err Overflow
      else Ok (a smod b))"

definition checked_neg :: "i128 \<Rightarrow> i128 res" where
  "checked_neg a = (if in_i128 (- a) then Ok (- a) else Err Overflow)"

definition checked_abs :: "i128 \<Rightarrow> i128 res" where
  "checked_abs a = (if in_i128 \<bar>a\<bar> then Ok \<bar>a\<bar> else Err Overflow)"

section \<open>Checked arithmetic on u64 and u128\<close>

definition safe_add_u64 :: "u64 \<Rightarrow> u64 \<Rightarrow> u64 res" where
  "safe_add_u64 a b = ok_or (checked_add_word u64_max a b) Overflow"

definition safe_sub_u64 :: "u64 \<Rightarrow> u64 \<Rightarrow> u64 res" where
  "safe_sub_u64 a b = ok_or (checked_sub_word a b) Overflow"

definition safe_mul_u64 :: "u64 \<Rightarrow> u64 \<Rightarrow> u64 res" where
  "safe_mul_u64 a b = ok_or (checked_mul_word u64_max a b) Overflow"

definition safe_div_u64 :: "u64 \<Rightarrow> u64 \<Rightarrow> u64 res" where
  "safe_div_u64 a b = (if b = 0 then Err InvalidInput else Ok (a div b))"

definition safe_add_u128 :: "u128 \<Rightarrow> u128 \<Rightarrow> u128 res" where
  "safe_add_u128 a b = ok_or (checked_add_word u128_max a b) Overflow"

definition safe_sub_u128 :: "u128 \<Rightarrow> u128 \<Rightarrow> u128 res" where
  "safe_sub_u128 a b = ok_or (checked_sub_word a b) Overflow"

definition safe_mul_u128 :: "u128 \<Rightarrow> u128 \<Rightarrow> u128 res" where
  "safe_mul_u128 a b = ok_or (checked_mul_word u128_max a b) Overflow"

definition safe_div_u128 :: "u128 \<Rightarrow> u128 \<Rightarrow> u128 res" where
  "safe_div_u128 a b = (if b = 0 then Err InvalidInput else Ok (a div b))"

section \<open>Balances\<close>

definition validate_sufficient_balance :: "i128 \<Rightarrow> i128 \<Rightarrow> unit res" where
  "validate_sufficient_balance balance amount =
     (if balance < 0 \<or> amount < 0 then Err InvalidAmount
      else if balance < amount then Err InsufficientFunds
      else Ok ())"

definition checked_balance_sub :: "i128 \<Rightarrow> i128 \<Rightarrow> i128 res" where
  "checked_balance_sub balance amount =
     rbind (validate_sufficient_balance balance amount) (\<lambda>_.
     if in_i128 (balance - amount) then Ok (balance - amount) else Err Overflow)"

definition checked_balance_add :: "i128 \<Rightarrow> i128 \<Rightarrow> i128 res" where
  "checked_balance_add balance amount =
     (if balance < 0 \<or> amount < 0 then Err InvalidAmount
      else if in_i128 (balance + amount) then Ok (balance + amount) else Err Overflow)"

section \<open>Batch allowances\<close>

text \<open>The dictionary of the \<open>BatchAmount\<close> trait: \<open>ZERO\<close>, \<open>is_negative\<close>, \<open>SafeAdd\<close>, \<open>SafeMul\<close>
  and the order used by the comparisons.\<close>

record 'a batch_amount =
  ZERO :: 'a
  is_negative :: "'a \<Rightarrow> bool"
  bsafe_add :: "'a \<Rightarrow> 'a \<Rightarrow> 'a res"
  bsafe_mul :: "'a \<Rightarrow> 'a \<Rightarrow> 'a res"
  exceeds :: "'a \<Rightarrow> 'a \<Rightarrow> bool"

definition i128_amount :: "i128 batch_amount" where
  "i128_amount = \<lparr>ZERO = 0, is_negative = (\<lambda>x. x < 0), bsafe_add = safe_add,
                  bsafe_mul = safe_mul, exceeds = (\<lambda>a b. a > b)\<rparr>"

definition u128_amount :: "u128 batch_amount" where
  "u128_amount = \<lparr>ZERO = 0, is_negative = (\<lambda>x. False), bsafe_add = safe_add_u128,
                  bsafe_mul = safe_mul_u128, exceeds = (\<lambda>a b. a > b)\<rparr>"

definition u64_amount :: "u64 batch_amount" where
  "u64_amount = \<lparr>ZERO = 0, is_negative = (\<lambda>x. False), bsafe_add = safe_add_u64,
                 bsafe_mul = safe_mul_u64, exceeds = (\<lambda>a b. a > b)\<rparr>"

text \<open>The aggregate loop: every amount non-negative, summed with the checked addition.\<close>

fun sum_amounts :: "'a batch_amount \<Rightarrow> 'a list \<Rightarrow> 'a \<Rightarrow> 'a res" where
  "sum_amounts N [] tot = Ok tot"
| "sum_amounts N (a # as) tot =
     (if is_negative N a then Err InvalidAmount
      else rbind (bsafe_add N tot a) (sum_amounts N as))"

text \<open>The pairwise loop over the zipped amounts and limits.\<close>

fun sum_pairs :: "'a batch_amount \<Rightarrow> ('a \<times> 'a) list \<Rightarrow> 'a \<Rightarrow> 'a res" where
  "sum_pairs N [] tot = Ok tot"
| "sum_pairs N ((amount, limit) # ps) tot =
     (if is_negative N amount \<or> is_negative N limit then Err InvalidAmount
      else if exceeds N amount limit then Err AllowanceExceeded
      else rbind (bsafe_add N tot amount) (sum_pairs N ps))"

definition verify_batch_allowance_pairs :: "'a batch_amount \<Rightarrow> ('a \<times> 'a) list \<Rightarrow> 'a res" where
  "verify_batch_allowance_pairs N items = sum_pairs N items (ZERO N)"

definition verify_batch_allowance_aggregate ::
  "'a batch_amount \<Rightarrow> 'a list \<Rightarrow> 'a \<Rightarrow> 'a res" where
  "verify_batch_allowance_aggregate N amounts limit =
     (if is_negative N limit then Err InvalidAmount
      else rbind (sum_amounts N amounts (ZERO N)) (\<lambda>tot.
           if exceeds N tot limit then Err AllowanceExceeded else Ok tot))"

definition verify_batch_allowance :: "'a batch_amount \<Rightarrow> 'a list \<Rightarrow> 'a list \<Rightarrow> 'a res" where
  "verify_batch_allowance N amounts limits =
     (if amounts = [] then
        (if limits = [] then Ok (ZERO N)
         else if length limits = 1 then
           (if is_negative N (hd limits) then Err InvalidAmount else Ok (ZERO N))
         else Err InvalidInput)
      else if limits = [] then Err InvalidInput
      else if length limits = 1 then
        (if is_negative N (hd limits) then Err InvalidAmount
         else rbind (sum_amounts N amounts (ZERO N)) (\<lambda>tot.
              if exceeds N tot (hd limits) then Err AllowanceExceeded else Ok tot))
      else if length limits = length amounts then
        sum_pairs N (zip amounts limits) (ZERO N)
      else Err InvalidInput)"

text \<open>The two loops with multipliers; \<open>cost = amount * multiplier\<close> is checked as well.\<close>

fun sum_costs :: "'a batch_amount \<Rightarrow> ('a \<times> 'a) list \<Rightarrow> 'a \<Rightarrow> 'a res" where
  "sum_costs N [] tot = Ok tot"
| "sum_costs N ((amount, multiplier) # ps) tot =
     (if is_negative N amount \<or> is_negative N multiplier then Err InvalidAmount
      else rbind (bsafe_mul N amount multiplier) (\<lambda>cost.
           rbind (bsafe_add N tot cost) (sum_costs N ps)))"

fun sum_cost_limits :: "'a batch_amount \<Rightarrow> (('a \<times> 'a) \<times> 'a) list \<Rightarrow> 'a \<Rightarrow> 'a res" where
  "sum_cost_limits N [] tot = Ok tot"
| "sum_cost_limits N (((amount, multiplier), limit) # ps) tot =
     (if is_negative N amount \<or> is_negative N multiplier \<or> is_negative N limit
      then Err InvalidAmount
      else rbind (bsafe_mul N amount multiplier) (\<lambda>cost.
           if exceeds N cost limit then Err AllowanceExceeded
           else rbind (bsafe_add N tot cost) (sum_cost_limits N ps)))"

definition verify_batch_allowance_with_multipliers ::
  "'a batch_amount \<Rightarrow> 'a list \<Rightarrow> 'a list \<Rightarrow> 'a list \<Rightarrow> 'a res" where
  "verify_batch_allowance_with_multipliers N amounts multipliers limits =
     (if multipliers = [] then verify_batch_allowance N amounts limits
      else if length multipliers \<noteq> length amounts then Err InvalidInput
      else if amounts = [] then verify_batch_allowance N amounts limits
      else if limits = [] then Err InvalidInput
      else if length limits = 1 then
        (if is_negative N (hd limits) then Err InvalidAmount
         else rbind (sum_costs N (zip amounts multipliers) (ZERO N)) (\<lambda>tot.
              if exceeds N tot (hd limits) then Err AllowanceExceeded else Ok tot))
      else if length limits = length amounts then
        sum_cost_limits N (zip (zip amounts multipliers) limits) (ZERO N)
      else Err InvalidInput)"

text \<open>The streaming verifier pulls amounts and limits in lock step.\<close>

fun stream_pairs :: "'a batch_amount \<Rightarrow> 'a list \<Rightarrow> 'a list \<Rightarrow> 'a \<Rightarrow> 'a res" where
  "stream_pairs N (amount # as) (limit # ls) tot =
     (if is_negative N amount \<or> is_negative N limit then Err InvalidAmount
      else if exceeds N amount limit then Err AllowanceExceeded
      else rbind (bsafe_add N tot amount) (stream_pairs N as ls))"
| "stream_pairs N [] [] tot = Ok tot"
| "stream_pairs N _ _ tot = Err InvalidInput"

definition verify_batch_allowance_iter :: "'a batch_amount \<Rightarrow> 'a list \<Rightarrow> 'a list \<Rightarrow> 'a res" where
  "verify_batch_allowance_iter N amounts limits =
     (case limits of
        [] \<Rightarrow> (case amounts of [] \<Rightarrow> Ok (ZERO N) | _ # _ \<Rightarrow> Err InvalidInput)
      | [first_limit] \<Rightarrow>
          (if is_negative N first_limit then Err InvalidAmount
           else rbind (sum_amounts N amounts (ZERO N)) (\<lambda>tot.
                if exceeds N tot first_limit then Err AllowanceExceeded else Ok tot))
      | first_limit # second_limit # ls \<Rightarrow>
          (case amounts of
             [] \<Rightarrow> Err InvalidInput
           | first_amount # as \<Rightarrow>
               if is_negative N first_amount \<or> is_negative N first_limit then Err InvalidAmount
               else if exceeds N first_amount first_limit then Err AllowanceExceeded
               else (case as of
                  [] \<Rightarrow> Err InvalidInput
                | second_amount # as' \<Rightarrow>
                    if is_negative N second_amount \<or> is_negative N second_limit
                    then Err InvalidAmount
                    else if exceeds N second_amount second_limit then Err AllowanceExceeded
                    else rbind (bsafe_add N first_amount second_amount)
                           (stream_pairs N as' ls))))"

section \<open>Budget rollover\<close>

definition BPS_DENOMINATOR :: i128 where
  "BPS_DENOMINATOR = 10000"

definition calculate_budget_rollover :: "i128 \<Rightarrow> i128 \<Rightarrow> i128 \<Rightarrow> i128 res" where
  "calculate_budget_rollover unspent rollover_bps max_rollover_cap =
     (if unspent < 0 \<or> rollover_bps < 0 \<or> max_rollover_cap < 0 then Err InvalidAmount
      else if rollover_bps > BPS_DENOMINATOR then Err InvalidInput
      else if unspent = 0 \<or> rollover_bps = 0 then Ok 0
      else rbind (safe_div unspent BPS_DENOMINATOR) (\<lambda>q.
           rbind (checked_rem unspent BPS_DENOMINATOR) (\<lambda>r.
           rbind (safe_mul q rollover_bps) (\<lambda>whole.
           rbind (rbind (safe_mul r rollover_bps) (\<lambda>x. safe_div x BPS_DENOMINATOR)) (\<lambda>part.
           rbind (safe_add whole part) (\<lambda>credit.
           if max_rollover_cap > 0 \<and> credit > max_rollover_cap
           then Ok max_rollover_cap else Ok credit))))))"

definition calculate_rollover_allowance :: "i128 \<Rightarrow> i128 \<Rightarrow> i128 \<Rightarrow> i128 \<Rightarrow> i128 res" where
  "calculate_rollover_allowance base_limit unspent rollover_bps max_rollover_cap =
     (if base_limit < 0 then Err InvalidAmount
      else rbind (calculate_budget_rollover unspent rollover_bps max_rollover_cap) (\<lambda>credit.
           safe_add base_limit credit))"

section \<open>Inversion of the checked operations\<close>

lemma safe_add_Ok [ok_simps]: "safe_add a b = Ok c \<longleftrightarrow> c = a + b \<and> in_i128 (a + b)"
  by (auto simp: safe_add_def)

lemma safe_sub_Ok [ok_simps]: "safe_sub a b = Ok c \<longleftrightarrow> c = a - b \<and> in_i128 (a - b)"
  by (auto simp: safe_sub_def)

lemma safe_mul_Ok [ok_simps]: "safe_mul a b = Ok c \<longleftrightarrow> c = a * b \<and> in_i128 (a * b)"
  by (auto simp: safe_mul_def)

lemma safe_div_Ok [ok_simps]:
  "safe_div a b = Ok c \<longleftrightarrow> b \<noteq> 0 \<and> c = a sdiv b \<and> in_i128 (a sdiv b)"
  by (auto simp: safe_div_def)

lemma checked_ops_Ok [ok_simps]:
  "checked_add a b = Ok c \<longleftrightarrow> c = a + b \<and> in_i128 (a + b)"
  "checked_sub a b = Ok c \<longleftrightarrow> c = a - b \<and> in_i128 (a - b)"
  "checked_mul a b = Ok c \<longleftrightarrow> c = a * b \<and> in_i128 (a * b)"
  "checked_div a b = Ok c \<longleftrightarrow> b \<noteq> 0 \<and> c = a sdiv b \<and> in_i128 (a sdiv b)"
  by (simp_all add: checked_add_def checked_sub_def checked_mul_def checked_div_def
      safe_add_Ok safe_sub_Ok safe_mul_Ok safe_div_Ok)

lemma validate_sufficient_balance_Ok [ok_simps]:
  "validate_sufficient_balance b a = Ok u \<longleftrightarrow> 0 \<le> a \<and> a \<le> b"
  by (auto simp: validate_sufficient_balance_def)

lemma checked_balance_sub_Ok [ok_simps]:
  "checked_balance_sub b a = Ok c \<longleftrightarrow> 0 \<le> a \<and> a \<le> b \<and> c = b - a \<and> in_i128 (b - a)"
  by (auto simp: checked_balance_sub_def ok_simps)

lemma checked_balance_add_Ok [ok_simps]:
  "checked_balance_add b a = Ok c \<longleftrightarrow> 0 \<le> a \<and> 0 \<le> b \<and> c = b + a \<and> in_i128 (b + a)"
  by (auto simp: checked_balance_add_def)

section \<open>The checked operations against 128-bit machine words\<close>

lemma sint_word_i128: "sint (word_of_int x :: 128 word) = x \<longleftrightarrow> in_i128 x"
proof -
  have "sint (word_of_int x :: 128 word) = signed_take_bit 127 x"
    by (simp add: sint_sbintrunc')
  then show ?thesis
    by (auto simp: signed_take_bit_int_eq_self_iff in_i128_def int_limits)
qed

lemma safe_ops_of_word:
  "safe_add a b = (if sint (word_of_int a + word_of_int b :: 128 word) = a + b
                   then Ok (a + b) else Err Overflow)"
  "safe_sub a b = (if sint (word_of_int a - word_of_int b :: 128 word) = a - b
                   then Ok (a - b) else Err Overflow)"
  "safe_mul a b = (if sint (word_of_int a * word_of_int b :: 128 word) = a * b
                   then Ok (a * b) else Err Overflow)"
  unfolding wi_hom_add wi_hom_sub wi_hom_mult sint_word_i128
  by (simp_all add: safe_add_def safe_sub_def safe_mul_def)

section \<open>Balance arithmetic\<close>

lemma in_i128_diff_nonneg: "0 \<le> a \<Longrightarrow> a \<le> b \<Longrightarrow> in_i128 b \<Longrightarrow> in_i128 (b - a)"
  by (simp add: in_i128_def int_limits)

lemma checked_balance_sub_eq:
  assumes "in_i128 balance"
  shows "checked_balance_sub balance amount =
     (if balance < 0 \<or> amount < 0 then Err InvalidAmount
      else if balance < amount then Err InsufficientFunds else Ok (balance - amount))"
  using assms
  by (auto simp: checked_balance_sub_def validate_sufficient_balance_def in_i128_diff_nonneg)

section \<open>Batch allowances\<close>

text \<open>
  The laws of a \<open>BatchAmount\<close> dictionary: \<open>val\<close> reads an amount as a number and \<open>top\<close> is the
  largest representable one. On non-negative operands the checked operations are exact or report
  \<open>Overflow\<close>.
\<close>

locale batch_amount_laws =
  fixes N :: "'a batch_amount"
    and val :: "'a \<Rightarrow> int"
    and top :: int
  assumes val_zero: "val (ZERO N) = 0"
    and top_nonneg: "0 \<le> top"
    and val_inj: "val a = val b \<Longrightarrow> a = b"
    and negative_iff: "is_negative N a \<longleftrightarrow> val a < 0"
    and exceeds_iff: "exceeds N a b \<longleftrightarrow> val b < val a"
    and add_exact: "0 \<le> val a \<Longrightarrow> 0 \<le> val b \<Longrightarrow>
          bsafe_add N a b = Ok c \<longleftrightarrow> val c = val a + val b \<and> val a + val b \<le> top"
    and mul_exact: "0 \<le> val a \<Longrightarrow> 0 \<le> val b \<Longrightarrow>
          bsafe_mul N a b = Ok c \<longleftrightarrow> val c = val a * val b \<and> val a * val b \<le> top"
    and representable: "0 \<le> x \<Longrightarrow> x \<le> top \<Longrightarrow> \<exists>a. val a = x"
begin

lemma sum_amounts_Ok:
  assumes "0 \<le> val acc" and "val acc \<le> top"
  shows "sum_amounts N as acc = Ok t \<longleftrightarrow>
     (\<forall>a \<in> set as. 0 \<le> val a) \<and> val t = val acc + sum_list (map val as) \<and>
     val acc + sum_list (map val as) \<le> top"
  using assms
proof (induction as arbitrary: acc)
  case Nil
  then show ?case by (auto dest: val_inj)
next
  case (Cons a as)
  show ?case
  proof (cases "is_negative N a")
    case True
    then show ?thesis by (auto simp: negative_iff)
  next
    case False
    then have a: "0 \<le> val a" by (simp add: negative_iff)
    have nonneg: "0 \<le> sum_list (map val as)" if "\<forall>a \<in> set as. 0 \<le> val a"
      using that by (induction as) auto
    show ?thesis
    proof
      assume "sum_amounts N (a # as) acc = Ok t"
      then obtain b where b: "bsafe_add N acc a = Ok b" and rest: "sum_amounts N as b = Ok t"
        using False by (auto simp: ok_simps)
      from b a Cons.prems have vb: "val b = val acc + val a" "val acc + val a \<le> top"
        by (simp_all add: add_exact)
      with rest a Cons.prems Cons.IH [of b] show
        "(\<forall>x \<in> set (a # as). 0 \<le> val x) \<and> val t = val acc + sum_list (map val (a # as)) \<and>
         val acc + sum_list (map val (a # as)) \<le> top"
        by (simp add: add.assoc)
    next
      assume *: "(\<forall>x \<in> set (a # as). 0 \<le> val x) \<and>
        val t = val acc + sum_list (map val (a # as)) \<and>
        val acc + sum_list (map val (a # as)) \<le> top"
      then have le: "val acc + val a \<le> top" using nonneg by auto
      moreover have "0 \<le> val acc + val a" using a Cons.prems by simp
      ultimately obtain b where "val b = val acc + val a" using representable by blast
      with * a le Cons.prems Cons.IH [of b] False show "sum_amounts N (a # as) acc = Ok t"
        by (auto simp: ok_simps add_exact add.assoc intro!: exI [of _ b])
    qed
  qed
qed

lemma sum_pairs_Ok:
  "0 \<le> val acc \<Longrightarrow> val acc \<le> top \<Longrightarrow> sum_pairs N ps acc = Ok t \<longleftrightarrow>
     (\<forall>(a, l) \<in> set ps. 0 \<le> val a \<and> val a \<le> val l) \<and> sum_amounts N (map fst ps) acc = Ok t"
proof (induction ps arbitrary: acc)
  case Nil
  then show ?case by simp
next
  case (Cons p ps)
  obtain a l where p: "p = (a, l)" by (cases p)
  show ?case
  proof (cases "0 \<le> val a \<and> val a \<le> val l")
    case True
    then have "sum_pairs N (p # ps) acc = rbind (bsafe_add N acc a) (sum_pairs N ps)"
      and "sum_amounts N (map fst (p # ps)) acc =
             rbind (bsafe_add N acc a) (sum_amounts N (map fst ps))"
      by (auto simp: p negative_iff exceeds_iff)
    with True Cons show ?thesis by (auto simp: p ok_simps add_exact)
  next
    case False
    then show ?thesis by (auto simp: p negative_iff exceeds_iff)
  qed
qed

lemma sum_costs_eq:
  "0 \<le> val acc \<Longrightarrow> val acc \<le> top \<Longrightarrow> sum_costs N ps acc = Ok t \<Longrightarrow>
     val t = val acc + (\<Sum>(a, m)\<leftarrow>ps. val a * val m) \<and> val acc \<le> val t \<and> val t \<le> top"
proof (induction ps arbitrary: acc)
  case Nil
  then show ?case by simp
next
  case (Cons p ps)
  obtain a m where p: "p = (a, m)" by (cases p)
  from Cons.prems obtain c b where am: "0 \<le> val a" "0 \<le> val m"
    and c: "bsafe_mul N a m = Ok c" and b: "bsafe_add N acc c = Ok b"
    and rest: "sum_costs N ps b = Ok t"
    by (auto simp: p ok_simps negative_iff)
  from c am have vc: "val c = val a * val m" by (simp add: mul_exact)
  with am have "0 \<le> val c" by simp
  with b Cons.prems have vb: "val b = val acc + val c" "val acc + val c \<le> top"
    by (simp_all add: add_exact)
  have "val t = val b + (\<Sum>(a, m)\<leftarrow>ps. val a * val m) \<and> val b \<le> val t \<and> val t \<le> top"
    using Cons.IH [of b] rest vb \<open>0 \<le> val c\<close> Cons.prems by simp
  with vb vc \<open>0 \<le> val c\<close> show ?case by (simp add: p)
qed

lemma aggregate_Ok:
  "verify_batch_allowance_aggregate N amounts l = Ok t \<longleftrightarrow>
     0 \<le> val l \<and> (\<forall>a \<in> set amounts. 0 \<le> val a) \<and> val t = sum_list (map val amounts) \<and>
     sum_list (map val amounts) \<le> min top (val l)"
  by (auto simp: verify_batch_allowance_aggregate_def ok_simps negative_iff exceeds_iff
      sum_amounts_Ok val_zero top_nonneg)

lemma stream_pairs_eq:
  "length as = length ls \<Longrightarrow> stream_pairs N as ls acc = sum_pairs N (zip as ls) acc"
proof (induction N as ls acc rule: stream_pairs.induct)
  case (1 N a as l ls tot)
  then show ?case by (cases "bsafe_add N tot a") auto
qed auto

lemma stream_pairs_Ok_length: "stream_pairs N as ls acc = Ok t \<Longrightarrow> length as = length ls"
  by (induction N as ls acc rule: stream_pairs.induct) (auto simp: ok_simps)

lemma iter_long_eq_stream:
  "verify_batch_allowance_iter N amounts (l1 # l2 # ls) = Ok t \<longleftrightarrow>
   stream_pairs N amounts (l1 # l2 # ls) (ZERO N) = Ok t"
proof (cases amounts)
  case Nil
  then show ?thesis by (simp add: verify_batch_allowance_iter_def)
next
  case (Cons a as)
  have z: "bsafe_add N (ZERO N) a = Ok x \<longleftrightarrow> x = a \<and> val a \<le> top" if "0 \<le> val a" for x
    using that by (auto simp: add_exact val_zero dest: val_inj)
  show ?thesis
  proof (cases "0 \<le> val a \<and> val a \<le> val l1")
    case False
    then show ?thesis
      by (auto simp: Cons verify_batch_allowance_iter_def ok_simps negative_iff exceeds_iff)
  next
    case True
    show ?thesis
    proof (cases as)
      case Nil
      with True z show ?thesis
        by (auto simp: Cons verify_batch_allowance_iter_def ok_simps negative_iff exceeds_iff)
    next
      case as: (Cons a2 as2)
      have "val a \<le> top" if "0 \<le> val a2" "bsafe_add N a a2 = Ok b" for b
        using that True by (simp add: add_exact)
      with True z as show ?thesis
        by (auto simp: Cons verify_batch_allowance_iter_def ok_simps negative_iff exceeds_iff)
    qed
  qed
qed

lemma iter_agrees:
  "verify_batch_allowance_iter N amounts limits = Ok t \<longleftrightarrow>
   verify_batch_allowance N amounts limits = Ok t"
proof (cases limits)
  case Nil
  then show ?thesis
    by (cases amounts) (simp_all add: verify_batch_allowance_iter_def verify_batch_allowance_def)
next
  case (Cons l1 ls')
  show ?thesis
  proof (cases ls')
    case Nil
    then show ?thesis
      by (cases amounts)
        (auto simp: Cons verify_batch_allowance_iter_def verify_batch_allowance_def ok_simps
          exceeds_iff val_zero negative_iff)
  next
    case ls: (Cons l2 ls)
    then have len: "length limits \<noteq> 1" "limits \<noteq> []" using Cons by auto
    have "verify_batch_allowance_iter N amounts limits = Ok t \<longleftrightarrow>
          stream_pairs N amounts limits (ZERO N) = Ok t"
      by (simp only: Cons ls iter_long_eq_stream)
    also have "\<dots> \<longleftrightarrow> length amounts = length limits \<and>
          sum_pairs N (zip amounts limits) (ZERO N) = Ok t"
      using stream_pairs_Ok_length stream_pairs_eq by metis
    also have "\<dots> \<longleftrightarrow> verify_batch_allowance N amounts limits = Ok t"
      using len by (auto simp: verify_batch_allowance_def)
    finally show ?thesis .
  qed
qed

end

interpretation i128: batch_amount_laws i128_amount "\<lambda>x. x" i128_max
proof unfold_locales
  fix a b c :: int
  assume ab: "0 \<le> a" "0 \<le> b"
  then have "0 \<le> a * b" by simp
  then show "bsafe_mul i128_amount a b = Ok c \<longleftrightarrow> c = a * b \<and> a * b \<le> i128_max"
    by (auto simp: i128_amount_def safe_mul_def in_i128_def int_limits)
qed (auto simp: i128_amount_def safe_add_def in_i128_def int_limits)

interpretation u128: batch_amount_laws u128_amount int "int u128_max"
  by unfold_locales
    (auto simp: u128_amount_def safe_add_u128_def safe_mul_u128_def ok_simps
      simp flip: of_nat_add of_nat_mult dest: zero_le_imp_eq_int)

interpretation u64: batch_amount_laws u64_amount int "int u64_max"
  by unfold_locales
    (auto simp: u64_amount_def safe_add_u64_def safe_mul_u64_def ok_simps
      simp flip: of_nat_add of_nat_mult dest: zero_le_imp_eq_int)

section \<open>Budget rollover\<close>

lemma sdiv_nonneg: "0 \<le> a \<Longrightarrow> 0 < b \<Longrightarrow> a sdiv b = a div b" for a b :: int
  by (cases "a = 0") (simp_all add: signed_divide_int_def)

lemma smod_nonneg: "0 \<le> a \<Longrightarrow> 0 < b \<Longrightarrow> a smod b = a mod b" for a b :: int
  by (cases "a = 0") (simp_all add: signed_modulo_int_def sdiv_nonneg minus_div_mult_eq_mod)

lemma split_scaling:
  fixes u b d :: int
  assumes "0 < d"
  shows "(u div d) * b + ((u mod d) * b) div d = (u * b) div d"
proof -
  have "u * b = (u mod d) * b + (u div d) * b * d"
    by (simp add: algebra_simps flip: distrib_left)
  then show ?thesis using assms by simp
qed

text \<open>Splitting into quotient and remainder keeps every intermediate value in range.\<close>

lemma rollover_in_range:
  assumes "0 \<le> u" "u \<le> i128_max" "0 \<le> b" "b \<le> BPS_DENOMINATOR"
  shows "in_i128 (u div BPS_DENOMINATOR)" "in_i128 (u div BPS_DENOMINATOR * b)"
    "in_i128 (u mod BPS_DENOMINATOR * b)"
    "in_i128 (u mod BPS_DENOMINATOR * b div BPS_DENOMINATOR)"
    "in_i128 (u * b div BPS_DENOMINATOR)"
proof -
  let ?d = "BPS_DENOMINATOR"
  have d: "0 < ?d" "?d = 10000" by (simp_all add: BPS_DENOMINATOR_def)
  have q: "0 \<le> u div ?d" using assms d by (simp add: pos_imp_zdiv_nonneg_iff)
  have r: "0 \<le> u mod ?d" "u mod ?d < ?d" using d by simp_all
  have "u div ?d * b \<le> u div ?d * ?d" using assms q by (simp add: mult_left_mono)
  also have "\<dots> \<le> u" using r by (simp add: minus_mod_eq_div_mult [symmetric])
  finally have qb: "u div ?d * b \<le> u" .
  have "u div ?d \<le> u" using assms d by (simp add: zdiv_mono2 [of u 1 ?d, simplified])
  with q assms show "in_i128 (u div ?d)" by (simp add: in_i128_def int_limits)
  have "0 \<le> u div ?d * b" using q assms by simp
  with qb assms show "in_i128 (u div ?d * b)" by (simp add: in_i128_def int_limits)
  have "u mod ?d * b \<le> ?d * ?d" using r assms by (intro mult_mono) simp_all
  then have rb: "0 \<le> u mod ?d * b" "u mod ?d * b \<le> 100000000" using r assms
    by (simp_all add: BPS_DENOMINATOR_def)
  then show "in_i128 (u mod ?d * b)" by (simp add: in_i128_def int_limits)
  have p: "0 \<le> u mod ?d * b div ?d" "u mod ?d * b div ?d \<le> u mod ?d * b"
    using rb d by (simp_all add: pos_imp_zdiv_nonneg_iff zdiv_mono2 [of _ 1 ?d, simplified])
  then show "in_i128 (u mod ?d * b div ?d)" using rb by (simp add: in_i128_def int_limits)
  have "u * b div ?d \<le> u * ?d div ?d" using assms d
    by (intro zdiv_mono1 mult_left_mono) simp_all
  then have "u * b div ?d \<le> u" using d by simp
  moreover have "0 \<le> u * b div ?d" using assms d by (simp add: pos_imp_zdiv_nonneg_iff)
  ultimately show "in_i128 (u * b div ?d)" using assms by (simp add: in_i128_def int_limits)
qed

lemma calculate_budget_rollover_uncapped:
  assumes "0 < u" "u \<le> i128_max" "0 < b" "b \<le> BPS_DENOMINATOR" "0 \<le> c"
  shows "calculate_budget_rollover u b c =
     (if c > 0 \<and> u * b div BPS_DENOMINATOR > c then Ok c else Ok (u * b div BPS_DENOMINATOR))"
proof -
  let ?d = "BPS_DENOMINATOR"
  have d: "0 < ?d" by (simp add: BPS_DENOMINATOR_def)
  note R = rollover_in_range [of u b]
  have rb: "0 \<le> u mod ?d * b" using assms d by simp
  have "safe_div u ?d = Ok (u div ?d)" "checked_rem u ?d = Ok (u mod ?d)"
    "safe_mul (u div ?d) b = Ok (u div ?d * b)" "safe_mul (u mod ?d) b = Ok (u mod ?d * b)"
    "safe_div (u mod ?d * b) ?d = Ok (u mod ?d * b div ?d)"
    "safe_add (u div ?d * b) (u mod ?d * b div ?d) = Ok (u * b div ?d)"
    using assms d R rb
    by (simp_all add: safe_div_def checked_rem_def safe_mul_def safe_add_def sdiv_nonneg smod_nonneg
        split_scaling i128_min_def)
  then show ?thesis using assms by (simp add: calculate_budget_rollover_def)
qed

lemma calculate_budget_rollover_eq:
  assumes "0 \<le> unspent" "unspent \<le> i128_max" "0 \<le> bps" "bps \<le> BPS_DENOMINATOR" "0 \<le> cap"
  shows "calculate_budget_rollover unspent bps cap =
     Ok (if cap > 0 then min (unspent * bps div 10000) cap else unspent * bps div 10000)"
proof (cases "unspent = 0 \<or> bps = 0")
  case True
  then show ?thesis using assms by (auto simp: calculate_budget_rollover_def BPS_DENOMINATOR_def)
next
  case False
  then show ?thesis using assms calculate_budget_rollover_uncapped [of unspent bps cap]
    by (auto simp: BPS_DENOMINATOR_def)
qed

section \<open>Properties\<close>

text \<open>The checked \<open>i128\<close> addition, subtraction and multiplication agree with two's-complement
  128-bit arithmetic: they return the machine result exactly when it did not wrap, and report
  \<open>Overflow\<close> otherwise.\<close>

theorem checked_arithmetic_never_wraps:
  "checked_add a b = (if sint (word_of_int a + word_of_int b :: 128 word) = a + b
                      then Ok (a + b) else Err Overflow)
   \<and> checked_sub a b = (if sint (word_of_int a - word_of_int b :: 128 word) = a - b
                        then Ok (a - b) else Err Overflow)
   \<and> checked_mul a b = (if sint (word_of_int a * word_of_int b :: 128 word) = a * b
                        then Ok (a * b) else Err Overflow)"
  unfolding checked_add_def checked_sub_def checked_mul_def by (intro conjI) (rule safe_ops_of_word)+

text \<open>A batch against one aggregate limit is accepted exactly when every amount and the limit
  are non-negative and the true sum is representable and within the limit; the reported total is
  that sum.\<close>

theorem batch_allowance_aggregate_exact:
  "verify_batch_allowance i128_amount amounts [limit] = Ok t \<longleftrightarrow>
     0 \<le> limit \<and> list_all (\<lambda>a. 0 \<le> a) amounts \<and>
     t = sum_list amounts \<and> sum_list amounts \<le> min i128_max limit"
proof -
  have "verify_batch_allowance i128_amount amounts [limit] = Ok t \<longleftrightarrow>
        verify_batch_allowance_aggregate i128_amount amounts limit = Ok t"
    by (cases amounts)
      (auto simp: verify_batch_allowance_def verify_batch_allowance_aggregate_def i128_amount_def)
  then show ?thesis by (auto simp: i128.aggregate_Ok list_all_iff)
qed

text \<open>The streaming verifier accepts exactly the batches the slice verifier accepts, with the
  same total, for each of the three amount types. (Their error codes may differ: the stream
  reports a bad leg before it can see that the lengths differ.)\<close>

theorem batch_iter_agrees_with_slices:
  "(verify_batch_allowance_iter i128_amount as ls = Ok t \<longleftrightarrow>
    verify_batch_allowance i128_amount as ls = Ok t)
   \<and> (verify_batch_allowance_iter u128_amount bs ks = Ok u \<longleftrightarrow>
      verify_batch_allowance u128_amount bs ks = Ok u)
   \<and> (verify_batch_allowance_iter u64_amount bs ks = Ok u \<longleftrightarrow>
      verify_batch_allowance u64_amount bs ks = Ok u)"
  by (intro conjI i128.iter_agrees u128.iter_agrees u64.iter_agrees)

text \<open>For every representable unspent amount and every valid percentage the rollover is the
  exact floor of \<open>unspent * bps / 10000\<close>, clamped to the cap when there is one; the computation
  never overflows, even at the largest amount.\<close>

theorem calculate_budget_rollover_exact:
  assumes "0 \<le> unspent" "unspent \<le> i128_max" "0 \<le> bps" "bps \<le> BPS_DENOMINATOR" "0 \<le> cap"
  shows "calculate_budget_rollover unspent bps cap =
     Ok (if cap > 0 then min (unspent * bps div 10000) cap else unspent * bps div 10000)"
  using assms by (rule calculate_budget_rollover_eq)

theorem calculate_budget_rollover_exact_witness:
  "calculate_budget_rollover i128_max 5000 1000 = Ok 1000 \<and>
   calculate_budget_rollover 333 5000 0 = Ok 166"
  using calculate_budget_rollover_exact [of i128_max 5000 1000]
    calculate_budget_rollover_exact [of 333 5000 0]
  by (simp add: BPS_DENOMINATOR_def i128_max_def)

end
