(* ===== verification/Shared_Types.thy ===== *)
theory Shared_Types
  imports Safe_Math
begin

text \<open>
  The protocol vocabulary: the \<open>contracttype\<close> values of \<^verbatim>\<open>shared/src/types.rs\<close>, the limits of
  \<^verbatim>\<open>shared/src/constants.rs\<close> and the guards of \<^verbatim>\<open>shared/src/validation.rs\<close>, with the multi-signer
  quorum check.
\<close>

section \<open>Types\<close>

record asset_amount =
  asset :: address
  amount :: i128

datatype resource_state = Active | Frozen | Paused | Archived

datatype module_kind =
    KWallet | KTreasury | KMultisig | KProposal | KPolicy | KBudget | KEscrow | KOrganization

record module_id =
  mi_org :: string
  mi_kind :: module_kind

record module_info =
  mi_address :: address
  mi_deprecated :: bool

record payment =
  recipient :: address
  pay_amount :: i128

section \<open>Constants\<close>

definition SECONDS_PER_DAY :: u64 where "SECONDS_PER_DAY = 86400"
definition SECONDS_PER_WEEK :: u64 where "SECONDS_PER_WEEK = 604800"
definition SECONDS_PER_MONTH :: u64 where "SECONDS_PER_MONTH = 2592000"
definition DAY_IN_LEDGERS :: u32 where "DAY_IN_LEDGERS = 17280"
definition MAX_SIGNERS :: u32 where "MAX_SIGNERS = 20"
definition MIN_THRESHOLD :: u32 where "MIN_THRESHOLD = 1"
definition MIN_TIMELOCK_DELAY :: u64 where "MIN_TIMELOCK_DELAY = SECONDS_PER_DAY"
definition MAX_TIMELOCK_DELAY :: u64 where "MAX_TIMELOCK_DELAY = 30 * SECONDS_PER_DAY"
definition GOVERNANCE_GRACE_PERIOD :: u64 where "GOVERNANCE_GRACE_PERIOD = SECONDS_PER_WEEK"
definition MAX_APPROVERS :: u32 where "MAX_APPROVERS = 32"
definition PROPOSAL_QUORUM_PERCENT :: u32 where "PROPOSAL_QUORUM_PERCENT = 50"
definition MAX_DEPENDENCIES :: u32 where "MAX_DEPENDENCIES = 8"
definition MAX_BATCH_CALLS :: u32 where "MAX_BATCH_CALLS = 16"
definition MAX_BATCH_PAYMENTS :: u32 where "MAX_BATCH_PAYMENTS = 32"
definition MAX_BATCH_TOKENS :: u32 where "MAX_BATCH_TOKENS = 16"
definition MAX_PRUNE_BATCH :: u32 where "MAX_PRUNE_BATCH = 32"
definition MAX_ESCROW_ASSETS :: u32 where "MAX_ESCROW_ASSETS = 10"
definition MAX_PAUSE_DURATION :: u64 where "MAX_PAUSE_DURATION = SECONDS_PER_MONTH"
definition MAX_REGISTRY_BATCH :: u32 where "MAX_REGISTRY_BATCH = 10"
definition UPGRADE_PROPOSAL_EXPIRY :: u64 where "UPGRADE_PROPOSAL_EXPIRY = SECONDS_PER_WEEK"
definition MAX_UPGRADE_AUDIT_ENTRIES :: u32 where "MAX_UPGRADE_AUDIT_ENTRIES = 32"
definition THRESHOLD_CHANGE_DELAY_LEDGERS :: u32 where
  "THRESHOLD_CHANGE_DELAY_LEDGERS = DAY_IN_LEDGERS"

lemmas limit_defs =
  SECONDS_PER_DAY_def SECONDS_PER_WEEK_def SECONDS_PER_MONTH_def DAY_IN_LEDGERS_def
  MAX_SIGNERS_def MIN_THRESHOLD_def MIN_TIMELOCK_DELAY_def MAX_TIMELOCK_DELAY_def
  GOVERNANCE_GRACE_PERIOD_def MAX_APPROVERS_def PROPOSAL_QUORUM_PERCENT_def MAX_DEPENDENCIES_def
  MAX_BATCH_CALLS_def MAX_BATCH_PAYMENTS_def MAX_BATCH_TOKENS_def MAX_PRUNE_BATCH_def
  MAX_ESCROW_ASSETS_def MAX_PAUSE_DURATION_def MAX_REGISTRY_BATCH_def UPGRADE_PROPOSAL_EXPIRY_def
  MAX_UPGRADE_AUDIT_ENTRIES_def THRESHOLD_CHANGE_DELAY_LEDGERS_def

section \<open>Guards\<close>

definition require_valid_wasm_hash :: "bytes \<Rightarrow> unit res" where
  "require_valid_wasm_hash hash = (if hash = replicate 32 0 then Err InvalidInput else Ok ())"

definition require_positive_amount :: "i128 \<Rightarrow> unit res" where
  "require_positive_amount a = (if a \<le> 0 then Err InvalidAmount else Ok ())"

definition require_non_negative_amount :: "i128 \<Rightarrow> unit res" where
  "require_non_negative_amount a = (if a < 0 then Err InvalidAmount else Ok ())"

definition require_non_empty :: "string \<Rightarrow> unit res" where
  "require_non_empty value = (if value = [] then Err InvalidInput else Ok ())"

definition require_not_expired :: "env \<Rightarrow> u64 \<Rightarrow> unit res" where
  "require_not_expired env expiry = (if timestamp env \<ge> expiry then Err ProposalExpired else Ok ())"

definition require_time_reached :: "env \<Rightarrow> u64 \<Rightarrow> unit res" where
  "require_time_reached env unlock_at =
     (if timestamp env < unlock_at then Err TimelockNotExpired else Ok ())"

definition require_within_amount_bounds :: "i128 \<Rightarrow> i128 \<Rightarrow> i128 \<Rightarrow> unit res" where
  "require_within_amount_bounds v lo hi =
     (if v < lo then Err PolicyDenied
      else if hi \<noteq> 0 \<and> v > hi then Err PolicyDenied else Ok ())"

lemma guards_Ok [ok_simps]:
  "require_valid_wasm_hash h = Ok u \<longleftrightarrow> h \<noteq> replicate 32 0"
  "require_positive_amount a = Ok u \<longleftrightarrow> 0 < a"
  "require_non_negative_amount a = Ok u \<longleftrightarrow> 0 \<le> a"
  "require_non_empty s = Ok u \<longleftrightarrow> s \<noteq> []"
  "require_not_expired env t = Ok u \<longleftrightarrow> timestamp env < t"
  "require_time_reached env t = Ok u \<longleftrightarrow> t \<le> timestamp env"
  by (auto simp: require_valid_wasm_hash_def require_positive_amount_def
      require_non_negative_amount_def require_non_empty_def require_not_expired_def
      require_time_reached_def)

section \<open>Quorum verification\<close>

text \<open>The nested index loops that look for a repeated element.\<close>

fun has_duplicate :: "'a list \<Rightarrow> bool" where
  "has_duplicate [] = False"
| "has_duplicate (x # xs) = (x \<in> set xs \<or> has_duplicate xs)"

lemma has_duplicate_iff [simp]: "has_duplicate xs \<longleftrightarrow> \<not> distinct xs"
  by (induction xs) auto

text \<open>The inner loop over the signers: the weight at the first matching index.\<close>

fun weight_at :: "address list \<Rightarrow> u32 list \<Rightarrow> address \<Rightarrow> u32 option" where
  "weight_at (s # ss) (w # ws) app = (if app = s then Some w else weight_at ss ws app)"
| "weight_at _ _ app = None"

fun quorum_weight :: "address list \<Rightarrow> u32 list \<Rightarrow> address list \<Rightarrow> u64 \<Rightarrow> u64 res" where
  "quorum_weight signers weights [] acc = Ok acc"
| "quorum_weight signers weights (app # apps) acc =
     (case weight_at signers weights app of
        None \<Rightarrow> Err NotASigner
      | Some w \<Rightarrow>
          rbind (ok_or (checked_add_word u64_max acc w) Overflow) (\<lambda>acc'.
          if acc' > u32_max then Err Overflow else quorum_weight signers weights apps acc'))"

definition verify_quorum :: "address list \<Rightarrow> u32 list \<Rightarrow> address list \<Rightarrow> u32 \<Rightarrow> unit res" where
  "verify_quorum signers weights approvals threshold =
     (if length signers \<noteq> length weights \<or> signers = [] then Err InvalidInput
      else if threshold = 0 then Err InvalidThreshold
      else if has_duplicate signers then Err InvalidInput
      else if has_duplicate approvals then Err AlreadySigned
      else rbind (quorum_weight signers weights approvals 0) (\<lambda>total_weight.
           if total_weight < threshold then Err ThresholdNotMet else Ok ()))"

lemma weight_at_map_of: "weight_at ss ws a = map_of (zip ss ws) a"
  by (induction ss ws a rule: weight_at.induct) auto

lemma quorum_weight_Ok:
  "quorum_weight ss ws apps acc = Ok t \<longleftrightarrow>
     list_all (\<lambda>a. map_of (zip ss ws) a \<noteq> None) apps \<and>
     t = acc + (\<Sum>a\<leftarrow>apps. the (map_of (zip ss ws) a)) \<and>
     (apps = [] \<or> acc + (\<Sum>a\<leftarrow>apps. the (map_of (zip ss ws) a)) \<le> u32_max)"
proof (induction apps arbitrary: acc)
  case Nil
  then show ?case by auto
next
  case (Cons a apps)
  have "u32_max \<le> u64_max" by (simp add: int_limits)
  then show ?case
    by (cases "weight_at ss ws a") (auto simp: ok_simps Cons weight_at_map_of add.assoc)
qed

text \<open>\<open>verify_quorum\<close> accepts exactly when the signer table is a well-formed weight table with
  distinct signers, the threshold is positive, the approvals are distinct registered signers, and
  their true total weight fits \<open>u32\<close> and reaches the threshold.\<close>

theorem verify_quorum_exact:
  "verify_quorum signers weights approvals threshold = Ok u \<longleftrightarrow>
     length signers = length weights \<and> signers \<noteq> [] \<and> 0 < threshold \<and>
     distinct signers \<and> distinct approvals \<and> set approvals \<subseteq> set signers \<and>
     (\<Sum>a\<leftarrow>approvals. the (map_of (zip signers weights) a)) \<in> {threshold..u32_max}"
proof (cases "length signers = length weights")
  case True
  have "list_all (\<lambda>a. map_of (zip signers weights) a \<noteq> None) approvals \<longleftrightarrow>
        set approvals \<subseteq> set signers"
    using True by (auto simp: list_all_iff map_of_zip_is_None)
  then show ?thesis using True
    by (auto simp: verify_quorum_def ok_simps quorum_weight_Ok)
next
  case False
  then show ?thesis by (simp add: verify_quorum_def)
qed

end
