(* ===== verification/Balance.thy ===== *)
theory Balance
  imports Shared_Types
begin

text \<open>
  The multi-currency balance helpers of \<^verbatim>\<open>shared/src/balance.rs\<close>. An SDK \<open>Map<Address, i128>\<close> is an
  ordered map: an association list with strictly ascending keys, iterated in key order. The
  locale \<open>finite_map_ops\<close> states what the helpers rely on of the map type and is interpreted on
  that representation. The lemmas show that credits and debits are exact, keep every balance
  positive and the map compact, that merging and subtracting are inverse, and that reconciliation
  decides equality of all balances.
\<close>

section \<open>The SDK map\<close>

type_synonym bal_map = "(address \<times> i128) list"

definition smap_get :: "bal_map \<Rightarrow> address \<Rightarrow> i128 option" where
  "smap_get m k = map_of m k"

fun smap_set :: "address \<Rightarrow> i128 \<Rightarrow> bal_map \<Rightarrow> bal_map" where
  "smap_set k v [] = [(k, v)]"
| "smap_set k v ((k', v') # m) =
     (if k < k' then (k, v) # (k', v') # m
      else if k = k' then (k, v) # m
      else (k', v') # smap_set k v m)"

definition smap_remove :: "address \<Rightarrow> bal_map \<Rightarrow> bal_map" where
  "smap_remove k m = filter (\<lambda>(k', _). k' \<noteq> k) m"

definition smap_ok :: "bal_map \<Rightarrow> bool" where
  "smap_ok m \<longleftrightarrow> sorted_wrt (<) (map fst m)"

section \<open>The helpers\<close>

definition MAX_BALANCE_ENTRIES :: nat where
  "MAX_BALANCE_ENTRIES = 32"

definition get_balance :: "bal_map \<Rightarrow> address \<Rightarrow> i128" where
  "get_balance m a = unwrap_or (smap_get m a) 0"

definition contains_asset :: "bal_map \<Rightarrow> address \<Rightarrow> bool" where
  "contains_asset m a \<longleftrightarrow> smap_get m a \<noteq> None"

definition checked_add_balance :: "bal_map \<Rightarrow> address \<Rightarrow> i128 \<Rightarrow> (i128 \<times> bal_map) res" where
  "checked_add_balance m a amt =
     (if amt < 0 then Err InvalidAmount
      else if amt = 0 then Ok (get_balance m a, m)
      else if length m \<ge> MAX_BALANCE_ENTRIES \<and> \<not> contains_asset m a then Err InvalidInput
      else rbind (checked_balance_add (get_balance m a) amt) (\<lambda>nxt.
           Ok (nxt, smap_set a nxt m)))"

definition checked_sub_balance :: "bal_map \<Rightarrow> address \<Rightarrow> i128 \<Rightarrow> (i128 \<times> bal_map) res" where
  "checked_sub_balance m a amt =
     (if amt < 0 then Err InvalidAmount
      else if amt = 0 then Ok (get_balance m a, m)
      else rbind (checked_balance_sub (get_balance m a) amt) (\<lambda>nxt.
           if nxt = 0 then Ok (nxt, smap_remove a m) else Ok (nxt, smap_set a nxt m)))"

definition set_balance :: "bal_map \<Rightarrow> address \<Rightarrow> i128 \<Rightarrow> (i128 \<times> bal_map) res" where
  "set_balance m a amt =
     (if amt < 0 then Err InvalidAmount
      else if amt = 0 then Ok (amt, smap_remove a m)
      else if length m \<ge> MAX_BALANCE_ENTRIES \<and> smap_get m a = None then Err InvalidInput
      else Ok (amt, smap_set a amt m))"

fun aggregate_loop :: "asset_amount list \<Rightarrow> bal_map \<Rightarrow> bal_map res" where
  "aggregate_loop [] totals = Ok totals"
| "aggregate_loop (e # es) totals =
     (if amount e \<le> 0 then Err InvalidAmount
      else rbind (checked_balance_add (unwrap_or (smap_get totals (asset e)) 0) (amount e)) (\<lambda>nxt.
           if length totals \<ge> MAX_BALANCE_ENTRIES \<and> smap_get totals (asset e) = None
           then Err InvalidInput
           else aggregate_loop es (smap_set (asset e) nxt totals)))"

definition aggregate_asset_amounts :: "asset_amount list \<Rightarrow> bal_map res" where
  "aggregate_asset_amounts amounts =
     (if amounts = [] then Err InvalidInput else aggregate_loop amounts [])"

definition require_unique_assets :: "asset_amount list \<Rightarrow> unit res" where
  "require_unique_assets amounts =
     (if has_duplicate (map asset amounts) then Err InvalidInput else Ok ())"

text \<open>\<open>BalanceEntry\<close> has the shape of \<open>AssetAmount\<close>; the entry loops take zero amounts.\<close>

fun aggregate_entries_loop :: "asset_amount list \<Rightarrow> bal_map \<Rightarrow> bal_map res" where
  "aggregate_entries_loop [] totals = Ok totals"
| "aggregate_entries_loop (e # es) totals =
     (if amount e < 0 then Err InvalidAmount
      else if amount e = 0 then aggregate_entries_loop es totals
      else rbind (checked_balance_add (unwrap_or (smap_get totals (asset e)) 0) (amount e)) (\<lambda>nxt.
           if length totals \<ge> MAX_BALANCE_ENTRIES \<and> smap_get totals (asset e) = None
           then Err InvalidInput
           else aggregate_entries_loop es (smap_set (asset e) nxt totals)))"

definition aggregate_entries :: "asset_amount list \<Rightarrow> bal_map res" where
  "aggregate_entries entries = aggregate_entries_loop entries []"

fun from_entries_loop :: "asset_amount list \<Rightarrow> bal_map \<Rightarrow> bal_map res" where
  "from_entries_loop [] m = Ok m"
| "from_entries_loop (e # es) m =
     (if amount e < 0 then Err InvalidAmount
      else if smap_get m (asset e) \<noteq> None then Err InvalidInput
      else if amount e = 0 then from_entries_loop es m
      else if length m \<ge> MAX_BALANCE_ENTRIES then Err InvalidInput
      else from_entries_loop es (smap_set (asset e) (amount e) m))"

definition from_entries_strict :: "asset_amount list \<Rightarrow> bal_map res" where
  "from_entries_strict entries = from_entries_loop entries []"

definition to_entries :: "bal_map \<Rightarrow> asset_amount list" where
  "to_entries m = map (\<lambda>(a, v). \<lparr>asset = a, amount = v\<rparr>) m"

fun merge_maps :: "bal_map \<Rightarrow> bal_map \<Rightarrow> bal_map res" where
  "merge_maps dst [] = Ok dst"
| "merge_maps dst ((a, v) # src) =
     rbind (checked_balance_add (unwrap_or (smap_get dst a) 0) v) (\<lambda>nxt.
     if length dst \<ge> MAX_BALANCE_ENTRIES \<and> smap_get dst a = None then Err InvalidInput
     else merge_maps (smap_set a nxt dst) src)"

fun subtract_maps :: "bal_map \<Rightarrow> bal_map \<Rightarrow> bal_map res" where
  "subtract_maps dst [] = Ok dst"
| "subtract_maps dst ((a, v) # src) =
     rbind (checked_balance_sub (unwrap_or (smap_get dst a) 0) v) (\<lambda>nxt.
     subtract_maps (if nxt = 0 then smap_remove a dst else smap_set a nxt dst) src)"

fun ensure_sufficient :: "bal_map \<Rightarrow> bal_map \<Rightarrow> unit res" where
  "ensure_sufficient available [] = Ok ()"
| "ensure_sufficient available ((a, v) # required) =
     (if unwrap_or (smap_get available a) 0 < v then Err InsufficientFunds
      else ensure_sufficient available required)"

definition ledger_delta :: "i128 \<Rightarrow> i128 \<Rightarrow> i128 res" where
  "ledger_delta internal external =
     (if internal < 0 \<or> external < 0 then Err InvalidAmount
      else if in_i128 (external - internal) then Ok (external - internal) else Err Overflow)"

definition verify_single_reconciliation :: "i128 \<Rightarrow> i128 \<Rightarrow> unit res" where
  "verify_single_reconciliation internal external =
     (if internal < 0 \<or> external < 0 then Err InvalidAmount
      else if internal \<noteq> external then Err InvalidState else Ok ())"

fun reconcile_left :: "bal_map \<Rightarrow> bal_map \<Rightarrow> unit res" where
  "reconcile_left [] b = Ok ()"
| "reconcile_left ((x, v) # a) b =
     (if v \<noteq> unwrap_or (smap_get b x) 0 then Err InvalidState else reconcile_left a b)"

fun reconcile_right :: "bal_map \<Rightarrow> bal_map \<Rightarrow> unit res" where
  "reconcile_right a [] = Ok ()"
| "reconcile_right a ((x, v) # b) =
     (if smap_get a x = None \<and> v \<noteq> 0 then Err InvalidState else reconcile_right a b)"

definition reconcile_maps :: "bal_map \<Rightarrow> bal_map \<Rightarrow> unit res" where
  "reconcile_maps a b = rbind (reconcile_left a b) (\<lambda>_. reconcile_right a b)"

fun deltas_external :: "bal_map \<Rightarrow> bal_map \<Rightarrow> bal_map \<Rightarrow> bal_map res" where
  "deltas_external internal [] out = Ok out"
| "deltas_external internal ((a, ext) # external) out =
     rbind (ledger_delta (unwrap_or (smap_get internal a) 0) ext) (\<lambda>d.
     deltas_external internal external (if d \<noteq> 0 then smap_set a d out else out))"

fun deltas_internal :: "bal_map \<Rightarrow> bal_map \<Rightarrow> bal_map \<Rightarrow> bal_map res" where
  "deltas_internal external [] out = Ok out"
| "deltas_internal external ((a, inn) # internal) out =
     (if smap_get external a \<noteq> None then deltas_internal external internal out
      else rbind (ledger_delta inn 0) (\<lambda>d.
           deltas_internal external internal (if d \<noteq> 0 then smap_set a d out else out)))"

definition deltas :: "bal_map \<Rightarrow> bal_map \<Rightarrow> bal_map res" where
  "deltas internal external =
     rbind (deltas_external internal external []) (\<lambda>out. deltas_internal external internal out)"

section \<open>The map interface\<close>

text \<open>What the helpers rely on of the map type: a lookup sees exactly the last write.\<close>

locale finite_map_ops =
  fixes empty :: 'm
    and lookup :: "'m \<Rightarrow> 'k \<Rightarrow> 'v option"
    and update :: "'k \<Rightarrow> 'v \<Rightarrow> 'm \<Rightarrow> 'm"
    and delete :: "'k \<Rightarrow> 'm \<Rightarrow> 'm"
    and items :: "'m \<Rightarrow> ('k \<times> 'v) list"
    and invar :: "'m \<Rightarrow> bool"
  assumes lookup_empty: "lookup empty k = None"
    and lookup_update: "invar m \<Longrightarrow> lookup (update k v m) k' = (if k' = k then Some v else lookup m k')"
    and lookup_delete: "invar m \<Longrightarrow> lookup (delete k m) k' = (if k' = k then None else lookup m k')"
    and lookup_items: "invar m \<Longrightarrow> lookup m k = map_of (items m) k"
    and distinct_items: "invar m \<Longrightarrow> distinct (map fst (items m))"
    and invar_empty: "invar empty"
    and invar_update: "invar m \<Longrightarrow> invar (update k v m)"
    and invar_delete: "invar m \<Longrightarrow> invar (delete k m)"
begin

lemma update_delete_lookup: "invar m \<Longrightarrow> lookup (delete k (update k v m)) k' =
   (if k' = k then None else lookup m k')"
  by (simp add: lookup_update lookup_delete invar_update)

lemma sum_update:
  fixes f :: "'v \<Rightarrow> int"
  assumes "invar m"
  shows "(\<Sum>(_, v)\<leftarrow>items (update k v m). f v) =
     (\<Sum>(_, v)\<leftarrow>items m. f v) - (case lookup m k of None \<Rightarrow> 0 | Some w \<Rightarrow> f w) + f v"
proof -
  let ?S = "\<lambda>m. \<Sum>k \<in> dom (lookup m). f (the (lookup m k))"
  have S: "(\<Sum>(_, v)\<leftarrow>items m. f v) = ?S m" if "invar m" for m
  proof -
    have d: "distinct (map fst (items m))" using that by (rule distinct_items)
    have "(\<Sum>(_, v)\<leftarrow>items m. f v) = (\<Sum>k\<leftarrow>map fst (items m). f (the (lookup m k)))"
      using d by (auto simp: lookup_items [OF that] intro!: arg_cong [where f = sum_list])
    also have "\<dots> = (\<Sum>k \<in> set (map fst (items m)). f (the (lookup m k)))"
      by (rule sum_list_distinct_conv_sum_set [OF d])
    also have "set (map fst (items m)) = dom (lookup m)"
      using lookup_items [OF that] by (auto simp: dom_def map_of_eq_None_iff)
    finally show ?thesis .
  qed
  have fin: "finite (dom (lookup m))"
    using finite_dom_map_of [of "items m"] lookup_items [OF assms] by (simp add: dom_def)
  have dom: "dom (lookup (update k v m)) = insert k (dom (lookup m) - {k})"
    using assms by (auto simp: lookup_update dom_def)
  have "?S (update k v m) = f v + (\<Sum>k \<in> dom (lookup m) - {k}. f (the (lookup m k)))"
    using fin assms unfolding dom
    by (subst sum.insert) (auto simp: lookup_update intro!: sum.cong)
  also have "(\<Sum>k \<in> dom (lookup m) - {k}. f (the (lookup m k))) =
     ?S m - (case lookup m k of None \<Rightarrow> 0 | Some w \<Rightarrow> f w)"
    using fin by (auto simp: sum_diff1 dom_def split: option.splits)
  finally show ?thesis using S assms invar_update by simp
qed

end

lemma smap_ok_Nil [simp]: "smap_ok []"
  by (simp add: smap_ok_def)

lemma smap_get_Nil [simp]: "smap_get [] k = None"
  by (simp add: smap_get_def)

lemma fst_smap_set: "fst ` set (smap_set k v m) = insert k (fst ` set m)"
  by (induction k v m rule: smap_set.induct) auto

lemma smap_ok_set: "smap_ok m \<Longrightarrow> smap_ok (smap_set k v m)"
proof (induction k v m rule: smap_set.induct)
  case (2 k v k' v' m)
  have "\<forall>x \<in> set (smap_set k v m). k' < fst x" if "k' < k"
  proof
    fix x assume "x \<in> set (smap_set k v m)"
    then have "fst x = k \<or> fst x \<in> fst ` set m" using fst_smap_set [of k v m] by auto
    then show "k' < fst x" using that 2(2) by (auto simp: smap_ok_def)
  qed
  with 2 show ?case by (auto simp: smap_ok_def)
qed (simp add: smap_ok_def)

lemma smap_get_set: "smap_ok m \<Longrightarrow> smap_get (smap_set k v m) k' = (if k' = k then Some v else smap_get m k')"
proof (induction k v m rule: smap_set.induct)
  case (2 k v k'' v'' m)
  then show ?case by (auto simp: smap_get_def smap_ok_def)
qed (simp add: smap_get_def)

lemma smap_get_remove: "smap_get (smap_remove k m) k' = (if k' = k then None else smap_get m k')"
  by (induction m) (auto simp: smap_get_def smap_remove_def)

lemma smap_ok_remove: "smap_ok m \<Longrightarrow> smap_ok (smap_remove k m)"
  by (auto simp: smap_ok_def smap_remove_def sorted_wrt_map intro: sorted_wrt_filter)

lemma smap_ok_distinct: "smap_ok m \<Longrightarrow> distinct (map fst m)"
  by (simp add: smap_ok_def strict_sorted_iff)

interpretation smap: finite_map_ops "[]" smap_get smap_set smap_remove "\<lambda>m. m" smap_ok
  by unfold_locales
    (auto simp: smap_get_set smap_get_remove smap_ok_set smap_ok_remove smap_ok_distinct
      intro: smap_get_def)


lemmas smap_simps [simp] = smap_get_set smap_get_remove smap_ok_set smap_ok_remove

lemma get_balance_set [simp]:
  "smap_ok m \<Longrightarrow> get_balance (smap_set k v m) k' = (if k' = k then v else get_balance m k')"
  by (simp add: get_balance_def)

lemma get_balance_remove [simp]:
  "get_balance (smap_remove k m) k' = (if k' = k then 0 else get_balance m k')"
  by (simp add: get_balance_def)

lemma get_balance_Nil [simp]: "get_balance [] k = 0"
  by (simp add: get_balance_def)

lemma unwrap_get_balance: "unwrap_or (smap_get m k) 0 = get_balance m k"
  by (simp add: get_balance_def)

lemma get_balance_Cons:
  "smap_ok ((a, v) # m) \<Longrightarrow> get_balance ((a, v) # m) k = (if k = a then v else get_balance m k)"
  by (simp add: get_balance_def smap_get_def)

lemma get_balance_Cons_fresh: "smap_ok ((a, v) # m) \<Longrightarrow> get_balance m a = 0"
proof -
  assume "smap_ok ((a, v) # m)"
  then have "a \<notin> fst ` set m" by (auto simp: smap_ok_def)
  then show ?thesis by (simp add: get_balance_def smap_get_def map_of_eq_None_iff [THEN iffD2])
qed

lemma smap_ok_Cons: "smap_ok (p # m) \<Longrightarrow> smap_ok m"
  by (simp add: smap_ok_def)

lemma length_smap_set:
  "smap_ok m \<Longrightarrow> length (smap_set k v m) = (if smap_get m k = None then Suc (length m) else length m)"
proof (induction k v m rule: smap_set.induct)
  case (2 k v k' v' m)
  have "smap_get m k = None" if "k < k'"
    using that 2(2) by (auto simp: smap_get_def smap_ok_def map_of_eq_None_iff)
  with 2 show ?case by (auto simp: smap_get_def smap_ok_def)
qed simp

section \<open>The balance invariant\<close>

text \<open>
  A balance map is well formed when its keys are ordered, it holds no empty entry, every balance
  is a positive \<open>i128\<close>, and it respects the cap on distinct assets.
\<close>

definition bal_inv :: "bal_map \<Rightarrow> bool" where
  "bal_inv m \<longleftrightarrow> smap_ok m \<and> length m \<le> MAX_BALANCE_ENTRIES \<and>
     (\<forall>k v. smap_get m k = Some v \<longrightarrow> 0 < v \<and> v \<le> i128_max)"

lemma bal_inv_smap_ok: "bal_inv m \<Longrightarrow> smap_ok m"
  by (simp add: bal_inv_def)

lemma bal_inv_range: "bal_inv m \<Longrightarrow> 0 \<le> get_balance m k \<and> get_balance m k \<le> i128_max"
  by (cases "smap_get m k") (auto simp: bal_inv_def get_balance_def int_limits less_imp_le)

lemma bal_inv_set:
  assumes "bal_inv m" "0 < v" "v \<le> i128_max"
    and "smap_get m k \<noteq> None \<or> length m < MAX_BALANCE_ENTRIES"
  shows "bal_inv (smap_set k v m)"
  using assms by (auto simp: bal_inv_def length_smap_set)

lemma bal_inv_remove: "bal_inv m \<Longrightarrow> bal_inv (smap_remove k m)"
proof -
  assume *: "bal_inv m"
  have "length (smap_remove k m) \<le> length m" by (simp add: smap_remove_def)
  with * show ?thesis by (auto simp: bal_inv_def split: if_splits)
qed

lemma bal_inv_Nil [simp]: "bal_inv []"
  by (simp add: bal_inv_def)

lemma checked_add_balance_Ok:
  assumes "checked_add_balance m a amt = Ok (r, m')" "bal_inv m"
  shows "bal_inv m'" "r = get_balance m a + amt" "0 \<le> amt"
    "get_balance m' k = get_balance m k + (if k = a then amt else 0)"
  using assms
  by (auto simp: checked_add_balance_def ok_simps contains_asset_def bal_inv_smap_ok in_i128_def
      intro!: bal_inv_set split: if_splits)

lemma checked_sub_balance_Ok:
  assumes "checked_sub_balance m a amt = Ok (r, m')" "bal_inv m"
  shows "bal_inv m'" "r = get_balance m a - amt" "0 \<le> amt" "amt \<le> get_balance m a"
    "get_balance m' k = get_balance m k - (if k = a then amt else 0)"
proof -
  have "smap_get m a \<noteq> None" if "0 < get_balance m a"
    using that by (cases "smap_get m a") (auto simp: get_balance_def)
  then show "bal_inv m'" "r = get_balance m a - amt" "0 \<le> amt" "amt \<le> get_balance m a"
    "get_balance m' k = get_balance m k - (if k = a then amt else 0)"
    using assms bal_inv_range [of m a]
    by (auto simp: checked_sub_balance_def ok_simps bal_inv_smap_ok
        intro!: bal_inv_set bal_inv_remove split: if_splits)
qed

text \<open>Two well-formed maps with the same balances are the same map: the representation is
  canonical, which is what makes \<open>==\<close> on the SDK maps an equality of balances.\<close>

lemma smap_ext:
  assumes "smap_ok m" "smap_ok m'" "\<And>k. smap_get m k = smap_get m' k"
  shows "m = m'"
proof -
  have "map_of m = map_of m'" using assms(3) by (auto simp: smap_get_def)
  then have "set m = set m'"
    using assms(1,2) smap_ok_distinct map_of_inject_set by metis
  then have "map fst m = map fst m'"
    using assms by (metis list.set_map smap_ok_def strict_sorted_equal)
  have vals: "map snd m = map (\<lambda>k. the (smap_get m k)) (map fst m)" if "smap_ok m" for m
    using smap_ok_distinct [OF that] by (auto simp: smap_get_def)
  have "map snd m = map snd m'"
    unfolding vals [OF assms(1)] vals [OF assms(2)] \<open>map fst m = map fst m'\<close> assms(3) ..
  with \<open>map fst m = map fst m'\<close> show ?thesis by (metis zip_map_fst_snd)
qed

lemma bal_inv_ext:
  assumes "bal_inv m" "bal_inv m'" "\<And>k. get_balance m k = get_balance m' k"
  shows "m = m'"
proof (rule smap_ext)
  fix k
  show "smap_get m k = smap_get m' k"
    using assms(3) [of k] assms(1,2)
    by (cases "smap_get m k"; cases "smap_get m' k") (auto simp: get_balance_def bal_inv_def)
qed (use assms bal_inv_smap_ok in auto)


section \<open>Aggregation\<close>

text \<open>The amount a list of legs carries for one asset.\<close>

definition leg_sum :: "asset_amount list \<Rightarrow> address \<Rightarrow> int" where
  "leg_sum es k = (\<Sum>e\<leftarrow>es. if asset e = k then amount e else 0)"

lemma leg_sum_simps [simp]:
  "leg_sum [] k = 0"
  "leg_sum (e # es) k = (if asset e = k then amount e else 0) + leg_sum es k"
  by (simp_all add: leg_sum_def)

lemma bal_inv_credit:
  assumes "bal_inv m" "checked_balance_add (get_balance m k) v = Ok x" "0 < v"
    and "\<not> (length m \<ge> MAX_BALANCE_ENTRIES \<and> smap_get m k = None)"
  shows "bal_inv (smap_set k x m)"
  using assms by (intro bal_inv_set) (auto simp: ok_simps in_i128_def)

lemma aggregate_loop_Ok:
  "aggregate_loop es m = Ok m' \<Longrightarrow> bal_inv m \<Longrightarrow>
   bal_inv m' \<and> (\<forall>k. get_balance m' k = get_balance m k + leg_sum es k)"
proof (induction es arbitrary: m)
  case (Cons e es)
  from Cons.prems obtain x where pos: "0 < amount e"
    and x: "checked_balance_add (get_balance m (asset e)) (amount e) = Ok x"
    and cap: "\<not> (length m \<ge> MAX_BALANCE_ENTRIES \<and> smap_get m (asset e) = None)"
    and rest: "aggregate_loop es (smap_set (asset e) x m) = Ok m'"
    by (auto simp: ok_simps unwrap_get_balance)
  with Cons.IH [OF rest] bal_inv_credit [OF Cons.prems(2) x pos cap] bal_inv_smap_ok [OF Cons.prems(2)]
  show ?case by (auto simp: ok_simps)
qed simp

lemma aggregate_entries_loop_Ok:
  "aggregate_entries_loop es m = Ok m' \<Longrightarrow> bal_inv m \<Longrightarrow>
   bal_inv m' \<and> (\<forall>k. get_balance m' k = get_balance m k + leg_sum es k)"
proof (induction es arbitrary: m)
  case (Cons e es)
  show ?case
  proof (cases "amount e = 0")
    case True
    with Cons show ?thesis by auto
  next
    case False
    with Cons.prems obtain x where pos: "0 < amount e"
      and x: "checked_balance_add (get_balance m (asset e)) (amount e) = Ok x"
      and cap: "\<not> (length m \<ge> MAX_BALANCE_ENTRIES \<and> smap_get m (asset e) = None)"
      and rest: "aggregate_entries_loop es (smap_set (asset e) x m) = Ok m'"
      by (auto simp: ok_simps unwrap_get_balance)
    with Cons.IH [OF rest] bal_inv_credit [OF Cons.prems(2) x pos cap]
      bal_inv_smap_ok [OF Cons.prems(2)]
    show ?thesis by (auto simp: ok_simps)
  qed
qed simp

lemma leg_sum_to_entries: "smap_ok m \<Longrightarrow> leg_sum (to_entries m) k = get_balance m k"
proof (induction m)
  case (Cons p m)
  obtain a v where p: "p = (a, v)" by (cases p)
  from Cons smap_ok_Cons show ?case
    by (auto simp: p to_entries_def get_balance_Cons get_balance_Cons_fresh)
qed (simp add: to_entries_def)

text \<open>Re-reading the entries of a well-formed map succeeds.\<close>

lemma aggregate_to_entries_Ok:
  assumes "bal_inv (xs @ m)" "aggregate_entries_loop (to_entries m) xs = r"
  shows "r = Ok (xs @ m)"
  using assms
proof (induction m arbitrary: xs)
  case Nil
  then show ?case by (auto simp: to_entries_def)
next
  case (Cons p m)
  obtain a v where p: "p = (a, v)" by (cases p)
  have ok: "smap_ok (xs @ p # m)" using Cons.prems(1) by (simp add: bal_inv_def)
  have "smap_get (xs @ p # m) a = Some v"
    using ok by (auto simp: p smap_get_def map_add_def smap_ok_def sorted_wrt_append
        split: option.splits dest!: map_of_SomeD)
  then have v: "0 < v" "v \<le> i128_max" using Cons.prems(1) by (auto simp: bal_inv_def)
  have lt: "\<forall>x \<in> fst ` set xs. x < a"
    using ok by (auto simp: p smap_ok_def sorted_wrt_append)
  then have "smap_get xs a = None" by (auto simp: smap_get_def map_of_eq_None_iff)
  moreover have "smap_set a v xs = xs @ [(a, v)]" using lt by (induction xs) auto
  moreover have "length xs < MAX_BALANCE_ENTRIES" using Cons.prems(1) by (simp add: bal_inv_def)
  ultimately have "aggregate_entries_loop (to_entries (p # m)) xs =
      aggregate_entries_loop (to_entries m) (xs @ [p])"
    using v by (simp add: to_entries_def p checked_balance_add_def in_i128_def int_limits)
  with Cons.IH [of "xs @ [p]"] Cons.prems show ?case by simp
qed

section \<open>Merging, subtracting and reconciling\<close>

lemma bal_inv_ConsD:
  assumes "bal_inv ((a, v) # m)"
  shows "bal_inv m" "0 < v"
proof -
  have ok: "smap_ok ((a, v) # m)" using assms by (rule bal_inv_smap_ok)
  have "smap_get ((a, v) # m) k = Some w" if "smap_get m k = Some w" for k w
    using that ok by (auto simp: smap_get_def smap_ok_def dest!: map_of_SomeD)
  then show "bal_inv m" using assms smap_ok_Cons [OF ok] by (auto simp: bal_inv_def)
  have "smap_get ((a, v) # m) a = Some v" by (simp add: smap_get_def)
  then show "0 < v" using assms by (simp only: bal_inv_def)
qed

lemma merge_maps_Ok:
  "merge_maps dst src = Ok d \<Longrightarrow> bal_inv dst \<Longrightarrow> bal_inv src \<Longrightarrow>
   bal_inv d \<and> (\<forall>k. get_balance d k = get_balance dst k + get_balance src k)"
proof (induction dst src rule: merge_maps.induct)
  case (2 dst a v src)
  have ok: "smap_ok ((a, v) # src)" using 2 bal_inv_smap_ok by blast
  have src: "bal_inv src" and v: "0 < v" using bal_inv_ConsD [OF 2(4)] by simp_all
  from 2(2) obtain x where x: "checked_balance_add (get_balance dst a) v = Ok x"
    and cap: "\<not> (length dst \<ge> MAX_BALANCE_ENTRIES \<and> smap_get dst a = None)"
    and rest: "merge_maps (smap_set a x dst) src = Ok d"
    by (auto simp: ok_simps unwrap_get_balance)
  have inv: "bal_inv (smap_set a x dst)" by (rule bal_inv_credit [OF 2(3) x v cap])
  have "bal_inv d \<and> (\<forall>k. get_balance d k = get_balance (smap_set a x dst) k + get_balance src k)"
    using 2(1) [OF cap rest inv src] .
  then show ?case using x bal_inv_smap_ok [OF 2(3)] ok
    by (auto simp: ok_simps get_balance_Cons get_balance_Cons_fresh)
qed simp

lemma subtract_maps_cover:
  "bal_inv dst \<Longrightarrow> bal_inv src \<Longrightarrow> (\<And>k. get_balance src k \<le> get_balance dst k) \<Longrightarrow>
   \<exists>d. subtract_maps dst src = Ok d \<and> bal_inv d \<and>
       (\<forall>k. get_balance d k = get_balance dst k - get_balance src k)"
proof (induction dst src rule: subtract_maps.induct)
  case (2 dst a v src)
  have ok: "smap_ok ((a, v) # src)" using 2 bal_inv_smap_ok by blast
  have src: "bal_inv src" and v: "0 < v" using bal_inv_ConsD [OF 2(3)] by simp_all
  let ?x = "get_balance dst a - v"
  let ?dst = "if ?x = 0 then smap_remove a dst else smap_set a ?x dst"
  have le: "v \<le> get_balance dst a" using 2(4) [of a] ok by (simp add: get_balance_Cons)
  have rng: "in_i128 (get_balance dst a)"
    using bal_inv_range [OF 2(2), of a] by (simp add: in_i128_def int_limits)
  have x: "checked_balance_sub (unwrap_or (smap_get dst a) 0) v = Ok ?x"
    using le v rng by (simp add: checked_balance_sub_eq unwrap_get_balance)
  have "smap_get dst a \<noteq> None" using le v by (cases "smap_get dst a") (auto simp: get_balance_def)
  then have inv: "bal_inv ?dst"
    using 2(2) le v bal_inv_range [OF 2(2), of a] by (auto intro!: bal_inv_remove bal_inv_set)
  have bal: "get_balance ?dst k = get_balance dst k - (if k = a then v else 0)" for k
    using bal_inv_smap_ok [OF 2(2)] by simp
  have "get_balance src k \<le> get_balance ?dst k" for k
    using 2(4) [of k] ok bal [of k] by (auto simp: get_balance_Cons get_balance_Cons_fresh split: if_splits)
  from 2(1) [OF inv src this] show ?case
    using x bal ok by (auto simp: get_balance_Cons get_balance_Cons_fresh)
qed simp

lemma reconcile_left_Ok:
  "reconcile_left a b = Ok u \<longleftrightarrow> (\<forall>(x, v) \<in> set a. v = get_balance b x)"
  by (induction a b rule: reconcile_left.induct) (auto simp: get_balance_def)

lemma reconcile_right_Ok:
  "reconcile_right a b = Ok u \<longleftrightarrow> (\<forall>(x, v) \<in> set b. smap_get a x = None \<longrightarrow> v = 0)"
  by (induction a b rule: reconcile_right.induct) auto

lemma in_set_smap: "smap_ok m \<Longrightarrow> (x, v) \<in> set m \<longleftrightarrow> smap_get m x = Some v"
  by (simp add: smap_get_def smap_ok_distinct)

lemma ledger_delta_range:
  "0 \<le> i \<Longrightarrow> i \<le> i128_max \<Longrightarrow> 0 \<le> e \<Longrightarrow> e \<le> i128_max \<Longrightarrow> ledger_delta i e = Ok (e - i)"
  by (simp add: ledger_delta_def in_i128_def int_limits)

section \<open>Properties\<close>

text \<open>A successful credit or debit of a well-formed map changes exactly the named asset by
  exactly the amount, returns the new balance, and leaves the map well formed; a debit never
  exceeds the balance.\<close>

theorem credit_debit_exact:
  assumes "bal_inv m"
  shows "(checked_add_balance m a amt = Ok (r, m') \<longrightarrow>
            bal_inv m' \<and> r = get_balance m' a \<and> 0 \<le> amt \<and>
            get_balance m' = (get_balance m)(a := get_balance m a + amt))
       \<and> (checked_sub_balance m a amt = Ok (r, m') \<longrightarrow>
            bal_inv m' \<and> r = get_balance m' a \<and> 0 \<le> amt \<and> amt \<le> get_balance m a \<and>
            get_balance m' = (get_balance m)(a := get_balance m a - amt))"
  using assms checked_add_balance_Ok [of m a amt r m'] checked_sub_balance_Ok [of m a amt r m']
  by (auto simp: fun_eq_iff)

theorem credit_debit_exact_witness:
  "get_balance [(3, 12), (7, 1)] = (get_balance [(3, 10), (7, 1)])(3 := 12)"
proof -
  have "bal_inv [(3, 10), (7, 1)]"
    by (auto simp: bal_inv_def smap_ok_def smap_get_def MAX_BALANCE_ENTRIES_def i128_max_def
        split: if_splits)
  moreover have "checked_add_balance [(3, 10), (7, 1)] 3 2 = Ok (12, [(3, 12), (7, 1)])"
    by code_simp
  ultimately show ?thesis
    using credit_debit_exact [of "[(3, 10), (7, 1)]" 3 2 12 "[(3, 12), (7, 1)]"]
    by (simp add: get_balance_def smap_get_def)
qed

text \<open>C36. Subtracting what was merged gives back the very same map: \<open>subtract_maps\<close> undoes
  \<open>merge_maps\<close> on well-formed maps.\<close>

theorem subtract_undoes_merge:
  assumes "bal_inv dst" "bal_inv src" "merge_maps dst src = Ok d"
  shows "subtract_maps d src = Ok dst"
proof -
  from merge_maps_Ok [OF assms(3,1,2)] have d: "bal_inv d"
    and sum: "\<And>k. get_balance d k = get_balance dst k + get_balance src k" by auto
  have "get_balance src k \<le> get_balance d k" for k
    using sum [of k] bal_inv_range [OF assms(1), of k] by simp
  from subtract_maps_cover [OF d assms(2) this] obtain d' where d': "subtract_maps d src = Ok d'"
    "bal_inv d'" "\<And>k. get_balance d' k = get_balance d k - get_balance src k" by auto
  then have "d' = dst" using sum assms(1) by (intro bal_inv_ext) auto
  with d' show ?thesis by simp
qed

theorem subtract_undoes_merge_witness:
  "subtract_maps [(3, 10), (7, 6)] [(3, 10), (7, 5)] = Ok [(7, 1)]"
proof -
  have "bal_inv [(7, 1)]" "bal_inv [(3, 10), (7, 5)]"
    by (auto simp: bal_inv_def smap_ok_def smap_get_def MAX_BALANCE_ENTRIES_def i128_max_def
        split: if_splits)
  moreover have "merge_maps [(7, 1)] [(3, 10), (7, 5)] = Ok [(3, 10), (7, 6)]" by code_simp
  ultimately show ?thesis by (rule subtract_undoes_merge)
qed

text \<open>Reconciliation of two ordered maps succeeds exactly when they agree on the balance of
  every asset, present or not.\<close>

theorem reconcile_maps_decides_equality:
  assumes "smap_ok a" "smap_ok b"
  shows "reconcile_maps a b = Ok u \<longleftrightarrow> get_balance a = get_balance b"
proof
  assume "reconcile_maps a b = Ok u"
  then have l: "\<forall>(x, v) \<in> set a. v = get_balance b x"
    and r: "\<forall>(x, v) \<in> set b. smap_get a x = None \<longrightarrow> v = 0"
    by (auto simp: reconcile_maps_def ok_simps reconcile_left_Ok reconcile_right_Ok)
  show "get_balance a = get_balance b"
  proof
    fix k
    show "get_balance a k = get_balance b k"
    proof (cases "smap_get a k")
      case None
      then show ?thesis using r in_set_smap [OF assms(2), of k]
        by (cases "smap_get b k") (auto simp: get_balance_def)
    next
      case (Some v)
      then have "(k, v) \<in> set a" using in_set_smap [OF assms(1)] by simp
      with l have "v = get_balance b k" by auto
      with Some show ?thesis by (simp add: get_balance_def)
    qed
  qed
next
  assume eq: "get_balance a = get_balance b"
  have "v = get_balance b x" if "(x, v) \<in> set a" for x v
    using that in_set_smap [OF assms(1)] fun_cong [OF eq, of x] by (auto simp: get_balance_def)
  moreover have "v = 0" if "(x, v) \<in> set b" "smap_get a x = None" for x v
    using that in_set_smap [OF assms(2)] fun_cong [OF eq, of x] by (auto simp: get_balance_def)
  ultimately show "reconcile_maps a b = Ok u"
    by (auto simp: reconcile_maps_def ok_simps reconcile_left_Ok reconcile_right_Ok)
qed

theorem reconcile_maps_decides_equality_witness:
  "reconcile_maps [(3, 5), (4, 0)] [(3, 5)] = Ok () \<and>
   get_balance [(3, 5), (4, 0)] = get_balance [(3, 5)]"
proof -
  have "smap_ok [(3, 5), (4, 0)]" "smap_ok [(3, 5)]" by (auto simp: smap_ok_def)
  from reconcile_maps_decides_equality [OF this] show ?thesis
    by (simp add: reconcile_maps_def smap_get_def)
qed

text \<open>Aggregating a list of legs gives each asset exactly the sum of its legs, in a
  well-formed map; and writing a well-formed map out as entries and aggregating them again
  returns the same map.\<close>

theorem aggregate_roundtrip:
  assumes "bal_inv m" "aggregate_asset_amounts legs = Ok totals"
  shows "bal_inv totals \<and> get_balance totals = leg_sum legs \<and>
         aggregate_entries (to_entries m) = Ok m"
proof -
  have "aggregate_loop legs [] = Ok totals"
    using assms(2) by (simp add: aggregate_asset_amounts_def split: if_splits)
  from aggregate_loop_Ok [OF this bal_inv_Nil] have "bal_inv totals \<and> get_balance totals = leg_sum legs"
    by (auto simp: fun_eq_iff)
  moreover have "aggregate_entries (to_entries m) = Ok m"
    using aggregate_to_entries_Ok [of "[]" m] assms(1) by (simp add: aggregate_entries_def)
  ultimately show ?thesis by simp
qed

theorem aggregate_roundtrip_witness:
  "get_balance [(3, 15), (9, 20)] =
   leg_sum [\<lparr>asset = 3, amount = 10\<rparr>, \<lparr>asset = 9, amount = 20\<rparr>, \<lparr>asset = 3, amount = 5\<rparr>]"
proof -
  let ?legs = "[\<lparr>asset = 3, amount = 10\<rparr>, \<lparr>asset = 9, amount = 20\<rparr>, \<lparr>asset = 3, amount = 5\<rparr>]"
  have "aggregate_asset_amounts ?legs = Ok [(3, 15), (9, 20)]" by code_simp
  from aggregate_roundtrip [OF bal_inv_Nil this] show ?thesis by simp
qed

end
