(* ===== verification/Token.thy ===== *)
theory Token
  imports Shared_Types
begin

text \<open>
  The token wrappers of \<^verbatim>\<open>shared/src/token.rs\<close>. The token contracts themselves are not part of the
  repository: they are the parameter \<open>tk\<close>, a record with the two entrypoints the wrappers call,
  over an arbitrary type of token worlds. \<open>token_laws\<close> states the documented behaviour of a
  Stellar asset the protocol relies on (a successful transfer moves exactly the amount between the
  two holders and nothing else), relative to the balances \<open>bal\<close> of a world.
\<close>

section \<open>Calls into a token\<close>

text \<open>The host errors a callee can raise, and the four outcomes of a \<open>try_\<close> call.\<close>

datatype host_error = HeContract u32 | HeAuth | HeOther

datatype 'v try_result = TryOk 'v | TryConversion | TryErr host_error | TryInvoke

record 'w token_api =
  tk_balance :: "'w \<Rightarrow> address \<Rightarrow> address \<Rightarrow> i128 try_result"
  tk_transfer :: "'w \<Rightarrow> address \<Rightarrow> address \<Rightarrow> address \<Rightarrow> i128 \<Rightarrow> 'w try_result"

text \<open>A direct \<open>TokenClient::transfer\<close> traps the whole invocation when the token refuses.\<close>

definition token_transfer ::
  "'w token_api \<Rightarrow> 'w \<Rightarrow> address \<Rightarrow> address \<Rightarrow> address \<Rightarrow> i128 \<Rightarrow> 'w res" where
  "token_transfer tk w token from_a to_a amt =
     (case tk_transfer tk w token from_a to_a amt of TryOk w' \<Rightarrow> Ok w' | _ \<Rightarrow> Panic)"

section \<open>The wrappers\<close>

definition validate_transfer_amount :: "i128 \<Rightarrow> unit res" where
  "validate_transfer_amount amt = require_positive_amount amt"

fun transfer_total_loop :: "i128 list \<Rightarrow> i128 \<Rightarrow> i128 res" where
  "transfer_total_loop [] acc = Ok acc"
| "transfer_total_loop (a # as) acc =
     rbind (validate_transfer_amount a) (\<lambda>_.
     rbind (checked_balance_add acc a) (transfer_total_loop as))"

definition checked_transfer_total :: "i128 list \<Rightarrow> i128 res" where
  "checked_transfer_total amounts = transfer_total_loop amounts 0"

text \<open>The error codes of the Stellar Asset Contract and their translation.\<close>

definition map_token_error :: "host_error \<Rightarrow> error" where
  "map_token_error err =
     (case err of
        HeContract code \<Rightarrow>
          (if code = 10 then InsufficientFunds
           else if code = 8 then InvalidAmount
           else if code = 12 then Overflow
           else if code = 4 \<or> code = 5 \<or> code = 6 \<or> code = 11 \<or> code = 13 then Unauthorized
           else InvalidState)
      | HeAuth \<Rightarrow> Unauthorized
      | HeOther \<Rightarrow> InvalidState)"

definition token_balance :: "'w token_api \<Rightarrow> 'w \<Rightarrow> address \<Rightarrow> address \<Rightarrow> i128 res" where
  "token_balance tk w token who =
     (case tk_balance tk w token who of
        TryOk b \<Rightarrow> (if b \<ge> 0 then Ok b else Err InvalidState)
      | TryConversion \<Rightarrow> Err InvalidState
      | TryErr e \<Rightarrow> Err (map_token_error e)
      | TryInvoke \<Rightarrow> Err InvalidState)"

definition safe_transfer ::
  "'w token_api \<Rightarrow> 'w \<Rightarrow> address \<Rightarrow> address \<Rightarrow> address \<Rightarrow> i128 \<Rightarrow> 'w res" where
  "safe_transfer tk w token from_a to_a amt =
     rbind (validate_transfer_amount amt) (\<lambda>_.
     rbind (token_balance tk w token from_a) (\<lambda>b.
     rbind (validate_sufficient_balance b amt) (\<lambda>_.
     rbind (if from_a \<noteq> to_a
            then rbind (token_balance tk w token to_a) (\<lambda>t.
                 rbind (checked_balance_add t amt) (\<lambda>_. Ok ()))
            else Ok ()) (\<lambda>_.
     (case tk_transfer tk w token from_a to_a amt of
        TryOk w' \<Rightarrow> Ok w'
      | TryConversion \<Rightarrow> Err InvalidState
      | TryErr e \<Rightarrow> Err (map_token_error e)
      | TryInvoke \<Rightarrow> Err InvalidState)))))"

definition safe_transfer_tracked ::
  "'w token_api \<Rightarrow> 'w \<Rightarrow> address \<Rightarrow> address \<Rightarrow> address \<Rightarrow> i128 \<Rightarrow> i128 \<Rightarrow> (i128 \<times> 'w) res" where
  "safe_transfer_tracked tk w token from_a to_a tracked_balance amt =
     rbind (validate_transfer_amount amt) (\<lambda>_.
     rbind (checked_balance_sub tracked_balance amt) (\<lambda>remaining.
     rbind (safe_transfer tk w token from_a to_a amt) (\<lambda>w'.
     Ok (remaining, w'))))"

section \<open>The documented behaviour of a token\<close>

definition moved ::
  "(address \<Rightarrow> address \<Rightarrow> int) \<Rightarrow> address \<Rightarrow> address \<Rightarrow> address \<Rightarrow> int \<Rightarrow> address \<Rightarrow> address \<Rightarrow> int" where
  "moved b token from_a to_a amt =
     (\<lambda>t x. b t x + (if t = token \<and> x = to_a then amt else 0)
                  - (if t = token \<and> x = from_a then amt else 0))"

definition token_laws :: "'w token_api \<Rightarrow> ('w \<Rightarrow> address \<Rightarrow> address \<Rightarrow> int) \<Rightarrow> bool" where
  "token_laws tk bal \<longleftrightarrow>
     (\<forall>w t x. tk_balance tk w t x = TryOk (bal w t x)) \<and>
     (\<forall>w t f r a w'. tk_transfer tk w t f r a = TryOk w' \<longrightarrow> bal w' = moved (bal w) t f r a)"

text \<open>A concrete ledger that satisfies the laws, for closed instances.\<close>

definition ledger_token :: "(address \<Rightarrow> address \<Rightarrow> int) token_api" where
  "ledger_token =
     \<lparr>tk_balance = (\<lambda>w t x. TryOk (w t x)),
      tk_transfer = (\<lambda>w t f r a.
        if a < 0 then TryErr (HeContract 8)
        else if w t f < a then TryErr (HeContract 10)
        else TryOk (moved w t f r a))\<rparr>"

lemma ledger_token_laws: "token_laws ledger_token (\<lambda>w. w)"
  by (auto simp: token_laws_def ledger_token_def split: if_splits)

lemma token_laws_balance: "token_laws tk bal \<Longrightarrow> tk_balance tk w t x = TryOk (bal w t x)"
  by (simp add: token_laws_def)

lemma token_laws_transfer:
  "token_laws tk bal \<Longrightarrow> tk_transfer tk w t f r a = TryOk w' \<Longrightarrow> bal w' = moved (bal w) t f r a"
  by (simp add: token_laws_def)

lemma token_transfer_Ok [ok_simps]:
  "token_transfer tk w t f r a = Ok w' \<longleftrightarrow> tk_transfer tk w t f r a = TryOk w'"
  by (auto simp: token_transfer_def split: try_result.splits)

lemma token_balance_Ok [ok_simps]:
  "token_balance tk w t x = Ok b \<longleftrightarrow> tk_balance tk w t x = TryOk b \<and> 0 \<le> b"
  by (auto simp: token_balance_def split: try_result.splits if_splits)

lemma safe_transfer_Ok:
  "safe_transfer tk w t f r a = Ok w' \<longleftrightarrow>
     0 < a \<and> (\<exists>b. tk_balance tk w t f = TryOk b \<and> a \<le> b) \<and>
     (f \<noteq> r \<longrightarrow> (\<exists>c. tk_balance tk w t r = TryOk c \<and> 0 \<le> c \<and> in_i128 (c + a))) \<and>
     tk_transfer tk w t f r a = TryOk w'"
proof -
  have "(case tk_transfer tk w t f r a of TryOk w' \<Rightarrow> Ok w' | TryConversion \<Rightarrow> Err InvalidState
         | TryErr e \<Rightarrow> Err (map_token_error e) | TryInvoke \<Rightarrow> Err InvalidState) = Ok w' \<longleftrightarrow>
        tk_transfer tk w t f r a = TryOk w'"
    by (cases "tk_transfer tk w t f r a") auto
  then show ?thesis
    by (auto simp: safe_transfer_def ok_simps validate_transfer_amount_def)
qed

lemma transfer_total_loop_Ok:
  "0 \<le> acc \<Longrightarrow> acc \<le> i128_max \<Longrightarrow> transfer_total_loop as acc = Ok t \<longleftrightarrow>
     list_all (\<lambda>a. 0 < a) as \<and> t = acc + sum_list as \<and> acc + sum_list as \<le> i128_max"
proof (induction as arbitrary: acc)
  case Nil
  then show ?case by auto
next
  case (Cons a as)
  have pos: "0 \<le> sum_list as" if "list_all (\<lambda>a. 0 < a) as"
    using that by (induction as) auto
  show ?case
  proof (cases "0 < a \<and> acc + a \<le> i128_max")
    case True
    then have "checked_balance_add acc a = Ok (acc + a)"
      using Cons.prems by (simp add: checked_balance_add_def in_i128_def i128_min_def)
    with True Cons show ?thesis
      by (auto simp: validate_transfer_amount_def require_positive_amount_def add.assoc)
  next
    case False
    then show ?thesis using pos
      by (auto simp: validate_transfer_amount_def ok_simps in_i128_def)
  qed
qed

section \<open>Properties\<close>

text \<open>Against a token with the documented behaviour, a successful \<open>safe_transfer_tracked\<close>
  moves exactly the positive amount from the sender to the receiver and touches no other balance,
  was covered by the sender's token balance and by the tracked balance, and returns the tracked
  balance reduced by exactly that amount; the sum the two parties hold is unchanged.\<close>

theorem safe_transfer_tracked_moves_exactly:
  assumes "token_laws tk bal" "f \<noteq> r"
    and "safe_transfer_tracked tk w t f r tracked amt = Ok (remaining, w')"
  shows "0 < amt \<and> amt \<le> bal w t f \<and> amt \<le> tracked \<and> remaining = tracked - amt \<and>
         bal w' = moved (bal w) t f r amt \<and> bal w' t r \<le> i128_max \<and>
         bal w' t f + bal w' t r = bal w t f + bal w t r"
proof -
  from assms(3) have s: "safe_transfer tk w t f r amt = Ok w'"
    and tr: "0 < amt" "amt \<le> tracked" "remaining = tracked - amt"
    by (auto simp: safe_transfer_tracked_def ok_simps validate_transfer_amount_def)
  from s [unfolded safe_transfer_Ok] token_laws_balance [OF assms(1)] assms(2)
  have "amt \<le> bal w t f" "in_i128 (bal w t r + amt)" and w': "tk_transfer tk w t f r amt = TryOk w'"
    by auto
  moreover have "bal w' = moved (bal w) t f r amt" by (rule token_laws_transfer [OF assms(1) w'])
  ultimately show ?thesis using tr assms(2) by (simp add: moved_def in_i128_def)
qed

theorem safe_transfer_tracked_moves_exactly_witness:
  "\<exists>w'. safe_transfer_tracked ledger_token (\<lambda>t x. if x = 1 then 100 else 5) 9 1 2 60 40 = Ok (20, w')
        \<and> w' 9 1 = 60 \<and> w' 9 2 = 45"
proof -
  let ?w = "\<lambda>(t :: nat) (x :: nat). if x = 1 then 100 else (5 :: int)"
  let ?w' = "moved ?w 9 1 2 40"
  have run: "safe_transfer_tracked ledger_token ?w 9 1 2 60 40 = Ok (20, ?w')"
    by (simp add: safe_transfer_tracked_def safe_transfer_def validate_transfer_amount_def
        require_positive_amount_def checked_balance_sub_def validate_sufficient_balance_def
        token_balance_def ledger_token_def checked_balance_add_def in_i128_def int_limits)
  from safe_transfer_tracked_moves_exactly [OF ledger_token_laws _ run] have "?w' 9 1 + ?w' 9 2 = 105"
    by simp
  with run show ?thesis by (auto simp: moved_def)
qed

end
