(* ===== verification/Upgrade.thy ===== *)
theory Upgrade
  imports Token
begin

text \<open>
  The registry-gated upgrade of \<^verbatim>\<open>interfaces/src/upgrade.rs\<close> that all eight contracts share. The
  registry is reached through a cross-contract call, a function parameter here that answers for a
  registry address, a module kind and a hash. The code a contract runs is the field \<open>running_wasm\<close>,
  replaced by the deployer call.
\<close>

record upgrade_authority =
  up_admin :: address
  up_registry :: address

datatype upgrade_event = UpgradeAuth address address | UpgradeApplied module_kind bytes

record upgrade_state =
  authority :: "upgrade_authority option"
  running_wasm :: bytes
  upgrade_events :: "upgrade_event list"

type_synonym wasm_oracle = "address \<Rightarrow> module_kind \<Rightarrow> bytes \<Rightarrow> bool try_result"

definition set_authority ::
  "env \<Rightarrow> address \<Rightarrow> address \<Rightarrow> address \<Rightarrow> upgrade_state \<Rightarrow> (unit \<times> upgrade_state) res" where
  "set_authority env caller admin registry st =
     rbind (require_auth env caller) (\<lambda>_.
     if (case authority st of Some current \<Rightarrow> up_admin current \<noteq> caller | None \<Rightarrow> False)
     then Err Unauthorized
     else Ok ((), st\<lparr>authority := Some \<lparr>up_admin = admin, up_registry = registry\<rparr>,
                     upgrade_events := upgrade_events st @ [UpgradeAuth admin registry]\<rparr>))"

definition get_authority :: "upgrade_state \<Rightarrow> upgrade_authority res" where
  "get_authority st = ok_or (authority st) NotInitialized"

definition upgrade_check ::
  "wasm_oracle \<Rightarrow> env \<Rightarrow> address \<Rightarrow> module_kind \<Rightarrow> bytes \<Rightarrow> upgrade_state \<Rightarrow> unit res" where
  "upgrade_check is_wasm_approved env caller kind wasm_hash st =
     rbind (require_auth env caller) (\<lambda>_.
     rbind (get_authority st) (\<lambda>au.
     if up_admin au \<noteq> caller then Err Unauthorized
     else (case is_wasm_approved (up_registry au) kind wasm_hash of
             TryOk True \<Rightarrow> Ok ()
           | TryOk False \<Rightarrow> Err Unauthorized
           | _ \<Rightarrow> Err Unauthorized)))"

definition upgrade_apply :: "module_kind \<Rightarrow> bytes \<Rightarrow> upgrade_state \<Rightarrow> (unit \<times> upgrade_state) res" where
  "upgrade_apply kind wasm_hash st =
     Ok ((), st\<lparr>running_wasm := wasm_hash,
                upgrade_events := upgrade_events st @ [UpgradeApplied kind wasm_hash]\<rparr>)"

definition upgrade_perform ::
  "wasm_oracle \<Rightarrow> env \<Rightarrow> address \<Rightarrow> module_kind \<Rightarrow> bytes \<Rightarrow> upgrade_state
     \<Rightarrow> (unit \<times> upgrade_state) res" where
  "upgrade_perform is_wasm_approved env caller kind wasm_hash st =
     rbind (upgrade_check is_wasm_approved env caller kind wasm_hash st) (\<lambda>_.
     upgrade_apply kind wasm_hash st)"

text \<open>The upgrade entrypoints of the member contracts differ only in their module kind.\<close>

definition multisig_upgrade where "multisig_upgrade reg env caller = upgrade_perform reg env caller KMultisig"
definition proposal_upgrade where "proposal_upgrade reg env caller = upgrade_perform reg env caller KProposal"
definition budget_upgrade where "budget_upgrade reg env caller = upgrade_perform reg env caller KBudget"
definition escrow_upgrade where "escrow_upgrade reg env caller = upgrade_perform reg env caller KEscrow"
definition wallet_upgrade where "wallet_upgrade reg env caller = upgrade_perform reg env caller KWallet"
definition policy_upgrade where "policy_upgrade reg env caller = upgrade_perform reg env caller KPolicy"
definition treasury_upgrade where "treasury_upgrade reg env caller = upgrade_perform reg env caller KTreasury"

lemma upgrade_check_Ok [ok_simps]:
  "upgrade_check reg env caller kind h st = Ok u \<longleftrightarrow>
     authorized env caller \<and> (\<exists>au. authority st = Some au \<and> up_admin au = caller \<and>
       reg (up_registry au) kind h = TryOk True)"
proof -
  have "(case r of TryOk True \<Rightarrow> Ok () | TryOk False \<Rightarrow> Err Unauthorized | _ \<Rightarrow> Err Unauthorized) = Ok u
        \<longleftrightarrow> r = TryOk True" for r
    by (cases r) (auto split: bool.splits)
  then show ?thesis
    by (cases "authority st") (auto simp: upgrade_check_def get_authority_def ok_simps)
qed

lemma set_authority_Ok [ok_simps]:
  "set_authority env caller admin registry st = Ok (u, st') \<longleftrightarrow>
     authorized env caller \<and> (\<forall>au. authority st = Some au \<longrightarrow> up_admin au = caller) \<and>
     st' = st\<lparr>authority := Some \<lparr>up_admin = admin, up_registry = registry\<rparr>,
              upgrade_events := upgrade_events st @ [UpgradeAuth admin registry]\<rparr>"
  by (auto simp: set_authority_def ok_simps split: option.splits)

lemma upgrade_perform_Ok [ok_simps]:
  "upgrade_perform reg env caller kind h st = Ok (u, st') \<longleftrightarrow>
     authorized env caller \<and>
     (\<exists>r. authority st = Some \<lparr>up_admin = caller, up_registry = r\<rparr> \<and> reg r kind h = TryOk True) \<and>
     st' = st\<lparr>running_wasm := h, upgrade_events := upgrade_events st @ [UpgradeApplied kind h]\<rparr>"
proof (cases "authority st")
  case None
  then show ?thesis by (simp add: upgrade_perform_def ok_simps)
next
  case (Some au)
  obtain a r where au: "au = \<lparr>up_admin = a, up_registry = r\<rparr>" by (cases au)
  have "upgrade_perform reg env caller kind h st = Ok (u, st') \<longleftrightarrow>
     upgrade_check reg env caller kind h st = Ok () \<and> upgrade_apply kind h st = Ok (u, st')"
    by (simp add: upgrade_perform_def rbind_eq_Ok)
  then show ?thesis using Some by (auto simp: au upgrade_check_Ok upgrade_apply_def)
qed

section \<open>Steps of the upgrade surface\<close>

inductive upgrade_step :: "wasm_oracle \<Rightarrow> upgrade_state \<Rightarrow> upgrade_state \<Rightarrow> bool"
  for reg :: wasm_oracle where
  rotate: "set_authority env caller admin registry st = Ok (u, st') \<Longrightarrow> upgrade_step reg st st'"
| upgrade: "upgrade_perform reg env caller kind h st = Ok (u, st') \<Longrightarrow> upgrade_step reg st st'"

text \<open>
  What the surface keeps: the running code is the deployed code or a hash some registry approved
  for some kind, and an authority once recorded is never removed.
\<close>

definition approved_code :: "wasm_oracle \<Rightarrow> bytes \<Rightarrow> upgrade_state \<Rightarrow> bool" where
  "approved_code reg deployed st \<longleftrightarrow>
     running_wasm st = deployed \<or> (\<exists>r kind. reg r kind (running_wasm st) = TryOk True)"

interpretation upgrade_sys: invariant_system
  "\<lambda>st. running_wasm st = deployed" "upgrade_step reg" "approved_code reg deployed" for reg deployed
proof unfold_locales
  fix s t
  assume "approved_code reg deployed s" "upgrade_step reg s t"
  then show "approved_code reg deployed t"
    by (auto simp: approved_code_def ok_simps elim!: upgrade_step.cases)
qed (simp add: approved_code_def)

section \<open>Properties\<close>

text \<open>An upgrade goes through exactly when the caller authorized the call, is the recorded
  upgrade admin, and the registry recorded with it answered that the hash is approved for this
  module kind; it then installs exactly that hash. Every other outcome, including a registry that
  fails, leaves no new state.\<close>

theorem upgrade_gated_by_admin_and_registry:
  "upgrade_perform reg env caller kind h st = Ok (u, st') \<longleftrightarrow>
     authorized env caller \<and>
     (\<exists>r. authority st = Some \<lparr>up_admin = caller, up_registry = r\<rparr> \<and> reg r kind h = TryOk True) \<and>
     st' = st\<lparr>running_wasm := h, upgrade_events := upgrade_events st @ [UpgradeApplied kind h]\<rparr>"
  by (rule upgrade_perform_Ok)

text \<open>After any sequence of authority rotations and upgrades the contract runs the code it was
  deployed with or code a registry approved.\<close>

theorem running_code_always_approved:
  assumes "reach (\<lambda>st. running_wasm st = deployed) (upgrade_step reg) st"
  shows "running_wasm st = deployed \<or> (\<exists>r kind. reg r kind (running_wasm st) = TryOk True)"
  using upgrade_sys.reach_inv [OF assms] by (simp add: approved_code_def)

theorem running_code_always_approved_witness:
  "reach (\<lambda>st. running_wasm st = [1]) (upgrade_step (\<lambda>r k h. TryOk (h = [2])))
     \<lparr>authority = Some \<lparr>up_admin = 5, up_registry = 6\<rparr>, running_wasm = [2],
      upgrade_events = [UpgradeApplied KBudget [2]]\<rparr>"
proof -
  let ?reg = "\<lambda>(r :: nat) (k :: module_kind) (h :: bytes). TryOk (h = [2])"
  let ?e = "\<lparr>timestamp = 0, sequence = 0, this_contract = 1, authorized = (\<lambda>a. a = 5),
             authorized_args = (\<lambda>a x. False)\<rparr>"
  let ?s = "\<lparr>authority = Some \<lparr>up_admin = 5, up_registry = 6\<rparr>, running_wasm = [1], upgrade_events = []\<rparr>"
  have "upgrade_perform ?reg ?e 5 KBudget [2] ?s = Ok ((), ?s\<lparr>running_wasm := [2],
          upgrade_events := [UpgradeApplied KBudget [2]]\<rparr>)"
    by (simp add: upgrade_perform_Ok)
  from upgrade_step.upgrade [OF this] have r: "reach (\<lambda>st. running_wasm st = [1]) (upgrade_step ?reg)
      (?s\<lparr>running_wasm := [2], upgrade_events := [UpgradeApplied KBudget [2]]\<rparr>)"
    by (rule reach_step [OF reach_init, rotated]) simp
  from running_code_always_approved [OF r] r show ?thesis by simp
qed

end
