(* ===== verification/Multisig.thy ===== *)
theory Multisig
  imports Upgrade
begin

text \<open>
  The multisig contract: \<^verbatim>\<open>contracts/multisig/src/lib.rs\<close> with its \<open>quorum\<close> and \<open>storage\<close> modules.
  The storage is a record with one field per \<open>DataKey\<close> (an unset instance key is \<open>None\<close>, the keyed
  persistent entries are maps), every entrypoint is a function from the environment, its arguments
  and the storage to a result. The contracts a batch calls are a parameter. The lemmas here
  establish the arithmetic of tallies; the invariants and the security properties are in
  \<open>Multisig_Props\<close>.
\<close>

section \<open>Storage\<close>

record signer_weight =
  sw_address :: address
  sw_weight :: u32

record pending_threshold_change =
  new_threshold :: u32
  effective_from :: u32

record ms_proposal =
  mp_proposer :: address
  mp_action :: symbol
  mp_payload :: bytes
  mp_approval_weight :: u32
  mp_executed :: bool
  mp_unlock_at :: u64

datatype governance_change =
    GcThreshold u32
  | GcSignerWeight address u32
  | GcAddSigner address u32
  | GcRemoveSigner address
  | GcTimelockDelay u64

record pending_change =
  pc_proposer :: address
  pc_change :: governance_change
  pc_proposed_at :: u64
  pc_eta :: u64
  pc_expires_at :: u64
  pc_executed :: bool
  pc_cancelled :: bool

record batch_call =
  bc_contract :: address
  bc_func :: symbol
  bc_args :: "sval list"

record quorum_status =
  qs_approval_weight :: u32
  qs_approvers :: u32
  qs_threshold :: u32
  qs_total_weight :: u32
  qs_remaining :: u32
  qs_met :: bool

datatype ms_event =
    EvSignerAdded address u32
  | EvSignerRemoved address
  | EvSignerWeight address u32
  | EvThresholdPending u32 u32
  | EvThresholdChanged u32
  | EvTimelockChanged u64
  | EvGovProposed u64 address symbol u64
  | EvGovExecuted u64 address symbol
  | EvGovCancelled u64 address symbol
  | EvEmergencyLock bool
  | EvProposalCreated u64 address
  | EvProposalApproved u64 address u32
  | EvProposalExecuted u64
  | EvQuorum symbol u64 quorum_status
  | EvBatchExecuted u64 address u32

record ms_state =
  ms_signers :: "signer_weight list option"
  ms_threshold :: "u32 option"
  ms_lock :: "bool option"
  ms_proposal_count :: "u64 option"
  ms_last_nonce :: "u64 option"
  ms_delay :: "u64 option"
  ms_change_count :: "u64 option"
  ms_pending_threshold :: "pending_threshold_change option"
  ms_proposals :: "u64 \<Rightarrow> ms_proposal option"
  ms_approvals :: "u64 \<times> address \<Rightarrow> bool option"
  ms_changes :: "u64 \<Rightarrow> pending_change option"
  ms_events :: "ms_event list"

definition ms_empty :: ms_state where
  "ms_empty =
     \<lparr>ms_signers = None, ms_threshold = None, ms_lock = None, ms_proposal_count = None,
      ms_last_nonce = None, ms_delay = None, ms_change_count = None, ms_pending_threshold = None,
      ms_proposals = Map.empty, ms_approvals = Map.empty, ms_changes = Map.empty, ms_events = []\<rparr>"

definition ms_emit :: "ms_event \<Rightarrow> ms_state \<Rightarrow> ms_state" where
  "ms_emit e st = st\<lparr>ms_events := ms_events st @ [e]\<rparr>"

section \<open>Quorum arithmetic\<close>

definition add_weight :: "i128 \<Rightarrow> u32 \<Rightarrow> i128 res" where
  "add_weight tot weight = checked_add tot (int weight)"

definition narrow :: "i128 \<Rightarrow> u32 res" where
  "narrow tot = (if tot > int u32_max then Err Overflow else Ok (as_u32 tot))"

definition is_met :: "u32 \<Rightarrow> u32 \<Rightarrow> bool" where
  "is_met weight threshold \<longleftrightarrow> weight \<ge> threshold"

definition quorum_remaining :: "u32 \<Rightarrow> u32 \<Rightarrow> u32" where
  "quorum_remaining weight threshold = threshold - weight"

definition quorum_require :: "u32 \<Rightarrow> u32 \<Rightarrow> error \<Rightarrow> unit res" where
  "quorum_require weight threshold shortfall =
     (if is_met weight threshold then Ok () else Err shortfall)"

definition evaluate :: "u32 \<Rightarrow> u32 \<Rightarrow> u32 \<Rightarrow> u32 \<Rightarrow> quorum_status" where
  "evaluate approval_weight approvers threshold total_w =
     \<lparr>qs_approval_weight = approval_weight, qs_approvers = approvers, qs_threshold = threshold,
      qs_total_weight = total_w, qs_remaining = quorum_remaining approval_weight threshold,
      qs_met = is_met approval_weight threshold\<rparr>"

definition ensure_met :: "quorum_status \<Rightarrow> error \<Rightarrow> unit res" where
  "ensure_met qs shortfall = (if qs_met qs then Ok () else Err shortfall)"

definition publish_threshold_met :: "symbol \<Rightarrow> u64 \<Rightarrow> quorum_status \<Rightarrow> ms_state \<Rightarrow> ms_state" where
  "publish_threshold_met category subject qs st = ms_emit (EvQuorum category subject qs) st"

section \<open>Internal helpers\<close>

definition signers :: "ms_state \<Rightarrow> signer_weight list res" where
  "signers st = ok_or (ms_signers st) NotInitialized"

definition threshold :: "ms_state \<Rightarrow> u32 res" where
  "threshold st = ok_or (ms_threshold st) NotInitialized"

fun total_weight_loop :: "signer_weight list \<Rightarrow> i128 \<Rightarrow> i128 res" where
  "total_weight_loop [] tot = Ok tot"
| "total_weight_loop (s # ss) tot = rbind (add_weight tot (sw_weight s)) (total_weight_loop ss)"

definition total_weight :: "signer_weight list \<Rightarrow> u32 res" where
  "total_weight ss = rbind (total_weight_loop ss 0) narrow"

definition has_signer :: "signer_weight list \<Rightarrow> address \<Rightarrow> bool" where
  "has_signer ss who = list_ex (\<lambda>s. sw_address s = who) ss"

definition weight_in :: "signer_weight list \<Rightarrow> address \<Rightarrow> u32 res" where
  "weight_in ss who = ok_or (map_option sw_weight (find (\<lambda>s. sw_address s = who) ss)) NotASigner"

definition weight_of :: "ms_state \<Rightarrow> address \<Rightarrow> u32 res" where
  "weight_of st who = rbind (signers st) (\<lambda>ss. weight_in ss who)"

definition require_signer_weight :: "env \<Rightarrow> ms_state \<Rightarrow> address \<Rightarrow> u32 res" where
  "require_signer_weight env st caller =
     rbind (require_auth env caller) (\<lambda>_.
     rbind (signers st) (\<lambda>ss. weight_in ss caller))"

definition require_signer :: "env \<Rightarrow> ms_state \<Rightarrow> address \<Rightarrow> unit res" where
  "require_signer env st caller =
     rbind (require_auth env caller) (\<lambda>_.
     rbind (signers st) (\<lambda>ss.
     if \<not> has_signer ss caller then Err NotASigner else Ok ()))"

definition require_governor :: "env \<Rightarrow> ms_state \<Rightarrow> address \<Rightarrow> unit res" where
  "require_governor env st caller =
     rbind (require_auth env caller) (\<lambda>_.
     rbind (signers st) (\<lambda>ss.
     if \<not> has_signer ss caller then Err UnauthorizedModification else Ok ()))"

definition require_not_locked :: "ms_state \<Rightarrow> unit res" where
  "require_not_locked st = (if unwrap_or (ms_lock st) False then Err EmergencyLock else Ok ())"

definition require_quorum :: "u32 \<Rightarrow> u32 \<Rightarrow> error \<Rightarrow> unit res" where
  "require_quorum weight_sum thr shortfall = quorum_require weight_sum thr shortfall"

text \<open>\<open>live_tally\<close>: the loop over the current signer set, weighing the approval flags.\<close>

fun tally_loop :: "(address \<Rightarrow> bool) \<Rightarrow> signer_weight list \<Rightarrow> i128 \<Rightarrow> u32 \<Rightarrow> (i128 \<times> u32) res" where
  "tally_loop approved [] tot n = Ok (tot, n)"
| "tally_loop approved (s # ss) tot n =
     (if approved (sw_address s)
      then rbind (add_weight tot (sw_weight s)) (\<lambda>tot'.
           rbind (ok_or (checked_add_word u32_max n 1) Overflow) (\<lambda>n'.
           tally_loop approved ss tot' n'))
      else tally_loop approved ss tot n)"

definition has_approved :: "ms_state \<Rightarrow> u64 \<Rightarrow> address \<Rightarrow> bool" where
  "has_approved st pid who = unwrap_or (ms_approvals st (pid, who)) False"

definition live_tally :: "ms_state \<Rightarrow> u64 \<Rightarrow> (u32 \<times> u32) res" where
  "live_tally st pid =
     rbind (signers st) (\<lambda>ss.
     rbind (tally_loop (has_approved st pid) ss 0 0) (\<lambda>(tot, n).
     rbind (narrow tot) (\<lambda>w. Ok (w, n))))"

definition compute_quorum_status :: "ms_state \<Rightarrow> u64 \<Rightarrow> quorum_status res" where
  "compute_quorum_status st pid =
     rbind (signers st) (\<lambda>ss.
     rbind (live_tally st pid) (\<lambda>(approval_weight, approvers).
     rbind (threshold st) (\<lambda>thr.
     rbind (total_weight ss) (\<lambda>tw.
     Ok (evaluate approval_weight approvers thr tw)))))"

definition load_proposal :: "ms_state \<Rightarrow> u64 \<Rightarrow> ms_proposal res" where
  "load_proposal st pid = ok_or (ms_proposals st pid) NotFound"

definition load_change :: "ms_state \<Rightarrow> u64 \<Rightarrow> pending_change res" where
  "load_change st cid = ok_or (ms_changes st cid) NotFound"

definition require_change_open :: "pending_change \<Rightarrow> unit res" where
  "require_change_open pc =
     (if pc_executed pc \<or> pc_cancelled pc then Err InvalidProposalState else Ok ())"

definition timelock_delay :: "ms_state \<Rightarrow> u64" where
  "timelock_delay st = unwrap_or (ms_delay st) MIN_TIMELOCK_DELAY"

definition validate_threshold :: "u32 \<Rightarrow> u32 \<Rightarrow> unit res" where
  "validate_threshold thr n = (if thr < MIN_THRESHOLD \<or> thr > n then Err InvalidThreshold else Ok ())"

definition assert_unique :: "signer_weight list \<Rightarrow> unit res" where
  "assert_unique ss = (if has_duplicate (map sw_address ss) then Err InvalidInput else Ok ())"

fun position :: "('a \<Rightarrow> bool) \<Rightarrow> 'a list \<Rightarrow> nat option" where
  "position P [] = None"
| "position P (x # xs) = (if P x then Some 0 else map_option Suc (position P xs))"

definition index_of :: "signer_weight list \<Rightarrow> address \<Rightarrow> nat res" where
  "index_of ss who = ok_or (position (\<lambda>s. sw_address s = who) ss) NotASigner"

definition remove_at :: "nat \<Rightarrow> 'a list \<Rightarrow> 'a list" where
  "remove_at i xs = take i xs @ drop (Suc i) xs"

definition is_quorum_or_weight_action :: "symbol \<Rightarrow> bool" where
  "is_quorum_or_weight_action action \<longleftrightarrow>
     action = ''weight'' \<or> action = ''threshold'' \<or> action = ''signer'' \<or> action = ''quorum'' \<or>
     action = ''config''"

fun change_kind :: "governance_change \<Rightarrow> symbol" where
  "change_kind (GcThreshold _) = ''threshold''"
| "change_kind (GcSignerWeight _ _) = ''weight''"
| "change_kind (GcAddSigner _ _) = ''addsigner''"
| "change_kind (GcRemoveSigner _) = ''rmsigner''"
| "change_kind (GcTimelockDelay _) = ''timelock''"

fun call_val :: "batch_call \<Rightarrow> sval" where
  "call_val c = SvVec [SvAddress (bc_contract c), SvSymbol (bc_func c), SvVec (bc_args c)]"

definition batch_payload :: "u64 \<Rightarrow> batch_call list \<Rightarrow> sval list" where
  "batch_payload nonce calls = [SvU64 nonce, SvVec (map call_val calls)]"

text \<open>The signature loop: each distinct signatory is resolved, authenticated and weighed once.\<close>

fun accumulate_loop ::
  "env \<Rightarrow> signer_weight list \<Rightarrow> sval list \<Rightarrow> address list \<Rightarrow> address list \<Rightarrow> i128 \<Rightarrow> i128 res" where
  "accumulate_loop env ss args seen [] tot = Ok tot"
| "accumulate_loop env ss args seen (who # rest) tot =
     (if who \<in> set seen then accumulate_loop env ss args seen rest tot
      else rbind (weight_in ss who) (\<lambda>weight.
           rbind (require_auth_for_args env who args) (\<lambda>_.
           rbind (add_weight tot weight) (\<lambda>tot'.
           accumulate_loop env ss args (seen @ [who]) rest tot'))))"

definition accumulate_weight ::
  "env \<Rightarrow> signer_weight list \<Rightarrow> address \<Rightarrow> address list \<Rightarrow> sval list \<Rightarrow> u32 res" where
  "accumulate_weight env ss caller signatories args =
     rbind (weight_in ss caller) (\<lambda>caller_weight.
     rbind (require_auth_for_args env caller args) (\<lambda>_.
     rbind (accumulate_loop env ss args [caller] signatories (int caller_weight)) narrow))"

section \<open>Governance changes\<close>

fun validate_change :: "ms_state \<Rightarrow> governance_change \<Rightarrow> unit res" where
  "validate_change st (GcThreshold t) =
     rbind (signers st) (\<lambda>ss. rbind (threshold st) (\<lambda>_. rbind (total_weight ss) (\<lambda>tot.
     rbind (narrow (int tot)) (\<lambda>n. validate_threshold t n))))"
| "validate_change st (GcSignerWeight who weight) =
     rbind (signers st) (\<lambda>ss. rbind (threshold st) (\<lambda>thr. rbind (total_weight ss) (\<lambda>tot.
     if weight = 0 then Err InvalidSignerWeight
     else rbind (weight_in ss who) (\<lambda>current.
          rbind (rbind (checked_sub (int tot) (int current)) (\<lambda>x. checked_add x (int weight))) (\<lambda>new_total.
          rbind (narrow new_total) (\<lambda>_.
          if new_total < int thr then Err InvalidThreshold else Ok ()))))))"
| "validate_change st (GcAddSigner who weight) =
     rbind (signers st) (\<lambda>ss. rbind (threshold st) (\<lambda>_. rbind (total_weight ss) (\<lambda>tot.
     if weight = 0 then Err InvalidSignerWeight
     else if has_signer ss who then Err AlreadyExists
     else if length ss \<ge> MAX_SIGNERS then Err TooManySigners
     else rbind (checked_add (int tot) (int weight)) (\<lambda>x. rbind (narrow x) (\<lambda>_. Ok ())))))"
| "validate_change st (GcRemoveSigner who) =
     rbind (signers st) (\<lambda>ss. rbind (threshold st) (\<lambda>thr. rbind (total_weight ss) (\<lambda>tot.
     rbind (weight_in ss who) (\<lambda>removed.
     rbind (checked_sub (int tot) (int removed)) (\<lambda>rest.
     if rest < int thr then Err InvalidThreshold else Ok ())))))"
| "validate_change st (GcTimelockDelay delay) =
     rbind (signers st) (\<lambda>ss. rbind (threshold st) (\<lambda>_. rbind (total_weight ss) (\<lambda>_.
     if delay < MIN_TIMELOCK_DELAY \<or> delay > MAX_TIMELOCK_DELAY then Err InvalidInput else Ok ())))"

fun apply_change :: "governance_change \<Rightarrow> ms_state \<Rightarrow> ms_state res" where
  "apply_change (GcThreshold t) st =
     Ok (ms_emit (EvThresholdChanged t) (st\<lparr>ms_threshold := Some t\<rparr>))"
| "apply_change (GcSignerWeight who weight) st =
     rbind (signers st) (\<lambda>ss.
     rbind (index_of ss who) (\<lambda>i.
     Ok (ms_emit (EvSignerWeight who weight)
          (st\<lparr>ms_signers := Some (ss[i := (ss ! i)\<lparr>sw_weight := weight\<rparr>])\<rparr>))))"
| "apply_change (GcAddSigner who weight) st =
     rbind (signers st) (\<lambda>ss.
     Ok (ms_emit (EvSignerAdded who weight)
          (st\<lparr>ms_signers := Some (ss @ [\<lparr>sw_address = who, sw_weight = weight\<rparr>])\<rparr>)))"
| "apply_change (GcRemoveSigner who) st =
     rbind (signers st) (\<lambda>ss.
     rbind (index_of ss who) (\<lambda>i.
     Ok (ms_emit (EvSignerRemoved who) (st\<lparr>ms_signers := Some (remove_at i ss)\<rparr>))))"
| "apply_change (GcTimelockDelay delay) st =
     Ok (ms_emit (EvTimelockChanged delay) (st\<lparr>ms_delay := Some delay\<rparr>))"

definition propose_change ::
  "env \<Rightarrow> address \<Rightarrow> governance_change \<Rightarrow> ms_state \<Rightarrow> (u64 \<times> ms_state) res" where
  "propose_change env caller change st =
     rbind (require_not_locked st) (\<lambda>_.
     rbind (require_governor env st caller) (\<lambda>_.
     rbind (validate_change st change) (\<lambda>_.
     rbind (checked_add (int (unwrap_or (ms_change_count st) 0)) 1) (\<lambda>c.
     let cid = as_u64 c; now = timestamp env in
     rbind (ok_or (checked_add_word u64_max now (timelock_delay st)) Overflow) (\<lambda>eta.
     rbind (ok_or (checked_add_word u64_max eta GOVERNANCE_GRACE_PERIOD) Overflow) (\<lambda>expires_at.
     let pending = \<lparr>pc_proposer = caller, pc_change = change, pc_proposed_at = now, pc_eta = eta,
                    pc_expires_at = expires_at, pc_executed = False, pc_cancelled = False\<rparr> in
     Ok (cid, ms_emit (EvGovProposed cid caller (change_kind change) eta)
               (st\<lparr>ms_changes := (ms_changes st)(cid \<mapsto> pending), ms_change_count := Some cid\<rparr>))))))))"

definition propose_threshold_change ::
  "env \<Rightarrow> address \<Rightarrow> u32 \<Rightarrow> ms_state \<Rightarrow> (u64 \<times> ms_state) res" where
  "propose_threshold_change env caller t st = propose_change env caller (GcThreshold t) st"

definition propose_weight_change ::
  "env \<Rightarrow> address \<Rightarrow> address \<Rightarrow> u32 \<Rightarrow> ms_state \<Rightarrow> (u64 \<times> ms_state) res" where
  "propose_weight_change env caller signer new_weight st =
     propose_change env caller (GcSignerWeight signer new_weight) st"

definition propose_signer_addition ::
  "env \<Rightarrow> address \<Rightarrow> address \<Rightarrow> u32 \<Rightarrow> ms_state \<Rightarrow> (u64 \<times> ms_state) res" where
  "propose_signer_addition env caller signer weight st =
     propose_change env caller (GcAddSigner signer weight) st"

definition propose_signer_removal ::
  "env \<Rightarrow> address \<Rightarrow> address \<Rightarrow> ms_state \<Rightarrow> (u64 \<times> ms_state) res" where
  "propose_signer_removal env caller signer st = propose_change env caller (GcRemoveSigner signer) st"

definition propose_timelock_delay_change ::
  "env \<Rightarrow> address \<Rightarrow> u64 \<Rightarrow> ms_state \<Rightarrow> (u64 \<times> ms_state) res" where
  "propose_timelock_delay_change env caller new_delay st =
     propose_change env caller (GcTimelockDelay new_delay) st"

section \<open>Entrypoints\<close>

definition initialize :: "signer_weight list \<Rightarrow> u32 \<Rightarrow> ms_state \<Rightarrow> (unit \<times> ms_state) res" where
  "initialize ss thr st =
     (if ms_threshold st \<noteq> None then Err AlreadyInitialized
      else if length ss = 0 \<or> length ss > MAX_SIGNERS then Err InvalidInput
      else if list_ex (\<lambda>s. sw_weight s = 0) ss then Err InsufficientWeight
      else rbind (assert_unique ss) (\<lambda>_.
           rbind (total_weight ss) (\<lambda>tot.
           rbind (validate_threshold thr tot) (\<lambda>_.
           Ok ((), st\<lparr>ms_signers := Some ss, ms_threshold := Some thr, ms_lock := Some False,
                      ms_proposal_count := Some 0, ms_last_nonce := Some 0,
                      ms_change_count := Some 0, ms_delay := Some MIN_TIMELOCK_DELAY\<rparr>)))))"

definition add_signer ::
  "env \<Rightarrow> address \<Rightarrow> address \<Rightarrow> u32 \<Rightarrow> ms_state \<Rightarrow> (unit \<times> ms_state) res" where
  "add_signer env caller signer weight st =
     rbind (require_signer env st caller) (\<lambda>_.
     if weight = 0 then Err InvalidSignerWeight
     else rbind (signers st) (\<lambda>ss.
          if has_signer ss signer then Err AlreadyExists
          else if length ss \<ge> MAX_SIGNERS then Err TooManySigners
          else rbind (total_weight ss) (\<lambda>tot.
               rbind (checked_add (int tot) (int weight)) (\<lambda>x.
               rbind (narrow x) (\<lambda>_.
               Ok ((), ms_emit (EvSignerAdded signer weight)
                 (st\<lparr>ms_signers := Some (ss @ [\<lparr>sw_address = signer, sw_weight = weight\<rparr>])\<rparr>)))))))"

definition remove_signer ::
  "env \<Rightarrow> address \<Rightarrow> address \<Rightarrow> ms_state \<Rightarrow> (unit \<times> ms_state) res" where
  "remove_signer env caller signer st =
     rbind (require_signer env st caller) (\<lambda>_.
     rbind (signers st) (\<lambda>ss.
     rbind (threshold st) (\<lambda>thr.
     rbind (index_of ss signer) (\<lambda>i.
     rbind (total_weight ss) (\<lambda>tot.
     rbind (checked_sub (int tot) (int (sw_weight (ss ! i)))) (\<lambda>remaining_total.
     if remaining_total < int thr then Err InvalidThreshold
     else Ok ((), ms_emit (EvSignerRemoved signer)
                    (st\<lparr>ms_signers := Some (remove_at i ss)\<rparr>))))))))"

definition set_threshold :: "env \<Rightarrow> address \<Rightarrow> u32 \<Rightarrow> ms_state \<Rightarrow> (unit \<times> ms_state) res" where
  "set_threshold env caller thr st =
     rbind (require_signer env st caller) (\<lambda>_.
     rbind (signers st) (\<lambda>ss.
     rbind (total_weight ss) (\<lambda>tot.
     rbind (validate_threshold thr tot) (\<lambda>_.
     rbind (threshold st) (\<lambda>current.
     if current = thr then Err InvalidThreshold
     else Ok ((), ms_emit (EvThresholdPending thr (sequence env))
            (st\<lparr>ms_pending_threshold :=
                 Some \<lparr>new_threshold = thr, effective_from = sequence env\<rparr>\<rparr>)))))))"

definition finalize_threshold :: "env \<Rightarrow> address \<Rightarrow> ms_state \<Rightarrow> (unit \<times> ms_state) res" where
  "finalize_threshold env caller st =
     rbind (require_signer env st caller) (\<lambda>_.
     rbind (ok_or (ms_pending_threshold st) NotFound) (\<lambda>pending.
     rbind (ok_or (checked_sub_word (sequence env) (effective_from pending)) TimelockNotExpired) (\<lambda>elapsed.
     if elapsed < THRESHOLD_CHANGE_DELAY_LEDGERS then Err TimelockNotExpired
     else rbind (signers st) (\<lambda>ss.
          rbind (total_weight ss) (\<lambda>tot.
          rbind (validate_threshold (new_threshold pending) tot) (\<lambda>_.
          Ok ((), ms_emit (EvThresholdChanged (new_threshold pending))
            (st\<lparr>ms_threshold := Some (new_threshold pending), ms_pending_threshold := None\<rparr>))))))))"

definition execute_threshold_change :: "env \<Rightarrow> address \<Rightarrow> u64 \<Rightarrow> ms_state \<Rightarrow> (unit \<times> ms_state) res" where
  "execute_threshold_change env caller cid st =
     rbind (require_not_locked st) (\<lambda>_.
     rbind (require_governor env st caller) (\<lambda>_.
     rbind (load_change st cid) (\<lambda>pending.
     rbind (require_change_open pending) (\<lambda>_.
     if timestamp env < pc_eta pending then Err TimelockNotExpired
     else if timestamp env \<ge> pc_expires_at pending then Err ProposalExpired
     else rbind (validate_change st (pc_change pending)) (\<lambda>_.
          rbind (apply_change (pc_change pending) st) (\<lambda>st1.
          Ok ((), ms_emit (EvGovExecuted cid caller (change_kind (pc_change pending)))
             (st1\<lparr>ms_changes := (ms_changes st1)(cid \<mapsto> pending\<lparr>pc_executed := True\<rparr>)\<rparr>))))))))"

definition cancel_threshold_change :: "env \<Rightarrow> address \<Rightarrow> u64 \<Rightarrow> ms_state \<Rightarrow> (unit \<times> ms_state) res" where
  "cancel_threshold_change env caller cid st =
     rbind (require_governor env st caller) (\<lambda>_.
     rbind (load_change st cid) (\<lambda>pending.
     rbind (require_change_open pending) (\<lambda>_.
     Ok ((), ms_emit (EvGovCancelled cid caller (change_kind (pc_change pending)))
        (st\<lparr>ms_changes := (ms_changes st)(cid \<mapsto> pending\<lparr>pc_cancelled := True\<rparr>)\<rparr>)))))"

definition set_emergency_lock :: "env \<Rightarrow> address \<Rightarrow> bool \<Rightarrow> ms_state \<Rightarrow> (unit \<times> ms_state) res" where
  "set_emergency_lock env caller locked st =
     rbind (require_signer env st caller) (\<lambda>_.
     Ok ((), ms_emit (EvEmergencyLock locked) (st\<lparr>ms_lock := Some locked\<rparr>)))"

definition propose ::
  "env \<Rightarrow> address \<Rightarrow> symbol \<Rightarrow> bytes \<Rightarrow> u64 \<Rightarrow> ms_state \<Rightarrow> (u64 \<times> ms_state) res" where
  "propose env proposer action payload unlock_at st =
     rbind (require_not_locked st) (\<lambda>_.
     rbind (require_signer_weight env st proposer) (\<lambda>proposer_weight.
     rbind (ok_or (ms_proposal_count st) NotInitialized) (\<lambda>count.
     rbind (checked_add (int count) 1) (\<lambda>c.
     let pid = as_u64 c;
         min_unlock = sat_add_u64 (timestamp env) (timelock_delay st);
         effective_unlock_at =
           (if is_quorum_or_weight_action action
            then (if unlock_at < min_unlock then min_unlock else unlock_at) else unlock_at);
         proposal = \<lparr>mp_proposer = proposer, mp_action = action, mp_payload = payload,
                     mp_approval_weight = proposer_weight, mp_executed = False,
                     mp_unlock_at = effective_unlock_at\<rparr>;
         st1 = ms_emit (EvProposalCreated pid proposer)
                (st\<lparr>ms_proposals := (ms_proposals st)(pid \<mapsto> proposal),
                    ms_approvals := (ms_approvals st)((pid, proposer) \<mapsto> True),
                    ms_proposal_count := Some pid\<rparr>) in
     rbind (compute_quorum_status st1 pid) (\<lambda>qs.
     Ok (pid, if qs_met qs then publish_threshold_met ''proposal'' pid qs st1 else st1))))))"

definition approve :: "env \<Rightarrow> address \<Rightarrow> u64 \<Rightarrow> ms_state \<Rightarrow> (u32 \<times> ms_state) res" where
  "approve env caller pid st =
     rbind (require_not_locked st) (\<lambda>_.
     rbind (require_signer_weight env st caller) (\<lambda>_.
     rbind (load_proposal st pid) (\<lambda>proposal.
     if mp_executed proposal then Err InvalidProposalState
     else if unwrap_or (ms_approvals st (pid, caller)) False then Err AlreadySigned
     else let st1 = st\<lparr>ms_approvals := (ms_approvals st)((pid, caller) \<mapsto> True)\<rparr> in
          rbind (threshold st1) (\<lambda>thr.
          let was_met = is_met (mp_approval_weight proposal) thr in
          rbind (compute_quorum_status st1 pid) (\<lambda>qs.
          let proposal' = proposal\<lparr>mp_approval_weight := qs_approval_weight qs\<rparr>;
              st2 = ms_emit (EvProposalApproved pid caller (mp_approval_weight proposal'))
                      (st1\<lparr>ms_proposals := (ms_proposals st1)(pid \<mapsto> proposal')\<rparr>) in
          Ok (mp_approval_weight proposal',
              if qs_met qs \<and> \<not> was_met then publish_threshold_met ''proposal'' pid qs st2
              else st2))))))"

definition execute :: "env \<Rightarrow> address \<Rightarrow> u64 \<Rightarrow> ms_state \<Rightarrow> (unit \<times> ms_state) res" where
  "execute env caller pid st =
     rbind (require_not_locked st) (\<lambda>_.
     rbind (require_signer env st caller) (\<lambda>_.
     rbind (load_proposal st pid) (\<lambda>proposal.
     if mp_executed proposal then Err InvalidProposalState
     else rbind (compute_quorum_status st pid) (\<lambda>qs.
          rbind (ensure_met qs InsufficientWeight) (\<lambda>_.
          rbind (if mp_unlock_at proposal \<noteq> 0
                 then require_time_reached env (mp_unlock_at proposal) else Ok ()) (\<lambda>_.
          let proposal' = proposal\<lparr>mp_approval_weight := qs_approval_weight qs,
                                   mp_executed := True\<rparr> in
          Ok ((), ms_emit (EvProposalExecuted pid)
                    (st\<lparr>ms_proposals := (ms_proposals st)(pid \<mapsto> proposal')\<rparr>))))))))"

text \<open>
  The contracts a batch calls: \<open>try_invoke_contract\<close> changes the rest of the ledger, the world
  \<open>'w\<close>, or fails with a contract error of the shared table or a host failure. The host forbids
  re-entry, so a sub-call cannot change the multisig's own storage.
\<close>

datatype 'w invoke_result = InvOk 'w | InvConversion | InvErr error | InvAbort

type_synonym 'w invoker = "batch_call \<Rightarrow> 'w \<Rightarrow> 'w invoke_result"

definition execute_call :: "'w invoker \<Rightarrow> batch_call \<Rightarrow> 'w \<Rightarrow> 'w res" where
  "execute_call invk call w =
     (case invk call w of
        InvOk w' \<Rightarrow> Ok w'
      | InvConversion \<Rightarrow> Err BatchCallFailed
      | InvErr e \<Rightarrow> Err e
      | InvAbort \<Rightarrow> Err BatchCallFailed)"

definition execute_batch ::
  "'w invoker \<Rightarrow> env \<Rightarrow> address \<Rightarrow> u64 \<Rightarrow> batch_call list \<Rightarrow> address list \<Rightarrow> ms_state \<times> 'w
     \<Rightarrow> (unit \<times> ms_state \<times> 'w) res" where
  "execute_batch invk env caller nonce calls approvers = (\<lambda>(st, w).
     rbind (require_not_locked st) (\<lambda>_.
     rbind (signers st) (\<lambda>ss.
     rbind (threshold st) (\<lambda>thr.
     if \<not> has_signer ss caller then Err NotASigner
     else if calls = [] \<or> length calls > MAX_BATCH_CALLS then Err InvalidInput
     else if length approvers > MAX_SIGNERS then Err InvalidInput
     else if nonce \<le> unwrap_or (ms_last_nonce st) 0 then Err InvalidNonce
     else rbind (accumulate_weight env ss caller approvers (batch_payload nonce calls)) (\<lambda>weight.
          rbind (require_quorum weight thr ThresholdNotMet) (\<lambda>_.
          rbind (total_weight ss) (\<lambda>tw.
          let st1 = publish_threshold_met ''batch'' nonce
                      (evaluate weight (length approvers + 1) thr tw) st;
              st2 = st1\<lparr>ms_last_nonce := Some nonce\<rparr> in
          rbind (rfold (execute_call invk) calls w) (\<lambda>w'.
          Ok ((), ms_emit (EvBatchExecuted nonce caller (length calls)) st2, w')))))))))"

text \<open>The verification interface other contracts call.\<close>

definition verify_threshold :: "env \<Rightarrow> ms_state \<Rightarrow> address \<Rightarrow> address list \<Rightarrow> bytes \<Rightarrow> u32 res" where
  "verify_threshold env st caller signatories payload =
     rbind (require_not_locked st) (\<lambda>_.
     if length signatories > MAX_SIGNERS then Err InvalidInput
     else rbind (signers st) (\<lambda>ss.
          rbind (threshold st) (\<lambda>thr.
          rbind (accumulate_weight env ss caller signatories [SvBytes payload]) (\<lambda>weight.
          if weight < thr then Err ThresholdNotMet else Ok weight))))"

definition is_signer :: "ms_state \<Rightarrow> address \<Rightarrow> bool" where
  "is_signer st who = (case signers st of Ok ss \<Rightarrow> has_signer ss who | _ \<Rightarrow> False)"

definition get_signer_weight :: "ms_state \<Rightarrow> address \<Rightarrow> u32" where
  "get_signer_weight st who = (case weight_of st who of Ok w \<Rightarrow> w | _ \<Rightarrow> 0)"

definition get_threshold :: "ms_state \<Rightarrow> u32 res" where
  "get_threshold st = threshold st"

text \<open>The views.\<close>

definition get_total_weight :: "ms_state \<Rightarrow> u32 res" where
  "get_total_weight st = rbind (signers st) total_weight"

definition get_proposal :: "ms_state \<Rightarrow> u64 \<Rightarrow> ms_proposal res" where
  "get_proposal st pid = load_proposal st pid"

definition get_last_batch_nonce :: "ms_state \<Rightarrow> u64" where
  "get_last_batch_nonce st = unwrap_or (ms_last_nonce st) 0"

definition get_signers :: "ms_state \<Rightarrow> signer_weight list" where
  "get_signers st = (case signers st of Ok ss \<Rightarrow> ss | _ \<Rightarrow> [])"

definition get_pending_threshold :: "ms_state \<Rightarrow> pending_threshold_change res" where
  "get_pending_threshold st = ok_or (ms_pending_threshold st) NotFound"

definition is_locked :: "ms_state \<Rightarrow> bool" where
  "is_locked st = unwrap_or (ms_lock st) False"

definition get_pending_change :: "ms_state \<Rightarrow> u64 \<Rightarrow> pending_change res" where
  "get_pending_change st cid = load_change st cid"

definition get_timelock_delay :: "ms_state \<Rightarrow> u64" where
  "get_timelock_delay st = timelock_delay st"

definition get_change_count :: "ms_state \<Rightarrow> u64" where
  "get_change_count st = unwrap_or (ms_change_count st) 0"

section \<open>The arithmetic of weights\<close>

definition weight_sum :: "signer_weight list \<Rightarrow> nat" where
  "weight_sum ss = sum_list (map sw_weight ss)"

lemma weight_sum_simps [simp]:
  "weight_sum [] = 0" "weight_sum (s # ss) = sw_weight s + weight_sum ss"
  "weight_sum (xs @ ys) = weight_sum xs + weight_sum ys"
  by (simp_all add: weight_sum_def)

lemma narrow_int: "narrow (int n) = (if n \<le> u32_max then Ok n else Err Overflow)"
  by (simp add: narrow_def)

lemma total_weight_loop_eq:
  "0 \<le> tot \<Longrightarrow> tot \<le> i128_max \<Longrightarrow> total_weight_loop ss tot =
     (if tot + int (weight_sum ss) \<le> i128_max then Ok (tot + int (weight_sum ss)) else Err Overflow)"
proof (induction ss arbitrary: tot)
  case (Cons s ss)
  show ?case
  proof (cases "tot + int (sw_weight s) \<le> i128_max")
    case True
    then have "checked_add tot (int (sw_weight s)) = Ok (tot + int (sw_weight s))"
      using Cons.prems by (simp add: checked_add_def safe_add_def in_i128_def int_limits)
    then show ?thesis using Cons.IH [of "tot + int (sw_weight s)"] Cons.prems True
      by (simp add: add_weight_def algebra_simps)
  next
    case False
    then show ?thesis using Cons.prems
      by (simp add: add_weight_def checked_add_def safe_add_def in_i128_def)
  qed
qed simp

lemma total_weight_eq:
  "total_weight ss = (if weight_sum ss \<le> u32_max then Ok (weight_sum ss) else Err Overflow)"
  by (auto simp: total_weight_def total_weight_loop_eq narrow_int int_limits)

lemma tally_loop_Ok:
  "tally_loop P ss tot n = Ok (t, m) \<Longrightarrow>
     t = tot + int (weight_sum (filter (\<lambda>s. P (sw_address s)) ss)) \<and>
     m = n + length (filter (\<lambda>s. P (sw_address s)) ss)"
  by (induction ss arbitrary: tot n) (fastforce simp: ok_simps add_weight_def split: if_splits)+

lemma tally_loop_total:
  "0 \<le> tot \<Longrightarrow> tot + int (weight_sum ss) \<le> i128_max \<Longrightarrow> n + length ss \<le> u32_max \<Longrightarrow>
     is_ok (tally_loop P ss tot n)"
proof (induction ss arbitrary: tot n)
  case (Cons s ss)
  have "checked_add tot (int (sw_weight s)) = Ok (tot + int (sw_weight s))"
    using Cons.prems by (simp add: checked_add_def safe_add_def in_i128_def int_limits)
  then show ?case using Cons.prems
    by (auto simp: add_weight_def checked_add_word_def intro!: Cons.IH)
qed simp

lemma weight_sum_filter_le: "weight_sum (filter P ss) \<le> weight_sum ss"
  by (induction ss) auto

lemma weight_sum_nth: "i < length ss \<Longrightarrow> sw_weight (ss ! i) \<le> weight_sum ss"
  using member_le_sum_list [of "sw_weight (ss ! i)" "map sw_weight ss"] by (simp add: weight_sum_def)

lemma weight_sum_remove_at:
  "i < length ss \<Longrightarrow> weight_sum (remove_at i ss) = weight_sum ss - sw_weight (ss ! i)"
proof -
  assume i: "i < length ss"
  then have "weight_sum ss = weight_sum (take i ss @ ss ! i # drop (Suc i) ss)"
    by (simp only: id_take_nth_drop [symmetric])
  then show ?thesis by (simp add: remove_at_def)
qed

lemma weight_sum_update:
  "i < length ss \<Longrightarrow>
     weight_sum (ss[i := (ss ! i)\<lparr>sw_weight := w\<rparr>]) = weight_sum ss - sw_weight (ss ! i) + w"
proof -
  assume i: "i < length ss"
  then have "weight_sum ss = weight_sum (take i ss @ ss ! i # drop (Suc i) ss)"
    by (simp only: id_take_nth_drop [symmetric])
  then show ?thesis using i by (simp add: upd_conv_take_nth_drop)
qed

lemma position_Some:
  "position P xs = Some i \<longleftrightarrow> i < length xs \<and> P (xs ! i) \<and> (\<forall>j<i. \<not> P (xs ! j))"
proof (induction xs arbitrary: i)
  case (Cons x xs)
  then show ?case by (cases i) (auto simp: All_less_Suc2)
qed simp

lemma index_of_Ok [ok_simps]:
  "index_of ss who = Ok i \<longleftrightarrow>
     i < length ss \<and> sw_address (ss ! i) = who \<and> (\<forall>j<i. sw_address (ss ! j) \<noteq> who)"
  by (simp add: index_of_def ok_simps position_Some)

lemma has_signer_iff: "has_signer ss who \<longleftrightarrow> who \<in> sw_address ` set ss"
  by (auto simp: has_signer_def list_ex_iff)

lemma weight_in_Ok_iff:
  assumes "distinct (map sw_address ss)"
  shows "weight_in ss who = Ok w \<longleftrightarrow> (\<exists>s\<in>set ss. sw_address s = who \<and> sw_weight s = w)"
proof
  assume "weight_in ss who = Ok w"
  then show "\<exists>s\<in>set ss. sw_address s = who \<and> sw_weight s = w"
    by (auto simp: weight_in_def ok_simps find_Some_iff intro: nth_mem)
next
  assume "\<exists>s\<in>set ss. sw_address s = who \<and> sw_weight s = w"
  then show "weight_in ss who = Ok w"
    using assms find_eq_Some_distinct by (fastforce simp: weight_in_def)
qed

lemma weight_in_total: "is_ok (weight_in ss who) \<longleftrightarrow> has_signer ss who"
  by (auto simp: weight_in_def ok_or_def has_signer_iff find_None_iff_notin split: option.splits)
     (metis find_None_iff_notin imageI option.distinct(1))

end
