(* ===== verification/Multisig_Props.thy ===== *)
theory Multisig_Props
  imports Multisig
begin

text \<open>
  The correctness of the multisig contract: the invariant of its storage and that every
  entrypoint keeps it, the quorum behind every execution, the replay protection of batches, the
  provenance of approvals and the timelock of governance changes. The transition relation
  \<open>ms_step\<close> has one rule per state-changing entrypoint; the world \<open>'w\<close> is the rest of the ledger.
\<close>

section \<open>The invariant\<close>

definition signers_wf :: "signer_weight list \<Rightarrow> u32 \<Rightarrow> bool" where
  "signers_wf ss thr \<longleftrightarrow>
     distinct (map sw_address ss) \<and> length ss \<le> MAX_SIGNERS \<and>
     list_all (\<lambda>s. 0 < sw_weight s) ss \<and> weight_sum ss \<le> u32_max \<and>
     MIN_THRESHOLD \<le> thr \<and> thr \<le> weight_sum ss"

definition change_wf :: "pending_change \<Rightarrow> bool" where
  "change_wf pc \<longleftrightarrow>
     pc_proposed_at pc + MIN_TIMELOCK_DELAY \<le> pc_eta pc \<and>
     pc_eta pc + GOVERNANCE_GRACE_PERIOD = pc_expires_at pc \<and>
     \<not> (pc_executed pc \<and> pc_cancelled pc)"

definition config_wf :: "signer_weight list option \<Rightarrow> u32 option \<Rightarrow> bool" where
  "config_wf sso tho =
     (case (sso, tho) of (Some ss, Some thr) \<Rightarrow> signers_wf ss thr | (None, None) \<Rightarrow> True | _ \<Rightarrow> False)"

definition delay_wf :: "u64 option \<Rightarrow> bool" where
  "delay_wf d = (case d of None \<Rightarrow> True | Some x \<Rightarrow> MIN_TIMELOCK_DELAY \<le> x \<and> x \<le> MAX_TIMELOCK_DELAY)"

definition ms_inv :: "ms_state \<Rightarrow> bool" where
  "ms_inv st \<longleftrightarrow>
     config_wf (ms_signers st) (ms_threshold st) \<and> delay_wf (ms_delay st) \<and>
     (\<forall>cid pc. ms_changes st cid = Some pc \<longrightarrow> change_wf pc)"

lemma config_wf_Some:
  "config_wf (Some ss) tho \<longleftrightarrow> (\<exists>thr. tho = Some thr \<and> signers_wf ss thr)"
  "config_wf sso (Some thr) \<longleftrightarrow> (\<exists>ss. sso = Some ss \<and> signers_wf ss thr)"
  by (auto simp: config_wf_def split: option.splits)

lemma ms_emit_sel [simp]:
  "ms_signers (ms_emit e st) = ms_signers st" "ms_threshold (ms_emit e st) = ms_threshold st"
  "ms_lock (ms_emit e st) = ms_lock st" "ms_proposal_count (ms_emit e st) = ms_proposal_count st"
  "ms_last_nonce (ms_emit e st) = ms_last_nonce st" "ms_delay (ms_emit e st) = ms_delay st"
  "ms_change_count (ms_emit e st) = ms_change_count st"
  "ms_pending_threshold (ms_emit e st) = ms_pending_threshold st"
  "ms_proposals (ms_emit e st) = ms_proposals st" "ms_approvals (ms_emit e st) = ms_approvals st"
  "ms_changes (ms_emit e st) = ms_changes st"
  by (simp_all add: ms_emit_def)

lemma ms_emit_if_sel [simp]:
  "ms_signers (if b then ms_emit e st else st) = ms_signers st"
  "ms_threshold (if b then ms_emit e st else st) = ms_threshold st"
  "ms_lock (if b then ms_emit e st else st) = ms_lock st"
  "ms_proposal_count (if b then ms_emit e st else st) = ms_proposal_count st"
  "ms_last_nonce (if b then ms_emit e st else st) = ms_last_nonce st"
  "ms_delay (if b then ms_emit e st else st) = ms_delay st"
  "ms_change_count (if b then ms_emit e st else st) = ms_change_count st"
  "ms_pending_threshold (if b then ms_emit e st else st) = ms_pending_threshold st"
  "ms_proposals (if b then ms_emit e st else st) = ms_proposals st"
  "ms_approvals (if b then ms_emit e st else st) = ms_approvals st"
  "ms_changes (if b then ms_emit e st else st) = ms_changes st"
  by simp_all

lemma publish_threshold_met_sel [simp]:
  "publish_threshold_met c i q st = ms_emit (EvQuorum c i q) st"
  by (simp add: publish_threshold_met_def)

text \<open>The guards, read from an entrypoint that succeeded.\<close>

lemma ms_guards_Ok [ok_simps]:
  "signers st = Ok ss \<longleftrightarrow> ms_signers st = Some ss"
  "threshold st = Ok thr \<longleftrightarrow> ms_threshold st = Some thr"
  "require_not_locked st = Ok u \<longleftrightarrow> \<not> is_locked st"
  "require_signer env st c = Ok u \<longleftrightarrow>
     authorized env c \<and> (\<exists>ss. ms_signers st = Some ss \<and> has_signer ss c)"
  "require_governor env st c = Ok u \<longleftrightarrow>
     authorized env c \<and> (\<exists>ss. ms_signers st = Some ss \<and> has_signer ss c)"
  "load_change st cid = Ok pc \<longleftrightarrow> ms_changes st cid = Some pc"
  "load_proposal st pid = Ok p \<longleftrightarrow> ms_proposals st pid = Some p"
  "require_change_open pc = Ok u \<longleftrightarrow> \<not> pc_executed pc \<and> \<not> pc_cancelled pc"
  "validate_threshold t n = Ok u \<longleftrightarrow> MIN_THRESHOLD \<le> t \<and> t \<le> n"
  "narrow (int k) = Ok w \<longleftrightarrow> w = k \<and> k \<le> u32_max"
  "total_weight ss = Ok w \<longleftrightarrow> w = weight_sum ss \<and> weight_sum ss \<le> u32_max"
  "assert_unique ss = Ok u \<longleftrightarrow> distinct (map sw_address ss)"
  "quorum_require w thr e = Ok u \<longleftrightarrow> thr \<le> w"
  "ensure_met qs e = Ok u \<longleftrightarrow> qs_met qs"
  by (auto simp: signers_def threshold_def require_not_locked_def is_locked_def require_signer_def
      require_governor_def load_change_def load_proposal_def require_change_open_def
      validate_threshold_def narrow_int total_weight_eq assert_unique_def quorum_require_def
      is_met_def ensure_met_def ok_simps)

lemma require_signer_weight_Ok [ok_simps]:
  "require_signer_weight env st c = Ok w \<longleftrightarrow>
     authorized env c \<and> (\<exists>ss. ms_signers st = Some ss \<and> weight_in ss c = Ok w)"
  by (auto simp: require_signer_weight_def ok_simps)

lemma checked_add_nat [ok_simps]:
  "checked_add (int a) (int b) = Ok x \<longleftrightarrow> x = int (a + b) \<and> in_i128 (int (a + b))"
  by (auto simp: ok_simps)

section \<open>The signer list under the operations\<close>

lemma signers_wf_snoc:
  assumes "signers_wf ss thr" and "\<not> has_signer ss who" and "length ss < MAX_SIGNERS"
    and "0 < w" and "weight_sum ss + w \<le> u32_max"
  shows "signers_wf (ss @ [\<lparr>sw_address = who, sw_weight = w\<rparr>]) thr"
  using assms by (auto simp: signers_wf_def has_signer_iff)

lemma distinct_remove_at: "distinct (map f xs) \<Longrightarrow> distinct (map f (remove_at i xs))"
proof -
  assume d: "distinct (map f xs)"
  have "map f (remove_at i xs) = remove_at i (map f xs)"
    by (simp add: remove_at_def take_map drop_map)
  moreover have "distinct (remove_at i (map f xs))"
    using d by (simp only: remove_at_def distinct_append distinct_take distinct_drop
        set_take_disj_set_drop_if_distinct)
  ultimately show ?thesis by simp
qed

lemma set_remove_at: "set (remove_at i xs) \<subseteq> set xs"
  by (auto simp: remove_at_def dest: in_set_takeD in_set_dropD)

lemma signers_wf_remove_at:
  assumes "signers_wf ss thr" and "i < length ss"
    and "thr \<le> weight_sum ss - sw_weight (ss ! i)"
  shows "signers_wf (remove_at i ss) thr"
  using assms set_remove_at [of i ss] distinct_remove_at [of sw_address ss i]
  by (auto simp: signers_wf_def weight_sum_remove_at list_all_iff) (simp add: remove_at_def)

lemma signers_wf_update:
  assumes "signers_wf ss thr" and "i < length ss" and "0 < w"
    and "weight_sum ss - sw_weight (ss ! i) + w \<le> u32_max"
    and "thr \<le> weight_sum ss - sw_weight (ss ! i) + w"
  shows "signers_wf (ss[i := (ss ! i)\<lparr>sw_weight := w\<rparr>]) thr"
proof -
  have "map sw_address (ss[i := (ss ! i)\<lparr>sw_weight := w\<rparr>]) = map sw_address ss"
    using assms(2) by (simp add: map_update list_update_same_conv)
  then show ?thesis using assms
    by (auto simp: signers_wf_def weight_sum_update list_all_iff dest!: set_update_subset_insert [THEN subsetD])
qed

lemma index_of_weight_in: "index_of ss who = Ok i \<Longrightarrow> weight_in ss who = Ok (sw_weight (ss ! i))"
  by (auto simp: ok_simps weight_in_def find_Some_iff)

lemma weight_in_has: "weight_in ss a = Ok w \<Longrightarrow> has_signer ss a"
  using weight_in_total [of ss a] by simp

section \<open>Every entrypoint keeps the invariant\<close>

lemma ms_inv_same_config:
  assumes "ms_inv st" and "ms_signers st' = ms_signers st" and "ms_threshold st' = ms_threshold st"
    and "ms_delay st' = ms_delay st" and "ms_changes st' = ms_changes st"
  shows "ms_inv st'"
  using assms by (simp add: ms_inv_def)

lemma ms_inv_new_signers:
  assumes "ms_inv st" and "ms_signers st' = Some ss" and "ms_threshold st = Some thr"
    and "signers_wf ss thr" and "ms_threshold st' = ms_threshold st"
    and "ms_delay st' = ms_delay st" and "ms_changes st' = ms_changes st"
  shows "ms_inv st'"
  using assms by (simp add: ms_inv_def config_wf_def)

lemma ms_inv_new_change:
  assumes "ms_inv st" and "change_wf pc" and "ms_changes st' = (ms_changes st)(cid \<mapsto> pc)"
    and "ms_signers st' = ms_signers st" and "ms_threshold st' = ms_threshold st"
    and "ms_delay st' = ms_delay st"
  shows "ms_inv st'"
  using assms by (simp add: ms_inv_def)

lemma ms_inv_signers:
  "ms_inv st \<Longrightarrow> ms_signers st = Some ss \<Longrightarrow> \<exists>thr. ms_threshold st = Some thr \<and> signers_wf ss thr"
  by (auto simp: ms_inv_def config_wf_Some)

lemma ms_inv_empty: "ms_inv ms_empty"
  by (simp add: ms_inv_def ms_empty_def config_wf_def delay_wf_def)

lemma initialize_inv:
  assumes "initialize ss thr st = Ok (u, st')" and "ms_inv st"
  shows "ms_inv st'"
  using assms by (auto simp: initialize_def ok_simps ms_inv_def config_wf_def delay_wf_def
      signers_wf_def list_ex_iff list_all_iff limit_defs split: option.splits)

lemma add_signer_inv:
  assumes "add_signer env c who w st = Ok (u, st')" and "ms_inv st"
  shows "ms_inv st'"
proof -
  from assms(1) obtain ss where ss: "ms_signers st = Some ss" "\<not> has_signer ss who"
    "length ss < MAX_SIGNERS" "0 < w" "weight_sum ss + w \<le> u32_max"
    "st' = ms_emit (EvSignerAdded who w)
       (st\<lparr>ms_signers := Some (ss @ [\<lparr>sw_address = who, sw_weight = w\<rparr>])\<rparr>)"
    by (auto simp: add_signer_def ok_simps not_le narrow_int split: if_splits simp flip: of_nat_add)
  with ms_inv_signers [OF assms(2)] obtain thr where "ms_threshold st = Some thr" "signers_wf ss thr"
    by blast
  with ss assms(2) show ?thesis
    by (intro ms_inv_new_signers [OF assms(2) _ _ signers_wf_snoc [of ss thr who w]]) auto
qed

lemma remove_signer_inv:
  assumes "remove_signer env c who st = Ok (u, st')" and "ms_inv st"
  shows "ms_inv st'"
proof -
  from assms(1) obtain ss i thr where s: "ms_signers st = Some ss" "ms_threshold st = Some thr"
    "i < length ss" "int thr \<le> int (weight_sum ss) - int (sw_weight (ss ! i))"
    "st' = ms_emit (EvSignerRemoved who) (st\<lparr>ms_signers := Some (remove_at i ss)\<rparr>)"
    by (auto simp: remove_signer_def ok_simps not_less)
  then have "thr \<le> weight_sum ss - sw_weight (ss ! i)" by linarith
  moreover have "signers_wf ss thr" using ms_inv_signers [OF assms(2) s(1)] s(2) by simp
  ultimately show ?thesis using s
    by (intro ms_inv_new_signers [OF assms(2) _ s(2) signers_wf_remove_at [of ss thr i]]) auto
qed

lemma set_threshold_inv:
  "set_threshold env c t st = Ok (u, st') \<Longrightarrow> ms_inv st \<Longrightarrow> ms_inv st'"
  by (auto simp: set_threshold_def ok_simps intro: ms_inv_same_config)

lemma finalize_threshold_inv:
  "finalize_threshold env c st = Ok (u, st') \<Longrightarrow> ms_inv st \<Longrightarrow> ms_inv st'"
  by (auto simp: finalize_threshold_def ok_simps ms_inv_def config_wf_def signers_wf_def
      split: option.splits)

lemma propose_change_inv:
  assumes "propose_change env c ch st = Ok (cid, st')" and "ms_inv st"
  shows "ms_inv st'"
proof -
  have "MIN_TIMELOCK_DELAY \<le> timelock_delay st"
    using assms(2) by (auto simp: ms_inv_def delay_wf_def timelock_delay_def split: option.splits)
  then show ?thesis using assms(1)
    by (auto simp: propose_change_def Let_def ok_simps change_wf_def
        intro!: ms_inv_new_change [OF assms(2), rotated])
qed

lemma apply_change_config:
  assumes "apply_change ch st = Ok st'"
  shows "ms_changes st' = ms_changes st" "ms_lock st' = ms_lock st"
    "ms_proposals st' = ms_proposals st" "ms_approvals st' = ms_approvals st"
    "ms_last_nonce st' = ms_last_nonce st" "ms_proposal_count st' = ms_proposal_count st"
    "ms_change_count st' = ms_change_count st"
    "ms_pending_threshold st' = ms_pending_threshold st"
  using assms by (cases ch; auto simp: ok_simps)+

lemma apply_valid_change_inv:
  assumes "validate_change st ch = Ok u" and "apply_change ch st = Ok st'" and "ms_inv st"
  shows "ms_inv st'"
proof -
  have ch: "ms_changes st' = ms_changes st" using apply_change_config [OF assms(2)] by simp
  obtain ss thr where ss: "ms_signers st = Some ss" "ms_threshold st = Some thr"
    using assms(1) by (cases ch) (auto simp: ok_simps)
  have wf: "signers_wf ss thr" using ms_inv_signers [OF assms(3) ss(1)] ss(2) by simp
  show ?thesis
  proof (cases ch)
    case (GcThreshold t)
    then show ?thesis using assms ss wf
      by (auto simp: ok_simps ms_inv_def config_wf_def signers_wf_def)
  next
    case (GcSignerWeight who w)
    then obtain i where i: "index_of ss who = Ok i"
      "st' = ms_emit (EvSignerWeight who w) (st\<lparr>ms_signers := Some (ss[i := (ss ! i)\<lparr>sw_weight := w\<rparr>])\<rparr>)"
      using assms(2) ss by (auto simp: rbind_eq_Ok signers_def)
    have le: "sw_weight (ss ! i) \<le> weight_sum ss" "i < length ss"
      using i(1) by (auto simp: index_of_Ok weight_sum_nth)
    then have tot: "int (weight_sum ss) - int (sw_weight (ss ! i)) + int w
        = int (weight_sum ss - sw_weight (ss ! i) + w)" by simp
    have "0 < w" "weight_sum ss - sw_weight (ss ! i) + w \<le> u32_max"
      "thr \<le> weight_sum ss - sw_weight (ss ! i) + w"
      using assms(1) GcSignerWeight ss index_of_weight_in [OF i(1)]
      by (auto simp: ok_simps tot narrow_int simp del: of_nat_add split: if_splits)
    then show ?thesis using i le ss wf
      by (intro ms_inv_new_signers [OF assms(3) _ ss(2) signers_wf_update [of ss thr i w]]) auto
  next
    case (GcAddSigner who w)
    then show ?thesis using assms ss wf
      by (intro ms_inv_new_signers [OF assms(3) _ ss(2) signers_wf_snoc [of ss thr who w]])
         (auto simp: ok_simps not_le narrow_int split: if_splits simp flip: of_nat_add)
  next
    case (GcRemoveSigner who)
    then obtain i where i: "index_of ss who = Ok i"
      "st' = ms_emit (EvSignerRemoved who) (st\<lparr>ms_signers := Some (remove_at i ss)\<rparr>)"
      using assms(2) ss by (auto simp: rbind_eq_Ok signers_def)
    have "thr \<le> weight_sum ss - sw_weight (ss ! i)" "i < length ss"
      using assms(1) GcRemoveSigner ss index_of_weight_in [OF i(1)] i(1)
      by (auto simp: ok_simps not_less)
    then show ?thesis using i ss wf
      by (intro ms_inv_new_signers [OF assms(3) _ ss(2) signers_wf_remove_at [of ss thr i]]) auto
  next
    case (GcTimelockDelay d)
    then show ?thesis using assms by (auto simp: ok_simps ms_inv_def delay_wf_def)
  qed
qed

lemma execute_threshold_changeE:
  assumes "execute_threshold_change env c cid st = Ok (u, st')"
  obtains pc st1 ss where "\<not> is_locked st" "authorized env c"
    "ms_signers st = Some ss" "has_signer ss c"
    "ms_changes st cid = Some pc" "\<not> pc_executed pc" "\<not> pc_cancelled pc"
    "pc_eta pc \<le> timestamp env" "timestamp env < pc_expires_at pc"
    "validate_change st (pc_change pc) = Ok ()" "apply_change (pc_change pc) st = Ok st1"
    "st' = ms_emit (EvGovExecuted cid c (change_kind (pc_change pc)))
      (st1\<lparr>ms_changes := (ms_changes st)(cid \<mapsto> pc\<lparr>pc_executed := True\<rparr>)\<rparr>)"
  using assms apply_change_config(1)
  by (fastforce simp: execute_threshold_change_def ok_simps not_less not_le)

lemma execute_threshold_change_inv:
  assumes "execute_threshold_change env c cid st = Ok (u, st')" and "ms_inv st"
  shows "ms_inv st'"
  using assms(1)
proof (rule execute_threshold_changeE)
  fix pc st1 ss
  assume s: "ms_changes st cid = Some pc" "\<not> pc_cancelled pc"
    "validate_change st (pc_change pc) = Ok ()" "apply_change (pc_change pc) st = Ok st1"
    "st' = ms_emit (EvGovExecuted cid c (change_kind (pc_change pc)))
      (st1\<lparr>ms_changes := (ms_changes st)(cid \<mapsto> pc\<lparr>pc_executed := True\<rparr>)\<rparr>)"
  have "change_wf (pc\<lparr>pc_executed := True\<rparr>)"
    using s(1,2) assms(2) by (auto simp: ms_inv_def change_wf_def)
  with s apply_valid_change_inv [OF s(3,4) assms(2)] apply_change_config(1) [OF s(4)]
  show ?thesis by (auto intro: ms_inv_new_change)
qed

lemma cancel_threshold_change_inv:
  assumes "cancel_threshold_change env c cid st = Ok (u, st')" and "ms_inv st"
  shows "ms_inv st'"
  using assms
  by (auto simp: cancel_threshold_change_def ok_simps ms_inv_def change_wf_def split: if_splits)

lemma set_emergency_lock_inv:
  "set_emergency_lock env c b st = Ok (u, st') \<Longrightarrow> ms_inv st \<Longrightarrow> ms_inv st'"
  by (auto simp: set_emergency_lock_def ok_simps intro: ms_inv_same_config)

lemma propose_inv: "propose env c a d t st = Ok (pid, st') \<Longrightarrow> ms_inv st \<Longrightarrow> ms_inv st'"
  by (auto simp: propose_def Let_def ok_simps intro: ms_inv_same_config)

lemma approve_inv: "approve env c pid st = Ok (w, st') \<Longrightarrow> ms_inv st \<Longrightarrow> ms_inv st'"
  by (auto simp: approve_def Let_def ok_simps intro: ms_inv_same_config)

lemma execute_inv: "execute env c pid st = Ok (u, st') \<Longrightarrow> ms_inv st \<Longrightarrow> ms_inv st'"
  by (auto simp: execute_def Let_def ok_simps intro: ms_inv_same_config)

lemma execute_batch_inv:
  "execute_batch invk env c n calls apps (st, w) = Ok (u, st', w') \<Longrightarrow> ms_inv st \<Longrightarrow> ms_inv st'"
  by (auto simp: execute_batch_def Let_def ok_simps intro: ms_inv_same_config)

section \<open>The transition system\<close>

inductive ms_step :: "'w invoker \<Rightarrow> env \<Rightarrow> ms_state \<times> 'w \<Rightarrow> ms_state \<times> 'w \<Rightarrow> bool"
  for invk :: "'w invoker" and env :: env where
  initialize: "initialize ss thr st = Ok (u, st') \<Longrightarrow> ms_step invk env (st, w) (st', w)"
| add_signer: "add_signer env c who x st = Ok (u, st') \<Longrightarrow> ms_step invk env (st, w) (st', w)"
| remove_signer: "remove_signer env c who st = Ok (u, st') \<Longrightarrow> ms_step invk env (st, w) (st', w)"
| set_threshold: "set_threshold env c t st = Ok (u, st') \<Longrightarrow> ms_step invk env (st, w) (st', w)"
| finalize_threshold:
    "finalize_threshold env c st = Ok (u, st') \<Longrightarrow> ms_step invk env (st, w) (st', w)"
| propose_change: "propose_change env c ch st = Ok (cid, st') \<Longrightarrow> ms_step invk env (st, w) (st', w)"
| execute_threshold_change:
    "execute_threshold_change env c cid st = Ok (u, st') \<Longrightarrow> ms_step invk env (st, w) (st', w)"
| cancel_threshold_change:
    "cancel_threshold_change env c cid st = Ok (u, st') \<Longrightarrow> ms_step invk env (st, w) (st', w)"
| set_emergency_lock:
    "set_emergency_lock env c b st = Ok (u, st') \<Longrightarrow> ms_step invk env (st, w) (st', w)"
| propose: "propose env c a d t st = Ok (pid, st') \<Longrightarrow> ms_step invk env (st, w) (st', w)"
| approve: "approve env c pid st = Ok (x, st') \<Longrightarrow> ms_step invk env (st, w) (st', w)"
| execute: "execute env c pid st = Ok (u, st') \<Longrightarrow> ms_step invk env (st, w) (st', w)"
| execute_batch:
    "execute_batch invk env c n calls apps (st, w) = Ok (u, st', w') \<Longrightarrow>
     ms_step invk env (st, w) (st', w')"
| elsewhere: "ms_step invk env (st, w) (st, w')"

definition ms_next :: "'w invoker \<Rightarrow> ms_state \<times> 'w \<Rightarrow> ms_state \<times> 'w \<Rightarrow> bool" where
  "ms_next invk s t \<longleftrightarrow> (\<exists>env. ms_step invk env s t)"

lemma ms_step_inv: "ms_step invk env (st, w) (st', w') \<Longrightarrow> ms_inv st \<Longrightarrow> ms_inv st'"
  by (erule ms_step.cases)
     (auto dest: initialize_inv add_signer_inv remove_signer_inv set_threshold_inv
      finalize_threshold_inv propose_change_inv execute_threshold_change_inv
      cancel_threshold_change_inv set_emergency_lock_inv propose_inv approve_inv execute_inv
      execute_batch_inv)

interpretation ms_sys: invariant_system
  "\<lambda>s. fst s = ms_empty" "ms_next invk" "\<lambda>s. ms_inv (fst s)" for invk :: "'w invoker"
  by unfold_locales (auto simp: ms_inv_empty ms_next_def intro: ms_step_inv)

section \<open>Tallies as sums over sets of signers\<close>

definition weight_fn :: "signer_weight list \<Rightarrow> address \<Rightarrow> u32" where
  "weight_fn ss a = (case weight_in ss a of Ok w \<Rightarrow> w | _ \<Rightarrow> 0)"

lemma get_signer_weight_eq: "ms_signers st = Some ss \<Longrightarrow> get_signer_weight st = weight_fn ss"
  by (rule ext) (simp add: get_signer_weight_def weight_fn_def weight_of_def signers_def)

lemma is_signer_eq: "ms_signers st = Some ss \<Longrightarrow> is_signer st a \<longleftrightarrow> has_signer ss a"
  by (simp add: is_signer_def signers_def)

lemma weight_fn_Cons_same [simp]: "weight_fn (s # ss) (sw_address s) = sw_weight s"
  by (simp add: weight_fn_def weight_in_def)

lemma weight_fn_Cons_other [simp]: "a \<noteq> sw_address s \<Longrightarrow> weight_fn (s # ss) a = weight_fn ss a"
  by (simp add: weight_fn_def weight_in_def)

lemma tally_eq_sum:
  assumes "distinct (map sw_address ss)"
  shows "weight_sum (filter (\<lambda>s. P (sw_address s)) ss) =
         (\<Sum>a\<in>{a \<in> sw_address ` set ss. P a}. weight_fn ss a)"
  using assms
proof (induction ss)
  case (Cons s ss)
  let ?A = "{a \<in> sw_address ` set ss. P a}"
  have notin: "sw_address s \<notin> sw_address ` set ss" and d: "distinct (map sw_address ss)"
    using Cons.prems by auto
  have eq: "(\<Sum>a\<in>?A. weight_fn (s # ss) a) = (\<Sum>a\<in>?A. weight_fn ss a)"
    using notin by (intro sum.cong refl weight_fn_Cons_other) (metis (no_types, lifting) mem_Collect_eq)
  have set: "{a \<in> sw_address ` set (s # ss). P a} =
      (if P (sw_address s) then insert (sw_address s) ?A else ?A)" by auto
  show ?case unfolding set using notin Cons.IH [OF d] by (simp add: eq)
qed simp

lemma accumulate_loop_Ok:
  "accumulate_loop env ss args seen rest tot = Ok t \<Longrightarrow>
     t = tot + int (\<Sum>a\<in>set rest - set seen. weight_fn ss a) \<and>
     (\<forall>a\<in>set rest - set seen. has_signer ss a \<and> authorized_args env a args)"
proof (induction rest arbitrary: seen tot)
  case (Cons who rest)
  show ?case
  proof (cases "who \<in> set seen")
    case True
    then have "set (who # rest) - set seen = set rest - set seen" by auto
    with True Cons show ?thesis by simp
  next
    case False
    from Cons.prems False obtain w where w: "weight_in ss who = Ok w" "authorized_args env who args"
      "accumulate_loop env ss args (seen @ [who]) rest (tot + int w) = Ok t"
      by (auto simp: ok_simps add_weight_def)
    have "has_signer ss who" using w(1) weight_in_total [of ss who] by simp
    moreover have "set (who # rest) - set seen = insert who (set rest - set (seen @ [who]))"
      using False by auto
    moreover have "weight_fn ss who = w" using w(1) by (simp add: weight_fn_def)
    ultimately show ?thesis using Cons.IH [OF w(3)] w(2) by simp
  qed
qed simp

lemma accumulate_weight_Ok:
  assumes "accumulate_weight env ss c sigs args = Ok w"
  shows "w = (\<Sum>a\<in>insert c (set sigs). weight_fn ss a)"
    and "\<forall>a\<in>insert c (set sigs). has_signer ss a \<and> authorized_args env a args"
proof -
  from assms obtain cw t where c: "weight_in ss c = Ok cw" "authorized_args env c args"
    "accumulate_loop env ss args [c] sigs (int cw) = Ok t" "narrow t = Ok w"
    by (auto simp: accumulate_weight_def ok_simps)
  have t: "t = int (cw + (\<Sum>a\<in>set sigs - {c}. weight_fn ss a))"
    and all: "\<forall>a\<in>set sigs - {c}. has_signer ss a \<and> authorized_args env a args"
    using accumulate_loop_Ok [OF c(3)] by auto
  have "weight_fn ss c = cw" using c(1) by (simp add: weight_fn_def)
  then show "w = (\<Sum>a\<in>insert c (set sigs). weight_fn ss a)"
    using c(4) unfolding t narrow_int
    by (subst sum.insert_remove) (simp_all del: of_nat_add of_nat_sum split: if_splits)
  show "\<forall>a\<in>insert c (set sigs). has_signer ss a \<and> authorized_args env a args"
    using all c(1,2) weight_in_total [of ss c] by auto
qed

definition approving :: "ms_state \<Rightarrow> u64 \<Rightarrow> address set" where
  "approving st pid = {a. is_signer st a \<and> has_approved st pid a}"

lemma live_tally_eq:
  assumes "ms_inv st" and "ms_signers st = Some ss"
  shows "live_tally st pid =
    Ok (\<Sum>a\<in>approving st pid. get_signer_weight st a, card (approving st pid))"
proof -
  let ?f = "filter (\<lambda>s. has_approved st pid (sw_address s)) ss"
  obtain thr where wf: "signers_wf ss thr" using ms_inv_signers [OF assms] by blast
  then have d: "distinct (map sw_address ss)" and le: "weight_sum ?f \<le> u32_max"
    using weight_sum_filter_le [of "\<lambda>s. has_approved st pid (sw_address s)" ss]
    by (auto simp: signers_wf_def)
  have A: "approving st pid = {a \<in> sw_address ` set ss. has_approved st pid a}"
    by (auto simp: approving_def is_signer_eq [OF assms(2)] has_signer_iff)
  have "is_ok (tally_loop (has_approved st pid) ss 0 0)"
    using wf by (intro tally_loop_total) (auto simp: signers_wf_def limit_defs int_limits)
  then obtain t n where "tally_loop (has_approved st pid) ss 0 0 = Ok (t, n)"
    by (auto simp: is_ok_iff)
  moreover from tally_loop_Ok [OF this] have "t = int (weight_sum ?f)" "n = length ?f" by auto
  moreover have "narrow (int (weight_sum ?f)) = Ok (weight_sum ?f)" using le by (simp add: narrow_int)
  moreover have "length ?f = card (approving st pid)"
  proof -
    have "approving st pid = set (map sw_address ?f)" using A by auto
    then show ?thesis using d by (metis distinct_card distinct_map_filter length_map)
  qed
  ultimately show ?thesis
    using assms(2) le tally_eq_sum [OF d, of "has_approved st pid"]
    by (simp add: live_tally_def signers_def A get_signer_weight_eq [OF assms(2)] del: of_nat_sum)
qed

lemma compute_quorum_status_eq:
  assumes "ms_inv st" and "ms_signers st = Some ss" and "ms_threshold st = Some thr"
  shows "compute_quorum_status st pid =
    Ok (evaluate (\<Sum>a\<in>approving st pid. get_signer_weight st a) (card (approving st pid)) thr
         (weight_sum ss))"
  using ms_inv_signers [OF assms(1,2)] assms live_tally_eq [OF assms(1,2)]
  by (auto simp: compute_quorum_status_def signers_def threshold_def total_weight_eq signers_wf_def)

section \<open>Runs: identifiers, nonces and executed flags\<close>

text \<open>Identifiers in use never exceed their counter, and nothing exists before initialisation.\<close>

definition ids_wf :: "ms_state \<Rightarrow> bool" where
  "ids_wf st \<longleftrightarrow>
     (\<forall>pid. ms_proposals st pid \<noteq> None \<longrightarrow> pid \<le> unwrap_or (ms_proposal_count st) 0) \<and>
     (\<forall>cid. ms_changes st cid \<noteq> None \<longrightarrow> cid \<le> unwrap_or (ms_change_count st) 0) \<and>
     (ms_signers st = None \<longrightarrow> ms_proposals st = Map.empty \<and> ms_changes st = Map.empty)"

definition id_use :: "ms_state \<Rightarrow> nat" where
  "id_use st = max (unwrap_or (ms_proposal_count st) 0) (unwrap_or (ms_change_count st) 0)"

text \<open>What a later state keeps of an earlier one.\<close>

definition keeps :: "ms_state \<Rightarrow> ms_state \<Rightarrow> bool" where
  "keeps st st' \<longleftrightarrow>
     (ms_threshold st \<noteq> None \<longrightarrow> ms_threshold st' \<noteq> None) \<and>
     (ms_threshold st \<noteq> None \<longrightarrow> get_last_batch_nonce st \<le> get_last_batch_nonce st')"

definition finals_kept :: "ms_state \<Rightarrow> ms_state \<Rightarrow> bool" where
  "finals_kept st st' \<longleftrightarrow>
     (\<forall>pid p. ms_proposals st pid = Some p \<and> mp_executed p \<longrightarrow> ms_proposals st' pid = Some p) \<and>
     (\<forall>cid pc. ms_changes st cid = Some pc \<and> (pc_executed pc \<or> pc_cancelled pc) \<longrightarrow>
        ms_changes st' cid = Some pc)"

lemmas entry_defs =
  initialize_def add_signer_def remove_signer_def set_threshold_def finalize_threshold_def
  propose_change_def execute_threshold_change_def cancel_threshold_change_def
  set_emergency_lock_def propose_def approve_def execute_def execute_batch_def

lemma apply_change_threshold:
  "apply_change ch st = Ok st' \<Longrightarrow> ms_threshold st \<noteq> None \<Longrightarrow> ms_threshold st' \<noteq> None"
  "apply_change ch st = Ok st' \<Longrightarrow> ms_signers st \<noteq> None \<Longrightarrow> ms_signers st' \<noteq> None"
  by (cases ch; auto simp: ok_simps)+

lemma ms_step_keeps: "ms_step invk env (st, w) (st', w') \<Longrightarrow> keeps st st'"
proof (erule ms_step.cases, goal_cases)
  case (7 c cid st1 u st1' w1)
  then show ?case
    by (auto elim!: execute_threshold_changeE simp: keeps_def get_last_batch_nonce_def
        apply_change_config dest: apply_change_threshold)
qed (auto simp: entry_defs Let_def ok_simps keeps_def get_last_batch_nonce_def)

lemma as_u64_Suc: "n < u64_max \<Longrightarrow> as_u64 (1 + int n) = Suc n"
  using as_u64_int [of "Suc n"] by simp

lemma proposeE:
  assumes "propose env c a d t st = Ok (pid, st')"
  obtains ss w count p where "\<not> is_locked st" "authorized env c" "ms_signers st = Some ss"
    "weight_in ss c = Ok w" "ms_proposal_count st = Some count" "pid = as_u64 (1 + int count)"
    "ms_proposals st' = (ms_proposals st)(pid \<mapsto> p)" "\<not> mp_executed p"
    "ms_approvals st' = (ms_approvals st)((pid, c) \<mapsto> True)" "ms_proposal_count st' = Some pid"
    "ms_changes st' = ms_changes st" "ms_change_count st' = ms_change_count st"
    "ms_signers st' = ms_signers st" "ms_threshold st' = ms_threshold st"
  using assms unfolding propose_def Let_def by (auto simp: ok_simps add.commute)

lemma approveE:
  assumes "approve env c pid st = Ok (x, st')"
  obtains ss w p p' where "\<not> is_locked st" "authorized env c" "ms_signers st = Some ss"
    "weight_in ss c = Ok w" "ms_proposals st pid = Some p" "\<not> mp_executed p" "\<not> mp_executed p'"
    "\<not> has_approved st pid c" "ms_proposals st' = (ms_proposals st)(pid \<mapsto> p')"
    "ms_approvals st' = (ms_approvals st)((pid, c) \<mapsto> True)"
    "ms_proposal_count st' = ms_proposal_count st"
    "ms_changes st' = ms_changes st" "ms_change_count st' = ms_change_count st"
    "ms_signers st' = ms_signers st" "ms_threshold st' = ms_threshold st"
proof -
  from assms obtain ss w p thr qs where a: "\<not> is_locked st" "authorized env c"
    "ms_signers st = Some ss" "weight_in ss c = Ok w" "ms_proposals st pid = Some p"
    "\<not> mp_executed p" "\<not> has_approved st pid c"
    "st' = (let st2 = ms_emit (EvProposalApproved pid c (qs_approval_weight qs))
             (st\<lparr>ms_approvals := (ms_approvals st)((pid, c) \<mapsto> True), ms_proposals :=
              (ms_proposals st)(pid \<mapsto> p\<lparr>mp_approval_weight := qs_approval_weight qs\<rparr>)\<rparr>) in
            if qs_met qs \<and> \<not> is_met (mp_approval_weight p) thr
            then ms_emit (EvQuorum ''proposal'' pid qs) st2 else st2)"
    unfolding approve_def Let_def by (simp add: ok_simps has_approved_def cong: if_cong) blast
  then show ?thesis
    by (intro that [of ss w p "p\<lparr>mp_approval_weight := qs_approval_weight qs\<rparr>"]) (simp_all add: Let_def)
qed

lemma ids_wf_proposals:
  assumes "ids_wf st" and "ms_proposals st pid = Some p"
    and "ms_proposals st' = (ms_proposals st)(pid \<mapsto> p')"
    and "ms_proposal_count st' = ms_proposal_count st" and "ms_changes st' = ms_changes st"
    and "ms_change_count st' = ms_change_count st" and "ms_signers st' = ms_signers st"
  shows "ids_wf st'"
  using assms by (auto simp: ids_wf_def)

lemma ids_wf_changes:
  assumes "ids_wf st" and "ms_changes st cid = Some pc" and "ms_signers st \<noteq> None"
    and "ms_changes st' = (ms_changes st)(cid \<mapsto> pc')"
    and "ms_proposal_count st' = ms_proposal_count st" and "ms_proposals st' = ms_proposals st"
    and "ms_change_count st' = ms_change_count st" and "ms_signers st' \<noteq> None"
  shows "ids_wf st'"
  using assms by (auto simp: ids_wf_def)

lemma ms_step_finals:
  assumes "ms_step invk env (st, w) (st', w')" and "ms_inv st" and "ids_wf st" and "id_use st < u64_max"
  shows "ids_wf st' \<and> finals_kept st st' \<and> id_use st' \<le> Suc (id_use st)"
  using assms
proof (induction "(st, w)" "(st', w')" arbitrary: st st' w w' rule: ms_step.induct)
  case (initialize ss thr st u st' w)
  then have "ms_signers st = None" by (auto simp: initialize_def ms_inv_def config_wf_def split: option.splits if_splits)
  with initialize show ?case by (auto simp: initialize_def ok_simps ids_wf_def finals_kept_def id_use_def)
next
  case (propose_change c ch st cid st' w)
  then show ?case
    by (auto simp: propose_change_def ok_simps Let_def ids_wf_def finals_kept_def id_use_def as_u64_Suc add.commute le_Suc_eq)
next
  case (execute_threshold_change c cid st u st' w)
  then show ?case
    by (auto elim!: execute_threshold_changeE ids_wf_changes simp: finals_kept_def id_use_def
        apply_change_config dest: apply_change_threshold)
next
  case (propose c a d t st pid st' w)
  then show ?case
    by (auto elim!: proposeE simp: ids_wf_def finals_kept_def id_use_def as_u64_Suc le_Suc_eq)
next
  case (approve c pid st x st' w)
  then show ?case
    by (auto elim!: approveE intro: ids_wf_proposals simp: finals_kept_def id_use_def)
next
  case (execute c pid st u st' w)
  then show ?case
    by (auto simp: execute_def ok_simps Let_def finals_kept_def id_use_def intro: ids_wf_proposals)
next
  case (cancel_threshold_change c cid st u st' w)
  then show ?case
    by (auto simp: cancel_threshold_change_def ok_simps Let_def finals_kept_def id_use_def
        elim!: ids_wf_changes)
qed (auto simp: entry_defs Let_def ok_simps ids_wf_def finals_kept_def id_use_def)

lemma ms_run_finals:
  "(ms_next invk ^^ n) (st, w) (st', w') \<Longrightarrow> ms_inv st \<Longrightarrow> ids_wf st \<Longrightarrow> id_use st + n \<le> u64_max \<Longrightarrow>
     ms_inv st' \<and> ids_wf st' \<and> finals_kept st st' \<and> id_use st' \<le> id_use st + n"
proof (induction n arbitrary: st' w')
  case 0
  then show ?case by (simp add: finals_kept_def)
next
  case (Suc n)
  from Suc.prems(1) obtain sm wm env where run: "(ms_next invk ^^ n) (st, w) (sm, wm)"
    and step: "ms_step invk env (sm, wm) (st', w')"
    by (rule relpowp_Suc_E) (auto simp: ms_next_def [of _ _ "(st', w')"])
  have m: "ms_inv sm" "ids_wf sm" "finals_kept st sm" "id_use sm \<le> id_use st + n"
    using Suc.IH [OF run] Suc.prems by auto
  then have "id_use sm < u64_max" using Suc.prems(4) by simp
  from ms_step_finals [OF step m(1,2) this] ms_step_inv [OF step m(1)] m show ?case
    by (auto simp: finals_kept_def)
qed

lemma ms_run_keeps:
  "(ms_next invk)\<^sup>*\<^sup>* s t \<Longrightarrow> keeps (fst s) (fst t)"
proof (induction rule: rtranclp_induct)
  case base
  then show ?case by (simp add: keeps_def)
next
  case (step t u)
  then show ?case
    using ms_step_keeps [of invk _ "fst t" "snd t" "fst u" "snd u"]
    by (auto simp: ms_next_def keeps_def dest: order_trans)
qed

lemma ms_empty_run: "ms_inv ms_empty" "ids_wf ms_empty" "id_use ms_empty = 0"
  by (auto simp: ms_inv_empty) (auto simp: ids_wf_def id_use_def ms_empty_def)

lemma execute_Ok_iff:
  assumes "ms_inv st"
  shows "is_ok (execute env c pid st) \<longleftrightarrow>
    \<not> is_locked st \<and> authorized env c \<and> is_signer st c \<and>
    (\<exists>p thr. ms_proposals st pid = Some p \<and> \<not> mp_executed p \<and> ms_threshold st = Some thr \<and>
       thr \<le> (\<Sum>a\<in>approving st pid. get_signer_weight st a) \<and> mp_unlock_at p \<le> timestamp env)"
proof (cases "ms_signers st")
  case None
  then show ?thesis
    by (auto simp: is_signer_def signers_def execute_def is_ok_rbind ok_simps)
next
  case (Some ss)
  obtain thr where thr: "ms_threshold st = Some thr" using ms_inv_signers [OF assms Some] by blast
  show ?thesis using Some thr
    by (auto simp: execute_def is_ok_iff ok_simps Let_def is_signer_eq is_met_def evaluate_def
        compute_quorum_status_eq [OF assms Some thr])
qed

lemma execute_Ok_state:
  "execute env c pid st = Ok (u, st') \<Longrightarrow>
     \<exists>p p'. ms_proposals st pid = Some p \<and> \<not> mp_executed p \<and> ms_proposals st' pid = Some p' \<and>
       mp_executed p'"
  by (auto simp: execute_def ok_simps Let_def)

lemma execute_needs_open:
  "ms_proposals st pid = Some p \<Longrightarrow> mp_executed p \<Longrightarrow> \<not> is_ok (execute env c pid st)"
  by (auto simp: execute_def is_ok_iff ok_simps)

lemma propose_config:
  assumes "propose env c a d t st = Ok (pid, st')"
  shows "ms_signers st' = ms_signers st" "ms_threshold st' = ms_threshold st" "ms_lock st' = ms_lock st"
  using assms unfolding propose_def Let_def by (auto simp: ok_simps)

lemma finite_approving: "finite (approving st pid)"
proof -
  have "approving st pid \<subseteq> sw_address ` set (get_signers st)"
    by (cases "signers st") (auto simp: approving_def is_signer_def get_signers_def has_signer_iff)
  then show ?thesis by (rule finite_subset) simp
qed

text \<open>A signer's proposal is always accepted by an unlocked multisig.\<close>

lemma propose_total:
  assumes "ms_inv st" and "ms_signers st = Some ss" and "weight_in ss c = Ok w"
    and "authorized env c" and "\<not> is_locked st" and "ms_proposal_count st = Some n"
    and "n < u64_max" and "\<not> is_quorum_or_weight_action a"
  shows "\<exists>st' p. propose env c a d t st = Ok (n + 1, st') \<and> ms_proposals st' (n + 1) = Some p \<and>
    \<not> mp_executed p \<and> mp_unlock_at p = t \<and> has_approved st' (n + 1) c"
proof -
  let ?p = "\<lparr>mp_proposer = c, mp_action = a, mp_payload = d, mp_approval_weight = w,
    mp_executed = False, mp_unlock_at = t\<rparr>"
  define st1 where "st1 = ms_emit (EvProposalCreated (n + 1) c)
    (st\<lparr>ms_proposals := (ms_proposals st)(n + 1 \<mapsto> ?p),
        ms_approvals := (ms_approvals st)((n + 1, c) \<mapsto> True), ms_proposal_count := Some (n + 1)\<rparr>)"
  obtain thr where thr: "ms_threshold st = Some thr" using ms_inv_signers [OF assms(1,2)] by blast
  have "ms_inv st1" "ms_signers st1 = Some ss" "ms_threshold st1 = Some thr"
    using assms thr by (auto simp: st1_def intro: ms_inv_same_config)
  then obtain qs where qs: "compute_quorum_status st1 (n + 1) = Ok qs"
    using compute_quorum_status_eq by blast
  have "checked_add (int n) 1 = Ok (1 + int n)"
    using in_i128_u64 [of "Suc n"] assms(7) by (simp add: ok_simps add.commute)
  then have "propose env c a d t st =
      Ok (n + 1, if qs_met qs then ms_emit (EvQuorum ''proposal'' (n + 1) qs) st1 else st1)"
    using assms qs as_u64_Suc [OF assms(7)]
    by (simp add: propose_def Let_def require_not_locked_def is_locked_def require_signer_weight_def
        require_auth_def signers_def st1_def [symmetric, simplified])
  then show ?thesis by (auto simp: st1_def has_approved_def)
qed

section \<open>The interface other contracts read\<close>

text \<open>
  What the contracts that consult a multisig rely on: in a good state the weights of any distinct
  signers fit \<open>u32\<close>, signers have weight, and the threshold is within reach of all of them.
\<close>

locale multisig_view =
  fixes good :: "'m \<Rightarrow> bool"
    and sgn :: "'m \<Rightarrow> address \<Rightarrow> bool"
    and wt :: "'m \<Rightarrow> address \<Rightarrow> u32"
    and thr :: "'m \<Rightarrow> u32 option"
  assumes finite_signers: "good m \<Longrightarrow> finite {a. sgn m a}"
    and total_fits: "good m \<Longrightarrow> (\<Sum>a\<in>{a. sgn m a}. wt m a) \<le> u32_max"
    and weight_pos: "good m \<Longrightarrow> sgn m a \<Longrightarrow> 0 < wt m a"
    and in_reach: "good m \<Longrightarrow> thr m = Some t \<Longrightarrow> 0 < t \<and> t \<le> (\<Sum>a\<in>{a. sgn m a}. wt m a)"
begin

lemma set_fits: "good m \<Longrightarrow> A \<subseteq> {a. sgn m a} \<Longrightarrow> (\<Sum>a\<in>A. wt m a) \<le> u32_max"
  using total_fits [of m] sum_mono2 [OF finite_signers, of m A "wt m"] by simp

lemma list_fits:
  assumes "good m" and "distinct xs"
  shows "(\<Sum>a\<leftarrow>filter (\<lambda>a. P a \<and> sgn m a) xs. wt m a) \<le> u32_max"
proof -
  have "(\<Sum>a\<leftarrow>filter (\<lambda>a. P a \<and> sgn m a) xs. wt m a) = (\<Sum>a\<in>set (filter (\<lambda>a. P a \<and> sgn m a) xs). wt m a)"
    using assms(2) by (simp only: sum_list_distinct_conv_sum_set distinct_filter)
  also have "\<dots> \<le> u32_max" using assms(1) by (intro set_fits) auto
  finally show ?thesis .
qed

lemma quorum_nonempty: "good m \<Longrightarrow> thr m = Some t \<Longrightarrow> t \<le> (\<Sum>a\<in>A. wt m a) \<Longrightarrow> A \<noteq> {}"
  using in_reach by fastforce

end

lemma all_signers_sum:
  assumes "signers_wf ss thr" and "ms_signers st = Some ss"
  shows "{a. is_signer st a} = sw_address ` set ss"
    and "(\<Sum>a\<in>{a. is_signer st a}. get_signer_weight st a) = weight_sum ss"
proof -
  show A: "{a. is_signer st a} = sw_address ` set ss"
    by (auto simp: is_signer_eq [OF assms(2)] has_signer_iff)
  have "distinct (map sw_address ss)" using assms(1) by (simp add: signers_wf_def)
  from tally_eq_sum [OF this, of "\<lambda>_. True"]
  show "(\<Sum>a\<in>{a. is_signer st a}. get_signer_weight st a) = weight_sum ss"
    unfolding A by (simp add: get_signer_weight_eq [OF assms(2)])
qed

lemma weight_fn_pos:
  assumes "signers_wf ss thr" and "has_signer ss a"
  shows "0 < weight_fn ss a"
proof -
  obtain w where w: "weight_in ss a = Ok w" using assms(2) weight_in_total [of ss a] is_ok_iff by metis
  then obtain s where "s \<in> set ss" "sw_weight s = w"
    using weight_in_Ok_iff [of ss a w] assms(1) by (auto simp: signers_wf_def)
  then show ?thesis using assms(1) w by (auto simp: signers_wf_def weight_fn_def list_all_iff)
qed

interpretation msv: multisig_view ms_inv is_signer get_signer_weight ms_threshold
proof
  fix m :: ms_state and a t
  assume inv: "ms_inv m"
  show "finite {a. is_signer m a}" "(\<Sum>a\<in>{a. is_signer m a}. get_signer_weight m a) \<le> u32_max"
  proof -
    have "finite {a. is_signer m a} \<and> (\<Sum>a\<in>{a. is_signer m a}. get_signer_weight m a) \<le> u32_max"
    proof (cases "ms_signers m")
      case None
      then show ?thesis by (simp add: is_signer_def signers_def)
    next
      case (Some ss)
      with ms_inv_signers [OF inv] obtain th where wf: "signers_wf ss th" by blast
      then have "weight_sum ss \<le> u32_max" by (simp add: signers_wf_def)
      then show ?thesis
        using all_signers_sum(2) [OF wf Some] unfolding all_signers_sum(1) [OF wf Some] by simp
    qed
    then show "finite {a. is_signer m a}" "(\<Sum>a\<in>{a. is_signer m a}. get_signer_weight m a) \<le> u32_max"
      by auto
  qed
  show "0 < get_signer_weight m a" if "is_signer m a"
  proof (cases "ms_signers m")
    case None
    then show ?thesis using that by (simp add: is_signer_def signers_def)
  next
    case (Some ss)
    with ms_inv_signers [OF inv] obtain th where wf: "signers_wf ss th" by blast
    then show ?thesis using that weight_fn_pos by (simp add: is_signer_eq [OF Some] get_signer_weight_eq [OF Some])
  qed
  show "0 < t \<and> t \<le> (\<Sum>a\<in>{a. is_signer m a}. get_signer_weight m a)" if t: "ms_threshold m = Some t"
  proof -
    obtain ss where ss: "ms_signers m = Some ss" "signers_wf ss t"
      using inv t by (auto simp: ms_inv_def config_wf_Some)
    then show ?thesis using all_signers_sum(2) [OF ss(2,1)] by (simp add: signers_wf_def limit_defs)
  qed
qed

section \<open>Properties\<close>

definition demo_env :: "u64 \<Rightarrow> address list \<Rightarrow> env" where
  "demo_env t who = \<lparr>timestamp = t, sequence = 100, this_contract = 50,
     authorized = (\<lambda>a. a \<in> set who), authorized_args = (\<lambda>a _. a \<in> set who)\<rparr>"

definition demo_signers :: "signer_weight list" where
  "demo_signers = [\<lparr>sw_address = 1, sw_weight = 2\<rparr>, \<lparr>sw_address = 2, sw_weight = 1\<rparr>,
     \<lparr>sw_address = 3, sw_weight = 1\<rparr>]"

definition demo_init :: ms_state where
  "demo_init = commit ms_empty (initialize demo_signers 3 ms_empty)"

definition demo_proposed :: ms_state where
  "demo_proposed = commit demo_init (propose (demo_env 1000 [1]) 1 ''pay'' [] 0 demo_init)"

definition demo_approved :: ms_state where
  "demo_approved = commit demo_proposed (approve (demo_env 1001 [2]) 2 1 demo_proposed)"

lemmas demo_defs = demo_env_def demo_signers_def demo_init_def demo_proposed_def demo_approved_def

lemmas ms_eval =
  ms_empty_def initialize_def propose_def approve_def require_not_locked_def
  require_signer_weight_def require_signer_def require_auth_def signers_def threshold_def
  weight_in_def has_signer_def total_weight_eq validate_threshold_def assert_unique_def
  compute_quorum_status_def live_tally_def has_approved_def add_weight_def checked_add_def
  safe_add_def in_i128_def narrow_def as_u32_def as_u64_def evaluate_def is_met_def
  quorum_remaining_def publish_threshold_met_def ms_emit_def load_proposal_def timelock_delay_def
  is_quorum_or_weight_action_def checked_add_word_def limit_defs int_limits Let_def

lemma demo_approved_eval:
  "ms_inv demo_approved" "is_ok (execute (demo_env 1002 [3]) 3 1 demo_approved)"
  by (simp_all add: demo_defs ms_eval execute_def ensure_met_def ms_inv_def config_wf_def delay_wf_def
      signers_wf_def)

text \<open>C19. A configured multisig can always act: in every state reachable from empty storage by
  any interleaving of the entrypoints, whatever the called contracts do, the signers are distinct
  with positive weights, there are at most \<open>MAX_SIGNERS\<close>, the total weight is computed without
  overflow, and it reaches the positive threshold.\<close>

theorem multisig_never_bricked:
  assumes "reach (\<lambda>s. fst s = ms_empty) (ms_next invk) (st, w)" and "ms_threshold st = Some thr"
  shows "\<exists>ss tot. signers st = Ok ss \<and> distinct (map sw_address ss) \<and> length ss \<le> MAX_SIGNERS \<and>
    list_all (\<lambda>s. 0 < sw_weight s) ss \<and> get_total_weight st = Ok tot \<and>
    MIN_THRESHOLD \<le> thr \<and> thr \<le> tot"
proof -
  have "ms_inv st" using ms_sys.reach_inv [OF assms(1)] by simp
  then obtain ss where "ms_signers st = Some ss" "signers_wf ss thr"
    using assms(2) by (auto simp: ms_inv_def config_wf_Some)
  then show ?thesis
    by (auto simp: signers_wf_def signers_def get_total_weight_def total_weight_eq)
qed

lemma demo_reach:
  "reach (\<lambda>s. fst s = ms_empty) (ms_next invk) (demo_init, w)"
proof -
  have "initialize demo_signers 3 ms_empty = Ok ((), demo_init)"
    by (simp add: demo_defs ms_eval)
  then have "ms_next invk (ms_empty, w) (demo_init, w)"
    unfolding ms_next_def by (blast intro: ms_step.initialize)
  then show ?thesis by (rule reach_step [OF reach_init, rotated]) simp
qed

theorem multisig_never_bricked_witness:
  "\<exists>ss tot. signers demo_init = Ok ss \<and> distinct (map sw_address ss) \<and> length ss \<le> MAX_SIGNERS \<and>
    list_all (\<lambda>s. 0 < sw_weight s) ss \<and> get_total_weight demo_init = Ok tot \<and>
    MIN_THRESHOLD \<le> 3 \<and> 3 \<le> tot"
  by (rule multisig_never_bricked [of "\<lambda>_ _. InvAbort" demo_init "0 :: nat", OF demo_reach])
     (simp add: demo_defs ms_eval)

text \<open>\<open>execute\<close> succeeds exactly when the contract is not locked, the caller is an authorized
  signer, the proposal exists and was not executed, its unlock time has passed, and the weights
  of the distinct current signers that approved it reach the threshold.\<close>

theorem execute_exact:
  assumes "ms_inv st"
  shows "is_ok (execute env caller pid st) \<longleftrightarrow>
    \<not> is_locked st \<and> authorized env caller \<and> is_signer st caller \<and>
    (\<exists>p thr. ms_proposals st pid = Some p \<and> \<not> mp_executed p \<and> ms_threshold st = Some thr \<and>
       thr \<le> (\<Sum>a\<in>approving st pid. get_signer_weight st a) \<and> mp_unlock_at p \<le> timestamp env)"
  using assms by (rule execute_Ok_iff)

theorem execute_exact_witness:
  "\<exists>thr. ms_threshold demo_approved = Some thr \<and>
     thr \<le> (\<Sum>a\<in>approving demo_approved 1. get_signer_weight demo_approved a)"
  using execute_exact [OF demo_approved_eval(1), of "demo_env 1002 [3]" 3 1] demo_approved_eval(2)
  by auto

text \<open>A proposal is executed at most once: after a successful \<open>execute\<close>, no sequence of
  fewer than 2^64 transactions from the deployment of the contract reaches a state in which the
  same proposal executes again.\<close>

theorem proposal_executed_once:
  assumes "(ms_next invk ^^ m) (ms_empty, w0) (st, w)"
    and "execute env caller pid st = Ok (u, st1)"
    and "(ms_next invk ^^ n) (st1, w) (st2, w2)"
    and "m + 1 + n \<le> u64_max"
  shows "\<not> is_ok (execute env' caller' pid st2)"
proof -
  have st: "ms_inv st" "ids_wf st" "id_use st \<le> m"
    using ms_run_finals [OF assms(1)] ms_empty_run assms(4) by auto
  have step: "ms_step invk env (st, w) (st1, w)" using assms(2) by (rule ms_step.execute)
  have "ids_wf st1" "id_use st1 \<le> m + 1"
    using ms_step_finals [OF step st(1,2)] st(3) assms(4) by auto
  moreover have "ms_inv st1" using ms_step_inv [OF step st(1)] .
  ultimately have "finals_kept st1 st2" using ms_run_finals [OF assms(3)] assms(4) by auto
  moreover obtain p where "ms_proposals st1 pid = Some p" "mp_executed p"
    using execute_Ok_state [OF assms(2)] by blast
  ultimately show ?thesis using execute_needs_open by (auto simp: finals_kept_def)
qed

text \<open>A governance change that was executed or cancelled is final: no later sequence of fewer
  than 2^64 transactions alters the record, so it is executed at most once and never after a veto.\<close>

theorem governance_change_final:
  assumes "(ms_next invk ^^ m) (ms_empty, w0) (st, w)"
    and "ms_changes st cid = Some pc" and "pc_executed pc \<or> pc_cancelled pc"
    and "(ms_next invk ^^ n) (st, w) (st2, w2)" and "m + n \<le> u64_max"
  shows "ms_changes st2 cid = Some pc \<and> \<not> is_ok (execute_threshold_change env caller cid st2)"
proof -
  have st: "ms_inv st" "ids_wf st" "id_use st \<le> m"
    using ms_run_finals [OF assms(1)] ms_empty_run assms(5) by auto
  then have "finals_kept st st2" using ms_run_finals [OF assms(4)] assms(5) by auto
  then have "ms_changes st2 cid = Some pc" using assms(2,3) by (auto simp: finals_kept_def)
  with assms(3) show ?thesis by (auto simp: is_ok_iff execute_threshold_change_def ok_simps)
qed

lemma demo_run:
  "(ms_next invk ^^ 3) (ms_empty, w) (demo_approved, w)"
proof -
  have "initialize demo_signers 3 ms_empty = Ok ((), demo_init)"
    "propose (demo_env 1000 [1]) 1 ''pay'' [] 0 demo_init = Ok (1, demo_proposed)"
    "approve (demo_env 1001 [2]) 2 1 demo_proposed = Ok (3, demo_approved)"
    by (simp_all add: demo_defs ms_eval)
  then have "ms_next invk (ms_empty, w) (demo_init, w)"
    "ms_next invk (demo_init, w) (demo_proposed, w)"
    "ms_next invk (demo_proposed, w) (demo_approved, w)"
    unfolding ms_next_def
    by (blast intro: ms_step.initialize ms_step.propose ms_step.approve)+
  then show ?thesis by (auto simp: numeral_3_eq_3)
qed

theorem proposal_executed_once_witness:
  "\<exists>st1. execute (demo_env 1002 [3]) 3 1 demo_approved = Ok ((), st1) \<and>
     \<not> is_ok (execute (demo_env 2000 [1]) 1 1 st1)"
proof -
  obtain u st1 where e: "execute (demo_env 1002 [3]) 3 1 demo_approved = Ok (u, st1)"
    using demo_approved_eval(2) by (auto simp: is_ok_iff)
  from proposal_executed_once
    [OF demo_run [of "\<lambda>_ _. InvAbort" "0 :: nat"] e, of 0 st1 0 "demo_env 2000 [1]" 1]
  show ?thesis using e by (auto simp: int_limits)
qed

definition demo_change :: ms_state where
  "demo_change = commit demo_init (propose_change (demo_env 1000 [1]) 1 (GcThreshold 2) demo_init)"

definition demo_veto :: ms_state where
  "demo_veto = commit demo_change (cancel_threshold_change (demo_env 1001 [2]) 2 1 demo_change)"

lemmas gov_eval =
  demo_change_def demo_veto_def propose_change_def cancel_threshold_change_def require_governor_def
  load_change_def require_change_open_def

lemma demo_veto_eval:
  "propose_change (demo_env 1000 [1]) 1 (GcThreshold 2) demo_init = Ok (1, demo_change)"
  "cancel_threshold_change (demo_env 1001 [2]) 2 1 demo_change = Ok ((), demo_veto)"
  "initialize demo_signers 3 ms_empty = Ok ((), demo_init)"
  "\<exists>pc. ms_changes demo_veto 1 = Some pc \<and> pc_cancelled pc"
  by (simp_all add: demo_defs ms_eval gov_eval)

lemma demo_veto_run: "(ms_next invk ^^ 3) (ms_empty, w) (demo_veto, w)"
proof -
  have "ms_next invk (ms_empty, w) (demo_init, w)"
    "ms_next invk (demo_init, w) (demo_change, w)" "ms_next invk (demo_change, w) (demo_veto, w)"
    unfolding ms_next_def using demo_veto_eval
    by (blast intro: ms_step.initialize ms_step.propose_change ms_step.cancel_threshold_change)+
  then show ?thesis by (auto simp: numeral_3_eq_3)
qed

theorem governance_change_final_witness:
  "\<not> is_ok (execute_threshold_change (demo_env 90000 [1]) 1 1 demo_veto)"
proof -
  obtain pc where "ms_changes demo_veto 1 = Some pc" "pc_cancelled pc" using demo_veto_eval by blast
  with governance_change_final [OF demo_veto_run [of "\<lambda>_ _. InvAbort" "0 :: nat"], of 1 pc 0
      demo_veto 0 "demo_env 90000 [1]" 1]
  show ?thesis by (auto simp: int_limits)
qed

text \<open>C18. A batch runs only under a fresh signed quorum: the caller and every listed approver is
  a current signer that authorized exactly this nonce and these calls, the weights of the distinct
  signers among them reach the threshold, the nonce is greater than every nonce used before and
  becomes the last one, and the calls run in order, all of them succeeding.\<close>

theorem batch_quorum_sound:
  assumes "execute_batch invk env caller nonce calls approvers (st, w) = Ok (u, st', w')"
  shows "\<exists>thr. ms_threshold st = Some thr \<and> \<not> is_locked st \<and>
    list_all (\<lambda>a. is_signer st a \<and> authorized_args env a (batch_payload nonce calls))
      (caller # approvers) \<and>
    thr \<le> (\<Sum>a\<in>set (caller # approvers). get_signer_weight st a) \<and>
    get_last_batch_nonce st < nonce \<and> get_last_batch_nonce st' = nonce \<and>
    rfold (execute_call invk) calls w = Ok w'"
proof -
  from assms obtain ss thr weight where b: "ms_signers st = Some ss" "ms_threshold st = Some thr"
    "\<not> is_locked st" "unwrap_or (ms_last_nonce st) 0 < nonce"
    "accumulate_weight env ss caller approvers (batch_payload nonce calls) = Ok weight"
    "thr \<le> weight" "rfold (execute_call invk) calls w = Ok w'" "ms_last_nonce st' = Some nonce"
    by (auto simp: execute_batch_def ok_simps Let_def require_quorum_def not_le)
  from accumulate_weight_Ok [OF b(5)] b show ?thesis
    by (auto simp: is_signer_eq get_signer_weight_eq list_all_iff get_last_batch_nonce_def)
qed

definition demo_invoker :: "nat invoker" where
  "demo_invoker call w = InvOk (w + bc_contract call)"

definition demo_calls :: "batch_call list" where
  "demo_calls = [\<lparr>bc_contract = 7, bc_func = ''pay'', bc_args = []\<rparr>]"

lemma demo_batch:
  "\<exists>st'. execute_batch demo_invoker (demo_env 1000 [1, 2]) 1 5 demo_calls [2, 1] (demo_init, 0)
     = Ok ((), st', 7)"
  by (simp add: demo_defs ms_eval execute_batch_def accumulate_weight_def demo_calls_def
      require_auth_for_args_def require_quorum_def quorum_require_def execute_call_def
      demo_invoker_def)

theorem batch_quorum_sound_witness:
  "\<exists>thr. ms_threshold demo_init = Some thr \<and>
    thr \<le> (\<Sum>a\<in>set [1, 2, 1]. get_signer_weight demo_init a)"
  using demo_batch batch_quorum_sound [of demo_invoker "demo_env 1000 [1, 2]" 1 5 demo_calls "[2, 1]"
      demo_init 0]
  by fastforce

text \<open>A batch is replay-proof: after a batch with some nonce has run, no later state of any
  run accepts a batch with the same or a smaller nonce, whoever signs it.\<close>

theorem batch_never_replayed:
  assumes "execute_batch invk env caller nonce calls approvers (st, w) = Ok (u, st1, w1)"
    and "(ms_next invk)\<^sup>*\<^sup>* (st1, w1) (st2, w2)" and "nonce' \<le> nonce"
  shows "\<not> is_ok (execute_batch invk env' caller' nonce' calls' approvers' (st2, w2))"
proof -
  have "ms_threshold st1 \<noteq> None" "ms_last_nonce st1 = Some nonce"
    using assms(1) by (auto simp: execute_batch_def ok_simps Let_def)
  with ms_run_keeps [OF assms(2)] have "nonce \<le> get_last_batch_nonce st2"
    by (auto simp: keeps_def get_last_batch_nonce_def)
  with assms(3) show ?thesis
    by (auto simp: is_ok_iff execute_batch_def ok_simps get_last_batch_nonce_def)
qed

theorem batch_never_replayed_witness:
  "\<exists>st1. execute_batch demo_invoker (demo_env 1000 [1, 2]) 1 5 demo_calls [2, 1] (demo_init, 0)
     = Ok ((), st1, 7) \<and>
   \<not> is_ok (execute_batch demo_invoker (demo_env 1001 [1, 2]) 1 5 demo_calls [2, 1] (st1, 7))"
  using demo_batch batch_never_replayed [of demo_invoker "demo_env 1000 [1, 2]" 1 5 demo_calls
      "[2, 1]" demo_init 0 "()" _ 7 _ 7 5]
  by blast

lemma approvals_kept:
  assumes "ms_step invk env (st, w) (st', w')"
  shows "has_approved st' pid a \<longleftrightarrow> has_approved st pid a \<or>
      has_approved st' pid a \<and> authorized env a \<and> is_signer st a \<and> \<not> is_locked st"
  using assms
proof (cases rule: ms_step.cases)
  case (propose c ac d t pid')
  then show ?thesis
    by (auto elim!: proposeE simp: has_approved_def is_signer_eq dest: weight_in_has split: if_splits)
next
  case (approve c pid' x)
  then show ?thesis
    by (auto elim!: approveE simp: has_approved_def is_signer_eq dest: weight_in_has split: if_splits)
next
  case (execute_threshold_change c cid u)
  then show ?thesis
    by (auto elim!: execute_threshold_changeE simp: has_approved_def apply_change_config)
qed (auto simp: entry_defs Let_def ok_simps has_approved_def)

text \<open>An approval is always the signer's own: whenever a transaction turns the approval of
  some address for a proposal on, that address authorized the transaction and is a current
  signer, and the contract is not locked; and no transaction withdraws an approval.\<close>

theorem approvals_are_own:
  assumes "ms_step invk env (st, w) (st', w')"
  shows "(has_approved st' pid a \<longleftrightarrow> has_approved st pid a) \<or>
    has_approved st' pid a \<and> authorized env a \<and> is_signer st a \<and> \<not> is_locked st"
  using approvals_kept [OF assms] by blast

theorem approvals_are_own_witness:
  "has_approved demo_approved 1 2 \<and> \<not> has_approved demo_proposed 1 2 \<and> is_signer demo_proposed 2"
proof -
  have "approve (demo_env 1001 [2]) 2 1 demo_proposed = Ok (3, demo_approved)"
    by (simp add: demo_defs ms_eval)
  then have step: "ms_step (\<lambda>_ _. InvAbort) (demo_env 1001 [2]) (demo_proposed, 0 :: nat) (demo_approved, 0)"
    by (rule ms_step.approve)
  have "has_approved demo_approved 1 2 \<and> \<not> has_approved demo_proposed 1 2"
    by (simp add: demo_defs ms_eval)
  with approvals_are_own [OF step, of 1 2] show ?thesis by blast
qed

text \<open>The threshold of a configured multisig moves only behind a delay: a transaction that
  changes it applies either an open governance change whose proposal is at least
  \<open>MIN_TIMELOCK_DELAY\<close> seconds old and whose grace period has not lapsed, or the pending change of
  \<open>set_threshold\<close> at least \<open>THRESHOLD_CHANGE_DELAY_LEDGERS\<close> ledgers after it was submitted.\<close>

theorem threshold_changes_are_delayed:
  assumes "ms_step invk env (st, w) (st', w')" and "ms_inv st"
    and "ms_threshold st = Some old" and "ms_threshold st' \<noteq> Some old"
  shows "\<exists>new. ms_threshold st' = Some new \<and>
    ((\<exists>cid pc. ms_changes st cid = Some pc \<and> pc_change pc = GcThreshold new \<and>
        \<not> pc_executed pc \<and> \<not> pc_cancelled pc \<and>
        pc_proposed_at pc + MIN_TIMELOCK_DELAY \<le> timestamp env \<and> timestamp env < pc_expires_at pc) \<or>
     (\<exists>p. ms_pending_threshold st = Some p \<and> new_threshold p = new \<and>
        effective_from p + THRESHOLD_CHANGE_DELAY_LEDGERS \<le> sequence env))"
  using assms(1)
proof (cases rule: ms_step.cases)
  case (finalize_threshold c u)
  then show ?thesis using assms(4) by (auto simp: finalize_threshold_def ok_simps)
next
  case (propose c ac d t pid')
  then show ?thesis using assms(3,4) by (auto elim!: proposeE)
next
  case (approve c pid' x)
  then show ?thesis using assms(3,4) by (auto elim!: approveE)
next
  case (execute_threshold_change c cid u)
  from execute_threshold_change(2) obtain pc st1 where pc: "ms_changes st cid = Some pc"
    "\<not> pc_executed pc" "\<not> pc_cancelled pc" "pc_eta pc \<le> timestamp env"
    "timestamp env < pc_expires_at pc" "apply_change (pc_change pc) st = Ok st1"
    "ms_threshold st' = ms_threshold st1"
    by (auto elim!: execute_threshold_changeE)
  have "change_wf pc" using pc(1) assms(2) by (simp add: ms_inv_def)
  then have "pc_proposed_at pc + MIN_TIMELOCK_DELAY \<le> timestamp env"
    using pc(4) by (simp add: change_wf_def)
  moreover obtain new where "pc_change pc = GcThreshold new" "ms_threshold st1 = Some new"
    using pc(6,7) assms(3,4) by (cases "pc_change pc") (auto simp: ok_simps)
  ultimately show ?thesis using pc by (metis (no_types, lifting))
qed (use assms(3,4) in \<open>auto simp: entry_defs Let_def ok_simps\<close>)

definition demo_matured :: ms_state where
  "demo_matured = commit demo_change (execute_threshold_change (demo_env 87400 [3]) 3 1 demo_change)"

theorem threshold_changes_are_delayed_witness:
  "\<exists>cid pc. ms_changes demo_change cid = Some pc \<and> pc_proposed_at pc + MIN_TIMELOCK_DELAY \<le> 87400"
proof -
  have "execute_threshold_change (demo_env 87400 [3]) 3 1 demo_change = Ok ((), demo_matured)"
    by (simp add: demo_matured_def execute_threshold_change_def demo_defs ms_eval gov_eval)
  then have step: "ms_step (\<lambda>_ _. InvAbort) (demo_env 87400 [3]) (demo_change, 0 :: nat) (demo_matured, 0)"
    by (rule ms_step.execute_threshold_change)
  have "ms_inv demo_change"
    by (rule propose_change_inv [OF demo_veto_eval(1)], rule initialize_inv [OF demo_veto_eval(3)])
       (rule ms_inv_empty)
  moreover have "ms_threshold demo_change = Some 3" "ms_threshold demo_matured \<noteq> Some 3"
    "ms_pending_threshold demo_change = None" "timestamp (demo_env 87400 [3]) = 87400"
    by (simp_all add: demo_matured_def execute_threshold_change_def demo_defs ms_eval gov_eval)
  ultimately show ?thesis using threshold_changes_are_delayed [OF step, of 3] by auto
qed

text \<open>C37. The signer set itself is not behind a delay: whatever the threshold, any single
  authorized signer of a set with room in it can admit a fresh address with weight equal to the
  threshold in one transaction, and in the very same ledger second that address alone proposes and
  executes anything not in the quorum action list. The module documentation promises a timelock
  for every such change.\<close>

theorem add_signer_bypasses_timelock:
  assumes "ms_inv st" and "ms_signers st = Some ss" and "ms_threshold st = Some thr"
    and "has_signer ss caller" and "authorized env caller" and "\<not> has_signer ss who"
    and "length ss < MAX_SIGNERS" and "weight_sum ss + thr \<le> u32_max" and "\<not> is_locked st"
    and "ms_proposal_count st = Some n" and "n < u64_max" and "authorized env who"
    and "\<not> is_quorum_or_weight_action action"
  shows "\<exists>st1 st2 st3. add_signer env caller who thr st = Ok ((), st1) \<and>
    propose env who action payload 0 st1 = Ok (n + 1, st2) \<and>
    execute env who (n + 1) st2 = Ok ((), st3)"
proof -
  let ?new = "\<lparr>sw_address = who, sw_weight = thr\<rparr>"
  have thr: "0 < thr" using ms_inv_signers [OF assms(1,2)] assms(3)
    by (auto simp: signers_wf_def limit_defs)
  have fits: "checked_add (int (weight_sum ss)) (int thr) = Ok (int (weight_sum ss + thr))"
    using in_i128_u32 [OF assms(8)] by (simp add: ok_simps)
  define st1 where "st1 = ms_emit (EvSignerAdded who thr) (st\<lparr>ms_signers := Some (ss @ [?new])\<rparr>)"
  have add: "add_signer env caller who thr st = Ok ((), st1)"
    using assms thr fits
    by (simp add: add_signer_def st1_def require_signer_def require_auth_def signers_def
        total_weight_eq narrow_int del: of_nat_add)
  have inv1: "ms_inv st1" using add_signer_inv [OF add assms(1)] .
  have s1: "ms_signers st1 = Some (ss @ [?new])" "ms_threshold st1 = Some thr" "\<not> is_locked st1"
    "ms_proposal_count st1 = Some n" using assms by (simp_all add: st1_def is_locked_def)
  have w: "weight_in (ss @ [?new]) who = Ok thr"
    using assms(6) by (induction ss) (auto simp: weight_in_def has_signer_def)
  from propose_total [OF inv1 s1(1) w assms(12) s1(3,4) assms(11,13)] obtain st2 p where
    st2: "propose env who action payload 0 st1 = Ok (n + 1, st2)" "ms_proposals st2 (n + 1) = Some p"
    "\<not> mp_executed p" "mp_unlock_at p = 0" "has_approved st2 (n + 1) who" by blast
  from propose_config [OF st2(1)] s1 have s2: "ms_signers st2 = Some (ss @ [?new])"
    "ms_threshold st2 = Some thr" "\<not> is_locked st2" by (simp_all add: is_locked_def)
  have sg: "is_signer st2 who" using weight_in_has [OF w] by (simp add: is_signer_eq [OF s2(1)])
  have "thr = get_signer_weight st2 who"
    using w by (simp add: get_signer_weight_eq [OF s2(1)] weight_fn_def)
  also have "\<dots> \<le> (\<Sum>a\<in>approving st2 (n + 1). get_signer_weight st2 a)"
    using sg st2(5) by (intro member_le_sum finite_approving) (simp_all add: approving_def)
  finally have "is_ok (execute env who (n + 1) st2)"
    using execute_Ok_iff [OF propose_inv [OF st2(1) inv1], of env who "n + 1"] s2 sg st2 assms(12)
    by simp
  then show ?thesis using add st2(1) by (auto simp: is_ok_iff)
qed

theorem add_signer_bypasses_timelock_witness:
  "\<exists>st1 st2 st3. add_signer (demo_env 1000 [3, 99]) 3 99 3 demo_init = Ok ((), st1) \<and>
    propose (demo_env 1000 [3, 99]) 99 ''pay'' [] 0 st1 = Ok (1, st2) \<and>
    execute (demo_env 1000 [3, 99]) 99 1 st2 = Ok ((), st3)"
proof -
  have i: "ms_inv demo_init" by (rule initialize_inv [OF demo_veto_eval(3) ms_inv_empty])
  have "ms_signers demo_init = Some demo_signers" "ms_threshold demo_init = Some 3"
    "has_signer demo_signers 3" "authorized (demo_env 1000 [3, 99]) 3" "\<not> has_signer demo_signers 99"
    "length demo_signers < MAX_SIGNERS" "weight_sum demo_signers + 3 \<le> u32_max"
    "\<not> is_locked demo_init" "ms_proposal_count demo_init = Some 0" "0 < u64_max"
    "authorized (demo_env 1000 [3, 99]) 99" "\<not> is_quorum_or_weight_action ''pay''"
    by (simp_all add: demo_defs ms_eval is_locked_def)
  from add_signer_bypasses_timelock [OF i this, of "[]"] show ?thesis by simp
qed

end
