(* ===== verification/Proposal.thy ===== *)
theory Proposal
  imports Multisig_Props
begin

text \<open>
  The proposal contract: the lifecycle vocabulary of \<^verbatim>\<open>interfaces/src/proposal.rs\<close>, the time-lock
  arithmetic of \<^verbatim>\<open>contracts/proposal/src/timelock.rs\<close> and the entrypoints of
  \<^verbatim>\<open>contracts/proposal/src/lib.rs\<close>. Three things are outside the contract and are parameters of its
  entrypoints: the token contracts \<open>tk\<close> with their world \<open>'w\<close>, and the storage of the multisig
  contracts, \<open>msig\<close>, which is read through the interface functions of theory \<open>Multisig\<close>. An
  entrypoint maps the storage and the token world to a result that carries both; the views settle
  a stale proposal and so change the storage too.
\<close>

section \<open>The lifecycle\<close>

datatype proposal_state =
    PsCreated | PsPending | PsApproved | PsExecuted | PsClosed | PsRejected | PsCancelled | PsExpired
  | PsFailed

definition has_executed :: "proposal_state \<Rightarrow> bool" where
  "has_executed s \<longleftrightarrow> s = PsExecuted \<or> s = PsClosed"

definition deposit_settled :: "proposal_state \<Rightarrow> bool" where
  "deposit_settled s \<longleftrightarrow>
     s = PsExpired \<or> s = PsRejected \<or> s = PsCancelled \<or> s = PsExecuted \<or> s = PsClosed"

definition is_live :: "proposal_state \<Rightarrow> bool" where
  "is_live s \<longleftrightarrow> s = PsPending \<or> s = PsApproved"

definition is_terminal :: "proposal_state \<Rightarrow> bool" where
  "is_terminal s \<longleftrightarrow> \<not> is_live s \<and> s \<noteq> PsCreated"

fun may_transition :: "proposal_state \<Rightarrow> proposal_state \<Rightarrow> bool" where
  "may_transition PsCreated PsPending = True"
| "may_transition PsPending PsApproved = True"
| "may_transition PsPending PsRejected = True"
| "may_transition PsPending PsCancelled = True"
| "may_transition PsPending PsExpired = True"
| "may_transition PsApproved PsExecuted = True"
| "may_transition PsApproved PsFailed = True"
| "may_transition PsApproved PsCancelled = True"
| "may_transition PsApproved PsExpired = True"
| "may_transition PsExecuted PsClosed = True"
| "may_transition _ _ = False"

section \<open>The time-lock\<close>

record time_lock_status =
  tls_approved_at :: u64
  tls_delay :: u64
  tls_release_at :: u64
  tls_remaining :: u64
  tls_armed :: bool
  tls_released :: bool

definition blocking :: "time_lock_status \<Rightarrow> bool" where
  "blocking s \<longleftrightarrow> tls_armed s \<and> \<not> tls_released s"

definition is_armed :: "u64 \<Rightarrow> u64 \<Rightarrow> bool" where
  "is_armed approved_at delay \<longleftrightarrow> delay \<noteq> 0 \<and> approved_at \<noteq> 0"

text \<open>\<open>u64::try_from\<close> and \<open>u32::try_from\<close> of an \<open>i128\<close>.\<close>

definition try_u64 :: "i128 \<Rightarrow> u64 res" where
  "try_u64 x = (if 0 \<le> x \<and> x \<le> int u64_max then Ok (nat x) else Err Overflow)"

definition try_u32 :: "i128 \<Rightarrow> u32 res" where
  "try_u32 x = (if 0 \<le> x \<and> x \<le> int u32_max then Ok (nat x) else Err Overflow)"

definition release_at :: "u64 \<Rightarrow> u64 \<Rightarrow> u64 res" where
  "release_at approved_at delay =
     (if \<not> is_armed approved_at delay then Ok 0
      else rbind (checked_add (int approved_at) (int delay)) try_u64)"

definition time_lock_status_of :: "env \<Rightarrow> u64 \<Rightarrow> u64 \<Rightarrow> time_lock_status res" where
  "time_lock_status_of env approved_at delay =
     rbind (release_at approved_at delay) (\<lambda>rel.
     let armed = is_armed approved_at delay;
         now = timestamp env;
         released = (\<not> armed \<or> now \<ge> rel);
         remaining = (if released then 0 else rel - now) in
     Ok \<lparr>tls_approved_at = approved_at, tls_delay = delay, tls_release_at = rel,
         tls_remaining = remaining, tls_armed = armed, tls_released = released\<rparr>)"

definition require_released :: "env \<Rightarrow> u64 \<Rightarrow> u64 \<Rightarrow> unit res" where
  "require_released env approved_at delay =
     rbind (time_lock_status_of env approved_at delay) (\<lambda>status.
     if blocking status then Err TimelockNotExpired else Ok ())"

section \<open>Records and storage\<close>

record proposal =
  pr_proposer :: address
  pr_org :: string
  pr_wallet :: string
  pr_policy :: string
  pr_approvers :: "address list"
  pr_dependencies :: "u64 list"
  pr_threshold :: u32
  pr_approvals :: u32
  pr_approval_weight :: u32
  pr_state :: proposal_state
  pr_created_at :: u64
  pr_approved_at :: u64
  pr_deposit :: "asset_amount list"
  pr_expires_at :: u64
  pr_grace_period :: u64

datatype prop_event =
    PeCreated u64 address
  | PeWeightOk u64 address u32
  | PeApproved u64 address u32
  | PeRejected u64 address
  | PeCancelled u64
  | PeExpired u64
  | PeExecuted u64
  | PeFailed u64
  | PeClosed u64
  | PeDepFail u64 u64
  | PeDepOk u64 "u64 list"
  | PePruned u64
  | PeCleaned u64
  | PePrunedBatch u32
  | PePrunedRange u32

record prop_state =
  ps_count :: "u64 option"
  ps_multisig :: "address option"
  ps_timelock :: "u64 option"
  ps_proposals :: "u64 \<Rightarrow> proposal option"
  ps_approvals :: "u64 \<times> address \<Rightarrow> bool option"
  ps_events :: "prop_event list"

definition prop_empty :: prop_state where
  "prop_empty = \<lparr>ps_count = None, ps_multisig = None, ps_timelock = None,
     ps_proposals = Map.empty, ps_approvals = Map.empty, ps_events = []\<rparr>"

definition prop_emit :: "prop_event \<Rightarrow> prop_state \<Rightarrow> prop_state" where
  "prop_emit e st = st\<lparr>ps_events := ps_events st @ [e]\<rparr>"

type_synonym msig_view = "address \<Rightarrow> ms_state option"

text \<open>The generated \<open>MultisigClient\<close>: a call to an address without a multisig, or one that
  returns an error, traps.\<close>

definition client_is_signer :: "msig_view \<Rightarrow> address \<Rightarrow> address \<Rightarrow> bool res" where
  "client_is_signer msig a who = (case msig a of None \<Rightarrow> Panic | Some m \<Rightarrow> Ok (is_signer m who))"

definition client_weight :: "msig_view \<Rightarrow> address \<Rightarrow> address \<Rightarrow> u32 res" where
  "client_weight msig a who =
     (case msig a of None \<Rightarrow> Panic | Some m \<Rightarrow> Ok (get_signer_weight m who))"

definition client_threshold :: "msig_view \<Rightarrow> address \<Rightarrow> u32 res" where
  "client_threshold msig a =
     (case msig a of None \<Rightarrow> Panic
      | Some m \<Rightarrow> (case get_threshold m of Ok t \<Rightarrow> Ok t | _ \<Rightarrow> Panic))"

section \<open>Record predicates and vote bars\<close>

definition pr_is_expired :: "env \<Rightarrow> proposal \<Rightarrow> bool" where
  "pr_is_expired env p \<longleftrightarrow> pr_expires_at p \<noteq> 0 \<and> timestamp env \<ge> pr_expires_at p"

definition pr_is_active :: "env \<Rightarrow> proposal \<Rightarrow> bool" where
  "pr_is_active env p \<longleftrightarrow>
     \<not> pr_is_expired env p \<and> (pr_state p = PsPending \<or> pr_state p = PsApproved)"

definition prop_timelock_delay :: "prop_state \<Rightarrow> u64" where
  "prop_timelock_delay st = unwrap_or (ps_timelock st) 0"

definition require_timelock_elapsed :: "env \<Rightarrow> prop_state \<Rightarrow> proposal \<Rightarrow> unit res" where
  "require_timelock_elapsed env st p = require_released env (pr_approved_at p) (prop_timelock_delay st)"

definition pr_can_execute :: "env \<Rightarrow> prop_state \<Rightarrow> proposal \<Rightarrow> bool" where
  "pr_can_execute env st p \<longleftrightarrow>
     pr_is_active env p \<and> pr_state p = PsApproved \<and> is_ok (require_timelock_elapsed env st p)"

record vote_bars =
  vb_threshold :: u32
  vb_quorum :: u32
  vb_majority :: u32

definition quorum_required :: "u32 \<Rightarrow> u32 \<Rightarrow> u32" where
  "quorum_required eligible percent =
     (let pc = min percent 100; q = eligible * pc in
      as_u32 (int (q div 100 + (if q mod 100 > 0 then 1 else 0))))"

definition majority_required :: "u32 \<Rightarrow> u32" where
  "majority_required eligible = eligible div 2 + 1"

definition has_majority :: "u32 \<Rightarrow> u32 \<Rightarrow> bool" where
  "has_majority approvals eligible \<longleftrightarrow> approvals \<ge> majority_required eligible"

definition for_proposal :: "proposal \<Rightarrow> vote_bars" where
  "for_proposal p =
     (let eligible = length (pr_approvers p) in
      \<lparr>vb_threshold = pr_threshold p,
       vb_quorum = quorum_required eligible PROPOSAL_QUORUM_PERCENT,
       vb_majority = majority_required eligible\<rparr>)"

definition met_by :: "vote_bars \<Rightarrow> u32 \<Rightarrow> bool" where
  "met_by b approvals \<longleftrightarrow>
     approvals \<ge> vb_threshold b \<and> approvals \<ge> vb_quorum b \<and> approvals \<ge> vb_majority b"

definition bars_ensure_met :: "vote_bars \<Rightarrow> u32 \<Rightarrow> unit res" where
  "bars_ensure_met b approvals = (if met_by b approvals then Ok () else Err ThresholdNotMet)"

definition ensure_vote_valid :: "proposal \<Rightarrow> unit res" where
  "ensure_vote_valid p = bars_ensure_met (for_proposal p) (pr_approvals p)"

section \<open>Internal helpers\<close>

definition prop_load :: "prop_state \<Rightarrow> u64 \<Rightarrow> proposal res" where
  "prop_load st pid = ok_or (ps_proposals st pid) NotFound"

definition prop_store :: "u64 \<Rightarrow> proposal \<Rightarrow> prop_state \<Rightarrow> prop_state" where
  "prop_store pid p st = st\<lparr>ps_proposals := (ps_proposals st)(pid \<mapsto> p)\<rparr>"

definition prop_multisig :: "prop_state \<Rightarrow> address res" where
  "prop_multisig st = ok_or (ps_multisig st) NotInitialized"

definition prop_approved :: "prop_state \<Rightarrow> u64 \<Rightarrow> address \<Rightarrow> bool" where
  "prop_approved st pid who = unwrap_or (ps_approvals st (pid, who)) False"

text \<open>The refund of the deposit: only its first entry was ever taken.\<close>

definition refund ::
  "'w token_api \<Rightarrow> env \<Rightarrow> proposal \<Rightarrow> 'w \<Rightarrow> 'w res" where
  "refund tk env p w =
     (case pr_deposit p of [] \<Rightarrow> Ok w
      | dep # _ \<Rightarrow> token_transfer tk w (asset dep) (this_contract env) (pr_proposer p) (amount dep))"

definition expire_if_due ::
  "'w token_api \<Rightarrow> env \<Rightarrow> u64 \<Rightarrow> proposal \<Rightarrow> prop_state \<times> 'w
     \<Rightarrow> (bool \<times> proposal \<times> prop_state \<times> 'w) res" where
  "expire_if_due tk env pid p = (\<lambda>(st, w).
     if pr_state p = PsExpired then Ok (True, p, st, w)
     else if \<not> (pr_state p = PsPending \<or> pr_state p = PsApproved) \<or> \<not> pr_is_expired env p
     then Ok (False, p, st, w)
     else if \<not> may_transition (pr_state p) PsExpired then Panic
     else let p' = p\<lparr>pr_state := PsExpired\<rparr> in
          rbind (refund tk env p' w) (\<lambda>w'.
          Ok (True, p', prop_emit (PeExpired pid) (prop_store pid p' st), w')))"

fun prop_tally_loop ::
  "msig_view \<Rightarrow> address \<Rightarrow> (address \<Rightarrow> bool) \<Rightarrow> address list \<Rightarrow> u32 \<Rightarrow> i128 \<Rightarrow> (u32 \<times> i128) res" where
  "prop_tally_loop msig ms approved [] n tot = Ok (n, tot)"
| "prop_tally_loop msig ms approved (a # as) n tot =
     rbind (if approved a then client_is_signer msig ms a else Ok False) (\<lambda>counts.
     if counts
     then rbind (checked_add (int n) 1) (\<lambda>n'.
          rbind (client_weight msig ms a) (\<lambda>wt.
          rbind (checked_add tot (int wt)) (\<lambda>tot'.
          prop_tally_loop msig ms approved as (as_u32 n') tot')))
     else prop_tally_loop msig ms approved as n tot)"

definition live_approval_tally ::
  "msig_view \<Rightarrow> u64 \<Rightarrow> proposal \<Rightarrow> prop_state \<Rightarrow> (u32 \<times> u32) res" where
  "live_approval_tally msig pid p st =
     rbind (prop_multisig st) (\<lambda>ms.
     rbind (prop_tally_loop msig ms (prop_approved st pid) (pr_approvers p) 0 0) (\<lambda>(n, tot).
     rbind (try_u32 tot) (\<lambda>wt. Ok (n, wt))))"

text \<open>The dependency check publishes its verdict, so it returns the storage with either outcome.\<close>

fun first_unmet :: "prop_state \<Rightarrow> u64 list \<Rightarrow> (u64 + u64) option" where
  "first_unmet st [] = None"
| "first_unmet st (d # ds) =
     (case ps_proposals st d of
        None \<Rightarrow> Some (Inl d)
      | Some q \<Rightarrow> (if has_executed (pr_state q) then first_unmet st ds else Some (Inr d)))"

definition ensure_dependencies_met ::
  "u64 \<Rightarrow> proposal \<Rightarrow> prop_state \<Rightarrow> unit res \<times> prop_state" where
  "ensure_dependencies_met pid p st =
     (case first_unmet st (pr_dependencies p) of
        Some (Inl _) \<Rightarrow> (Err NotFound, st)
      | Some (Inr d) \<Rightarrow> (Err PrerequisiteNotMet, prop_emit (PeDepFail pid d) st)
      | None \<Rightarrow> (Ok (), prop_emit (PeDepOk pid (pr_dependencies p)) st))"

definition purge_proposal :: "u64 \<Rightarrow> proposal \<Rightarrow> prop_state \<Rightarrow> prop_state" where
  "purge_proposal pid p st =
     prop_emit (PeCleaned pid) (prop_emit (PePruned pid)
       (st\<lparr>ps_proposals := (ps_proposals st)(pid := None),
           ps_approvals := (\<lambda>k. if fst k = pid \<and> snd k \<in> set (pr_approvers p) then None
                                 else ps_approvals st k)\<rparr>))"

section \<open>Entrypoints\<close>

definition prop_initialize ::
  "msig_view \<Rightarrow> u64 \<Rightarrow> address \<Rightarrow> prop_state \<times> 'w \<Rightarrow> (unit \<times> prop_state \<times> 'w) res" where
  "prop_initialize msig timelock multisig = (\<lambda>(st, w).
     if ps_count st \<noteq> None then Err AlreadyInitialized
     else rbind (client_threshold msig multisig) (\<lambda>_.
          Ok ((), st\<lparr>ps_count := Some 0, ps_timelock := Some timelock,
                     ps_multisig := Some multisig\<rparr>, w)))"

text \<open>The loop over the allow-list: distinct signers, their weights summed.\<close>

fun eligible_loop ::
  "msig_view \<Rightarrow> address \<Rightarrow> address list \<Rightarrow> address list \<Rightarrow> i128 \<Rightarrow> i128 res" where
  "eligible_loop msig ms seen [] tot = Ok tot"
| "eligible_loop msig ms seen (a # as) tot =
     (if a \<in> set seen then Err AlreadyExists
      else rbind (client_is_signer msig ms a) (\<lambda>b.
           if \<not> b then Err NotASigner
           else rbind (client_weight msig ms a) (\<lambda>wt.
                rbind (checked_add tot (int wt)) (\<lambda>tot'.
                eligible_loop msig ms (seen @ [a]) as tot'))))"

text \<open>The loop over the prerequisites: strictly smaller, existing, duplicates collapsed.\<close>

fun deps_loop :: "prop_state \<Rightarrow> u64 \<Rightarrow> u64 list \<Rightarrow> u64 list \<Rightarrow> u64 list res" where
  "deps_loop st pid deps [] = Ok deps"
| "deps_loop st pid deps (d # ds) =
     (if d \<ge> pid then Err CircularDependencyDetected
      else if ps_proposals st d = None then Err NotFound
      else deps_loop st pid (if d \<in> set deps then deps else deps @ [d]) ds)"

definition take_deposit ::
  "'w token_api \<Rightarrow> env \<Rightarrow> address \<Rightarrow> asset_amount list \<Rightarrow> 'w \<Rightarrow> 'w res" where
  "take_deposit tk env proposer deposit w =
     (case deposit of [] \<Rightarrow> Ok w
      | dep # _ \<Rightarrow>
          if amount dep \<le> 0 then Err InvalidAmount
          else token_transfer tk w (asset dep) proposer (this_contract env) (amount dep))"

record create_args =
  ca_org :: string
  ca_wallet :: string
  ca_policy :: string
  ca_approvers :: "address list"
  ca_dependencies :: "u64 list"
  ca_threshold :: u32
  ca_deposit :: "asset_amount list"
  ca_expires_at :: u64
  ca_grace_period :: u64

definition prop_create ::
  "'w token_api \<Rightarrow> msig_view \<Rightarrow> env \<Rightarrow> address \<Rightarrow> create_args \<Rightarrow> prop_state \<times> 'w
     \<Rightarrow> (u64 \<times> prop_state \<times> 'w) res" where
  "prop_create tk msig env proposer ca = (\<lambda>(st, w).
     rbind (require_auth env proposer) (\<lambda>_.
     rbind (require_non_empty (ca_org ca)) (\<lambda>_.
     let n = length (ca_approvers ca) in
     if n = 0 \<or> n > MAX_APPROVERS then Err InvalidInput
     else rbind (prop_multisig st) (\<lambda>ms.
          rbind (eligible_loop msig ms [] (ca_approvers ca) 0) (\<lambda>eligible_weight.
          rbind (client_threshold msig ms) (\<lambda>thr.
          if eligible_weight < int thr then Err InvalidThreshold
          else if ca_threshold ca = 0 \<or> ca_threshold ca > n then Err InvalidThreshold
          else rbind (take_deposit tk env proposer (ca_deposit ca) w) (\<lambda>w'.
               if ca_expires_at ca \<noteq> 0 \<and> ca_expires_at ca \<le> timestamp env then Err InvalidInput
               else if length (ca_dependencies ca) > MAX_DEPENDENCIES then Err InvalidInput
               else rbind (ok_or (ps_count st) NotInitialized) (\<lambda>count.
                    rbind (checked_add (int count) 1) (\<lambda>c.
                    let pid = as_u64 c in
                    rbind (deps_loop st pid [] (ca_dependencies ca)) (\<lambda>deps.
                    let p = \<lparr>pr_proposer = proposer, pr_org = ca_org ca, pr_wallet = ca_wallet ca,
                             pr_policy = ca_policy ca, pr_approvers = ca_approvers ca,
                             pr_dependencies = deps, pr_threshold = ca_threshold ca,
                             pr_approvals = 0, pr_approval_weight = 0, pr_state = PsPending,
                             pr_created_at = timestamp env, pr_approved_at = 0,
                             pr_deposit = ca_deposit ca, pr_expires_at = ca_expires_at ca,
                             pr_grace_period = ca_grace_period ca\<rparr> in
                    Ok (pid, prop_emit (PeCreated pid proposer)
                               ((prop_store pid p st)\<lparr>ps_count := Some pid\<rparr>), w')))))))))))"

definition prop_approve ::
  "'w token_api \<Rightarrow> msig_view \<Rightarrow> env \<Rightarrow> address \<Rightarrow> u64 \<Rightarrow> prop_state \<times> 'w
     \<Rightarrow> (u32 \<times> prop_state \<times> 'w) res" where
  "prop_approve tk msig env caller pid = (\<lambda>(st0, w0).
     rbind (require_auth env caller) (\<lambda>_.
     rbind (prop_load st0 pid) (\<lambda>p0.
     rbind (expire_if_due tk env pid p0 (st0, w0)) (\<lambda>(due, p, st, w).
     if due then Ok (pr_approvals p, st, w)
     else if \<not> (pr_state p = PsPending \<or> pr_state p = PsApproved) then Err InvalidProposalState
     else if caller \<notin> set (pr_approvers p) then Err NotAnApprover
     else rbind (prop_multisig st) (\<lambda>ms.
          rbind (client_is_signer msig ms caller) (\<lambda>sg.
          if \<not> sg then Err NotASigner
          else if prop_approved st pid caller then Err AlreadySigned
          else rbind (client_threshold msig ms) (\<lambda>multisig_threshold.
               rbind (if pr_state p = PsApproved
                      then rbind (live_approval_tally msig pid p st) (\<lambda>t. Ok (snd t))
                      else Ok 0) (\<lambda>previous_weight.
               if pr_state p = PsApproved \<and> previous_weight \<ge> multisig_threshold
               then Err InvalidProposalState
               else let st1 = st\<lparr>ps_approvals := (ps_approvals st)((pid, caller) \<mapsto> True)\<rparr> in
                    rbind (live_approval_tally msig pid p st1) (\<lambda>(napp, wapp).
                    let p1 = p\<lparr>pr_approvals := napp, pr_approval_weight := wapp\<rparr>;
                        crossed = (previous_weight < multisig_threshold \<and> wapp \<ge> multisig_threshold) in
                    rbind (if pr_state p1 = PsPending \<and> pr_approvals p1 \<ge> pr_threshold p1
                           then if \<not> may_transition (pr_state p1) PsApproved then Panic
                                else Ok (p1\<lparr>pr_state := PsApproved, pr_approved_at := timestamp env\<rparr>)
                           else if pr_state p1 = PsApproved \<and> crossed
                           then Ok (p1\<lparr>pr_approved_at := timestamp env\<rparr>)
                           else Ok p1) (\<lambda>p2.
                    let st2 = prop_store pid p2 st1;
                        st3 = (if crossed then prop_emit (PeWeightOk pid caller wapp) st2 else st2) in
                    Ok (pr_approvals p2,
                        prop_emit (PeApproved pid caller (pr_approvals p2)) st3, w)))))))))))"

definition prop_reject ::
  "'w token_api \<Rightarrow> env \<Rightarrow> address \<Rightarrow> u64 \<Rightarrow> prop_state \<times> 'w \<Rightarrow> (unit \<times> prop_state \<times> 'w) res" where
  "prop_reject tk env caller pid = (\<lambda>(st0, w0).
     rbind (require_auth env caller) (\<lambda>_.
     rbind (prop_load st0 pid) (\<lambda>p0.
     rbind (expire_if_due tk env pid p0 (st0, w0)) (\<lambda>(due, p, st, w).
     if due then Ok ((), st, w)
     else if pr_state p \<noteq> PsPending then Err InvalidProposalState
     else if caller \<notin> set (pr_approvers p) then Err NotAnApprover
     else if \<not> may_transition (pr_state p) PsRejected then Panic
     else let p' = p\<lparr>pr_state := PsRejected\<rparr> in
          rbind (refund tk env p' w) (\<lambda>w'.
          Ok ((), prop_emit (PeRejected pid caller) (prop_store pid p' st), w'))))))"

definition prop_cancel ::
  "'w token_api \<Rightarrow> env \<Rightarrow> address \<Rightarrow> u64 \<Rightarrow> prop_state \<times> 'w \<Rightarrow> (unit \<times> prop_state \<times> 'w) res" where
  "prop_cancel tk env caller pid = (\<lambda>(st0, w0).
     rbind (require_auth env caller) (\<lambda>_.
     rbind (prop_load st0 pid) (\<lambda>p0.
     rbind (expire_if_due tk env pid p0 (st0, w0)) (\<lambda>(due, p, st, w).
     if due then Ok ((), st, w)
     else if caller \<noteq> pr_proposer p then Err Unauthorized
     else if \<not> may_transition (pr_state p) PsCancelled then Err InvalidProposalState
     else if pr_grace_period p \<noteq> 0 \<and>
             timestamp env > sat_add_u64 (pr_created_at p) (pr_grace_period p)
     then Err CancellationWindowClosed
     else let p' = p\<lparr>pr_state := PsCancelled\<rparr> in
          rbind (refund tk env p' w) (\<lambda>w'.
          Ok ((), prop_emit (PeCancelled pid) (prop_store pid p' st), w'))))))"

definition prop_expire ::
  "'w token_api \<Rightarrow> env \<Rightarrow> u64 \<Rightarrow> prop_state \<times> 'w \<Rightarrow> (unit \<times> prop_state \<times> 'w) res" where
  "prop_expire tk env pid = (\<lambda>(st0, w0).
     rbind (prop_load st0 pid) (\<lambda>p0.
     rbind (expire_if_due tk env pid p0 (st0, w0)) (\<lambda>(due, p, st, w).
     if \<not> due then Err InvalidProposalState else Ok ((), st, w))))"

definition prune_expired ::
  "'w token_api \<Rightarrow> env \<Rightarrow> u64 \<Rightarrow> prop_state \<times> 'w \<Rightarrow> (unit \<times> prop_state \<times> 'w) res" where
  "prune_expired tk env pid = (\<lambda>(st0, w0).
     rbind (prop_load st0 pid) (\<lambda>p0.
     rbind (expire_if_due tk env pid p0 (st0, w0)) (\<lambda>(_, p, st, w).
     if \<not> pr_is_expired env p then Err InvalidProposalState
     else if \<not> deposit_settled (pr_state p) then Err InvalidProposalState
     else Ok ((), purge_proposal pid p st, w))))"

definition cleanup_expired ::
  "'w token_api \<Rightarrow> env \<Rightarrow> u64 \<Rightarrow> prop_state \<times> 'w \<Rightarrow> (unit \<times> prop_state \<times> 'w) res" where
  "cleanup_expired tk env pid = prune_expired tk env pid"

text \<open>The body of both pruning loops: missing and ineligible proposals are skipped, a trap of the
  token aborts the transaction (\<open>expire_if_due\<close> has no error of its own to discard).\<close>

fun prune_loop ::
  "'w token_api \<Rightarrow> env \<Rightarrow> u64 list \<Rightarrow> u32 \<Rightarrow> prop_state \<times> 'w \<Rightarrow> (u32 \<times> prop_state \<times> 'w) res" where
  "prune_loop tk env [] pruned (st, w) = Ok (pruned, st, w)"
| "prune_loop tk env (pid # ids) pruned (st, w) =
     (case ps_proposals st pid of
        None \<Rightarrow> prune_loop tk env ids pruned (st, w)
      | Some p0 \<Rightarrow>
          rbind (expire_if_due tk env pid p0 (st, w)) (\<lambda>(_, p, st1, w1).
          if pr_is_expired env p \<and> deposit_settled (pr_state p)
          then prune_loop tk env ids (pruned + 1) (purge_proposal pid p st1, w1)
          else prune_loop tk env ids pruned (st1, w1)))"

definition prune_expired_batch ::
  "'w token_api \<Rightarrow> env \<Rightarrow> u64 list \<Rightarrow> prop_state \<times> 'w \<Rightarrow> (u32 \<times> prop_state \<times> 'w) res" where
  "prune_expired_batch tk env proposal_ids s =
     (if length proposal_ids > MAX_PRUNE_BATCH then Err InvalidInput
      else rbind (prune_loop tk env proposal_ids 0 s) (\<lambda>(pruned, st, w).
           Ok (pruned, if pruned > 0 then prop_emit (PePrunedBatch pruned) st else st, w)))"

definition prune_expired_range ::
  "'w token_api \<Rightarrow> env \<Rightarrow> u64 \<Rightarrow> u32 \<Rightarrow> prop_state \<times> 'w \<Rightarrow> (u32 \<times> prop_state \<times> 'w) res" where
  "prune_expired_range tk env start_id limit s =
     (if limit = 0 \<or> limit > MAX_PRUNE_BATCH then Err InvalidInput
      else rbind (checked_add (int start_id) (int limit)) (\<lambda>e.
           rbind (try_u64 e) (\<lambda>end_id.
           rbind (prune_loop tk env [start_id..<end_id] 0 s) (\<lambda>(pruned, st, w).
           Ok (pruned, if pruned > 0 then prop_emit (PePrunedRange pruned) st else st, w)))))"

definition prop_execute ::
  "'w token_api \<Rightarrow> msig_view \<Rightarrow> env \<Rightarrow> address \<Rightarrow> u64 \<Rightarrow> prop_state \<times> 'w
     \<Rightarrow> (unit \<times> prop_state \<times> 'w) res" where
  "prop_execute tk msig env caller pid = (\<lambda>(st0, w0).
     rbind (require_auth env caller) (\<lambda>_.
     rbind (prop_load st0 pid) (\<lambda>p0.
     if pr_is_expired env p0 then Err ProposalExpired
     else rbind (expire_if_due tk env pid p0 (st0, w0)) (\<lambda>(due, p, st, w).
     if due then Ok ((), st, w)
     else if caller \<noteq> pr_proposer p then Err Unauthorized
     else if pr_state p \<noteq> PsApproved then Err ProposalNotApproved
     else rbind (live_approval_tally msig pid p st) (\<lambda>(napp, wapp).
          let p1 = p\<lparr>pr_approvals := napp, pr_approval_weight := wapp\<rparr> in
          rbind (ensure_vote_valid p1) (\<lambda>_.
          rbind (prop_multisig st) (\<lambda>ms.
          rbind (client_threshold msig ms) (\<lambda>multisig_threshold.
          if wapp < multisig_threshold then Err ThresholdNotMet
          else rbind (require_timelock_elapsed env st p1) (\<lambda>_.
               case ensure_dependencies_met pid p1 st of (r, st1) \<Rightarrow>
               rbind r (\<lambda>_.
               if \<not> may_transition (pr_state p1) PsExecuted then Panic
               else let p2 = p1\<lparr>pr_state := PsExecuted\<rparr> in
                    rbind (refund tk env p2 w) (\<lambda>w'.
                    Ok ((), prop_emit (PeExecuted pid) (prop_store pid p2 st1), w'))))))))))))"

definition prop_fail ::
  "'w token_api \<Rightarrow> env \<Rightarrow> address \<Rightarrow> u64 \<Rightarrow> prop_state \<times> 'w \<Rightarrow> (unit \<times> prop_state \<times> 'w) res" where
  "prop_fail tk env caller pid = (\<lambda>(st0, w0).
     rbind (require_auth env caller) (\<lambda>_.
     rbind (prop_load st0 pid) (\<lambda>p0.
     rbind (expire_if_due tk env pid p0 (st0, w0)) (\<lambda>(due, p, st, w).
     if due then Ok ((), st, w)
     else if caller \<noteq> pr_proposer p then Err Unauthorized
     else if pr_state p \<noteq> PsApproved then Err ProposalNotApproved
     else if \<not> may_transition (pr_state p) PsFailed then Panic
     else Ok ((), prop_emit (PeFailed pid) (prop_store pid (p\<lparr>pr_state := PsFailed\<rparr>) st), w)))))"

definition prop_close ::
  "'w token_api \<Rightarrow> env \<Rightarrow> address \<Rightarrow> u64 \<Rightarrow> prop_state \<times> 'w \<Rightarrow> (unit \<times> prop_state \<times> 'w) res" where
  "prop_close tk env caller pid = (\<lambda>(st0, w0).
     rbind (require_auth env caller) (\<lambda>_.
     rbind (prop_load st0 pid) (\<lambda>p0.
     rbind (expire_if_due tk env pid p0 (st0, w0)) (\<lambda>(due, p, st, w).
     if due then Ok ((), st, w)
     else if caller \<noteq> pr_proposer p then Err Unauthorized
     else if pr_state p \<noteq> PsExecuted then Err InvalidProposalState
     else if \<not> may_transition (pr_state p) PsClosed then Panic
     else Ok ((), prop_emit (PeClosed pid) (prop_store pid (p\<lparr>pr_state := PsClosed\<rparr>) st), w)))))"

section \<open>Views\<close>

text \<open>Every view of the status surface settles a stale proposal first.\<close>

definition settled ::
  "'w token_api \<Rightarrow> env \<Rightarrow> u64 \<Rightarrow> prop_state \<times> 'w \<Rightarrow> (proposal \<times> prop_state \<times> 'w) res" where
  "settled tk env pid = (\<lambda>(st0, w0).
     rbind (prop_load st0 pid) (\<lambda>p0.
     rbind (expire_if_due tk env pid p0 (st0, w0)) (\<lambda>(_, p, st, w). Ok (p, st, w))))"

definition prop_get ::
  "'w token_api \<Rightarrow> msig_view \<Rightarrow> env \<Rightarrow> u64 \<Rightarrow> prop_state \<times> 'w \<Rightarrow> (proposal \<times> prop_state \<times> 'w) res" where
  "prop_get tk msig env pid s =
     rbind (settled tk env pid s) (\<lambda>(p, st, w).
     rbind (live_approval_tally msig pid p st) (\<lambda>(napp, wapp).
     Ok (p\<lparr>pr_approvals := napp, pr_approval_weight := wapp\<rparr>, st, w)))"

definition vote_bars_view ::
  "'w token_api \<Rightarrow> env \<Rightarrow> u64 \<Rightarrow> prop_state \<times> 'w \<Rightarrow> (vote_bars \<times> prop_state \<times> 'w) res" where
  "vote_bars_view tk env pid s = rbind (settled tk env pid s) (\<lambda>(p, st, w). Ok (for_proposal p, st, w))"

definition timelock_view :: "prop_state \<Rightarrow> u64" where
  "timelock_view st = prop_timelock_delay st"

definition release_at_view :: "u64 \<Rightarrow> prop_state \<Rightarrow> u64 res" where
  "release_at_view pid st =
     rbind (prop_load st pid) (\<lambda>p. release_at (pr_approved_at p) (prop_timelock_delay st))"

definition timelock_status_view :: "env \<Rightarrow> u64 \<Rightarrow> prop_state \<Rightarrow> time_lock_status res" where
  "timelock_status_view env pid st =
     rbind (prop_load st pid) (\<lambda>p.
     time_lock_status_of env (pr_approved_at p) (prop_timelock_delay st))"

definition state_view ::
  "'w token_api \<Rightarrow> env \<Rightarrow> u64 \<Rightarrow> prop_state \<times> 'w \<Rightarrow> (proposal_state \<times> prop_state \<times> 'w) res" where
  "state_view tk env pid s = rbind (settled tk env pid s) (\<lambda>(p, st, w). Ok (pr_state p, st, w))"

definition is_expired_view ::
  "'w token_api \<Rightarrow> env \<Rightarrow> u64 \<Rightarrow> prop_state \<times> 'w \<Rightarrow> (bool \<times> prop_state \<times> 'w) res" where
  "is_expired_view tk env pid s =
     rbind (settled tk env pid s) (\<lambda>(p, st, w).
     Ok (pr_state p = PsExpired \<or> pr_is_expired env p, st, w))"

definition is_executed_view ::
  "'w token_api \<Rightarrow> env \<Rightarrow> u64 \<Rightarrow> prop_state \<times> 'w \<Rightarrow> (bool \<times> prop_state \<times> 'w) res" where
  "is_executed_view tk env pid s =
     rbind (settled tk env pid s) (\<lambda>(p, st, w). Ok (has_executed (pr_state p), st, w))"

definition dependencies_view ::
  "'w token_api \<Rightarrow> env \<Rightarrow> u64 \<Rightarrow> prop_state \<times> 'w \<Rightarrow> (u64 list \<times> prop_state \<times> 'w) res" where
  "dependencies_view tk env pid s =
     rbind (settled tk env pid s) (\<lambda>(p, st, w). Ok (pr_dependencies p, st, w))"

definition dependencies_met_view ::
  "'w token_api \<Rightarrow> env \<Rightarrow> u64 \<Rightarrow> prop_state \<times> 'w \<Rightarrow> (bool \<times> prop_state \<times> 'w) res" where
  "dependencies_met_view tk env pid s =
     rbind (settled tk env pid s) (\<lambda>(p, st, w).
     case ensure_dependencies_met pid p st of (r, st1) \<Rightarrow> Ok (is_ok r, st1, w))"

definition can_execute_view ::
  "'w token_api \<Rightarrow> msig_view \<Rightarrow> env \<Rightarrow> u64 \<Rightarrow> prop_state \<times> 'w \<Rightarrow> (bool \<times> prop_state \<times> 'w) res" where
  "can_execute_view tk msig env pid s =
     rbind (settled tk env pid s) (\<lambda>(p, st, w).
     if \<not> pr_can_execute env st p then Ok (False, st, w)
     else rbind (live_approval_tally msig pid p st) (\<lambda>(napp, wapp).
          let p1 = p\<lparr>pr_approvals := napp, pr_approval_weight := wapp\<rparr> in
          if \<not> is_ok (ensure_vote_valid p1) then Ok (False, st, w)
          else rbind (prop_multisig st) (\<lambda>ms.
               rbind (client_threshold msig ms) (\<lambda>thr.
               if wapp < thr then Ok (False, st, w)
               else case ensure_dependencies_met pid p1 st of (r, st1) \<Rightarrow> Ok (is_ok r, st1, w)))))"

end
