(* ===== verification/Proposal_Props.thy ===== *)
theory Proposal_Props
  imports Proposal
begin

text \<open>
  The correctness of the proposal contract. An abstract lifecycle (\<open>lc_move\<close>: one proposal is
  created, updated along the canonical state machine with its deposit moved accordingly, or purged)
  is the specification; every entrypoint refines it (\<open>prop_step_refines\<close>), and the invariant, the
  custody of deposits and the finality of states are proved on the abstract moves. The quorum
  and time-lock gates of \<open>execute\<close> and their agreement with the \<open>can_execute\<close> view are proved on the
  entrypoints themselves.
\<close>

section \<open>Reading the helpers\<close>

lemma prop_emit_sel [simp]:
  "ps_count (prop_emit e st) = ps_count st" "ps_multisig (prop_emit e st) = ps_multisig st"
  "ps_timelock (prop_emit e st) = ps_timelock st" "ps_proposals (prop_emit e st) = ps_proposals st"
  "ps_approvals (prop_emit e st) = ps_approvals st"
  by (simp_all add: prop_emit_def)

lemma prop_emit_if_sel [simp]:
  "ps_count (if b then prop_emit e st else st) = ps_count st"
  "ps_proposals (if b then prop_emit e st else st) = ps_proposals st"
  by simp_all

lemma prop_store_sel [simp]:
  "ps_count (prop_store i p st) = ps_count st" "ps_multisig (prop_store i p st) = ps_multisig st"
  "ps_timelock (prop_store i p st) = ps_timelock st"
  "ps_proposals (prop_store i p st) = (ps_proposals st)(i \<mapsto> p)"
  "ps_approvals (prop_store i p st) = ps_approvals st"
  by (simp_all add: prop_store_def)

lemma purge_proposal_sel [simp]:
  "ps_count (purge_proposal i p st) = ps_count st"
  "ps_proposals (purge_proposal i p st) = (ps_proposals st)(i := None)"
  by (simp_all add: purge_proposal_def)

lemma prop_guards_Ok [ok_simps]:
  "prop_load st pid = Ok p \<longleftrightarrow> ps_proposals st pid = Some p"
  "prop_multisig st = Ok a \<longleftrightarrow> ps_multisig st = Some a"
  "client_is_signer msig a who = Ok b \<longleftrightarrow> (\<exists>m. msig a = Some m \<and> b = is_signer m who)"
  "client_weight msig a who = Ok wt \<longleftrightarrow> (\<exists>m. msig a = Some m \<and> wt = get_signer_weight m who)"
  "client_threshold msig a = Ok t \<longleftrightarrow> (\<exists>m. msig a = Some m \<and> ms_threshold m = Some t)"
  "ensure_vote_valid p = Ok u \<longleftrightarrow> met_by (for_proposal p) (pr_approvals p)"
  "try_u32 x = Ok n \<longleftrightarrow> 0 \<le> x \<and> x \<le> int u32_max \<and> n = nat x"
  "try_u64 x = Ok n \<longleftrightarrow> 0 \<le> x \<and> x \<le> int u64_max \<and> n = nat x"
proof -
  show "client_threshold msig a = Ok t \<longleftrightarrow> (\<exists>m. msig a = Some m \<and> ms_threshold m = Some t)"
    by (cases "msig a") (auto simp: client_threshold_def get_threshold_def threshold_def ok_or_def
        split: result.splits option.splits)
qed (auto simp: prop_load_def prop_multisig_def client_is_signer_def client_weight_def
      ensure_vote_valid_def bars_ensure_met_def try_u32_def try_u64_def ok_simps
      split: option.splits)

text \<open>The moves of the settlement of a stale proposal.\<close>

lemma expire_if_dueE:
  assumes "expire_if_due tk env pid p (st, w) = Ok (due, p', st', w')"
  obtains (expired) "due" "is_live (pr_state p)" "pr_is_expired env p" "p' = p\<lparr>pr_state := PsExpired\<rparr>"
      "refund tk env p' w = Ok w'" "st' = prop_emit (PeExpired pid) (prop_store pid p' st)"
    | (same) "p' = p" "st' = st" "w' = w" "due \<longleftrightarrow> pr_state p = PsExpired"
      "\<not> (is_live (pr_state p) \<and> pr_is_expired env p)"
proof (cases "is_live (pr_state p) \<and> pr_is_expired env p")
  case True
  then have "rbind (refund tk env (p\<lparr>pr_state := PsExpired\<rparr>) w) (\<lambda>w'. Ok (True, p\<lparr>pr_state := PsExpired\<rparr>,
      prop_emit (PeExpired pid) (prop_store pid (p\<lparr>pr_state := PsExpired\<rparr>) st), w'))
      = Ok (due, p', st', w')"
    using assms by (auto simp: expire_if_due_def is_live_def Let_def)
  then show ?thesis using True by (intro expired) (auto simp: ok_simps)
next
  case False
  then have "p' = p \<and> st' = st \<and> w' = w \<and> due = (pr_state p = PsExpired)"
    using assms by (auto simp: expire_if_due_def is_live_def split: if_splits)
  then show ?thesis using False by (intro same) auto
qed

lemma refund_state [simp]: "refund tk env (p\<lparr>pr_state := s\<rparr>) w = refund tk env p w"
  by (cases "pr_deposit p") (simp_all add: refund_def)

lemma refund_tally [simp]:
  "refund tk env (p\<lparr>pr_approvals := n, pr_approval_weight := x\<rparr>) w = refund tk env p w"
  "refund tk env (p\<lparr>pr_approvals := n, pr_approval_weight := x, pr_state := s\<rparr>) w = refund tk env p w"
  by (cases "pr_deposit p"; simp add: refund_def)+

section \<open>The abstract lifecycle\<close>

definition same_terms :: "proposal \<Rightarrow> proposal \<Rightarrow> bool" where
  "same_terms p q \<longleftrightarrow>
     pr_proposer q = pr_proposer p \<and> pr_org q = pr_org p \<and> pr_wallet q = pr_wallet p \<and>
     pr_policy q = pr_policy p \<and> pr_approvers q = pr_approvers p \<and>
     pr_dependencies q = pr_dependencies p \<and> pr_threshold q = pr_threshold p \<and>
     pr_created_at q = pr_created_at p \<and> pr_deposit q = pr_deposit p \<and>
     pr_expires_at q = pr_expires_at p \<and> pr_grace_period q = pr_grace_period p"

definition new_proposal_ok :: "env \<Rightarrow> u64 \<Rightarrow> proposal \<Rightarrow> bool" where
  "new_proposal_ok env pid p \<longleftrightarrow>
     authorized env (pr_proposer p) \<and> pr_state p = PsPending \<and> list_all (\<lambda>d. d < pid) (pr_dependencies p) \<and>
     distinct (pr_approvers p) \<and> length (pr_approvers p) \<le> MAX_APPROVERS \<and>
     0 < pr_threshold p \<and> pr_threshold p \<le> length (pr_approvers p)"

inductive lc_move :: "'w token_api \<Rightarrow> env \<Rightarrow> prop_state \<times> 'w \<Rightarrow> prop_state \<times> 'w \<Rightarrow> bool"
  for tk :: "'w token_api" and env :: env where
  quiet: "ps_proposals st' = ps_proposals st \<Longrightarrow> ps_count st' = ps_count st \<Longrightarrow>
    lc_move tk env (st, w) (st', w)"
| init: "ps_proposals st' = ps_proposals st \<Longrightarrow> ps_count st = None \<Longrightarrow> ps_count st' = Some 0 \<Longrightarrow>
    lc_move tk env (st, w) (st', w)"
| create: "ps_count st = Some n \<Longrightarrow> pid = as_u64 (int n + 1) \<Longrightarrow> new_proposal_ok env pid p \<Longrightarrow>
    take_deposit tk env (pr_proposer p) (pr_deposit p) w = Ok w' \<Longrightarrow>
    ps_proposals st' = (ps_proposals st)(pid \<mapsto> p) \<Longrightarrow> ps_count st' = Some pid \<Longrightarrow>
    lc_move tk env (st, w) (st', w')"
| keep: "ps_proposals st pid = Some p \<Longrightarrow> same_terms p p' \<Longrightarrow>
    pr_state p' = pr_state p \<or> may_transition (pr_state p) (pr_state p') \<Longrightarrow>
    deposit_settled (pr_state p') = deposit_settled (pr_state p) \<Longrightarrow>
    ps_proposals st' = (ps_proposals st)(pid \<mapsto> p') \<Longrightarrow> ps_count st' = ps_count st \<Longrightarrow>
    lc_move tk env (st, w) (st', w)"
| settle: "ps_proposals st pid = Some p \<Longrightarrow> same_terms p p' \<Longrightarrow>
    may_transition (pr_state p) (pr_state p') \<Longrightarrow> \<not> deposit_settled (pr_state p) \<Longrightarrow>
    deposit_settled (pr_state p') \<Longrightarrow> refund tk env p w = Ok w' \<Longrightarrow>
    ps_proposals st' = (ps_proposals st)(pid \<mapsto> p') \<Longrightarrow> ps_count st' = ps_count st \<Longrightarrow>
    lc_move tk env (st, w) (st', w')"
| purge: "ps_proposals st pid = Some p \<Longrightarrow> deposit_settled (pr_state p) \<Longrightarrow> pr_is_expired env p \<Longrightarrow>
    ps_proposals st' = (ps_proposals st)(pid := None) \<Longrightarrow> ps_count st' = ps_count st \<Longrightarrow>
    lc_move tk env (st, w) (st', w)"

text \<open>The moves of a pruning run: only the deadline settles a proposal there.\<close>

inductive lc_prune :: "'w token_api \<Rightarrow> env \<Rightarrow> prop_state \<times> 'w \<Rightarrow> prop_state \<times> 'w \<Rightarrow> bool"
  for tk :: "'w token_api" and env :: env where
  silent: "ps_proposals st' = ps_proposals st \<Longrightarrow> ps_count st' = ps_count st \<Longrightarrow>
    lc_prune tk env (st, w) (st', w)"
| expire: "ps_proposals st pid = Some p \<Longrightarrow> is_live (pr_state p) \<Longrightarrow> refund tk env p w = Ok w' \<Longrightarrow>
    ps_proposals st' = (ps_proposals st)(pid \<mapsto> p\<lparr>pr_state := PsExpired\<rparr>) \<Longrightarrow>
    ps_count st' = ps_count st \<Longrightarrow> lc_prune tk env (st, w) (st', w')"
| drop: "ps_proposals st pid = Some p \<Longrightarrow> deposit_settled (pr_state p) \<Longrightarrow> pr_is_expired env p \<Longrightarrow>
    ps_proposals st' = (ps_proposals st)(pid := None) \<Longrightarrow> ps_count st' = ps_count st \<Longrightarrow>
    lc_prune tk env (st, w) (st', w)"

lemma lc_prune_move: "lc_prune tk env s t \<Longrightarrow> lc_move tk env s t"
proof (induction rule: lc_prune.induct)
  case (expire st pid p w w' st')
  then show ?case
    by (intro lc_move.settle [of st pid p "p\<lparr>pr_state := PsExpired\<rparr>"])
       (auto simp: same_terms_def is_live_def deposit_settled_def)
qed (auto intro: lc_move.quiet lc_move.purge)

section \<open>The entrypoints refine the lifecycle\<close>

lemma settle_prune:
  assumes "expire_if_due tk env pid p (st, w) = Ok (due, p', st', w')" and "ps_proposals st pid = Some p"
    and "ps_proposals st2 = ps_proposals st'" and "ps_count st2 = ps_count st'"
  shows "lc_prune tk env (st, w) (st2, w')" and "ps_proposals st' pid = Some p'"
  using assms by (auto elim!: expire_if_dueE intro: lc_prune.intros)

lemma settle_not_due:
  assumes "expire_if_due tk env pid p (st, w) = Ok (False, p', st', w')"
  shows "p' = p" "st' = st" "w' = w"
  using assms by (auto elim!: expire_if_dueE)

lemma settled_prune:
  assumes "settled tk env pid (st, w) = Ok (p, st', w')"
    and "ps_proposals st2 = ps_proposals st'" and "ps_count st2 = ps_count st'"
  shows "lc_prune tk env (st, w) (st2, w')"
  using assms by (auto simp: settled_def ok_simps intro: settle_prune)

lemma ensure_dependencies_met_sel [simp]:
  "ps_proposals (snd (ensure_dependencies_met pid p st)) = ps_proposals st"
  "ps_count (snd (ensure_dependencies_met pid p st)) = ps_count st"
  by (auto simp: ensure_dependencies_met_def split: option.splits sum.splits)

lemma ensure_dependencies_met_eq:
  assumes "ensure_dependencies_met pid p st = (r, st1)"
  shows "ps_proposals st1 = ps_proposals st" "ps_count st1 = ps_count st"
  using ensure_dependencies_met_sel [of pid p st] assms by auto

lemma deps_loop_Ok:
  "deps_loop st pid acc ds = Ok deps \<Longrightarrow> list_all (\<lambda>d. d < pid \<and> ps_proposals st d \<noteq> None) acc \<Longrightarrow> distinct acc \<Longrightarrow>
     list_all (\<lambda>d. d < pid \<and> ps_proposals st d \<noteq> None) deps \<and> distinct deps \<and> set deps = set acc \<union> set ds"
proof (induction ds arbitrary: acc)
  case (Cons d ds)
  then show ?case by (cases "d \<in> set acc") (auto split: if_splits)
qed simp

lemma eligible_loop_Ok:
  "eligible_loop msig ms seen as tot = Ok t \<Longrightarrow> distinct as \<and> set as \<inter> set seen = {} \<and>
     list_all (\<lambda>a. \<exists>m. msig ms = Some m \<and> is_signer m a) as"
  by (induction as arbitrary: seen tot) (fastforce simp: ok_simps split: if_splits)+

lemma create_move:
  assumes "prop_create tk msig env proposer ca (st, w) = Ok (pid, st', w')"
  shows "lc_move tk env (st, w) (st', w')"
proof -
  let ?p = "\<lambda>deps. \<lparr>pr_proposer = proposer, pr_org = ca_org ca, pr_wallet = ca_wallet ca,
    pr_policy = ca_policy ca, pr_approvers = ca_approvers ca, pr_dependencies = deps,
    pr_threshold = ca_threshold ca, pr_approvals = 0, pr_approval_weight = 0, pr_state = PsPending,
    pr_created_at = timestamp env, pr_approved_at = 0, pr_deposit = ca_deposit ca,
    pr_expires_at = ca_expires_at ca, pr_grace_period = ca_grace_period ca\<rparr>"
  from assms obtain n deps ms tot where c: "authorized env proposer" "ps_count st = Some n"
    "pid = as_u64 (int n + 1)" "eligible_loop msig ms [] (ca_approvers ca) 0 = Ok tot"
    "length (ca_approvers ca) \<le> MAX_APPROVERS" "0 < ca_threshold ca"
    "ca_threshold ca \<le> length (ca_approvers ca)"
    "take_deposit tk env proposer (ca_deposit ca) w = Ok w'"
    "deps_loop st pid [] (ca_dependencies ca) = Ok deps"
    "ps_proposals st' = (ps_proposals st)(pid \<mapsto> ?p deps)" "ps_count st' = Some pid"
    by (auto simp: prop_create_def Let_def ok_simps not_less)
  have "list_all (\<lambda>d. d < pid) deps" using deps_loop_Ok [OF c(9)] by (auto simp: list_all_iff)
  moreover have "distinct (ca_approvers ca)" using eligible_loop_Ok [OF c(4)] by simp
  ultimately have "new_proposal_ok env pid (?p deps)" using c by (simp add: new_proposal_ok_def)
  then show ?thesis using c by (intro lc_move.create [of st n pid env "?p deps"]) simp_all
qed

lemma settled_first:
  assumes "ps_proposals st pid = Some p" and "expire_if_due tk env pid p (st, w) = Ok (due, p1, st1, w1)"
    and "due \<Longrightarrow> ps_proposals st' = ps_proposals st1 \<and> ps_count st' = ps_count st1 \<and> w' = w1"
    and "\<not> due \<Longrightarrow> p1 = p \<Longrightarrow> st1 = st \<Longrightarrow> w1 = w \<Longrightarrow> lc_move tk env (st, w) (st', w')"
  shows "lc_move tk env (st, w) (st', w')"
proof (cases due)
  case True
  then show ?thesis using assms(3) settle_prune(1) [OF assms(2,1)] by (auto intro: lc_prune_move)
next
  case False
  then have "p1 = p" "st1 = st" "w1 = w"
    using settle_not_due [of tk env pid p st w p1 st1 w1] assms(2) by auto
  then show ?thesis by (rule assms(4) [OF False])
qed

lemma not_settled_live: "may_transition s t \<Longrightarrow> t \<noteq> PsClosed \<Longrightarrow> \<not> deposit_settled s"
  by (cases s; cases t) (auto simp: deposit_settled_def)

lemma approve_move:
  assumes "prop_approve tk msig env caller pid (st, w) = Ok (n, st', w')"
  shows "lc_move tk env (st, w) (st', w')"
proof -
  from assms obtain p due p1 st1 w1 where l: "ps_proposals st pid = Some p"
    "expire_if_due tk env pid p (st, w) = Ok (due, p1, st1, w1)"
    by (auto simp: prop_approve_def ok_simps)
  show ?thesis
  proof (rule settled_first [OF l])
    assume due
    then show "ps_proposals st' = ps_proposals st1 \<and> ps_count st' = ps_count st1 \<and> w' = w1"
      using assms l by (auto simp: prop_approve_def ok_simps prop_load_def)
  next
    assume nd: "\<not> due" "p1 = p" "st1 = st" "w1 = w"
    let ?q = "the (ps_proposals st' pid)"
    from nd assms l have st': "same_terms p ?q" "w' = w"
      "pr_state ?q = pr_state p \<or> pr_state p = PsPending \<and> pr_state ?q = PsApproved"
      "ps_proposals st' = (ps_proposals st)(pid \<mapsto> ?q)" "ps_count st' = ps_count st"
      by (auto simp: prop_approve_def ok_simps Let_def prop_load_def same_terms_def split: if_splits)
    show "lc_move tk env (st, w) (st', w')" unfolding st'(2) using l(1) st'
      by (intro lc_move.keep [of st pid p ?q]) (auto simp: deposit_settled_def)
  qed
qed

lemma reject_move:
  assumes "prop_reject tk env caller pid (st, w) = Ok (u, st', w')"
  shows "lc_move tk env (st, w) (st', w')"
proof -
  from assms obtain p due p1 st1 w1 where l: "ps_proposals st pid = Some p"
    "expire_if_due tk env pid p (st, w) = Ok (due, p1, st1, w1)"
    by (auto simp: prop_reject_def ok_simps)
  show ?thesis
  proof (rule settled_first [OF l])
    assume due
    then show "ps_proposals st' = ps_proposals st1 \<and> ps_count st' = ps_count st1 \<and> w' = w1"
      using assms l by (auto simp: prop_reject_def ok_simps prop_load_def)
  next
    assume nd: "\<not> due" "p1 = p" "st1 = st" "w1 = w"
    have "lc_move tk env (st, w) (st', w')" if "ps_proposals st' = (ps_proposals st)(pid \<mapsto> p2)"
      "same_terms p p2" "may_transition (pr_state p) (pr_state p2)" "ps_count st' = ps_count st"
      "deposit_settled (pr_state p2)" "\<not> deposit_settled (pr_state p)" "refund tk env p w = Ok w'" for p2
      using that l(1) by (intro lc_move.settle [of st pid p p2])
    with assms l nd show "lc_move tk env (st, w) (st', w')"
      by (auto simp: prop_reject_def ok_simps Let_def prop_load_def same_terms_def deposit_settled_def
          dest: ensure_dependencies_met_eq split: prod.splits)
  qed
qed

lemma cancel_move:
  assumes "prop_cancel tk env caller pid (st, w) = Ok (u, st', w')"
  shows "lc_move tk env (st, w) (st', w')"
proof -
  from assms obtain p due p1 st1 w1 where l: "ps_proposals st pid = Some p"
    "expire_if_due tk env pid p (st, w) = Ok (due, p1, st1, w1)"
    by (auto simp: prop_cancel_def ok_simps)
  show ?thesis
  proof (rule settled_first [OF l])
    assume due
    then show "ps_proposals st' = ps_proposals st1 \<and> ps_count st' = ps_count st1 \<and> w' = w1"
      using assms l by (auto simp: prop_cancel_def ok_simps prop_load_def)
  next
    assume nd: "\<not> due" "p1 = p" "st1 = st" "w1 = w"
    with assms l have st': "may_transition (pr_state p) PsCancelled" "refund tk env p w = Ok w'"
      "ps_proposals st' = (ps_proposals st)(pid \<mapsto> p\<lparr>pr_state := PsCancelled\<rparr>)"
      "ps_count st' = ps_count st"
      by (auto simp: prop_cancel_def ok_simps prop_load_def Let_def)
    then show "lc_move tk env (st, w) (st', w')" using l(1) not_settled_live [OF st'(1)]
      by (intro lc_move.settle [of st pid p "p\<lparr>pr_state := PsCancelled\<rparr>"])
         (auto simp: same_terms_def deposit_settled_def)
  qed
qed

lemma for_proposal_tally [simp]:
  "for_proposal (p\<lparr>pr_approvals := n, pr_approval_weight := x\<rparr>) = for_proposal p"
  by (simp add: for_proposal_def Let_def)

lemma timelock_tally [simp]:
  "require_timelock_elapsed env st (p\<lparr>pr_approvals := n, pr_approval_weight := x\<rparr>) =
     require_timelock_elapsed env st p"
  by (simp add: require_timelock_elapsed_def)

lemma deps_tally [simp]:
  "ensure_dependencies_met pid (p\<lparr>pr_approvals := n, pr_approval_weight := x\<rparr>) st =
     ensure_dependencies_met pid p st"
  by (simp add: ensure_dependencies_met_def split: option.splits sum.splits)

text \<open>The gates of a live execution.\<close>

definition exec_gates :: "msig_view \<Rightarrow> env \<Rightarrow> u64 \<Rightarrow> proposal \<Rightarrow> prop_state \<Rightarrow> u32 \<Rightarrow> u32 \<Rightarrow> bool" where
  "exec_gates msig env pid p st n x \<longleftrightarrow>
     \<not> pr_is_expired env p \<and> pr_state p = PsApproved \<and>
     live_approval_tally msig pid p st = Ok (n, x) \<and> met_by (for_proposal p) n \<and>
     (\<exists>ms m thr. ps_multisig st = Some ms \<and> msig ms = Some m \<and> ms_threshold m = Some thr \<and> thr \<le> x) \<and>
     require_timelock_elapsed env st p = Ok () \<and> first_unmet st (pr_dependencies p) = None"

lemma ensure_dependencies_met_Ok:
  "fst (ensure_dependencies_met pid p st) = Ok u \<longleftrightarrow> first_unmet st (pr_dependencies p) = None"
  by (auto simp: ensure_dependencies_met_def split: option.splits sum.splits)

lemma prop_execute_Ok:
  assumes "ps_proposals st pid = Some p" and "pr_state p \<noteq> PsExpired"
  shows "prop_execute tk msig env caller pid (st, w) = Ok (u, st', w') \<longleftrightarrow>
    authorized env caller \<and> caller = pr_proposer p \<and>
    (\<exists>n x. exec_gates msig env pid p st n x \<and>
       refund tk env p w = Ok w' \<and>
       st' = prop_emit (PeExecuted pid) (prop_store pid
         (p\<lparr>pr_approvals := n, pr_approval_weight := x, pr_state := PsExecuted\<rparr>)
         (snd (ensure_dependencies_met pid p st))))"
proof (cases "pr_is_expired env p")
  case True
  then show ?thesis using assms by (auto simp: prop_execute_def ok_simps exec_gates_def)
next
  case False
  then have e: "expire_if_due tk env pid p (st, w) = Ok (False, p, st, w)"
    using assms(2) by (simp add: expire_if_due_def)
  show ?thesis using assms(1) False
    by (auto simp: prop_execute_def ok_simps e Let_def split_beta exec_gates_def
        ensure_dependencies_met_Ok not_less)
qed

lemma execute_move:
  assumes "prop_execute tk msig env caller pid (st, w) = Ok (u, st', w')"
  shows "lc_move tk env (st, w) (st', w')"
proof -
  from assms obtain p where p: "ps_proposals st pid = Some p"
    by (auto simp: prop_execute_def ok_simps)
  show ?thesis
  proof (cases "pr_state p = PsExpired")
    case True
    then have "st' = st" "w' = w" using assms p
      by (auto simp: prop_execute_def ok_simps prop_load_def expire_if_due_def)
    then show ?thesis by (auto intro: lc_move.quiet)
  next
    case False
    from assms [unfolded prop_execute_Ok [OF p False]] obtain n x where
      x: "exec_gates msig env pid p st n x" "refund tk env p w = Ok w'"
      "ps_proposals st' = (ps_proposals st)
         (pid \<mapsto> p\<lparr>pr_approvals := n, pr_approval_weight := x, pr_state := PsExecuted\<rparr>)"
      "ps_count st' = ps_count st" by auto
    then show ?thesis using p
      by (intro lc_move.settle [OF p]) (auto simp: same_terms_def deposit_settled_def exec_gates_def)
  qed
qed

lemma fail_move:
  assumes "prop_fail tk env caller pid (st, w) = Ok (u, st', w')"
  shows "lc_move tk env (st, w) (st', w')"
proof -
  from assms obtain p due p1 st1 w1 where l: "ps_proposals st pid = Some p"
    "expire_if_due tk env pid p (st, w) = Ok (due, p1, st1, w1)"
    by (auto simp: prop_fail_def ok_simps)
  show ?thesis
  proof (rule settled_first [OF l])
    assume due
    then show "ps_proposals st' = ps_proposals st1 \<and> ps_count st' = ps_count st1 \<and> w' = w1"
      using assms l by (auto simp: prop_fail_def ok_simps prop_load_def)
  next
    assume nd: "\<not> due" "p1 = p" "st1 = st" "w1 = w"
    with assms l have st': "w' = w" "may_transition (pr_state p) PsFailed"
      "deposit_settled PsFailed = deposit_settled (pr_state p)"
      "ps_proposals st' = (ps_proposals st)(pid \<mapsto> p\<lparr>pr_state := PsFailed\<rparr>)" "ps_count st' = ps_count st"
      by (auto simp: prop_fail_def ok_simps prop_load_def deposit_settled_def)
    show "lc_move tk env (st, w) (st', w')" unfolding st'(1) using l(1) st'
      by (intro lc_move.keep [of st pid p "p\<lparr>pr_state := PsFailed\<rparr>"]) (auto simp: same_terms_def)
  qed
qed

lemma close_move:
  assumes "prop_close tk env caller pid (st, w) = Ok (u, st', w')"
  shows "lc_move tk env (st, w) (st', w')"
proof -
  from assms obtain p due p1 st1 w1 where l: "ps_proposals st pid = Some p"
    "expire_if_due tk env pid p (st, w) = Ok (due, p1, st1, w1)"
    by (auto simp: prop_close_def ok_simps)
  show ?thesis
  proof (rule settled_first [OF l])
    assume due
    then show "ps_proposals st' = ps_proposals st1 \<and> ps_count st' = ps_count st1 \<and> w' = w1"
      using assms l by (auto simp: prop_close_def ok_simps prop_load_def)
  next
    assume nd: "\<not> due" "p1 = p" "st1 = st" "w1 = w"
    with assms l have st': "w' = w" "may_transition (pr_state p) PsClosed"
      "deposit_settled PsClosed = deposit_settled (pr_state p)"
      "ps_proposals st' = (ps_proposals st)(pid \<mapsto> p\<lparr>pr_state := PsClosed\<rparr>)" "ps_count st' = ps_count st"
      by (auto simp: prop_close_def ok_simps prop_load_def deposit_settled_def)
    show "lc_move tk env (st, w) (st', w')" unfolding st'(1) using l(1) st'
      by (intro lc_move.keep [of st pid p "p\<lparr>pr_state := PsClosed\<rparr>"]) (auto simp: same_terms_def)
  qed
qed

lemma expire_prune:
  "prop_expire tk env pid (st, w) = Ok (u, st', w') \<Longrightarrow> lc_prune tk env (st, w) (st', w')"
  by (auto simp: prop_expire_def ok_simps intro: settle_prune(1))

lemma prune_body:
  assumes "ps_proposals st pid = Some p0" and "expire_if_due tk env pid p0 (st, w) = Ok (due, p, st1, w1)"
    and "pr_is_expired env p" and "deposit_settled (pr_state p)"
  shows "(lc_prune tk env)\<^sup>*\<^sup>* (st, w) (purge_proposal pid p st1, w1)"
proof -
  have "lc_prune tk env (st, w) (st1, w1)" "ps_proposals st1 pid = Some p"
    using settle_prune [OF assms(2,1)] by auto
  moreover from this(2) have "lc_prune tk env (st1, w1) (purge_proposal pid p st1, w1)"
    using assms(3,4) by (intro lc_prune.drop) auto
  ultimately show ?thesis by auto
qed

lemma prune_expired_prune:
  "prune_expired tk env pid (st, w) = Ok (u, st', w') \<Longrightarrow> (lc_prune tk env)\<^sup>*\<^sup>* (st, w) (st', w')"
  by (auto simp: prune_expired_def ok_simps intro: prune_body)

lemma prune_loop_prune:
  "prune_loop tk env ids k (st, w) = Ok (n, st', w') \<Longrightarrow> (lc_prune tk env)\<^sup>*\<^sup>* (st, w) (st', w')"
proof (induction ids arbitrary: k st w)
  case (Cons pid ids)
  show ?case
  proof (cases "ps_proposals st pid")
    case None
    then show ?thesis using Cons by auto
  next
    case (Some p0)
    from Cons.prems Some obtain due p st1 w1 where e:
      "expire_if_due tk env pid p0 (st, w) = Ok (due, p, st1, w1)"
      by (auto simp: ok_simps)
    show ?thesis
    proof (cases "pr_is_expired env p \<and> deposit_settled (pr_state p)")
      case True
      then show ?thesis using Cons Some e prune_body [OF Some e]
        by (auto intro: rtranclp_trans)
    next
      case False
      then have "prune_loop tk env ids k (st1, w1) = Ok (n, st', w')" using Cons.prems Some e by auto
      from Cons.IH [OF this] settle_prune(1) [OF e Some refl refl] show ?thesis
        by (rule converse_rtranclp_into_rtranclp [rotated])
    qed
  qed
qed simp

lemma prune_note:
  assumes "(lc_prune tk env)\<^sup>*\<^sup>* s (st, w)" and "ps_proposals st' = ps_proposals st"
    and "ps_count st' = ps_count st"
  shows "(lc_prune tk env)\<^sup>*\<^sup>* s (st', w)"
  using assms by (auto intro: rtranclp.rtrancl_into_rtrancl lc_prune.silent)

lemma prune_batch_prune:
  "prune_expired_batch tk env ids s = Ok (n, st', w') \<Longrightarrow> (lc_prune tk env)\<^sup>*\<^sup>* s (st', w')"
  "prune_expired_range tk env a l s = Ok (n, st', w') \<Longrightarrow> (lc_prune tk env)\<^sup>*\<^sup>* s (st', w')"
  by (cases s; auto simp: prune_expired_batch_def prune_expired_range_def ok_simps
      intro: prune_note dest!: prune_loop_prune)+

inductive prop_step ::
  "'w token_api \<Rightarrow> msig_view \<Rightarrow> env \<Rightarrow> prop_state \<times> 'w \<Rightarrow> prop_state \<times> 'w \<Rightarrow> bool"
  for tk :: "'w token_api" and msig :: msig_view and env :: env where
  initialize: "prop_initialize msig d a s = Ok (u, t) \<Longrightarrow> prop_step tk msig env s t"
| create: "prop_create tk msig env c ca s = Ok (n, t) \<Longrightarrow> prop_step tk msig env s t"
| approve: "prop_approve tk msig env c pid s = Ok (n, t) \<Longrightarrow> prop_step tk msig env s t"
| reject: "prop_reject tk env c pid s = Ok (u, t) \<Longrightarrow> prop_step tk msig env s t"
| cancel: "prop_cancel tk env c pid s = Ok (u, t) \<Longrightarrow> prop_step tk msig env s t"
| expire: "prop_expire tk env pid s = Ok (u, t) \<Longrightarrow> prop_step tk msig env s t"
| prune: "prune_expired tk env pid s = Ok (u, t) \<Longrightarrow> prop_step tk msig env s t"
| cleanup: "cleanup_expired tk env pid s = Ok (u, t) \<Longrightarrow> prop_step tk msig env s t"
| prune_batch: "prune_expired_batch tk env ids s = Ok (n, t) \<Longrightarrow> prop_step tk msig env s t"
| prune_range: "prune_expired_range tk env a l s = Ok (n, t) \<Longrightarrow> prop_step tk msig env s t"
| execute: "prop_execute tk msig env c pid s = Ok (u, t) \<Longrightarrow> prop_step tk msig env s t"
| fail: "prop_fail tk env c pid s = Ok (u, t) \<Longrightarrow> prop_step tk msig env s t"
| close: "prop_close tk env c pid s = Ok (u, t) \<Longrightarrow> prop_step tk msig env s t"
| get: "prop_get tk msig env pid s = Ok (p, t) \<Longrightarrow> prop_step tk msig env s t"
| vote_bars: "vote_bars_view tk env pid s = Ok (v, t) \<Longrightarrow> prop_step tk msig env s t"
| state: "state_view tk env pid s = Ok (z, t) \<Longrightarrow> prop_step tk msig env s t"
| is_expired: "is_expired_view tk env pid s = Ok (b, t) \<Longrightarrow> prop_step tk msig env s t"
| is_executed: "is_executed_view tk env pid s = Ok (b, t) \<Longrightarrow> prop_step tk msig env s t"
| dependencies: "dependencies_view tk env pid s = Ok (ds, t) \<Longrightarrow> prop_step tk msig env s t"
| dependencies_met: "dependencies_met_view tk env pid s = Ok (b, t) \<Longrightarrow> prop_step tk msig env s t"
| can_execute: "can_execute_view tk msig env pid s = Ok (b, t) \<Longrightarrow> prop_step tk msig env s t"

lemmas view_defs =
  prop_get_def vote_bars_view_def state_view_def is_expired_view_def is_executed_view_def
  dependencies_view_def dependencies_met_view_def can_execute_view_def

lemma initialize_move: "prop_initialize msig d a (st, w) = Ok (u, st', w') \<Longrightarrow> lc_move tk env (st, w) (st', w')"
  by (auto simp: prop_initialize_def ok_simps intro: lc_move.init)

lemma can_execute_prune:
  "can_execute_view tk msig env pid (st, w) = Ok (b, st', w') \<Longrightarrow> lc_prune tk env (st, w) (st', w')"
  by (auto simp: can_execute_view_def ok_simps Let_def split_beta
      intro: settled_prune split: if_splits)

lemma views_prune:
  "prop_get tk msig env pid (st, w) = Ok (p, st', w') \<Longrightarrow> lc_prune tk env (st, w) (st', w')"
  "vote_bars_view tk env pid (st, w) = Ok (v, st', w') \<Longrightarrow> lc_prune tk env (st, w) (st', w')"
  "state_view tk env pid (st, w) = Ok (z, st', w') \<Longrightarrow> lc_prune tk env (st, w) (st', w')"
  "is_expired_view tk env pid (st, w) = Ok (b, st', w') \<Longrightarrow> lc_prune tk env (st, w) (st', w')"
  "is_executed_view tk env pid (st, w) = Ok (b, st', w') \<Longrightarrow> lc_prune tk env (st, w) (st', w')"
  "dependencies_view tk env pid (st, w) = Ok (ds, st', w') \<Longrightarrow> lc_prune tk env (st, w) (st', w')"
  "dependencies_met_view tk env pid (st, w) = Ok (b, st', w') \<Longrightarrow> lc_prune tk env (st, w) (st', w')"
  by (auto simp: view_defs ok_simps split_beta intro: settled_prune)

lemma step_cases:
  assumes "prop_step tk msig env (st, w) (st', w')"
  shows "lc_move tk env (st, w) (st', w') \<or> (lc_prune tk env)\<^sup>*\<^sup>* (st, w) (st', w')"
  using assms
  by (cases rule: prop_step.cases)
     (auto simp: cleanup_expired_def
      dest: initialize_move create_move approve_move reject_move cancel_move execute_move fail_move
        close_move expire_prune prune_expired_prune prune_batch_prune views_prune can_execute_prune)

lemma step_moves:
  assumes "prop_step tk msig env (st, w) (st', w')"
  shows "(lc_move tk env)\<^sup>*\<^sup>* (st, w) (st', w')"
  using step_cases [OF assms] by (auto intro: mono_rtranclp [rule_format, rotated] lc_prune_move)

section \<open>The invariant and the custody of deposits\<close>

definition prop_inv :: "address \<Rightarrow> prop_state \<Rightarrow> bool" where
  "prop_inv self st \<longleftrightarrow>
     (ps_count st = None \<longrightarrow> ps_proposals st = Map.empty) \<and>
     (\<forall>pid p. ps_proposals st pid = Some p \<longrightarrow>
        pid \<le> unwrap_or (ps_count st) 0 \<and> pr_proposer p \<noteq> self \<and>
        list_all (\<lambda>d. d < pid) (pr_dependencies p) \<and> distinct (pr_approvers p) \<and>
        length (pr_approvers p) \<le> MAX_APPROVERS \<and>
        0 < pr_threshold p \<and> pr_threshold p \<le> length (pr_approvers p))"

definition prop_used :: "prop_state \<Rightarrow> nat" where
  "prop_used st = unwrap_or (ps_count st) 0"

definition held_at :: "proposal \<Rightarrow> address \<Rightarrow> int" where
  "held_at p a =
     (if deposit_settled (pr_state p) then 0
      else case pr_deposit p of [] \<Rightarrow> 0 | d # _ \<Rightarrow> if asset d = a then amount d else 0)"

definition held :: "prop_state \<Rightarrow> address \<Rightarrow> int" where
  "held st a = (\<Sum>pid\<in>dom (ps_proposals st). held_at (the (ps_proposals st pid)) a)"

lemma prop_inv_finite: "prop_inv self st \<Longrightarrow> finite (dom (ps_proposals st))"
  by (rule finite_subset [of _ "{..unwrap_or (ps_count st) 0}"]) (auto simp: prop_inv_def)

lemma held_cong: "ps_proposals st' = ps_proposals st \<Longrightarrow> held st' a = held st a"
  by (simp add: held_def)

lemma held_update:
  assumes "finite (dom (ps_proposals st))" and "ps_proposals st pid = Some p"
    and "ps_proposals st' = (ps_proposals st)(pid \<mapsto> p')"
  shows "held st' a = held st a - held_at p a + held_at p' a"
proof -
  let ?D = "dom (ps_proposals st)"
  have pid: "pid \<in> ?D" using assms(2) by auto
  have "(\<Sum>i\<in>?D - {pid}. held_at (the (ps_proposals st' i)) a) =
        (\<Sum>i\<in>?D - {pid}. held_at (the (ps_proposals st i)) a)"
    by (rule sum.cong) (auto simp: assms(3))
  moreover have "dom (ps_proposals st') = ?D" using assms(2,3) by auto
  ultimately show ?thesis using assms
    by (simp add: held_def sum.remove [OF assms(1) pid])
qed

lemma held_create:
  assumes "finite (dom (ps_proposals st))" and "ps_proposals st pid = None"
    and "ps_proposals st' = (ps_proposals st)(pid \<mapsto> p)"
  shows "held st' a = held st a + held_at p a"
proof -
  have "(\<Sum>i\<in>dom (ps_proposals st). held_at (the (ps_proposals st' i)) a) =
        (\<Sum>i\<in>dom (ps_proposals st). held_at (the (ps_proposals st i)) a)"
    using assms(2,3) by (intro sum.cong) auto
  moreover have "pid \<notin> dom (ps_proposals st)" using assms(2) by auto
  ultimately show ?thesis using assms by (simp add: held_def)
qed

lemma held_purge:
  assumes "finite (dom (ps_proposals st))" and "ps_proposals st pid = Some p"
    and "ps_proposals st' = (ps_proposals st)(pid := None)"
  shows "held st' a = held st a - held_at p a"
proof -
  let ?D = "dom (ps_proposals st)"
  have pid: "pid \<in> ?D" using assms(2) by auto
  have "(\<Sum>i\<in>?D - {pid}. held_at (the (ps_proposals st' i)) a) =
        (\<Sum>i\<in>?D - {pid}. held_at (the (ps_proposals st i)) a)"
    by (rule sum.cong) (auto simp: assms(3))
  moreover have "dom (ps_proposals st') = ?D - {pid}" using assms(3) by auto
  ultimately show ?thesis using assms(2) by (simp add: held_def sum.remove [OF assms(1) pid])
qed

lemma same_terms_held:
  "same_terms p q \<Longrightarrow> deposit_settled (pr_state q) = deposit_settled (pr_state p) \<Longrightarrow> held_at q a = held_at p a"
  by (simp add: held_at_def same_terms_def)

lemma fresh_id:
  assumes "prop_inv self st" and "ps_count st = Some n" and "n < u64_max"
  shows "ps_proposals st (Suc n) = None" and "as_u64 (int n + 1) = Suc n"
proof -
  show "ps_proposals st (Suc n) = None"
    using assms(1,2) unfolding prop_inv_def by (metis Suc_n_not_le_n not_Some_eq unwrap_or_simps(1))
  show "as_u64 (int n + 1) = Suc n" using as_u64_Suc [OF assms(3)] by (simp add: add.commute)
qed

text \<open>The assumptions of a step about its environment: the contract does not sign for itself.\<close>

definition calm :: "address \<Rightarrow> env \<Rightarrow> bool" where
  "calm self env \<longleftrightarrow> this_contract env = self \<and> \<not> authorized env self"

lemma lc_move_inv:
  assumes "lc_move tk env (st, w) (st', w')" and "prop_inv self st" and "calm self env"
    and "prop_used st < u64_max"
  shows "prop_inv self st' \<and> prop_used st' \<le> Suc (prop_used st)"
  using assms(1)
proof (cases rule: lc_move.cases)
  case (create n pid p)
  then have pid: "pid = Suc n"
    using fresh_id(2) [OF assms(2)] assms(4) by (auto simp: prop_used_def)
  show ?thesis using create(1,3,5,6) assms(2,3) unfolding pid
    by (auto simp: prop_inv_def prop_used_def new_proposal_ok_def calm_def le_Suc_eq)
next
  case (keep pid p p')
  then show ?thesis using assms(2) by (auto simp: prop_inv_def prop_used_def same_terms_def)
next
  case (settle pid p p')
  then show ?thesis using assms(2) by (auto simp: prop_inv_def prop_used_def same_terms_def)
next
  case (purge pid p)
  then show ?thesis using assms(2) by (auto simp: prop_inv_def prop_used_def)
qed (use assms(2) in \<open>auto simp: prop_inv_def prop_used_def\<close>)

lemma refund_balance:
  assumes "token_laws tk bal" and "refund tk env p w = Ok w'" and "pr_proposer p \<noteq> this_contract env"
    and "\<not> deposit_settled (pr_state p)"
  shows "bal w' a (this_contract env) = bal w a (this_contract env) - held_at p a"
  using assms token_laws_transfer [OF assms(1)]
  by (auto simp: refund_def held_at_def ok_simps moved_def split: list.splits)

lemma take_deposit_balance:
  assumes "token_laws tk bal" and "take_deposit tk env (pr_proposer p) (pr_deposit p) w = Ok w'"
    and "pr_proposer p \<noteq> this_contract env" and "pr_state p = PsPending"
  shows "bal w' a (this_contract env) = bal w a (this_contract env) + held_at p a"
  using assms token_laws_transfer [OF assms(1)]
  by (auto simp: take_deposit_def held_at_def deposit_settled_def ok_simps moved_def split: list.splits)

lemma lc_move_custody:
  assumes "lc_move tk env (st, w) (st', w')" and "prop_inv self st" and "calm self env"
    and "prop_used st < u64_max" and "token_laws tk bal"
  shows "bal w' a self - held st' a = bal w a self - held st a"
  using assms(1)
proof (cases rule: lc_move.cases)
  case (create n pid p)
  then have f: "ps_proposals st pid = None"
    using fresh_id [OF assms(2)] assms(4) by (auto simp: prop_used_def)
  have "pr_proposer p \<noteq> self" "pr_state p = PsPending"
    using create(3) assms(3) by (auto simp: new_proposal_ok_def calm_def)
  then show ?thesis
    using take_deposit_balance [OF assms(5) create(4)] assms(3)
      held_create [OF prop_inv_finite [OF assms(2)] f create(5)] by (simp add: calm_def)
next
  case (keep pid p p')
  then show ?thesis
    using held_update [OF prop_inv_finite [OF assms(2)] keep(2,6)] same_terms_held by simp
next
  case (settle pid p p')
  have "pr_proposer p \<noteq> self" using assms(2) settle(1) by (auto simp: prop_inv_def)
  moreover have "held_at p' a = 0" using settle(5) by (simp add: held_at_def)
  ultimately show ?thesis
    using refund_balance [OF assms(5) settle(6)] assms(3) settle(4)
      held_update [OF prop_inv_finite [OF assms(2)] settle(1,7)] by (simp add: calm_def)
next
  case (purge pid p)
  then show ?thesis
    using held_purge [OF prop_inv_finite [OF assms(2)] purge(2,5)] by (simp add: held_at_def)
next
  case quiet
  then show ?thesis using held_cong [of st' st a] by simp
next
  case init
  then show ?thesis using held_cong [of st' st a] by simp
qed

lemma lc_prune_used: "lc_prune tk env s t \<Longrightarrow> prop_used (fst t) = prop_used (fst s)"
  by (induction rule: lc_prune.induct) (simp_all add: prop_used_def)

lemma lc_prunes:
  assumes "(lc_prune tk env)\<^sup>*\<^sup>* s t" and "calm self env" and "prop_inv self (fst s)"
    and "prop_used (fst s) < u64_max"
  shows "prop_inv self (fst t) \<and> prop_used (fst t) = prop_used (fst s) \<and>
    (token_laws tk bal \<longrightarrow> bal (snd t) a self - held (fst t) a = bal (snd s) a self - held (fst s) a)"
  using assms(1)
proof (induction rule: rtranclp_induct)
  case base
  then show ?case using assms(3) by simp
next
  case (step t r)
  have m: "lc_move tk env (fst t, snd t) (fst r, snd r)" using lc_prune_move [OF step(2)] by simp
  have t: "prop_inv self (fst t)" "prop_used (fst t) < u64_max" using step(3) assms(4) by auto
  show ?case
    using lc_move_inv [OF m t(1) assms(2) t(2)] lc_prune_used [OF step(2)] step(3)
      lc_move_custody [OF m t(1) assms(2) t(2)] by auto
qed

lemma prop_step_inv:
  assumes "prop_step tk msig env (st, w) (st', w')" and "calm self env" and "prop_inv self st"
    and "prop_used st < u64_max"
  shows "prop_inv self st'" and "prop_used st' \<le> Suc (prop_used st)"
    and "token_laws tk bal \<Longrightarrow> bal w' a self - held st' a = bal w a self - held st a"
proof -
  have "prop_inv self st' \<and> prop_used st' \<le> Suc (prop_used st) \<and>
      (token_laws tk bal \<longrightarrow> bal w' a self - held st' a = bal w a self - held st a)"
    using step_cases [OF assms(1)]
  proof
    assume m: "lc_move tk env (st, w) (st', w')"
    from lc_move_inv [OF m assms(3,2,4)] lc_move_custody [OF m assms(3,2,4)] show ?thesis by auto
  next
    assume "(lc_prune tk env)\<^sup>*\<^sup>* (st, w) (st', w')"
    from lc_prunes [OF this assms(2), of bal a] assms(3,4) show ?thesis by auto
  qed
  then show "prop_inv self st'" and "prop_used st' \<le> Suc (prop_used st)"
    and "token_laws tk bal \<Longrightarrow> bal w' a self - held st' a = bal w a self - held st a" by auto
qed

text \<open>Runs: transactions of the contract, and anything else on the ledger that does not take the
  contract's own tokens.\<close>

definition prop_next ::
  "'w token_api \<Rightarrow> ('w \<Rightarrow> address \<Rightarrow> address \<Rightarrow> int) \<Rightarrow> address \<Rightarrow> prop_state \<times> 'w \<Rightarrow> prop_state \<times> 'w \<Rightarrow> bool" where
  "prop_next tk bal self s t \<longleftrightarrow>
     (\<exists>msig env. calm self env \<and> prop_step tk msig env s t) \<or>
     fst t = fst s \<and> (\<forall>a. bal (snd s) a self \<le> bal (snd t) a self)"

lemma prop_next_inv:
  assumes "prop_next tk bal self (st, w) (st', w')" and "prop_inv self st" and "prop_used st < u64_max"
  shows "prop_inv self st'" and "prop_used st' \<le> Suc (prop_used st)"
    and "token_laws tk bal \<Longrightarrow> bal w a self - held st a \<le> bal w' a self - held st' a"
  using assms prop_step_inv [of tk _ _ st w st' w' self]
  by (auto simp: prop_next_def)

lemma prop_run:
  "(prop_next tk bal self ^^ n) (st, w) (st', w') \<Longrightarrow> prop_inv self st \<Longrightarrow> prop_used st + n \<le> u64_max \<Longrightarrow>
     prop_inv self st' \<and> prop_used st' \<le> prop_used st + n \<and>
     (token_laws tk bal \<longrightarrow> bal w a self - held st a \<le> bal w' a self - held st' a)"
proof (induction n arbitrary: st' w')
  case (Suc n)
  from Suc.prems(1) obtain sm wm where run: "(prop_next tk bal self ^^ n) (st, w) (sm, wm)"
    and step: "prop_next tk bal self (sm, wm) (st', w')" by (rule relpowp_Suc_E) auto
  have m: "prop_inv self sm" "prop_used sm < u64_max" "prop_used sm \<le> prop_used st + n"
    "token_laws tk bal \<longrightarrow> bal w a self - held st a \<le> bal wm a self - held sm a"
    using Suc.IH [OF run] Suc.prems(2,3) by auto
  show ?case
    using prop_next_inv [OF step m(1,2)] m(3,4) by (auto intro: order_trans)
qed simp

lemma prop_inv_empty: "prop_inv self prop_empty" "prop_used prop_empty = 0" "held prop_empty a = 0"
  by (simp_all add: prop_inv_def prop_used_def held_def prop_empty_def)

section \<open>Tallies, bars and the time-lock\<close>

definition voters :: "ms_state \<Rightarrow> prop_state \<Rightarrow> u64 \<Rightarrow> proposal \<Rightarrow> address list" where
  "voters m st pid p = filter (\<lambda>a. prop_approved st pid a \<and> is_signer m a) (pr_approvers p)"

lemma prop_tally_loop_eq:
  assumes "msig ms = Some m" and "0 \<le> tot" and "n + length as \<le> u32_max"
    and "tot + int (\<Sum>a\<leftarrow>filter (\<lambda>a. P a \<and> is_signer m a) as. get_signer_weight m a) \<le> i128_max"
  shows "prop_tally_loop msig ms P as n tot =
    Ok (n + length (filter (\<lambda>a. P a \<and> is_signer m a) as),
        tot + int (\<Sum>a\<leftarrow>filter (\<lambda>a. P a \<and> is_signer m a) as. get_signer_weight m a))"
  using assms(2-4)
proof (induction as arbitrary: n tot)
  case (Cons a as)
  show ?case
  proof (cases "P a \<and> is_signer m a")
    case True
    have "checked_add (int n) 1 = Ok (int (Suc n))"
      using Cons.prems(2) in_i128_u32 [of "Suc n"] by (simp add: ok_simps add.commute)
    moreover have "as_u32 (int (Suc n)) = Suc n" using Cons.prems(2) by (intro as_u32_int) simp
    moreover have "checked_add tot (int (get_signer_weight m a)) = Ok (tot + int (get_signer_weight m a))"
      using Cons.prems True by (simp add: checked_add_def safe_add_def in_i128_def int_limits)
    ultimately show ?thesis using Cons.IH [of "tot + int (get_signer_weight m a)" "Suc n"] Cons.prems True
      by (simp add: client_is_signer_def client_weight_def assms(1) algebra_simps)
  next
    case False
    then show ?thesis using Cons by (auto simp: client_is_signer_def assms(1))
  qed
qed simp

lemma live_approval_tally_eq:
  assumes "ps_multisig st = Some ms" and "msig ms = Some m" and "ms_inv m"
    and "distinct (pr_approvers p)" and "length (pr_approvers p) \<le> MAX_APPROVERS"
  shows "live_approval_tally msig pid p st =
    Ok (length (voters m st pid p), \<Sum>a\<leftarrow>voters m st pid p. get_signer_weight m a)"
proof -
  let ?s = "\<Sum>a\<leftarrow>voters m st pid p. get_signer_weight m a"
  have le: "?s \<le> u32_max" unfolding voters_def using assms(3,4) by (rule msv.list_fits)
  then have "int ?s \<le> i128_max" by (simp add: int_limits)
  then have "prop_tally_loop msig ms (prop_approved st pid) (pr_approvers p) 0 0 =
      Ok (length (voters m st pid p), int ?s)"
    using prop_tally_loop_eq [of msig ms m 0 0 "pr_approvers p" "prop_approved st pid"] assms(2,5)
    by (simp add: voters_def limit_defs int_limits)
  moreover have "try_u32 (int ?s) = Ok ?s" using le by (simp add: try_u32_def)
  ultimately show ?thesis using assms(1) by (simp add: live_approval_tally_def prop_multisig_def)
qed

lemma quorum_half: "e \<le> MAX_APPROVERS \<Longrightarrow> quorum_required e 50 = (e + 1) div 2"
proof -
  assume e: "e \<le> MAX_APPROVERS"
  have "e * 50 div 100 = e div 2" "e * 50 mod 100 = e mod 2 * 50"
    using div_mult_mult2 [of 50 e 2] mod_mult_mult2 [of e 50 2] by simp_all
  then have q: "e * 50 div 100 + (if 0 < e * 50 mod 100 then 1 else 0) = (e + 1) div 2"
    by (cases "even e") (auto elim: oddE)
  have "(e + 1) div 2 \<le> u32_max" using e by (simp add: limit_defs int_limits)
  then have "as_u32 (int ((e + 1) div 2)) = (e + 1) div 2" by (rule as_u32_int)
  moreover have "min 50 100 = (50 :: nat)" by simp
  ultimately show ?thesis unfolding quorum_required_def Let_def by (simp only: q)
qed

lemma bars_met_iff:
  assumes "length (pr_approvers p) \<le> MAX_APPROVERS"
  shows "met_by (for_proposal p) n \<longleftrightarrow> pr_threshold p \<le> n \<and> length (pr_approvers p) < 2 * n"
  using quorum_half [OF assms]
  by (auto simp: met_by_def for_proposal_def Let_def majority_required_def PROPOSAL_QUORUM_PERCENT_def)

lemma require_released_iff:
  assumes "timestamp env \<le> u64_max"
  shows "require_released env approved_at delay = Ok () \<longleftrightarrow>
    delay = 0 \<or> approved_at = 0 \<or> approved_at + delay \<le> timestamp env"
proof (cases "is_armed approved_at delay")
  case True
  then have "release_at approved_at delay =
      (if approved_at + delay \<le> u64_max then Ok (approved_at + delay) else Err Overflow)"
    by (auto simp: release_at_def checked_add_def safe_add_def in_i128_def try_u64_def int_limits)
  then show ?thesis using True assms
    by (auto simp: require_released_def time_lock_status_of_def blocking_def Let_def is_armed_def)
next
  case False
  then show ?thesis
    by (auto simp: require_released_def time_lock_status_of_def release_at_def blocking_def Let_def
        is_armed_def)
qed

lemma first_unmet_None:
  "first_unmet st ds = None \<longleftrightarrow>
     list_all (\<lambda>d. \<exists>q. ps_proposals st d = Some q \<and> has_executed (pr_state q)) ds"
  by (induction ds) (auto split: option.splits)

lemma can_execute_iff:
  assumes "ps_proposals st pid = Some p" and "pr_state p \<noteq> PsExpired"
  shows "(\<exists>t. can_execute_view tk msig env pid (st, w) = Ok (True, t)) \<longleftrightarrow>
    (\<exists>n x. exec_gates msig env pid p st n x)"
proof (cases "pr_is_expired env p")
  case True
  then have "\<not> pr_can_execute env st' p'" if "settled tk env pid (st, w) = Ok (p', st', w')" for p' st' w'
    using that assms by (auto simp: settled_def ok_simps pr_can_execute_def pr_is_active_def pr_is_expired_def
        elim!: expire_if_dueE)
  then show ?thesis using True by (auto simp: can_execute_view_def exec_gates_def ok_simps)
next
  case False
  then have "settled tk env pid (st, w) = Ok (p, st, w)"
    using assms by (simp add: settled_def prop_load_def expire_if_due_def)
  then show ?thesis using False
    by (auto simp: can_execute_view_def exec_gates_def pr_can_execute_def pr_is_active_def ok_simps
        is_ok_iff Let_def split_beta ensure_dependencies_met_Ok not_less split: if_splits) blast
qed

section \<open>A concrete run\<close>

definition dw0 :: "address \<Rightarrow> address \<Rightarrow> int" where
  "dw0 = (\<lambda>_ _. 100)"

definition dmsig :: msig_view where
  "dmsig a = (if a = 70 then Some demo_init else None)"

definition dargs :: create_args where
  "dargs = \<lparr>ca_org = ''o'', ca_wallet = [], ca_policy = [], ca_approvers = [1, 2, 3],
     ca_dependencies = [], ca_threshold = 2, ca_deposit = [\<lparr>asset = 8, amount = 40\<rparr>],
     ca_expires_at = 5000, ca_grace_period = 0\<rparr>"

definition dp1 where "dp1 = commit (prop_empty, dw0) (prop_initialize dmsig 100 70 (prop_empty, dw0))"
definition dp2 where "dp2 = commit dp1 (prop_create ledger_token dmsig (demo_env 1000 [9]) 9 dargs dp1)"
definition dp3 where "dp3 = commit dp2 (prop_approve ledger_token dmsig (demo_env 1001 [1]) 1 1 dp2)"
definition dp4 where "dp4 = commit dp3 (prop_approve ledger_token dmsig (demo_env 1002 [2]) 2 1 dp3)"

lemmas prop_eval =
  dw0_def dmsig_def dargs_def prop_empty_def prop_initialize_def prop_create_def prop_approve_def
  client_threshold_def client_is_signer_def client_weight_def get_threshold_def threshold_def
  is_signer_def get_signer_weight_def weight_of_def signers_def demo_init_def demo_signers_def
  demo_env_def initialize_def total_weight_eq validate_threshold_def assert_unique_def
  weight_in_def has_signer_def require_auth_def prop_load_def prop_multisig_def prop_store_def
  prop_emit_def expire_if_due_def pr_is_expired_def live_approval_tally_def prop_approved_def
  checked_add_def safe_add_def in_i128_def try_u32_def as_u32_def as_u64_def take_deposit_def
  token_transfer_def ledger_token_def moved_def require_non_empty_def ms_empty_def limit_defs
  int_limits Let_def

lemma dp_eval:
  "prop_initialize dmsig 100 70 (prop_empty, dw0) = Ok ((), dp1)"
  "prop_create ledger_token dmsig (demo_env 1000 [9]) 9 dargs dp1 = Ok (1, dp2)"
  "prop_approve ledger_token dmsig (demo_env 1001 [1]) 1 1 dp2 = Ok (1, dp3)"
  "prop_approve ledger_token dmsig (demo_env 1002 [2]) 2 1 dp3 = Ok (2, dp4)"
  by (simp_all add: dp4_def dp3_def dp2_def dp1_def prop_eval)

lemmas exec_eval =
  prop_execute_def ensure_vote_valid_def bars_ensure_met_def met_by_def for_proposal_def
  quorum_required_def majority_required_def require_timelock_elapsed_def require_released_def
  time_lock_status_of_def release_at_def is_armed_def prop_timelock_delay_def blocking_def
  try_u64_def ensure_dependencies_met_def refund_def

lemma dp4_proposal:
  "\<exists>p. ps_proposals (fst dp4) 1 = Some p \<and> pr_state p = PsApproved \<and> pr_proposer p = 9 \<and>
     pr_approved_at p = 1002 \<and> pr_approvers p = [1, 2, 3]"
  "is_ok (prop_execute ledger_token dmsig (demo_env 1102 [9]) 9 1 dp4)"
  by (simp_all add: dp4_def dp3_def dp2_def dp1_def prop_eval exec_eval)

lemma dp4_ready:
  "\<exists>p w'. ps_proposals (fst dp4) 1 = Some p \<and> pr_state p = PsApproved \<and> pr_proposer p = 9 \<and>
     refund ledger_token (demo_env 1102 [9]) p (snd dp4) = Ok w'"
proof -
  obtain p where p: "ps_proposals (fst dp4) 1 = Some p" "pr_state p = PsApproved" "pr_proposer p = 9"
    using dp4_proposal(1) by blast
  obtain u st' w' where e: "prop_execute ledger_token dmsig (demo_env 1102 [9]) 9 1 (fst dp4, snd dp4)
      = Ok (u, st', w')" using dp4_proposal(2) by (auto simp: is_ok_iff)
  have "refund ledger_token (demo_env 1102 [9]) p (snd dp4) = Ok w'"
    using prop_execute_Ok [OF p(1), of ledger_token dmsig "demo_env 1102 [9]" 9 "snd dp4" u st' w'] p(2) e
    by auto
  then show ?thesis using p by blast
qed

lemma dp_run: "(prop_next ledger_token (\<lambda>w. w) 50 ^^ 4) (prop_empty, dw0) dp4"
proof -
  have c: "calm 50 (demo_env t [1])" "calm 50 (demo_env t [2])" "calm 50 (demo_env t [9])" for t
    by (simp_all add: calm_def demo_env_def)
  have "prop_next ledger_token (\<lambda>w. w) 50 (prop_empty, dw0) dp1"
    unfolding prop_next_def using c(1) prop_step.initialize [OF dp_eval(1)] by blast
  moreover have "prop_next ledger_token (\<lambda>w. w) 50 dp1 dp2"
    unfolding prop_next_def using c(3) prop_step.create [OF dp_eval(2)] by blast
  moreover have "prop_next ledger_token (\<lambda>w. w) 50 dp2 dp3"
    unfolding prop_next_def using c(1) prop_step.approve [OF dp_eval(3)] by blast
  moreover have "prop_next ledger_token (\<lambda>w. w) 50 dp3 dp4"
    unfolding prop_next_def using c(2) prop_step.approve [OF dp_eval(4)] by blast
  ultimately show ?thesis by (auto simp: eval_nat_numeral)
qed

lemma dp_inv: "prop_inv 50 (fst dp4)" "prop_used (fst dp4) \<le> 4"
  using prop_run [of 4 ledger_token "\<lambda>w. w" 50 prop_empty dw0 "fst dp4" "snd dp4"] dp_run
  by (simp_all add: prop_inv_empty int_limits)

text \<open>A second run: proposal 1 executes, then proposal 2 is created on top of it, and 1 is pruned.\<close>

definition dchild :: create_args where
  "dchild = dargs\<lparr>ca_dependencies := [1], ca_deposit := [], ca_expires_at := 0\<rparr>"

definition dq5 where "dq5 = commit dp4 (prop_execute ledger_token dmsig (demo_env 1102 [9]) 9 1 dp4)"
definition dq6 where "dq6 = commit dq5 (prop_create ledger_token dmsig (demo_env 1200 [9]) 9 dchild dq5)"
definition dq7 where "dq7 = commit dq6 (prune_expired ledger_token (demo_env 6000 []) 1 dq6)"

lemma dq_eval:
  "prop_execute ledger_token dmsig (demo_env 1102 [9]) 9 1 dp4 = Ok ((), dq5)"
  "prop_create ledger_token dmsig (demo_env 1200 [9]) 9 dchild dq5 = Ok (2, dq6)"
  "prune_expired ledger_token (demo_env 6000 []) 1 dq6 = Ok ((), dq7)"
  "\<exists>p. ps_proposals (fst dq6) 2 = Some p \<and> pr_dependencies p = [1]"
  "\<exists>p. ps_proposals (fst dq7) 2 = Some p \<and> pr_state p = PsPending"
  by (simp_all add: dq7_def dq6_def dq5_def dp4_def dp3_def dp2_def dp1_def prop_eval exec_eval dchild_def
      prune_expired_def deposit_settled_def purge_proposal_def)

lemma demo_calm: "calm 50 (demo_env t [1])" "calm 50 (demo_env t [2])" "calm 50 (demo_env t [9])" "calm 50 (demo_env t [])"
  by (simp_all add: calm_def demo_env_def)

lemma dq_run: "(prop_next ledger_token (\<lambda>w. w) 50 ^^ 6) (prop_empty, dw0) dq6"
proof -
  have "prop_next ledger_token (\<lambda>w. w) 50 dp4 dq5"
    unfolding prop_next_def using demo_calm(3) prop_step.execute [OF dq_eval(1)] by blast
  moreover have "prop_next ledger_token (\<lambda>w. w) 50 dq5 dq6"
    unfolding prop_next_def using demo_calm(3) prop_step.create [OF dq_eval(2)] by blast
  ultimately have "(prop_next ledger_token (\<lambda>w. w) 50 ^^ Suc (Suc 4)) (prop_empty, dw0) dq6"
    by (rule relpowp_Suc_I [OF relpowp_Suc_I [OF dp_run]])
  then show ?thesis by simp
qed

text \<open>And a third: approved proposal 1 is declared failed.\<close>

definition dp5 where "dp5 = commit dp4 (prop_fail ledger_token (demo_env 1200 [9]) 9 1 dp4)"

lemma dp5_eval:
  "prop_fail ledger_token (demo_env 1200 [9]) 9 1 dp4 = Ok ((), dp5)"
  "\<exists>p. ps_proposals (fst dp5) 1 = Some p \<and> pr_state p = PsFailed \<and> held_at p 8 = 40"
  by (simp_all add: dp5_def dp4_def dp3_def dp2_def dp1_def prop_eval prop_fail_def held_at_def
      deposit_settled_def)

section \<open>Properties\<close>

definition legal_change :: "env \<Rightarrow> proposal option \<Rightarrow> proposal option \<Rightarrow> bool" where
  "legal_change env old new =
     (case (old, new) of
        (None, None) \<Rightarrow> True
      | (None, Some q) \<Rightarrow> pr_state q = PsPending
      | (Some p, Some q) \<Rightarrow>
          same_terms p q \<and> (pr_state q = pr_state p \<or> may_transition (pr_state p) (pr_state q))
      | (Some p, None) \<Rightarrow> pr_is_expired env p \<and> pr_state p \<noteq> PsFailed)"

lemma same_terms_refl [simp]: "same_terms p p"
  by (simp add: same_terms_def)

lemma lc_move_legal:
  assumes "lc_move tk env (st, w) (st', w')" and "prop_inv self st" and "prop_used st < u64_max"
  shows "legal_change env (ps_proposals st pid) (ps_proposals st' pid)"
proof -
  have same: "legal_change env x x" for x by (cases x) (simp_all add: legal_change_def)
  show ?thesis using assms(1)
  proof (cases rule: lc_move.cases)
    case (create n i p)
    then have "ps_proposals st i = None"
      using fresh_id [OF assms(2)] assms(3) by (auto simp: prop_used_def)
    then show ?thesis using create same by (auto simp: legal_change_def new_proposal_ok_def)
  qed (use same in \<open>auto simp: legal_change_def deposit_settled_def\<close>)
qed

text \<open>What a pruning run may do to one proposal.\<close>

definition prune_change :: "env \<Rightarrow> proposal option \<Rightarrow> proposal option \<Rightarrow> bool" where
  "prune_change env old new \<longleftrightarrow>
     new = old \<or>
     (\<exists>p. old = Some p \<and> is_live (pr_state p) \<and> new = Some (p\<lparr>pr_state := PsExpired\<rparr>)) \<or>
     (\<exists>p. old = Some p \<and> new = None \<and> pr_is_expired env p \<and> pr_state p \<noteq> PsFailed)"

lemma prune_change_trans:
  "prune_change env a b \<Longrightarrow> prune_change env b c \<Longrightarrow> prune_change env a c"
  by (cases a; cases b) (auto simp: prune_change_def is_live_def pr_is_expired_def)

lemma lc_prunes_change:
  "(lc_prune tk env)\<^sup>*\<^sup>* s t \<Longrightarrow>
     prune_change env (ps_proposals (fst s) pid) (ps_proposals (fst t) pid)"
proof (induction rule: rtranclp_induct)
  case base
  then show ?case by (simp add: prune_change_def)
next
  case (step t r)
  have "prune_change env (ps_proposals (fst t) pid) (ps_proposals (fst r) pid)"
    using step(2) by (cases rule: lc_prune.cases) (auto simp: prune_change_def deposit_settled_def)
  with step(3) show ?case by (rule prune_change_trans)
qed

lemma prop_step_legal:
  assumes "prop_step tk msig env (st, w) (st', w')" and "prop_inv self st" and "prop_used st < u64_max"
  shows "legal_change env (ps_proposals st pid) (ps_proposals st' pid)"
  using step_cases [OF assms(1)]
proof
  assume "lc_move tk env (st, w) (st', w')"
  then show ?thesis using assms(2,3) by (rule lc_move_legal)
next
  assume "(lc_prune tk env)\<^sup>*\<^sup>* (st, w) (st', w')"
  from lc_prunes_change [OF this, of pid] show ?thesis
    by (cases "ps_proposals st pid")
       (auto simp: prune_change_def legal_change_def is_live_def same_terms_def)
qed

text \<open>Identifiers are never reused: what a later state holds under an old id is the old proposal.\<close>

definition persists :: "prop_state \<Rightarrow> prop_state \<Rightarrow> bool" where
  "persists st st' \<longleftrightarrow> prop_used st \<le> prop_used st' \<and>
     (\<forall>pid q. pid \<le> prop_used st \<and> ps_proposals st' pid = Some q \<longrightarrow>
        (\<exists>p. ps_proposals st pid = Some p \<and> same_terms p q)) \<and>
     (\<forall>pid p. ps_proposals st pid = Some p \<and> pr_state p = PsFailed \<longrightarrow>
        (\<exists>q. ps_proposals st' pid = Some q \<and> same_terms p q \<and> pr_state q = PsFailed))"

lemma same_terms_trans: "same_terms p q \<Longrightarrow> same_terms q r \<Longrightarrow> same_terms p r"
  by (simp add: same_terms_def)

lemma persists_trans: "persists a b \<Longrightarrow> persists b c \<Longrightarrow> persists a c"
  unfolding persists_def by (meson order_trans same_terms_trans)

lemma may_transition_failed [simp]: "\<not> may_transition PsFailed s"
  by (cases s) auto

lemma lc_move_persists:
  assumes "lc_move tk env (st, w) (st', w')" and "prop_inv self st" and "prop_used st < u64_max"
  shows "persists st st'"
  using assms(1)
proof (cases rule: lc_move.cases)
  case (create n i p)
  then have "ps_proposals st (Suc n) = None" and i: "i = Suc n"
    using fresh_id [OF assms(2)] assms(3) by (auto simp: prop_used_def)
  then show ?thesis using create(1,5,6) by (auto simp: persists_def prop_used_def)
qed (auto simp: persists_def prop_used_def deposit_settled_def)

lemma lc_prunes_persist:
  assumes "(lc_prune tk env)\<^sup>*\<^sup>* s t"
  shows "persists (fst s) (fst t)"
  using assms
proof (induction rule: rtranclp_induct)
  case base
  then show ?case by (auto simp: persists_def)
next
  case (step t r)
  have "persists (fst t) (fst r)" using step(2)
    by (cases rule: lc_prune.cases)
       (auto simp: persists_def prop_used_def deposit_settled_def is_live_def same_terms_def)
  with step(3) show ?case by (rule persists_trans)
qed

lemma prop_next_persists:
  assumes "prop_next tk bal self (st, w) (st', w')" and "prop_inv self st" and "prop_used st < u64_max"
  shows "persists st st'"
proof (cases "st' = st")
  case True
  then show ?thesis by (auto simp: persists_def)
next
  case False
  then obtain msig env where "prop_step tk msig env (st, w) (st', w')"
    using assms(1) by (auto simp: prop_next_def)
  from step_cases [OF this] show ?thesis
    using lc_move_persists assms(2,3) lc_prunes_persist by fastforce
qed

lemma prop_run_persists:
  "(prop_next tk bal self ^^ n) (st, w) (st', w') \<Longrightarrow> prop_inv self st \<Longrightarrow> prop_used st + n \<le> u64_max \<Longrightarrow>
     persists st st'"
proof (induction n arbitrary: st' w')
  case 0
  then show ?case by (auto simp: persists_def)
next
  case (Suc n)
  from Suc.prems(1) obtain sm wm where run: "(prop_next tk bal self ^^ n) (st, w) (sm, wm)"
    and step: "prop_next tk bal self (sm, wm) (st', w')" by (rule relpowp_Suc_E) auto
  have sm: "prop_inv self sm" "prop_used sm < u64_max"
    using prop_run [OF run Suc.prems(2), of 0] Suc.prems(3) by auto
  have "persists sm st'" using prop_next_persists [OF step sm] .
  then show ?case using Suc.IH [OF run Suc.prems(2)] Suc.prems(3) persists_trans by auto
qed

text \<open>A stored deposit is positive, so no single deposit exceeds what is held in total.\<close>

definition deposits_positive :: "prop_state \<Rightarrow> bool" where
  "deposits_positive st \<longleftrightarrow>
     (\<forall>pid p. ps_proposals st pid = Some p \<longrightarrow> (case pr_deposit p of [] \<Rightarrow> True | d # _ \<Rightarrow> 0 < amount d))"

lemma deposits_positive_empty: "deposits_positive prop_empty"
  by (simp add: deposits_positive_def prop_empty_def)

lemma take_deposit_positive: "take_deposit tk env c ds w = Ok w' \<Longrightarrow> case ds of [] \<Rightarrow> True | d # _ \<Rightarrow> 0 < amount d"
  by (auto simp: take_deposit_def ok_simps split: list.splits)

lemma lc_move_deposits_positive: "lc_move tk env s t \<Longrightarrow> deposits_positive (fst s) \<Longrightarrow> deposits_positive (fst t)"
proof (induction rule: lc_move.induct)
  case (create st n pid p w w' st')
  then show ?case using take_deposit_positive [OF create(4)] by (auto simp: deposits_positive_def)
qed (auto simp: deposits_positive_def same_terms_def)

lemma deposits_positive_step:
  assumes "prop_step tk msig env (st, w) (st', w')" and "deposits_positive st"
  shows "deposits_positive st'"
proof -
  have "deposits_positive (fst t)" if "(lc_move tk env)\<^sup>*\<^sup>* (st, w) t" for t
    using that by (induction rule: rtranclp_induct) (use assms(2) lc_move_deposits_positive in auto)
  from this [OF step_moves [OF assms(1)]] show ?thesis by simp
qed

lemma deposits_positive_run:
  "(prop_next tk bal self ^^ n) (st, w) (st', w') \<Longrightarrow> deposits_positive st \<Longrightarrow> deposits_positive st'"
proof (induction n arbitrary: st' w')
  case (Suc n)
  from Suc.prems(1) obtain sm wm where run: "(prop_next tk bal self ^^ n) (st, w) (sm, wm)"
    and step: "prop_next tk bal self (sm, wm) (st', w')" by (rule relpowp_Suc_E) auto
  show ?case using step Suc.IH [OF run Suc.prems(2)] deposits_positive_step by (auto simp: prop_next_def)
qed simp

lemma held_at_le_held:
  assumes "prop_inv self st" and "deposits_positive st" and "ps_proposals st pid = Some p"
  shows "held_at p a \<le> held st a"
proof -
  have "0 \<le> held_at (the (ps_proposals st i)) a" if "i \<in> dom (ps_proposals st)" for i
    using that assms(2) by (fastforce simp: deposits_positive_def held_at_def split: list.splits)
  then show ?thesis unfolding held_def
    using member_le_sum [of pid "dom (ps_proposals st)" "\<lambda>i. held_at (the (ps_proposals st i)) a"] prop_inv_finite [OF assms(1)] assms(3)
    by auto
qed

text \<open>Failing a proposal transfers nothing, and nothing applies to a failed proposal.\<close>

lemma fail_moves_nothing:
  assumes "prop_fail tk env c pid (st, w) = Ok (u, st1, w1)" and "ps_proposals st1 pid = Some p" and "pr_state p = PsFailed"
  shows "w1 = w"
proof -
  from assms(1) obtain p0 due p1 st' w' where l: "ps_proposals st pid = Some p0"
    "expire_if_due tk env pid p0 (st, w) = Ok (due, p1, st', w')"
    by (auto simp: prop_fail_def ok_simps)
  from l(2) show ?thesis
  proof (cases rule: expire_if_dueE)
    case expired
    then show ?thesis using assms l by (auto simp: prop_fail_def ok_simps prop_load_def)
  next
    case same
    then show ?thesis using assms l by (auto simp: prop_fail_def ok_simps prop_load_def split: if_splits)
  qed
qed

lemma failed_is_final:
  assumes "ps_proposals st pid = Some p" and "pr_state p = PsFailed"
  shows "prop_execute tk msig env c pid (st, w) \<noteq> Ok x \<and> prop_cancel tk env c pid (st, w) \<noteq> Ok x \<and>
     prop_reject tk env c pid (st, w) \<noteq> Ok x \<and> prop_expire tk env pid (st, w) \<noteq> Ok x \<and>
     prop_fail tk env c pid (st, w) \<noteq> Ok x \<and> prop_close tk env c pid (st, w) \<noteq> Ok x \<and>
     prune_expired tk env pid (st, w) \<noteq> Ok x \<and> cleanup_expired tk env pid (st, w) \<noteq> Ok x \<and>
     prop_approve tk msig env c pid (st, w) \<noteq> Ok y"
proof -
  have e: "expire_if_due tk env pid p (st, w) = Ok (False, p, st, w)" using assms(2) by (simp add: expire_if_due_def)
  have l: "prop_load st pid = Ok p" using assms(1) by (simp add: prop_load_def ok_simps)
  note f = e l assms(2)
  have "prop_execute tk msig env c pid (st, w) \<noteq> Ok x" by (auto simp: prop_execute_def ok_simps f)
  moreover have "prop_cancel tk env c pid (st, w) \<noteq> Ok x" by (auto simp: prop_cancel_def ok_simps f)
  moreover have "prop_reject tk env c pid (st, w) \<noteq> Ok x" by (auto simp: prop_reject_def ok_simps f)
  moreover have "prop_expire tk env pid (st, w) \<noteq> Ok x" by (auto simp: prop_expire_def ok_simps f)
  moreover have "prop_fail tk env c pid (st, w) \<noteq> Ok x" by (auto simp: prop_fail_def ok_simps f)
  moreover have "prop_close tk env c pid (st, w) \<noteq> Ok x" by (auto simp: prop_close_def ok_simps f)
  moreover have "prune_expired tk env pid (st, w) \<noteq> Ok x" by (auto simp: prune_expired_def ok_simps f deposit_settled_def)
  moreover have "prop_approve tk msig env c pid (st, w) \<noteq> Ok y" by (auto simp: prop_approve_def ok_simps f)
  ultimately show ?thesis by (simp add: cleanup_expired_def)
qed

text \<open>C20. Every transaction of the proposal contract respects the canonical state machine: for
  every proposal, the call leaves it alone, creates it in \<open>Pending\<close>, moves it along one edge of
  \<open>may_transition\<close> without touching its terms (proposer, approvers, threshold, deposit,
  dependencies, deadlines), or removes it after its deadline, never while it is \<open>Failed\<close>.\<close>

theorem proposal_transitions_legal:
  assumes "prop_step tk msig env (st, w) (st', w')" and "prop_inv self st" and "prop_used st < u64_max"
  shows "legal_change env (ps_proposals st pid) (ps_proposals st' pid)"
  using assms by (rule prop_step_legal)

theorem proposal_transitions_legal_witness:
  "\<exists>st' w'. prop_execute ledger_token dmsig (demo_env 1102 [9]) 9 1 dp4 = Ok ((), st', w') \<and>
     legal_change (demo_env 1102 [9]) (ps_proposals (fst dp4) 1) (ps_proposals st' 1)"
proof -
  obtain u st' w' where e: "prop_execute ledger_token dmsig (demo_env 1102 [9]) 9 1 dp4 = Ok (u, st', w')"
    using dp4_proposal(2) by (auto simp: is_ok_iff)
  then have "prop_step ledger_token dmsig (demo_env 1102 [9]) (fst dp4, snd dp4) (st', w')"
    by (intro prop_step.execute) simp
  from proposal_transitions_legal [OF this dp_inv(1)] dp_inv(2) e show ?thesis
    by (simp add: int_limits)
qed

text \<open>C2. Deposits are fully backed: along any run of fewer than 2^64 steps from empty storage,
  in which third parties never take the contract's own tokens, the contract's balance of every
  asset covers what it held at the start plus the deposits of all proposals not yet settled. So no
  deposit is refunded twice and none is paid out of another's money.\<close>

theorem deposits_fully_backed:
  assumes "token_laws tk bal" and "(prop_next tk bal self ^^ n) (prop_empty, w0) (st, w)"
    and "n \<le> u64_max"
  shows "bal w0 a self + held st a \<le> bal w a self"
  using prop_run [OF assms(2) prop_inv_empty(1), of a] assms(1,3) prop_inv_empty(2,3) by simp

theorem deposits_fully_backed_witness:
  "dw0 8 50 + held (fst dp4) 8 \<le> snd dp4 8 50"
  using deposits_fully_backed [OF ledger_token_laws, of 4 50 dw0 "fst dp4" "snd dp4" 8] dp_run
  by (simp add: int_limits)

text \<open>C11. The gates of \<open>execute\<close>: when the linked multisig is in a good state and the token
  accepts the refund, a proposal that is not marked expired executes exactly when its authorized
  proposer asks, it is \<open>Approved\<close> and before its deadline, the approvals of current multisig
  signers reach its threshold and a strict majority of the allow-list, their weight reaches the
  multisig threshold, the time-lock since approval has elapsed, and every prerequisite has
  executed.\<close>

theorem execute_gates_exact:
  assumes "prop_inv self st" and "ps_proposals st pid = Some p" and "pr_state p \<noteq> PsExpired"
    and "ps_multisig st = Some ms" and "msig ms = Some m" and "ms_inv m" and "ms_threshold m = Some thr"
    and "refund tk env p w = Ok w'" and "timestamp env \<le> u64_max"
  shows "is_ok (prop_execute tk msig env caller pid (st, w)) \<longleftrightarrow>
    authorized env caller \<and> caller = pr_proposer p \<and> pr_state p = PsApproved \<and>
    (pr_expires_at p = 0 \<or> timestamp env < pr_expires_at p) \<and>
    pr_threshold p \<le> length (voters m st pid p) \<and>
    length (pr_approvers p) < 2 * length (voters m st pid p) \<and>
    thr \<le> (\<Sum>a\<leftarrow>voters m st pid p. get_signer_weight m a) \<and>
    (prop_timelock_delay st = 0 \<or> pr_approved_at p = 0 \<or>
       pr_approved_at p + prop_timelock_delay st \<le> timestamp env) \<and>
    list_all (\<lambda>d. \<exists>q. ps_proposals st d = Some q \<and> has_executed (pr_state q)) (pr_dependencies p)"
proof -
  have p: "distinct (pr_approvers p)" "length (pr_approvers p) \<le> MAX_APPROVERS"
    using assms(1,2) by (auto simp: prop_inv_def)
  have tally: "live_approval_tally msig pid p st =
      Ok (length (voters m st pid p), \<Sum>a\<leftarrow>voters m st pid p. get_signer_weight m a)"
    using live_approval_tally_eq [of st ms msig m p pid] assms(4-6) p by simp
  have "is_ok (prop_execute tk msig env caller pid (st, w)) \<longleftrightarrow>
      authorized env caller \<and> caller = pr_proposer p \<and> (\<exists>n x. exec_gates msig env pid p st n x)"
    using prop_execute_Ok [OF assms(2,3), of tk msig env caller w] assms(8) by (auto simp: is_ok_iff)
  also have "(\<exists>n x. exec_gates msig env pid p st n x) \<longleftrightarrow> exec_gates msig env pid p st
      (length (voters m st pid p)) (\<Sum>a\<leftarrow>voters m st pid p. get_signer_weight m a)"
    by (auto simp: exec_gates_def tally)
  finally show ?thesis
    using assms(4,5,7)
    by (auto simp: exec_gates_def tally bars_met_iff [OF p(2)]
        require_timelock_elapsed_def require_released_iff [OF assms(9)] first_unmet_None
        pr_is_expired_def)
qed

lemma demo_init_inv: "ms_inv demo_init"
  by (rule initialize_inv [OF demo_veto_eval(3) ms_inv_empty])

theorem execute_gates_exact_witness:
  "\<exists>p. ps_proposals (fst dp4) 1 = Some p \<and> 3 \<le> (\<Sum>a\<leftarrow>voters demo_init (fst dp4) 1 p. get_signer_weight demo_init a)"
proof -
  obtain p w' where p: "ps_proposals (fst dp4) 1 = Some p" "pr_state p = PsApproved"
    "pr_proposer p = 9" and r: "refund ledger_token (demo_env 1102 [9]) p (snd dp4) = Ok w'"
    using dp4_ready by blast
  have m: "ps_multisig (fst dp4) = Some 70" "dmsig 70 = Some demo_init" "ms_threshold demo_init = Some 3"
    "timestamp (demo_env 1102 [9]) \<le> u64_max"
    by (simp_all add: dp4_def dp3_def dp2_def dp1_def prop_eval)
  from execute_gates_exact [of 50 "fst dp4" 1 p 70 dmsig demo_init 3 ledger_token "demo_env 1102 [9]"
      "snd dp4" w' 9] dp_inv(1) p m r demo_init_inv dp4_proposal(2) show ?thesis by simp
qed

text \<open>The \<open>can_execute\<close> view and the entrypoint agree: for a proposal not marked expired whose
  refund the token accepts, the view answers true exactly when the proposer's \<open>execute\<close> succeeds on
  the same ledger.\<close>

theorem can_execute_agrees:
  assumes "ps_proposals st pid = Some p" and "pr_state p \<noteq> PsExpired"
    and "authorized env (pr_proposer p)" and "refund tk env p w = Ok w'"
  shows "(\<exists>t. can_execute_view tk msig env pid (st, w) = Ok (True, t)) \<longleftrightarrow>
    is_ok (prop_execute tk msig env (pr_proposer p) pid (st, w))"
  using can_execute_iff [OF assms(1,2), of tk msig env w]
    prop_execute_Ok [OF assms(1,2), of tk msig env "pr_proposer p" w] assms(3,4)
  by (auto simp: is_ok_iff)

theorem can_execute_agrees_witness:
  "\<exists>t. can_execute_view ledger_token dmsig (demo_env 1102 [9]) 1 dp4 = Ok (True, t)"
proof -
  obtain p w' where p: "ps_proposals (fst dp4) 1 = Some p" "pr_state p = PsApproved"
    "pr_proposer p = 9" and r: "refund ledger_token (demo_env 1102 [9]) p (snd dp4) = Ok w'"
    using dp4_ready by blast
  from can_execute_agrees [OF p(1) _ _ r] p dp4_proposal(2) show ?thesis by (simp add: demo_env_def)
qed

text \<open>C35. The dependency graph is acyclic in every state of a run of fewer than 2^64 steps: every
  prerequisite of a stored proposal has a strictly smaller id, so no chain of prerequisites leads back.\<close>

theorem dependency_graph_acyclic:
  assumes "(prop_next tk bal self ^^ n) (prop_empty, w0) (st, w)" and "n \<le> u64_max"
  shows "(\<forall>pid. case ps_proposals st pid of Some p \<Rightarrow> list_all (\<lambda>d. d < pid) (pr_dependencies p) | None \<Rightarrow> True) \<and>
    acyclic {(pid, d). \<exists>p. ps_proposals st pid = Some p \<and> d \<in> set (pr_dependencies p)}"
proof -
  let ?R = "{(pid, d). \<exists>p. ps_proposals st pid = Some p \<and> d \<in> set (pr_dependencies p)}"
  have i: "prop_inv self st" using prop_run [OF assms(1) prop_inv_empty(1)] assms(2) prop_inv_empty(2) by simp
  then have "?R \<subseteq> {(a, b). b < a}" by (auto simp: prop_inv_def list_all_iff)
  then have "?R\<^sup>+ \<subseteq> {(a, b). b < a}\<^sup>+" by (rule trancl_mono_subset)
  also have "{(a :: nat, b). b < a}\<^sup>+ = {(a, b). b < a}"
    by (rule trancl_id) (auto simp: trans_def)
  finally have "acyclic ?R" by (auto simp: acyclic_def)
  with i show ?thesis by (auto simp: prop_inv_def split: option.split)
qed

theorem dependency_graph_acyclic_witness:
  "acyclic {(pid, d). \<exists>p. ps_proposals (fst dq6) pid = Some p \<and> d \<in> set (pr_dependencies p)} \<and>
   (\<exists>p. ps_proposals (fst dq6) 2 = Some p \<and> pr_dependencies p = [1] \<and> list_all (\<lambda>d. d < 2) (pr_dependencies p))"
proof -
  have "(prop_next ledger_token (\<lambda>w. w) 50 ^^ 6) (prop_empty, dw0) (fst dq6, snd dq6)" using dq_run by simp
  note d = dependency_graph_acyclic [OF this]
  obtain p where p: "ps_proposals (fst dq6) 2 = Some p" "pr_dependencies p = [1]" using dq_eval(4) by blast
  then have "list_all (\<lambda>d. d < 2) (pr_dependencies p)" using d by (auto simp: int_limits dest!: spec [of _ 2])
  then show ?thesis using d p by (auto simp: int_limits)
qed

text \<open>The three vote bars are what the documentation says, with no rounding away and no
  truncation: for an allow-list within \<open>MAX_APPROVERS\<close> the quorum is half of it rounded up and the
  majority is one past half, and a tally meets all bars exactly when it reaches the declared
  threshold and more than half of the allow-list voted for it.\<close>

theorem vote_bars_exact:
  assumes "length (pr_approvers p) \<le> MAX_APPROVERS"
  shows "for_proposal p = \<lparr>vb_threshold = pr_threshold p, vb_quorum = (length (pr_approvers p) + 1) div 2,
      vb_majority = length (pr_approvers p) div 2 + 1\<rparr> \<and>
    (met_by (for_proposal p) n \<longleftrightarrow> pr_threshold p \<le> n \<and> length (pr_approvers p) < 2 * n)"
  using bars_met_iff [OF assms] quorum_half [OF assms]
  by (simp add: for_proposal_def Let_def majority_required_def PROPOSAL_QUORUM_PERCENT_def)

theorem vote_bars_exact_witness:
  "\<exists>p :: proposal. length (pr_approvers p) = 3 \<and> vb_quorum (for_proposal p) = 2 \<and>
     vb_majority (for_proposal p) = 2"
proof -
  obtain p :: proposal where p: "pr_approvers p = [1, 2, 3]" using dp4_proposal(1) by blast
  then have "length (pr_approvers p) \<le> MAX_APPROVERS" by (simp add: limit_defs)
  from vote_bars_exact [OF this] p show ?thesis by (intro exI [of _ p]) simp
qed

text \<open>The time-lock check releases exactly from the inclusive instant \<open>approved_at + delay\<close> on:
  it is open when the delay is disabled or there is no approval stamp, it never wraps into the
  past, and the status view reports the exact number of seconds left.\<close>

theorem timelock_exact:
  assumes "timestamp env \<le> u64_max"
  shows "(require_released env approved_at delay = Ok () \<longleftrightarrow>
      delay = 0 \<or> approved_at = 0 \<or> approved_at + delay \<le> timestamp env) \<and>
    (case time_lock_status_of env approved_at delay of
       Ok s \<Rightarrow> tls_remaining s =
         (if delay = 0 \<or> approved_at = 0 then 0 else approved_at + delay - timestamp env)
     | Err e \<Rightarrow> e = Overflow \<and> u64_max < approved_at + delay
     | Panic \<Rightarrow> False)"
proof
  show "require_released env approved_at delay = Ok () \<longleftrightarrow>
      delay = 0 \<or> approved_at = 0 \<or> approved_at + delay \<le> timestamp env"
    using assms by (rule require_released_iff)
  show "case time_lock_status_of env approved_at delay of
       Ok s \<Rightarrow> tls_remaining s =
         (if delay = 0 \<or> approved_at = 0 then 0 else approved_at + delay - timestamp env)
     | Err e \<Rightarrow> e = Overflow \<and> u64_max < approved_at + delay
     | Panic \<Rightarrow> False"
    by (auto simp: time_lock_status_of_def release_at_def is_armed_def checked_add_def safe_add_def
        try_u64_def in_i128_def int_limits Let_def)
qed

theorem timelock_exact_witness:
  "require_released (demo_env 1102 [9]) 1002 100 = Ok () \<and>
   \<not> require_released (demo_env 1101 [9]) 1002 100 = Ok ()"
  using timelock_exact [of "demo_env 1102 [9]" 1002 100] timelock_exact [of "demo_env 1101 [9]" 1002 100]
  by (simp add: demo_env_def int_limits)

text \<open>C38. Failing an approved proposal strands its deposit. The call that moves a proposal to \<open>Failed\<close> transfers
  nothing. Over any later run, by any callers at any times (fewer than 2^64 steps in all), the proposal stays stored and \<open>Failed\<close> with its terms;
  the contract goes on holding its deposit on top of what it held at the start; and every entrypoint that
  could return the deposit, move the proposal on or remove it fails, whoever calls.\<close>

theorem failed_deposit_stranded:
  assumes "token_laws tk bal" and "(prop_next tk bal self ^^ m) (prop_empty, w0) (st, w)"
    and "prop_fail tk env c pid (st, w) = Ok ((), st1, w1)" and "calm self env"
    and "ps_proposals st1 pid = Some p" and "pr_state p = PsFailed"
    and "(prop_next tk bal self ^^ n) (st1, w1) (st2, w2)" and "m + 1 + n \<le> u64_max"
  shows "w1 = w \<and> (\<exists>q. ps_proposals st2 pid = Some q \<and> same_terms p q \<and> pr_state q = PsFailed) \<and>
     bal w0 a self + held_at p a \<le> bal w2 a self \<and>
     prop_execute tk msig env2 c2 pid (st2, w3) \<noteq> Ok x \<and> prop_cancel tk env2 c2 pid (st2, w3) \<noteq> Ok x \<and>
     prop_reject tk env2 c2 pid (st2, w3) \<noteq> Ok x \<and> prop_expire tk env2 pid (st2, w3) \<noteq> Ok x \<and>
     prop_fail tk env2 c2 pid (st2, w3) \<noteq> Ok x \<and> prop_close tk env2 c2 pid (st2, w3) \<noteq> Ok x \<and>
     prune_expired tk env2 pid (st2, w3) \<noteq> Ok x \<and> cleanup_expired tk env2 pid (st2, w3) \<noteq> Ok x \<and>
     prop_approve tk msig env2 c2 pid (st2, w3) \<noteq> Ok y"
proof -
  note i0 = prop_run [OF assms(2) prop_inv_empty(1)]
  have i: "prop_inv self st" "prop_used st \<le> m" using i0 assms(8) by (simp_all add: prop_inv_empty(2))
  have s: "prop_step tk msig env (st, w) (st1, w1)" by (rule prop_step.fail [OF assms(3)])
  have u: "prop_used st < u64_max" using i(2) assms(8) by simp
  note i1 = prop_step_inv(1,2) [OF s assms(4) i(1) u]
  have u1: "prop_used st1 + n \<le> u64_max" using i1(2) i(2) assms(8) by simp
  have "\<exists>q. ps_proposals st2 pid = Some q \<and> same_terms p q \<and> pr_state q = PsFailed"
    using prop_run_persists [OF assms(7) i1(1) u1] assms(5,6) unfolding persists_def by blast
  then obtain q where q: "ps_proposals st2 pid = Some q" "same_terms p q" "pr_state q = PsFailed" by blast
  have i2: "prop_inv self st2" "bal w1 a self - held st1 a \<le> bal w2 a self - held st2 a"
    using prop_run [OF assms(7) i1(1) u1, of a] assms(1) by auto
  have "bal w0 a self + held st a \<le> bal w a self" using i0 [of a] assms(1,8) prop_inv_empty(2,3) by simp
  then have "bal w0 a self + held st2 a \<le> bal w2 a self"
    using prop_step_inv(3) [OF s assms(4) i(1) u assms(1), of a] i2(2) by linarith
  moreover have "held_at q a \<le> held st2 a"
    by (rule held_at_le_held [OF i2(1) _ q(1)])
       (rule deposits_positive_run [OF assms(7) deposits_positive_step [OF s deposits_positive_run [OF assms(2) deposits_positive_empty]]])
  moreover have "held_at q a = held_at p a" using same_terms_held [OF q(2)] q(3) assms(6) by simp
  ultimately have "bal w0 a self + held_at p a \<le> bal w2 a self" by linarith
  with fail_moves_nothing [OF assms(3,5,6)] q failed_is_final [OF q(1,3)] show ?thesis by simp
qed

theorem failed_deposit_stranded_witness:
  "prop_fail ledger_token (demo_env 1200 [9]) 9 1 dp4 = Ok ((), dp5) \<and> dw0 8 50 + 40 \<le> snd dp5 8 50 \<and>
   (\<forall>x. prop_execute ledger_token dmsig (demo_env 1300 [9]) 9 1 dp5 \<noteq> Ok x \<and>
        prune_expired ledger_token (demo_env 6000 []) 1 dp5 \<noteq> Ok x)"
proof -
  have f: "prop_fail ledger_token (demo_env 1200 [9]) 9 1 (fst dp4, snd dp4) = Ok ((), fst dp5, snd dp5)"
    and r: "(prop_next ledger_token (\<lambda>w. w) 50 ^^ 4) (prop_empty, dw0) (fst dp4, snd dp4)"
    using dp5_eval(1) dp_run by simp_all
  obtain p where p: "ps_proposals (fst dp5) 1 = Some p" "pr_state p = PsFailed" "held_at p 8 = 40" using dp5_eval(2) by blast
  have z: "(prop_next ledger_token (\<lambda>w. w) 50 ^^ 0) (fst dp5, snd dp5) (fst dp5, snd dp5)" by simp
  have n: "4 + 1 + 0 \<le> u64_max" by (simp add: int_limits)
  note d = failed_deposit_stranded [OF ledger_token_laws r f demo_calm(3) p(1,2) z n]
  have "dw0 8 50 + held_at p 8 \<le> snd dp5 8 50" using d [of 8 dmsig "demo_env 0 []" 9 "snd dp5" undefined undefined] by blast
  then have "dw0 8 50 + 40 \<le> snd dp5 8 50" using p(3) by simp
  moreover have "prop_execute ledger_token dmsig (demo_env 1300 [9]) 9 1 dp5 \<noteq> Ok x" for x
    using d [of 8 dmsig "demo_env 1300 [9]" 9 "snd dp5" x undefined] by simp
  moreover have "prune_expired ledger_token (demo_env 6000 []) 1 dp5 \<noteq> Ok x" for x
    using d [of 8 dmsig "demo_env 6000 []" 9 "snd dp5" x undefined] by simp
  ultimately show ?thesis using dp5_eval(1) by blast
qed

text \<open>Pruning an executed prerequisite blocks its dependents for good: once an executed or
  closed proposal past its deadline has been pruned, which anyone may do, a proposal that depends
  on it can never execute in any later state, because the prerequisite is no longer found.\<close>

theorem pruned_prerequisite_blocks:
  assumes "prop_inv self st" and "ps_proposals st pid = Some p" and "d \<in> set (pr_dependencies p)"
    and "prune_expired tk env d (st, w) = Ok (u, st1, w1)" and "calm self env"
    and "(prop_next tk bal self ^^ n) (st1, w1) (st2, w2)" and "prop_used st + 1 + n \<le> u64_max"
    and "ps_proposals st2 pid = Some p2" and "pr_state p2 \<noteq> PsExpired"
  shows "\<not> is_ok (prop_execute tk msig env' caller pid (st2, w3))"
proof -
  have step: "prop_step tk (\<lambda>_. None) env (st, w) (st1, w1)" using prop_step.prune [OF assms(4)] .
  have used: "prop_used st < u64_max" using assms(7) by simp
  have st1: "prop_inv self st1" "prop_used st1 \<le> Suc (prop_used st)"
    using prop_step_inv [OF step assms(5,1) used] by auto
  have gone: "ps_proposals st1 d = None" using assms(4) by (auto simp: prune_expired_def ok_simps)
  have next1: "prop_next tk bal self (st, w) (st1, w1)"
    using step assms(5) by (auto simp: prop_next_def)
  have p1: "persists st st1" using prop_next_persists [OF next1 assms(1) used] .
  have p2: "persists st1 st2" using prop_run_persists [OF assms(6) st1(1)] st1(2) assms(7) by simp
  have le: "pid \<le> prop_used st" "d < pid"
    using assms(1,2,3) by (auto simp: prop_inv_def prop_used_def list_all_iff)
  have "same_terms p p2"
    using persists_trans [OF p1 p2] assms(2,8) le(1) unfolding persists_def by (metis option.inject)
  then have "d \<in> set (pr_dependencies p2)" using assms(3) by (simp add: same_terms_def)
  moreover have "ps_proposals st2 d = None"
  proof (rule ccontr)
    assume "ps_proposals st2 d \<noteq> None"
    moreover have "d \<le> prop_used st1" using le p1 by (simp add: persists_def)
    ultimately show False using p2 gone unfolding persists_def by (metis not_None_eq)
  qed
  ultimately have "first_unmet st2 (pr_dependencies p2) \<noteq> None"
    unfolding first_unmet_None list_all_iff by (metis option.distinct(1))
  then show ?thesis using prop_execute_Ok [OF assms(8,9), of tk msig env' caller w3]
    by (auto simp: is_ok_iff exec_gates_def)
qed

theorem pruned_prerequisite_blocks_witness:
  "prune_expired ledger_token (demo_env 6000 []) 1 dq6 = Ok ((), dq7) \<and>
   \<not> is_ok (prop_execute ledger_token dmsig (demo_env 9000 [9]) 9 2 dq7)"
proof -
  have c: "calm 50 (demo_env t [9])" "calm 50 (demo_env t [])" for t
    by (simp_all add: calm_def demo_env_def)
  have s5: "prop_step ledger_token dmsig (demo_env 1102 [9]) (fst dp4, snd dp4) (fst dq5, snd dq5)"
    using prop_step.execute [OF dq_eval(1)] by simp
  have i5: "prop_inv 50 (fst dq5)" "prop_used (fst dq5) \<le> 5"
    using prop_step_inv [OF s5 c(1)] dp_inv by (auto simp: int_limits)
  have s6: "prop_step ledger_token dmsig (demo_env 1200 [9]) (fst dq5, snd dq5) (fst dq6, snd dq6)"
    using prop_step.create [OF dq_eval(2)] by simp
  have i6: "prop_inv 50 (fst dq6)" "prop_used (fst dq6) \<le> 6"
    using prop_step_inv [OF s6 c(1)] i5 by (auto simp: int_limits)
  obtain p q where p: "ps_proposals (fst dq6) 2 = Some p" "pr_dependencies p = [1]"
    and q: "ps_proposals (fst dq7) 2 = Some q" "pr_state q = PsPending" using dq_eval(4,5) by blast
  have e: "prune_expired ledger_token (demo_env 6000 []) 1 (fst dq6, snd dq6) = Ok ((), fst dq7, snd dq7)"
    using dq_eval(3) by simp
  from pruned_prerequisite_blocks [OF i6(1) p(1) _ e c(2), of 0 "\<lambda>w. w" "fst dq7" "snd dq7" q dmsig
      "demo_env 9000 [9]" 9 "snd dq7"] p(2) q i6(2) dq_eval(3) show ?thesis by (simp add: int_limits)
qed

end
