(* ===== verification/Budget.thy ===== *)
theory Budget
  imports Upgrade
begin

text \<open>
  The budget contract \<^verbatim>\<open>contracts/budget/src/lib.rs\<close>: owner-gated spending envelopes with recurring
  windows, rollover, deficits and per-token allowances. The storage maps budget ids to budgets and
  (id, token) pairs to per-asset allowances. The entrypoints that answer with the narrower
  \<open>BudgetError\<close> convert the shared errors on the way, as the \<open>From\<close> implementation does.
\<close>

section \<open>Records and storage\<close>

datatype period = PeriodNone | PeriodDaily | PeriodWeekly | PeriodMonthly | PeriodCustom

record budget =
  b_owner :: address
  b_limit :: i128
  b_spent :: i128
  b_period :: period
  b_period_seconds :: u64
  b_window_start :: u64
  b_rollover_enabled :: bool
  b_rollover_credit :: i128
  b_rollover_cap :: i128
  b_rollover_max_bps :: i128
  b_rollover_bps :: i128
  b_allow_deficit :: bool
  b_deficit_amount :: i128
  b_expires_at :: u64
  b_state :: resource_state

record asset_spend =
  as_token :: address
  as_amount :: i128

record asset_budget =
  ab_limit :: i128
  ab_spent :: i128
  ab_window_seconds :: u64
  ab_window_start :: u64
  ab_rollover_enabled :: bool
  ab_rollover_credit :: i128
  ab_rollover_bps :: i128
  ab_max_rollover_cap :: i128

record rollover_outcome =
  ro_carry_over :: i128
  ro_periods :: u64
  ro_is_due :: bool

datatype budget_event =
    EvAllocated string address i128
  | EvRecurring string period u64 i128
  | EvRolloverConfig string i128 i128
  | EvReset string
  | EvSetLimit string i128
  | EvFrozen string
  | EvUnfrozen string
  | EvArchived string
  | EvRealloc string string i128
  | EvSetAsset string address i128
  | EvAssetRollover string address i128 i128
  | EvAssetSpend string address i128
  | EvTransition symbol string i128
  | EvBudgetUpdated string symbol i128
  | EvAssetReset string address i128
  | EvConsumed string i128 i128

record budget_state =
  bs_admin :: "address option"
  bs_budgets :: "string \<Rightarrow> budget option"
  bs_assets :: "string \<times> address \<Rightarrow> asset_budget option"
  bs_events :: "budget_event list"

definition budget_empty :: budget_state where
  "budget_empty = \<lparr>bs_admin = None, bs_budgets = Map.empty, bs_assets = Map.empty, bs_events = []\<rparr>"

definition bs_emit :: "budget_event \<Rightarrow> budget_state \<Rightarrow> budget_state" where
  "bs_emit e st = st\<lparr>bs_events := bs_events st @ [e]\<rparr>"

text \<open>The saturating \<open>i128\<close> operations.\<close>

definition sat_i128 :: "int \<Rightarrow> i128" where
  "sat_i128 x = max i128_min (min i128_max x)"

definition sat_mul_u64 :: "u64 \<Rightarrow> u64 \<Rightarrow> u64" where
  "sat_mul_u64 a b = min (a * b) u64_max"

section \<open>Internal helpers\<close>

definition budget_load :: "budget_state \<Rightarrow> string \<Rightarrow> budget res" where
  "budget_load st bid = ok_or (bs_budgets st bid) NotFound"

definition budget_store :: "string \<Rightarrow> budget \<Rightarrow> budget_state \<Rightarrow> budget_state" where
  "budget_store bid b st = st\<lparr>bs_budgets := (bs_budgets st)(bid \<mapsto> b)\<rparr>"

definition require_owner :: "env \<Rightarrow> budget_state \<Rightarrow> string \<Rightarrow> address \<Rightarrow> budget res" where
  "require_owner env st bid caller =
     rbind (require_auth env caller) (\<lambda>_.
     rbind (budget_load st bid) (\<lambda>b.
     if b_owner b \<noteq> caller then Err Unauthorized else Ok b))"

definition require_valid_limit :: "i128 \<Rightarrow> unit res" where
  "require_valid_limit limit = require_non_negative_amount limit"

definition require_not_archived :: "budget \<Rightarrow> unit res" where
  "require_not_archived b = (if b_state b = Archived then Err BudgetArchived else Ok ())"

definition require_active :: "budget \<Rightarrow> unit res" where
  "require_active b =
     (case b_state b of Active \<Rightarrow> Ok () | Frozen \<Rightarrow> Err BudgetFrozen | Paused \<Rightarrow> Err BudgetFrozen
      | Archived \<Rightarrow> Err BudgetArchived)"

definition budget_not_expired :: "env \<Rightarrow> budget \<Rightarrow> unit res" where
  "budget_not_expired env b =
     (if b_expires_at b \<noteq> 0 \<and> timestamp env \<ge> b_expires_at b then Err BudgetExpired else Ok ())"

definition require_started :: "env \<Rightarrow> budget \<Rightarrow> (budget_error, unit) result" where
  "require_started env b = (if timestamp env < b_window_start b then Err BE_BudgetNotActive else Ok ())"

definition effective_remaining :: "budget \<Rightarrow> i128 res" where
  "effective_remaining b =
     rbind (checked_add (b_limit b) (b_rollover_credit b)) (\<lambda>capacity.
     if b_allow_deficit b \<and> b_deficit_amount b > 0
     then rbind (checked_sub capacity (b_deficit_amount b)) (\<lambda>net. checked_sub net (b_spent b))
     else checked_sub capacity (b_spent b))"

definition window_of :: "period \<Rightarrow> u64 \<Rightarrow> u64 option" where
  "window_of p secs =
     (case p of PeriodNone \<Rightarrow> None
      | PeriodDaily \<Rightarrow> Some SECONDS_PER_DAY
      | PeriodWeekly \<Rightarrow> Some SECONDS_PER_WEEK
      | PeriodMonthly \<Rightarrow> Some SECONDS_PER_MONTH
      | PeriodCustom \<Rightarrow> if secs = 0 then None else Some secs)"

definition apply_cap :: "i128 \<Rightarrow> i128 \<Rightarrow> i128" where
  "apply_cap credit cap = (if cap \<noteq> 0 \<and> credit > cap then cap else credit)"

definition percentage_of_limit :: "i128 \<Rightarrow> i128 \<Rightarrow> i128 res" where
  "percentage_of_limit limit bps =
     (if bps = 0 then Ok 0
      else rbind (checked_div limit BPS_DENOMINATOR) (\<lambda>q.
           rbind (checked_rem limit BPS_DENOMINATOR) (\<lambda>r.
           rbind (checked_mul q bps) (\<lambda>whole.
           rbind (rbind (checked_mul r bps) (\<lambda>x. checked_div x BPS_DENOMINATOR)) (\<lambda>part.
           checked_add whole part)))))"

definition effective_rollover_cap :: "budget \<Rightarrow> i128 res" where
  "effective_rollover_cap b =
     rbind (percentage_of_limit (b_limit b) (b_rollover_max_bps b)) (\<lambda>pct_cap.
     Ok (if b_rollover_cap b = 0 then pct_cap
         else if pct_cap = 0 then b_rollover_cap b
         else min (b_rollover_cap b) pct_cap))"

definition is_window_expired :: "budget \<Rightarrow> u64 \<Rightarrow> bool res" where
  "is_window_expired b now =
     (case window_of (b_period b) (b_period_seconds b) of
        None \<Rightarrow> Ok False
      | Some window \<Rightarrow>
          rbind (ok_or (checked_add_word u64_max (b_window_start b) window) Overflow) (\<lambda>e.
          Ok (now \<ge> e)))"

definition accrue_idle_periods :: "i128 \<Rightarrow> budget \<Rightarrow> i128 \<Rightarrow> i128 res" where
  "accrue_idle_periods credit b idle =
     (if b_rollover_cap b \<noteq> 0 then Ok (sat_i128 (credit + sat_i128 (b_limit b * idle)))
      else rbind (checked_mul (b_limit b) idle) (\<lambda>x. checked_add credit x))"

definition calculate_rollover :: "budget \<Rightarrow> u64 \<Rightarrow> rollover_outcome res" where
  "calculate_rollover b now =
     (case window_of (b_period b) (b_period_seconds b) of
        None \<Rightarrow> Ok \<lparr>ro_carry_over = b_rollover_credit b, ro_periods = 0, ro_is_due = False\<rparr>
      | Some window \<Rightarrow>
          rbind (is_window_expired b now) (\<lambda>is_due.
          if \<not> is_due
          then Ok \<lparr>ro_carry_over = b_rollover_credit b, ro_periods = 0, ro_is_due = False\<rparr>
          else let elapsed = now - b_window_start b; periods = elapsed div window in
               rbind (checked_add (b_limit b) (b_rollover_credit b)) (\<lambda>capacity.
               rbind (checked_sub capacity (b_spent b)) (\<lambda>leftover.
               rbind (if b_allow_deficit b \<and> b_spent b > capacity
                      then checked_sub capacity (b_spent b)
                      else if b_rollover_enabled b
                      then let unspent = (if leftover > 0 then leftover else 0) in
                           rbind (effective_rollover_cap b) (\<lambda>cap.
                           rbind (calculate_budget_rollover unspent (b_rollover_bps b) cap) (\<lambda>credit.
                           if periods > 1
                           then rbind (checked_sub (int periods) 1) (\<lambda>idle.
                                rbind (accrue_idle_periods credit b idle) (\<lambda>credit'.
                                Ok (apply_cap credit' cap)))
                           else Ok credit))
                      else Ok 0) (\<lambda>carry.
               Ok \<lparr>ro_carry_over = carry, ro_periods = as_u64 (int periods), ro_is_due = True\<rparr>)))))"

text \<open>The transition hook. An \<open>expired\<close> event it publishes is rolled back with the error.\<close>

definition window_transition ::
  "env \<Rightarrow> string \<Rightarrow> bool \<Rightarrow> budget \<Rightarrow> budget_state \<Rightarrow> (budget \<times> budget_state) res" where
  "window_transition env bid publish b st =
     (let now = timestamp env in
      if b_expires_at b \<noteq> 0 \<and> now \<ge> b_expires_at b then Err BudgetExpired
      else rbind (calculate_rollover b now) (\<lambda>outcome.
           if \<not> ro_is_due outcome then Ok (b, st)
           else rbind (ok_or (window_of (b_period b) (b_period_seconds b)) InvalidInput) (\<lambda>window.
                rbind (checked_add (b_limit b) (b_rollover_credit b)) (\<lambda>capacity.
                let spent = b_spent b; went_into_deficit = (b_allow_deficit b \<and> spent > capacity) in
                rbind (if went_into_deficit
                       then rbind (checked_sub spent capacity) (\<lambda>d. checked_add (b_deficit_amount b) d)
                       else Ok (b_deficit_amount b)) (\<lambda>deficit.
                let b' = b\<lparr>b_rollover_credit := (if went_into_deficit then 0 else ro_carry_over outcome),
                           b_deficit_amount := deficit, b_spent := 0,
                           b_window_start := sat_add_u64 (b_window_start b)
                             (sat_mul_u64 (ro_periods outcome) window)\<rparr> in
                if \<not> publish then Ok (b', st)
                else let action = (if went_into_deficit then ''deficit''
                                   else if b_rollover_enabled b' then ''rollover'' else ''reset'') in
                     rbind (if went_into_deficit then checked_sub spent capacity
                            else checked_sub capacity spent) (\<lambda>amt.
                     rbind (checked_sub capacity spent) (\<lambda>amt2.
                     Ok (b', bs_emit (EvBudgetUpdated bid action amt2)
                               (bs_emit (EvTransition action bid amt) st)))))))))"

definition emit_asset_reset :: "string \<Rightarrow> address \<Rightarrow> i128 \<Rightarrow> budget_state \<Rightarrow> budget_state" where
  "emit_asset_reset bid token limit st =
     bs_emit (EvBudgetUpdated bid ''asset_reset'' limit) (bs_emit (EvAssetReset bid token limit) st)"

definition asset_window_transition ::
  "env \<Rightarrow> string \<Rightarrow> address \<Rightarrow> bool \<Rightarrow> asset_budget \<Rightarrow> budget_state \<Rightarrow> asset_budget \<times> budget_state" where
  "asset_window_transition env bid token publish ab st =
     (if ab_window_seconds ab = 0 then (ab, st)
      else let elapsed = timestamp env - ab_window_start ab in
           if elapsed < ab_window_seconds ab then (ab, st)
           else let periods = elapsed div ab_window_seconds ab;
                    credit = (if ab_rollover_enabled ab
                              then let capacity = (case checked_add (ab_limit ab) (ab_rollover_credit ab) of
                                                     Ok c \<Rightarrow> c | _ \<Rightarrow> ab_limit ab);
                                       unspent = max (sat_i128 (capacity - ab_spent ab)) 0 in
                                   (case calculate_budget_rollover unspent (ab_rollover_bps ab)
                                           (ab_max_rollover_cap ab) of Ok c \<Rightarrow> c | _ \<Rightarrow> 0)
                              else 0);
                    ab' = ab\<lparr>ab_rollover_credit := credit, ab_spent := 0,
                             ab_window_start := sat_add_u64 (ab_window_start ab)
                               (sat_mul_u64 periods (ab_window_seconds ab))\<rparr>;
                    st1 = st\<lparr>bs_assets := (bs_assets st)((bid, token) \<mapsto> ab')\<rparr> in
                (ab', if publish
                      then emit_asset_reset bid token
                             (if ab_rollover_enabled ab'
                              then sat_i128 (ab_limit ab' + ab_rollover_credit ab') else ab_limit ab') st1
                      else st1))"

section \<open>Entrypoints\<close>

definition budget_initialize :: "address \<Rightarrow> budget_state \<Rightarrow> (unit \<times> budget_state) res" where
  "budget_initialize admin st =
     (if bs_admin st \<noteq> None then Err AlreadyInitialized else Ok ((), st\<lparr>bs_admin := Some admin\<rparr>))"

definition allocate_internal ::
  "env \<Rightarrow> address \<Rightarrow> string \<Rightarrow> i128 \<Rightarrow> period \<Rightarrow> bool \<Rightarrow> i128 \<Rightarrow> i128 \<Rightarrow> bool \<Rightarrow> u64 \<Rightarrow> u64 \<Rightarrow> budget_state
     \<Rightarrow> (unit \<times> budget_state) res" where
  "allocate_internal env owner bid limit per rollover_enabled rollover_bps rollover_cap allow_deficit
       start_at expires_at st =
     rbind (require_auth env owner) (\<lambda>_.
     rbind (require_non_empty bid) (\<lambda>_.
     rbind (require_valid_limit limit) (\<lambda>_.
     rbind (require_valid_limit rollover_cap) (\<lambda>_.
     rbind (require_valid_limit rollover_bps) (\<lambda>_.
     if rollover_bps > BPS_DENOMINATOR then Err InvalidInput
     else if expires_at \<noteq> 0 \<and> (expires_at \<le> timestamp env \<or> expires_at \<le> start_at) then Err InvalidInput
     else if allow_deficit \<and> window_of per 0 = None then Err InvalidInput
     else if bs_budgets st bid \<noteq> None then Err AlreadyExists
     else let b = \<lparr>b_owner = owner, b_limit = limit, b_spent = 0, b_period = per,
                   b_period_seconds = 0, b_window_start = start_at,
                   b_rollover_enabled = rollover_enabled, b_rollover_credit = 0,
                   b_rollover_cap = rollover_cap, b_rollover_max_bps = 0,
                   b_rollover_bps = rollover_bps, b_allow_deficit = allow_deficit,
                   b_deficit_amount = 0, b_expires_at = expires_at, b_state = Active\<rparr> in
          Ok ((), bs_emit (EvAllocated bid owner limit) (budget_store bid b st)))))))"

definition allocate_at ::
  "env \<Rightarrow> address \<Rightarrow> string \<Rightarrow> i128 \<Rightarrow> period \<Rightarrow> bool \<Rightarrow> bool \<Rightarrow> u64 \<Rightarrow> u64 \<Rightarrow> budget_state
     \<Rightarrow> (unit \<times> budget_state) res" where
  "allocate_at env owner bid limit per rollover_enabled allow_deficit start_at expires_at st =
     (let rollover_bps = (if rollover_enabled then BPS_DENOMINATOR else 0) in
      allocate_internal env owner bid limit per rollover_enabled rollover_bps 0 allow_deficit
        start_at expires_at st)"

definition allocate_with_deficit ::
  "env \<Rightarrow> address \<Rightarrow> string \<Rightarrow> i128 \<Rightarrow> period \<Rightarrow> bool \<Rightarrow> bool \<Rightarrow> u64 \<Rightarrow> budget_state
     \<Rightarrow> (unit \<times> budget_state) res" where
  "allocate_with_deficit env owner bid limit per rollover_enabled allow_deficit expires_at st =
     allocate_at env owner bid limit per rollover_enabled allow_deficit (timestamp env) expires_at st"

definition allocate ::
  "env \<Rightarrow> address \<Rightarrow> string \<Rightarrow> i128 \<Rightarrow> period \<Rightarrow> bool \<Rightarrow> u64 \<Rightarrow> budget_state
     \<Rightarrow> (unit \<times> budget_state) res" where
  "allocate env owner bid limit per rollover_enabled expires_at st =
     allocate_with_deficit env owner bid limit per rollover_enabled False expires_at st"

definition allocate_scheduled ::
  "env \<Rightarrow> address \<Rightarrow> string \<Rightarrow> i128 \<Rightarrow> period \<Rightarrow> bool \<Rightarrow> u64 \<Rightarrow> u64 \<Rightarrow> budget_state
     \<Rightarrow> (unit \<times> budget_state) res" where
  "allocate_scheduled env owner bid limit per rollover_enabled start_at expires_at st =
     allocate_at env owner bid limit per rollover_enabled False start_at expires_at st"

definition allocate_with_rollover ::
  "env \<Rightarrow> address \<Rightarrow> string \<Rightarrow> i128 \<Rightarrow> period \<Rightarrow> bool \<Rightarrow> i128 \<Rightarrow> i128 \<Rightarrow> u64 \<Rightarrow> budget_state
     \<Rightarrow> (unit \<times> budget_state) res" where
  "allocate_with_rollover env owner bid limit per rollover_enabled rollover_bps max_rollover_cap
       expires_at st =
     rbind (require_valid_limit max_rollover_cap) (\<lambda>_.
     rbind (require_valid_limit rollover_bps) (\<lambda>_.
     if rollover_bps > BPS_DENOMINATOR then Err InvalidInput
     else allocate_internal env owner bid limit per rollover_enabled rollover_bps max_rollover_cap
            False (timestamp env) expires_at st))"

text \<open>The credit under a new policy: dropped without rollover, otherwise clamped.\<close>

definition reclamp :: "budget \<Rightarrow> budget res" where
  "reclamp b =
     (if \<not> b_rollover_enabled b then Ok (b\<lparr>b_rollover_credit := 0\<rparr>)
      else if b_rollover_credit b > 0
      then rbind (effective_rollover_cap b) (\<lambda>cap.
           Ok (b\<lparr>b_rollover_credit := apply_cap (b_rollover_credit b) cap\<rparr>))
      else Ok b)"

definition set_recurrence ::
  "env \<Rightarrow> address \<Rightarrow> string \<Rightarrow> period \<Rightarrow> u64 \<Rightarrow> bool \<Rightarrow> i128 \<Rightarrow> i128 \<Rightarrow> budget_state
     \<Rightarrow> (unit \<times> budget_state) res" where
  "set_recurrence env caller bid per period_seconds rollover_enabled rollover_cap rollover_max_bps st =
     rbind (require_valid_limit rollover_cap) (\<lambda>_.
     rbind (require_valid_limit rollover_max_bps) (\<lambda>_.
     if rollover_max_bps \<ge> BPS_DENOMINATOR then Err InvalidInput
     else if per = PeriodCustom \<and> period_seconds = 0 then Err InvalidInput
     else rbind (require_owner env st bid caller) (\<lambda>b.
          rbind (require_active b) (\<lambda>_.
          let now = timestamp env; scheduled_for_future = (now < b_window_start b) in
          rbind (if scheduled_for_future
                 then rbind (budget_not_expired env b) (\<lambda>_. Ok (b, st))
                 else window_transition env bid True b st) (\<lambda>(b1, st1).
          let b2 = b1\<lparr>b_period := per,
                      b_period_seconds := (if per = PeriodCustom then period_seconds else 0),
                      b_rollover_enabled := rollover_enabled, b_rollover_cap := rollover_cap,
                      b_rollover_max_bps := rollover_max_bps,
                      b_rollover_bps := (if rollover_enabled \<and> b_rollover_bps b1 = 0 then BPS_DENOMINATOR
                                         else if \<not> rollover_enabled then 0 else b_rollover_bps b1)\<rparr> in
          rbind (reclamp b2) (\<lambda>b3.
          let b4 = (if \<not> scheduled_for_future then b3\<lparr>b_window_start := now\<rparr> else b3) in
          Ok ((), bs_emit (EvRecurring bid per period_seconds rollover_cap) (budget_store bid b4 st1))))))))"

definition set_rollover_config ::
  "env \<Rightarrow> address \<Rightarrow> string \<Rightarrow> bool \<Rightarrow> i128 \<Rightarrow> i128 \<Rightarrow> budget_state \<Rightarrow> (unit \<times> budget_state) res" where
  "set_rollover_config env caller bid rollover_enabled rollover_bps max_rollover_cap st =
     rbind (require_valid_limit max_rollover_cap) (\<lambda>_.
     rbind (require_valid_limit rollover_bps) (\<lambda>_.
     if rollover_bps > BPS_DENOMINATOR then Err InvalidInput
     else rbind (require_owner env st bid caller) (\<lambda>b.
          rbind (require_active b) (\<lambda>_.
          rbind (budget_not_expired env b) (\<lambda>_.
          rbind (window_transition env bid True b st) (\<lambda>(b1, st1).
          rbind (reclamp (b1\<lparr>b_rollover_enabled := rollover_enabled, b_rollover_bps := rollover_bps,
                            b_rollover_cap := max_rollover_cap\<rparr>)) (\<lambda>b2.
          Ok ((), bs_emit (EvRolloverConfig bid rollover_bps max_rollover_cap)
                    (budget_store bid b2 st1)))))))))"

definition reset :: "env \<Rightarrow> address \<Rightarrow> string \<Rightarrow> budget_state \<Rightarrow> (unit \<times> budget_state) res" where
  "reset env caller bid st =
     rbind (require_owner env st bid caller) (\<lambda>b.
     rbind (require_not_archived b) (\<lambda>_.
     rbind (map_err error_of_budget (require_started env b)) (\<lambda>_.
     rbind (budget_not_expired env b) (\<lambda>_.
     Ok ((), bs_emit (EvReset bid) (budget_store bid
          (b\<lparr>b_spent := 0, b_rollover_credit := 0, b_window_start := timestamp env\<rparr>) st))))))"

definition rollover :: "env \<Rightarrow> address \<Rightarrow> string \<Rightarrow> budget_state \<Rightarrow> (unit \<times> budget_state) res" where
  "rollover env caller bid st =
     rbind (require_owner env st bid caller) (\<lambda>b.
     rbind (require_not_archived b) (\<lambda>_.
     rbind (window_transition env bid True b st) (\<lambda>(b1, st1).
     Ok ((), budget_store bid b1 st1))))"

definition set_limit :: "env \<Rightarrow> address \<Rightarrow> string \<Rightarrow> i128 \<Rightarrow> budget_state \<Rightarrow> (unit \<times> budget_state) res" where
  "set_limit env caller bid new_limit st =
     rbind (require_valid_limit new_limit) (\<lambda>_.
     rbind (require_owner env st bid caller) (\<lambda>b.
     rbind (require_not_archived b) (\<lambda>_.
     rbind (window_transition env bid True b st) (\<lambda>(b1, st1).
     if new_limit < b_spent b1 then Err InvalidInput
     else Ok ((), bs_emit (EvSetLimit bid new_limit)
                    (budget_store bid (b1\<lparr>b_limit := new_limit\<rparr>) st1))))))"

definition freeze :: "env \<Rightarrow> address \<Rightarrow> string \<Rightarrow> budget_state \<Rightarrow> (unit \<times> budget_state) res" where
  "freeze env caller bid st =
     rbind (require_owner env st bid caller) (\<lambda>b.
     if b_state b = Archived then Err BudgetArchived
     else Ok ((), bs_emit (EvFrozen bid) (budget_store bid (b\<lparr>b_state := Frozen\<rparr>) st)))"

definition unfreeze :: "env \<Rightarrow> address \<Rightarrow> string \<Rightarrow> budget_state \<Rightarrow> (unit \<times> budget_state) res" where
  "unfreeze env caller bid st =
     rbind (require_owner env st bid caller) (\<lambda>b.
     if b_state b \<noteq> Frozen then Err InvalidState
     else Ok ((), bs_emit (EvUnfrozen bid) (budget_store bid (b\<lparr>b_state := Active\<rparr>) st)))"

definition archive :: "env \<Rightarrow> address \<Rightarrow> string \<Rightarrow> budget_state \<Rightarrow> (unit \<times> budget_state) res" where
  "archive env caller bid st =
     rbind (require_owner env st bid caller) (\<lambda>b.
     Ok ((), bs_emit (EvArchived bid) (budget_store bid (b\<lparr>b_state := Archived\<rparr>) st)))"

definition transfer_allocation ::
  "env \<Rightarrow> address \<Rightarrow> string \<Rightarrow> string \<Rightarrow> i128 \<Rightarrow> budget_state \<Rightarrow> (unit \<times> budget_state) res" where
  "transfer_allocation env caller from_id to_id amt st =
     rbind (require_positive_amount amt) (\<lambda>_.
     if from_id = to_id then Err InvalidInput
     else rbind (require_owner env st from_id caller) (\<lambda>f.
          rbind (budget_load st to_id) (\<lambda>t.
          if b_owner t \<noteq> caller then Err Unauthorized
          else rbind (require_active f) (\<lambda>_.
               rbind (require_active t) (\<lambda>_.
               rbind (budget_not_expired env f) (\<lambda>_.
               rbind (budget_not_expired env t) (\<lambda>_.
               rbind (checked_sub (b_limit f) (b_spent f)) (\<lambda>available.
               if amt > available then Err BudgetExceeded
               else rbind (checked_sub (b_limit f) amt) (\<lambda>fl.
                    rbind (checked_add (b_limit t) amt) (\<lambda>tl.
                    Ok ((), bs_emit (EvRealloc from_id to_id amt)
                         (budget_store to_id (t\<lparr>b_limit := tl\<rparr>)
                           (budget_store from_id (f\<lparr>b_limit := fl\<rparr>) st)))))))))))))"

definition put_asset :: "string \<Rightarrow> address \<Rightarrow> asset_budget \<Rightarrow> budget_state \<Rightarrow> budget_state" where
  "put_asset bid token ab st = st\<lparr>bs_assets := (bs_assets st)((bid, token) \<mapsto> ab)\<rparr>"

definition set_budget_limit ::
  "env \<Rightarrow> address \<Rightarrow> string \<Rightarrow> address \<Rightarrow> i128 \<Rightarrow> u64 \<Rightarrow> budget_state \<Rightarrow> (unit \<times> budget_state) res" where
  "set_budget_limit env caller bid token limit window_seconds st =
     rbind (require_valid_limit limit) (\<lambda>_.
     rbind (require_owner env st bid caller) (\<lambda>b.
     rbind (require_active b) (\<lambda>_.
     rbind (budget_not_expired env b) (\<lambda>_.
     let ab = \<lparr>ab_limit = limit, ab_spent = 0, ab_window_seconds = window_seconds,
               ab_window_start = max (b_window_start b) (timestamp env),
               ab_rollover_enabled = False, ab_rollover_credit = 0, ab_rollover_bps = 0,
               ab_max_rollover_cap = 0\<rparr> in
     Ok ((), bs_emit (EvSetAsset bid token limit) (put_asset bid token ab st))))))"

definition set_budget_limit_with_rollover ::
  "env \<Rightarrow> address \<Rightarrow> string \<Rightarrow> address \<Rightarrow> i128 \<Rightarrow> u64 \<Rightarrow> bool \<Rightarrow> i128 \<Rightarrow> i128 \<Rightarrow> budget_state
     \<Rightarrow> (unit \<times> budget_state) res" where
  "set_budget_limit_with_rollover env caller bid token limit window_seconds rollover_enabled
       rollover_bps max_rollover_cap st =
     rbind (require_valid_limit limit) (\<lambda>_.
     rbind (require_valid_limit max_rollover_cap) (\<lambda>_.
     rbind (require_valid_limit rollover_bps) (\<lambda>_.
     if rollover_bps > BPS_DENOMINATOR then Err InvalidInput
     else rbind (require_owner env st bid caller) (\<lambda>b.
          rbind (require_active b) (\<lambda>_.
          rbind (budget_not_expired env b) (\<lambda>_.
          let ab = \<lparr>ab_limit = limit, ab_spent = 0, ab_window_seconds = window_seconds,
                    ab_window_start = max (b_window_start b) (timestamp env),
                    ab_rollover_enabled = rollover_enabled, ab_rollover_credit = 0,
                    ab_rollover_bps = rollover_bps, ab_max_rollover_cap = max_rollover_cap\<rparr> in
          Ok ((), bs_emit (EvSetAsset bid token limit) (put_asset bid token ab st))))))))"

definition set_asset_rollover_config ::
  "env \<Rightarrow> address \<Rightarrow> string \<Rightarrow> address \<Rightarrow> bool \<Rightarrow> i128 \<Rightarrow> i128 \<Rightarrow> budget_state
     \<Rightarrow> (unit \<times> budget_state) res" where
  "set_asset_rollover_config env caller bid token rollover_enabled rollover_bps max_rollover_cap st =
     rbind (require_valid_limit max_rollover_cap) (\<lambda>_.
     rbind (require_valid_limit rollover_bps) (\<lambda>_.
     if rollover_bps > BPS_DENOMINATOR then Err InvalidInput
     else rbind (require_owner env st bid caller) (\<lambda>b.
          rbind (require_active b) (\<lambda>_.
          rbind (budget_not_expired env b) (\<lambda>_.
          rbind (ok_or (bs_assets st (bid, token)) AssetNotAuthorized) (\<lambda>ab.
          case asset_window_transition env bid token True ab st of (ab1, st1) \<Rightarrow>
          let ab2 = ab1\<lparr>ab_rollover_enabled := rollover_enabled, ab_rollover_bps := rollover_bps,
                        ab_max_rollover_cap := max_rollover_cap\<rparr>;
              ab3 = (if \<not> rollover_enabled then ab2\<lparr>ab_rollover_credit := 0\<rparr>
                     else if max_rollover_cap > 0 \<and> ab_rollover_credit ab2 > max_rollover_cap
                     then ab2\<lparr>ab_rollover_credit := max_rollover_cap\<rparr> else ab2) in
          Ok ((), bs_emit (EvAssetRollover bid token rollover_bps max_rollover_cap)
                    (put_asset bid token ab3 st1))))))))"

definition check_and_record_spend ::
  "env \<Rightarrow> address \<Rightarrow> string \<Rightarrow> address \<Rightarrow> i128 \<Rightarrow> budget_state
     \<Rightarrow> (budget_error, unit \<times> budget_state) result" where
  "check_and_record_spend env caller bid token amt st =
     rbind (map_err budget_error_of (require_positive_amount amt)) (\<lambda>_.
     rbind (map_err budget_error_of (require_owner env st bid caller)) (\<lambda>b.
     rbind (map_err budget_error_of (require_active b)) (\<lambda>_.
     rbind (require_started env b) (\<lambda>_.
     rbind (map_err budget_error_of (budget_not_expired env b)) (\<lambda>_.
     rbind (map_err budget_error_of (ok_or (bs_assets st (bid, token)) AssetNotAuthorized)) (\<lambda>ab.
     case asset_window_transition env bid token True ab st of (ab1, st1) \<Rightarrow>
     rbind (map_err budget_error_of
              (if ab_rollover_enabled ab1 then checked_add (ab_limit ab1) (ab_rollover_credit ab1)
               else Ok (ab_limit ab1))) (\<lambda>capacity.
     rbind (map_err budget_error_of (checked_add (ab_spent ab1) amt)) (\<lambda>new_spent.
     if new_spent > capacity then Err BE_BudgetExceeded
     else Ok ((), bs_emit (EvAssetSpend bid token amt)
                    (put_asset bid token (ab1\<lparr>ab_spent := new_spent\<rparr>) st1))))))))))"

text \<open>The first pass over the legs: each token's window is settled and its leg simulated; the
  spends themselves are only recorded by the second pass.\<close>

fun batch_pass1 ::
  "env \<Rightarrow> string \<Rightarrow> address list \<Rightarrow> asset_spend list \<Rightarrow> asset_budget list \<Rightarrow> budget_state
     \<Rightarrow> (budget_error, asset_budget list \<times> budget_state) result" where
  "batch_pass1 env bid seen [] settled st = Ok (settled, st)"
| "batch_pass1 env bid seen (sp # sps) settled st =
     rbind (map_err budget_error_of (require_positive_amount (as_amount sp))) (\<lambda>_.
     if as_token sp \<in> set seen then Err (budget_error_of InvalidInput)
     else rbind (map_err budget_error_of (ok_or (bs_assets st (bid, as_token sp)) AssetNotAuthorized)) (\<lambda>ab.
          case asset_window_transition env bid (as_token sp) True ab st of (ab1, st1) \<Rightarrow>
          rbind (map_err budget_error_of (checked_add (ab_spent ab1) (as_amount sp))) (\<lambda>new_spent.
          if new_spent > ab_limit ab1 then Err BE_BudgetExceeded
          else batch_pass1 env bid (seen @ [as_token sp]) sps
                 (settled @ [ab1\<lparr>ab_spent := new_spent\<rparr>]) st1)))"

fun batch_pass2 :: "string \<Rightarrow> asset_spend list \<Rightarrow> asset_budget list \<Rightarrow> budget_state \<Rightarrow> budget_state" where
  "batch_pass2 bid (sp # sps) (ab # rest) st =
     batch_pass2 bid sps rest
       (bs_emit (EvAssetSpend bid (as_token sp) (as_amount sp)) (put_asset bid (as_token sp) ab st))"
| "batch_pass2 bid _ _ st = st"

definition check_and_record_batch_spend ::
  "env \<Rightarrow> address \<Rightarrow> string \<Rightarrow> asset_spend list \<Rightarrow> budget_state
     \<Rightarrow> (budget_error, unit \<times> budget_state) result" where
  "check_and_record_batch_spend env caller bid spends st =
     (if spends = [] \<or> length spends > MAX_BATCH_TOKENS then Err (budget_error_of InvalidInput)
      else rbind (map_err budget_error_of (require_owner env st bid caller)) (\<lambda>b.
           rbind (map_err budget_error_of (require_active b)) (\<lambda>_.
           rbind (require_started env b) (\<lambda>_.
           rbind (map_err budget_error_of (budget_not_expired env b)) (\<lambda>_.
           rbind (batch_pass1 env bid [] spends [] st) (\<lambda>(settled, st1).
           Ok ((), batch_pass2 bid spends settled st1)))))))"

definition consume ::
  "env \<Rightarrow> address \<Rightarrow> string \<Rightarrow> i128 \<Rightarrow> budget_state \<Rightarrow> (budget_error, i128 \<times> budget_state) result" where
  "consume env caller bid amt st =
     rbind (map_err budget_error_of (require_positive_amount amt)) (\<lambda>_.
     rbind (map_err budget_error_of (require_owner env st bid caller)) (\<lambda>b0.
     rbind (map_err budget_error_of (require_active b0)) (\<lambda>_.
     rbind (require_started env b0) (\<lambda>_.
     rbind (map_err budget_error_of (window_transition env bid True b0 st)) (\<lambda>(b, st1).
     rbind (map_err budget_error_of (checked_add (b_limit b) (b_rollover_credit b))) (\<lambda>capacity.
     rbind (map_err budget_error_of
              (if b_allow_deficit b \<and> b_deficit_amount b > 0
               then checked_sub capacity (b_deficit_amount b) else Ok capacity)) (\<lambda>ceiling.
     rbind (map_err budget_error_of (checked_add (b_spent b) amt)) (\<lambda>new_spent.
     if new_spent > ceiling
     then if b_allow_deficit b \<and> b_deficit_amount b = 0
          then rbind (map_err budget_error_of (checked_sub capacity new_spent)) (\<lambda>rem.
               Ok (rem, bs_emit (EvConsumed bid amt rem)
                          (budget_store bid (b\<lparr>b_spent := new_spent\<rparr>) st1)))
          else rbind (map_err budget_error_of (checked_sub ceiling (b_spent b))) (\<lambda>_.
               Err BE_BudgetExceeded)
     else rbind (map_err budget_error_of (checked_sub ceiling new_spent)) (\<lambda>rem.
          Ok (rem, bs_emit (EvConsumed bid amt rem)
                     (budget_store bid (b\<lparr>b_spent := new_spent\<rparr>) st1)))))))))))"

definition release :: "env \<Rightarrow> address \<Rightarrow> string \<Rightarrow> i128 \<Rightarrow> budget_state \<Rightarrow> (i128 \<times> budget_state) res" where
  "release env caller bid amt st =
     rbind (require_positive_amount amt) (\<lambda>_.
     rbind (require_owner env st bid caller) (\<lambda>b0.
     rbind (require_active b0) (\<lambda>_.
     rbind (window_transition env bid True b0 st) (\<lambda>(b, st1).
     if amt > b_spent b then Err InvalidAmount
     else rbind (checked_sub (b_spent b) amt) (\<lambda>sp.
          let b' = b\<lparr>b_spent := sp\<rparr> in
          rbind (effective_remaining b') (\<lambda>rem. Ok (rem, budget_store bid b' st1)))))))"

section \<open>Views\<close>

definition budget_get :: "string \<Rightarrow> budget_state \<Rightarrow> budget res" where
  "budget_get bid st = budget_load st bid"

definition remaining :: "env \<Rightarrow> string \<Rightarrow> budget_state \<Rightarrow> (i128 \<times> budget_state) res" where
  "remaining env bid st =
     rbind (budget_load st bid) (\<lambda>b0.
     if timestamp env < b_window_start b0 then Ok (0, st)
     else (case window_transition env bid False b0 st of
             Ok (b, st1) \<Rightarrow>
               let st2 = budget_store bid b st1 in
               rbind (effective_remaining b) (\<lambda>rem. Ok (rem, st2))
           | Err _ \<Rightarrow> Ok (0, st)
           | Panic \<Rightarrow> Panic))"

definition get_asset_budget ::
  "env \<Rightarrow> string \<Rightarrow> address \<Rightarrow> budget_state \<Rightarrow> (asset_budget \<times> budget_state) res" where
  "get_asset_budget env bid token st =
     rbind (ok_or (bs_assets st (bid, token)) AssetNotAuthorized) (\<lambda>ab.
     Ok (asset_window_transition env bid token False ab st))"

definition asset_remaining ::
  "env \<Rightarrow> string \<Rightarrow> address \<Rightarrow> budget_state \<Rightarrow> (i128 \<times> budget_state) res" where
  "asset_remaining env bid token st =
     rbind (get_asset_budget env bid token st) (\<lambda>(ab, st1).
     rbind (budget_load st1 bid) (\<lambda>b.
     if timestamp env < b_window_start b then Ok (0, st1)
     else rbind (if ab_rollover_enabled ab then checked_add (ab_limit ab) (ab_rollover_credit ab)
                 else Ok (ab_limit ab)) (\<lambda>capacity.
          rbind (checked_sub capacity (ab_spent ab)) (\<lambda>rem. Ok (rem, st1)))))"

definition rollover_preview :: "env \<Rightarrow> string \<Rightarrow> budget_state \<Rightarrow> rollover_outcome res" where
  "rollover_preview env bid st =
     rbind (budget_load st bid) (\<lambda>b.
     if b_expires_at b \<noteq> 0 \<and> timestamp env \<ge> b_expires_at b then Err BudgetExpired
     else calculate_rollover b (timestamp env))"

end
