(* ===== verification/Budget_Props.thy ===== *)
theory Budget_Props
  imports Budget
begin

text \<open>
  The correctness of the budget contract: well-formedness of every stored budget and allowance
  under all entrypoints, the exact effect of a spend, the cap and the anchoring of a period
  transition, the equivalence of one catch-up transition with visiting every period, the atomicity
  of a multi-token spend, and what a deficit budget allows.
\<close>

section \<open>Reading the guards\<close>

lemma bs_emit_sel [simp]:
  "bs_admin (bs_emit e st) = bs_admin st" "bs_budgets (bs_emit e st) = bs_budgets st"
  "bs_assets (bs_emit e st) = bs_assets st"
  by (simp_all add: bs_emit_def)

lemma budget_store_sel [simp]:
  "bs_admin (budget_store i b st) = bs_admin st"
  "bs_budgets (budget_store i b st) = (bs_budgets st)(i \<mapsto> b)"
  "bs_assets (budget_store i b st) = bs_assets st"
  by (simp_all add: budget_store_def)

lemma put_asset_sel [simp]:
  "bs_budgets (put_asset i t a st) = bs_budgets st"
  "bs_assets (put_asset i t a st) = (bs_assets st)((i, t) \<mapsto> a)"
  by (simp_all add: put_asset_def)

lemma emit_asset_reset_sel [simp]:
  "bs_budgets (emit_asset_reset i t l st) = bs_budgets st"
  "bs_assets (emit_asset_reset i t l st) = bs_assets st"
  by (simp_all add: emit_asset_reset_def)

lemma budget_guards_Ok [ok_simps]:
  "budget_load st bid = Ok b \<longleftrightarrow> bs_budgets st bid = Some b"
  "require_owner env st bid c = Ok b \<longleftrightarrow> authorized env c \<and> bs_budgets st bid = Some b \<and> b_owner b = c"
  "require_valid_limit l = Ok u \<longleftrightarrow> 0 \<le> l"
  "require_not_archived b = Ok u \<longleftrightarrow> b_state b \<noteq> Archived"
  "require_active b = Ok u \<longleftrightarrow> b_state b = Active"
  "budget_not_expired env b = Ok u \<longleftrightarrow> b_expires_at b = 0 \<or> timestamp env < b_expires_at b"
  "require_started env b = Ok u \<longleftrightarrow> b_window_start b \<le> timestamp env"
  by (auto simp: budget_load_def require_owner_def require_valid_limit_def require_not_archived_def
      require_active_def budget_not_expired_def require_started_def ok_simps
      split: resource_state.splits)

section \<open>Well-formed budgets\<close>

definition amt_ok :: "int \<Rightarrow> bool" where
  "amt_ok x \<longleftrightarrow> 0 \<le> x \<and> x \<le> i128_max"

lemma amt_ok_simps [simp]: "amt_ok 0" "amt_ok BPS_DENOMINATOR"
  by (simp_all add: amt_ok_def int_limits BPS_DENOMINATOR_def)

definition budget_wf :: "budget \<Rightarrow> bool" where
  "budget_wf b \<longleftrightarrow>
     amt_ok (b_limit b) \<and> amt_ok (b_spent b) \<and> amt_ok (b_rollover_credit b) \<and>
     amt_ok (b_rollover_cap b) \<and> 0 \<le> b_rollover_max_bps b \<and> b_rollover_max_bps b < BPS_DENOMINATOR \<and>
     0 \<le> b_rollover_bps b \<and> b_rollover_bps b \<le> BPS_DENOMINATOR \<and> amt_ok (b_deficit_amount b)"

definition asset_wf :: "asset_budget \<Rightarrow> bool" where
  "asset_wf ab \<longleftrightarrow>
     amt_ok (ab_limit ab) \<and> amt_ok (ab_spent ab) \<and> amt_ok (ab_rollover_credit ab) \<and>
     amt_ok (ab_max_rollover_cap ab) \<and> 0 \<le> ab_rollover_bps ab \<and> ab_rollover_bps ab \<le> BPS_DENOMINATOR"

definition budget_inv :: "budget_state \<Rightarrow> bool" where
  "budget_inv st \<longleftrightarrow>
     (\<forall>bid b. bs_budgets st bid = Some b \<longrightarrow> budget_wf b) \<and>
     (\<forall>k ab. bs_assets st k = Some ab \<longrightarrow> asset_wf ab)"

lemma percentage_of_limit_eq:
  assumes "amt_ok limit" and "0 \<le> bps" and "bps < BPS_DENOMINATOR"
  shows "percentage_of_limit limit bps = Ok (limit * bps div BPS_DENOMINATOR)"
proof -
  let ?d = "BPS_DENOMINATOR"
  have d: "0 < ?d" by (simp add: BPS_DENOMINATOR_def)
  have l: "0 \<le> limit" "limit \<le> i128_max" using assms(1) by (simp_all add: amt_ok_def)
  note R = rollover_in_range [OF l assms(2) less_imp_le [OF assms(3)]]
  have rb: "0 \<le> limit mod ?d * bps" using assms(2) d by simp
  have "checked_div limit ?d = Ok (limit div ?d)" "checked_rem limit ?d = Ok (limit mod ?d)"
    "checked_mul (limit div ?d) bps = Ok (limit div ?d * bps)"
    "checked_mul (limit mod ?d) bps = Ok (limit mod ?d * bps)"
    "checked_div (limit mod ?d * bps) ?d = Ok (limit mod ?d * bps div ?d)"
    "checked_add (limit div ?d * bps) (limit mod ?d * bps div ?d) = Ok (limit * bps div ?d)"
    using l d R rb
    by (simp_all add: checked_div_def checked_mul_def checked_add_def safe_div_def checked_rem_def
        safe_mul_def safe_add_def sdiv_nonneg smod_nonneg split_scaling i128_min_def)
  then show ?thesis by (simp add: percentage_of_limit_def)
qed

definition cap_of :: "budget \<Rightarrow> int" where
  "cap_of b =
     (let p = b_limit b * b_rollover_max_bps b div BPS_DENOMINATOR in
      if b_rollover_cap b = 0 then p else if p = 0 then b_rollover_cap b else min (b_rollover_cap b) p)"

lemma effective_rollover_cap_eq:
  assumes "budget_wf b"
  shows "effective_rollover_cap b = Ok (cap_of b)" and "0 \<le> cap_of b"
proof -
  have w: "amt_ok (b_limit b)" "0 \<le> b_rollover_max_bps b" "b_rollover_max_bps b < BPS_DENOMINATOR"
    "amt_ok (b_rollover_cap b)" using assms by (simp_all add: budget_wf_def)
  from percentage_of_limit_eq [OF w(1-3)] show "effective_rollover_cap b = Ok (cap_of b)"
    by (simp add: effective_rollover_cap_def cap_of_def Let_def)
  have "0 \<le> b_limit b * b_rollover_max_bps b div BPS_DENOMINATOR"
    using w by (simp add: amt_ok_def BPS_DENOMINATOR_def pos_imp_zdiv_nonneg_iff)
  then show "0 \<le> cap_of b" using w(4) by (auto simp: cap_of_def Let_def amt_ok_def)
qed

definition capped :: "int \<Rightarrow> int \<Rightarrow> int" where
  "capped c x = (if 0 < c then min x c else x)"

text \<open>The carry of a transition without a deficit, over the integers.\<close>

definition carry_of :: "budget \<Rightarrow> nat \<Rightarrow> int" where
  "carry_of b n =
     (if \<not> b_rollover_enabled b then 0
      else capped (cap_of b)
             (capped (cap_of b) (max 0 (b_limit b + b_rollover_credit b - b_spent b) * b_rollover_bps b
                div BPS_DENOMINATOR) + b_limit b * (int n - 1)))"

lemma carry_of_disabled: "\<not> b_rollover_enabled b \<Longrightarrow> carry_of b n = 0"
  by (simp add: carry_of_def)

lemma apply_cap_capped: "0 \<le> c \<Longrightarrow> apply_cap x c = capped c x"
  by (auto simp: apply_cap_def capped_def)

lemma capped_nonneg: "0 \<le> c \<Longrightarrow> 0 \<le> x \<Longrightarrow> 0 \<le> capped c x"
  by (auto simp: capped_def)

lemma capped_sat:
  assumes "0 < c" and "c \<le> i128_max" and "0 \<le> x" and "0 \<le> y"
  shows "capped c (sat_i128 (x + sat_i128 y)) = capped c (x + y)"
  using assms by (auto simp: capped_def sat_i128_def int_limits min_def max_def)

lemma cap_of_pos: "budget_wf b \<Longrightarrow> b_rollover_cap b \<noteq> 0 \<Longrightarrow> 0 < cap_of b \<and> cap_of b \<le> i128_max"
  using effective_rollover_cap_eq(2) [of b]
  by (auto simp: cap_of_def Let_def budget_wf_def amt_ok_def min_def split: if_splits)

lemma scaled_nonneg: "0 \<le> u \<Longrightarrow> 0 \<le> k \<Longrightarrow> 0 \<le> u * k div BPS_DENOMINATOR"
  by (simp add: BPS_DENOMINATOR_def pos_imp_zdiv_nonneg_iff)

lemma scaled_le: "0 \<le> u \<Longrightarrow> k \<le> BPS_DENOMINATOR \<Longrightarrow> u * k div BPS_DENOMINATOR \<le> u"
proof -
  assume "0 \<le> u" "k \<le> BPS_DENOMINATOR"
  then have "u * k \<le> u * BPS_DENOMINATOR" by (rule mult_left_mono [rotated])
  then have "u * k div BPS_DENOMINATOR \<le> u * BPS_DENOMINATOR div BPS_DENOMINATOR"
    by (rule zdiv_mono1) (simp add: BPS_DENOMINATOR_def)
  then show ?thesis by (simp add: BPS_DENOMINATOR_def)
qed

lemma accrue_idle_eq:
  assumes "budget_wf b" and "0 \<le> x" and "0 \<le> k" and "accrue_idle_periods x b k = Ok y"
  shows "apply_cap y (cap_of b) = capped (cap_of b) (x + b_limit b * k)"
proof (cases "b_rollover_cap b = 0")
  case True
  then have "y = x + b_limit b * k" using assms(4) by (auto simp: accrue_idle_periods_def ok_simps)
  then show ?thesis using effective_rollover_cap_eq(2) [OF assms(1)] by (simp add: apply_cap_capped)
next
  case False
  have "0 \<le> b_limit b * k" using assms(1,3) by (simp add: budget_wf_def amt_ok_def)
  then show ?thesis using assms False cap_of_pos [OF assms(1) False] capped_sat [of "cap_of b" x "b_limit b * k"]
    by (auto simp: accrue_idle_periods_def apply_cap_capped)
qed

lemma accrue_idle_ok:
  assumes "budget_wf b" and "amt_ok x" and "0 \<le> k" and "accrue_idle_periods x b k = Ok y"
  shows "amt_ok (apply_cap y (cap_of b))"
proof -
  have "0 \<le> b_limit b * k" using assms(1,3) by (simp add: budget_wf_def amt_ok_def)
  then have "amt_ok y"
    using assms(2,4) by (auto simp: accrue_idle_periods_def ok_simps amt_ok_def in_i128_def sat_i128_def
        int_limits split: if_splits)
  then show ?thesis using effective_rollover_cap_eq(2) [OF assms(1)] by (auto simp: apply_cap_def amt_ok_def)
qed

lemma carry_eq:
  assumes "budget_wf b" and "b_rollover_enabled b" and "0 < n"
    and cap: "in_i128 (b_limit b + b_rollover_credit b)"
    and run: "rbind (effective_rollover_cap b) (\<lambda>cap.
       rbind (calculate_budget_rollover (max 0 (b_limit b + b_rollover_credit b - b_spent b))
               (b_rollover_bps b) cap) (\<lambda>credit.
       if n > 1
       then rbind (checked_sub (int n) 1) (\<lambda>idle. rbind (accrue_idle_periods credit b idle) (\<lambda>c'.
            Ok (apply_cap c' cap)))
       else Ok credit)) = Ok carry"
  shows "carry = carry_of b n" and "amt_ok carry"
proof -
  let ?u = "max 0 (b_limit b + b_rollover_credit b - b_spent b)"
  let ?x = "capped (cap_of b) (?u * b_rollover_bps b div BPS_DENOMINATOR)"
  have wf: "0 \<le> b_spent b" "0 \<le> b_rollover_bps b" "b_rollover_bps b \<le> BPS_DENOMINATOR"
    using assms(1) by (auto simp: budget_wf_def amt_ok_def)
  have u: "0 \<le> ?u" "?u \<le> i128_max" using cap wf(1) by (auto simp: in_i128_def i128_max_def)
  note c = effective_rollover_cap_eq [OF assms(1)]
  have r: "calculate_budget_rollover ?u (b_rollover_bps b) (cap_of b) = Ok ?x"
    using calculate_budget_rollover_eq [OF u wf(2,3) c(2)] by (simp add: capped_def BPS_DENOMINATOR_def)
  have x0: "0 \<le> ?x" using c(2) u(1) wf(2) by (intro capped_nonneg scaled_nonneg) auto
  have "?u * b_rollover_bps b div BPS_DENOMINATOR \<le> ?u"
    using scaled_le [OF u(1) wf(3)] .
  then have x: "amt_ok ?x" using x0 u(2) by (auto simp: amt_ok_def capped_def)
  have "carry = carry_of b n \<and> amt_ok carry"
  proof (cases "n > 1")
    case True
    then obtain y where "accrue_idle_periods ?x b (int n - 1) = Ok y" "carry = apply_cap y (cap_of b)"
      using run c(1) r by (auto simp: ok_simps)
    then show ?thesis using accrue_idle_eq [OF assms(1) x0, of "int n - 1" y] True assms(2)
        accrue_idle_ok [OF assms(1) x, of "int n - 1" y]
      by (simp add: carry_of_def)
  next
    case False
    then have n: "n = 1" and "carry = ?x" using run c(1) r assms(3) by auto
    then show ?thesis using assms(2) x by (simp add: carry_of_def capped_def)
  qed
  then show "carry = carry_of b n" and "amt_ok carry" by blast+
qed

definition in_deficit :: "budget \<Rightarrow> bool" where
  "in_deficit b \<longleftrightarrow> b_allow_deficit b \<and> b_spent b > b_limit b + b_rollover_credit b"

lemma calculate_rollover_cases:
  assumes "budget_wf b" and "calculate_rollover b now = Ok out" and "now \<le> u64_max"
  obtains (idle) "\<not> ro_is_due out" "ro_carry_over out = b_rollover_credit b" "ro_periods out = 0"
      "\<forall>w. window_of (b_period b) (b_period_seconds b) = Some w \<longrightarrow> now < b_window_start b + w"
    | (due) w n where "ro_is_due out" "window_of (b_period b) (b_period_seconds b) = Some w" "0 < w"
      "b_window_start b + w \<le> now" "n = (now - b_window_start b) div w" "0 < n" "ro_periods out = n"
      "in_i128 (b_limit b + b_rollover_credit b)" "in_deficit b \<or> amt_ok (ro_carry_over out)"
      "ro_carry_over out = (if b_allow_deficit b \<and> b_spent b > b_limit b + b_rollover_credit b
         then b_limit b + b_rollover_credit b - b_spent b else carry_of b n)"
proof (cases "window_of (b_period b) (b_period_seconds b)")
  case None
  then show ?thesis using assms(2) by (intro idle) (auto simp: calculate_rollover_def)
next
  case (Some w)
  have w: "0 < w" using Some by (auto simp: window_of_def limit_defs split: period.splits if_splits)
  show ?thesis
  proof (cases "b_window_start b + w \<le> now")
    case False
    then show ?thesis using assms(2) Some idle
      by (auto simp: calculate_rollover_def is_window_expired_def ok_simps)
  next
    case True
    let ?n = "(now - b_window_start b) div w"
    have n: "0 < ?n" using True w by (simp add: div_greater_zero_iff)
    have "?n \<le> now - b_window_start b" by (rule div_le_dividend)
    then have "?n \<le> u64_max" using assms(3) by linarith
    then have asu: "as_u64 (int ?n) = ?n" by (rule as_u64_int)
    have expd: "is_window_expired b now = Ok True"
      using Some True assms(3) by (simp add: is_window_expired_def checked_add_word_def)
    have max0: "(if 0 < x then x else 0) = max 0 x" for x :: int by auto
    from assms(2) obtain carry where cap: "in_i128 (b_limit b + b_rollover_credit b)"
      and run: "(if b_allow_deficit b \<and> b_limit b + b_rollover_credit b < b_spent b
          then checked_sub (b_limit b + b_rollover_credit b) (b_spent b)
          else if b_rollover_enabled b
          then rbind (effective_rollover_cap b) (\<lambda>cap.
               rbind (calculate_budget_rollover (max 0 (b_limit b + b_rollover_credit b - b_spent b))
                       (b_rollover_bps b) cap) (\<lambda>credit.
               if ?n > 1
               then rbind (checked_sub (int ?n) 1) (\<lambda>idle.
                    rbind (accrue_idle_periods credit b idle) (\<lambda>c'. Ok (apply_cap c' cap)))
               else Ok credit))
          else Ok 0) = Ok carry"
      and out: "out = \<lparr>ro_carry_over = carry, ro_periods = ?n, ro_is_due = True\<rparr>"
      unfolding calculate_rollover_def Some expd option.case rbind.simps Let_def
      by (auto simp only: rbind_eq_Ok checked_ops_Ok(1,2) max0 asu result.inject if_False if_True not_True_eq_False)
    have "carry = (if b_allow_deficit b \<and> b_spent b > b_limit b + b_rollover_credit b
        then b_limit b + b_rollover_credit b - b_spent b else carry_of b ?n) \<and>
        (in_deficit b \<or> amt_ok carry)"
      using run carry_eq [OF assms(1) _ n cap, of carry] carry_of_disabled
      by (auto simp: ok_simps in_deficit_def split: if_splits)
    then show ?thesis using out w n True cap Some by (intro due [of w ?n]) auto
  qed
qed

definition next_start :: "budget \<Rightarrow> nat \<Rightarrow> nat \<Rightarrow> u64" where
  "next_start b n w = sat_add_u64 (b_window_start b) (sat_mul_u64 n w)"

definition settled_budget :: "budget \<Rightarrow> nat \<Rightarrow> nat \<Rightarrow> budget" where
  "settled_budget b n w =
     b\<lparr>b_rollover_credit := (if in_deficit b then 0 else carry_of b n),
       b_deficit_amount := b_deficit_amount b +
         (if in_deficit b then b_spent b - (b_limit b + b_rollover_credit b) else 0),
       b_spent := 0, b_window_start := next_start b n w\<rparr>"

lemma window_transition_cases:
  assumes "budget_wf b" and "window_transition env bid pub b st = Ok (b', st')"
    and "timestamp env \<le> u64_max"
  obtains (idle) "b' = b" "st' = st" "b_expires_at b = 0 \<or> timestamp env < b_expires_at b"
      "\<forall>w. window_of (b_period b) (b_period_seconds b) = Some w \<longrightarrow> timestamp env < b_window_start b + w"
    | (due) w n where "b_expires_at b = 0 \<or> timestamp env < b_expires_at b"
      "window_of (b_period b) (b_period_seconds b) = Some w" "0 < w"
      "b_window_start b + w \<le> timestamp env" "n = (timestamp env - b_window_start b) div w" "0 < n"
      "bs_budgets st' = bs_budgets st" "bs_assets st' = bs_assets st"
      "in_i128 (b_limit b + b_rollover_credit b)" "in_i128 (b_deficit_amount b')"
      "b' = settled_budget b n w" "budget_wf b'"
proof -
  from assms(2) obtain out where out: "calculate_rollover b (timestamp env) = Ok out"
    and exp: "b_expires_at b = 0 \<or> timestamp env < b_expires_at b"
    by (auto simp: window_transition_def Let_def ok_simps)
  from assms(1) out assms(3) show ?thesis
  proof (cases rule: calculate_rollover_cases)
    case idle
    then show ?thesis using assms(2) out exp that(1) by (auto simp: window_transition_def Let_def)
  next
    case (due w n)
    let ?cap = "b_limit b + b_rollover_credit b"
    have carry: "ro_carry_over out = (if in_deficit b then ?cap - b_spent b else carry_of b n)"
      using due(10) by (simp add: in_deficit_def)
    have d: "b_allow_deficit b \<and> ?cap < b_spent b \<longleftrightarrow> in_deficit b" by (simp add: in_deficit_def)
    have "bs_budgets st' = bs_budgets st \<and> bs_assets st' = bs_assets st \<and>
        in_i128 (b_deficit_amount b') \<and> b' = settled_budget b n w"
      using assms(1,2) out exp due(1,2,7,8) carry
      by (cases "in_deficit b"; cases pub)
         (auto simp: window_transition_def Let_def ok_simps d settled_budget_def next_start_def
          budget_wf_def amt_ok_def in_i128_def int_limits)
    moreover have "budget_wf (settled_budget b n w)"
      if "in_i128 (b_deficit_amount (settled_budget b n w))"
      using that assms(1) due(9) carry
      by (auto simp: budget_wf_def settled_budget_def amt_ok_def in_i128_def in_deficit_def split: if_splits)
    ultimately show ?thesis using due exp that(2) [of w n] by auto
  qed
qed

lemma window_transition_keeps:
  assumes "budget_wf b" and "window_transition env bid pub b st = Ok (b', st')"
    and "timestamp env \<le> u64_max"
  shows "budget_wf b'" and "bs_budgets st' = bs_budgets st" and "bs_assets st' = bs_assets st"
  using assms by (auto elim: window_transition_cases)

section \<open>Every entrypoint keeps the invariant\<close>

lemma budget_inv_simps [simp]: "budget_inv (bs_emit e st) \<longleftrightarrow> budget_inv st"
  by (simp add: budget_inv_def)

lemma budget_inv_store: "budget_inv st \<Longrightarrow> budget_wf b \<Longrightarrow> budget_inv (budget_store i b st)"
  by (simp add: budget_inv_def)

lemma budget_inv_put: "budget_inv st \<Longrightarrow> asset_wf ab \<Longrightarrow> budget_inv (put_asset i t ab st)"
  by (auto simp: budget_inv_def)

lemma budget_inv_cong:
  "bs_budgets st' = bs_budgets st \<Longrightarrow> bs_assets st' = bs_assets st \<Longrightarrow> budget_inv st \<Longrightarrow> budget_inv st'"
  by (simp add: budget_inv_def)

lemma budget_invD:
  "budget_inv st \<Longrightarrow> bs_budgets st i = Some b \<Longrightarrow> budget_wf b"
  "budget_inv st \<Longrightarrow> bs_assets st k = Some ab \<Longrightarrow> asset_wf ab"
  unfolding budget_inv_def by blast+

lemma transition_inv:
  assumes "budget_inv st" and "budget_wf b" and "window_transition env bid pub b st = Ok (b', st')"
    and "timestamp env \<le> u64_max"
  shows "budget_wf b' \<and> budget_inv st'"
  using window_transition_keeps [OF assms(2-4)] assms(1) by (auto intro: budget_inv_cong)

lemma reclamp_wf: "budget_wf b \<Longrightarrow> reclamp b = Ok b' \<Longrightarrow> budget_wf b'"
  using effective_rollover_cap_eq [of b]
  by (auto simp: reclamp_def ok_simps apply_cap_def budget_wf_def amt_ok_def split: if_splits)

lemma asset_credit_ok:
  assumes "asset_wf ab" and "0 \<le> u" and "u \<le> i128_max"
    and "calculate_budget_rollover u (ab_rollover_bps ab) (ab_max_rollover_cap ab) = Ok c"
  shows "amt_ok c"
proof -
  have w: "0 \<le> ab_rollover_bps ab" "ab_rollover_bps ab \<le> BPS_DENOMINATOR" "0 \<le> ab_max_rollover_cap ab"
    using assms(1) by (auto simp: asset_wf_def amt_ok_def)
  have "c = capped (ab_max_rollover_cap ab) (u * ab_rollover_bps ab div BPS_DENOMINATOR)"
    using calculate_budget_rollover_eq [OF assms(2,3) w] assms(4) by (simp add: capped_def BPS_DENOMINATOR_def)
  then show ?thesis using scaled_le [OF assms(2) w(2)] scaled_nonneg [OF assms(2) w(1)] w(3) assms(3)
    by (auto simp: amt_ok_def capped_def)
qed

lemma asset_credit_of_ok:
  assumes "asset_wf ab"
  shows "amt_ok (case calculate_budget_rollover (max (sat_i128 x) 0) (ab_rollover_bps ab)
      (ab_max_rollover_cap ab) of Ok c \<Rightarrow> c | _ \<Rightarrow> 0)"
proof -
  have "0 \<le> max (sat_i128 x) 0" "max (sat_i128 x) 0 \<le> i128_max" by (auto simp: sat_i128_def int_limits)
  from asset_credit_ok [OF assms this] show ?thesis by (auto split: result.split)
qed

definition asset_idle :: "env \<Rightarrow> asset_budget \<Rightarrow> bool" where
  "asset_idle env ab \<longleftrightarrow>
     ab_window_seconds ab = 0 \<or> timestamp env - ab_window_start ab < ab_window_seconds ab"

definition asset_credit :: "asset_budget \<Rightarrow> int" where
  "asset_credit ab =
     (if ab_rollover_enabled ab
      then (case calculate_budget_rollover
                   (max (sat_i128 ((case checked_add (ab_limit ab) (ab_rollover_credit ab) of
                                      Ok c \<Rightarrow> c | _ \<Rightarrow> ab_limit ab) - ab_spent ab)) 0)
                   (ab_rollover_bps ab) (ab_max_rollover_cap ab) of Ok c \<Rightarrow> c | _ \<Rightarrow> 0)
      else 0)"

definition asset_settled :: "env \<Rightarrow> asset_budget \<Rightarrow> asset_budget" where
  "asset_settled env ab =
     (if asset_idle env ab then ab
      else ab\<lparr>ab_rollover_credit := asset_credit ab, ab_spent := 0,
              ab_window_start := sat_add_u64 (ab_window_start ab)
                (sat_mul_u64 ((timestamp env - ab_window_start ab) div ab_window_seconds ab)
                  (ab_window_seconds ab))\<rparr>)"

lemma asset_transition_eq:
  "asset_window_transition env bid tok pub ab st =
     (asset_settled env ab,
      if asset_idle env ab then st
      else let st1 = put_asset bid tok (asset_settled env ab) st in
           if pub then emit_asset_reset bid tok
                         (if ab_rollover_enabled ab
                          then sat_i128 (ab_limit ab + asset_credit ab) else ab_limit ab) st1
           else st1)"
proof (cases "asset_idle env ab")
  case True
  then show ?thesis by (auto simp: asset_window_transition_def asset_settled_def asset_idle_def)
next
  case False
  then have n: "ab_window_seconds ab \<noteq> 0" "\<not> timestamp env - ab_window_start ab < ab_window_seconds ab"
    by (auto simp: asset_idle_def)
  show ?thesis
    unfolding asset_window_transition_def Let_def asset_credit_def [symmetric] asset_settled_def put_asset_def
    using False n by simp
qed

lemma asset_transition_sel:
  assumes "asset_window_transition env bid tok pub ab st = (ab', st')"
  shows "ab' = asset_settled env ab" and "bs_budgets st' = bs_budgets st"
    and "bs_assets st' = (if asset_idle env ab then bs_assets st
           else (bs_assets st)((bid, tok) \<mapsto> asset_settled env ab))"
  using assms unfolding asset_transition_eq by (auto simp: Let_def split: if_splits)

lemma asset_settled_wf: "asset_wf ab \<Longrightarrow> asset_wf (asset_settled env ab)"
proof -
  assume wf: "asset_wf ab"
  then have "amt_ok (asset_credit ab)" using asset_credit_of_ok [OF wf] unfolding asset_credit_def by simp
  with wf show ?thesis by (simp add: asset_settled_def asset_wf_def)
qed

lemma asset_transition_inv:
  assumes "budget_inv st" and "asset_wf ab" and "asset_window_transition env bid tok pub ab st = (ab', st')"
  shows "asset_wf ab'" and "budget_inv st'" and "bs_budgets st' = bs_budgets st"
proof -
  note E = asset_transition_sel [OF assms(3)]
  show w: "asset_wf ab'" unfolding E(1) by (rule asset_settled_wf [OF assms(2)])
  show "bs_budgets st' = bs_budgets st" by (fact E(2))
  show "budget_inv st'"
  proof (cases "asset_idle env ab")
    case True
    then show ?thesis using budget_inv_cong [OF E(2) _ assms(1)] E(3) by simp
  next
    case False
    then show ?thesis
      using E(2,3) by (intro budget_inv_cong [OF _ _ budget_inv_put [OF assms(1) asset_settled_wf [OF assms(2)]]]) auto
  qed
qed

lemma batch_pass1_Cons:
  "batch_pass1 env bid seen (sp # sps) acc st = Ok r \<longleftrightarrow>
     (\<exists>ab ab1 st1. bs_assets st (bid, as_token sp) = Some ab \<and>
        asset_window_transition env bid (as_token sp) True ab st = (ab1, st1) \<and>
        0 < as_amount sp \<and> as_token sp \<notin> set seen \<and> in_i128 (ab_spent ab1 + as_amount sp) \<and>
        ab_spent ab1 + as_amount sp \<le> ab_limit ab1 \<and>
        batch_pass1 env bid (seen @ [as_token sp]) sps
          (acc @ [ab1\<lparr>ab_spent := ab_spent ab1 + as_amount sp\<rparr>]) st1 = Ok r)"
  unfolding batch_pass1.simps
  by (cases "bs_assets st (bid, as_token sp)";
      cases "asset_window_transition env bid (as_token sp) True (the (bs_assets st (bid, as_token sp))) st")
     (auto simp: ok_simps not_less simp del: batch_pass1.simps)

lemma batch_pass1_inv:
  assumes "batch_pass1 env bid seen sps acc st = Ok (settled, st')" and "budget_inv st"
    and "\<forall>ab\<in>set acc. asset_wf ab"
  shows "budget_inv st' \<and> (\<forall>ab\<in>set settled. asset_wf ab)"
  using assms
proof (induction sps arbitrary: seen acc st)
  case Nil
  then show ?case by simp
next
  case (Cons sp sps)
  from Cons.prems(1) [unfolded batch_pass1_Cons] obtain ab ab1 st1 where
    ab: "bs_assets st (bid, as_token sp) = Some ab"
    and tr: "asset_window_transition env bid (as_token sp) True ab st = (ab1, st1)"
    and pos: "0 < as_amount sp" and rng: "in_i128 (ab_spent ab1 + as_amount sp)"
    and rest: "batch_pass1 env bid (seen @ [as_token sp]) sps
      (acc @ [ab1\<lparr>ab_spent := ab_spent ab1 + as_amount sp\<rparr>]) st1 = Ok (settled, st')"
    by blast
  note A = asset_transition_inv [OF Cons.prems(2) budget_invD(2) [OF Cons.prems(2) ab] tr]
  have "asset_wf (ab1\<lparr>ab_spent := ab_spent ab1 + as_amount sp\<rparr>)"
    using A(1) pos rng by (simp add: asset_wf_def amt_ok_def in_i128_def)
  with Cons.prems(3) have "\<forall>x\<in>set (acc @ [ab1\<lparr>ab_spent := ab_spent ab1 + as_amount sp\<rparr>]). asset_wf x"
    by simp
  then show ?case by (rule Cons.IH [OF rest A(2)])
qed

lemma batch_pass2_inv:
  "budget_inv st \<Longrightarrow> \<forall>ab\<in>set xs. asset_wf ab \<Longrightarrow> budget_inv (batch_pass2 bid sps xs st)"
  by (induction bid sps xs st rule: batch_pass2.induct) (simp_all add: budget_inv_put)

text \<open>One committed invocation of the contract; the numeric arguments are \<open>i128\<close> values.\<close>

inductive budget_step :: "budget_state \<Rightarrow> budget_state \<Rightarrow> bool" where
  bst_initialize: "budget_initialize a st = Ok (u, st') \<Longrightarrow> budget_step st st'"
| bst_allocate_at: "\<lbrakk>allocate_at env c bid l per re ad sa ex st = Ok (u, st'); l \<le> i128_max\<rbrakk>
    \<Longrightarrow> budget_step st st'"
| bst_allocate_rollover:
    "\<lbrakk>allocate_with_rollover env c bid l per re bps cap ex st = Ok (u, st'); l \<le> i128_max; cap \<le> i128_max\<rbrakk>
    \<Longrightarrow> budget_step st st'"
| bst_recurrence:
    "\<lbrakk>set_recurrence env c bid per secs re cap mbps st = Ok (u, st'); cap \<le> i128_max;
      timestamp env \<le> u64_max\<rbrakk> \<Longrightarrow> budget_step st st'"
| bst_rollover_config:
    "\<lbrakk>set_rollover_config env c bid re bps cap st = Ok (u, st'); cap \<le> i128_max;
      timestamp env \<le> u64_max\<rbrakk> \<Longrightarrow> budget_step st st'"
| bst_reset: "reset env c bid st = Ok (u, st') \<Longrightarrow> budget_step st st'"
| bst_rollover: "\<lbrakk>rollover env c bid st = Ok (u, st'); timestamp env \<le> u64_max\<rbrakk> \<Longrightarrow> budget_step st st'"
| bst_set_limit: "\<lbrakk>set_limit env c bid l st = Ok (u, st'); l \<le> i128_max; timestamp env \<le> u64_max\<rbrakk>
    \<Longrightarrow> budget_step st st'"
| bst_freeze: "freeze env c bid st = Ok (u, st') \<Longrightarrow> budget_step st st'"
| bst_unfreeze: "unfreeze env c bid st = Ok (u, st') \<Longrightarrow> budget_step st st'"
| bst_archive: "archive env c bid st = Ok (u, st') \<Longrightarrow> budget_step st st'"
| bst_transfer: "transfer_allocation env c f t a st = Ok (u, st') \<Longrightarrow> budget_step st st'"
| bst_asset_limit: "\<lbrakk>set_budget_limit env c bid tok l secs st = Ok (u, st'); l \<le> i128_max\<rbrakk>
    \<Longrightarrow> budget_step st st'"
| bst_asset_limit_rollover:
    "\<lbrakk>set_budget_limit_with_rollover env c bid tok l secs re bps cap st = Ok (u, st'); l \<le> i128_max;
      cap \<le> i128_max\<rbrakk> \<Longrightarrow> budget_step st st'"
| bst_asset_config:
    "\<lbrakk>set_asset_rollover_config env c bid tok re bps cap st = Ok (u, st'); cap \<le> i128_max\<rbrakk>
    \<Longrightarrow> budget_step st st'"
| bst_spend: "check_and_record_spend env c bid tok a st = Ok (u, st') \<Longrightarrow> budget_step st st'"
| bst_batch: "check_and_record_batch_spend env c bid sps st = Ok (u, st') \<Longrightarrow> budget_step st st'"
| bst_consume: "\<lbrakk>consume env c bid a st = Ok (r, st'); timestamp env \<le> u64_max\<rbrakk> \<Longrightarrow> budget_step st st'"
| bst_release: "\<lbrakk>release env c bid a st = Ok (r, st'); timestamp env \<le> u64_max\<rbrakk> \<Longrightarrow> budget_step st st'"
| bst_remaining: "\<lbrakk>remaining env bid st = Ok (r, st'); timestamp env \<le> u64_max\<rbrakk> \<Longrightarrow> budget_step st st'"
| bst_get_asset: "get_asset_budget env bid tok st = Ok (ab, st') \<Longrightarrow> budget_step st st'"
| bst_asset_remaining: "asset_remaining env bid tok st = Ok (r, st') \<Longrightarrow> budget_step st st'"

lemmas budget_wf_defs = budget_wf_def amt_ok_def in_i128_def

lemma allocate_internal_inv:
  "allocate_internal env c bid l per re bps cap ad sa ex st = Ok (u, st') \<Longrightarrow> budget_inv st \<Longrightarrow>
     l \<le> i128_max \<Longrightarrow> cap \<le> i128_max \<Longrightarrow> budget_inv st'"
  by (auto simp: allocate_internal_def ok_simps Let_def budget_wf_defs int_limits BPS_DENOMINATOR_def
      intro!: budget_inv_store)

lemma with_fields_wf:
  "budget_wf b \<Longrightarrow> amt_ok cap \<Longrightarrow> 0 \<le> m \<Longrightarrow> m < BPS_DENOMINATOR \<Longrightarrow> 0 \<le> bps \<Longrightarrow> bps \<le> BPS_DENOMINATOR \<Longrightarrow>
     budget_wf (b\<lparr>b_period := p, b_period_seconds := s, b_rollover_enabled := e, b_rollover_cap := cap,
                  b_rollover_max_bps := m, b_rollover_bps := bps\<rparr>)"
  by (simp add: budget_wf_def)

lemma window_start_wf [simp]: "budget_wf (b\<lparr>b_window_start := t\<rparr>) = budget_wf b"
  "budget_wf (b\<lparr>b_state := rs\<rparr>) = budget_wf b"
  by (simp_all add: budget_wf_def)

lemma set_recurrence_inv:
  assumes "set_recurrence env c bid per secs re cap mbps st = Ok (u, st')" and "cap \<le> i128_max"
    and "timestamp env \<le> u64_max" and "budget_inv st"
  shows "budget_inv st'"
proof -
  from assms(1) obtain b b1 st1 b3 where b: "bs_budgets st bid = Some b"
    and tr: "(if timestamp env < b_window_start b then rbind (budget_not_expired env b) (\<lambda>_. Ok (b, st))
             else window_transition env bid True b st) = Ok (b1, st1)"
    and g: "0 \<le> cap" "0 \<le> mbps" "mbps < BPS_DENOMINATOR"
    and rc: "reclamp (b1\<lparr>b_period := per, b_period_seconds := (if per = PeriodCustom then secs else 0),
        b_rollover_enabled := re, b_rollover_cap := cap, b_rollover_max_bps := mbps,
        b_rollover_bps := (if re \<and> b_rollover_bps b1 = 0 then BPS_DENOMINATOR
          else if \<not> re then 0 else b_rollover_bps b1)\<rparr>) = Ok b3"
    and st': "st' = bs_emit (EvRecurring bid per secs cap) (budget_store bid
        (if \<not> timestamp env < b_window_start b then b3\<lparr>b_window_start := timestamp env\<rparr> else b3) st1)"
    unfolding set_recurrence_def Let_def
    by (elim rbind_OkE if_OkE case_prod_OkE)
       (auto simp only: budget_guards_Ok result.inject prod.inject not_le intro: that)
  have "budget_wf b" using budget_invD(1) [OF assms(4) b] .
  then have "budget_wf b1 \<and> budget_inv st1" using tr transition_inv [OF assms(4) _ _ assms(3)] assms(4)
    by (auto simp: ok_simps split: if_splits)
  moreover from this have "budget_wf b3"
    by (intro reclamp_wf [OF with_fields_wf rc]) (use assms(2) g in \<open>auto simp: budget_wf_def amt_ok_def BPS_DENOMINATOR_def\<close>)
  ultimately show ?thesis unfolding st' by (auto intro: budget_inv_store)
qed

lemma set_rollover_config_inv:
  assumes "set_rollover_config env c bid re bps cap st = Ok (u, st')" and "cap \<le> i128_max"
    and "timestamp env \<le> u64_max" and "budget_inv st"
  shows "budget_inv st'"
proof -
  from assms(1) obtain b b1 st1 b2 where b: "bs_budgets st bid = Some b"
    and tr: "window_transition env bid True b st = Ok (b1, st1)"
    and g: "0 \<le> cap" "0 \<le> bps" "bps \<le> BPS_DENOMINATOR"
    and rc: "reclamp (b1\<lparr>b_rollover_enabled := re, b_rollover_bps := bps, b_rollover_cap := cap\<rparr>) = Ok b2"
    and st': "st' = bs_emit (EvRolloverConfig bid bps cap) (budget_store bid b2 st1)"
    by (auto simp: set_rollover_config_def ok_simps)
  have w: "budget_wf b1 \<and> budget_inv st1"
    using transition_inv [OF assms(4) budget_invD(1) [OF assms(4) b] tr assms(3)] .
  then have "budget_wf (b1\<lparr>b_rollover_enabled := re, b_rollover_bps := bps, b_rollover_cap := cap\<rparr>)"
    using g assms(2) by (simp add: budget_wf_def amt_ok_def)
  then show ?thesis using reclamp_wf [OF _ rc] w unfolding st' by (auto intro: budget_inv_store)
qed

lemma owner_ops_inv:
  "reset env c bid st = Ok (u, st') \<Longrightarrow> budget_inv st \<Longrightarrow> budget_inv st'"
  "freeze env c bid st = Ok (u, st') \<Longrightarrow> budget_inv st \<Longrightarrow> budget_inv st'"
  "unfreeze env c bid st = Ok (u, st') \<Longrightarrow> budget_inv st \<Longrightarrow> budget_inv st'"
  "archive env c bid st = Ok (u, st') \<Longrightarrow> budget_inv st \<Longrightarrow> budget_inv st'"
proof -
  have r: "budget_wf b \<Longrightarrow> budget_wf (b\<lparr>b_spent := 0, b_rollover_credit := 0, b_window_start := t\<rparr>)" for b t
    by (simp add: budget_wf_def)
  show "reset env c bid st = Ok (u, st') \<Longrightarrow> budget_inv st \<Longrightarrow> budget_inv st'"
    by (auto simp: reset_def ok_simps simp del: window_start_wf intro!: budget_inv_store r intro: budget_invD(1))
qed (auto simp: freeze_def unfreeze_def archive_def ok_simps budget_invD(1) intro!: budget_inv_store)

lemma rollover_inv:
  assumes "rollover env c bid st = Ok (u, st')" and "timestamp env \<le> u64_max" and "budget_inv st"
  shows "budget_inv st'"
proof -
  from assms(1) obtain b b1 st1 where b: "bs_budgets st bid = Some b"
    and tr: "window_transition env bid True b st = Ok (b1, st1)" and st': "st' = budget_store bid b1 st1"
    by (auto simp: rollover_def ok_simps)
  then show ?thesis using transition_inv [OF assms(3) budget_invD(1) [OF assms(3) b] tr assms(2)]
    by (auto intro: budget_inv_store)
qed

lemma set_limit_inv:
  assumes "set_limit env c bid l st = Ok (u, st')" and "l \<le> i128_max" and "timestamp env \<le> u64_max"
    and "budget_inv st"
  shows "budget_inv st'"
proof -
  from assms(1) obtain b b1 st1 where b: "bs_budgets st bid = Some b" and l: "0 \<le> l"
    and tr: "window_transition env bid True b st = Ok (b1, st1)"
    and st': "st' = bs_emit (EvSetLimit bid l) (budget_store bid (b1\<lparr>b_limit := l\<rparr>) st1)"
    by (auto simp: set_limit_def ok_simps)
  have w: "budget_wf b1 \<and> budget_inv st1"
    using transition_inv [OF assms(4) budget_invD(1) [OF assms(4) b] tr assms(3)] .
  then show ?thesis using l assms(2) unfolding st'
    by (auto intro!: budget_inv_store simp: budget_wf_def amt_ok_def)
qed

lemma transfer_inv:
  assumes "transfer_allocation env c f t a st = Ok (u, st')" and "budget_inv st"
  shows "budget_inv st'"
proof -
  from assms(1) obtain bf bt where bf: "bs_budgets st f = Some bf" and bt: "bs_budgets st t = Some bt"
    and g: "0 < a" "a \<le> b_limit bf - b_spent bf" "in_i128 (b_limit bt + a)"
    and st': "st' = bs_emit (EvRealloc f t a) (budget_store t (bt\<lparr>b_limit := b_limit bt + a\<rparr>)
      (budget_store f (bf\<lparr>b_limit := b_limit bf - a\<rparr>) st))"
    by (auto simp: transfer_allocation_def ok_simps)
  have "budget_wf bf" "budget_wf bt" using assms(2) bf bt by (auto dest: budget_invD)
  then have "budget_wf (bt\<lparr>b_limit := b_limit bt + a\<rparr>)" "budget_wf (bf\<lparr>b_limit := b_limit bf - a\<rparr>)"
    using g by (auto simp: budget_wf_defs)
  then show ?thesis using assms(2) unfolding st' by (auto intro: budget_inv_store)
qed

lemma consume_inv:
  assumes "consume env c bid a st = Ok (r, st')" and "timestamp env \<le> u64_max" and "budget_inv st"
  shows "budget_inv st'"
proof -
  from assms(1) obtain b0 b st1 ev where b0: "bs_budgets st bid = Some b0" and a: "0 < a"
    and tr: "window_transition env bid True b0 st = Ok (b, st1)" and "in_i128 (b_spent b + a)"
    and st': "st' = bs_emit ev (budget_store bid (b\<lparr>b_spent := b_spent b + a\<rparr>) st1)"
    by (auto simp: consume_def ok_simps split: if_splits)
  moreover have "budget_wf b \<and> budget_inv st1"
    using transition_inv [OF assms(3) budget_invD(1) [OF assms(3) b0] tr assms(2)] .
  ultimately show ?thesis by (auto intro!: budget_inv_store simp: budget_wf_defs)
qed

lemma release_inv:
  assumes "release env c bid a st = Ok (r, st')" and "timestamp env \<le> u64_max" and "budget_inv st"
  shows "budget_inv st'"
proof -
  from assms(1) obtain b0 b st1 where b0: "bs_budgets st bid = Some b0" and "0 < a"
    and tr: "window_transition env bid True b0 st = Ok (b, st1)" and "a \<le> b_spent b"
    and st': "st' = budget_store bid (b\<lparr>b_spent := b_spent b - a\<rparr>) st1"
    by (auto simp: release_def Let_def ok_simps split: if_splits)
  moreover have "budget_wf b \<and> budget_inv st1"
    using transition_inv [OF assms(3) budget_invD(1) [OF assms(3) b0] tr assms(2)] .
  ultimately show ?thesis by (auto intro!: budget_inv_store simp: budget_wf_defs)
qed

lemma remaining_inv:
  assumes "remaining env bid st = Ok (r, st')" and "timestamp env \<le> u64_max" and "budget_inv st"
  shows "budget_inv st'"
proof -
  from assms(1) consider "st' = st" | b b1 st1 where "bs_budgets st bid = Some b"
    "window_transition env bid False b st = Ok (b1, st1)" "st' = budget_store bid b1 st1"
    by (auto simp: remaining_def ok_simps Let_def split: if_splits result.splits)
  then show ?thesis
  proof cases
    case 2
    then show ?thesis using transition_inv [OF assms(3) budget_invD(1) [OF assms(3) 2(1)] 2(2) assms(2)]
      by (auto intro: budget_inv_store)
  qed (use assms in simp)
qed

lemma asset_limit_inv:
  "set_budget_limit env c bid tok l secs st = Ok (u, st') \<Longrightarrow> l \<le> i128_max \<Longrightarrow> budget_inv st \<Longrightarrow> budget_inv st'"
  "set_budget_limit_with_rollover env c bid tok l secs re bps cap st = Ok (u, st') \<Longrightarrow> l \<le> i128_max \<Longrightarrow>
     cap \<le> i128_max \<Longrightarrow> budget_inv st \<Longrightarrow> budget_inv st'"
  by (auto simp: set_budget_limit_def set_budget_limit_with_rollover_def ok_simps Let_def
      asset_wf_def amt_ok_def int_limits BPS_DENOMINATOR_def intro!: budget_inv_put)

lemma asset_config_inv:
  assumes "set_asset_rollover_config env c bid tok re bps cap st = Ok (u, st')" and "cap \<le> i128_max"
    and "budget_inv st"
  shows "budget_inv st'"
proof -
  from assms(1) obtain ab ab1 st1 ev ab3 where ab: "bs_assets st (bid, tok) = Some ab"
    and tr: "asset_window_transition env bid tok True ab st = (ab1, st1)"
    and g: "0 \<le> cap" "0 \<le> bps" "bps \<le> BPS_DENOMINATOR"
    and ab3: "ab3 = (let ab2 = ab1\<lparr>ab_rollover_enabled := re, ab_rollover_bps := bps, ab_max_rollover_cap := cap\<rparr>
        in if \<not> re then ab2\<lparr>ab_rollover_credit := 0\<rparr>
           else if cap > 0 \<and> ab_rollover_credit ab2 > cap then ab2\<lparr>ab_rollover_credit := cap\<rparr> else ab2)"
    and st': "st' = bs_emit ev (put_asset bid tok ab3 st1)"
    unfolding set_asset_rollover_config_def
    by (auto simp: ok_simps Let_def case_prod_eq_Ok)
  note A = asset_transition_inv [OF assms(3) budget_invD(2) [OF assms(3) ab] tr]
  have "asset_wf ab3" using A(1) g assms(2) by (auto simp: ab3 Let_def asset_wf_def amt_ok_def)
  then show ?thesis using A(2) unfolding st' by (auto intro: budget_inv_put)
qed

lemma spend_inv:
  assumes "check_and_record_spend env c bid tok a st = Ok (u, st')" and "budget_inv st"
  shows "budget_inv st'"
proof -
  from assms(1) obtain ab ab1 st1 where ab: "bs_assets st (bid, tok) = Some ab" and "0 < a"
    and tr: "asset_window_transition env bid tok True ab st = (ab1, st1)"
    and "in_i128 (ab_spent ab1 + a)"
    and st': "st' = bs_emit (EvAssetSpend bid tok a) (put_asset bid tok (ab1\<lparr>ab_spent := ab_spent ab1 + a\<rparr>) st1)"
    by (auto simp: check_and_record_spend_def ok_simps case_prod_eq_Ok split: if_splits)
  moreover note A = asset_transition_inv [OF assms(2) budget_invD(2) [OF assms(2) ab] tr]
  ultimately show ?thesis
    by (auto intro!: budget_inv_put simp: asset_wf_def amt_ok_def in_i128_def)
qed

lemma batch_inv:
  "check_and_record_batch_spend env c bid sps st = Ok (u, st') \<Longrightarrow> budget_inv st \<Longrightarrow> budget_inv st'"
  by (auto simp: check_and_record_batch_spend_def ok_simps dest!: batch_pass1_inv intro: batch_pass2_inv)

lemma get_asset_inv:
  "get_asset_budget env bid tok st = Ok (ab, st') \<Longrightarrow> budget_inv st \<Longrightarrow> budget_inv st'"
  "asset_remaining env bid tok st = Ok (r, st') \<Longrightarrow> budget_inv st \<Longrightarrow> budget_inv st'"
  by (auto simp: asset_remaining_def get_asset_budget_def ok_simps split: if_splits
      dest: budget_invD(2) asset_transition_inv(2))

lemma budget_initialize_inv: "budget_initialize a st = Ok (u, st') \<Longrightarrow> budget_inv st \<Longrightarrow> budget_inv st'"
  by (auto simp: budget_initialize_def budget_inv_def ok_simps)

lemma allocate_inv:
  "allocate_at env c bid l per re ad sa ex st = Ok (u, st') \<Longrightarrow> l \<le> i128_max \<Longrightarrow> budget_inv st \<Longrightarrow> budget_inv st'"
  "allocate_with_rollover env c bid l per re bps cap ex st = Ok (u, st') \<Longrightarrow> l \<le> i128_max \<Longrightarrow>
     cap \<le> i128_max \<Longrightarrow> budget_inv st \<Longrightarrow> budget_inv st'"
  by (auto simp: allocate_at_def allocate_with_rollover_def Let_def ok_simps i128_max_def
      elim!: allocate_internal_inv)

lemmas budget_ops_inv =
  budget_initialize_inv allocate_inv set_recurrence_inv set_rollover_config_inv owner_ops_inv rollover_inv
  set_limit_inv transfer_inv consume_inv release_inv remaining_inv asset_limit_inv asset_config_inv
  spend_inv batch_inv get_asset_inv

lemma budget_step_inv: "budget_step st st' \<Longrightarrow> budget_inv st \<Longrightarrow> budget_inv st'"
  by (induction rule: budget_step.induct) (erule budget_ops_inv; assumption)+

interpretation budget_sys: invariant_system "\<lambda>st. st = budget_empty" budget_step budget_inv
proof
  show "st = budget_empty \<Longrightarrow> budget_inv st" for st by (simp add: budget_empty_def budget_inv_def)
qed (rule budget_step_inv)

section \<open>The legs of a batch\<close>

definition leg_spent :: "env \<Rightarrow> asset_spend \<Rightarrow> asset_budget \<Rightarrow> asset_budget" where
  "leg_spent env sp ab =
     (asset_settled env ab)\<lparr>ab_spent := ab_spent (asset_settled env ab) + as_amount sp\<rparr>"

definition leg_ok :: "env \<Rightarrow> string \<Rightarrow> budget_state \<Rightarrow> asset_spend \<Rightarrow> asset_budget \<Rightarrow> bool" where
  "leg_ok env bid st sp x \<longleftrightarrow>
     (\<exists>ab. bs_assets st (bid, as_token sp) = Some ab \<and> 0 < as_amount sp \<and> x = leg_spent env sp ab \<and>
           ab_spent x \<le> ab_limit x)"

abbreviation leg_keys :: "string \<Rightarrow> asset_spend list \<Rightarrow> (string \<times> address) set" where
  "leg_keys bid sps \<equiv> (\<lambda>sp. (bid, as_token sp)) ` set sps"

lemma asset_settled_limit [simp]: "ab_limit (asset_settled env ab) = ab_limit ab"
  by (simp add: asset_settled_def)

lemma batch_pass1_legs:
  assumes "batch_pass1 env bid seen sps acc st = Ok (settled, st')"
  shows "\<exists>new. settled = acc @ new \<and> list_all2 (leg_ok env bid st) sps new \<and>
           distinct (map as_token sps) \<and> set (map as_token sps) \<inter> set seen = {} \<and>
           bs_budgets st' = bs_budgets st \<and>
           (\<forall>k. k \<notin> leg_keys bid sps \<longrightarrow> bs_assets st' k = bs_assets st k)"
  using assms
proof (induction sps arbitrary: seen acc st)
  case Nil
  then show ?case by simp
next
  case (Cons sp sps)
  from Cons.prems [unfolded batch_pass1_Cons] obtain ab ab1 st1 where
    ab: "bs_assets st (bid, as_token sp) = Some ab" "0 < as_amount sp" "as_token sp \<notin> set seen"
    and tr: "asset_window_transition env bid (as_token sp) True ab st = (ab1, st1)"
    and le: "ab_spent ab1 + as_amount sp \<le> ab_limit ab1"
    and rest: "batch_pass1 env bid (seen @ [as_token sp]) sps
      (acc @ [ab1\<lparr>ab_spent := ab_spent ab1 + as_amount sp\<rparr>]) st1 = Ok (settled, st')"
    by blast
  note T = asset_transition_sel [OF tr]
  obtain new where new: "settled = (acc @ [leg_spent env sp ab]) @ new"
    "list_all2 (leg_ok env bid st1) sps new" "distinct (map as_token sps)"
    "set (map as_token sps) \<inter> set (seen @ [as_token sp]) = {}" "bs_budgets st' = bs_budgets st1"
    "\<forall>k. k \<notin> leg_keys bid sps \<longrightarrow> bs_assets st' k = bs_assets st1 k"
    using Cons.IH [OF rest] unfolding T(1) leg_spent_def by blast
  have other: "bs_assets st1 (i, t) = bs_assets st (i, t)" if "t \<noteq> as_token sp" for i t
    using T(3) that by simp
  have "list_all2 (leg_ok env bid st) sps new"
    using new(2)
  proof (rule list.rel_mono_strong)
    fix z x assume "z \<in> set sps" and z: "leg_ok env bid st1 z x"
    then have "as_token z \<in> set (map as_token sps)" by simp
    with new(4) have "as_token z \<notin> set (seen @ [as_token sp])" by blast
    then have "as_token z \<noteq> as_token sp" by simp
    with z show "leg_ok env bid st z x" by (simp add: leg_ok_def other)
  qed
  moreover have "leg_ok env bid st sp (leg_spent env sp ab)"
    using ab le T(1) by (simp add: leg_ok_def leg_spent_def)
  moreover have "\<forall>k. k \<notin> leg_keys bid (sp # sps) \<longrightarrow> bs_assets st' k = bs_assets st k"
    using new(6) T(3) by auto
  ultimately show ?case using new(1,3-5) ab(3) T(2) by (intro exI [of _ "leg_spent env sp ab # new"]) auto
qed

lemma batch_pass2_budgets [simp]: "bs_budgets (batch_pass2 bid sps xs st) = bs_budgets st"
  by (induction bid sps xs st rule: batch_pass2.induct) simp_all

lemma batch_pass2_other: "k \<notin> leg_keys bid sps \<Longrightarrow> bs_assets (batch_pass2 bid sps xs st) k = bs_assets st k"
  by (induction bid sps xs st rule: batch_pass2.induct) auto

lemma batch_pass2_leg:
  "distinct (map as_token sps) \<Longrightarrow> (sp, x) \<in> set (zip sps xs) \<Longrightarrow>
     bs_assets (batch_pass2 bid sps xs st) (bid, as_token sp) = Some x"
proof (induction bid sps xs st rule: batch_pass2.induct)
  case (1 bid sp' sps ab rest st)
  have "(bid, as_token sp') \<notin> leg_keys bid sps" using 1(2) by auto
  then show ?case using 1 by (auto simp: batch_pass2_other)
qed auto

section \<open>Visiting every period\<close>

text \<open>The settlement of one period after the other, each at its own boundary.\<close>

fun visit_periods :: "env \<Rightarrow> string \<Rightarrow> budget_state \<Rightarrow> u64 \<Rightarrow> nat \<Rightarrow> budget \<Rightarrow> budget res" where
  "visit_periods env bid st w 0 b = Ok b"
| "visit_periods env bid st w (Suc k) b =
     rbind (window_transition (env\<lparr>timestamp := b_window_start b + w\<rparr>) bid False b st) (\<lambda>(b', _).
     visit_periods env bid st w k b')"

lemma single_transition:
  assumes "budget_wf b" and "\<not> b_allow_deficit b" and w: "window_of (b_period b) (b_period_seconds b) = Some w"
    and "b_window_start b + w \<le> u64_max" and "timestamp env = b_window_start b + w"
    and "b_expires_at b = 0 \<or> timestamp env < b_expires_at b" and "in_i128 (b_limit b + b_rollover_credit b)"
  shows "window_transition env bid False b st = Ok (settled_budget b 1 w, st)"
proof -
  have w0: "0 < w" using w by (auto simp: window_of_def limit_defs split: period.splits if_splits)
  let ?l = "b_limit b + b_rollover_credit b - b_spent b"
  have wf: "0 \<le> b_spent b" "b_spent b \<le> i128_max" "0 \<le> b_limit b + b_rollover_credit b"
    "0 \<le> b_rollover_bps b" "b_rollover_bps b \<le> BPS_DENOMINATOR"
    using assms(1) by (auto simp: budget_wf_def amt_ok_def)
  have l: "in_i128 ?l" "0 \<le> max 0 ?l" "max 0 ?l \<le> i128_max"
    using assms(7) wf(1-3) by (auto simp: in_i128_def int_limits)
  note c = effective_rollover_cap_eq [OF assms(1)]
  define u where "u = max 0 ?l"
  have u: "(if 0 < ?l then ?l else 0) = u"
      "(if b_spent b < b_limit b + b_rollover_credit b then ?l else 0) = u"
    by (auto simp: u_def)
  have r: "calculate_budget_rollover u (b_rollover_bps b) (cap_of b)
      = Ok (capped (cap_of b) (u * b_rollover_bps b div BPS_DENOMINATOR))"
    using calculate_budget_rollover_eq [OF l(2,3) wf(4,5) c(2)] by (simp add: capped_def u_def BPS_DENOMINATOR_def)
  have carry: "carry_of b 1 = (if b_rollover_enabled b
      then capped (cap_of b) (u * b_rollover_bps b div BPS_DENOMINATOR) else 0)"
    by (simp add: carry_of_def capped_def u_def)
  have calc: "calculate_rollover b (timestamp env) = Ok \<lparr>ro_carry_over = carry_of b 1, ro_periods = 1, ro_is_due = True\<rparr>"
    unfolding carry using assms(2,4,5,7) w w0 l(1) c(1) r
    by (simp add: calculate_rollover_def is_window_expired_def checked_add_word_def Let_def u
        checked_add_def safe_add_def checked_sub_def safe_sub_def as_u64_def)
  show ?thesis
    using assms(2,6,7) w calc
    by (auto simp: window_transition_def Let_def checked_add_def safe_add_def settled_budget_def
        in_deficit_def next_start_def)
qed

lemma capped_absorb:
  "0 \<le> c \<Longrightarrow> 0 \<le> y \<Longrightarrow> capped c (y + capped c x) = capped c (y + x)"
  "0 \<le> c \<Longrightarrow> 0 \<le> y \<Longrightarrow> capped c (capped c x + y) = capped c (x + y)"
  by (auto simp: capped_def)

lemma capped_mono: "x \<le> y \<Longrightarrow> capped c x \<le> capped c y"
  by (auto simp: capped_def)

lemma settled_sel [simp]:
  "b_limit (settled_budget b n w) = b_limit b" "b_period (settled_budget b n w) = b_period b"
  "b_period_seconds (settled_budget b n w) = b_period_seconds b" "b_spent (settled_budget b n w) = 0"
  "b_rollover_enabled (settled_budget b n w) = b_rollover_enabled b"
  "b_rollover_bps (settled_budget b n w) = b_rollover_bps b"
  "b_allow_deficit (settled_budget b n w) = b_allow_deficit b"
  "b_expires_at (settled_budget b n w) = b_expires_at b"
  "b_rollover_cap (settled_budget b n w) = b_rollover_cap b"
  "b_rollover_max_bps (settled_budget b n w) = b_rollover_max_bps b"
  by (simp_all add: settled_budget_def)

lemma cap_of_settled [simp]: "cap_of (settled_budget b n w) = cap_of b"
  by (simp add: cap_of_def Let_def)

text \<open>At the full rate the carry of \<open>n\<close> periods, and the settlement of \<open>n + 1\<close> periods as one
  period followed by \<open>n\<close>.\<close>

lemma carry_of_full:
  assumes "budget_wf b" and "b_rollover_enabled b" and "b_rollover_bps b = BPS_DENOMINATOR" and "0 < n"
  shows "carry_of b n = capped (cap_of b) (max 0 (b_limit b + b_rollover_credit b - b_spent b) + b_limit b * (int n - 1))"
proof -
  have "0 \<le> b_limit b * (int n - 1)" using assms(1,4) by (simp add: budget_wf_def amt_ok_def)
  then show ?thesis
    using capped_absorb(2) [OF effective_rollover_cap_eq(2) [OF assms(1)], of "b_limit b * (int n - 1)"] assms(2,3)
    by (simp add: carry_of_def BPS_DENOMINATOR_def)
qed

lemma settled_settled:
  assumes "budget_wf b" and "budget_wf (settled_budget b 1 w)" and "b_rollover_enabled b"
    and "b_rollover_bps b = BPS_DENOMINATOR" and "\<not> b_allow_deficit b" and "0 < n"
    and "b_window_start b + Suc n * w \<le> u64_max"
  shows "settled_budget (settled_budget b 1 w) n w = settled_budget b (Suc n) w"
proof -
  let ?U = "max 0 (b_limit b + b_rollover_credit b - b_spent b)"
  have L: "0 \<le> b_limit b" using assms(1) by (simp add: budget_wf_def amt_ok_def)
  have c0: "0 \<le> cap_of b" by (rule effective_rollover_cap_eq(2) [OF assms(1)])
  have d: "\<not> in_deficit b" "\<not> in_deficit (settled_budget b 1 w)" using assms(5) by (simp_all add: in_deficit_def)
  have cr: "b_rollover_credit (settled_budget b 1 w) = capped (cap_of b) ?U"
    using carry_of_full [OF assms(1,3,4), of 1] d(1) by (simp add: settled_budget_def)
  have cr0: "0 \<le> capped (cap_of b) ?U" using c0 by (simp add: capped_nonneg)
  have "carry_of (settled_budget b 1 w) n
      = capped (cap_of b) (b_limit b * int n + capped (cap_of b) ?U)"
    using carry_of_full [OF assms(2) _ _ assms(6)] assms(3,4) L cr cr0
    by (simp add: algebra_simps max_def)
  also have "\<dots> = carry_of b (Suc n)"
    using capped_absorb(1) [OF c0, of "b_limit b * int n" ?U] L carry_of_full [OF assms(1,3,4), of "Suc n"]
    by (simp add: add.commute)
  finally have carry: "carry_of (settled_budget b 1 w) n = carry_of b (Suc n)" .
  have "next_start (settled_budget b 1 w) n w = next_start b (Suc n) w"
    using assms(7) by (simp add: next_start_def settled_budget_def sat_add_u64_def sat_mul_u64_def)
  with carry d show ?thesis by (simp add: settled_budget_def)
qed

lemma visit_periods_settle:
  assumes "budget_wf b" and "b_rollover_enabled b" and "b_rollover_bps b = BPS_DENOMINATOR"
    and "\<not> b_allow_deficit b" and "window_of (b_period b) (b_period_seconds b) = Some w"
    and "b_window_start b + Suc n * w \<le> u64_max"
    and "b_expires_at b = 0 \<or> b_window_start b + Suc n * w < b_expires_at b"
    and "in_i128 (b_limit b + b_rollover_credit b)"
    and "in_i128 (b_limit b + carry_of b (Suc n))"
  shows "visit_periods env bid st w (Suc n) b = Ok (settled_budget b (Suc n) w)"
  using assms
proof (induction n arbitrary: b)
  case 0
  then show ?case by (simp add: single_transition)
next
  case (Suc n)
  let ?b = "settled_budget b 1 w"
  have bnd: "b_window_start b + w \<le> u64_max" "b_expires_at b = 0 \<or> b_window_start b + w < b_expires_at b"
    using Suc.prems(6,7) by auto
  have st1: "window_transition (env\<lparr>timestamp := b_window_start b + w\<rparr>) bid False b st = Ok (?b, st)"
    using Suc.prems bnd by (intro single_transition) auto
  have wf: "budget_wf ?b" using window_transition_keeps(1) [OF Suc.prems(1) st1] bnd by simp
  have start: "b_window_start ?b = b_window_start b + w"
    using bnd by (simp add: settled_budget_def next_start_def sat_add_u64_def sat_mul_u64_def)
  have eq: "settled_budget ?b (Suc n) w = settled_budget b (Suc (Suc n)) w"
    by (rule settled_settled [OF Suc.prems(1) wf Suc.prems(2-4)]) (use Suc.prems(6) in simp_all)
  have L: "0 \<le> b_limit b" using Suc.prems(1) by (simp add: budget_wf_def amt_ok_def)
  have cr: "b_rollover_credit ?b = carry_of b 1" "carry_of ?b (Suc n) = carry_of b (Suc (Suc n))"
    using eq Suc.prems(4) by (auto simp: settled_budget_def in_deficit_def dest: arg_cong [of _ _ b_rollover_credit])
  have "carry_of b 1 \<le> carry_of b (Suc (Suc n))"
    using carry_of_full [OF Suc.prems(1-3)] L by (simp add: capped_mono mult_left_mono)
  moreover have "0 \<le> carry_of b 1"
    using wf cr(1) by (simp add: budget_wf_def amt_ok_def)
  ultimately have "in_i128 (b_limit ?b + b_rollover_credit ?b)"
    using Suc.prems(9) L cr(1) by (auto simp: in_i128_def int_limits)
  then have "visit_periods env bid st w (Suc n) ?b = Ok (settled_budget ?b (Suc n) w)"
    using Suc.prems wf start cr(2) by (intro Suc.IH) (simp_all add: algebra_simps)
  then show ?case using st1 eq by simp
qed

section \<open>Properties\<close>

text \<open>Budgets stay well formed: in every state reachable from empty storage by any interleaving
  of the entrypoints, every stored budget has non-negative representable amounts and valid
  percentages, and the computation of its rollover ceiling cannot fail.\<close>

theorem budgets_stay_well_formed:
  assumes "reach (\<lambda>st. st = budget_empty) budget_step st" and "bs_budgets st bid = Some b"
  shows "0 \<le> b_limit b \<and> b_limit b \<le> i128_max \<and> 0 \<le> b_spent b \<and> b_spent b \<le> i128_max \<and>
         0 \<le> b_rollover_credit b \<and> b_rollover_credit b \<le> i128_max \<and> 0 \<le> b_deficit_amount b \<and>
         0 \<le> b_rollover_bps b \<and> b_rollover_bps b \<le> 10000 \<and>
         (\<exists>c. effective_rollover_cap b = Ok c \<and> 0 \<le> c)"
proof -
  have "budget_wf b" using budget_invD(1) [OF budget_sys.reach_inv [OF assms(1)] assms(2)] .
  then show ?thesis using effective_rollover_cap_eq [of b] by (auto simp: budget_wf_def amt_ok_def BPS_DENOMINATOR_def)
qed

theorem budgets_stay_well_formed_witness:
  "\<exists>st b. reach (\<lambda>st. st = budget_empty) budget_step st \<and> bs_budgets st ''ops'' = Some b \<and> b_limit b = 100 \<and>
     0 \<le> b_spent b"
proof -
  define env :: env where "env = \<lparr>timestamp = 10, sequence = 1, this_contract = 9, authorized = (\<lambda>a. a = 1),
              authorized_args = (\<lambda>_ _. False)\<rparr>"
  define st where "st = commit budget_empty (allocate_at env 1 ''ops'' 100 PeriodDaily True False 0 0 budget_empty)"
  have a: "allocate_at env 1 ''ops'' 100 PeriodDaily True False 0 0 budget_empty = Ok ((), st)" and
    b: "\<exists>b. bs_budgets st ''ops'' = Some b \<and> b_limit b = 100"
    by (simp_all add: st_def env_def allocate_at_def allocate_internal_def require_auth_def Let_def
        require_non_empty_def require_valid_limit_def require_non_negative_amount_def BPS_DENOMINATOR_def
        budget_empty_def)
  from a have "budget_step budget_empty st" by (rule bst_allocate_at) (simp add: i128_max_def)
  then have "reach (\<lambda>st. st = budget_empty) budget_step st" by (auto intro: reach_init reach_step)
  then show ?thesis using b budgets_stay_well_formed [of st "''ops''"] by blast
qed

text \<open>C21. The spend gate is exact: for a budget without the deficit option, \<open>consume\<close> succeeds
  exactly when the positive amount is asked by the authorized owner of an active budget whose
  window has started, the pending period transition succeeds, and the amount spent in the settled
  window stays within limit plus rollover credit. It then records exactly the amount, returns
  exactly what is left, and touches nothing else.\<close>

theorem consume_exact:
  assumes "bs_budgets st bid = Some b" and "budget_wf b" and "\<not> b_allow_deficit b"
    and "timestamp env \<le> u64_max"
  shows "consume env caller bid amt st = Ok (rem, st') \<longleftrightarrow>
    0 < amt \<and> authorized env caller \<and> b_owner b = caller \<and> b_state b = Active \<and>
    b_window_start b \<le> timestamp env \<and>
    (\<exists>b1 st1. window_transition env bid True b st = Ok (b1, st1) \<and>
       in_i128 (b_limit b1 + b_rollover_credit b1) \<and>
       b_spent b1 + amt \<le> b_limit b1 + b_rollover_credit b1 \<and>
       rem = b_limit b1 + b_rollover_credit b1 - (b_spent b1 + amt) \<and>
       st' = bs_emit (EvConsumed bid amt rem) (budget_store bid (b1\<lparr>b_spent := b_spent b1 + amt\<rparr>) st1))"
  (is "?L \<longleftrightarrow> ?R")
proof -
  have keep: "\<not> b_allow_deficit b1 \<and> 0 \<le> b_spent b1"
    if "window_transition env bid True b st = Ok (b1, st1)" for b1 st1
    using assms(2) that assms(4)
    by (cases rule: window_transition_cases) (use assms(2,3) in \<open>auto simp: budget_wf_def amt_ok_def\<close>)
  show ?thesis
  proof
    assume ?L
    then show ?R using assms(1) keep by (auto simp: consume_def ok_simps split: if_splits)
  next
    assume ?R
    then obtain b1 st1 where tr: "window_transition env bid True b st = Ok (b1, st1)"
      and r: "in_i128 (b_limit b1 + b_rollover_credit b1)"
        "b_spent b1 + amt \<le> b_limit b1 + b_rollover_credit b1" by blast
    note k = keep [OF tr]
    have "in_i128 (b_spent b1 + amt)" "in_i128 (b_limit b1 + b_rollover_credit b1 - (b_spent b1 + amt))"
      using r k \<open>?R\<close> by (auto simp: in_i128_def int_limits)
    then show ?L using \<open>?R\<close> assms(1) tr k r by (auto simp: consume_def ok_simps not_less)
  qed
qed

theorem consume_exact_witness:
  "let b = \<lparr>b_owner = 1, b_limit = 100, b_spent = 30, b_period = PeriodNone, b_period_seconds = 0,
             b_window_start = 0, b_rollover_enabled = False, b_rollover_credit = 0, b_rollover_cap = 0,
             b_rollover_max_bps = 0, b_rollover_bps = 0, b_allow_deficit = False, b_deficit_amount = 0,
             b_expires_at = 0, b_state = Active\<rparr>;
       st = budget_store ''ops'' b budget_empty;
       env = \<lparr>timestamp = 10, sequence = 1, this_contract = 9, authorized = (\<lambda>a. a = 1),
              authorized_args = (\<lambda>_ _. False)\<rparr> in
   \<exists>st'. consume env 1 ''ops'' 70 st = Ok (0, st') \<and> \<not> (\<exists>st'. consume env 1 ''ops'' 71 st = Ok (-1, st'))"
proof -
  define b where "b = \<lparr>b_owner = 1, b_limit = 100, b_spent = 30, b_period = PeriodNone, b_period_seconds = 0,
             b_window_start = 0, b_rollover_enabled = False, b_rollover_credit = 0, b_rollover_cap = 0,
             b_rollover_max_bps = 0, b_rollover_bps = 0, b_allow_deficit = False, b_deficit_amount = 0,
             b_expires_at = 0, b_state = Active\<rparr>"
  define st where "st = budget_store ''ops'' b budget_empty"
  define env :: env where "env = \<lparr>timestamp = 10, sequence = 1, this_contract = 9, authorized = (\<lambda>a. a = 1),
              authorized_args = (\<lambda>_ _. False)\<rparr>"
  have h: "bs_budgets st ''ops'' = Some b" "budget_wf b" "\<not> b_allow_deficit b" "timestamp env \<le> u64_max"
    by (simp_all add: st_def b_def env_def budget_wf_def amt_ok_def int_limits BPS_DENOMINATOR_def)
  have tr: "window_transition env ''ops'' True b st = Ok (b, st)"
    by (simp add: window_transition_def calculate_rollover_def window_of_def b_def env_def)
  have "\<exists>st'. consume env 1 ''ops'' 70 st = Ok (0, st')"
    unfolding consume_exact [OF h] using tr by (simp add: b_def env_def in_i128_def int_limits)
  moreover have "\<not> (\<exists>st'. consume env 1 ''ops'' 71 st = Ok (-1, st'))"
    unfolding consume_exact [OF h] using tr by (simp add: b_def)
  ultimately show ?thesis unfolding Let_def b_def st_def env_def by blast
qed

text \<open>C22. A period transition is what the preview announced, on the grid of the original anchor: the
  new window starts a whole number of periods after the old one and contains the current time, the
  spending restarts at zero, the credit is the announced carry within the rollover ceiling, and an
  overspent window of a deficit budget is booked as debt instead.\<close>

theorem transition_exact:
  assumes "bs_budgets st bid = Some b" and "budget_wf b" and "timestamp env \<le> u64_max"
    and "window_transition env bid pub b st = Ok (b', st')"
  shows "\<exists>out. rollover_preview env bid st = Ok out \<and>
    (if \<not> ro_is_due out then b' = b
     else \<exists>w. window_of (b_period b) (b_period_seconds b) = Some w \<and> b_spent b' = 0 \<and>
          b_window_start b' = b_window_start b + ro_periods out * w \<and>
          b_window_start b' \<le> timestamp env \<and> timestamp env < b_window_start b' + w \<and>
          (if b_allow_deficit b \<and> b_spent b > b_limit b + b_rollover_credit b
           then b_rollover_credit b' = 0 \<and> b_deficit_amount b' = b_deficit_amount b - ro_carry_over out
           else b_rollover_credit b' = ro_carry_over out \<and> b_deficit_amount b' = b_deficit_amount b \<and>
                0 \<le> b_rollover_credit b' \<and> (0 < cap_of b \<longrightarrow> b_rollover_credit b' \<le> cap_of b)))"
proof -
  from assms(4) obtain out where out: "calculate_rollover b (timestamp env) = Ok out"
    and exp: "b_expires_at b = 0 \<or> timestamp env < b_expires_at b"
    by (auto simp: window_transition_def Let_def ok_simps)
  then have pre: "rollover_preview env bid st = Ok out"
    using assms(1) by (auto simp: rollover_preview_def budget_load_def)
  from assms(2) out assms(3) show ?thesis
  proof (cases rule: calculate_rollover_cases)
    case idle
    then show ?thesis using assms(4) out exp pre by (auto simp: window_transition_def Let_def)
  next
    case (due w n)
    from assms(2,4,3) have b': "b' = settled_budget b n w" and wf: "budget_wf b'"
      by (cases rule: window_transition_cases; use due(2,4,5) in simp)+
    have nw: "n * w \<le> timestamp env - b_window_start b" unfolding due(5) by (rule div_times_less_eq_dividend)
    have lt: "timestamp env - b_window_start b < n * w + w"
      unfolding due(5) using div_mult_mod_eq [of "timestamp env - b_window_start b" w]
        mod_less_divisor [OF due(3), of "timestamp env - b_window_start b"] by linarith
    have le: "b_window_start b + n * w \<le> timestamp env" using nw due(4) by linarith
    then have start: "b_window_start b' = b_window_start b + n * w"
      using assms(3) by (simp add: b' settled_budget_def next_start_def sat_add_u64_def sat_mul_u64_def)
    have "0 < cap_of b \<longrightarrow> carry_of b n \<le> cap_of b" using effective_rollover_cap_eq(2) [OF assms(2)]
      by (simp add: carry_of_def capped_def)
    moreover have "0 \<le> b_rollover_credit b'" using wf by (simp add: budget_wf_def amt_ok_def)
    ultimately show ?thesis using pre due(1,2,3,7,10) le lt start
      by (intro exI [of _ out]) (auto simp: b' settled_budget_def in_deficit_def)
  qed
qed

definition sample_env :: "u64 \<Rightarrow> env" where
  "sample_env t = \<lparr>timestamp = t, sequence = 1, this_contract = 9, authorized = (\<lambda>a. a = 1),
     authorized_args = (\<lambda>_ _. False)\<rparr>"

definition sample_budget :: "i128 \<Rightarrow> budget" where
  "sample_budget bps = \<lparr>b_owner = 1, b_limit = 100, b_spent = 0, b_period = PeriodDaily, b_period_seconds = 0,
     b_window_start = 0, b_rollover_enabled = True, b_rollover_credit = 0, b_rollover_cap = 0,
     b_rollover_max_bps = 0, b_rollover_bps = bps, b_allow_deficit = False, b_deficit_amount = 0,
     b_expires_at = 0, b_state = Active\<rparr>"

lemma sample_wf: "0 \<le> bps \<Longrightarrow> bps \<le> 10000 \<Longrightarrow> budget_wf (sample_budget bps)"
  by (simp add: sample_budget_def budget_wf_def amt_ok_def int_limits BPS_DENOMINATOR_def)

lemma sample_transition:
  "window_transition (sample_env 200000) bid False (sample_budget 10000) st
     = Ok (settled_budget (sample_budget 10000) 2 86400, st)"
  by (simp add: sample_env_def sample_budget_def window_transition_def calculate_rollover_def Let_def
      is_window_expired_def window_of_def limit_defs checked_add_word_def int_limits checked_add_def
      checked_sub_def safe_add_def safe_sub_def in_i128_def effective_rollover_cap_def
      percentage_of_limit_def calculate_budget_rollover_def BPS_DENOMINATOR_def safe_div_def checked_rem_def
      safe_mul_def accrue_idle_periods_def checked_mul_def apply_cap_def settled_budget_def in_deficit_def
      carry_of_def capped_def cap_of_def next_start_def as_u64_def sdiv_nonneg smod_nonneg)

theorem transition_exact_witness:
  "\<exists>out. rollover_preview (sample_env 200000) ''ops'' (budget_store ''ops'' (sample_budget 10000) budget_empty) = Ok out
     \<and> ro_periods out = 2"
proof -
  let ?st = "budget_store ''ops'' (sample_budget 10000) budget_empty"
  have h: "bs_budgets ?st ''ops'' = Some (sample_budget 10000)" "timestamp (sample_env 200000) \<le> u64_max"
    by (simp_all add: sample_env_def u64_max_def)
  have s: "b_window_start (settled_budget (sample_budget 10000) 2 86400) = 172800" "b_window_start (sample_budget 10000) = 0"
    "window_of (b_period (sample_budget 10000)) (b_period_seconds (sample_budget 10000)) = Some 86400"
    by (simp_all add: settled_budget_def next_start_def sample_budget_def sat_add_u64_def sat_mul_u64_def u64_max_def
        window_of_def limit_defs)
  from transition_exact [OF h(1) sample_wf h(2) sample_transition] show ?thesis
    using s by (auto split: if_splits)
qed

text \<open>At the full rollover rate, settling lazily is settling in time: one transition over all
  elapsed periods leaves the budget exactly as if every period had been settled at its own
  boundary, whenever the settled budget is usable at all (its limit and credit add up).\<close>

theorem lazy_settlement_agrees:
  assumes "budget_wf b" and "b_rollover_enabled b" and "b_rollover_bps b = BPS_DENOMINATOR"
    and "\<not> b_allow_deficit b" and "timestamp env \<le> u64_max"
    and "window_transition env bid pub b st = Ok (b', st')"
    and "window_of (b_period b) (b_period_seconds b) = Some w" and "b_window_start b + w \<le> timestamp env"
    and "in_i128 (b_limit b' + b_rollover_credit b')"
  shows "visit_periods env bid st w ((timestamp env - b_window_start b) div w) b = Ok b'"
  using assms(1,6,5)
proof (cases rule: window_transition_cases)
  case idle
  then show ?thesis using assms(7,8) by auto
next
  case (due w' n)
  then have w: "w' = w" using assms(7) by simp
  from due(6) obtain k where k: "n = Suc k" by (cases n) auto
  have "n * w \<le> timestamp env - b_window_start b" unfolding due(5) w by (rule div_times_less_eq_dividend)
  then have le: "b_window_start b + Suc k * w \<le> timestamp env" using assms(8) k by simp
  have cr: "b_rollover_credit b' = carry_of b (Suc k)" "b_limit b' = b_limit b"
    using due(11) assms(4) k by (simp_all add: settled_budget_def in_deficit_def)
  have "visit_periods env bid st w (Suc k) b = Ok (settled_budget b (Suc k) w)"
    using assms(1-5,7,9) due(1,9) le cr by (intro visit_periods_settle) auto
  moreover have "(timestamp env - b_window_start b) div w = Suc k" "b' = settled_budget b (Suc k) w"
    using due(5,11) w k by simp_all
  ultimately show ?thesis by (simp only:)
qed

theorem lazy_settlement_agrees_witness:
  "visit_periods (sample_env 200000) ''ops'' budget_empty 86400 2 (sample_budget 10000)
     = Ok (settled_budget (sample_budget 10000) 2 86400)"
proof -
  have c: "b_rollover_credit (settled_budget (sample_budget 10000) 2 86400) = 200"
    by (simp add: settled_budget_def in_deficit_def carry_of_def capped_def cap_of_def sample_budget_def
        BPS_DENOMINATOR_def)
  have "visit_periods (sample_env 200000) ''ops'' budget_empty 86400
      ((timestamp (sample_env 200000) - b_window_start (sample_budget 10000)) div 86400) (sample_budget 10000)
     = Ok (settled_budget (sample_budget 10000) 2 86400)"
    by (rule lazy_settlement_agrees [OF sample_wf _ _ _ _ sample_transition])
       (use c in \<open>simp_all add: sample_env_def sample_budget_def BPS_DENOMINATOR_def u64_max_def window_of_def
          limit_defs in_i128_def int_limits\<close>)
  then show ?thesis by (simp add: sample_env_def sample_budget_def)
qed

text \<open>Below the full rate the two differ: at one half, two days without spending settled lazily
  carry 150 on a limit of 100, because the idle day is added in full, while settling each day at
  its boundary carries 75. The documentation of the transition says they are the same.\<close>

theorem lazy_settlement_differs_at_half_rate:
  "\<exists>b1 b2. window_transition (sample_env 200000) ''ops'' False (sample_budget 5000) budget_empty = Ok (b1, budget_empty) \<and>
     visit_periods (sample_env 200000) ''ops'' budget_empty 86400 2 (sample_budget 5000) = Ok b2 \<and>
     b_window_start b1 = b_window_start b2 \<and> b_rollover_credit b1 = 150 \<and> b_rollover_credit b2 = 75"
proof -
  let ?b1 = "(sample_budget 5000)\<lparr>b_rollover_credit := 150, b_window_start := 172800\<rparr>"
  let ?b2 = "(sample_budget 5000)\<lparr>b_rollover_credit := 75, b_window_start := 172800\<rparr>"
  note D = sample_env_def sample_budget_def window_transition_def calculate_rollover_def Let_def
      is_window_expired_def window_of_def limit_defs checked_add_word_def int_limits checked_add_def
      checked_sub_def safe_add_def safe_sub_def in_i128_def effective_rollover_cap_def
      percentage_of_limit_def calculate_budget_rollover_def BPS_DENOMINATOR_def safe_div_def checked_rem_def
      safe_mul_def accrue_idle_periods_def checked_mul_def apply_cap_def as_u64_def sdiv_nonneg smod_nonneg
      sat_add_u64_def sat_mul_u64_def
  have "window_transition (sample_env 200000) ''ops'' False (sample_budget 5000) budget_empty = Ok (?b1, budget_empty)"
    by (simp add: D)
  moreover have "visit_periods (sample_env 200000) ''ops'' budget_empty 86400 2 (sample_budget 5000) = Ok ?b2"
    by (simp add: D numeral_2_eq_2)
  ultimately show ?thesis by (auto simp: sample_budget_def)
qed

text \<open>A batch of token spends is all or nothing and within its limits: when it succeeds, the
  tokens are distinct, every leg is recorded exactly on top of its settled window and fits under
  the token's limit, and no other allowance and no budget changes.\<close>

theorem batch_spend_exact:
  assumes "check_and_record_batch_spend env caller bid spends st = Ok (u, st')"
  shows "distinct (map as_token spends) \<and>
    (\<forall>sp\<in>set spends. 0 < as_amount sp \<and> (\<exists>ab. bs_assets st (bid, as_token sp) = Some ab \<and>
       bs_assets st' (bid, as_token sp) = Some (leg_spent env sp ab) \<and>
       ab_spent (asset_settled env ab) + as_amount sp \<le> ab_limit ab)) \<and>
    (\<forall>k. k \<notin> leg_keys bid spends \<longrightarrow> bs_assets st' k = bs_assets st k) \<and>
    bs_budgets st' = bs_budgets st"
proof -
  from assms obtain xs st1 where p1: "batch_pass1 env bid [] spends [] st = Ok (xs, st1)"
    and st': "st' = batch_pass2 bid spends xs st1"
    by (auto simp: check_and_record_batch_spend_def ok_simps)
  from batch_pass1_legs [OF p1] have legs: "list_all2 (leg_ok env bid st) spends xs"
    and d: "distinct (map as_token spends)" and b: "bs_budgets st1 = bs_budgets st"
    and oth: "\<forall>k. k \<notin> leg_keys bid spends \<longrightarrow> bs_assets st1 k = bs_assets st k" by auto
  have "0 < as_amount sp \<and> (\<exists>ab. bs_assets st (bid, as_token sp) = Some ab \<and>
       bs_assets st' (bid, as_token sp) = Some (leg_spent env sp ab) \<and>
       ab_spent (asset_settled env ab) + as_amount sp \<le> ab_limit ab)" if sp: "sp \<in> set spends" for sp
  proof -
    from sp obtain i where i: "i < length spends" "spends ! i = sp" by (auto simp: in_set_conv_nth)
    have len: "length xs = length spends" using legs by (simp add: list_all2_lengthD)
    have "(sp, xs ! i) \<in> set (zip spends xs)" using i len by (force simp: set_zip)
    then have "bs_assets st' (bid, as_token sp) = Some (xs ! i)" unfolding st' by (rule batch_pass2_leg [OF d])
    moreover have "leg_ok env bid st sp (xs ! i)" using list_all2_nthD [OF legs i(1)] i(2) by simp
    ultimately show ?thesis by (auto simp: leg_ok_def leg_spent_def)
  qed
  then show ?thesis using d b oth by (auto simp: st' batch_pass2_other)
qed

definition sample_asset :: "i128 \<Rightarrow> asset_budget" where
  "sample_asset l = \<lparr>ab_limit = l, ab_spent = 0, ab_window_seconds = 0, ab_window_start = 0,
     ab_rollover_enabled = False, ab_rollover_credit = 0, ab_rollover_bps = 0, ab_max_rollover_cap = 0\<rparr>"

definition sample_assets :: budget_state where
  "sample_assets = put_asset ''ops'' 6 (sample_asset 20) (put_asset ''ops'' 5 (sample_asset 10)
     (budget_store ''ops'' (sample_budget 10000) budget_empty))"

theorem batch_spend_exact_witness:
  "\<exists>st'. check_and_record_batch_spend (sample_env 10) 1 ''ops''
       [\<lparr>as_token = 5, as_amount = 10\<rparr>, \<lparr>as_token = 6, as_amount = 7\<rparr>] sample_assets = Ok ((), st') \<and>
     map_option ab_spent (bs_assets st' (''ops'', 5)) = Some 10 \<and>
     map_option ab_spent (bs_assets st' (''ops'', 6)) = Some 7"
proof -
  let ?sps = "[\<lparr>as_token = 5, as_amount = 10\<rparr>, \<lparr>as_token = 6, as_amount = 7\<rparr>]"
  let ?st' = "commit sample_assets (check_and_record_batch_spend (sample_env 10) 1 ''ops'' ?sps sample_assets)"
  have r: "check_and_record_batch_spend (sample_env 10) 1 ''ops'' ?sps sample_assets = Ok ((), ?st')"
    by (simp add: check_and_record_batch_spend_def sample_env_def sample_assets_def sample_budget_def
        sample_asset_def limit_defs require_owner_def require_auth_def budget_load_def require_active_def
        require_started_def budget_not_expired_def require_positive_amount_def asset_window_transition_def
        checked_add_def safe_add_def in_i128_def int_limits)
  have "bs_assets sample_assets (''ops'', 5) = Some (sample_asset 10)"
    "bs_assets sample_assets (''ops'', 6) = Some (sample_asset 20)"
    by (simp_all add: sample_assets_def)
  moreover have "ab_spent (asset_settled (sample_env 10) (sample_asset l)) = 0" for l
    by (simp add: asset_settled_def asset_idle_def sample_asset_def)
  ultimately show ?thesis using r batch_spend_exact [OF r] by (auto simp: leg_spent_def)
qed

text \<open>A deficit budget without booked debt has no ceiling inside its window: however far it is
  already overspent, every further positive amount its owner asks for is accepted and recorded, in
  a state where the same applies again. The comment at the check says that only the first
  overspend is permitted.\<close>

theorem deficit_overspend_unbounded:
  assumes "bs_budgets st bid = Some b" and "b_allow_deficit b" and "b_deficit_amount b = 0"
    and "authorized env (b_owner b)" and "b_state b = Active" and "b_window_start b \<le> timestamp env"
    and "b_expires_at b = 0 \<or> timestamp env < b_expires_at b"
    and "window_of (b_period b) (b_period_seconds b) = Some w"
    and "timestamp env < b_window_start b + w" and "b_window_start b + w \<le> u64_max"
    and "0 \<le> b_spent b" and "0 < amt" and "b_spent b + amt \<le> i128_max"
    and "0 \<le> b_limit b + b_rollover_credit b" and "b_limit b + b_rollover_credit b \<le> i128_max"
  shows "\<exists>rem st'. consume env (b_owner b) bid amt st = Ok (rem, st') \<and>
    rem = b_limit b + b_rollover_credit b - (b_spent b + amt) \<and>
    bs_budgets st' bid = Some (b\<lparr>b_spent := b_spent b + amt\<rparr>)"
proof -
  have tr: "window_transition env bid True b st = Ok (b, st)"
    using assms(7-10) by (auto simp: window_transition_def calculate_rollover_def is_window_expired_def
        checked_add_word_def Let_def)
  let ?c = "b_limit b + b_rollover_credit b"
  have r: "in_i128 ?c" "in_i128 (b_spent b + amt)" "in_i128 (?c - (b_spent b + amt))"
    using assms(11-15) by (auto simp: in_i128_def int_limits)
  show ?thesis using assms(1-6,12) tr r
    by (simp add: consume_def require_positive_amount_def require_owner_def require_auth_def budget_load_def
        require_active_def require_started_def checked_add_def checked_sub_def safe_add_def safe_sub_def)
qed

theorem deficit_overspend_unbounded_witness:
  "\<exists>rem st'. consume (sample_env 10) 1 ''ops'' 1000000
     (budget_store ''ops'' ((sample_budget 0)\<lparr>b_allow_deficit := True, b_spent := 5000\<rparr>) budget_empty) = Ok (rem, st') \<and>
     rem = - 1004900"
proof -
  let ?b = "(sample_budget 0)\<lparr>b_allow_deficit := True, b_spent := 5000\<rparr>"
  have "\<exists>rem st'. consume (sample_env 10) (b_owner ?b) ''ops'' 1000000 (budget_store ''ops'' ?b budget_empty) = Ok (rem, st') \<and>
    rem = b_limit ?b + b_rollover_credit ?b - (b_spent ?b + 1000000) \<and>
    bs_budgets st' ''ops'' = Some (?b\<lparr>b_spent := b_spent ?b + 1000000\<rparr>)"
    by (rule deficit_overspend_unbounded [where w = 86400])
       (simp_all add: sample_budget_def sample_env_def window_of_def limit_defs int_limits)
  then show ?thesis by (auto simp: sample_budget_def)
qed

end
