(* ===== verification/Escrow.thy ===== *)
theory Escrow
  imports Upgrade Token
begin

text \<open>
  The escrow contract: the records and storage helpers of \<^verbatim>\<open>contracts/escrow/src/storage.rs\<close> and the
  entrypoints and views of \<^verbatim>\<open>contracts/escrow/src/lib.rs\<close>. An entrypoint maps the storage
  \<open>escrow_state\<close> and the token world \<open>'w\<close> to a result. Code outside the repository is a parameter:
  the token contracts \<open>tk\<close>, and the host's cryptography \<open>crypto\<close> (address serialisation, the
  network id, SHA-256 and ed25519) behind the signature override. Time-to-live extensions have no
  effect on the modelled state.
\<close>

section \<open>Records\<close>

datatype release_type = RtNone | RtCliff | RtLinear

record release_schedule =
  sc_type :: release_type
  sc_start :: u64
  sc_cliff :: u64
  sc_end :: u64

definition schedule_none :: release_schedule where
  "schedule_none = \<lparr>sc_type = RtNone, sc_start = 0, sc_cliff = 0, sc_end = 0\<rparr>"

datatype escrow_status = EsCreated | EsFunded | EsReleased | EsRefunded | EsExpired | EsClosed

datatype milestone_status = MsPending | MsCompleted | MsDisputed

record milestone =
  ml_index :: u32
  ml_description :: string
  ml_release_bps :: u32
  ml_status :: milestone_status

record milestone_spec =
  spec_description :: string
  spec_release_bps :: u32

record milestone_set =
  mset_milestones :: "milestone list"
  mset_released :: i128
  mset_cancelled :: bool

record escrow =
  es_sender :: address
  es_recipient :: address
  es_arbiter :: address
  es_assets :: "asset_amount list"
  es_status :: escrow_status
  es_deadline :: u64
  es_grace_period :: u64
  es_refund_window :: u64
  es_funded_amount :: i128
  es_memo :: string
  es_schedule :: release_schedule
  es_released_amount :: i128
  es_override_signers :: "bytes list"
  es_override_threshold :: u32
  es_override_nonce :: u64

record release_condition =
  rc_participants :: "address list"
  rc_threshold :: u32
  rc_approvals :: u32

record override_signature =
  os_public_key :: bytes
  os_signature :: bytes

record release_condition_config =
  cfg_sender :: address
  cfg_recipient :: address
  cfg_arbiter :: address
  cfg_assets :: "asset_amount list"
  cfg_deadline :: u64
  cfg_grace_period :: u64
  cfg_refund_window :: u64
  cfg_memo :: string
  cfg_override_signers :: "bytes list"
  cfg_override_threshold :: u32
  cfg_participants :: "address list"
  cfg_approval_threshold :: u32

datatype escrow_event =
    EeToken string address
  | EeFunded u64 address address "asset_amount list"
  | EeCreated u64 address address "asset_amount list" u64
  | EeApproval u64 address u32 u32
  | EeInitTimelock u64 address address "asset_amount list" u64
  | EeScheduled u64 address address "asset_amount list" i128 u64 u64
  | EeTransfer address address address i128
  | EeWithdraw u64 address i128 i128
  | EeClaimed u64 address i128
  | EeReleasedTo u64 address "asset_amount list"
  | EeReleased u64 address i128
  | EeOverride u64 u64
  | EeExpired u64
  | EeRefundedTo u64 address "asset_amount list"
  | EeRefunded string u64 address
  | EeMilestone u64 address address address i128
  | EeMilestoneChange string u64 address u32
  | EeMilestonePaid u64 address u32 i128
  | EeMilestonesCancelled u64 address i128

record escrow_state =
  ec_count :: "u64 option"
  ec_admin :: "address option"
  ec_escrows :: "u64 \<rightharpoonup> escrow"
  ec_milestones :: "u64 \<rightharpoonup> milestone_set"
  ec_approved :: "address \<rightharpoonup> bool"
  ec_token_list :: "address list option"
  ec_conditions :: "u64 \<rightharpoonup> release_condition"
  ec_approvals :: "u64 \<times> address \<rightharpoonup> bool"
  ec_events :: "escrow_event list"

definition escrow_empty :: escrow_state where
  "escrow_empty = \<lparr>ec_count = None, ec_admin = None, ec_escrows = Map.empty, ec_milestones = Map.empty,
     ec_approved = Map.empty, ec_token_list = None, ec_conditions = Map.empty, ec_approvals = Map.empty,
     ec_events = []\<rparr>"

definition ec_emit :: "escrow_event list \<Rightarrow> escrow_state \<Rightarrow> escrow_state" where
  "ec_emit es st = st\<lparr>ec_events := ec_events st @ es\<rparr>"

definition EscrowLocked :: error where
  "EscrowLocked = TimelockNotExpired"

definition MAX_ESCROW_TOKENS :: u32 where
  "MAX_ESCROW_TOKENS = 32"

section \<open>Storage helpers\<close>

definition get_count :: "escrow_state \<Rightarrow> u64" where
  "get_count st = unwrap_or (ec_count st) 0"

definition increment_count :: "escrow_state \<Rightarrow> (u64 \<times> escrow_state) res" where
  "increment_count st =
     rbind (checked_add (int (get_count st)) 1) (\<lambda>n.
     let nxt = as_u64 n in Ok (nxt, st\<lparr>ec_count := Some nxt\<rparr>))"

definition load_escrow :: "escrow_state \<Rightarrow> u64 \<Rightarrow> escrow res" where
  "load_escrow st i = ok_or (ec_escrows st i) NotFound"

definition store_escrow :: "u64 \<Rightarrow> escrow \<Rightarrow> escrow_state \<Rightarrow> escrow_state" where
  "store_escrow i e st = st\<lparr>ec_escrows := (ec_escrows st)(i \<mapsto> e)\<rparr>"

definition store_milestones :: "u64 \<Rightarrow> milestone_set \<Rightarrow> escrow_state \<Rightarrow> escrow_state" where
  "store_milestones i ms st = st\<lparr>ec_milestones := (ec_milestones st)(i \<mapsto> ms)\<rparr>"

definition load_release_condition :: "escrow_state \<Rightarrow> u64 \<Rightarrow> release_condition option" where
  "load_release_condition st i = ec_conditions st i"

definition store_release_condition :: "u64 \<Rightarrow> release_condition \<Rightarrow> escrow_state \<Rightarrow> escrow_state" where
  "store_release_condition i c st = st\<lparr>ec_conditions := (ec_conditions st)(i \<mapsto> c)\<rparr>"

definition has_release_approval :: "escrow_state \<Rightarrow> u64 \<Rightarrow> address \<Rightarrow> bool" where
  "has_release_approval st i who = unwrap_or (ec_approvals st (i, who)) False"

definition mark_release_approval :: "u64 \<Rightarrow> address \<Rightarrow> escrow_state \<Rightarrow> escrow_state" where
  "mark_release_approval i who st = st\<lparr>ec_approvals := (ec_approvals st)((i, who) \<mapsto> True)\<rparr>"

section \<open>Vesting\<close>

definition calculate_vested_amount :: "i128 \<Rightarrow> release_schedule \<Rightarrow> u64 \<Rightarrow> i128 res" where
  "calculate_vested_amount amt sc now =
     (case sc_type sc of
        RtNone \<Rightarrow> Ok 0
      | RtCliff \<Rightarrow>
          if sc_end sc < sc_start sc \<or> sc_cliff sc < sc_start sc \<or> sc_cliff sc > sc_end sc
          then Err InvalidInput
          else if now < sc_cliff sc \<or> now < sc_start sc then Ok 0
          else if now \<ge> sc_end sc then Ok amt else Ok 0
      | RtLinear \<Rightarrow>
          if sc_end sc \<le> sc_start sc \<or> sc_cliff sc < sc_start sc \<or> sc_cliff sc > sc_end sc
          then Err InvalidInput
          else if now < sc_cliff sc \<or> now < sc_start sc then Ok 0
          else if now \<ge> sc_end sc then Ok amt
          else let total_duration = int (sc_end sc - sc_start sc) in
               if total_duration = 0 then Ok amt
               else let elapsed = int (now - sc_start sc) in
                    rbind (checked_mul amt elapsed) (\<lambda>x. checked_div x total_duration))"

definition calculate_claimable_amount :: "escrow \<Rightarrow> u64 \<Rightarrow> i128 res" where
  "calculate_claimable_amount e now =
     (if sc_type (es_schedule e) = RtCliff \<or> sc_type (es_schedule e) = RtLinear
      then rbind (calculate_vested_amount (es_funded_amount e) (es_schedule e) now) (\<lambda>vested.
           rbind (checked_sub vested (es_released_amount e)) (\<lambda>claimable.
           if claimable < 0 then Ok 0 else Ok claimable))
      else Ok 0)"

section \<open>Internal helpers\<close>

definition is_token_approved_internal :: "escrow_state \<Rightarrow> address \<Rightarrow> bool" where
  "is_token_approved_internal st token = unwrap_or (ec_approved st token) False"

definition require_token_approved :: "escrow_state \<Rightarrow> address \<Rightarrow> unit res" where
  "require_token_approved st token =
     (if is_token_approved_internal st token then Ok () else Err AssetNotAuthorized)"

fun require_tokens_approved :: "escrow_state \<Rightarrow> asset_amount list \<Rightarrow> unit res" where
  "require_tokens_approved st [] = Ok ()"
| "require_tokens_approved st (a # as) =
     rbind (require_token_approved st (asset a)) (\<lambda>_. require_tokens_approved st as)"

definition approved_token_list :: "escrow_state \<Rightarrow> address list" where
  "approved_token_list st = unwrap_or (ec_token_list st) []"

definition store_approved_token_list :: "address list \<Rightarrow> escrow_state \<Rightarrow> escrow_state" where
  "store_approved_token_list l st = st\<lparr>ec_token_list := Some l\<rparr>"

definition load_admin :: "escrow_state \<Rightarrow> address res" where
  "load_admin st = ok_or (ec_admin st) NotInitialized"

definition es_require_admin :: "env \<Rightarrow> escrow_state \<Rightarrow> address \<Rightarrow> address res" where
  "es_require_admin env st caller =
     rbind (load_admin st) (\<lambda>admin.
     if admin \<noteq> caller then Err Unauthorized
     else rbind (require_auth env caller) (\<lambda>_. Ok admin))"

definition emit_token_change :: "address \<Rightarrow> string \<Rightarrow> escrow_state \<Rightarrow> escrow_state" where
  "emit_token_change token action st = ec_emit [EeToken action token] st"

text \<open>The index loop of \<open>validate_assets\<close>: amounts positive, no later entry with the same asset.\<close>

fun validate_asset_loop :: "asset_amount list \<Rightarrow> unit res" where
  "validate_asset_loop [] = Ok ()"
| "validate_asset_loop (a # as) =
     rbind (require_positive_amount (amount a)) (\<lambda>_.
     if list_ex (\<lambda>b. asset b = asset a) as then Err InvalidInput else validate_asset_loop as)"

definition validate_assets :: "escrow_state \<Rightarrow> asset_amount list \<Rightarrow> unit res" where
  "validate_assets st assets =
     rbind (require_tokens_approved st assets) (\<lambda>_.
     if assets = [] \<or> length assets > MAX_ESCROW_ASSETS then Err InvalidInput
     else validate_asset_loop assets)"

definition validate_release_condition :: "address list \<Rightarrow> u32 \<Rightarrow> unit res" where
  "validate_release_condition participants thr =
     (if participants = [] then if thr \<noteq> 0 then Err InvalidThreshold else Ok ()
      else if length participants > MAX_SIGNERS then Err TooManySigners
      else if thr = 0 \<or> thr > length participants then Err InvalidThreshold
      else if has_duplicate participants then Err InvalidInput else Ok ())"

definition validate_override_config :: "bytes list \<Rightarrow> u32 \<Rightarrow> unit res" where
  "validate_override_config signers thr =
     (if signers = [] then if thr \<noteq> 0 then Err InvalidThreshold else Ok ()
      else if length signers > MAX_SIGNERS then Err TooManySigners
      else if thr = 0 \<or> thr > length signers then Err InvalidThreshold
      else if has_duplicate signers then Err InvalidInput else Ok ())"

definition require_release_approvals :: "escrow_state \<Rightarrow> u64 \<Rightarrow> unit res" where
  "require_release_approvals st i =
     (case load_release_condition st i of
        Some c \<Rightarrow> if rc_approvals c < rc_threshold c then Err ThresholdNotMet else Ok ()
      | None \<Rightarrow> Ok ())"

definition reject_milestone_settlement :: "escrow_state \<Rightarrow> u64 \<Rightarrow> unit res" where
  "reject_milestone_settlement st i = (if ec_milestones st i \<noteq> None then Err InvalidState else Ok ())"

definition closes_at :: "escrow \<Rightarrow> u64" where
  "closes_at e =
     (if es_refund_window e = 0 then 0
      else sat_add_u64 (sat_add_u64 (es_deadline e) (es_grace_period e)) (es_refund_window e))"

definition grace_end :: "escrow \<Rightarrow> u64 res" where
  "grace_end e =
     rbind (checked_add (int (es_deadline e)) (int (es_grace_period e))) (\<lambda>n. Ok (as_u64 n))"

definition require_refund_window_open :: "env \<Rightarrow> escrow \<Rightarrow> unit res" where
  "require_refund_window_open env e =
     (let c = closes_at e in if c \<noteq> 0 \<and> timestamp env \<ge> c then Err EscrowExpired else Ok ())"

fun total_amount_loop :: "asset_amount list \<Rightarrow> i128 \<Rightarrow> i128 res" where
  "total_amount_loop [] tot = Ok tot"
| "total_amount_loop (a # as) tot =
     (if in_i128 (tot + amount a) then total_amount_loop as (tot + amount a) else Panic)"

definition total_amount :: "asset_amount list \<Rightarrow> i128 res" where
  "total_amount assets = total_amount_loop assets 0"

text \<open>The deposit loop: every listed amount is pulled into custody and added up.\<close>

fun pull_assets ::
  "'w token_api \<Rightarrow> address \<Rightarrow> address \<Rightarrow> asset_amount list \<Rightarrow> i128 \<Rightarrow> 'w \<Rightarrow> (i128 \<times> 'w) res" where
  "pull_assets tk from_a this [] tot w = Ok (tot, w)"
| "pull_assets tk from_a this (a # as) tot w =
     rbind (token_transfer tk w (asset a) from_a this (amount a)) (\<lambda>w'.
     rbind (checked_add tot (amount a)) (\<lambda>tot'.
     pull_assets tk from_a this as tot' w'))"

text \<open>The pay-out loop: \<open>amount * part / funded\<close> of every asset, skipping what rounds to zero. It
  returns what was sent, for the transfer events of the callers that publish them.\<close>

fun pay_pro_rata ::
  "'w token_api \<Rightarrow> address \<Rightarrow> address \<Rightarrow> i128 \<Rightarrow> i128 \<Rightarrow> asset_amount list \<Rightarrow> 'w
     \<Rightarrow> ((address \<times> i128) list \<times> 'w) res" where
  "pay_pro_rata tk this to_a part funded [] w = Ok ([], w)"
| "pay_pro_rata tk this to_a part funded (a # as) w =
     rbind (rbind (checked_mul (amount a) part) (\<lambda>x. checked_div x funded)) (\<lambda>send.
     rbind (if send > 0 then token_transfer tk w (asset a) this to_a send else Ok w) (\<lambda>w'.
     rbind (pay_pro_rata tk this to_a part funded as w') (\<lambda>(sent, w'').
     Ok (if send > 0 then (asset a, send) # sent else sent, w''))))"

definition transfer_all ::
  "'w token_api \<Rightarrow> env \<Rightarrow> escrow \<Rightarrow> address \<Rightarrow> i128 \<Rightarrow> 'w \<Rightarrow> 'w res" where
  "transfer_all tk env e to_a remaining w =
     (if remaining = 0 then Ok w
      else rbind (pay_pro_rata tk (this_contract env) to_a remaining (es_funded_amount e) (es_assets e) w)
             (\<lambda>(_, w'). Ok w'))"

definition sent_events :: "address \<Rightarrow> address \<Rightarrow> (address \<times> i128) list \<Rightarrow> escrow_event list" where
  "sent_events from_a to_a sent = map (\<lambda>(t, x). EeTransfer from_a to_a t x) sent"

definition asset_events :: "address \<Rightarrow> address \<Rightarrow> asset_amount list \<Rightarrow> escrow_event list" where
  "asset_events from_a to_a assets = map (\<lambda>a. EeTransfer from_a to_a (asset a) (amount a)) assets"

section \<open>Administration\<close>

definition es_initialize :: "address \<Rightarrow> escrow_state \<Rightarrow> (unit \<times> escrow_state) res" where
  "es_initialize admin st =
     (if ec_count st \<noteq> None then Err AlreadyInitialized
      else Ok ((), st\<lparr>ec_count := Some 0, ec_admin := Some admin\<rparr>))"

definition approve_token :: "env \<Rightarrow> address \<Rightarrow> address \<Rightarrow> escrow_state \<Rightarrow> (unit \<times> escrow_state) res" where
  "approve_token env caller token st =
     rbind (es_require_admin env st caller) (\<lambda>_.
     if is_token_approved_internal st token then Err AlreadyExists
     else let l = approved_token_list st in
          if length l \<ge> MAX_ESCROW_TOKENS then Err InvalidInput
          else let st1 = store_approved_token_list (l @ [token]) st in
               Ok ((), emit_token_change token ''tok_add''
                     (st1\<lparr>ec_approved := (ec_approved st1)(token \<mapsto> True)\<rparr>)))"

definition revoke_token :: "env \<Rightarrow> address \<Rightarrow> address \<Rightarrow> escrow_state \<Rightarrow> (unit \<times> escrow_state) res" where
  "revoke_token env caller token st =
     rbind (es_require_admin env st caller) (\<lambda>_.
     if \<not> is_token_approved_internal st token then Err NotFound
     else let st1 = st\<lparr>ec_approved := (ec_approved st)(token := None)\<rparr>;
              l = approved_token_list st1;
              st2 = (if token \<in> set l then store_approved_token_list (remove1 token l) st1 else st1) in
          Ok ((), emit_token_change token ''tok_rm'' st2))"

definition es_admin :: "escrow_state \<Rightarrow> address res" where
  "es_admin st = load_admin st"

definition is_token_approved :: "escrow_state \<Rightarrow> address \<Rightarrow> bool" where
  "is_token_approved st token = is_token_approved_internal st token"

definition approved_tokens :: "escrow_state \<Rightarrow> address list" where
  "approved_tokens st = approved_token_list st"

section \<open>Creation and funding\<close>

definition create_with_refund_window ::
  "'w token_api \<Rightarrow> env \<Rightarrow> address \<Rightarrow> address \<Rightarrow> address \<Rightarrow> asset_amount list \<Rightarrow> u64 \<Rightarrow> u64 \<Rightarrow> u64 \<Rightarrow> string
     \<Rightarrow> bytes list \<Rightarrow> u32 \<Rightarrow> escrow_state \<times> 'w \<Rightarrow> (u64 \<times> escrow_state \<times> 'w) res" where
  "create_with_refund_window tk env sender recip arbiter assets deadline grace_period refund_window memo
       release_signers release_threshold = (\<lambda>(st, w).
     rbind (require_auth env sender) (\<lambda>_.
     if recip = sender then Err InvalidInput
     else if deadline \<le> timestamp env then Err InvalidInput
     else rbind (validate_assets st assets) (\<lambda>_.
          rbind (validate_override_config release_signers release_threshold) (\<lambda>_.
          rbind (increment_count st) (\<lambda>(i, st1).
          rbind (pull_assets tk sender (this_contract env) assets 0 w) (\<lambda>(funded, w1).
          let e = \<lparr>es_sender = sender, es_recipient = recip, es_arbiter = arbiter, es_assets = assets,
                   es_status = EsFunded, es_deadline = deadline, es_grace_period = grace_period,
                   es_refund_window = refund_window, es_funded_amount = funded, es_memo = memo,
                   es_schedule = schedule_none, es_released_amount = 0,
                   es_override_signers = release_signers, es_override_threshold = release_threshold,
                   es_override_nonce = 0\<rparr> in
          Ok (i, ec_emit [EeFunded i sender recip assets, EeCreated i sender recip assets deadline]
                   (store_escrow i e st1), w1)))))))"

definition es_create ::
  "'w token_api \<Rightarrow> env \<Rightarrow> address \<Rightarrow> address \<Rightarrow> address \<Rightarrow> asset_amount list \<Rightarrow> u64 \<Rightarrow> u64 \<Rightarrow> string
     \<Rightarrow> bytes list \<Rightarrow> u32 \<Rightarrow> escrow_state \<times> 'w \<Rightarrow> (u64 \<times> escrow_state \<times> 'w) res" where
  "es_create tk env sender recip arbiter assets deadline grace_period memo release_signers release_threshold =
     create_with_refund_window tk env sender recip arbiter assets deadline grace_period 0 memo
       release_signers release_threshold"

definition create_with_release_condition ::
  "'w token_api \<Rightarrow> env \<Rightarrow> release_condition_config \<Rightarrow> escrow_state \<times> 'w \<Rightarrow> (u64 \<times> escrow_state \<times> 'w) res" where
  "create_with_release_condition tk env cfg = (\<lambda>(st, w).
     rbind (validate_release_condition (cfg_participants cfg) (cfg_approval_threshold cfg)) (\<lambda>_.
     rbind (create_with_refund_window tk env (cfg_sender cfg) (cfg_recipient cfg) (cfg_arbiter cfg)
              (cfg_assets cfg) (cfg_deadline cfg) (cfg_grace_period cfg) (cfg_refund_window cfg)
              (cfg_memo cfg) (cfg_override_signers cfg) (cfg_override_threshold cfg) (st, w))
       (\<lambda>(i, st1, w1).
     Ok (i, if cfg_participants cfg \<noteq> []
            then store_release_condition i \<lparr>rc_participants = cfg_participants cfg,
                   rc_threshold = cfg_approval_threshold cfg, rc_approvals = 0\<rparr> st1
            else st1, w1))))"

definition approve_release :: "env \<Rightarrow> address \<Rightarrow> u64 \<Rightarrow> escrow_state \<Rightarrow> (u32 \<times> escrow_state) res" where
  "approve_release env caller i st =
     rbind (require_auth env caller) (\<lambda>_.
     rbind (load_escrow st i) (\<lambda>e.
     if es_status e \<noteq> EsFunded then Err InvalidState
     else rbind (ok_or (load_release_condition st i) NotFound) (\<lambda>c.
          if caller \<notin> set (rc_participants c) then Err NotASigner
          else if has_release_approval st i caller then Err AlreadySigned
          else let st1 = mark_release_approval i caller st in
               rbind (checked_add (int (rc_approvals c)) 1) (\<lambda>n.
               let c' = c\<lparr>rc_approvals := as_u32 n\<rparr> in
               Ok (rc_approvals c', ec_emit [EeApproval i caller (rc_approvals c') (rc_threshold c')]
                     (store_release_condition i c' st1))))))"

definition get_release_condition :: "escrow_state \<Rightarrow> u64 \<Rightarrow> release_condition res" where
  "get_release_condition st i = ok_or (load_release_condition st i) NotFound"

definition release_approvals :: "escrow_state \<Rightarrow> u64 \<Rightarrow> address list res" where
  "release_approvals st i =
     rbind (ok_or (load_release_condition st i) NotFound) (\<lambda>c.
     Ok (filter (has_release_approval st i) (rc_participants c)))"

definition create_timelock ::
  "'w token_api \<Rightarrow> env \<Rightarrow> address \<Rightarrow> address \<Rightarrow> address \<Rightarrow> asset_amount list \<Rightarrow> u64 \<Rightarrow> string
     \<Rightarrow> escrow_state \<times> 'w \<Rightarrow> (u64 \<times> escrow_state \<times> 'w) res" where
  "create_timelock tk env sender recip arbiter assets unlock_time memo = (\<lambda>(st, w).
     rbind (require_auth env sender) (\<lambda>_.
     if recip = sender then Err InvalidInput
     else let now = timestamp env in
     if unlock_time \<le> now then Err InvalidInput
     else rbind (validate_assets st assets) (\<lambda>_.
          rbind (increment_count st) (\<lambda>(i, st1).
          rbind (pull_assets tk sender (this_contract env) assets 0 w) (\<lambda>(funded, w1).
          let e = \<lparr>es_sender = sender, es_recipient = recip, es_arbiter = arbiter, es_assets = assets,
                   es_status = EsFunded, es_deadline = unlock_time, es_grace_period = 0,
                   es_refund_window = 0, es_funded_amount = funded, es_memo = memo,
                   es_schedule = \<lparr>sc_type = RtCliff, sc_start = now, sc_cliff = unlock_time,
                                  sc_end = unlock_time\<rparr>,
                   es_released_amount = 0, es_override_signers = [], es_override_threshold = 0,
                   es_override_nonce = 0\<rparr> in
          Ok (i, ec_emit [EeFunded i sender recip assets, EeInitTimelock i sender recip assets unlock_time,
                          EeCreated i sender recip assets unlock_time]
                   (store_escrow i e st1), w1))))))"

definition create_scheduled ::
  "'w token_api \<Rightarrow> env \<Rightarrow> address \<Rightarrow> address \<Rightarrow> address \<Rightarrow> asset_amount list \<Rightarrow> release_schedule \<Rightarrow> u64 \<Rightarrow> string
     \<Rightarrow> escrow_state \<times> 'w \<Rightarrow> (u64 \<times> escrow_state \<times> 'w) res" where
  "create_scheduled tk env sender recip arbiter assets sc deadline memo = (\<lambda>(st, w).
     rbind (require_auth env sender) (\<lambda>_.
     if recip = sender then Err InvalidInput
     else rbind (validate_assets st assets) (\<lambda>_.
     if sc_start sc > sc_cliff sc \<or> sc_cliff sc > sc_end sc \<or> sc_end sc \<le> sc_start sc then Err InvalidInput
     else if sc_end sc \<le> timestamp env then Err InvalidInput
     else let effective_deadline = (if deadline = 0 then sc_end sc else deadline) in
     if effective_deadline < sc_end sc then Err InvalidInput
     else rbind (increment_count st) (\<lambda>(i, st1).
          rbind (pull_assets tk sender (this_contract env) assets 0 w) (\<lambda>(funded, w1).
          let e = \<lparr>es_sender = sender, es_recipient = recip, es_arbiter = arbiter, es_assets = assets,
                   es_status = EsFunded, es_deadline = effective_deadline, es_grace_period = 0,
                   es_refund_window = 0, es_funded_amount = funded, es_memo = memo, es_schedule = sc,
                   es_released_amount = 0, es_override_signers = [], es_override_threshold = 0,
                   es_override_nonce = 0\<rparr> in
          Ok (i, ec_emit [EeFunded i sender recip assets,
                          EeScheduled i sender recip assets funded (sc_start sc) (sc_end sc),
                          EeCreated i sender recip assets effective_deadline]
                   (store_escrow i e st1), w1))))))"

definition initialize_timelock ::
  "env \<Rightarrow> address \<Rightarrow> address \<Rightarrow> address \<Rightarrow> asset_amount list \<Rightarrow> u64 \<Rightarrow> u64 \<Rightarrow> string
     \<Rightarrow> escrow_state \<Rightarrow> (u64 \<times> escrow_state) res" where
  "initialize_timelock env sender recip arbiter assets unlock_time grace_period memo st =
     rbind (require_auth env sender) (\<lambda>_.
     if recip = sender then Err InvalidInput
     else let now = timestamp env in
     if unlock_time \<le> now then Err InvalidInput
     else rbind (validate_assets st assets) (\<lambda>_.
          rbind (increment_count st) (\<lambda>(i, st1).
          let e = \<lparr>es_sender = sender, es_recipient = recip, es_arbiter = arbiter, es_assets = assets,
                   es_status = EsCreated, es_deadline = unlock_time, es_grace_period = grace_period,
                   es_refund_window = 0, es_funded_amount = 0, es_memo = memo,
                   es_schedule = \<lparr>sc_type = RtCliff, sc_start = now, sc_cliff = unlock_time,
                                  sc_end = unlock_time\<rparr>,
                   es_released_amount = 0, es_override_signers = [], es_override_threshold = 0,
                   es_override_nonce = 0\<rparr> in
          Ok (i, ec_emit [EeInitTimelock i sender recip assets unlock_time,
                          EeCreated i sender recip assets unlock_time] (store_escrow i e st1)))))"

definition es_fund ::
  "'w token_api \<Rightarrow> env \<Rightarrow> address \<Rightarrow> u64 \<Rightarrow> escrow_state \<times> 'w \<Rightarrow> (unit \<times> escrow_state \<times> 'w) res" where
  "es_fund tk env sender i = (\<lambda>(st, w).
     rbind (require_auth env sender) (\<lambda>_.
     rbind (load_escrow st i) (\<lambda>e.
     if es_sender e \<noteq> sender then Err Unauthorized
     else if es_status e \<noteq> EsCreated then Err InvalidState
     else rbind (require_tokens_approved st (es_assets e)) (\<lambda>_.
          rbind (pull_assets tk sender (this_contract env) (es_assets e) 0 w) (\<lambda>(tot, w1).
          let e' = e\<lparr>es_funded_amount := tot, es_status := EsFunded\<rparr> in
          Ok ((), ec_emit [EeFunded i (es_sender e') (es_recipient e') (es_assets e'),
                           EeCreated i (es_sender e') (es_recipient e') (es_assets e') (es_deadline e')]
                    (store_escrow i e' st), w1))))))"

section \<open>Pay-outs to the recipient\<close>

definition es_withdraw ::
  "'w token_api \<Rightarrow> env \<Rightarrow> address \<Rightarrow> u64 \<Rightarrow> i128 \<Rightarrow> escrow_state \<times> 'w \<Rightarrow> (i128 \<times> escrow_state \<times> 'w) res" where
  "es_withdraw tk env caller i amt = (\<lambda>(st, w).
     rbind (require_auth env caller) (\<lambda>_.
     rbind (require_positive_amount amt) (\<lambda>_.
     rbind (load_escrow st i) (\<lambda>e.
     rbind (reject_milestone_settlement st i) (\<lambda>_.
     if es_recipient e \<noteq> caller then Err Unauthorized
     else if es_status e \<noteq> EsFunded then Err InvalidState
     else rbind (calculate_claimable_amount e (timestamp env)) (\<lambda>claimable.
          if claimable \<le> 0 then Err TimeLockActive
          else if amt > claimable then Err InsufficientFunds
          else rbind (require_release_approvals st i) (\<lambda>_.
               rbind (checked_add (es_released_amount e) amt) (\<lambda>rel.
               let e' = e\<lparr>es_released_amount := rel,
                          es_status := (if rel = es_funded_amount e then EsReleased else es_status e)\<rparr> in
               rbind (pay_pro_rata tk (this_contract env) (es_recipient e') amt (es_funded_amount e')
                        (es_assets e') w) (\<lambda>(sent, w1).
               Ok (rel, ec_emit (sent_events (es_sender e') (es_recipient e') sent @
                                 [EeWithdraw i caller amt rel]) (store_escrow i e' st), w1))))))))))"

definition es_claim ::
  "'w token_api \<Rightarrow> env \<Rightarrow> address \<Rightarrow> u64 \<Rightarrow> escrow_state \<times> 'w \<Rightarrow> (i128 \<times> escrow_state \<times> 'w) res" where
  "es_claim tk env caller i = (\<lambda>(st, w).
     rbind (require_auth env caller) (\<lambda>_.
     rbind (load_escrow st i) (\<lambda>e.
     rbind (reject_milestone_settlement st i) (\<lambda>_.
     if es_recipient e \<noteq> caller then Err Unauthorized
     else if es_status e \<noteq> EsFunded \<and> es_status e \<noteq> EsCreated then Err InvalidState
     else if es_status e = EsFunded
     then rbind (if sc_type (es_schedule e) = RtCliff \<or> sc_type (es_schedule e) = RtLinear
                 then calculate_claimable_amount e (timestamp env)
                 else rbind (grace_end e) (\<lambda>g.
                      if timestamp env < g then Err TimeLockActive
                      else checked_sub (es_funded_amount e) (es_released_amount e))) (\<lambda>claimable.
          if claimable \<le> 0 then Err TimeLockActive
          else rbind (require_release_approvals st i) (\<lambda>_.
               rbind (checked_add (es_released_amount e) claimable) (\<lambda>rel.
               let e' = e\<lparr>es_released_amount := rel,
                          es_status := (if rel = es_funded_amount e then EsReleased else es_status e)\<rparr> in
               rbind (pay_pro_rata tk (this_contract env) (es_recipient e') claimable (es_funded_amount e')
                        (es_assets e') w) (\<lambda>(sent, w1).
               Ok (claimable, ec_emit (sent_events (es_sender e') (es_recipient e') sent @
                                       [EeClaimed i caller claimable]) (store_escrow i e' st), w1)))))
     else rbind (grace_end e) (\<lambda>g.
          if timestamp env < g then Err TimeLockActive
          else rbind (require_release_approvals st i) (\<lambda>_.
               let e' = e\<lparr>es_status := EsReleased\<rparr> in
               rbind (checked_sub (es_funded_amount e') (es_released_amount e')) (\<lambda>remaining.
               rbind (transfer_all tk env e' (es_recipient e') remaining w) (\<lambda>w1.
               Ok (es_funded_amount e',
                   ec_emit (asset_events (es_sender e') (es_recipient e') (es_assets e') @
                            [EeClaimed i caller (es_funded_amount e')]) (store_escrow i e' st), w1)))))))))"

definition release_lock :: "escrow \<Rightarrow> u64 \<Rightarrow> i128 \<Rightarrow> unit res" where
  "release_lock e now release_amount =
     (if sc_type (es_schedule e) = RtCliff
      then if now < sc_cliff (es_schedule e) then Err EscrowLocked else Ok ()
      else if sc_type (es_schedule e) = RtLinear
      then if now < sc_cliff (es_schedule e) then Err EscrowLocked
           else rbind (calculate_vested_amount (es_funded_amount e) (es_schedule e) now) (\<lambda>vested.
                if release_amount > vested then Err EscrowLocked
                else rbind (checked_sub (es_funded_amount e) (es_released_amount e)) (\<lambda>remaining.
                     if remaining > vested then Err EscrowLocked else Ok ()))
      else Ok ())"

definition es_release ::
  "'w token_api \<Rightarrow> env \<Rightarrow> address \<Rightarrow> u64 \<Rightarrow> i128 \<Rightarrow> escrow_state \<times> 'w \<Rightarrow> (unit \<times> escrow_state \<times> 'w) res" where
  "es_release tk env arbiter i release_amount = (\<lambda>(st, w).
     rbind (require_auth env arbiter) (\<lambda>_.
     rbind (load_escrow st i) (\<lambda>e.
     if es_arbiter e \<noteq> arbiter then Err Unauthorized
     else if es_status e \<noteq> EsFunded then Err InvalidState
     else if ec_milestones st i \<noteq> None then Err InvalidState
     else rbind (release_lock e (timestamp env) release_amount) (\<lambda>_.
          rbind (grace_end e) (\<lambda>g.
          if timestamp env \<ge> g then Err EscrowExpired
          else rbind (checked_sub (es_funded_amount e) (es_released_amount e)) (\<lambda>remaining.
               if release_amount > remaining then Err InvalidAmount
               else rbind (require_release_approvals st i) (\<lambda>_.
                    let e' = e\<lparr>es_released_amount := es_funded_amount e, es_status := EsReleased\<rparr> in
                    rbind (transfer_all tk env e' (es_recipient e') remaining w) (\<lambda>w1.
                    Ok ((), ec_emit (asset_events (es_sender e') (es_recipient e') (es_assets e') @
                                     [EeReleasedTo i (es_recipient e') (es_assets e'),
                                      EeReleased i arbiter release_amount]) (store_escrow i e' st), w1)))))))))"

text \<open>The host's cryptography behind the signature override.\<close>

record crypto =
  cr_address_xdr :: "address \<Rightarrow> bytes"
  cr_network_id :: bytes
  cr_sha256 :: "bytes \<Rightarrow> bytes"
  cr_ed25519_verify :: "bytes \<Rightarrow> bytes \<Rightarrow> bytes \<Rightarrow> bool"

definition to_be_bytes :: "u64 \<Rightarrow> bytes" where
  "to_be_bytes n = map (\<lambda>k. word_of_nat (n div 256 ^ k)) [7, 6, 5, 4, 3, 2, 1, 0]"

definition override_payload :: "crypto \<Rightarrow> env \<Rightarrow> u64 \<Rightarrow> u64 \<Rightarrow> bytes" where
  "override_payload cr env i nonce =
     cr_address_xdr cr (this_contract env) @ cr_network_id cr @ to_be_bytes i @ to_be_bytes nonce"

text \<open>The signature loop: every key configured, none repeated, every signature valid.\<close>

fun signature_loop ::
  "crypto \<Rightarrow> bytes list \<Rightarrow> bytes \<Rightarrow> override_signature list \<Rightarrow> bytes list \<Rightarrow> bytes list res" where
  "signature_loop cr signers digest [] seen = Ok seen"
| "signature_loop cr signers digest (sig # sigs) seen =
     (if os_public_key sig \<notin> set signers then Err NotASigner
      else if os_public_key sig \<in> set seen then Err AlreadySigned
      else if \<not> cr_ed25519_verify cr (os_public_key sig) digest (os_signature sig) then Panic
      else signature_loop cr signers digest sigs (seen @ [os_public_key sig]))"

definition override_lock :: "escrow \<Rightarrow> u64 \<Rightarrow> unit res" where
  "override_lock e now =
     (if sc_type (es_schedule e) = RtCliff
      then if now < sc_cliff (es_schedule e) then Err EscrowLocked else Ok ()
      else if sc_type (es_schedule e) = RtLinear
      then if now < sc_cliff (es_schedule e) then Err EscrowLocked
           else rbind (checked_sub (es_funded_amount e) (es_released_amount e)) (\<lambda>remaining.
                rbind (calculate_vested_amount (es_funded_amount e) (es_schedule e) now) (\<lambda>vested.
                if remaining > vested then Err EscrowLocked else Ok ()))
      else Ok ())"

definition override_release ::
  "'w token_api \<Rightarrow> crypto \<Rightarrow> env \<Rightarrow> u64 \<Rightarrow> u64 \<Rightarrow> override_signature list \<Rightarrow> escrow_state \<times> 'w
     \<Rightarrow> (unit \<times> escrow_state \<times> 'w) res" where
  "override_release tk cr env i nonce signatures = (\<lambda>(st, w).
     rbind (load_escrow st i) (\<lambda>e.
     rbind (reject_milestone_settlement st i) (\<lambda>_.
     if es_override_signers e = [] \<or> es_override_threshold e = 0 then Err Unauthorized
     else if es_status e \<noteq> EsFunded then Err InvalidState
     else if timestamp env \<ge> es_deadline e then Err EscrowExpired
     else rbind (override_lock e (timestamp env)) (\<lambda>_.
          if nonce \<le> es_override_nonce e then Err InvalidNonce
          else if length signatures < es_override_threshold e then Err ThresholdNotMet
          else let digest = cr_sha256 cr (override_payload cr env i nonce) in
               rbind (signature_loop cr (es_override_signers e) digest signatures []) (\<lambda>seen.
               if length seen < es_override_threshold e then Err ThresholdNotMet
               else rbind (require_release_approvals st i) (\<lambda>_.
                    rbind (checked_sub (es_funded_amount e) (es_released_amount e)) (\<lambda>remaining.
                    let e' = e\<lparr>es_override_nonce := nonce, es_status := EsReleased\<rparr> in
                    rbind (transfer_all tk env e' (es_recipient e') remaining w) (\<lambda>w1.
                    Ok ((), ec_emit (asset_events (es_sender e') (es_recipient e') (es_assets e') @
                                     [EeReleasedTo i (es_recipient e') (es_assets e'), EeOverride i nonce])
                              (store_escrow i e' st), w1)))))))))"

section \<open>Returns to the sender\<close>

definition es_expire :: "env \<Rightarrow> u64 \<Rightarrow> escrow_state \<Rightarrow> (unit \<times> escrow_state) res" where
  "es_expire env i st =
     rbind (load_escrow st i) (\<lambda>e.
     if es_status e \<noteq> EsFunded then Err InvalidState
     else rbind (grace_end e) (\<lambda>g.
          if timestamp env < g then Err InvalidState
          else Ok ((), ec_emit [EeExpired i] (store_escrow i (e\<lparr>es_status := EsExpired\<rparr>) st))))"

text \<open>The return of the unreleased part, shared by the refund paths.\<close>

definition return_remaining ::
  "'w token_api \<Rightarrow> env \<Rightarrow> escrow \<Rightarrow> i128 \<Rightarrow> 'w \<Rightarrow> ((address \<times> i128) list \<times> 'w) res" where
  "return_remaining tk env e remaining w =
     (if remaining > 0
      then pay_pro_rata tk (this_contract env) (es_sender e) remaining (es_funded_amount e) (es_assets e) w
      else Ok ([], w))"

definition es_refund ::
  "'w token_api \<Rightarrow> env \<Rightarrow> address \<Rightarrow> u64 \<Rightarrow> escrow_state \<times> 'w \<Rightarrow> (unit \<times> escrow_state \<times> 'w) res" where
  "es_refund tk env caller i = (\<lambda>(st, w).
     rbind (require_auth env caller) (\<lambda>_.
     rbind (load_escrow st i) (\<lambda>e.
     rbind (reject_milestone_settlement st i) (\<lambda>_.
     if es_sender e \<noteq> caller then Err Unauthorized
     else if es_status e \<noteq> EsFunded \<and> es_status e \<noteq> EsExpired then Err InvalidState
     else if timestamp env < es_deadline e then Err TimeLockActive
     else rbind (grace_end e) (\<lambda>g.
          if timestamp env < g then Err GraceActive
          else rbind (require_refund_window_open env e) (\<lambda>_.
               rbind (checked_sub (es_funded_amount e) (es_released_amount e)) (\<lambda>remaining.
               let e' = e\<lparr>es_status := EsRefunded\<rparr> in
               rbind (return_remaining tk env e' remaining w) (\<lambda>(_, w1).
               Ok ((), ec_emit [EeRefundedTo i (es_sender e') (es_assets e'), EeRefunded ''refunded'' i caller]
                         (store_escrow i e' st), w1)))))))))"

definition refund_timelock ::
  "'w token_api \<Rightarrow> env \<Rightarrow> address \<Rightarrow> u64 \<Rightarrow> escrow_state \<times> 'w \<Rightarrow> (unit \<times> escrow_state \<times> 'w) res" where
  "refund_timelock tk env caller i = (\<lambda>(st, w).
     rbind (require_auth env caller) (\<lambda>_.
     rbind (load_escrow st i) (\<lambda>e.
     rbind (reject_milestone_settlement st i) (\<lambda>_.
     if es_sender e \<noteq> caller then Err Unauthorized
     else if es_status e \<noteq> EsCreated \<and> es_status e \<noteq> EsFunded \<and> es_status e \<noteq> EsExpired then Err InvalidState
     else rbind (grace_end e) (\<lambda>g.
          if timestamp env < g then Err TimeLockActive
          else rbind (require_refund_window_open env e) (\<lambda>_.
               rbind (checked_sub (es_funded_amount e) (es_released_amount e)) (\<lambda>remaining.
               let e' = e\<lparr>es_status := EsRefunded\<rparr> in
               rbind (return_remaining tk env e' remaining w) (\<lambda>(_, w1).
               Ok ((), ec_emit [EeRefundedTo i (es_sender e') (es_assets e'), EeRefunded ''ref_tl'' i caller]
                         (store_escrow i e' st), w1)))))))))"

definition freeze_pending :: "milestone \<Rightarrow> milestone" where
  "freeze_pending m = (if ml_status m = MsPending then m\<lparr>ml_status := MsDisputed\<rparr> else m)"

definition cancel_milestones_inner ::
  "'w token_api \<Rightarrow> env \<Rightarrow> address \<Rightarrow> u64 \<Rightarrow> escrow_state \<times> 'w \<Rightarrow> (i128 \<times> escrow_state \<times> 'w) res" where
  "cancel_milestones_inner tk env caller i = (\<lambda>(st, w).
     rbind (load_escrow st i) (\<lambda>e.
     if es_sender e \<noteq> caller \<and> es_arbiter e \<noteq> caller then Err Unauthorized
     else rbind (ok_or (ec_milestones st i) NotFound) (\<lambda>ms.
          if mset_cancelled ms then Err AlreadyExists
          else if es_status e \<noteq> EsFunded \<and> es_status e \<noteq> EsExpired then Err InvalidState
          else rbind (checked_sub (es_funded_amount e) (mset_released ms)) (\<lambda>remaining.
               let ms' = ms\<lparr>mset_cancelled := True,
                            mset_milestones := map freeze_pending (mset_milestones ms)\<rparr>;
                   st1 = store_milestones i ms' st in
               rbind (return_remaining tk env e remaining w) (\<lambda>(sent, w1).
               Ok (remaining, ec_emit (sent_events (es_sender e) (es_sender e) sent @
                                       [EeMilestonesCancelled i caller remaining])
                     (store_escrow i (e\<lparr>es_status := EsRefunded\<rparr>) st1), w1))))))"

definition es_cancel ::
  "'w token_api \<Rightarrow> env \<Rightarrow> address \<Rightarrow> u64 \<Rightarrow> escrow_state \<times> 'w \<Rightarrow> (unit \<times> escrow_state \<times> 'w) res" where
  "es_cancel tk env caller i = (\<lambda>(st, w).
     rbind (require_auth env caller) (\<lambda>_.
     if ec_milestones st i \<noteq> None
     then rbind (cancel_milestones_inner tk env caller i (st, w)) (\<lambda>(_, st1, w1). Ok ((), st1, w1))
     else rbind (load_escrow st i) (\<lambda>e.
     if es_sender e \<noteq> caller \<and> es_arbiter e \<noteq> caller then Err Unauthorized
     else if es_status e \<noteq> EsFunded \<and> es_status e \<noteq> EsCreated then Err InvalidState
     else if timestamp env \<ge> es_deadline e then Err InvalidState
     else rbind (if sc_type (es_schedule e) \<noteq> RtNone
                 then rbind (calculate_vested_amount (es_funded_amount e) (es_schedule e) (timestamp env))
                        (\<lambda>vested. if vested > 0 then Err TimeLockActive else Ok ())
                 else Ok ()) (\<lambda>_.
          rbind (checked_sub (es_funded_amount e) (es_released_amount e)) (\<lambda>remaining.
          rbind (return_remaining tk env e remaining w) (\<lambda>(sent, w1).
          Ok ((), ec_emit (sent_events (es_sender e) (es_sender e) sent @
                           [EeRefundedTo i (es_sender e) (es_assets e), EeRefunded ''cancelled'' i caller])
                    (store_escrow i (e\<lparr>es_status := EsRefunded\<rparr>) st), w1)))))))"

definition es_reclaim ::
  "'w token_api \<Rightarrow> env \<Rightarrow> address \<Rightarrow> u64 \<Rightarrow> escrow_state \<times> 'w \<Rightarrow> (unit \<times> escrow_state \<times> 'w) res" where
  "es_reclaim tk env caller i = (\<lambda>(st, w).
     rbind (require_auth env caller) (\<lambda>_.
     rbind (load_escrow st i) (\<lambda>e.
     rbind (reject_milestone_settlement st i) (\<lambda>_.
     if es_sender e \<noteq> caller then Err Unauthorized
     else if es_status e \<noteq> EsFunded \<and> es_status e \<noteq> EsExpired then Err InvalidState
     else if timestamp env < es_deadline e then Err TimeLockActive
     else rbind (grace_end e) (\<lambda>g.
          if timestamp env < g then Err GraceActive
          else rbind (require_refund_window_open env e) (\<lambda>_.
               rbind (checked_sub (es_funded_amount e) (es_released_amount e)) (\<lambda>remaining.
               let e' = e\<lparr>es_status := EsRefunded\<rparr> in
               rbind (transfer_all tk env e' (es_sender e') remaining w) (\<lambda>w1.
               Ok ((), ec_emit (asset_events (es_sender e') (es_sender e') (es_assets e') @
                                [EeRefundedTo i (es_sender e') (es_assets e'), EeRefunded ''reclaimed'' i caller])
                         (store_escrow i e' st), w1)))))))))"

definition es_close :: "env \<Rightarrow> address \<Rightarrow> u64 \<Rightarrow> escrow_state \<Rightarrow> (unit \<times> escrow_state) res" where
  "es_close env caller i st =
     rbind (require_auth env caller) (\<lambda>_.
     rbind (load_escrow st i) (\<lambda>e.
     if es_status e \<noteq> EsReleased \<and> es_status e \<noteq> EsRefunded then Err InvalidState
     else if caller \<noteq> es_sender e \<and> caller \<noteq> es_recipient e \<and> caller \<noteq> es_arbiter e then Err Unauthorized
     else Ok ((), store_escrow i (e\<lparr>es_status := EsClosed\<rparr>) st)))"

section \<open>Milestones\<close>

fun total_bps_loop :: "milestone_spec list \<Rightarrow> u32 \<Rightarrow> u32 res" where
  "total_bps_loop [] tot = Ok tot"
| "total_bps_loop (s # ss) tot =
     rbind (ok_or (checked_add_word u32_max tot (spec_release_bps s)) Overflow) (total_bps_loop ss)"

definition milestone_of :: "nat \<Rightarrow> milestone_spec \<Rightarrow> milestone" where
  "milestone_of i sp = \<lparr>ml_index = i, ml_description = spec_description sp,
     ml_release_bps = spec_release_bps sp, ml_status = MsPending\<rparr>"

definition deposit_with_milestones ::
  "'w token_api \<Rightarrow> env \<Rightarrow> address \<Rightarrow> address \<Rightarrow> address \<Rightarrow> address \<Rightarrow> i128 \<Rightarrow> u64 \<Rightarrow> string
     \<Rightarrow> milestone_spec list \<Rightarrow> escrow_state \<times> 'w \<Rightarrow> (u64 \<times> escrow_state \<times> 'w) res" where
  "deposit_with_milestones tk env sender recip arbiter token amt deadline memo specs = (\<lambda>(st, w).
     rbind (require_auth env sender) (\<lambda>_.
     rbind (require_positive_amount amt) (\<lambda>_.
     rbind (require_token_approved st token) (\<lambda>_.
     if recip = sender then Err InvalidInput
     else if deadline \<le> timestamp env then Err InvalidInput
     else if specs = [] then Err InvalidInput
     else rbind (total_bps_loop specs 0) (\<lambda>total_bps.
          if total_bps \<noteq> 10000 then Err InvalidInput
          else rbind (increment_count st) (\<lambda>(i, st1).
               rbind (token_transfer tk w token sender (this_contract env) amt) (\<lambda>w1.
               let ms = \<lparr>mset_milestones = map2 milestone_of [0..<length specs] specs,
                         mset_released = 0, mset_cancelled = False\<rparr>;
                   e = \<lparr>es_sender = sender, es_recipient = recip, es_arbiter = arbiter,
                        es_assets = [\<lparr>asset = token, amount = amt\<rparr>], es_status = EsFunded,
                        es_deadline = deadline, es_grace_period = 0, es_refund_window = 0,
                        es_funded_amount = amt, es_memo = memo, es_schedule = schedule_none,
                        es_released_amount = 0, es_override_signers = [], es_override_threshold = 0,
                        es_override_nonce = 0\<rparr> in
               Ok (i, ec_emit [EeMilestone i sender recip token amt]
                        (store_escrow i e (store_milestones i ms st1)), w1))))))))"

text \<open>The search loop: the position and value of the last milestone with the index.\<close>

fun find_milestone :: "u32 \<Rightarrow> nat \<Rightarrow> milestone list \<Rightarrow> (nat \<times> milestone) option \<Rightarrow> (nat \<times> milestone) option" where
  "find_milestone index k [] target = target"
| "find_milestone index k (m # ms) target =
     find_milestone index (Suc k) ms (if ml_index m = index then Some (k, m) else target)"

type_synonym 'a mres = "(milestone_error, 'a) result"

definition load_milestone ::
  "env \<Rightarrow> escrow_state \<Rightarrow> address \<Rightarrow> u64 \<Rightarrow> u32 \<Rightarrow> (escrow \<times> milestone_set \<times> nat \<times> milestone) mres" where
  "load_milestone env st caller i index =
     rbind (map_err milestone_error_of (require_auth env caller)) (\<lambda>_.
     rbind (map_err milestone_error_of (load_escrow st i)) (\<lambda>e.
     if es_arbiter e \<noteq> caller then Err ME_Unauthorized
     else rbind (ok_or (ec_milestones st i) ME_NotFound) (\<lambda>ms.
          if mset_cancelled ms then Err ME_InvalidState
          else rbind (ok_or (find_milestone index 0 (mset_milestones ms) None) ME_InvalidMilestone)
                 (\<lambda>(k, m). Ok (e, ms, k, m)))))"

definition release_milestone ::
  "'w token_api \<Rightarrow> env \<Rightarrow> address \<Rightarrow> u64 \<Rightarrow> u32 \<Rightarrow> escrow_state \<times> 'w \<Rightarrow> (unit \<times> escrow_state \<times> 'w) mres" where
  "release_milestone tk env caller i index = (\<lambda>(st, w).
     rbind (load_milestone env st caller i index) (\<lambda>(e, ms, k, m).
     rbind (case ml_status m of MsCompleted \<Rightarrow> Err ME_MilestoneAlreadyCompleted
            | MsDisputed \<Rightarrow> Err ME_InvalidMilestone | MsPending \<Rightarrow> Ok ()) (\<lambda>_.
     if es_status e \<noteq> EsFunded then Err ME_InvalidState
     else rbind (map_err milestone_error_of (total_amount (es_assets e))) (\<lambda>tot.
          let unreleased = min (length (filter (\<lambda>m. ml_status m \<noteq> MsCompleted) (mset_milestones ms))) u32_max in
          rbind (map_err milestone_error_of
                   (rbind (checked_mul tot (int (ml_release_bps m))) (\<lambda>x. checked_div x 10000))) (\<lambda>gross.
          rbind (map_err milestone_error_of (checked_sub tot (mset_released ms))) (\<lambda>remaining.
          let payout = (if unreleased = 1 then remaining else gross) in
          rbind (case es_assets e of [] \<Rightarrow> Panic | a # _ \<Rightarrow> Ok (asset a)) (\<lambda>primary_asset.
          rbind (map_err milestone_error_of
                   (token_transfer tk w primary_asset (this_contract env) (es_recipient e) payout)) (\<lambda>w1.
          rbind (map_err milestone_error_of (checked_add (mset_released ms) payout)) (\<lambda>rel.
          let ms' = ms\<lparr>mset_released := rel,
                       mset_milestones := (mset_milestones ms)[k := m\<lparr>ml_status := MsCompleted\<rparr>]\<rparr>;
              st1 = store_milestones i ms' st;
              st2 = (if list_all (\<lambda>m. ml_status m = MsCompleted) (mset_milestones ms')
                     then store_escrow i (e\<lparr>es_released_amount := rel, es_status := EsReleased\<rparr>) st1
                     else st1) in
          Ok ((), ec_emit [EeTransfer (es_sender e) (es_recipient e) primary_asset payout,
                           EeMilestonePaid i caller index payout] st2, w1))))))))))"

definition dispute_milestone :: "env \<Rightarrow> address \<Rightarrow> u64 \<Rightarrow> u32 \<Rightarrow> escrow_state \<Rightarrow> (unit \<times> escrow_state) mres" where
  "dispute_milestone env caller i index st =
     rbind (load_milestone env st caller i index) (\<lambda>(e, ms, k, m).
     rbind (case ml_status m of MsCompleted \<Rightarrow> Err ME_MilestoneAlreadyCompleted
            | MsDisputed \<Rightarrow> Err ME_InvalidMilestone | MsPending \<Rightarrow> Ok ()) (\<lambda>_.
     if es_status e \<noteq> EsFunded then Err ME_InvalidState
     else Ok ((), ec_emit [EeMilestoneChange ''ms_disp'' i caller index]
            (store_milestones i (ms\<lparr>mset_milestones :=
               (mset_milestones ms)[k := m\<lparr>ml_status := MsDisputed\<rparr>]\<rparr>) st))))"

definition resolve_milestone :: "env \<Rightarrow> address \<Rightarrow> u64 \<Rightarrow> u32 \<Rightarrow> escrow_state \<Rightarrow> (unit \<times> escrow_state) mres" where
  "resolve_milestone env caller i index st =
     rbind (load_milestone env st caller i index) (\<lambda>(e, ms, k, m).
     rbind (case ml_status m of MsCompleted \<Rightarrow> Err ME_MilestoneAlreadyCompleted
            | MsPending \<Rightarrow> Err ME_InvalidMilestone | MsDisputed \<Rightarrow> Ok ()) (\<lambda>_.
     if es_status e \<noteq> EsFunded then Err ME_InvalidState
     else Ok ((), ec_emit [EeMilestoneChange ''ms_res'' i caller index]
            (store_milestones i (ms\<lparr>mset_milestones :=
               (mset_milestones ms)[k := m\<lparr>ml_status := MsPending\<rparr>]\<rparr>) st))))"

definition cancel_remaining_milestones ::
  "'w token_api \<Rightarrow> env \<Rightarrow> address \<Rightarrow> u64 \<Rightarrow> escrow_state \<times> 'w \<Rightarrow> (i128 \<times> escrow_state \<times> 'w) res" where
  "cancel_remaining_milestones tk env caller i s =
     rbind (require_auth env caller) (\<lambda>_. cancel_milestones_inner tk env caller i s)"

section \<open>Views\<close>

definition milestones_view :: "escrow_state \<Rightarrow> u64 \<Rightarrow> milestone_set res" where
  "milestones_view st i = ok_or (ec_milestones st i) NotFound"

definition escrow_get :: "escrow_state \<Rightarrow> u64 \<Rightarrow> escrow res" where
  "escrow_get st i = load_escrow st i"

definition get_schedule :: "escrow_state \<Rightarrow> u64 \<Rightarrow> release_schedule res" where
  "get_schedule st i = rbind (load_escrow st i) (\<lambda>e. Ok (es_schedule e))"

definition escrow_count :: "escrow_state \<Rightarrow> u64" where
  "escrow_count st = get_count st"

definition refund_window_closes_at :: "escrow_state \<Rightarrow> u64 \<Rightarrow> u64 res" where
  "refund_window_closes_at st i = rbind (load_escrow st i) (\<lambda>e. Ok (closes_at e))"

definition is_refundable :: "env \<Rightarrow> escrow_state \<Rightarrow> u64 \<Rightarrow> bool res" where
  "is_refundable env st i =
     rbind (load_escrow st i) (\<lambda>e.
     if es_status e \<noteq> EsCreated \<and> es_status e \<noteq> EsFunded \<and> es_status e \<noteq> EsExpired then Ok False
     else rbind (grace_end e) (\<lambda>g.
          if timestamp env < g then Ok False else Ok (is_ok (require_refund_window_open env e))))"

definition get_claimable_amount :: "env \<Rightarrow> escrow_state \<Rightarrow> u64 \<Rightarrow> i128 res" where
  "get_claimable_amount env st i =
     rbind (load_escrow st i) (\<lambda>e. calculate_claimable_amount e (timestamp env))"

definition get_vested_amount :: "env \<Rightarrow> escrow_state \<Rightarrow> u64 \<Rightarrow> i128 res" where
  "get_vested_amount env st i =
     rbind (load_escrow st i) (\<lambda>e.
     calculate_vested_amount (es_funded_amount e) (es_schedule e) (timestamp env))"

definition is_unlocked :: "env \<Rightarrow> escrow_state \<Rightarrow> u64 \<Rightarrow> bool res" where
  "is_unlocked env st i =
     rbind (load_escrow st i) (\<lambda>e.
     if sc_type (es_schedule e) = RtNone then Ok True
     else rbind (calculate_vested_amount (es_funded_amount e) (es_schedule e) (timestamp env)) (\<lambda>v.
          Ok (v > 0)))"

end
