(* ===== verification/Escrow_Runs.thy ===== *)
theory Escrow_Runs
  imports Escrow_Props
begin

text \<open>
  The escrow contract over whole runs. The entrypoints that move milestone money complete the
  per-transaction lemmas; \<open>es_step\<close> collects every entrypoint, together with what third parties
  may do to the token balances, into one step relation. Custody over a run is an invariant of it
  (\<open>escrow_sys\<close>), and the terms of an escrow never change.
\<close>

section \<open>Paying milestones\<close>

lemma single_asset_total:
  assumes "es_assets e = [\<lparr>asset = t, amount = f\<rparr>]" and "total_amount (es_assets e) = Ok tot"
  shows "tot = f"
  using assms by (auto simp: total_amount_def split: if_splits)

text \<open>When the last open milestone is paid, every milestone is completed; before that the share of
  the paid one and of all earlier ones stay within the deposit.\<close>

lemma one_unreleased:
  assumes "length (filter (\<lambda>m. ml_status m \<noteq> MsCompleted) ms) = 1" and "k < length ms"
    and "ml_status (ms ! k) \<noteq> MsCompleted"
  shows "list_all (\<lambda>m. ml_status m = MsCompleted) (ms[k := (ms ! k)\<lparr>ml_status := MsCompleted\<rparr>])"
  using assms
proof (induction ms arbitrary: k)
  case (Cons x xs)
  show ?case
  proof (cases k)
    case 0
    then have "filter (\<lambda>m. ml_status m \<noteq> MsCompleted) xs = []" using Cons.prems by simp
    then show ?thesis using 0 by (simp add: filter_empty_conv list_all_iff)
  next
    case (Suc j)
    have "ml_status (xs ! j) \<noteq> MsCompleted" and "j < length xs" using Cons.prems Suc by auto
    then have "xs ! j \<in> set (filter (\<lambda>m. ml_status m \<noteq> MsCompleted) xs)" by simp
    then have "filter (\<lambda>m. ml_status m \<noteq> MsCompleted) xs \<noteq> []" by force
    then have "ml_status x = MsCompleted" using Cons.prems(1) by (auto split: if_splits)
    then show ?thesis using Cons.IH [of j] Cons.prems Suc by simp
  qed
qed simp

lemma more_unreleased:
  assumes "length (filter (\<lambda>m. ml_status m \<noteq> MsCompleted) ms) \<noteq> 1" and "k < length ms"
    and "ml_status (ms ! k) \<noteq> MsCompleted"
  shows "\<exists>m\<in>set (ms[k := (ms ! k)\<lparr>ml_status := MsCompleted\<rparr>]). ml_status m \<noteq> MsCompleted"
  using assms
proof (induction ms arbitrary: k)
  case (Cons x xs)
  show ?case
  proof (cases k)
    case 0
    then have "filter (\<lambda>m. ml_status m \<noteq> MsCompleted) xs \<noteq> []" using Cons.prems by auto
    then show ?thesis using 0 by (auto simp: filter_empty_conv)
  next
    case (Suc j)
    then show ?thesis using Cons.IH [of j] Cons.prems by (cases "ml_status x = MsCompleted") auto
  qed
qed simp

text \<open>The effect of one milestone payment on the record, read off the code.\<close>

definition open_count :: "milestone_set \<Rightarrow> nat" where
  "open_count ms = length (filter (\<lambda>m. ml_status m \<noteq> MsCompleted) (mset_milestones ms))"

definition ms_payout :: "escrow \<Rightarrow> milestone_set \<Rightarrow> nat \<Rightarrow> int" where
  "ms_payout e ms k =
     (if open_count ms = 1 then es_funded_amount e - mset_released ms
      else es_funded_amount e * int (ml_release_bps (mset_milestones ms ! k)) div 10000)"

definition ms_paid :: "escrow \<Rightarrow> milestone_set \<Rightarrow> nat \<Rightarrow> milestone_set" where
  "ms_paid e ms k =
     ms\<lparr>mset_released := mset_released ms + ms_payout e ms k,
        mset_milestones := (mset_milestones ms)[k := (mset_milestones ms ! k)\<lparr>ml_status := MsCompleted\<rparr>]\<rparr>"

lemma release_milestone_Ok:
  assumes "release_milestone tk env c i idx (st, w) = Ok (u, st', w')" and "es_inv st"
  obtains e ms k es t where
    "ec_escrows st i = Some e" "ec_milestones st i = Some ms" "es_status e = EsFunded" "es_arbiter e = c"
    "k < length (mset_milestones ms)" "ml_status (mset_milestones ms ! k) = MsPending"
    "es_assets e = [\<lparr>asset = t, amount = es_funded_amount e\<rparr>]"
    "tk_transfer tk w t (this_contract env) (es_recipient e) (ms_payout e ms k) = TryOk w'"
    "st' = ec_emit es
       (if list_all (\<lambda>m. ml_status m = MsCompleted) (mset_milestones (ms_paid e ms k))
        then store_escrow i (e\<lparr>es_released_amount := mset_released (ms_paid e ms k), es_status := EsReleased\<rparr>)
               (store_milestones i (ms_paid e ms k) st)
        else store_milestones i (ms_paid e ms k) st)"
proof -
  from assms(1) obtain e ms k m where l: "load_milestone env st c i idx = Ok (e, ms, k, m)"
    by (auto simp: release_milestone_def ok_simps)
  note L = load_milestone_Ok [OF l]
  from assms(1) l have s: "ml_status m = MsPending" "es_status e = EsFunded"
    by (auto simp: release_milestone_def ok_simps milestone_guard_Ok)
  obtain t where t: "es_assets e = [\<lparr>asset = t, amount = es_funded_amount e\<rparr>]"
    using es_invD(2) [OF assms(2) L(1,2)] by (auto simp: milestones_ok_def)
  have f: "0 < es_funded_amount e" "es_funded_amount e \<le> i128_max"
    using es_invD(1) [OF assms(2) L(1)] s(2) by (auto simp: escrow_ok_def live_def)
  have tot: "total_amount [\<lparr>asset = t, amount = es_funded_amount e\<rparr>] = Ok (es_funded_amount e)"
    using f by (simp add: total_amount_def t in_i128_def int_limits)
  have one: "min n u32_max = Suc 0 \<longleftrightarrow> n = Suc 0" for n by (simp add: min_def u32_max_def)
  have g: "es_funded_amount e * int (ml_release_bps m) sdiv 10000 = es_funded_amount e * int (ml_release_bps m) div 10000"
    using f by (simp add: sdiv_nonneg)
  have R: "tk_transfer tk w t (this_contract env) (es_recipient e) (ms_payout e ms k) = TryOk w' \<and>
    st' = ec_emit [EeTransfer (es_sender e) (es_recipient e) t (ms_payout e ms k), EeMilestonePaid i c idx (ms_payout e ms k)]
       (if list_all (\<lambda>m. ml_status m = MsCompleted) (mset_milestones (ms_paid e ms k))
        then store_escrow i (e\<lparr>es_released_amount := mset_released (ms_paid e ms k), es_status := EsReleased\<rparr>)
               (store_milestones i (ms_paid e ms k) st)
        else store_milestones i (ms_paid e ms k) st)"
    using assms(1)
    by (simp add: release_milestone_def Let_def l s tot t one g ok_simps ms_payout_def ms_paid_def open_count_def L(5) cong: if_cong)
  then show ?thesis using that [OF L(1,2) s(2) L(6,4) _ t] s(1) L(5) by blast
qed

lemma cell_store_both:
  "cell (ec_emit es (store_escrow i e (store_milestones i ms st)))
     = (\<lambda>j. if j = i then (Some e, Some ms) else cell st j)"
  by (auto simp: fun_eq_iff)

lemma release_milestone_step:
  assumes "release_milestone tk env c i idx (st, w) = Ok (u, st', w')" and "es_inv st" and "this_contract env = self"
  shows "es_ok_step tk bal self i st w st' w'"
proof -
  obtain e ms k es t where e: "ec_escrows st i = Some e" "ec_milestones st i = Some ms" "es_status e = EsFunded"
    and k: "k < length (mset_milestones ms)" "ml_status (mset_milestones ms ! k) = MsPending"
    and t: "es_assets e = [\<lparr>asset = t, amount = es_funded_amount e\<rparr>]"
    and tr: "tk_transfer tk w t (this_contract env) (es_recipient e) (ms_payout e ms k) = TryOk w'"
    and st': "st' = ec_emit es
       (if list_all (\<lambda>m. ml_status m = MsCompleted) (mset_milestones (ms_paid e ms k))
        then store_escrow i (e\<lparr>es_released_amount := mset_released (ms_paid e ms k), es_status := EsReleased\<rparr>)
               (store_milestones i (ms_paid e ms k) st)
        else store_milestones i (ms_paid e ms k) st)"
    using release_milestone_Ok [OF assms(1,2)] by metis
  note ok = es_invD(1) [OF assms(2) e(1)] es_invD(2) [OF assms(2) e(1,2)]
  have f: "0 < es_funded_amount e" and r0: "es_released_amount e = 0"
    using ok e(3) by (auto simp: escrow_ok_def milestones_ok_def live_def)
  have r: "mset_released ms = paid_shares (es_funded_amount e) (mset_milestones ms)"
    using ok(2) e(3) by (simp add: milestones_ok_def live_def)
  let ?ms = "ms_paid e ms k"
  have bps: "(\<Sum>m\<leftarrow>mset_milestones ?ms. int (ml_release_bps m)) = 10000"
    using ok(2) k(1) by (simp add: ms_paid_def bps_upd milestones_ok_def)
  have owed: "0 \<le> ms_payout e ms k"
    using paid_shares_le [of "es_funded_amount e" "mset_milestones ms"] f ok(2)
    by (simp add: ms_payout_def r milestones_ok_def pos_imp_zdiv_nonneg_iff)
  have bal: "bal w a self - (if a = t then ms_payout e ms k else 0) \<le> bal w' a self" if "token_laws tk bal" for a
    using token_laws_transfer [OF that tr] assms(3) owed by (auto simp: moved_def)
  show ?thesis
  proof (cases "open_count ms = 1")
    case True
    then have all: "list_all (\<lambda>m. ml_status m = MsCompleted) (mset_milestones ?ms)"
      using one_unreleased [of "mset_milestones ms" k] k by (simp add: ms_paid_def open_count_def)
    have rel: "mset_released ?ms = es_funded_amount e" using True by (simp add: ms_paid_def ms_payout_def)
    let ?e = "e\<lparr>es_released_amount := es_funded_amount e, es_status := EsReleased\<rparr>"
    have "st' = ec_emit es (store_escrow i ?e (store_milestones i ?ms st))" using st' all rel by simp
    moreover have "cell_ok (Some ?e, Some ?ms)"
      using ok t bps by (simp add: escrow_ok_def milestones_ok_def live_def)
    moreover have "owed_cell (Some e, Some ms) a = (if a = t then ms_payout e ms k else 0)" for a
      using True e(3) t by (simp add: live_def ms_payout_def)
    ultimately show ?thesis using bal e f r0
      by (intro es_ok_step_store [OF assms(2) e(1), of _ ?e "Some ?ms"])
         (simp_all add: cell_store_both same_agreement_def es_edge_def live_def)
  next
    case False
    then have some: "\<exists>m\<in>set (mset_milestones ?ms). ml_status m \<noteq> MsCompleted"
      using more_unreleased [of "mset_milestones ms" k] k by (simp add: ms_paid_def open_count_def)
    then have st'': "st' = ec_emit es (store_milestones i ?ms st)" using st' by (auto simp: list_all_iff)
    have "mset_released ?ms = paid_shares (es_funded_amount e) (mset_milestones ?ms)"
      using k False by (simp add: ms_paid_def ms_payout_def r paid_shares_upd)
    with some have "milestones_ok e ?ms"
      using ok(2) bps by (simp add: milestones_ok_def) (simp add: ms_paid_def)
    moreover have od: "owed_cell (Some e, Some ?ms) a = owed_cell (Some e, Some ms) a - (if a = t then ms_payout e ms k else 0)" for a
      using e(3) t by (simp add: live_def ms_paid_def)
    moreover have "bal w a self - owed_cell (Some e, Some ms) a \<le> bal w' a self - owed_cell (Some e, Some ?ms) a"
      if "token_laws tk bal" for a
      using bal [OF that, of a] od [of a] by linarith
    ultimately show ?thesis using ok(1) st'' e(2)
      by (intro es_ok_step_store [OF assms(2) e(1), of _ e "Some ?ms"])
         (simp_all only: cell_store_milestones [OF e(1)] cell_ok.simps ec_emit_sel store_sel
            same_agreement_refl es_edge_refl simp_thms)
  qed
qed

section \<open>Opening and cancelling milestone escrows\<close>

lemma freeze_pending_bps [simp]: "ml_release_bps (freeze_pending m) = ml_release_bps m"
  by (simp add: freeze_pending_def)

lemma cancel_milestones_step:
  assumes "cancel_milestones_inner tk env c i (st, w) = Ok (n, st', w')" and "es_inv st" and "this_contract env = self"
  shows "es_ok_step tk bal self i st w st' w'"
proof -
  let ?ms = "\<lambda>ms. ms\<lparr>mset_cancelled := True, mset_milestones := map freeze_pending (mset_milestones ms)\<rparr>"
  let ?e = "\<lambda>e. e\<lparr>es_status := EsRefunded\<rparr>"
  from assms(1) obtain e ms es sent where e: "ec_escrows st i = Some e" "ec_milestones st i = Some ms" "live (es_status e)"
    and p: "return_remaining tk env e (es_funded_amount e - mset_released ms) w = Ok (sent, w')"
    and st': "st' = ec_emit es (store_escrow i (?e e) (store_milestones i (?ms ms) st))"
    by (auto simp: cancel_milestones_inner_def ok_simps Let_def live_def)
  note ok = es_invD(1) [OF assms(2) e(1)] es_invD(2) [OF assms(2) e(1,2)]
  have f: "0 < es_funded_amount e" using ok e(3) by (auto simp: escrow_ok_def)
  obtain t where t: "es_assets e = [\<lparr>asset = t, amount = es_funded_amount e\<rparr>]"
    using ok(2) by (auto simp: milestones_ok_def)
  have r: "0 \<le> es_funded_amount e - mset_released ms"
    using ok(2) e(3) f paid_shares_le [of "es_funded_amount e" "mset_milestones ms"] by (simp add: milestones_ok_def)
  have sh: "share (es_assets e) (es_funded_amount e - mset_released ms) (es_funded_amount e) a = owed_cell (Some e, Some ms) a" for a
    using e(3) t f by simp
  have "milestones_ok (?e e) (?ms ms)" using ok(2) t by (simp add: milestones_ok_def live_def comp_def)
  moreover have "escrow_ok (?e e)" using ok(1) by (simp add: escrow_ok_def live_def)
  moreover have "bal w a self - owed_cell (Some e, Some ms) a \<le> bal w' a self" if "token_laws tk bal" for a
    using return_remaining_bal [OF p that assms(3) r, of a] f t sh [of a] by simp
  ultimately show ?thesis unfolding st' using e
    by (intro es_ok_step_store [OF assms(2) e(1) cell_store_both])
       (auto simp: same_agreement_def es_edge_def live_def)
qed

lemma cancel_step:
  assumes "es_cancel tk env c i (st, w) = Ok (u, st', w')" and "es_inv st" and "this_contract env = self"
  shows "es_ok_step tk bal self i st w st' w'"
proof (cases "ec_milestones st i")
  case (Some ms)
  then obtain n where "cancel_milestones_inner tk env c i (st, w) = Ok (n, st', w')"
    using assms(1) by (auto simp: es_cancel_def ok_simps)
  then show ?thesis by (rule cancel_milestones_step [OF _ assms(2,3)])
next
  case None
  from assms(1) None obtain e es sent where e: "ec_escrows st i = Some e" "es_status e = EsFunded \<or> es_status e = EsCreated"
    and p: "return_remaining tk env e (es_funded_amount e - es_released_amount e) w = Ok (sent, w')"
    and st': "st' = ec_emit es (store_escrow i (e\<lparr>es_status := EsRefunded\<rparr>) st)"
    by (auto simp: es_cancel_def ok_simps Let_def)
  show ?thesis unfolding st'
    by (rule settle_step [OF assms(2) e(1) None cell_store])
       (use e(2) return_remaining_bal [OF p _ assms(3)] in \<open>auto simp: same_agreement_def es_edge_def live_def\<close>)
qed

lemma total_bps_loop_Ok:
  "total_bps_loop ss tot = Ok n \<Longrightarrow> n = tot + (\<Sum>s\<leftarrow>ss. spec_release_bps s)"
  by (induction ss arbitrary: tot) (fastforce simp: ok_simps checked_add_word_def split: if_splits)+

lemma milestones_of_bps:
  "(\<Sum>m\<leftarrow>map2 milestone_of [k..<k + length ss] ss. int (ml_release_bps m)) = (\<Sum>s\<leftarrow>ss. int (spec_release_bps s))"
proof (induction ss arbitrary: k)
  case (Cons s ss)
  have "[k..<k + length (s # ss)] = k # [Suc k..<Suc k + length ss]" by (simp add: upt_rec)
  then show ?case using Cons [of "Suc k"] by (simp add: milestone_of_def)
qed simp

lemma milestones_of_pending: "m \<in> set (map2 milestone_of ks ss) \<Longrightarrow> ml_status m = MsPending"
  by (auto simp: milestone_of_def)

lemma deposit_step:
  assumes "deposit_with_milestones tk env s r ar tok amt d memo specs (st, w) = Ok (i, st', w')"
    and "es_inv st" and "get_count st < u64_max" and "this_contract env = self" and "\<not> authorized env self"
    and "amt \<le> i128_max"
  shows "es_ok_step tk bal self i st w st' w'"
proof -
  let ?e = "\<lparr>es_sender = s, es_recipient = r, es_arbiter = ar, es_assets = [\<lparr>asset = tok, amount = amt\<rparr>],
      es_status = EsFunded, es_deadline = d, es_grace_period = 0, es_refund_window = 0,
      es_funded_amount = amt, es_memo = memo, es_schedule = schedule_none, es_released_amount = 0,
      es_override_signers = [], es_override_threshold = 0, es_override_nonce = 0\<rparr>"
  let ?l = "map2 milestone_of [0..<length specs] specs"
  let ?ms = "\<lparr>mset_milestones = ?l, mset_released = 0, mset_cancelled = False\<rparr>"
  from assms(1) obtain st1 es where h: "authorized env s" "0 < amt" "specs \<noteq> []" "total_bps_loop specs 0 = Ok 10000"
    "increment_count st = Ok (i, st1)" "tk_transfer tk w tok s self amt = TryOk w'"
    and st': "st' = ec_emit es (store_escrow i ?e (store_milestones i ?ms st1))"
    using assms(4) by (auto simp: deposit_with_milestones_def ok_simps Let_def)
  have self: "s \<noteq> self" using h(1) assms(5) by auto
  have bps: "(\<Sum>m\<leftarrow>?l. int (ml_release_bps m)) = 10000"
  proof -
    have "(\<Sum>s\<leftarrow>specs. int (spec_release_bps s)) = int (\<Sum>s\<leftarrow>specs. spec_release_bps s)"
      by (induction specs) simp_all
    then show ?thesis using milestones_of_bps [of 0 specs] total_bps_loop_Ok [OF h(4)] by simp
  qed
  have paid: "paid_shares amt ?l = 0"
  proof -
    have "map (\<lambda>m. if ml_status m = MsCompleted then amt * int (ml_release_bps m) div 10000 else 0) ?l = map (\<lambda>_. 0) ?l"
      using milestones_of_pending by (intro map_cong) auto
    then show ?thesis unfolding paid_shares_def by (simp only: sum_list_0)
  qed
  have "hd ?l \<in> set ?l" using h(3) by (intro list.set_sel(1)) simp
  then have "\<exists>m\<in>set ?l. ml_status m \<noteq> MsCompleted"
    using milestones_of_pending [of "hd ?l"] by (metis milestone_status.distinct(1))
  with bps paid have "milestones_ok ?e ?ms" by (simp add: milestones_ok_def)
  moreover have "escrow_ok ?e" using h(2) assms(6) by (simp add: escrow_ok_def live_def)
  ultimately have ok: "cell_ok (Some ?e, Some ?ms)" by simp
  show ?thesis unfolding st'
  proof (rule es_ok_step_create [OF assms(2) h(5) assms(3) cell_store_both _ ok])
    show "bal w a self + owed_cell (Some ?e, Some ?ms) a \<le> bal w' a self" if "token_laws tk bal" for a
      using token_laws_transfer [OF that h(6)] self by (simp add: live_def moved_def)
  qed simp_all
qed

section \<open>Runs\<close>

text \<open>A call into this contract that the contract itself has not authorised.\<close>

definition called :: "address \<Rightarrow> env \<Rightarrow> bool" where
  "called self env \<longleftrightarrow> this_contract env = self \<and> \<not> authorized env self"

text \<open>Every entrypoint, and the moves of third parties, who cannot spend what the contract holds.
  Creation stays within the 64-bit counter.\<close>

inductive es_step ::
  "'w token_api \<Rightarrow> crypto \<Rightarrow> ('w \<Rightarrow> address \<Rightarrow> address \<Rightarrow> int) \<Rightarrow> address \<Rightarrow>
   escrow_state \<times> 'w \<Rightarrow> escrow_state \<times> 'w \<Rightarrow> bool"
  for tk cr bal self where
  est_world: "(\<And>a. bal w a self \<le> bal w' a self) \<Longrightarrow> es_step tk cr bal self (st, w) (st, w')"
| est_initialize: "es_initialize ad st = Ok (u, st') \<Longrightarrow> es_step tk cr bal self (st, w) (st', w)"
| est_approve_token: "approve_token env c tok st = Ok (u, st') \<Longrightarrow> es_step tk cr bal self (st, w) (st', w)"
| est_revoke_token: "revoke_token env c tok st = Ok (u, st') \<Longrightarrow> es_step tk cr bal self (st, w) (st', w)"
| est_approve_release: "approve_release env c i st = Ok (n, st') \<Longrightarrow> es_step tk cr bal self (st, w) (st', w)"
| est_expire: "es_expire env i st = Ok (u, st') \<Longrightarrow> es_step tk cr bal self (st, w) (st', w)"
| est_close: "es_close env c i st = Ok (u, st') \<Longrightarrow> es_step tk cr bal self (st, w) (st', w)"
| est_dispute: "dispute_milestone env c i idx st = Ok (u, st') \<Longrightarrow> es_step tk cr bal self (st, w) (st', w)"
| est_resolve: "resolve_milestone env c i idx st = Ok (u, st') \<Longrightarrow> es_step tk cr bal self (st, w) (st', w)"
| est_create: "\<lbrakk>es_create tk env s r ar as d g memo sg th (st, w) = Ok (i, st', w'); called self env;
    get_count st < u64_max\<rbrakk> \<Longrightarrow> es_step tk cr bal self (st, w) (st', w')"
| est_create_window: "\<lbrakk>create_with_refund_window tk env s r ar as d g rw memo sg th (st, w) = Ok (i, st', w');
    called self env; get_count st < u64_max\<rbrakk> \<Longrightarrow> es_step tk cr bal self (st, w) (st', w')"
| est_create_condition: "\<lbrakk>create_with_release_condition tk env cfg (st, w) = Ok (i, st', w'); called self env;
    get_count st < u64_max\<rbrakk> \<Longrightarrow> es_step tk cr bal self (st, w) (st', w')"
| est_create_timelock: "\<lbrakk>create_timelock tk env s r ar as ut memo (st, w) = Ok (i, st', w'); called self env;
    get_count st < u64_max\<rbrakk> \<Longrightarrow> es_step tk cr bal self (st, w) (st', w')"
| est_create_scheduled: "\<lbrakk>create_scheduled tk env s r ar as sc d memo (st, w) = Ok (i, st', w'); called self env;
    get_count st < u64_max\<rbrakk> \<Longrightarrow> es_step tk cr bal self (st, w) (st', w')"
| est_init_timelock: "\<lbrakk>initialize_timelock env s r ar as ut g memo st = Ok (i, st'); get_count st < u64_max\<rbrakk>
    \<Longrightarrow> es_step tk cr bal self (st, w) (st', w)"
| est_deposit: "\<lbrakk>deposit_with_milestones tk env s r ar tok amt d memo specs (st, w) = Ok (i, st', w');
    called self env; get_count st < u64_max; amt \<le> i128_max\<rbrakk> \<Longrightarrow> es_step tk cr bal self (st, w) (st', w')"
| est_fund: "\<lbrakk>es_fund tk env s i (st, w) = Ok (u, st', w'); called self env\<rbrakk>
    \<Longrightarrow> es_step tk cr bal self (st, w) (st', w')"
| est_withdraw: "\<lbrakk>es_withdraw tk env c i amt (st, w) = Ok (n, st', w'); called self env\<rbrakk>
    \<Longrightarrow> es_step tk cr bal self (st, w) (st', w')"
| est_claim: "\<lbrakk>es_claim tk env c i (st, w) = Ok (n, st', w'); called self env\<rbrakk>
    \<Longrightarrow> es_step tk cr bal self (st, w) (st', w')"
| est_release: "\<lbrakk>es_release tk env c i ra (st, w) = Ok (u, st', w'); called self env\<rbrakk>
    \<Longrightarrow> es_step tk cr bal self (st, w) (st', w')"
| est_override: "\<lbrakk>override_release tk cr env i nonce sigs (st, w) = Ok (u, st', w'); called self env\<rbrakk>
    \<Longrightarrow> es_step tk cr bal self (st, w) (st', w')"
| est_refund: "\<lbrakk>es_refund tk env c i (st, w) = Ok (u, st', w'); called self env\<rbrakk>
    \<Longrightarrow> es_step tk cr bal self (st, w) (st', w')"
| est_refund_timelock: "\<lbrakk>refund_timelock tk env c i (st, w) = Ok (u, st', w'); called self env\<rbrakk>
    \<Longrightarrow> es_step tk cr bal self (st, w) (st', w')"
| est_cancel: "\<lbrakk>es_cancel tk env c i (st, w) = Ok (u, st', w'); called self env\<rbrakk>
    \<Longrightarrow> es_step tk cr bal self (st, w) (st', w')"
| est_reclaim: "\<lbrakk>es_reclaim tk env c i (st, w) = Ok (u, st', w'); called self env\<rbrakk>
    \<Longrightarrow> es_step tk cr bal self (st, w) (st', w')"
| est_release_milestone: "\<lbrakk>release_milestone tk env c i idx (st, w) = Ok (u, st', w'); called self env\<rbrakk>
    \<Longrightarrow> es_step tk cr bal self (st, w) (st', w')"
| est_cancel_milestones: "\<lbrakk>cancel_remaining_milestones tk env c i (st, w) = Ok (n, st', w'); called self env\<rbrakk>
    \<Longrightarrow> es_step tk cr bal self (st, w) (st', w')"

lemma world_step:
  assumes "es_inv st" and "\<And>a. bal w a self \<le> bal w' a self"
  shows "es_ok_step tk bal self 0 st w st w'"
proof -
  have "cell_ok (cell st 0)" using assms(1) by (simp add: es_inv_def)
  then show ?thesis using assms(2) by (simp add: es_ok_step_def)
qed

lemmas token_step_rules = create_step create_condition_step create_timelock_step create_scheduled_step deposit_step
  fund_step withdraw_step claim_step release_step override_step refund_step refund_timelock_step cancel_step
  reclaim_step release_milestone_step

lemma es_step_ok:
  assumes "es_step tk cr bal self (st, w) (st', w')" and "es_inv st"
  shows "\<exists>i. es_ok_step tk bal self i st w st' w'"
  using assms
proof (cases rule: es_step.cases)
  case est_world
  then show ?thesis using world_step [OF assms(2), of bal w self w' tk] by auto
next
  case (est_create env s r ar as d g memo sg th i)
  then have "es_ok_step tk bal self i st w st' w'"
    by (intro create_step [OF _ assms(2)]) (auto simp: es_create_def called_def)
  then show ?thesis ..
next
  case (est_cancel_milestones env c i n)
  then have "es_ok_step tk bal self i st w st' w'"
    by (intro cancel_milestones_step [OF _ assms(2)]) (auto simp: cancel_remaining_milestones_def ok_simps called_def)
  then show ?thesis ..
qed (auto simp: called_def intro: admin_step [OF assms(2)] approve_release_step [OF _ assms(2)]
      expire_step [OF _ assms(2)] close_step [OF _ assms(2)] dispute_step [OF _ assms(2)] resolve_step [OF _ assms(2)]
      initialize_timelock_step [OF _ assms(2)] token_step_rules [OF _ assms(2)])

text \<open>What the contract owes in total, per asset.\<close>

definition owed :: "escrow_state \<Rightarrow> address \<Rightarrow> int" where
  "owed st a = (\<Sum>i\<le>get_count st. owed_cell (cell st i) a)"

lemma owed_upto:
  assumes "es_inv st" and "get_count st \<le> n"
  shows "owed st a = (\<Sum>i\<le>n. owed_cell (cell st i) a)"
  unfolding owed_def using assms es_inv_fresh [OF assms(1)]
  by (intro sum.mono_neutral_left) auto

lemma es_ok_step_owed:
  assumes "es_inv st" and "es_ok_step tk bal self i st w st' w'" and "token_laws tk bal"
  shows "bal w a self - owed st a \<le> bal w' a self - owed st' a"
proof -
  let ?n = "max i (get_count st')" and ?o = "\<lambda>s j. owed_cell (cell s j) a"
  have le: "get_count st \<le> ?n" using assms(2) by (auto simp: es_ok_step_def)
  have "(\<Sum>j\<in>{..?n} - {i}. ?o st' j) = (\<Sum>j\<in>{..?n} - {i}. ?o st j)"
    using assms(2) by (intro sum.cong) (auto simp: es_ok_step_def)
  then have "owed st' a - ?o st' i = owed st a - ?o st i"
    using owed_upto [OF es_ok_step_inv [OF assms(1,2)], of ?n a] owed_upto [OF assms(1) le, of a]
      sum.remove [of "{..?n}" i "?o st"] sum.remove [of "{..?n}" i "?o st'"] by simp
  moreover have "bal w a self - ?o st i \<le> bal w' a self - ?o st' i" using assms(2,3) by (simp add: es_ok_step_def)
  ultimately show ?thesis by linarith
qed

lemma es_inv_empty: "es_inv escrow_empty"
  by (simp add: es_inv_def escrow_empty_def cell_def)

lemma owed_empty: "owed escrow_empty a = 0"
  by (simp add: owed_def get_count_def escrow_empty_def cell_def)

definition custody ::
  "'w token_api \<Rightarrow> ('w \<Rightarrow> address \<Rightarrow> address \<Rightarrow> int) \<Rightarrow> address \<Rightarrow> 'w \<Rightarrow> escrow_state \<times> 'w \<Rightarrow> bool" where
  "custody tk bal self w0 s \<longleftrightarrow> es_inv (fst s) \<and>
     (token_laws tk bal \<longrightarrow> (\<forall>a. bal w0 a self + owed (fst s) a \<le> bal (snd s) a self))"

interpretation escrow_sys: invariant_system "\<lambda>s. s = (escrow_empty, w0)" "es_step tk cr bal self" "custody tk bal self w0"
  for tk :: "'w token_api" and cr bal self w0
proof
  show "s = (escrow_empty, w0) \<Longrightarrow> custody tk bal self w0 s" for s
    by (simp add: custody_def es_inv_empty owed_empty)
next
  fix s t assume c: "custody tk bal self w0 s" and e: "es_step tk cr bal self s t"
  obtain st w st' w' where s: "s = (st, w)" "t = (st', w')" by (metis surj_pair)
  then obtain i where i: "es_ok_step tk bal self i st w st' w'" using es_step_ok [of tk cr bal self st w st' w'] e c by (auto simp: custody_def)
  have "bal w0 a self + owed st' a \<le> bal w' a self" if "token_laws tk bal" for a
    using es_ok_step_owed [OF _ i that, of a] c s that by (auto simp: custody_def dest: spec [of _ a])
  then show "custody tk bal self w0 t" using es_ok_step_inv [OF _ i] c s by (simp add: custody_def)
qed

section \<open>Helpers of the properties\<close>

text \<open>A pay-out moves exactly the shares, and nothing else.\<close>

lemma pay_pro_rata_exact:
  assumes "token_laws tk bal" and "pay_pro_rata tk self to_a part f as w = Ok (sent, w')"
    and "0 \<le> part" and "0 < f" and "\<forall>x\<in>set as. 0 < amount x"
  shows "bal w' a x = bal w a x + (if x = to_a then share as part f a else 0) - (if x = self then share as part f a else 0)"
  using assms(2,5)
proof (induction as arbitrary: w sent)
  case (Cons y ys)
  have nn: "0 \<le> amount y * part" using Cons.prems(2) assms(3) by simp
  from Cons.prems(1) obtain w1 sent1 where
    w1: "(if 0 < amount y * part sdiv f then token_transfer tk w (asset y) self to_a (amount y * part sdiv f) else Ok w) = Ok w1"
    and rest: "pay_pro_rata tk self to_a part f ys w1 = Ok (sent1, w')"
    by (auto simp: ok_simps)
  have nn': "0 \<le> amount y * part div f" using nn assms(4) by (simp add: pos_imp_zdiv_nonneg_iff)
  have "bal w1 a x = bal w a x + (if x = to_a then (if asset y = a then amount y * part div f else 0) else 0)
      - (if x = self then (if asset y = a then amount y * part div f else 0) else 0)"
    using w1 token_laws_transfer [OF assms(1), of w] nn nn' assms(4)
    by (cases "0 < amount y * part div f") (auto simp: sdiv_nonneg ok_simps moved_def)
  with Cons.IH [OF rest] Cons.prems(2) show ?case by simp
qed simp

lemma es_inv_reach:
  "reach (\<lambda>s. s = (escrow_empty, w0)) (es_step tk cr bal self) (st, w) \<Longrightarrow> es_inv st"
  using escrow_sys.reach_inv [of w0 tk cr bal self "(st, w)"] by (simp add: custody_def)

lemma es_step_move:
  assumes "es_step tk cr bal self (st, w) (st', w')" and "es_inv st"
  shows "es_move (ec_escrows st i) (ec_escrows st' i)"
proof -
  obtain j where "es_ok_step tk bal self j st w st' w'" using es_step_ok [OF assms] ..
  then show ?thesis by (cases "i = j") (auto simp: es_ok_step_def cell_def)
qed

lemma es_step_inv:
  assumes "es_step tk cr bal self (st, w) (st', w')" and "es_inv st"
  shows "es_inv st'"
proof -
  obtain j where "es_ok_step tk bal self j st w st' w'" using es_step_ok [OF assms] ..
  then show ?thesis by (rule es_ok_step_inv [OF assms(2)])
qed

text \<open>The terms of an escrow survive every run.\<close>

lemma terms_survive:
  assumes "(es_step tk cr bal self)\<^sup>*\<^sup>* (st, w) (st', w')" and "es_inv st" and "ec_escrows st i = Some e"
  shows "es_inv st' \<and> (\<exists>e'. ec_escrows st' i = Some e' \<and> es_deadline e' = es_deadline e \<and>
    es_grace_period e' = es_grace_period e \<and> es_schedule e' = es_schedule e)"
  using assms(1)
proof (induction rule: rtranclp_induct2)
  case (step st1 w1 st2 w2)
  then obtain e1 where e1: "es_inv st1" "ec_escrows st1 i = Some e1" "es_deadline e1 = es_deadline e"
    "es_grace_period e1 = es_grace_period e" "es_schedule e1 = es_schedule e" by auto
  with es_step_move [OF step(2), of i] have "es_move (Some e1) (ec_escrows st2 i)" by simp
  then show ?case using es_step_inv [OF step(2) e1(1)] e1
    by (cases "ec_escrows st2 i") (auto simp: same_agreement_def)
qed (use assms in auto)

lemma grace_end_eq:
  "es_deadline e + es_grace_period e \<le> u64_max \<Longrightarrow> grace_end e = Ok (es_deadline e + es_grace_period e)"
proof -
  assume a: "es_deadline e + es_grace_period e \<le> u64_max"
  then have "in_i128 (int (es_deadline e + es_grace_period e))" by (simp add: in_i128_def int_limits)
  moreover have "as_u64 (int (es_deadline e + es_grace_period e)) = es_deadline e + es_grace_period e"
    using a by (rule as_u64_int)
  ultimately show ?thesis by (simp add: grace_end_def checked_add_def safe_add_def)
qed

end
