(* ===== verification/Escrow_Safety.thy ===== *)
theory Escrow_Safety
  imports Escrow_Runs
begin

text \<open>
  The properties of the escrow contract: custody and lifecycle over whole runs, what each pay-out
  moves, vesting, the exclusive windows of release and refund, and the places where the code departs
  from its documentation.
\<close>

lemma ms_payout_bounds:
  assumes "es_inv st" and "ec_escrows st i = Some e" and "ec_milestones st i = Some ms" and "es_status e = EsFunded"
    and "k < length (mset_milestones ms)" and "ml_status (mset_milestones ms ! k) = MsPending"
  shows "0 \<le> ms_payout e ms k" and "mset_released ms + ms_payout e ms k \<le> es_funded_amount e"
proof -
  let ?l = "mset_milestones ms" and ?f = "es_funded_amount e"
  let ?l' = "?l[k := (?l ! k)\<lparr>ml_status := MsCompleted\<rparr>]"
  have f: "0 < ?f" using es_invD(1) [OF assms(1,2)] assms(4) by (simp add: escrow_ok_def live_def)
  have m: "(\<Sum>m\<leftarrow>?l. int (ml_release_bps m)) = 10000" "mset_released ms = paid_shares ?f ?l"
    using es_invD(2) [OF assms(1-3)] assms(4) by (auto simp: milestones_ok_def live_def)
  have "paid_shares ?f ?l' \<le> ?f" using paid_shares_le(2) [of ?f ?l'] bps_upd [OF assms(5), of MsCompleted] m(1) f by simp
  then have "paid_shares ?f ?l + ?f * int (ml_release_bps (?l ! k)) div 10000 \<le> ?f"
    using paid_shares_upd [OF assms(5), of ?f MsCompleted] assms(6) by simp
  then show "mset_released ms + ms_payout e ms k \<le> ?f" using m(2) by (simp add: ms_payout_def)
  show "0 \<le> ms_payout e ms k"
    using paid_shares_le [of ?f ?l] f m by (simp add: ms_payout_def pos_imp_zdiv_nonneg_iff)
qed

section \<open>A concrete run\<close>

text \<open>Tokens 7 and 8 are approved by the admin 1; 1 pays into escrow 1 for 2, with 3 as arbiter and 9
  the contract's own address.\<close>

definition demo_env :: "u64 \<Rightarrow> env" where
  "demo_env t = \<lparr>timestamp = t, sequence = 1, this_contract = 9, authorized = (\<lambda>a. a = 1 \<or> a = 2 \<or> a = 3),
     authorized_args = (\<lambda>_ _. False)\<rparr>"

definition demo_world :: "address \<Rightarrow> address \<Rightarrow> int" where
  "demo_world t x = (if x = 1 then 1000 else 0)"

definition demo_crypto :: crypto where
  "demo_crypto = \<lparr>cr_address_xdr = (\<lambda>_. []), cr_network_id = [], cr_sha256 = (\<lambda>b. b), cr_ed25519_verify = (\<lambda>_ _ _. False)\<rparr>"

definition demo_state :: escrow_state where
  "demo_state = escrow_empty\<lparr>ec_count := Some 0, ec_admin := Some 1, ec_token_list := Some [7, 8],
     ec_approved := [7 \<mapsto> True, 8 \<mapsto> True], ec_events := [EeToken ''tok_add'' 7, EeToken ''tok_add'' 8]\<rparr>"

abbreviation demo_reach :: "escrow_state \<times> (address \<Rightarrow> address \<Rightarrow> int) \<Rightarrow> bool" where
  "demo_reach \<equiv> reach (\<lambda>s. s = (escrow_empty, demo_world)) (es_step ledger_token demo_crypto (\<lambda>w. w) 9)"

lemma demo_called [simp]: "called 9 (demo_env t)"
  by (simp add: called_def demo_env_def)

lemma demo_env_sel [simp]:
  "timestamp (demo_env t) = t" "this_contract (demo_env t) = 9"
  "authorized (demo_env t) a \<longleftrightarrow> a = 1 \<or> a = 2 \<or> a = 3"
  by (simp_all add: demo_env_def)

lemma demo_step:
  "demo_reach s \<Longrightarrow> es_step ledger_token demo_crypto (\<lambda>w. w) 9 s t \<Longrightarrow> demo_reach t"
  by (rule reach_step)

lemma setup_reach: "reach (\<lambda>s. s = (escrow_empty, w0)) (es_step ledger_token demo_crypto (\<lambda>w. w) 9) (demo_state, w0)"
proof -
  let ?s0 = "escrow_empty\<lparr>ec_count := Some 0, ec_admin := Some 1\<rparr>"
  let ?s1 = "?s0\<lparr>ec_token_list := Some [7], ec_approved := [7 \<mapsto> True], ec_events := [EeToken ''tok_add'' 7]\<rparr>"
  have a: "es_initialize 1 escrow_empty = Ok ((), ?s0)" by (simp add: es_initialize_def escrow_empty_def)
  have b: "approve_token (demo_env 0) 1 7 ?s0 = Ok ((), ?s1)"
    by (simp add: approve_token_def es_require_admin_def load_admin_def require_auth_def is_token_approved_internal_def
        approved_token_list_def MAX_ESCROW_TOKENS_def store_approved_token_list_def emit_token_change_def ec_emit_def
        escrow_empty_def)
  have c: "approve_token (demo_env 0) 1 8 ?s1 = Ok ((), demo_state)"
    by (simp add: approve_token_def es_require_admin_def load_admin_def require_auth_def is_token_approved_internal_def
        approved_token_list_def MAX_ESCROW_TOKENS_def store_approved_token_list_def emit_token_change_def ec_emit_def
        escrow_empty_def demo_state_def Let_def)
  let ?step = "es_step ledger_token demo_crypto (\<lambda>w. w) 9"
  let ?reach = "reach (\<lambda>s. s = (escrow_empty, w0)) ?step"
  have "?reach (escrow_empty, w0)" by (rule reach_init) (rule refl)
  moreover have "?step (escrow_empty, w0) (?s0, w0)" by (rule est_initialize [OF a])
  moreover have "?step (?s0, w0) (?s1, w0)" by (rule est_approve_token [OF b])
  moreover have "?step (?s1, w0) (demo_state, w0)" by (rule est_approve_token [OF c])
  ultimately show ?thesis by (rule reach_step [OF reach_step [OF reach_step]])
qed

lemmas demo_state_reach = setup_reach [of demo_world]

text \<open>A world in which account 1 can pay in \<open>2 ^ 64\<close> units.\<close>

definition rich_world :: "address \<Rightarrow> address \<Rightarrow> int" where
  "rich_world t x = (if x = 1 then 2 ^ 70 else 0)"

definition demo_plain :: escrow where
  "demo_plain = \<lparr>es_sender = 1, es_recipient = 2, es_arbiter = 3, es_assets = [\<lparr>asset = 7, amount = 100\<rparr>],
     es_status = EsFunded, es_deadline = 1000, es_grace_period = 50, es_refund_window = 0, es_funded_amount = 100,
     es_memo = [], es_schedule = schedule_none, es_released_amount = 0, es_override_signers = [],
     es_override_threshold = 0, es_override_nonce = 0\<rparr>"

definition demo_escrow :: "escrow \<Rightarrow> escrow_event list \<Rightarrow> escrow_state" where
  "demo_escrow e es = ec_emit es (store_escrow 1 e (demo_state\<lparr>ec_count := Some 1\<rparr>))"

lemmas demo_simps = require_auth_def validate_assets_def require_token_approved_def is_token_approved_internal_def
  validate_override_config_def increment_count_def get_count_def checked_add_def safe_add_def checked_sub_def safe_sub_def
  checked_mul_def safe_mul_def checked_div_def safe_div_def require_positive_amount_def MAX_ESCROW_ASSETS_def
  in_i128_def int_limits token_transfer_def ledger_token_def Let_def

lemma demo_state_sel [simp]:
  "ec_count demo_state = Some 0" "ec_approved demo_state = [7 \<mapsto> True, 8 \<mapsto> True]"
  "ec_escrows demo_state = Map.empty" "ec_milestones demo_state = Map.empty" "ec_conditions demo_state = Map.empty"
  by (simp_all add: demo_state_def escrow_empty_def)

lemma demo_create:
  "es_create ledger_token (demo_env 10) 1 2 3 [\<lparr>asset = 7, amount = 100\<rparr>] 1000 50 [] [] 0 (demo_state, demo_world)
     = Ok (1, demo_escrow demo_plain [EeFunded 1 1 2 (es_assets demo_plain), EeCreated 1 1 2 (es_assets demo_plain) 1000],
           moved demo_world 7 1 9 100)"
proof -
  have "as_u64 1 = 1" using as_u64_int [of 1] by (simp add: int_limits)
  then show ?thesis
    by (simp add: es_create_def create_with_refund_window_def demo_simps demo_escrow_def demo_plain_def demo_world_def)
qed

lemma demo_plain_reach:
  "\<exists>es. demo_reach (demo_escrow demo_plain es, moved demo_world 7 1 9 100)"
  using demo_step [OF demo_state_reach est_create [OF demo_create]] by (auto simp: get_count_def int_limits)

definition demo_linear :: "asset_amount list \<Rightarrow> i128 \<Rightarrow> i128 \<Rightarrow> escrow_status \<Rightarrow> escrow" where
  "demo_linear as f r s = \<lparr>es_sender = 1, es_recipient = 2, es_arbiter = 3, es_assets = as,
     es_status = s, es_deadline = 2000, es_grace_period = 0, es_refund_window = 0, es_funded_amount = f,
     es_memo = [], es_schedule = \<lparr>sc_type = RtLinear, sc_start = 0, sc_cliff = 0, sc_end = 1000\<rparr>,
     es_released_amount = r, es_override_signers = [], es_override_threshold = 0, es_override_nonce = 0\<rparr>"

abbreviation demo_schedule :: release_schedule where
  "demo_schedule \<equiv> \<lparr>sc_type = RtLinear, sc_start = 0, sc_cliff = 0, sc_end = 1000\<rparr>"

lemma demo_u64: "as_u64 1 = 1"
  using as_u64_int [of 1] by (simp add: int_limits)

lemma demo_scheduled:
  "\<exists>es. create_scheduled ledger_token (demo_env 10) 1 2 3 [\<lparr>asset = 7, amount = 1000\<rparr>] demo_schedule 2000 [] (demo_state, demo_world)
     = Ok (1, demo_escrow (demo_linear [\<lparr>asset = 7, amount = 1000\<rparr>] 1000 0 EsFunded) es, moved demo_world 7 1 9 1000)"
  by (intro exI)
     (simp add: create_scheduled_def demo_simps demo_escrow_def demo_linear_def demo_world_def demo_u64)

lemma demo_scheduled_reach:
  "\<exists>es. demo_reach (demo_escrow (demo_linear [\<lparr>asset = 7, amount = 1000\<rparr>] 1000 0 EsFunded) es, moved demo_world 7 1 9 1000)"
proof -
  obtain es where c: "create_scheduled ledger_token (demo_env 10) 1 2 3 [\<lparr>asset = 7, amount = 1000\<rparr>] demo_schedule 2000 [] (demo_state, demo_world)
     = Ok (1, demo_escrow (demo_linear [\<lparr>asset = 7, amount = 1000\<rparr>] 1000 0 EsFunded) es, moved demo_world 7 1 9 1000)"
    using demo_scheduled by blast
  show ?thesis by (rule exI, rule demo_step [OF demo_state_reach est_create_scheduled [OF c]]) (simp_all add: get_count_def int_limits)
qed

lemma demo_escrow_sel [simp]:
  "ec_escrows (demo_escrow e es) = [1 \<mapsto> e]" "ec_milestones (demo_escrow e es) = Map.empty"
  "ec_conditions (demo_escrow e es) = Map.empty"
  by (simp_all add: demo_escrow_def store_escrow_def)

lemma demo_escrow_store [simp]: "ec_emit es' (store_escrow (Suc 0) e' (demo_escrow e es)) = demo_escrow e' (es @ es')"
  by (simp add: demo_escrow_def store_escrow_def ec_emit_def)

lemma demo_withdraw:
  "\<exists>es'. es_withdraw ledger_token (demo_env 500) 2 1 500
     (demo_escrow (demo_linear [\<lparr>asset = 7, amount = 1000\<rparr>] 1000 0 EsFunded) es, moved demo_world 7 1 9 1000)
     = Ok (500, demo_escrow (demo_linear [\<lparr>asset = 7, amount = 1000\<rparr>] 1000 500 EsFunded) es',
           moved (moved demo_world 7 1 9 1000) 7 9 2 500)"
  by (intro exI)
     (simp add: es_withdraw_def demo_simps demo_linear_def demo_world_def load_escrow_def reject_milestone_settlement_def
       calculate_claimable_amount_def calculate_vested_amount_def require_release_approvals_def load_release_condition_def
       sdiv_nonneg moved_def)


lemma demo_release:
  "\<exists>es'. es_release ledger_token (demo_env 500) 3 1 500
     (demo_escrow (demo_linear [\<lparr>asset = 7, amount = 1000\<rparr>] 1000 500 EsFunded) es,
      moved (moved demo_world 7 1 9 1000) 7 9 2 500)
     = Ok ((), demo_escrow (demo_linear [\<lparr>asset = 7, amount = 1000\<rparr>] 1000 1000 EsReleased) es',
           moved (moved (moved demo_world 7 1 9 1000) 7 9 2 500) 7 9 2 500)"
proof -
  have "as_u64 2000 = 2000" using as_u64_int [of 2000] by (simp add: int_limits)
  then show ?thesis
    by (intro exI)
       (simp add: es_release_def demo_simps demo_linear_def demo_world_def load_escrow_def release_lock_def
         calculate_vested_amount_def grace_end_def transfer_all_def require_release_approvals_def
         load_release_condition_def sdiv_nonneg moved_def)
qed

definition demo_milestones :: milestone_set where
  "demo_milestones = \<lparr>mset_milestones = [
     \<lparr>ml_index = 0, ml_description = ''design'', ml_release_bps = 3333, ml_status = MsPending\<rparr>,
     \<lparr>ml_index = 1, ml_description = ''build'', ml_release_bps = 6667, ml_status = MsPending\<rparr>],
     mset_released = 0, mset_cancelled = False\<rparr>"

definition demo_phased :: "escrow_event list \<Rightarrow> escrow_state" where
  "demo_phased es = ec_emit es (store_escrow 1 (demo_plain\<lparr>es_grace_period := 0\<rparr>)
     (store_milestones 1 demo_milestones (demo_state\<lparr>ec_count := Some 1\<rparr>)))"

lemma demo_deposit:
  "\<exists>es. deposit_with_milestones ledger_token (demo_env 10) 1 2 3 7 100 1000 []
     [\<lparr>spec_description = ''design'', spec_release_bps = 3333\<rparr>, \<lparr>spec_description = ''build'', spec_release_bps = 6667\<rparr>]
     (demo_state, demo_world) = Ok (1, demo_phased es, moved demo_world 7 1 9 100)"
  by (intro exI)
     (simp add: deposit_with_milestones_def demo_simps demo_phased_def demo_plain_def demo_world_def demo_u64
        demo_milestones_def checked_add_word_def milestone_of_def)

section \<open>Deposits too large to settle\<close>

text \<open>A funded escrow of one asset, without milestones and without a vesting schedule, from which nothing was
  released.\<close>

definition single_deposit :: "escrow_state \<Rightarrow> u64 \<Rightarrow> address \<Rightarrow> i128 \<Rightarrow> bool" where
  "single_deposit st i t f \<longleftrightarrow> ec_milestones st i = None \<and>
     (\<exists>e. ec_escrows st i = Some e \<and> es_assets e = [\<lparr>asset = t, amount = f\<rparr>] \<and> es_funded_amount e = f \<and>
        es_released_amount e = 0 \<and> sc_type (es_schedule e) = RtNone \<and> live (es_status e))"

lemma single_deposit_cell: "cell st' i = cell st i \<Longrightarrow> single_deposit st' i t f = single_deposit st i t f"
  by (simp add: single_deposit_def cell_def)

lemma single_deposit_range:
  assumes "es_inv st" and "single_deposit st i t f"
  shows "0 < f" and "f \<le> i128_max" and "i \<le> get_count st" and "0 < i"
proof -
  from assms(2) obtain e where e: "ec_escrows st i = Some e" "es_funded_amount e = f" "live (es_status e)"
    by (auto simp: single_deposit_def)
  show "0 < f" "f \<le> i128_max" using es_invD(1) [OF assms(1) e(1)] e(2,3) by (auto simp: escrow_ok_def)
  show "i \<le> get_count st" "0 < i" using assms(1) e(1) by (auto simp: es_inv_def)
qed

lemma overflowing_square_unpayable:
  assumes "single_deposit st i t f" and "0 < f" and "f \<le> i128_max" and "i128_max < f * f"
  shows "es_release tk env c i ra (st, w) \<noteq> Ok x \<and> override_release tk cr env i nonce sigs (st, w) \<noteq> Ok x \<and>
     es_withdraw tk env c i n (st, w) \<noteq> Ok y \<and> es_claim tk env c i (st, w) \<noteq> Ok y \<and>
     es_refund tk env c i (st, w) \<noteq> Ok x \<and> refund_timelock tk env c i (st, w) \<noteq> Ok x \<and>
     es_cancel tk env c i (st, w) \<noteq> Ok x \<and> es_reclaim tk env c i (st, w) \<noteq> Ok x"
proof -
  from assms(1) obtain e where m: "ec_milestones st i = None" and e: "ec_escrows st i = Some e" "es_assets e = [\<lparr>asset = t, amount = f\<rparr>]"
    "es_funded_amount e = f" "es_released_amount e = 0" "sc_type (es_schedule e) = RtNone" by (auto simp: single_deposit_def)
  have nofit: "\<not> in_i128 (f * f)" using assms(4) by (simp add: in_i128_def)
  have pay: "pay_pro_rata tk (this_contract env) to_a f f (es_assets e) w = Err Overflow" for to_a
    using nofit by (simp add: e(2) checked_mul_def safe_mul_def)
  have tall: "transfer_all tk env (e\<lparr>es_status := s\<rparr>) to_a f w = Err Overflow"
    "transfer_all tk env (e\<lparr>es_released_amount := f, es_status := s\<rparr>) to_a f w = Err Overflow"
    "transfer_all tk env (e\<lparr>es_override_nonce := nonce, es_status := s\<rparr>) to_a f w = Err Overflow"
    "return_remaining tk env e f w = Err Overflow"
    "return_remaining tk env (e\<lparr>es_status := s\<rparr>) f w = Err Overflow" for s to_a
    using e(3) assms(2) pay by (simp_all add: transfer_all_def return_remaining_def)
  have sub: "checked_sub f 0 = Ok f" using assms(2,3) by (simp add: checked_sub_def safe_sub_def in_i128_def int_limits)
  note facts = e(1,3-5) m assms(2) tall sub pay
  have "es_release tk env c i ra (st, w) \<noteq> Ok x"
    by (auto simp: es_release_def ok_simps facts Let_def)
  moreover have "override_release tk cr env i nonce sigs (st, w) \<noteq> Ok x"
    by (auto simp: override_release_def ok_simps facts Let_def)
  moreover have "es_withdraw tk env c i n (st, w) \<noteq> Ok y"
    by (auto simp: es_withdraw_def ok_simps facts Let_def calculate_claimable_amount_def)
  moreover have "es_claim tk env c i (st, w) \<noteq> Ok y"
    by (auto simp: es_claim_def ok_simps facts Let_def)
  moreover have "es_refund tk env c i (st, w) \<noteq> Ok x"
    by (auto simp: es_refund_def ok_simps facts Let_def)
  moreover have "refund_timelock tk env c i (st, w) \<noteq> Ok x"
    by (auto simp: refund_timelock_def ok_simps facts Let_def)
  moreover have "es_cancel tk env c i (st, w) \<noteq> Ok x"
    by (auto simp: es_cancel_def ok_simps facts Let_def)
  moreover have "es_reclaim tk env c i (st, w) \<noteq> Ok x"
    by (auto simp: es_reclaim_def ok_simps facts Let_def)
  ultimately show ?thesis by blast
qed

lemma milestone_calls_need_milestones:
  assumes "ec_milestones st i = None"
  shows "release_milestone tk env c i idx (st, w) \<noteq> Ok x" and "cancel_remaining_milestones tk env c i (st, w) \<noteq> Ok y"
    and "dispute_milestone env c i idx st \<noteq> Ok z" and "resolve_milestone env c i idx st \<noteq> Ok z"
  using assms by (auto simp: release_milestone_def cancel_remaining_milestones_def cancel_milestones_inner_def
      dispute_milestone_def resolve_milestone_def load_milestone_def ok_simps)

text \<open>Creation takes a number nothing was stored under.\<close>

lemma creation_is_fresh:
  assumes "get_count st < u64_max"
  shows "create_with_refund_window tk env s r ar as d g rw memo sg th (st, w) = Ok (j, st', w') \<Longrightarrow> j = Suc (get_count st)"
    and "create_with_release_condition tk env cfg (st, w) = Ok (j, st', w') \<Longrightarrow> j = Suc (get_count st)"
    and "create_timelock tk env s r ar as ut memo (st, w) = Ok (j, st', w') \<Longrightarrow> j = Suc (get_count st)"
    and "create_scheduled tk env s r ar as sc d memo (st, w) = Ok (j, st', w') \<Longrightarrow> j = Suc (get_count st)"
    and "initialize_timelock env s r ar as ut g memo st = Ok (j, st') \<Longrightarrow> j = Suc (get_count st)"
    and "deposit_with_milestones tk env s r ar tok amt d memo specs (st, w) = Ok (j, st', w') \<Longrightarrow> j = Suc (get_count st)"
proof -
  note n = increment_count_Ok(1) [OF _ assms]
  show c: "create_with_refund_window tk env s r ar as d g rw memo sg th (st, w) = Ok (j, st', w') \<Longrightarrow> j = Suc (get_count st)"
    for s r ar as d g rw memo sg th st' by (auto simp: create_with_refund_window_def ok_simps Let_def dest!: n)
  show "create_with_release_condition tk env cfg (st, w) = Ok (j, st', w') \<Longrightarrow> j = Suc (get_count st)"
    by (auto simp: create_with_release_condition_def ok_simps dest!: c)
  show "create_timelock tk env s r ar as ut memo (st, w) = Ok (j, st', w') \<Longrightarrow> j = Suc (get_count st)"
    by (auto simp: create_timelock_def ok_simps Let_def dest!: n)
  show "create_scheduled tk env s r ar as sc d memo (st, w) = Ok (j, st', w') \<Longrightarrow> j = Suc (get_count st)"
    by (auto simp: create_scheduled_def ok_simps Let_def dest!: n)
  show "initialize_timelock env s r ar as ut g memo st = Ok (j, st') \<Longrightarrow> j = Suc (get_count st)"
    by (auto simp: initialize_timelock_def ok_simps Let_def dest!: n)
  show "deposit_with_milestones tk env s r ar tok amt d memo specs (st, w) = Ok (j, st', w') \<Longrightarrow> j = Suc (get_count st)"
    by (auto simp: deposit_with_milestones_def ok_simps Let_def dest!: n)
qed

lemma other_cell: "es_ok_step tk bal self j st w st' w' \<Longrightarrow> j \<noteq> i \<Longrightarrow> cell st' i = cell st i"
  by (simp add: es_ok_step_def)

lemma live_not_fundable:
  assumes "single_deposit st i t f"
  shows "es_fund tk env s i (st, w) \<noteq> Ok x" and "es_close env c i st \<noteq> Ok y"
  using assms by (auto simp: single_deposit_def es_fund_def es_close_def live_def ok_simps Let_def)

lemma single_deposit_expire:
  assumes "es_expire env j st = Ok (u, st')" and "single_deposit st i t f"
  shows "single_deposit st' i t f"
  using assms by (auto simp: es_expire_def single_deposit_def live_def ok_simps)

lemma single_deposit_step:
  assumes "es_step tk cr bal self (st, w) (st', w')" and "es_inv st" and "single_deposit st i t f" and "i128_max < f * f"
  shows "single_deposit st' i t f"
proof -
  note rng = single_deposit_range [OF assms(2,3)]
  note no = overflowing_square_unpayable [OF assms(3) rng(1,2) assms(4), where tk = tk]
  have m: "ec_milestones st i = None" using assms(3) by (simp add: single_deposit_def)
  note no' = milestone_calls_need_milestones(1,2) [OF m, where tk = tk] milestone_calls_need_milestones(3,4) [OF m]
    live_not_fundable(1) [OF assms(3), where tk = tk] live_not_fundable(2) [OF assms(3)]
  have keep: "single_deposit st' i t f" if "es_ok_step tk bal self j st w st' w'" "j \<noteq> i" for j
    using single_deposit_cell [OF other_cell [OF that]] assms(3) by simp
  from assms(1) show ?thesis
  proof cases
    case (est_expire env j u)
    then show ?thesis using single_deposit_expire assms(3) by blast
  next
    case (est_create env s r ar as d g memo sg th j)
    then have c: "create_with_refund_window tk env s r ar as d g 0 memo sg th (st, w) = Ok (j, st', w')" by (simp add: es_create_def)
    show ?thesis by (rule keep [OF create_step [OF c assms(2)]])
      (use creation_is_fresh(1) [OF est_create(3) c] est_create(2,3) rng(3) in \<open>auto simp: called_def\<close>)
  next
    case (est_create_window env s r ar as d g rw memo sg th j)
    show ?thesis by (rule keep [OF create_step [OF est_create_window(1) assms(2)]])
      (use creation_is_fresh(1) [OF est_create_window(3,1)] est_create_window(2,3) rng(3) in \<open>auto simp: called_def\<close>)
  next
    case (est_create_condition env cfg j)
    show ?thesis by (rule keep [OF create_condition_step [OF est_create_condition(1) assms(2)]])
      (use creation_is_fresh(2) [OF est_create_condition(3,1)] est_create_condition(2,3) rng(3) in \<open>auto simp: called_def\<close>)
  next
    case (est_create_timelock env s r ar as ut memo j)
    show ?thesis by (rule keep [OF create_timelock_step [OF est_create_timelock(1) assms(2)]])
      (use creation_is_fresh(3) [OF est_create_timelock(3,1)] est_create_timelock(2,3) rng(3) in \<open>auto simp: called_def\<close>)
  next
    case (est_create_scheduled env s r ar as sc d memo j)
    show ?thesis by (rule keep [OF create_scheduled_step [OF est_create_scheduled(1) assms(2)]])
      (use creation_is_fresh(4) [OF est_create_scheduled(3,1)] est_create_scheduled(2,3) rng(3) in \<open>auto simp: called_def\<close>)
  next
    case (est_init_timelock env s r ar as ut g memo j)
    have "es_ok_step tk bal self j st w st' w'"
      using initialize_timelock_step [OF est_init_timelock(2) assms(2) est_init_timelock(3)] est_init_timelock(1) by simp
    then show ?thesis by (rule keep) (use creation_is_fresh(5) [OF est_init_timelock(3,2)] rng(3) in auto)
  next
    case (est_deposit env s r ar tok amt d memo specs j)
    show ?thesis by (rule keep [OF deposit_step [OF est_deposit(1) assms(2)]])
      (use creation_is_fresh(6) [OF est_deposit(3,1)] est_deposit(2-4) rng(3) in \<open>auto simp: called_def\<close>)
  next
    case (est_cancel_milestones env c j n)
    then have "es_ok_step tk bal self j st w st' w'"
      by (auto simp: cancel_remaining_milestones_def ok_simps called_def intro!: cancel_milestones_step [OF _ assms(2)])
    moreover have "j \<noteq> i" using no'(2) est_cancel_milestones(1) by auto
    ultimately show ?thesis by (rule keep)
  next
    case (est_close env c j u)
    with no'(6) have "j \<noteq> i" by auto
    moreover have "es_ok_step tk bal self j st w st' w'" using close_step [OF est_close(2) assms(2)] est_close(1) by simp
    ultimately show ?thesis using keep by blast
  next
    case (est_fund env s j u)
    then have "j \<noteq> i" using no'(5) by auto
    with est_fund show ?thesis by (intro keep [OF fund_step [OF _ assms(2)]]) (auto simp: called_def)
  next
    case (est_withdraw env c j amt n)
    then have "j \<noteq> i" using no by auto
    with est_withdraw show ?thesis by (intro keep [OF withdraw_step [OF _ assms(2)]]) (auto simp: called_def)
  next
    case (est_claim env c j n)
    then have "j \<noteq> i" using no by auto
    with est_claim show ?thesis by (intro keep [OF claim_step [OF _ assms(2)]]) (auto simp: called_def)
  next
    case (est_release env c j ra u)
    then have "j \<noteq> i" using no by auto
    with est_release show ?thesis by (intro keep [OF release_step [OF _ assms(2)]]) (auto simp: called_def)
  next
    case (est_override env j nonce sigs u)
    then have "j \<noteq> i" using no by auto
    with est_override show ?thesis by (intro keep [OF override_step [OF _ assms(2)]]) (auto simp: called_def)
  next
    case (est_refund env c j u)
    then have "j \<noteq> i" using no by auto
    with est_refund show ?thesis by (intro keep [OF refund_step [OF _ assms(2)]]) (auto simp: called_def)
  next
    case (est_refund_timelock env c j u)
    then have "j \<noteq> i" using no by auto
    with est_refund_timelock show ?thesis by (intro keep [OF refund_timelock_step [OF _ assms(2)]]) (auto simp: called_def)
  next
    case (est_cancel env c j u)
    then have "j \<noteq> i" using no by auto
    with est_cancel show ?thesis by (intro keep [OF cancel_step [OF _ assms(2)]]) (auto simp: called_def)
  next
    case (est_reclaim env c j u)
    then have "j \<noteq> i" using no by auto
    with est_reclaim show ?thesis by (intro keep [OF reclaim_step [OF _ assms(2)]]) (auto simp: called_def)
  next
    case (est_release_milestone env c j idx u)
    then have "j \<noteq> i" using no'(1) by auto
    with est_release_milestone show ?thesis by (intro keep [OF release_milestone_step [OF _ assms(2)]]) (auto simp: called_def)
  next
    case (est_dispute env c j idx u)
    with no'(3) have "j \<noteq> i" by auto
    moreover have "es_ok_step tk bal self j st w st' w'" using dispute_step [OF est_dispute(2) assms(2)] est_dispute(1) by simp
    ultimately show ?thesis using keep by blast
  next
    case (est_resolve env c j idx u)
    with no'(4) have "j \<noteq> i" by auto
    moreover have "es_ok_step tk bal self j st w st' w'" using resolve_step [OF est_resolve(2) assms(2)] est_resolve(1) by simp
    ultimately show ?thesis using keep by blast
  next
    case (est_approve_release env c j n)
    have "es_ok_step tk bal self 0 st w st' w'" using approve_release_step [OF est_approve_release(2) assms(2)] est_approve_release(1) by simp
    then show ?thesis by (rule keep) (use rng(4) in simp)
  next
    case (est_initialize ad u)
    have "es_ok_step tk bal self 0 st w st' w'" using admin_step(1) [OF assms(2) est_initialize(2)] est_initialize(1) by simp
    then show ?thesis by (rule keep) (use rng(4) in simp)
  next
    case (est_approve_token env c tok u)
    have "es_ok_step tk bal self 0 st w st' w'" using admin_step(2) [OF assms(2) est_approve_token(2)] est_approve_token(1) by simp
    then show ?thesis by (rule keep) (use rng(4) in simp)
  next
    case (est_revoke_token env c tok u)
    have "es_ok_step tk bal self 0 st w st' w'" using admin_step(3) [OF assms(2) est_revoke_token(2)] est_revoke_token(1) by simp
    then show ?thesis by (rule keep) (use rng(4) in simp)
  qed (use assms(3) in simp)
qed

lemma single_deposit_run:
  assumes "(es_step tk cr bal self)\<^sup>*\<^sup>* (st, w) (st', w')" and "es_inv st" and "single_deposit st i t f" and "i128_max < f * f"
  shows "es_inv st'" and "single_deposit st' i t f"
proof -
  have "es_inv st' \<and> single_deposit st' i t f" using assms(1)
  proof (induction rule: rtranclp_induct2)
    case (step st1 w1 st2 w2)
    then show ?case using es_step_inv [OF step(2)] single_deposit_step [OF step(2) _ _ assms(4)] by blast
  qed (use assms(2,3) in simp)
  then show "es_inv st'" and "single_deposit st' i t f" by simp_all
qed

lemma single_deposit_created:
  assumes "create_with_refund_window tk env s r ar [\<lparr>asset = t, amount = f\<rparr>] d g rw memo sg th (st, w) = Ok (i, st', w')"
    and "es_inv st" and "get_count st < u64_max"
  shows "single_deposit st' i t f"
proof -
  from assms(1) obtain st1 where "increment_count st = Ok (i, st1)" by (auto simp: create_with_refund_window_def ok_simps Let_def)
  note c = increment_count_Ok [OF this assms(3)]
  have "ec_milestones st i = None" using es_inv_fresh [OF assms(2), of i] c(1) by (simp add: cell_def)
  then show ?thesis using assms(1) increment_count_Ok(2) [OF _ assms(3)]
    by (auto simp: create_with_refund_window_def ok_simps Let_def single_deposit_def live_def schedule_none_def)
qed

text \<open>What the contract owes for one escrow is part of what it owes in total.\<close>

lemma share_nonneg: "\<forall>x\<in>set xs. 0 < amount x \<Longrightarrow> 0 \<le> p \<Longrightarrow> 0 < f \<Longrightarrow> 0 \<le> share xs p f a"
  unfolding share_def by (intro sum_list_nonneg) (auto simp: pos_imp_zdiv_nonneg_iff)

lemma owed_cell_nonneg: "cell_ok x \<Longrightarrow> 0 \<le> owed_cell x a"
proof (induction x a rule: owed_cell.induct)
  case (1 e a)
  then have "escrow_ok e" by simp
  then show ?case using share_nonneg [of "es_assets e" "es_funded_amount e - es_released_amount e" "es_funded_amount e" a]
    by (cases "live (es_status e)") (simp_all add: escrow_ok_def)
next
  case (2 e ms a)
  show ?case
  proof (cases "live (es_status e)")
    case True
    then have "0 < es_funded_amount e" "milestones_ok e ms" using 2 by (simp_all add: escrow_ok_def)
    then show ?thesis using True paid_shares_le [of "es_funded_amount e" "mset_milestones ms"] by (simp add: milestones_ok_def)
  qed simp
qed simp

lemma owed_ge:
  assumes "es_inv st" and "i \<le> get_count st"
  shows "owed_cell (cell st i) a \<le> owed st a"
  unfolding owed_def using assms by (intro member_le_sum) (auto simp: es_inv_def owed_cell_nonneg)

lemma single_deposit_owed:
  assumes "es_inv st" and "single_deposit st i t f"
  shows "owed_cell (cell st i) t = f"
  using assms(2) single_deposit_range(1) [OF assms] by (auto simp: single_deposit_def cell_def share_full listed_def)


section \<open>Properties\<close>

text \<open>C1. The contract can always pay what it owes: after any run from empty storage, by any callers
  and with any interleaving of the entrypoints, the tokens the contract holds of every asset exceed
  its initial holdings by at least everything it owes to the parties of unsettled escrows.\<close>

theorem escrow_fully_backed:
  assumes "reach (\<lambda>s. s = (escrow_empty, w0)) (es_step tk cr bal self) (st, w)" and "token_laws tk bal"
  shows "bal w0 a self + owed st a \<le> bal w a self"
  using escrow_sys.reach_inv [OF assms(1)] assms(2) by (simp add: custody_def)

theorem escrow_fully_backed_witness:
  "\<exists>st w. demo_reach (st, w) \<and> owed st 7 = 100 \<and> 100 \<le> w 7 9"
proof -
  obtain es where r: "demo_reach (demo_escrow demo_plain es, moved demo_world 7 1 9 100)" using demo_plain_reach ..
  have o: "owed (demo_escrow demo_plain es) 7 = 100"
    by (simp add: owed_def get_count_def demo_escrow_def cell_def demo_plain_def live_def)
  show ?thesis using escrow_fully_backed [OF r ledger_token_laws, of 7] r o
    by (intro exI [of _ "demo_escrow demo_plain es"] exI [of _ "moved demo_world 7 1 9 100"]) (simp add: demo_world_def)
qed

text \<open>C34. Every transaction moves every escrow along an edge of the lifecycle the code implements: created to funded,
  funded to released, refunded or expired, expired to refunded, released or refunded to closed; and, beyond the
  documented diagram, created straight to released or refunded, where a created escrow is one without any deposit, while an
  expired escrow is never closed before it is refunded. An existing escrow keeps its parties, assets, deadlines,
  schedule and override keys, never loses released amount or goes back in its override nonce, and once funded
  keeps its deposit; a new one starts created or funded with nothing released.\<close>

theorem escrow_lifecycle_legal:
  assumes "reach (\<lambda>s. s = (escrow_empty, w0)) (es_step tk cr bal self) (st, w)"
    and "es_step tk cr bal self (st, w) (st', w')"
  shows "es_move (ec_escrows st i) (ec_escrows st' i) \<and>
     (case ec_escrows st i of Some e \<Rightarrow> es_status e = EsCreated \<longrightarrow> es_funded_amount e = 0 \<and> es_released_amount e = 0
      | None \<Rightarrow> True)"
proof -
  have inv: "es_inv st" by (rule es_inv_reach [OF assms(1)])
  show ?thesis using es_step_move [OF assms(2) inv, of i] es_invD(1) [OF inv, of i]
    by (cases "ec_escrows st i") (simp_all add: escrow_ok_def)
qed

theorem escrow_lifecycle_legal_witness:
  "\<exists>st st' w. demo_reach (st, w) \<and> es_step ledger_token demo_crypto (\<lambda>w. w) 9 (st, w) (st', w) \<and>
     es_move (ec_escrows st 1) (ec_escrows st' 1) \<and> ec_escrows st' 1 = Some (demo_plain\<lparr>es_status := EsExpired\<rparr>)"
proof -
  obtain es where r: "demo_reach (demo_escrow demo_plain es, moved demo_world 7 1 9 100)" using demo_plain_reach ..
  have u: "as_u64 1050 = 1050" using as_u64_int [of 1050] by (simp add: int_limits)
  have x: "es_expire (demo_env 1050) 1 (demo_escrow demo_plain es)
      = Ok ((), demo_escrow (demo_plain\<lparr>es_status := EsExpired\<rparr>) (es @ [EeExpired 1]))"
    by (simp add: es_expire_def load_escrow_def demo_plain_def grace_end_def demo_simps u)
  from escrow_lifecycle_legal [OF r est_expire [OF x], of 1] r est_expire [OF x] show ?thesis
    by (intro exI [of _ "demo_escrow demo_plain es"] exI [of _ "moved demo_world 7 1 9 100"]
        exI [of _ "demo_escrow (demo_plain\<lparr>es_status := EsExpired\<rparr>) (es @ [EeExpired 1])"]) simp
qed

text \<open>A milestone payment disburses without dust: in any reachable state a successful
  \<open>release_milestone\<close> completes one pending milestone and moves exactly its pay-out from the contract
  to the recipient; the pay-out is the milestone's share, rounded down, unless no other milestone is
  open, and then it is everything not yet disbursed, so that the whole deposit has been paid and
  the escrow is released.\<close>

theorem milestones_dust_free:
  assumes "reach (\<lambda>s. s = (escrow_empty, w0)) (es_step tk cr bal self) (st, w)" and "token_laws tk bal"
    and "release_milestone tk env c i idx (st, w) = Ok (u, st', w')"
  shows "\<exists>e ms k p ms' e'. ec_escrows st i = Some e \<and> ec_milestones st i = Some ms \<and>
     ml_status (mset_milestones ms ! k) = MsPending \<and> es_arbiter e = c \<and>
     ec_milestones st' i = Some ms' \<and> ec_escrows st' i = Some e' \<and>
     ml_status (mset_milestones ms' ! k) = MsCompleted \<and>
     bal w' = moved (bal w) (asset (hd (es_assets e))) (this_contract env) (es_recipient e) p \<and>
     mset_released ms' = mset_released ms + p \<and> 0 \<le> p \<and> mset_released ms' \<le> es_funded_amount e \<and>
     (if open_count ms = 1 then mset_released ms' = es_funded_amount e \<and> es_status e' = EsReleased
      else p = es_funded_amount e * int (ml_release_bps (mset_milestones ms ! k)) div 10000 \<and> es_status e' = EsFunded)"
proof -
  have inv: "es_inv st" by (rule es_inv_reach [OF assms(1)])
  obtain e ms k es t where e: "ec_escrows st i = Some e" "ec_milestones st i = Some ms" "es_status e = EsFunded" "es_arbiter e = c"
    and k: "k < length (mset_milestones ms)" "ml_status (mset_milestones ms ! k) = MsPending"
    and t: "es_assets e = [\<lparr>asset = t, amount = es_funded_amount e\<rparr>]"
    and tr: "tk_transfer tk w t (this_contract env) (es_recipient e) (ms_payout e ms k) = TryOk w'"
    and st': "st' = ec_emit es
       (if list_all (\<lambda>m. ml_status m = MsCompleted) (mset_milestones (ms_paid e ms k))
        then store_escrow i (e\<lparr>es_released_amount := mset_released (ms_paid e ms k), es_status := EsReleased\<rparr>)
               (store_milestones i (ms_paid e ms k) st)
        else store_milestones i (ms_paid e ms k) st)"
    using release_milestone_Ok [OF assms(3) inv] by metis
  note pay = ms_payout_bounds [OF inv e(1-3) k]
  have all_done: "list_all (\<lambda>m. ml_status m = MsCompleted) (mset_milestones (ms_paid e ms k)) \<longleftrightarrow> open_count ms = 1"
  proof
    assume "open_count ms = 1"
    then show "list_all (\<lambda>m. ml_status m = MsCompleted) (mset_milestones (ms_paid e ms k))"
      using one_unreleased [of "mset_milestones ms" k] k by (simp add: ms_paid_def open_count_def)
  next
    assume "list_all (\<lambda>m. ml_status m = MsCompleted) (mset_milestones (ms_paid e ms k))"
    then show "open_count ms = 1"
      using more_unreleased [of "mset_milestones ms" k] k by (auto simp: ms_paid_def open_count_def list_all_iff)
  qed
  obtain e' where e': "ec_escrows st' i = Some e'" "es_status e' = (if open_count ms = 1 then EsReleased else EsFunded)"
    using st' e by (cases "open_count ms = 1") (auto simp: all_done)
  have ms': "ec_milestones st' i = Some (ms_paid e ms k)" using st' by simp
  have "ml_status (mset_milestones (ms_paid e ms k) ! k) = MsCompleted" using k by (simp add: ms_paid_def)
  moreover have "bal w' = moved (bal w) (asset (hd (es_assets e))) (this_contract env) (es_recipient e) (ms_payout e ms k)"
    using token_laws_transfer [OF assms(2) tr] t by simp
  moreover have "mset_released (ms_paid e ms k) = mset_released ms + ms_payout e ms k" by (simp add: ms_paid_def)
  moreover have "if open_count ms = 1 then mset_released ms + ms_payout e ms k = es_funded_amount e
      else ms_payout e ms k = es_funded_amount e * int (ml_release_bps (mset_milestones ms ! k)) div 10000"
    by (simp add: ms_payout_def)
  ultimately show ?thesis using e(1,2,4) k(2) ms' e' pay
    by (intro exI [of _ e] exI [of _ ms] exI [of _ k] exI [of _ "ms_payout e ms k"] exI [of _ "ms_paid e ms k"] exI [of _ e'])
       (simp split: if_splits)
qed

theorem milestones_dust_free_witness:
  "\<exists>st w st' w' ms'. demo_reach (st, w) \<and>
     release_milestone ledger_token (demo_env 20) 3 1 0 (st, w) = Ok ((), st', w') \<and>
     ec_milestones st' 1 = Some ms' \<and> mset_released ms' \<le> 100 \<and> w' 7 2 = 33"
proof -
  obtain es where d: "deposit_with_milestones ledger_token (demo_env 10) 1 2 3 7 100 1000 []
     [\<lparr>spec_description = ''design'', spec_release_bps = 3333\<rparr>, \<lparr>spec_description = ''build'', spec_release_bps = 6667\<rparr>]
     (demo_state, demo_world) = Ok (1, demo_phased es, moved demo_world 7 1 9 100)" using demo_deposit ..
  have r: "demo_reach (demo_phased es, moved demo_world 7 1 9 100)"
    by (rule demo_step [OF demo_state_reach est_deposit [OF d]]) (simp_all add: get_count_def int_limits)
  obtain st' where x: "release_milestone ledger_token (demo_env 20) 3 1 0 (demo_phased es, moved demo_world 7 1 9 100)
      = Ok ((), st', moved (moved demo_world 7 1 9 100) 7 9 2 33)"
    by (simp add: release_milestone_def load_milestone_def demo_phased_def demo_milestones_def demo_plain_def demo_simps
        load_escrow_def total_amount_def moved_def demo_world_def sdiv_nonneg)
  from milestones_dust_free [OF r ledger_token_laws x] obtain e ms' where
    "ec_escrows (demo_phased es) 1 = Some e" "ec_milestones st' 1 = Some ms'" "mset_released ms' \<le> es_funded_amount e" by blast
  with r x show ?thesis
    by (intro exI [of _ "demo_phased es"] exI [of _ "moved demo_world 7 1 9 100"] exI [of _ st']
        exI [of _ "moved (moved demo_world 7 1 9 100) 7 9 2 33"] exI [of _ ms'])
       (auto simp: demo_phased_def demo_plain_def moved_def demo_world_def)
qed

text \<open>Vesting is bounded and monotone: under a schedule that passes the creation checks the vested
  amount is zero before the cliff, never decreases with time, never exceeds the deposit and is the
  whole deposit from the end on.\<close>

theorem vesting_monotone:
  assumes "sc_start sc \<le> sc_cliff sc" "sc_cliff sc \<le> sc_end sc" "sc_start sc < sc_end sc" and "sc_type sc \<noteq> RtNone"
    and "0 \<le> amt" "t \<le> t'"
    and "calculate_vested_amount amt sc t = Ok v" "calculate_vested_amount amt sc t' = Ok v'"
  shows "0 \<le> v \<and> v \<le> v' \<and> v' \<le> amt \<and> (t < sc_cliff sc \<longrightarrow> v = 0) \<and> (sc_end sc \<le> t \<longrightarrow> v = amt)"
proof -
  have b: "0 \<le> v" "v \<le> amt" "0 \<le> v'" "v' \<le> amt"
    using vested_bounds [OF assms(7,5)] vested_bounds [OF assms(8,5)] by auto
  have lin: "amt * int (t - s) sdiv int d \<le> amt * int (t' - s) sdiv int d" if "0 < d" for s d
  proof -
    have "amt * int (t - s) div int d \<le> amt * int (t' - s) div int d"
      using assms(5,6) that by (intro zdiv_mono1 mult_left_mono) auto
    then show ?thesis using assms(5) that by (simp add: sdiv_nonneg)
  qed
  have "v \<le> v'"
    using assms b lin [of "sc_end sc - sc_start sc" "sc_start sc"]
    by (cases "sc_type sc") (auto simp: calculate_vested_amount_def ok_simps Let_def split: if_splits)
  moreover have "t < sc_cliff sc \<longrightarrow> v = 0" "sc_end sc \<le> t \<longrightarrow> v = amt"
    using assms(1-4,7) by (cases "sc_type sc"; auto simp: calculate_vested_amount_def split: if_splits)+
  ultimately show ?thesis using b by simp
qed

theorem vesting_monotone_witness:
  "calculate_vested_amount 1000 demo_schedule 250 = Ok 250 \<and> calculate_vested_amount 1000 demo_schedule 500 = Ok 500 \<and>
   (0 :: int) \<le> 250 \<and> (250 :: int) \<le> 500"
proof -
  have a: "calculate_vested_amount 1000 demo_schedule 250 = Ok 250" and b: "calculate_vested_amount 1000 demo_schedule 500 = Ok 500"
    by (simp_all add: calculate_vested_amount_def demo_simps sdiv_nonneg)
  from vesting_monotone [OF _ _ _ _ _ _ a b] a b show ?thesis by simp
qed

text \<open>A withdrawal is covered by the schedule and pays exactly: in any reachable state a
  successful \<open>withdraw\<close> of \<open>n\<close> leaves the released amount increased by exactly \<open>n\<close> and within what has
  vested at that time, moves of every asset exactly the share of \<open>n\<close> from the contract to the
  recipient, and the caller is the recipient.\<close>

theorem withdraw_within_vesting:
  assumes "reach (\<lambda>s. s = (escrow_empty, w0)) (es_step tk cr bal self) (st, w)" and "token_laws tk bal"
    and "es_withdraw tk env c i n (st, w) = Ok (r, st', w')"
  shows "\<exists>e e' v. ec_escrows st i = Some e \<and> ec_escrows st' i = Some e' \<and> es_recipient e = c \<and> 0 < n \<and>
     calculate_vested_amount (es_funded_amount e) (es_schedule e) (timestamp env) = Ok v \<and>
     r = es_released_amount e + n \<and> es_released_amount e' = r \<and> r \<le> v \<and> v \<le> es_funded_amount e \<and>
     (\<forall>a x. bal w' a x = bal w a x + (if x = c then share (es_assets e) n (es_funded_amount e) a else 0)
        - (if x = this_contract env then share (es_assets e) n (es_funded_amount e) a else 0))"
proof -
  let ?e = "\<lambda>e. e\<lparr>es_released_amount := es_released_amount e + n,
      es_status := (if es_released_amount e + n = es_funded_amount e then EsReleased else es_status e)\<rparr>"
  have inv: "es_inv st" by (rule es_inv_reach [OF assms(1)])
  from assms(3) obtain e es cl sent where e: "ec_escrows st i = Some e" "es_recipient e = c" "es_status e = EsFunded" "0 < n"
    "calculate_claimable_amount e (timestamp env) = Ok cl" "n \<le> cl" "r = es_released_amount e + n"
    and p: "pay_pro_rata tk (this_contract env) c n (es_funded_amount e) (es_assets e) w = Ok (sent, w')"
    and st': "st' = ec_emit es (store_escrow i (?e e) st)"
    by (auto simp: es_withdraw_def ok_simps Let_def)
  have ok: "0 < es_funded_amount e" "\<forall>x\<in>set (es_assets e). 0 < amount x"
    using es_invD(1) [OF inv e(1)] e(3) by (auto simp: escrow_ok_def live_def)
  obtain v where v: "calculate_vested_amount (es_funded_amount e) (es_schedule e) (timestamp env) = Ok v" "r \<le> v"
    using e(4-7) by (auto simp: calculate_claimable_amount_def ok_simps split: if_splits)
  have "bal w' a x = bal w a x + (if x = c then share (es_assets e) n (es_funded_amount e) a else 0)
        - (if x = this_contract env then share (es_assets e) n (es_funded_amount e) a else 0)" for a x
    using pay_pro_rata_exact [OF assms(2) p _ ok] e(4) by simp
  moreover have "ec_escrows st' i = Some (?e e)" using st' by simp
  moreover have "v \<le> es_funded_amount e" using vested_bounds [OF v(1)] ok(1) by simp
  ultimately show ?thesis using e v by auto
qed

theorem withdraw_within_vesting_witness:
  "\<exists>st w st' w' e. demo_reach (st, w) \<and> es_withdraw ledger_token (demo_env 500) 2 1 500 (st, w) = Ok (500, st', w') \<and>
     ec_escrows st 1 = Some e \<and> 500 \<le> es_funded_amount e \<and> w' 7 2 = 500"
proof -
  let ?e = "\<lambda>r. demo_linear [\<lparr>asset = 7, amount = 1000\<rparr>] 1000 r EsFunded" and ?w = "moved demo_world 7 1 9 1000"
  obtain es where r: "demo_reach (demo_escrow (?e 0) es, ?w)" using demo_scheduled_reach ..
  obtain es' where x: "es_withdraw ledger_token (demo_env 500) 2 1 500 (demo_escrow (?e 0) es, ?w)
      = Ok (500, demo_escrow (?e 500) es', moved ?w 7 9 2 500)" using demo_withdraw by blast
  from withdraw_within_vesting [OF r ledger_token_laws x] r x show ?thesis
    by (intro exI [of _ "demo_escrow (?e 0) es"] exI [of _ ?w] exI [of _ "demo_escrow (?e 500) es'"]
        exI [of _ "moved ?w 7 9 2 500"] exI [of _ "?e 0"])
       (auto simp: moved_def demo_world_def)
qed

text \<open>Release and refund never overlap: whenever the settlement window is representable, a pay-out
  by the arbiter or by the signature override happens strictly before any time at which the sender's
  \<open>refund\<close>, \<open>refund_timelock\<close> or \<open>reclaim\<close> of an escrow with the same deadline and grace succeeds.\<close>

theorem release_before_refund:
  assumes "ec_escrows st i = Some e" and "ec_escrows st2 i = Some e2" and "es_deadline e2 = es_deadline e"
    and "es_grace_period e2 = es_grace_period e" and "es_deadline e + es_grace_period e \<le> u64_max"
    and "es_release tk env c i ra (st, w) = Ok x \<or> override_release tk cr env i nonce sigs (st, w) = Ok x"
    and "es_refund tk env2 c2 i (st2, w2) = Ok y \<or> refund_timelock tk env2 c2 i (st2, w2) = Ok y \<or>
         es_reclaim tk env2 c2 i (st2, w2) = Ok y"
  shows "timestamp env < timestamp env2"
proof -
  let ?g = "es_deadline e + es_grace_period e"
  have g: "grace_end e = Ok ?g" "grace_end e2 = Ok ?g" using grace_end_eq [of e] grace_end_eq [of e2] assms(3-5) by simp_all
  have "timestamp env < ?g"
    using assms(6)
  proof
    assume "es_release tk env c i ra (st, w) = Ok x"
    then show ?thesis using assms(1) g(1) by (auto simp: es_release_def load_escrow_def rbind_eq_Ok if_Err_eq_Ok)
  next
    assume "override_release tk cr env i nonce sigs (st, w) = Ok x"
    then have "timestamp env < es_deadline e" using assms(1)
      by (auto simp: override_release_def load_escrow_def rbind_eq_Ok if_Err_eq_Ok)
    then show ?thesis by simp
  qed
  moreover have "?g \<le> timestamp env2"
    using assms(7) assms(2) g(2)
    by (auto simp: es_refund_def refund_timelock_def es_reclaim_def load_escrow_def rbind_eq_Ok if_Err_eq_Ok)
  ultimately show ?thesis by simp
qed

theorem release_before_refund_witness:
  "\<exists>st w x y. es_release ledger_token (demo_env 100) 3 1 0 (st, w) = Ok x \<and>
     es_refund ledger_token (demo_env 1050) 1 1 (st, w) = Ok y \<and> timestamp (demo_env 100) < timestamp (demo_env 1050)"
proof -
  let ?st = "demo_escrow demo_plain []" and ?w = "moved demo_world 7 1 9 100"
  have u: "as_u64 1050 = 1050" using as_u64_int [of 1050] by (simp add: int_limits)
  obtain x where x: "es_release ledger_token (demo_env 100) 3 1 0 (?st, ?w) = Ok x"
    by (simp add: es_release_def load_escrow_def demo_plain_def grace_end_def demo_simps u release_lock_def schedule_none_def
        transfer_all_def require_release_approvals_def load_release_condition_def moved_def demo_world_def sdiv_nonneg)
  obtain y where y: "es_refund ledger_token (demo_env 1050) 1 1 (?st, ?w) = Ok y"
    by (simp add: es_refund_def load_escrow_def demo_plain_def grace_end_def demo_simps u return_remaining_def
        require_refund_window_open_def closes_at_def reject_milestone_settlement_def moved_def demo_world_def sdiv_nonneg)
  have "timestamp (demo_env 100) < timestamp (demo_env 1050)"
    by (rule release_before_refund [of ?st 1 demo_plain ?st demo_plain ledger_token _ 3 0 ?w x demo_crypto 0 "[]" _ 1 ?w y])
       (use x y in \<open>simp_all add: demo_plain_def int_limits\<close>)
  with x y show ?thesis by blast
qed

text \<open>A release settles exactly: in any reachable state a successful \<open>release\<close> of an escrow from
  which nothing was withdrawn moves every listed amount in full from the contract to the recipient
  and marks the escrow released, and it happened before the end of the grace period, with the
  approvals of a release condition complete, by the arbiter.\<close>

theorem release_pays_in_full:
  assumes "reach (\<lambda>s. s = (escrow_empty, w0)) (es_step tk cr bal self) (st, w)" and "token_laws tk bal"
    and "es_release tk env c i ra (st, w) = Ok (u, st', w')"
    and "ec_escrows st i = Some e" and "es_released_amount e = 0"
  shows "es_arbiter e = c \<and> authorized env c \<and> es_status e = EsFunded \<and>
     (\<exists>g. grace_end e = Ok g \<and> timestamp env < g) \<and>
     (\<forall>rc. ec_conditions st i = Some rc \<longrightarrow> rc_threshold rc \<le> rc_approvals rc) \<and>
     (\<forall>a x. bal w' a x = bal w a x + (if x = es_recipient e then listed (es_assets e) a else 0)
        - (if x = this_contract env then listed (es_assets e) a else 0)) \<and>
     ec_escrows st' i = Some (e\<lparr>es_released_amount := es_funded_amount e, es_status := EsReleased\<rparr>)"
proof -
  have inv: "es_inv st" by (rule es_inv_reach [OF assms(1)])
  let ?e = "e\<lparr>es_released_amount := es_funded_amount e, es_status := EsReleased\<rparr>"
  from assms(3-5) obtain es g where e: "es_arbiter e = c" "authorized env c" "es_status e = EsFunded"
    "grace_end e = Ok g" "timestamp env < g" "require_release_approvals st i = Ok ()"
    and p: "transfer_all tk env ?e (es_recipient e) (es_funded_amount e) w = Ok w'"
    and st': "st' = ec_emit es (store_escrow i ?e st)"
    by (auto simp: es_release_def load_escrow_def rbind_eq_Ok if_Err_eq_Ok Let_def checked_sub_def safe_sub_def
        require_auth_eq_Ok split: if_splits)
  have ok: "0 < es_funded_amount e" "\<forall>x\<in>set (es_assets e). 0 < amount x"
    using es_invD(1) [OF inv assms(4)] e(3) by (auto simp: escrow_ok_def live_def)
  obtain sent where "pay_pro_rata tk (this_contract env) (es_recipient e) (es_funded_amount e) (es_funded_amount e) (es_assets e) w = Ok (sent, w')"
    using p ok(1) by (auto simp: transfer_all_def rbind_eq_Ok)
  from pay_pro_rata_exact [OF assms(2) this _ ok] ok(1) share_full [OF ok(1)]
  have "bal w' a x = bal w a x + (if x = es_recipient e then listed (es_assets e) a else 0)
      - (if x = this_contract env then listed (es_assets e) a else 0)" for a x by simp
  then show ?thesis using e st' by (auto simp: escrow_guards_Ok)
qed

theorem release_pays_in_full_witness:
  "\<exists>st w st' w'. demo_reach (st, w) \<and> es_release ledger_token (demo_env 100) 3 1 0 (st, w) = Ok ((), st', w') \<and>
     ec_escrows st' 1 = Some (demo_plain\<lparr>es_released_amount := 100, es_status := EsReleased\<rparr>) \<and> w' 7 2 = 100"
proof -
  let ?w = "moved demo_world 7 1 9 100" and ?e = "demo_plain\<lparr>es_released_amount := 100, es_status := EsReleased\<rparr>"
  obtain es where r: "demo_reach (demo_escrow demo_plain es, ?w)" using demo_plain_reach ..
  have u: "as_u64 1050 = 1050" using as_u64_int [of 1050] by (simp add: int_limits)
  obtain st' where x: "es_release ledger_token (demo_env 100) 3 1 0 (demo_escrow demo_plain es, ?w)
      = Ok ((), st', moved ?w 7 9 2 100)"
    by (simp add: es_release_def load_escrow_def demo_plain_def grace_end_def demo_simps u release_lock_def schedule_none_def
        transfer_all_def require_release_approvals_def load_release_condition_def moved_def demo_world_def sdiv_nonneg)
  have f: "es_released_amount demo_plain = 0" "es_funded_amount demo_plain = 100" by (simp_all add: demo_plain_def)
  have "ec_escrows st' 1 = Some ?e" using release_pays_in_full [OF r ledger_token_laws x _ f(1)] f(2) by simp
  moreover have "moved ?w 7 9 2 100 7 2 = 100" by (simp add: moved_def demo_world_def)
  ultimately show ?thesis using r x by blast
qed

text \<open>C40. A large deposit can never leave. An escrow created by \<open>create\<close> or \<open>create_with_refund_window\<close> for one asset,
  with an amount whose square exceeds the 128-bit range, is stuck: its pro-rata product overflows, so over any later
  run, by any callers at any times, every entrypoint that could pay it out fails, its record keeps the whole deposit
  unreleased, and the contract goes on holding that amount of the asset on top of what it held at deployment.\<close>

theorem large_escrow_never_settles:
  assumes "reach (\<lambda>s. s = (escrow_empty, w0)) (es_step tk cr bal self) (st, w)" and "get_count st < u64_max"
    and "create_with_refund_window tk env s r ar [\<lparr>asset = t, amount = f\<rparr>] d g rw memo sg th (st, w) = Ok (i, st1, w1)"
    and "called self env" and "i128_max < f * f"
    and "(es_step tk cr bal self)\<^sup>*\<^sup>* (st1, w1) (st2, w2)" and "token_laws tk bal"
  shows "es_release tk env2 c i ra (st2, w3) \<noteq> Ok x \<and> override_release tk cr env2 i nonce sigs (st2, w3) \<noteq> Ok x \<and>
     es_withdraw tk env2 c i n (st2, w3) \<noteq> Ok y \<and> es_claim tk env2 c i (st2, w3) \<noteq> Ok y \<and>
     es_refund tk env2 c i (st2, w3) \<noteq> Ok x \<and> refund_timelock tk env2 c i (st2, w3) \<noteq> Ok x \<and>
     es_cancel tk env2 c i (st2, w3) \<noteq> Ok x \<and> es_reclaim tk env2 c i (st2, w3) \<noteq> Ok x \<and>
     release_milestone tk env2 c i k (st2, w3) \<noteq> Ok z \<and> cancel_remaining_milestones tk env2 c i (st2, w3) \<noteq> Ok v \<and>
     (\<exists>e. ec_escrows st2 i = Some e \<and> (es_status e = EsFunded \<or> es_status e = EsExpired) \<and>
        es_funded_amount e = f \<and> es_released_amount e = 0) \<and>
     bal w0 t self + f \<le> bal w2 t self"
proof -
  have r1: "reach (\<lambda>s. s = (escrow_empty, w0)) (es_step tk cr bal self) (st1, w1)"
    by (rule reach_step [OF assms(1) est_create_window [OF assms(3,4,2)]])
  have s1: "single_deposit st1 i t f" using single_deposit_created [OF assms(3)] es_inv_reach [OF assms(1)] assms(2) by blast
  note run = single_deposit_run [OF assms(6) es_inv_reach [OF r1] s1 assms(5)]
  have "bal w0 t self + owed st2 t \<le> bal w2 t self"
    using escrow_sys.steps_inv [OF assms(6), of w0] escrow_sys.reach_inv [OF r1] assms(7) by (simp add: custody_def)
  moreover have "f \<le> owed st2 t" using owed_ge [OF run(1) single_deposit_range(3) [OF run], of t] single_deposit_owed [OF run] by simp
  ultimately have b: "bal w0 t self + f \<le> bal w2 t self" by linarith
  have u: "es_release tk env2 c i ra (st2, w3) \<noteq> Ok x \<and> override_release tk cr env2 i nonce sigs (st2, w3) \<noteq> Ok x \<and>
     es_withdraw tk env2 c i n (st2, w3) \<noteq> Ok y \<and> es_claim tk env2 c i (st2, w3) \<noteq> Ok y \<and>
     es_refund tk env2 c i (st2, w3) \<noteq> Ok x \<and> refund_timelock tk env2 c i (st2, w3) \<noteq> Ok x \<and>
     es_cancel tk env2 c i (st2, w3) \<noteq> Ok x \<and> es_reclaim tk env2 c i (st2, w3) \<noteq> Ok x"
    by (rule overflowing_square_unpayable [OF run(2) single_deposit_range(1,2) [OF run] assms(5)])
  have m: "ec_milestones st2 i = None" using run(2) by (simp add: single_deposit_def)
  have "\<exists>e. ec_escrows st2 i = Some e \<and> (es_status e = EsFunded \<or> es_status e = EsExpired) \<and>
      es_funded_amount e = f \<and> es_released_amount e = 0" using run(2) by (auto simp: single_deposit_def live_def)
  with b u show ?thesis by (elim conjE) (intro conjI milestone_calls_need_milestones [OF m]; assumption)
qed

theorem large_escrow_never_settles_witness:
  "\<exists>st1 w1 st2. es_create ledger_token (demo_env 10) 1 2 3 [\<lparr>asset = 7, amount = 2 ^ 64\<rparr>] 1000 50 [] [] 0
       (demo_state, rich_world) = Ok (1, st1, w1) \<and>
     es_expire (demo_env 1050) 1 st1 = Ok ((), st2) \<and> (\<forall>x. es_refund ledger_token (demo_env 5000) 1 1 (st2, w1) \<noteq> Ok x) \<and>
     2 ^ 64 \<le> w1 7 9"
proof -
  let ?e = "demo_plain\<lparr>es_assets := [\<lparr>asset = 7, amount = 2 ^ 64\<rparr>], es_funded_amount := 2 ^ 64\<rparr>"
  let ?w = "moved rich_world 7 1 9 (2 ^ 64)"
  have u: "as_u64 1050 = 1050" using as_u64_int [of 1050] by (simp add: int_limits)
  obtain es where c: "create_with_refund_window ledger_token (demo_env 10) 1 2 3 [\<lparr>asset = 7, amount = 2 ^ 64\<rparr>] 1000 50 0 [] [] 0
      (demo_state, rich_world) = Ok (1, demo_escrow ?e es, ?w)"
    by (simp add: create_with_refund_window_def demo_simps demo_escrow_def demo_plain_def rich_world_def demo_u64)
  have x: "es_expire (demo_env 1050) 1 (demo_escrow ?e es) = Ok ((), demo_escrow (?e\<lparr>es_status := EsExpired\<rparr>) (es @ [EeExpired 1]))"
    by (simp add: es_expire_def load_escrow_def demo_plain_def grace_end_def demo_simps u)
  have run: "(es_step ledger_token demo_crypto (\<lambda>w. w) 9)\<^sup>*\<^sup>* (demo_escrow ?e es, ?w)
      (demo_escrow (?e\<lparr>es_status := EsExpired\<rparr>) (es @ [EeExpired 1]), ?w)"
    by (rule r_into_rtranclp) (rule est_expire [OF x])
  have g: "get_count demo_state < u64_max" "i128_max < 2 ^ 64 * 2 ^ 64" by (simp_all add: get_count_def int_limits)
  from large_escrow_never_settles [OF setup_reach g(1) c demo_called g(2) run ledger_token_laws, of "demo_env 5000" 1 _ ?w]
  have "es_refund ledger_token (demo_env 5000) 1 1 (demo_escrow (?e\<lparr>es_status := EsExpired\<rparr>) (es @ [EeExpired 1]), ?w) \<noteq> Ok x" for x
    by blast
  moreover have "2 ^ 64 \<le> ?w 7 9" by (simp add: moved_def rich_world_def)
  ultimately show ?thesis using c x unfolding es_create_def by blast
qed

text \<open>The arbiter can never release a time-locked escrow: \<open>create_timelock\<close> makes the unlock time
  both the cliff before which \<open>release\<close> refuses and the deadline from which it refuses, so after
  any further run every release of that escrow fails.\<close>

theorem timelock_never_released:
  assumes "reach (\<lambda>s. s = (escrow_empty, w0)) (es_step tk cr bal self) (st, w)" and "get_count st < u64_max"
    and "create_timelock tk env s r ar as ut memo (st, w) = Ok (i, st1, w1)" and "called self env" and "ut \<le> u64_max"
    and "(es_step tk cr bal self)\<^sup>*\<^sup>* (st1, w1) (st2, w2)"
  shows "es_release tk env2 c i ra (st2, w2) \<noteq> Ok x"
proof
  assume rel: "es_release tk env2 c i ra (st2, w2) = Ok x"
  have inv: "es_inv st" by (rule es_inv_reach [OF assms(1)])
  from assms(3) obtain e where e: "ec_escrows st1 i = Some e" "es_deadline e = ut" "es_grace_period e = 0"
    "sc_type (es_schedule e) = RtCliff" "sc_cliff (es_schedule e) = ut"
    by (auto simp: create_timelock_def ok_simps Let_def)
  have "es_inv st1"
    by (rule es_step_inv [OF est_create_timelock [OF assms(3,4,2)] inv])
  from terms_survive [OF assms(6) this e(1)] obtain e2 where e2: "ec_escrows st2 i = Some e2"
    "es_deadline e2 = ut" "es_grace_period e2 = 0" "es_schedule e2 = es_schedule e" using e by auto
  have "grace_end e2 = Ok ut" using grace_end_eq [of e2] e2 assms(5) by simp
  with rel e2 e show False
    by (auto simp: es_release_def load_escrow_def rbind_eq_Ok if_Err_eq_Ok release_lock_def)
qed

theorem timelock_never_released_witness:
  "\<exists>st w. create_timelock ledger_token (demo_env 10) 1 2 3 [\<lparr>asset = 7, amount = 100\<rparr>] 500 [] (demo_state, demo_world)
      = Ok (1, st, w) \<and> (\<forall>x. es_release ledger_token (demo_env 500) 3 1 0 (st, w) \<noteq> Ok x)"
proof -
  obtain st w where c: "create_timelock ledger_token (demo_env 10) 1 2 3 [\<lparr>asset = 7, amount = 100\<rparr>] 500 [] (demo_state, demo_world)
      = Ok (1, st, w)"
    by (simp add: create_timelock_def demo_simps demo_world_def demo_u64)
  have "es_release ledger_token (demo_env 500) 3 1 0 (st, w) \<noteq> Ok x" for x
    by (rule timelock_never_released [OF demo_state_reach _ c]) (simp_all add: get_count_def int_limits)
  with c show ?thesis by blast
qed

text \<open>C39. The arbiter's release can move funds that have not vested: the schedule gate compares what
  remains in custody with what has vested in total, not with what has vested and is still unreleased.
  Halfway through a linear schedule over 1000 the recipient withdraws the vested 500, and then a release
  at the same instant hands over the other 500.\<close>

theorem release_moves_unvested_funds:
  "\<exists>st w st' w' e. demo_reach (st, w) \<and> ec_escrows st 1 = Some e \<and>
     calculate_vested_amount (es_funded_amount e) (es_schedule e) 500 = Ok 500 \<and> es_released_amount e = 500 \<and>
     es_release ledger_token (demo_env 500) 3 1 500 (st, w) = Ok ((), st', w') \<and> w 7 2 = 500 \<and> w' 7 2 = 1000"
proof -
  let ?e = "\<lambda>r. demo_linear [\<lparr>asset = 7, amount = 1000\<rparr>] 1000 r EsFunded" and ?w = "moved demo_world 7 1 9 1000"
  let ?w' = "moved ?w 7 9 2 500"
  obtain es where r: "demo_reach (demo_escrow (?e 0) es, ?w)" using demo_scheduled_reach ..
  obtain es' where x: "es_withdraw ledger_token (demo_env 500) 2 1 500 (demo_escrow (?e 0) es, ?w)
      = Ok (500, demo_escrow (?e 500) es', ?w')" using demo_withdraw by blast
  have r': "demo_reach (demo_escrow (?e 500) es', ?w')" by (rule demo_step [OF r est_withdraw [OF x]]) simp
  obtain st' where y: "es_release ledger_token (demo_env 500) 3 1 500 (demo_escrow (?e 500) es', ?w')
      = Ok ((), st', moved ?w' 7 9 2 500)" using demo_release by blast
  have v: "calculate_vested_amount 1000 demo_schedule 500 = Ok 500"
    by (simp add: calculate_vested_amount_def demo_simps sdiv_nonneg)
  show ?thesis using r' y v
    by (intro exI [of _ "demo_escrow (?e 500) es'"] exI [of _ ?w'] exI [of _ st'] exI [of _ "moved ?w' 7 9 2 500"]
        exI [of _ "?e 500"])
       (simp add: demo_linear_def moved_def demo_world_def)
qed

text \<open>Rounding in partial withdrawals strands tokens: with two assets of one unit each, two
  withdrawals of one unit release the whole escrow while every transfer rounds to zero; the recipient
  receives nothing and the contract keeps both tokens of an escrow that is already released.\<close>

theorem withdrawals_strand_dust:
  "\<exists>st w. demo_reach (st, w) \<and> ec_escrows st 1 =
     Some (demo_linear [\<lparr>asset = 7, amount = 1\<rparr>, \<lparr>asset = 8, amount = 1\<rparr>] 2 2 EsReleased) \<and>
     w 7 2 = 0 \<and> w 8 2 = 0 \<and> w 7 9 = 1 \<and> w 8 9 = 1 \<and> owed st 7 = 0 \<and> owed st 8 = 0"
proof -
  let ?as = "[\<lparr>asset = 7, amount = 1\<rparr>, \<lparr>asset = 8, amount = 1\<rparr>]"
  let ?w = "moved (moved demo_world 7 1 9 1) 8 1 9 1"
  obtain es where c: "create_scheduled ledger_token (demo_env 10) 1 2 3 ?as demo_schedule 2000 [] (demo_state, demo_world)
     = Ok (1, demo_escrow (demo_linear ?as 2 0 EsFunded) es, ?w)"
    by (simp add: create_scheduled_def demo_simps demo_escrow_def demo_linear_def demo_world_def demo_u64 moved_def)
  have r: "demo_reach (demo_escrow (demo_linear ?as 2 0 EsFunded) es, ?w)"
    by (rule demo_step [OF demo_state_reach est_create_scheduled [OF c]]) (simp_all add: get_count_def int_limits)
  have wd: "\<exists>es'. es_withdraw ledger_token (demo_env 1000) 2 1 1 (demo_escrow (demo_linear ?as 2 q EsFunded) es, ?w)
     = Ok (q + 1, demo_escrow (demo_linear ?as 2 (q + 1) (if q = 0 then EsFunded else EsReleased)) es', ?w)"
    if "q = 0 \<or> q = 1" for q es
    using that
    by (auto simp add: es_withdraw_def demo_simps demo_linear_def load_escrow_def reject_milestone_settlement_def
       calculate_claimable_amount_def calculate_vested_amount_def require_release_approvals_def load_release_condition_def
       sdiv_nonneg)
  obtain es1 where w1: "es_withdraw ledger_token (demo_env 1000) 2 1 1 (demo_escrow (demo_linear ?as 2 0 EsFunded) es, ?w)
     = Ok (1, demo_escrow (demo_linear ?as 2 1 EsFunded) es1, ?w)" using wd [of 0 es] by auto
  obtain es2 where w2: "es_withdraw ledger_token (demo_env 1000) 2 1 1 (demo_escrow (demo_linear ?as 2 1 EsFunded) es1, ?w)
     = Ok (2, demo_escrow (demo_linear ?as 2 2 EsReleased) es2, ?w)" using wd [of 1 es1] by auto
  have "demo_reach (demo_escrow (demo_linear ?as 2 2 EsReleased) es2, ?w)"
    by (rule demo_step [OF demo_step [OF r est_withdraw [OF w1]] est_withdraw [OF w2]]) simp_all
  moreover have "owed (demo_escrow (demo_linear ?as 2 2 EsReleased) es2) a = 0" for a
    by (simp add: owed_def get_count_def demo_escrow_def cell_def demo_linear_def live_def)
  ultimately show ?thesis
    by (intro exI [of _ "demo_escrow (demo_linear ?as 2 2 EsReleased) es2"] exI [of _ ?w])
       (simp add: moved_def demo_world_def)
qed

end
