(* ===== verification/Wallet.thy ===== *)
theory Wallet
  imports Upgrade Token
begin

text \<open>
  The wallet contract: the roles of \<^verbatim>\<open>contracts/wallet/src/access.rs\<close> and the entrypoints, gates and
  views of \<^verbatim>\<open>contracts/wallet/src/lib.rs\<close>. An entrypoint maps the storage \<open>wallet_state\<close> and the
  outside world \<open>'w\<close> (tokens and the other contracts) to a result. The contracts found behind an
  address at run time are parameters: the tokens \<open>tk\<close>, the clients \<open>cl\<close> (the policy's
  \<open>check_transfer\<close>, the budget's \<open>consume\<close> and the registry's read-only \<open>get_modules_batch\<close>), and
  the target \<open>invk\<close> of a batch call. The host refuses re-entry, so a callee changes the world only.
\<close>

section \<open>Records\<close>

datatype role = Auditor | Agent | Admin

definition role_rank :: "role \<Rightarrow> u32" where
  "role_rank r = (case r of Auditor \<Rightarrow> 0 | Agent \<Rightarrow> 1 | Admin \<Rightarrow> 2)"

definition role_satisfies :: "role \<Rightarrow> role \<Rightarrow> bool" where
  "role_satisfies r required \<longleftrightarrow> role_rank r \<ge> role_rank required"

definition role_symbol :: "role \<Rightarrow> string" where
  "role_symbol r = (case r of Auditor \<Rightarrow> ''auditor'' | Agent \<Rightarrow> ''agent'' | Admin \<Rightarrow> ''admin'')"

record wallet_data =
  wd_owner :: address
  wd_state :: resource_state

record velocity_limit =
  vl_max_amount :: i128
  vl_window_seconds :: u64

record velocity_usage =
  vu_bucket :: u64
  vu_spent :: "i128 list"

record rate_limit_config =
  rl_max_volume :: i128
  rl_max_count :: u32
  rl_window_seconds :: u64

record rate_usage =
  ru_bucket :: u64
  ru_volume :: "i128 list"
  ru_count :: "u32 list"

record rate_limit_status =
  rs_volume :: i128
  rs_count :: u32

record contract_call =
  cc_contract :: address
  cc_fn_name :: string
  cc_args :: "sval list"

record batch_action =
  ba_call :: contract_call
  ba_policy_id :: string
  ba_budget_id :: string
  ba_asset :: address
  ba_recipient :: address
  ba_amount :: i128

record batch_receipt =
  br_executed :: u32
  br_total_amount :: i128
  br_budget_remaining :: i128

definition VELOCITY_BUCKETS :: u32 where
  "VELOCITY_BUCKETS = 4"

definition RATE_LIMIT_BUCKETS :: u32 where
  "RATE_LIMIT_BUCKETS = 4"

datatype wallet_event =
    WeGuardianChanged address
  | WePaused address
  | WeUnpaused address
  | WeCreated u64 address
  | WePolicyConfigured address
  | WePolicyCleared
  | WeBypassChanged u64 bool
  | WeVelocityLimitSet u64 address i128 u64
  | WeVelocityLimitCleared u64 address
  | WeRateLimitSet u64 i128 u32 u64
  | WeRateLimitCleared u64
  | WeFunded u64 address address i128
  | WeTransfer address address address i128
  | WeWithdrawn u64 address address i128
  | WeStateTopic string u64
  | WeStateChanged u64 string
  | WeBatchValidated u64 u32 i128 i128
  | WeModuleWired string address
  | WeOrg string
  | WeAssetBudgetSet address string
  | WeRoleChanged u64 address "string option" string
  | WePolicyChecked u64 address i128

record wallet_state =
  wa_admin :: "address option"
  wa_guardian :: "address option"
  wa_paused :: "bool option"
  wa_count :: "u64 option"
  wa_budget :: "address option"
  wa_wallets :: "u64 \<rightharpoonup> wallet_data"
  wa_balances :: "u64 \<times> address \<rightharpoonup> i128"
  wa_policy :: "address option"
  wa_bypass :: "u64 \<rightharpoonup> bool"
  wa_velocity_limit :: "u64 \<times> address \<rightharpoonup> velocity_limit"
  wa_velocity_usage :: "u64 \<times> address \<rightharpoonup> velocity_usage"
  wa_rate_limit :: "u64 \<rightharpoonup> rate_limit_config"
  wa_rate_usage :: "u64 \<rightharpoonup> rate_usage"
  wa_registry :: "address option"
  wa_org :: "string option"
  wa_lock :: "bool option"
  wa_default_budget :: "string option"
  wa_asset_budget :: "address \<rightharpoonup> string"
  wa_roles :: "u64 \<times> address \<rightharpoonup> role"
  wa_events :: "wallet_event list"

definition wallet_empty :: wallet_state where
  "wallet_empty = \<lparr>wa_admin = None, wa_guardian = None, wa_paused = None, wa_count = None, wa_budget = None,
     wa_wallets = Map.empty, wa_balances = Map.empty, wa_policy = None, wa_bypass = Map.empty,
     wa_velocity_limit = Map.empty, wa_velocity_usage = Map.empty, wa_rate_limit = Map.empty,
     wa_rate_usage = Map.empty, wa_registry = None, wa_org = None, wa_lock = None, wa_default_budget = None,
     wa_asset_budget = Map.empty, wa_roles = Map.empty, wa_events = []\<rparr>"

definition wa_emit :: "wallet_event list \<Rightarrow> wallet_state \<Rightarrow> wallet_state" where
  "wa_emit es st = st\<lparr>wa_events := wa_events st @ es\<rparr>"

text \<open>The contracts behind addresses: the four outcomes of a \<open>try_\<close> call, the clients, and the target
  of a batch call (its raw return value always decodes), whose error or abort the wallet sees.\<close>

datatype ('v, 'e) call_result = CallOk 'v | CallConversion | CallErr 'e | CallInvoke

record 'w wallet_clients =
  cl_check_transfer :: "address \<Rightarrow> string \<Rightarrow> address \<Rightarrow> address \<Rightarrow> i128 \<Rightarrow> 'w \<Rightarrow> ('w, error) call_result"
  cl_consume :: "address \<Rightarrow> address \<Rightarrow> string \<Rightarrow> i128 \<Rightarrow> 'w \<Rightarrow> (i128 \<times> 'w, budget_error) call_result"
  cl_modules_batch :: "address \<Rightarrow> module_id list \<Rightarrow> 'w \<Rightarrow> (module_info option list, error) call_result"

datatype 'w target_result = TargetOk 'w | TargetErr error | TargetAbort

type_synonym 'w call_target = "contract_call \<Rightarrow> 'w \<Rightarrow> 'w target_result"

section \<open>Access control\<close>

definition granted_role :: "wallet_state \<Rightarrow> u64 \<Rightarrow> address \<Rightarrow> role option" where
  "granted_role st wid account = wa_roles st (wid, account)"

definition effective_role :: "wallet_state \<Rightarrow> u64 \<Rightarrow> address \<Rightarrow> address \<Rightarrow> role option" where
  "effective_role st wid owner account =
     (if owner = account then Some Admin else granted_role st wid account)"

definition require_role :: "wallet_state \<Rightarrow> u64 \<Rightarrow> address \<Rightarrow> address \<Rightarrow> role \<Rightarrow> unit res" where
  "require_role st wid owner caller required =
     (case effective_role st wid owner caller of
        Some r \<Rightarrow> if role_satisfies r required then Ok () else Err Unauthorized
      | None \<Rightarrow> Err Unauthorized)"

definition set_role :: "u64 \<Rightarrow> address \<Rightarrow> role \<Rightarrow> wallet_state \<Rightarrow> wallet_state" where
  "set_role wid account r st = st\<lparr>wa_roles := (wa_roles st)((wid, account) \<mapsto> r)\<rparr>"

definition clear_role :: "u64 \<Rightarrow> address \<Rightarrow> wallet_state \<Rightarrow> wallet_state res" where
  "clear_role wid account st =
     (if wa_roles st (wid, account) = None then Err NotFound
      else Ok (st\<lparr>wa_roles := (wa_roles st)((wid, account) := None)\<rparr>))"

section \<open>Internal helpers\<close>

definition load_wallet :: "wallet_state \<Rightarrow> u64 \<Rightarrow> wallet_data res" where
  "load_wallet st wid = ok_or (wa_wallets st wid) NotFound"

definition store_wallet :: "u64 \<Rightarrow> wallet_data \<Rightarrow> wallet_state \<Rightarrow> wallet_state" where
  "store_wallet wid d st = st\<lparr>wa_wallets := (wa_wallets st)(wid \<mapsto> d)\<rparr>"

definition require_wallet_role :: "env \<Rightarrow> wallet_state \<Rightarrow> u64 \<Rightarrow> address \<Rightarrow> role \<Rightarrow> wallet_data res" where
  "require_wallet_role env st wid caller required =
     rbind (require_auth env caller) (\<lambda>_.
     rbind (load_wallet st wid) (\<lambda>d.
     rbind (require_role st wid (wd_owner d) caller required) (\<lambda>_. Ok d)))"

definition require_wallet_role_or_admin ::
  "env \<Rightarrow> wallet_state \<Rightarrow> u64 \<Rightarrow> address \<Rightarrow> role \<Rightarrow> wallet_data res" where
  "require_wallet_role_or_admin env st wid caller required =
     rbind (require_auth env caller) (\<lambda>_.
     rbind (load_wallet st wid) (\<lambda>d.
     if wa_admin st = Some caller then Ok d
     else rbind (require_role st wid (wd_owner d) caller required) (\<lambda>_. Ok d)))"

definition paused :: "wallet_state \<Rightarrow> bool" where
  "paused st = unwrap_or (wa_paused st) False"

definition when_not_paused :: "wallet_state \<Rightarrow> unit res" where
  "when_not_paused st = (if paused st then Err WalletPaused else Ok ())"

definition wa_require_admin :: "env \<Rightarrow> wallet_state \<Rightarrow> address \<Rightarrow> unit res" where
  "wa_require_admin env st caller =
     rbind (require_auth env caller) (\<lambda>_.
     rbind (ok_or (wa_admin st) NotInitialized) (\<lambda>admin.
     if admin \<noteq> caller then Err Unauthorized else Ok ()))"

definition require_guardian_or_admin :: "env \<Rightarrow> wallet_state \<Rightarrow> address \<Rightarrow> unit res" where
  "require_guardian_or_admin env st caller =
     rbind (require_auth env caller) (\<lambda>_.
     rbind (ok_or (wa_admin st) NotInitialized) (\<lambda>admin.
     if \<not> (admin = caller \<or> wa_guardian st = Some caller) then Err Unauthorized else Ok ()))"

definition require_active :: "wallet_data \<Rightarrow> unit res" where
  "require_active d =
     (if wd_state d = Frozen then Err WalletFrozen
      else if wd_state d = Paused then Err WalletPaused
      else if wd_state d = Archived then Err WalletArchived else Ok ())"

definition require_active_for_transfer :: "wallet_data \<Rightarrow> unit res" where
  "require_active_for_transfer d =
     (case wd_state d of Frozen \<Rightarrow> Err WalletFrozen | Paused \<Rightarrow> Err WalletPaused
      | Archived \<Rightarrow> Err WalletArchived | Active \<Rightarrow> Ok ())"

text \<open>The all-zero account address. Addresses are numbers in this model, and the string key of the source, the
  account whose public key is 32 zero bytes, is the number 0.\<close>

definition zero_address :: address where
  "zero_address = 0"

definition validate_transfer_recipient :: "env \<Rightarrow> address \<Rightarrow> unit res" where
  "validate_transfer_recipient env recip =
     (if recip = zero_address then Err InvalidInput
      else if recip = this_contract env then Err InvalidInput else Ok ())"

definition wa_balance :: "wallet_state \<Rightarrow> u64 \<Rightarrow> address \<Rightarrow> i128" where
  "wa_balance st wid a = unwrap_or (wa_balances st (wid, a)) 0"

definition credit :: "u64 \<Rightarrow> address \<Rightarrow> i128 \<Rightarrow> wallet_state \<Rightarrow> wallet_state res" where
  "credit wid a amt st =
     rbind (safe_add (unwrap_or (wa_balances st (wid, a)) 0) amt) (\<lambda>updated.
     Ok (st\<lparr>wa_balances := (wa_balances st)((wid, a) \<mapsto> updated)\<rparr>))"

definition debit :: "u64 \<Rightarrow> address \<Rightarrow> i128 \<Rightarrow> wallet_state \<Rightarrow> wallet_state res" where
  "debit wid a amt st =
     (let current = unwrap_or (wa_balances st (wid, a)) 0 in
      if current < amt then Err InsufficientFunds
      else rbind (safe_sub current amt) (\<lambda>updated.
           Ok (st\<lparr>wa_balances := (wa_balances st)((wid, a) \<mapsto> updated)\<rparr>)))"

definition sac_balance :: "'w token_api \<Rightarrow> env \<Rightarrow> address \<Rightarrow> 'w \<Rightarrow> i128 res" where
  "sac_balance tk env a w = token_balance tk w a (this_contract env)"

definition require_custody_funds ::
  "'w token_api \<Rightarrow> env \<Rightarrow> wallet_state \<Rightarrow> u64 \<Rightarrow> address \<Rightarrow> i128 \<Rightarrow> 'w \<Rightarrow> unit res" where
  "require_custody_funds tk env st wid a amt w =
     rbind (require_positive_amount amt) (\<lambda>_.
     rbind (validate_sufficient_balance (unwrap_or (wa_balances st (wid, a)) 0) amt) (\<lambda>_.
     rbind (sac_balance tk env a w) (\<lambda>custody.
     validate_sufficient_balance custody amt)))"

definition emit_state :: "u64 \<Rightarrow> string \<Rightarrow> wallet_state \<Rightarrow> wallet_state" where
  "emit_state wid action st = wa_emit [WeStateTopic action wid, WeStateChanged wid action] st"

definition lock :: "wallet_state \<Rightarrow> wallet_state res" where
  "lock st = (if unwrap_or (wa_lock st) False then Err InvalidState else Ok (st\<lparr>wa_lock := Some True\<rparr>))"

definition unlock :: "wallet_state \<Rightarrow> wallet_state" where
  "unlock st = st\<lparr>wa_lock := Some False\<rparr>"

section \<open>Velocity ceilings\<close>

definition get_or_zero :: "'a::zero list \<Rightarrow> nat \<Rightarrow> 'a" where
  "get_or_zero xs i = (if i < length xs then xs ! i else 0)"

text \<open>Ageing a record to the current bucket: the shifting loop over the buckets. The bucket number is
  a division by the bucket length, and the target index an addition in 64 bits.\<close>

definition shift_buckets :: "nat \<Rightarrow> nat \<Rightarrow> 'a::zero list \<Rightarrow> 'a list" where
  "shift_buckets n shift xs =
     fold (\<lambda>i sp. if i + shift < n then sp[i + shift := get_or_zero xs i] else sp) [0..<n] (replicate n 0)"

definition rolled_velocity_usage ::
  "env \<Rightarrow> wallet_state \<Rightarrow> u64 \<Rightarrow> address \<Rightarrow> velocity_limit \<Rightarrow> velocity_usage res" where
  "rolled_velocity_usage env st wid a lim =
     (let bucket_seconds = vl_window_seconds lim div VELOCITY_BUCKETS in
      if bucket_seconds = 0 then Panic
      else let now_bucket = timestamp env div bucket_seconds in
           case wa_velocity_usage st (wid, a) of
             None \<Rightarrow> Ok \<lparr>vu_bucket = now_bucket, vu_spent = replicate VELOCITY_BUCKETS 0\<rparr>
           | Some u \<Rightarrow>
               let bucket = max now_bucket (vu_bucket u); shift = bucket - vu_bucket u in
               if VELOCITY_BUCKETS - 1 + shift > u64_max then Panic
               else Ok \<lparr>vu_bucket = bucket, vu_spent = shift_buckets VELOCITY_BUCKETS shift (vu_spent u)\<rparr>)"

fun velocity_total_loop :: "i128 list \<Rightarrow> i128 \<Rightarrow> i128 res" where
  "velocity_total_loop [] tot = Ok tot"
| "velocity_total_loop (x # xs) tot = rbind (safe_add tot x) (velocity_total_loop xs)"

definition velocity_total :: "velocity_usage \<Rightarrow> i128 res" where
  "velocity_total u = velocity_total_loop (vu_spent u) 0"

type_synonym gate_entry = "address \<times> velocity_limit option \<times> velocity_usage option"

text \<open>The per-invocation cache: entries in first-touch order.\<close>

fun gate_index :: "address \<Rightarrow> gate_entry list \<Rightarrow> nat option" where
  "gate_index a [] = None"
| "gate_index a (e # es) = (if fst e = a then Some 0 else map_option Suc (gate_index a es))"

definition gate_position ::
  "env \<Rightarrow> wallet_state \<Rightarrow> u64 \<Rightarrow> address \<Rightarrow> gate_entry list \<Rightarrow> (nat \<times> gate_entry list) res" where
  "gate_position env st wid a es =
     (case gate_index a es of
        Some k \<Rightarrow> Ok (k, es)
      | None \<Rightarrow>
          rbind (case wa_velocity_limit st (wid, a) of
                   None \<Rightarrow> Ok None
                 | Some lim \<Rightarrow> rbind (rolled_velocity_usage env st wid a lim) (\<lambda>u. Ok (Some u))) (\<lambda>usage.
          Ok (length es, es @ [(a, wa_velocity_limit st (wid, a), usage)])))"

definition gate_enforce ::
  "env \<Rightarrow> wallet_state \<Rightarrow> u64 \<Rightarrow> address \<Rightarrow> i128 \<Rightarrow> gate_entry list \<Rightarrow> gate_entry list res" where
  "gate_enforce env st wid a amt es =
     rbind (gate_position env st wid a es) (\<lambda>(k, es').
     case snd (es' ! k) of
       (Some lim, Some u) \<Rightarrow>
         rbind (velocity_total u) (\<lambda>tot.
         if \<not> (in_i128 (tot + amt) \<and> tot + amt \<le> vl_max_amount lim) then Err VelocityLimitExceeded
         else rbind (safe_add (get_or_zero (vu_spent u) 0) amt) (\<lambda>current.
              Ok (es'[k := (a, Some lim, Some (u\<lparr>vu_spent := (vu_spent u)[0 := current]\<rparr>))])))
     | _ \<Rightarrow> Ok es')"

fun gate_flush :: "u64 \<Rightarrow> gate_entry list \<Rightarrow> wallet_state \<Rightarrow> wallet_state" where
  "gate_flush wid [] st = st"
| "gate_flush wid ((a, lim, usage) # es) st =
     gate_flush wid es
       (case (lim, usage) of
          (Some _, Some u) \<Rightarrow> st\<lparr>wa_velocity_usage := (wa_velocity_usage st)((wid, a) \<mapsto> u)\<rparr>
        | _ \<Rightarrow> st)"

definition enforce_velocity :: "env \<Rightarrow> u64 \<Rightarrow> address \<Rightarrow> i128 \<Rightarrow> wallet_state \<Rightarrow> wallet_state res" where
  "enforce_velocity env wid a amt st =
     rbind (gate_enforce env st wid a amt []) (\<lambda>es. Ok (gate_flush wid es st))"

section \<open>Rate limits\<close>

definition rolled_rate_usage :: "env \<Rightarrow> wallet_state \<Rightarrow> u64 \<Rightarrow> rate_limit_config \<Rightarrow> rate_usage res" where
  "rolled_rate_usage env st wid cfg =
     (let bucket_seconds = rl_window_seconds cfg div RATE_LIMIT_BUCKETS in
      if bucket_seconds = 0 then Panic
      else let now_bucket = timestamp env div bucket_seconds in
           case wa_rate_usage st wid of
             None \<Rightarrow> Ok \<lparr>ru_bucket = now_bucket, ru_volume = replicate RATE_LIMIT_BUCKETS 0,
                         ru_count = replicate RATE_LIMIT_BUCKETS 0\<rparr>
           | Some u \<Rightarrow>
               let bucket = max now_bucket (ru_bucket u); shift = bucket - ru_bucket u in
               if RATE_LIMIT_BUCKETS - 1 + shift > u64_max then Panic
               else Ok \<lparr>ru_bucket = bucket,
                        ru_volume = shift_buckets RATE_LIMIT_BUCKETS shift (ru_volume u),
                        ru_count = shift_buckets RATE_LIMIT_BUCKETS shift (ru_count u)\<rparr>)"

fun count_total_loop :: "u32 list \<Rightarrow> u32 \<Rightarrow> u32 res" where
  "count_total_loop [] tot = Ok tot"
| "count_total_loop (x # xs) tot = rbind (ok_or (checked_add_word u32_max tot x) Overflow) (count_total_loop xs)"

definition rate_totals :: "rate_usage \<Rightarrow> (i128 \<times> u32) res" where
  "rate_totals u =
     rbind (velocity_total_loop (ru_volume u) 0) (\<lambda>v.
     rbind (count_total_loop (ru_count u) 0) (\<lambda>c. Ok (v, c)))"

definition enforce_rate_limit :: "env \<Rightarrow> u64 \<Rightarrow> i128 \<Rightarrow> u32 \<Rightarrow> wallet_state \<Rightarrow> wallet_state res" where
  "enforce_rate_limit env wid amt cnt st =
     (case wa_rate_limit st wid of
        None \<Rightarrow> Ok st
      | Some cfg \<Rightarrow>
          if rl_window_seconds cfg = 0 then Ok st
          else rbind (rolled_rate_usage env st wid cfg) (\<lambda>u.
               rbind (rate_totals u) (\<lambda>(total_volume, total_count).
               rbind (ok_or (checked_add_word u32_max total_count cnt) Overflow) (\<lambda>new_count.
               if rl_max_count cfg \<noteq> 0 \<and> new_count > rl_max_count cfg then Err RateLimitExceeded
               else rbind (safe_add total_volume amt) (\<lambda>new_volume.
               if rl_max_volume cfg \<noteq> 0 \<and> new_volume > rl_max_volume cfg then Err RateLimitExceeded
               else rbind (safe_add (get_or_zero (ru_volume u) 0) amt) (\<lambda>bucket_volume.
                    rbind (ok_or (checked_add_word u32_max (get_or_zero (ru_count u) 0) cnt) Overflow) (\<lambda>bucket_count.
                    Ok (st\<lparr>wa_rate_usage := (wa_rate_usage st)(wid \<mapsto>
                          u\<lparr>ru_volume := (ru_volume u)[0 := bucket_volume],
                            ru_count := (ru_count u)[0 := bucket_count]\<rparr>)\<rparr>))))))))"

section \<open>Policy and budget gates\<close>

definition require_policy_check ::
  "'w wallet_clients \<Rightarrow> u64 \<Rightarrow> address \<Rightarrow> string \<Rightarrow> address \<Rightarrow> address \<Rightarrow> i128 \<Rightarrow> wallet_state \<times> 'w
     \<Rightarrow> (wallet_state \<times> 'w) res" where
  "require_policy_check cl wid policy_addr policy_id a recip amt = (\<lambda>(st, w).
     case cl_check_transfer cl policy_addr policy_id a recip amt w of
       CallOk w' \<Rightarrow> Ok (wa_emit [WePolicyChecked wid a amt] st, w')
     | _ \<Rightarrow> Err PolicyDenied)"

definition live_module :: "module_info option \<Rightarrow> address option" where
  "live_module m = (case m of Some i \<Rightarrow> if mi_deprecated i then None else Some (mi_address i) | None \<Rightarrow> None)"

definition resolve_gates ::
  "'w wallet_clients \<Rightarrow> wallet_state \<Rightarrow> 'w \<Rightarrow> (address option \<times> address option) res" where
  "resolve_gates cl st w =
     (case (wa_registry st, wa_org st) of
        (Some reg, Some org) \<Rightarrow>
          (case cl_modules_batch cl reg [\<lparr>mi_org = org, mi_kind = KPolicy\<rparr>, \<lparr>mi_org = org, mi_kind = KBudget\<rparr>] w of
             CallOk ms \<Rightarrow> if length ms < 2 then Panic else Ok (live_module (ms ! 0), live_module (ms ! 1))
           | CallErr e \<Rightarrow> Err e
           | _ \<Rightarrow> Err InvalidState)
      | _ \<Rightarrow> Ok (wa_policy st, wa_budget st))"

definition budget_id_for :: "wallet_state \<Rightarrow> address \<Rightarrow> string option" where
  "budget_id_for st a =
     (case wa_asset_budget st a of Some i \<Rightarrow> Some i | None \<Rightarrow> wa_default_budget st)"

definition try_consume ::
  "'w wallet_clients \<Rightarrow> address \<Rightarrow> string \<Rightarrow> address \<Rightarrow> i128 \<Rightarrow> 'w \<Rightarrow> (i128 \<times> 'w) res" where
  "try_consume cl budget_addr budget_id caller amt w =
     (case cl_consume cl budget_addr caller budget_id amt w of
        CallOk r \<Rightarrow> Ok r
      | CallErr e \<Rightarrow> Err (error_of_budget e)
      | _ \<Rightarrow> Err BudgetExceeded)"

definition consume_budget ::
  "'w wallet_clients \<Rightarrow> address \<Rightarrow> string \<Rightarrow> address \<Rightarrow> i128 \<Rightarrow> 'w \<Rightarrow> 'w res" where
  "consume_budget cl budget_addr budget_id caller amt w =
     rbind (try_consume cl budget_addr budget_id caller amt w) (\<lambda>(_, w'). Ok w')"

definition get_policy_bypass :: "wallet_state \<Rightarrow> u64 \<Rightarrow> bool" where
  "get_policy_bypass st wid = unwrap_or (wa_bypass st wid) False"

definition pre_execute_checks ::
  "'w wallet_clients \<Rightarrow> u64 \<Rightarrow> address \<Rightarrow> address \<Rightarrow> i128 \<Rightarrow> address \<Rightarrow> wallet_state \<times> 'w
     \<Rightarrow> (wallet_state \<times> 'w) res" where
  "pre_execute_checks cl wid a recip amt caller = (\<lambda>(st, w).
     rbind (resolve_gates cl st w) (\<lambda>(policy_addr, budget_addr).
     rbind (case policy_addr of
              Some p \<Rightarrow> if \<not> get_policy_bypass st wid
                        then require_policy_check cl wid p ''active'' a recip amt (st, w) else Ok (st, w)
            | None \<Rightarrow> Ok (st, w)) (\<lambda>(st1, w1).
     rbind (case budget_addr of
              Some b \<Rightarrow> (case budget_id_for st1 a of
                          Some i \<Rightarrow> consume_budget cl b i caller amt w1 | None \<Rightarrow> Ok w1)
            | None \<Rightarrow> Ok w1) (\<lambda>w2.
     Ok (st1, w2)))))"

section \<open>Administration\<close>

definition wa_initialize :: "address \<Rightarrow> wallet_state \<Rightarrow> (unit \<times> wallet_state) res" where
  "wa_initialize admin st =
     (if wa_admin st \<noteq> None then Err AlreadyInitialized
      else Ok ((), st\<lparr>wa_admin := Some admin, wa_guardian := Some admin, wa_count := Some 0,
                      wa_paused := Some False\<rparr>))"

definition set_guardian :: "env \<Rightarrow> address \<Rightarrow> address \<Rightarrow> wallet_state \<Rightarrow> (unit \<times> wallet_state) res" where
  "set_guardian env caller guardian st =
     rbind (wa_require_admin env st caller) (\<lambda>_.
     Ok ((), wa_emit [WeGuardianChanged guardian] (st\<lparr>wa_guardian := Some guardian\<rparr>)))"

definition emergency_pause :: "env \<Rightarrow> address \<Rightarrow> wallet_state \<Rightarrow> (unit \<times> wallet_state) res" where
  "emergency_pause env caller st =
     rbind (require_guardian_or_admin env st caller) (\<lambda>_.
     if paused st then Err InvalidState
     else Ok ((), wa_emit [WePaused caller] (st\<lparr>wa_paused := Some True\<rparr>)))"

definition emergency_unpause :: "env \<Rightarrow> address \<Rightarrow> wallet_state \<Rightarrow> (unit \<times> wallet_state) res" where
  "emergency_unpause env caller st =
     rbind (wa_require_admin env st caller) (\<lambda>_.
     if \<not> paused st then Err InvalidState
     else Ok ((), wa_emit [WeUnpaused caller] (st\<lparr>wa_paused := Some False\<rparr>)))"

definition create_wallet :: "env \<Rightarrow> address \<Rightarrow> wallet_state \<Rightarrow> (u64 \<times> wallet_state) res" where
  "create_wallet env owner st =
     rbind (when_not_paused st) (\<lambda>_.
     rbind (require_auth env owner) (\<lambda>_.
     rbind (ok_or (wa_count st) NotInitialized) (\<lambda>n.
     rbind (safe_add (int n) 1) (\<lambda>m.
     let wid = as_u64 m;
         st1 = st\<lparr>wa_wallets := (wa_wallets st)(wid \<mapsto> \<lparr>wd_owner = owner, wd_state = Active\<rparr>),
                  wa_count := Some wid\<rparr> in
     Ok (wid, wa_emit [WeCreated wid owner] st1)))))"

definition set_policy :: "env \<Rightarrow> address \<Rightarrow> address \<Rightarrow> wallet_state \<Rightarrow> (unit \<times> wallet_state) res" where
  "set_policy env caller policy st =
     rbind (wa_require_admin env st caller) (\<lambda>_.
     Ok ((), wa_emit [WePolicyConfigured policy] (st\<lparr>wa_policy := Some policy\<rparr>)))"

definition clear_policy :: "env \<Rightarrow> address \<Rightarrow> wallet_state \<Rightarrow> (unit \<times> wallet_state) res" where
  "clear_policy env caller st =
     rbind (wa_require_admin env st caller) (\<lambda>_.
     if wa_policy st = None then Err NotFound
     else Ok ((), wa_emit [WePolicyCleared] (st\<lparr>wa_policy := None\<rparr>)))"

definition set_policy_bypass :: "env \<Rightarrow> address \<Rightarrow> u64 \<Rightarrow> bool \<Rightarrow> wallet_state \<Rightarrow> (unit \<times> wallet_state) res" where
  "set_policy_bypass env caller wid bypass st =
     rbind (wa_require_admin env st caller) (\<lambda>_.
     rbind (load_wallet st wid) (\<lambda>_.
     Ok ((), wa_emit [WeBypassChanged wid bypass]
           (st\<lparr>wa_bypass := (wa_bypass st)(wid := if bypass then Some True else None)\<rparr>))))"

definition set_velocity_limit ::
  "env \<Rightarrow> address \<Rightarrow> u64 \<Rightarrow> address \<Rightarrow> i128 \<Rightarrow> u64 \<Rightarrow> wallet_state \<Rightarrow> (unit \<times> wallet_state) res" where
  "set_velocity_limit env caller wid a max_amount window_seconds st =
     rbind (require_wallet_role env st wid caller Admin) (\<lambda>d.
     if wd_state d = Archived then Err WalletArchived
     else rbind (require_positive_amount max_amount) (\<lambda>_.
          if \<not> (window_seconds \<ge> VELOCITY_BUCKETS \<and> window_seconds mod VELOCITY_BUCKETS = 0) then Err InvalidInput
          else let st1 = (if map_option vl_window_seconds (wa_velocity_limit st (wid, a)) \<noteq> Some window_seconds
                          then st\<lparr>wa_velocity_usage := (wa_velocity_usage st)((wid, a) := None)\<rparr> else st) in
               Ok ((), wa_emit [WeVelocityLimitSet wid a max_amount window_seconds]
                 (st1\<lparr>wa_velocity_limit := (wa_velocity_limit st1)((wid, a) \<mapsto>
                    \<lparr>vl_max_amount = max_amount, vl_window_seconds = window_seconds\<rparr>)\<rparr>))))"

definition clear_velocity_limit :: "env \<Rightarrow> address \<Rightarrow> u64 \<Rightarrow> address \<Rightarrow> wallet_state \<Rightarrow> (unit \<times> wallet_state) res" where
  "clear_velocity_limit env caller wid a st =
     rbind (require_wallet_role env st wid caller Admin) (\<lambda>_.
     if wa_velocity_limit st (wid, a) = None then Err NotFound
     else Ok ((), wa_emit [WeVelocityLimitCleared wid a]
            (st\<lparr>wa_velocity_limit := (wa_velocity_limit st)((wid, a) := None),
                wa_velocity_usage := (wa_velocity_usage st)((wid, a) := None)\<rparr>)))"

definition set_rate_limit ::
  "env \<Rightarrow> address \<Rightarrow> u64 \<Rightarrow> i128 \<Rightarrow> u32 \<Rightarrow> u64 \<Rightarrow> wallet_state \<Rightarrow> (unit \<times> wallet_state) res" where
  "set_rate_limit env caller wid max_volume max_count window_seconds st =
     rbind (require_wallet_role env st wid caller Admin) (\<lambda>d.
     if wd_state d = Archived then Err WalletArchived
     else if max_volume < 0 then Err InvalidInput
     else rbind (if window_seconds = 0
                 then Ok (st\<lparr>wa_rate_limit := (wa_rate_limit st)(wid := None),
                             wa_rate_usage := (wa_rate_usage st)(wid := None)\<rparr>)
                 else if \<not> (window_seconds \<ge> RATE_LIMIT_BUCKETS \<and> window_seconds mod RATE_LIMIT_BUCKETS = 0)
                 then Err InvalidInput
                 else let st1 = (if map_option rl_window_seconds (wa_rate_limit st wid) \<noteq> Some window_seconds
                                 then st\<lparr>wa_rate_usage := (wa_rate_usage st)(wid := None)\<rparr> else st) in
                      Ok (st1\<lparr>wa_rate_limit := (wa_rate_limit st1)(wid \<mapsto>
                            \<lparr>rl_max_volume = max_volume, rl_max_count = max_count,
                             rl_window_seconds = window_seconds\<rparr>)\<rparr>)) (\<lambda>st2.
          Ok ((), wa_emit [WeRateLimitSet wid max_volume max_count window_seconds] st2)))"

definition clear_rate_limit :: "env \<Rightarrow> address \<Rightarrow> u64 \<Rightarrow> wallet_state \<Rightarrow> (unit \<times> wallet_state) res" where
  "clear_rate_limit env caller wid st =
     rbind (require_wallet_role env st wid caller Admin) (\<lambda>_.
     if wa_rate_limit st wid = None then Err NotFound
     else Ok ((), wa_emit [WeRateLimitCleared wid]
            (st\<lparr>wa_rate_limit := (wa_rate_limit st)(wid := None),
                wa_rate_usage := (wa_rate_usage st)(wid := None)\<rparr>)))"

definition set_budget :: "env \<Rightarrow> address \<Rightarrow> address \<Rightarrow> wallet_state \<Rightarrow> (unit \<times> wallet_state) res" where
  "set_budget env caller budget st =
     rbind (wa_require_admin env st caller) (\<lambda>_.
     Ok ((), wa_emit [WeModuleWired ''budget'' budget] (st\<lparr>wa_budget := Some budget\<rparr>)))"

definition set_registry :: "env \<Rightarrow> address \<Rightarrow> address \<Rightarrow> wallet_state \<Rightarrow> (unit \<times> wallet_state) res" where
  "set_registry env caller registry st =
     rbind (wa_require_admin env st caller) (\<lambda>_.
     Ok ((), wa_emit [WeModuleWired ''registry'' registry] (st\<lparr>wa_registry := Some registry\<rparr>)))"

definition set_org :: "env \<Rightarrow> address \<Rightarrow> string \<Rightarrow> wallet_state \<Rightarrow> (unit \<times> wallet_state) res" where
  "set_org env caller org st =
     rbind (wa_require_admin env st caller) (\<lambda>_.
     rbind (require_non_empty org) (\<lambda>_.
     Ok ((), wa_emit [WeOrg org] (st\<lparr>wa_org := Some org\<rparr>))))"

definition set_default_budget_id :: "env \<Rightarrow> address \<Rightarrow> string \<Rightarrow> wallet_state \<Rightarrow> (unit \<times> wallet_state) res" where
  "set_default_budget_id env caller budget_id st =
     rbind (wa_require_admin env st caller) (\<lambda>_.
     rbind (require_non_empty budget_id) (\<lambda>_.
     Ok ((), st\<lparr>wa_default_budget := Some budget_id\<rparr>)))"

definition clear_default_budget_id :: "env \<Rightarrow> address \<Rightarrow> wallet_state \<Rightarrow> (unit \<times> wallet_state) res" where
  "clear_default_budget_id env caller st =
     rbind (wa_require_admin env st caller) (\<lambda>_.
     if wa_default_budget st = None then Err NotFound else Ok ((), st\<lparr>wa_default_budget := None\<rparr>))"

definition set_asset_budget_id ::
  "env \<Rightarrow> address \<Rightarrow> address \<Rightarrow> string \<Rightarrow> wallet_state \<Rightarrow> (unit \<times> wallet_state) res" where
  "set_asset_budget_id env caller a budget_id st =
     rbind (wa_require_admin env st caller) (\<lambda>_.
     rbind (require_non_empty budget_id) (\<lambda>_.
     Ok ((), wa_emit [WeAssetBudgetSet a budget_id]
           (st\<lparr>wa_asset_budget := (wa_asset_budget st)(a \<mapsto> budget_id)\<rparr>))))"

definition clear_asset_budget_id :: "env \<Rightarrow> address \<Rightarrow> address \<Rightarrow> wallet_state \<Rightarrow> (unit \<times> wallet_state) res" where
  "clear_asset_budget_id env caller a st =
     rbind (wa_require_admin env st caller) (\<lambda>_.
     if wa_asset_budget st a = None then Err NotFound
     else Ok ((), st\<lparr>wa_asset_budget := (wa_asset_budget st)(a := None)\<rparr>))"

definition grant_role :: "env \<Rightarrow> address \<Rightarrow> u64 \<Rightarrow> address \<Rightarrow> role \<Rightarrow> wallet_state \<Rightarrow> (unit \<times> wallet_state) res" where
  "grant_role env caller wid account r st =
     rbind (require_wallet_role env st wid caller Admin) (\<lambda>d.
     if wd_state d = Archived then Err WalletArchived
     else if account = wd_owner d then Err InvalidInput
     else Ok ((), wa_emit [WeRoleChanged wid account (Some (role_symbol r)) ''granted''] (set_role wid account r st)))"

definition revoke_role :: "env \<Rightarrow> address \<Rightarrow> u64 \<Rightarrow> address \<Rightarrow> wallet_state \<Rightarrow> (unit \<times> wallet_state) res" where
  "revoke_role env caller wid account st =
     rbind (require_wallet_role env st wid caller Admin) (\<lambda>_.
     rbind (clear_role wid account st) (\<lambda>st1.
     Ok ((), wa_emit [WeRoleChanged wid account None ''revoked''] st1)))"

section \<open>Lifecycle\<close>

definition wa_freeze :: "env \<Rightarrow> address \<Rightarrow> u64 \<Rightarrow> wallet_state \<Rightarrow> (unit \<times> wallet_state) res" where
  "wa_freeze env caller wid st =
     rbind (require_wallet_role_or_admin env st wid caller Agent) (\<lambda>d.
     if wd_state d = Archived then Err WalletArchived
     else Ok ((), wa_emit [WeStateChanged wid ''frozen''] (store_wallet wid (d\<lparr>wd_state := Frozen\<rparr>) st)))"

definition wa_unfreeze :: "env \<Rightarrow> address \<Rightarrow> u64 \<Rightarrow> wallet_state \<Rightarrow> (unit \<times> wallet_state) res" where
  "wa_unfreeze env caller wid st =
     rbind (require_wallet_role_or_admin env st wid caller Agent) (\<lambda>d.
     if wd_state d \<noteq> Frozen then Err InvalidState
     else Ok ((), emit_state wid ''unfrozen'' (store_wallet wid (d\<lparr>wd_state := Active\<rparr>) st)))"

definition wa_pause :: "env \<Rightarrow> address \<Rightarrow> u64 \<Rightarrow> wallet_state \<Rightarrow> (unit \<times> wallet_state) res" where
  "wa_pause env caller wid st =
     rbind (require_wallet_role env st wid caller Admin) (\<lambda>d.
     if wd_state d \<noteq> Active then Err InvalidState
     else Ok ((), emit_state wid ''paused'' (store_wallet wid (d\<lparr>wd_state := Paused\<rparr>) st)))"

definition wa_unpause :: "env \<Rightarrow> address \<Rightarrow> u64 \<Rightarrow> wallet_state \<Rightarrow> (unit \<times> wallet_state) res" where
  "wa_unpause env caller wid st =
     rbind (require_wallet_role env st wid caller Admin) (\<lambda>d.
     if wd_state d \<noteq> Paused then Err InvalidState
     else Ok ((), emit_state wid ''unpaused'' (store_wallet wid (d\<lparr>wd_state := Active\<rparr>) st)))"

definition wa_archive :: "env \<Rightarrow> address \<Rightarrow> u64 \<Rightarrow> wallet_state \<Rightarrow> (unit \<times> wallet_state) res" where
  "wa_archive env caller wid st =
     rbind (require_wallet_role env st wid caller Admin) (\<lambda>d.
     if wd_state d = Archived then Err WalletArchived
     else Ok ((), emit_state wid ''archived'' (store_wallet wid (d\<lparr>wd_state := Archived\<rparr>) st)))"

section \<open>Value movement\<close>

definition wa_deposit ::
  "'w token_api \<Rightarrow> env \<Rightarrow> u64 \<Rightarrow> address \<Rightarrow> address \<Rightarrow> i128 \<Rightarrow> wallet_state \<times> 'w \<Rightarrow> (unit \<times> wallet_state \<times> 'w) res" where
  "wa_deposit tk env wid from_a a amt = (\<lambda>(st, w).
     rbind (require_positive_amount amt) (\<lambda>_.
     rbind (require_auth env from_a) (\<lambda>_.
     rbind (load_wallet st wid) (\<lambda>d.
     if wd_state d = Archived then Err WalletArchived
     else rbind (token_transfer tk w a from_a (this_contract env) amt) (\<lambda>w1.
          rbind (credit wid a amt st) (\<lambda>st1.
          Ok ((), wa_emit [WeFunded wid from_a a amt] st1, w1)))))))"

text \<open>The part \<open>transfer\<close> and \<open>withdraw\<close> share, from the lock to the token call. An error returns after
  the unlock and rolls the invocation back.\<close>

definition outbound ::
  "'w token_api \<Rightarrow> 'w wallet_clients \<Rightarrow> env \<Rightarrow> address \<Rightarrow> u64 \<Rightarrow> address \<Rightarrow> address \<Rightarrow> i128 \<Rightarrow> wallet_state \<times> 'w
     \<Rightarrow> (wallet_state \<times> 'w) res" where
  "outbound tk cl env caller wid to_a a amt = (\<lambda>(st, w).
     rbind (lock st) (\<lambda>st1.
     rbind (pre_execute_checks cl wid a to_a amt caller (st1, w)) (\<lambda>(st2, w1).
     rbind (enforce_velocity env wid a amt st2) (\<lambda>st3.
     rbind (enforce_rate_limit env wid amt 1 st3) (\<lambda>st4.
     rbind (require_custody_funds tk env st4 wid a amt w1) (\<lambda>_.
     rbind (debit wid a amt st4) (\<lambda>st5.
     rbind (safe_transfer tk w1 a (this_contract env) to_a amt) (\<lambda>w2.
     Ok (st5, w2)))))))))"

definition wa_transfer ::
  "'w token_api \<Rightarrow> 'w wallet_clients \<Rightarrow> env \<Rightarrow> address \<Rightarrow> u64 \<Rightarrow> address \<Rightarrow> address \<Rightarrow> i128 \<Rightarrow> wallet_state \<times> 'w
     \<Rightarrow> (unit \<times> wallet_state \<times> 'w) res" where
  "wa_transfer tk cl env caller wid to_a a amt = (\<lambda>(st, w).
     rbind (require_positive_amount amt) (\<lambda>_.
     rbind (when_not_paused st) (\<lambda>_.
     rbind (require_wallet_role env st wid caller Agent) (\<lambda>d.
     rbind (require_active_for_transfer d) (\<lambda>_.
     rbind (validate_transfer_recipient env to_a) (\<lambda>_.
     rbind (outbound tk cl env caller wid to_a a amt (st, w)) (\<lambda>(st1, w1).
     Ok ((), unlock (wa_emit [WeTransfer (this_contract env) to_a a amt] st1), w1))))))))"

definition wa_withdraw ::
  "'w token_api \<Rightarrow> 'w wallet_clients \<Rightarrow> env \<Rightarrow> address \<Rightarrow> u64 \<Rightarrow> address \<Rightarrow> i128 \<Rightarrow> wallet_state \<times> 'w
     \<Rightarrow> (unit \<times> wallet_state \<times> 'w) res" where
  "wa_withdraw tk cl env caller wid a amt = (\<lambda>(st, w).
     rbind (require_positive_amount amt) (\<lambda>_.
     rbind (when_not_paused st) (\<lambda>_.
     rbind (require_wallet_role env st wid caller Admin) (\<lambda>d.
     rbind (require_active_for_transfer d) (\<lambda>_.
     rbind (outbound tk cl env caller wid (wd_owner d) a amt (st, w)) (\<lambda>(st1, w1).
     Ok ((), unlock (wa_emit [WeWithdrawn wid (wd_owner d) a amt] st1), w1)))))))"

section \<open>Validated batches\<close>

definition wa_execute_call :: "'w call_target \<Rightarrow> contract_call \<Rightarrow> 'w \<Rightarrow> 'w res" where
  "wa_execute_call invk call w =
     (case invk call w of
        TargetOk w' \<Rightarrow> Ok w' | TargetErr e \<Rightarrow> Err e | TargetAbort \<Rightarrow> Err BatchCallFailed)"

text \<open>The gate address an action with a non-empty id needs.\<close>

definition gate_address :: "bool \<Rightarrow> address option \<Rightarrow> address option \<Rightarrow> address res" where
  "gate_address is_registry reg direct = ok_or (if is_registry then reg else direct) InvalidInput"

fun validate_actions ::
  "'w wallet_clients \<Rightarrow> env \<Rightarrow> address \<Rightarrow> u64 \<Rightarrow> bool \<Rightarrow> address option \<times> address option \<Rightarrow> batch_action list
     \<Rightarrow> i128 \<times> i128 \<times> gate_entry list \<times> wallet_state \<times> 'w \<Rightarrow> (i128 \<times> i128 \<times> gate_entry list \<times> wallet_state \<times> 'w) res" where
  "validate_actions cl env caller wid is_reg reg [] acc = Ok acc"
| "validate_actions cl env caller wid is_reg reg (x # xs) (tot, remaining, gate, st, w) =
     rbind (require_positive_amount (ba_amount x)) (\<lambda>_.
     rbind (checked_add tot (ba_amount x)) (\<lambda>tot'.
     rbind (if ba_policy_id x \<noteq> []
            then rbind (gate_address is_reg (fst reg) (wa_policy st)) (\<lambda>p.
                 require_policy_check cl wid p (ba_policy_id x) (ba_asset x) (ba_recipient x) (ba_amount x) (st, w))
            else Ok (st, w)) (\<lambda>(st1, w1).
     rbind (gate_enforce env st1 wid (ba_asset x) (ba_amount x) gate) (\<lambda>gate'.
     rbind (if ba_budget_id x \<noteq> []
            then rbind (gate_address is_reg (snd reg) (wa_budget st1)) (\<lambda>b.
                 try_consume cl b (ba_budget_id x) caller (ba_amount x) w1)
            else Ok (remaining, w1)) (\<lambda>(remaining', w2).
     validate_actions cl env caller wid is_reg reg xs (tot', remaining', gate', st1, w2))))))"

definition batch_execute_validated ::
  "'w wallet_clients \<Rightarrow> 'w call_target \<Rightarrow> env \<Rightarrow> address \<Rightarrow> u64 \<Rightarrow> batch_action list \<Rightarrow> wallet_state \<times> 'w
     \<Rightarrow> (batch_receipt \<times> wallet_state \<times> 'w) res" where
  "batch_execute_validated cl invk env caller wid actions = (\<lambda>(st, w).
     rbind (when_not_paused st) (\<lambda>_.
     rbind (require_wallet_role env st wid caller Agent) (\<lambda>d.
     rbind (require_active d) (\<lambda>_.
     if actions = [] then Err InvalidInput
     else if length actions > MAX_BATCH_CALLS then Err InvalidInput
     else rbind (lock st) (\<lambda>st1.
          rbind (resolve_gates cl st1 w) (\<lambda>reg.
          rbind (validate_actions cl env caller wid (wa_registry st1 \<noteq> None) reg actions (0, 0, [], st1, w))
            (\<lambda>(total_amount, budget_remaining, gate, st2, w1).
          rbind (enforce_rate_limit env wid total_amount (length actions) st2) (\<lambda>st3.
          let st4 = gate_flush wid gate st3 in
          rbind (rfold (wa_execute_call invk) (map ba_call actions) w1) (\<lambda>w2.
          Ok (\<lparr>br_executed = length actions, br_total_amount = total_amount, br_budget_remaining = budget_remaining\<rparr>,
              unlock (wa_emit [WeBatchValidated wid (length actions) total_amount budget_remaining] st4), w2))))))))))"

section \<open>Views\<close>

definition get_policy :: "wallet_state \<Rightarrow> address option" where
  "get_policy st = wa_policy st"

definition get_velocity_limit :: "wallet_state \<Rightarrow> u64 \<Rightarrow> address \<Rightarrow> velocity_limit option" where
  "get_velocity_limit st wid a = wa_velocity_limit st (wid, a)"

definition get_velocity_usage :: "env \<Rightarrow> wallet_state \<Rightarrow> u64 \<Rightarrow> address \<Rightarrow> i128 res" where
  "get_velocity_usage env st wid a =
     (case get_velocity_limit st wid a of
        Some lim \<Rightarrow> rbind (rolled_velocity_usage env st wid a lim) velocity_total
      | None \<Rightarrow> Ok 0)"

definition get_rate_limit :: "wallet_state \<Rightarrow> u64 \<Rightarrow> rate_limit_config option" where
  "get_rate_limit st wid = wa_rate_limit st wid"

definition get_rate_usage :: "env \<Rightarrow> wallet_state \<Rightarrow> u64 \<Rightarrow> rate_limit_status res" where
  "get_rate_usage env st wid =
     (case wa_rate_limit st wid of
        None \<Rightarrow> Ok \<lparr>rs_volume = 0, rs_count = 0\<rparr>
      | Some cfg \<Rightarrow>
          if rl_window_seconds cfg = 0 then Ok \<lparr>rs_volume = 0, rs_count = 0\<rparr>
          else rbind (rolled_rate_usage env st wid cfg) (\<lambda>u.
               rbind (rate_totals u) (\<lambda>(v, c). Ok \<lparr>rs_volume = v, rs_count = c\<rparr>)))"

definition get_registry :: "wallet_state \<Rightarrow> address option" where
  "get_registry st = wa_registry st"

definition get_org :: "wallet_state \<Rightarrow> string option" where
  "get_org st = wa_org st"

definition get_default_budget_id :: "wallet_state \<Rightarrow> string option" where
  "get_default_budget_id st = wa_default_budget st"

definition get_asset_budget_id :: "wallet_state \<Rightarrow> address \<Rightarrow> string option" where
  "get_asset_budget_id st a = wa_asset_budget st a"

definition get_role :: "wallet_state \<Rightarrow> u64 \<Rightarrow> address \<Rightarrow> role option res" where
  "get_role st wid account = rbind (load_wallet st wid) (\<lambda>d. Ok (effective_role st wid (wd_owner d) account))"

definition has_role :: "wallet_state \<Rightarrow> u64 \<Rightarrow> address \<Rightarrow> role \<Rightarrow> bool res" where
  "has_role st wid account r =
     rbind (load_wallet st wid) (\<lambda>d. Ok (is_ok (require_role st wid (wd_owner d) account r)))"

definition get_wallet :: "wallet_state \<Rightarrow> u64 \<Rightarrow> wallet_data res" where
  "get_wallet st wid = load_wallet st wid"

definition custody_balance :: "'w token_api \<Rightarrow> env \<Rightarrow> address \<Rightarrow> 'w \<Rightarrow> i128 res" where
  "custody_balance tk env a w = token_balance tk w a (this_contract env)"

definition is_paused :: "wallet_state \<Rightarrow> bool" where
  "is_paused st = paused st"

definition get_guardian :: "wallet_state \<Rightarrow> address res" where
  "get_guardian st = ok_or (wa_guardian st) NotInitialized"

end
