(* ===== verification/Wallet_Props.thy ===== *)
theory Wallet_Props
  imports Wallet
begin

text \<open>
  The correctness of the wallet contract: the velocity buckets against the history of spends they
  stand for, the batch cache against the sequence of single charges it replaces, the custody of the
  tracked balances, the exact effect of a transfer, the circuit breaker and the roles, and the way a
  validated batch escapes the bookkeeping.
\<close>

section \<open>Reading the guards\<close>

lemma wa_emit_sel [simp]:
  "wa_admin (wa_emit es st) = wa_admin st" "wa_count (wa_emit es st) = wa_count st"
  "wa_wallets (wa_emit es st) = wa_wallets st" "wa_balances (wa_emit es st) = wa_balances st"
  "wa_velocity_limit (wa_emit es st) = wa_velocity_limit st" "wa_velocity_usage (wa_emit es st) = wa_velocity_usage st"
  "wa_rate_limit (wa_emit es st) = wa_rate_limit st" "wa_rate_usage (wa_emit es st) = wa_rate_usage st"
  "wa_lock (wa_emit es st) = wa_lock st" "wa_paused (wa_emit es st) = wa_paused st"
  "wa_roles (wa_emit es st) = wa_roles st" "wa_registry (wa_emit es st) = wa_registry st"
  "wa_policy (wa_emit es st) = wa_policy st" "wa_budget (wa_emit es st) = wa_budget st"
  by (simp_all add: wa_emit_def)

lemma unlock_sel [simp]:
  "wa_admin (unlock st) = wa_admin st" "wa_count (unlock st) = wa_count st" "wa_wallets (unlock st) = wa_wallets st"
  "wa_balances (unlock st) = wa_balances st" "wa_lock (unlock st) = Some False"
  "wa_velocity_limit (unlock st) = wa_velocity_limit st" "wa_velocity_usage (unlock st) = wa_velocity_usage st"
  "wa_rate_limit (unlock st) = wa_rate_limit st" "wa_rate_usage (unlock st) = wa_rate_usage st"
  "wa_roles (unlock st) = wa_roles st"
  by (simp_all add: unlock_def)

lemma wallet_guards_Ok [ok_simps]:
  "load_wallet st wid = Ok d \<longleftrightarrow> wa_wallets st wid = Some d"
  "when_not_paused st = Ok u \<longleftrightarrow> \<not> paused st"
  "lock st = Ok st' \<longleftrightarrow> st' = st\<lparr>wa_lock := Some True\<rparr> \<and> wa_lock st \<noteq> Some True"
  "require_active d = Ok u \<longleftrightarrow> wd_state d = Active"
  "require_active_for_transfer d = Ok u \<longleftrightarrow> wd_state d = Active"
  "validate_transfer_recipient env r = Ok u \<longleftrightarrow> r \<noteq> zero_address \<and> r \<noteq> this_contract env"
  subgoal by (simp add: load_wallet_def ok_simps)
  subgoal by (simp add: when_not_paused_def)
  subgoal by (cases "wa_lock st") (auto simp: lock_def)
  subgoal by (cases "wd_state d") (auto simp: require_active_def)
  subgoal by (cases "wd_state d") (auto simp: require_active_for_transfer_def)
  subgoal by (auto simp: validate_transfer_recipient_def)
  done

section \<open>Buckets\<close>

lemma shift_buckets_4:
  "shift_buckets 4 s xs = map (\<lambda>j. if s \<le> j then get_or_zero xs (j - s) else 0) [0..<4]"
proof -
  have u: "[0..<4] = [0, 1, 2, 3 :: nat]" by (simp add: upt_rec)
  consider "s = 0" | "s = 1" | "s = 2" | "s = 3" | "4 \<le> s" by linarith
  then show ?thesis unfolding shift_buckets_def u by cases (simp_all add: numeral_eq_Suc)
qed

lemma shift_buckets_length [simp]: "length (shift_buckets 4 s xs) = 4"
  by (simp add: shift_buckets_4)

lemma shift_buckets_nth: "j < 4 \<Longrightarrow> shift_buckets 4 s xs ! j = (if s \<le> j then get_or_zero xs (j - s) else 0)"
  by (simp add: shift_buckets_4)

lemma shift_buckets_zero: "length xs = 4 \<Longrightarrow> shift_buckets 4 0 xs = xs"
  by (rule nth_equalityI) (simp_all add: shift_buckets_nth get_or_zero_def)

lemma velocity_total_loop_Ok: "velocity_total_loop xs t = Ok v \<Longrightarrow> v = t + sum_list xs"
proof (induction xs arbitrary: t)
  case (Cons x xs)
  then have "velocity_total_loop xs (t + x) = Ok v" by (auto simp: ok_simps)
  from Cons.IH [OF this] show ?case by simp
qed simp

lemma sum_list_4: "length xs = 4 \<Longrightarrow> sum_list xs = xs ! 0 + xs ! 1 + xs ! 2 + (xs ! 3 :: int)"
  by (auto simp: length_Suc_conv numeral_eq_Suc)

section \<open>A single charge\<close>

text \<open>What one charge of an asset with a ceiling does, free of the cache.\<close>

definition charged :: "velocity_usage \<Rightarrow> int \<Rightarrow> velocity_usage" where
  "charged u amt = u\<lparr>vu_spent := (vu_spent u)[0 := get_or_zero (vu_spent u) 0 + amt]\<rparr>"

definition charge :: "velocity_limit \<Rightarrow> int \<Rightarrow> velocity_usage \<Rightarrow> velocity_usage res" where
  "charge lim amt u =
     rbind (velocity_total u) (\<lambda>tot.
     if \<not> (in_i128 (tot + amt) \<and> tot + amt \<le> vl_max_amount lim) then Err VelocityLimitExceeded
     else rbind (safe_add (get_or_zero (vu_spent u) 0) amt) (\<lambda>current.
          Ok (u\<lparr>vu_spent := (vu_spent u)[0 := current]\<rparr>)))"

lemma charge_Ok:
  "charge lim amt u = Ok u' \<Longrightarrow> u' = charged u amt \<and> sum_list (vu_spent u) + amt \<le> vl_max_amount lim"
  using velocity_total_loop_Ok [of "vu_spent u" 0]
  by (auto simp: charge_def charged_def velocity_total_def ok_simps)

lemma rbind_guard: "rbind (if b then Err e else m) f = (if b then Err e else rbind m f)"
  by simp

lemma gate_enforce_charge:
  "gate_enforce env st wid a amt es =
     rbind (gate_position env st wid a es) (\<lambda>(k, es').
     case snd (es' ! k) of
       (Some lim, Some u) \<Rightarrow> rbind (charge lim amt u) (\<lambda>u'. Ok (es'[k := (a, Some lim, Some u')]))
     | _ \<Rightarrow> Ok es')"
  unfolding gate_enforce_def charge_def by (simp only: rbind_assoc rbind_guard rbind.simps)

lemma enforce_velocity_eq:
  "enforce_velocity env wid a amt st =
     (case wa_velocity_limit st (wid, a) of
        None \<Rightarrow> Ok st
      | Some lim \<Rightarrow> rbind (rolled_velocity_usage env st wid a lim) (\<lambda>u. rbind (charge lim amt u) (\<lambda>u'.
          Ok (st\<lparr>wa_velocity_usage := (wa_velocity_usage st)((wid, a) \<mapsto> u')\<rparr>))))"
  by (cases "wa_velocity_limit st (wid, a)")
     (simp_all add: enforce_velocity_def gate_enforce_charge gate_position_def rbind_assoc)

section \<open>The history behind the buckets\<close>

text \<open>The spends of one wallet in one asset, oldest first, with their times. Window sums count by
  bucket number.\<close>

definition window_sum :: "nat \<Rightarrow> (nat \<times> int) list \<Rightarrow> nat \<Rightarrow> int" where
  "window_sum bs h b = (\<Sum>(t, x)\<leftarrow>h. if b \<le> t div bs + 3 then x else 0)"

definition buckets_of :: "nat \<Rightarrow> (nat \<times> int) list \<Rightarrow> velocity_usage \<Rightarrow> bool" where
  "buckets_of bs h u \<longleftrightarrow> length (vu_spent u) = 4 \<and> (\<forall>(t, x)\<in>set h. t div bs \<le> vu_bucket u) \<and>
     (\<forall>j<4. vu_spent u ! j = (\<Sum>(t, x)\<leftarrow>h. if t div bs + j = vu_bucket u then x else 0))"

lemma buckets_total:
  assumes "buckets_of bs h u"
  shows "sum_list (vu_spent u) = window_sum bs h (vu_bucket u)"
proof -
  have "(\<Sum>(t, x)\<leftarrow>h. if t div bs + 0 = b then x else 0) + (\<Sum>(t, x)\<leftarrow>h. if t div bs + 1 = b then x else 0) +
      (\<Sum>(t, x)\<leftarrow>h. if t div bs + 2 = b then x else 0) + (\<Sum>(t, x)\<leftarrow>h. if t div bs + 3 = b then x else 0)
      = window_sum bs h b" if "\<forall>(t, x)\<in>set h. t div bs \<le> b" for b
    using that by (induction h) (auto simp: window_sum_def)
  then show ?thesis using assms by (simp add: buckets_of_def sum_list_4)
qed

lemma buckets_shift:
  assumes "buckets_of bs h u" and "vu_bucket u \<le> b"
  shows "buckets_of bs h \<lparr>vu_bucket = b, vu_spent = shift_buckets 4 (b - vu_bucket u) (vu_spent u)\<rparr>"
proof -
  let ?s = "b - vu_bucket u"
  have old: "t div bs \<le> vu_bucket u" if "(t, x) \<in> set h" for t x using assms(1) that by (auto simp: buckets_of_def)
  have "shift_buckets 4 ?s (vu_spent u) ! j = (\<Sum>(t, x)\<leftarrow>h. if t div bs + j = b then x else 0)" if "j < 4" for j
  proof (cases "?s \<le> j")
    case True
    then have e: "t div bs + j = b \<longleftrightarrow> t div bs + (j - ?s) = vu_bucket u" for t using assms(2) by auto
    have l: "j - ?s < 4" "length (vu_spent u) = 4" using that assms(1) by (simp_all add: buckets_of_def)
    have "vu_spent u ! (j - ?s) = (\<Sum>(t, x)\<leftarrow>h. if t div bs + (j - ?s) = vu_bucket u then x else 0)"
      using assms(1) l(1) unfolding buckets_of_def by blast
    then show ?thesis using True l that by (simp only: shift_buckets_nth get_or_zero_def e if_True)
  next
    case False
    then have "map (\<lambda>(t, x). if t div bs + j = b then x else 0) h = map (\<lambda>_. 0) h"
      using old by (intro map_cong) fastforce+
    then have "(\<Sum>(t, x)\<leftarrow>h. if t div bs + j = b then x else 0) = 0" by (simp only: sum_list_0)
    then show ?thesis using False that by (simp only: shift_buckets_nth if_False)
  qed
  then show ?thesis using assms old by (fastforce simp: buckets_of_def)
qed

lemma buckets_charged:
  assumes "buckets_of bs h u" and "t div bs = vu_bucket u"
  shows "buckets_of bs (h @ [(t, amt)]) (charged u amt)"
proof -
  have l: "length (vu_spent u) = 4" using assms(1) by (simp add: buckets_of_def)
  have "(vu_spent u)[0 := get_or_zero (vu_spent u) 0 + amt] ! j
      = (\<Sum>(t, x)\<leftarrow>h @ [(t, amt)]. if t div bs + j = vu_bucket u then x else 0)" if "j < 4" for j
    using that l assms by (cases j) (simp_all add: get_or_zero_def buckets_of_def)
  then show ?thesis using assms l by (auto simp: buckets_of_def charged_def)
qed

lemma buckets_fresh: "buckets_of bs [] \<lparr>vu_bucket = b, vu_spent = replicate 4 0\<rparr>"
  by (simp add: buckets_of_def)


section \<open>Charges over time\<close>

text \<open>A run as one (wallet, asset) pair sees it: charges at non-decreasing times, interleaved with
  anything that leaves its ceiling and its usage record alone.\<close>

inductive velocity_run ::
  "u64 \<Rightarrow> address \<Rightarrow> velocity_limit \<Rightarrow> wallet_state \<Rightarrow> (nat \<times> int) list \<Rightarrow> bool"
  for wid a lim where
  vr_start: "\<lbrakk>wa_velocity_limit st (wid, a) = Some lim; wa_velocity_usage st (wid, a) = None\<rbrakk>
    \<Longrightarrow> velocity_run wid a lim st []"
| vr_charge: "\<lbrakk>velocity_run wid a lim st h; enforce_velocity env wid a amt st = Ok st'; 0 < amt;
    \<forall>(t, x)\<in>set h. t \<le> timestamp env\<rbrakk> \<Longrightarrow> velocity_run wid a lim st' (h @ [(timestamp env, amt)])"
| vr_other: "\<lbrakk>velocity_run wid a lim st h; wa_velocity_limit st' (wid, a) = wa_velocity_limit st (wid, a);
    wa_velocity_usage st' (wid, a) = wa_velocity_usage st (wid, a)\<rbrakk> \<Longrightarrow> velocity_run wid a lim st' h"

text \<open>The usage record always stands for the history, and every charge found room in its window.\<close>

definition velocity_inv :: "u64 \<Rightarrow> address \<Rightarrow> velocity_limit \<Rightarrow> wallet_state \<Rightarrow> (nat \<times> int) list \<Rightarrow> bool" where
  "velocity_inv wid a lim st h \<longleftrightarrow>
     (let bs = vl_window_seconds lim div 4 in
      wa_velocity_limit st (wid, a) = Some lim \<and>
      (case wa_velocity_usage st (wid, a) of
         None \<Rightarrow> h = []
       | Some u \<Rightarrow> h \<noteq> [] \<and> vu_bucket u = fst (last h) div bs \<and> buckets_of bs h u) \<and>
      (\<forall>n<length h. window_sum bs (take (Suc n) h) (fst (h ! n) div bs) \<le> vl_max_amount lim) \<and>
      (\<forall>(t, x)\<in>set h. 0 \<le> x) \<and> sorted (map fst h))"

lemma velocity_inv_roll:
  assumes "velocity_inv wid a lim st h" and "\<forall>(t, x)\<in>set h. t \<le> timestamp env"
    and "rolled_velocity_usage env st wid a lim = Ok u"
  shows "vu_bucket u = timestamp env div (vl_window_seconds lim div 4)"
    and "buckets_of (vl_window_seconds lim div 4) h u"
proof -
  let ?bs = "vl_window_seconds lim div 4" and ?b = "timestamp env div (vl_window_seconds lim div 4)"
  have "vu_bucket u = ?b \<and> buckets_of ?bs h u"
  proof (cases "wa_velocity_usage st (wid, a)")
    case None
    then show ?thesis using assms buckets_fresh [of ?bs ?b]
      by (auto simp: velocity_inv_def rolled_velocity_usage_def Let_def VELOCITY_BUCKETS_def split: if_splits)
  next
    case (Some v)
    then have v: "h \<noteq> []" "vu_bucket v = fst (last h) div ?bs" "buckets_of ?bs h v"
      using assms(1) by (auto simp: velocity_inv_def Let_def)
    have "fst (last h) \<le> timestamp env" using assms(2) last_in_set [OF v(1)] by (cases "last h") auto
    then have le: "vu_bucket v \<le> ?b" using v(2) by (simp add: div_le_mono)
    have "u = \<lparr>vu_bucket = ?b, vu_spent = shift_buckets 4 (?b - vu_bucket v) (vu_spent v)\<rparr>"
      using assms(3) Some le
      by (auto simp: rolled_velocity_usage_def Let_def VELOCITY_BUCKETS_def max_def split: if_splits)
    then show ?thesis using buckets_shift [OF v(3) le] by simp
  qed
  then show "vu_bucket u = ?b" and "buckets_of ?bs h u" by auto
qed

lemma velocity_run_inv: "velocity_run wid a lim st h \<Longrightarrow> velocity_inv wid a lim st h"
proof (induction rule: velocity_run.induct)
  case (vr_charge st h env amt st')
  let ?bs = "vl_window_seconds lim div 4" and ?t = "timestamp env"
  have lim: "wa_velocity_limit st (wid, a) = Some lim" using vr_charge.IH by (simp add: velocity_inv_def Let_def)
  obtain u where u: "rolled_velocity_usage env st wid a lim = Ok u" "charge lim amt u = Ok (charged u amt)"
    "sum_list (vu_spent u) + amt \<le> vl_max_amount lim"
    and st': "st' = st\<lparr>wa_velocity_usage := (wa_velocity_usage st)((wid, a) \<mapsto> charged u amt)\<rparr>"
    using vr_charge.hyps(2) lim by (auto simp: enforce_velocity_eq ok_simps dest: charge_Ok)
  note r = velocity_inv_roll [OF vr_charge.IH vr_charge.hyps(4) u(1)]
  have w: "window_sum ?bs (h @ [(?t, amt)]) (?t div ?bs) \<le> vl_max_amount lim"
    using u(3) buckets_total [OF r(2)] r(1) by (simp add: window_sum_def)
  have "window_sum ?bs (take (Suc n) (h @ [(?t, amt)])) (fst ((h @ [(?t, amt)]) ! n) div ?bs) \<le> vl_max_amount lim"
    if "n < Suc (length h)" for n
    using vr_charge.IH w that by (cases "n = length h") (auto simp: velocity_inv_def Let_def nth_append)
  moreover have "sorted (map fst (h @ [(?t, amt)]))"
    using vr_charge.IH vr_charge.hyps(4) by (auto simp: velocity_inv_def Let_def sorted_append)
  ultimately show ?case using vr_charge.IH vr_charge.hyps(3) buckets_charged [OF r(2), of ?t amt] r(1) st' lim
    by (auto simp: velocity_inv_def Let_def charged_def)
qed (auto simp: velocity_inv_def Let_def split: option.splits)


lemma window_sum_nth:
  "window_sum bs h b = (\<Sum>k<length h. if b \<le> fst (h ! k) div bs + 3 then snd (h ! k) else 0)"
  by (simp add: window_sum_def sum_list_sum_nth atLeast0LessThan case_prod_unfold)

lemma velocity_inv_span:
  assumes "velocity_inv wid a lim st h" and "j < length h"
    and "fst (h ! j) - fst (h ! i) < 3 * (vl_window_seconds lim div 4)"
  shows "(\<Sum>k\<in>{i..j}. snd (h ! k)) \<le> vl_max_amount lim"
proof -
  let ?bs = "vl_window_seconds lim div 4" and ?b = "fst (h ! j) div (vl_window_seconds lim div 4)"
  let ?f = "\<lambda>k. if ?b \<le> fst (h ! k) div ?bs + 3 then snd (h ! k) else 0"
  have bs: "0 < ?bs" using assms(3) by (cases "?bs = 0") auto
  have nn: "0 \<le> snd (h ! k)" if "k < length h" for k
    using assms(1) nth_mem [OF that] by (cases "h ! k") (auto simp: velocity_inv_def Let_def)
  have recent: "?b \<le> fst (h ! k) div ?bs + 3" if "i \<le> k" "k \<le> j" for k
  proof -
    have "sorted (map fst h)" using assms(1) by (simp add: velocity_inv_def Let_def)
    then have "fst (h ! i) \<le> fst (h ! k)" using that assms(2) by (auto dest: sorted_nth_mono)
    then have "fst (h ! j) \<le> fst (h ! k) + 3 * ?bs" using assms(3) by linarith
    then have "?b \<le> (fst (h ! k) + 3 * ?bs) div ?bs" by (rule div_le_mono)
    then show ?thesis using bs by simp
  qed
  have "(\<Sum>k\<in>{i..j}. snd (h ! k)) = (\<Sum>k\<in>{i..j}. ?f k)" using recent by (intro sum.cong) auto
  also have "\<dots> \<le> (\<Sum>k<Suc j. ?f k)" using nn assms(2) by (intro sum_mono2) auto
  also have "\<dots> = window_sum ?bs (take (Suc j) h) ?b"
  proof -
    have "length (take (Suc j) h) = Suc j" using assms(2) by simp
    then show ?thesis unfolding window_sum_nth by (intro sum.cong) auto
  qed
  also have "\<dots> \<le> vl_max_amount lim" using assms(1,2) by (simp add: velocity_inv_def Let_def)
  finally show ?thesis .
qed

section \<open>The batch cache against single charges\<close>

fun gate_all :: "env \<Rightarrow> wallet_state \<Rightarrow> u64 \<Rightarrow> (address \<times> int) list \<Rightarrow> gate_entry list \<Rightarrow> gate_entry list res" where
  "gate_all env st wid [] es = Ok es"
| "gate_all env st wid ((a, amt) # xs) es = rbind (gate_enforce env st wid a amt es) (gate_all env st wid xs)"

fun charge_all :: "env \<Rightarrow> u64 \<Rightarrow> (address \<times> int) list \<Rightarrow> wallet_state \<Rightarrow> wallet_state res" where
  "charge_all env wid [] st = Ok st"
| "charge_all env wid ((a, amt) # xs) st = rbind (enforce_velocity env wid a amt st) (charge_all env wid xs)"

definition flushed :: "u64 \<Rightarrow> gate_entry list \<Rightarrow> wallet_state \<Rightarrow> u64 \<times> address \<Rightarrow> velocity_usage option" where
  "flushed wid es st = (\<lambda>(i, b). if i = wid then (case map_of es b of Some (Some _, Some u) \<Rightarrow> Some u
     | _ \<Rightarrow> wa_velocity_usage st (i, b)) else wa_velocity_usage st (i, b))"

lemma gate_flush_eq:
  "distinct (map fst es) \<Longrightarrow> gate_flush wid es st = st\<lparr>wa_velocity_usage := flushed wid es st\<rparr>"
proof (induction es arbitrary: st)
  case (Cons e es)
  obtain a l u where e: "e = (a, l, u)" by (metis prod_cases3)
  have fresh: "map_of es a = None" using Cons.prems e by (simp add: map_of_eq_None_iff)
  show ?case
  proof (cases "\<exists>l' u'. l = Some l' \<and> u = Some u'")
    case True
    then obtain l' u' where lu: "l = Some l'" "u = Some u'" by blast
    let ?st = "st\<lparr>wa_velocity_usage := (wa_velocity_usage st)((wid, a) \<mapsto> u')\<rparr>"
    have "flushed wid es ?st = flushed wid (e # es) st"
      using fresh e lu by (auto simp: flushed_def fun_eq_iff split: option.splits prod.splits)
    then show ?thesis using Cons.IH [of ?st] Cons.prems e lu by simp
  next
    case False
    then have "flushed wid es st = flushed wid (e # es) st"
      using fresh e by (cases l; cases u) (auto simp: flushed_def fun_eq_iff)
    moreover have "gate_flush wid (e # es) st = gate_flush wid es st" using False e by (cases l; cases u) auto
    ultimately show ?thesis using Cons.IH [of st] Cons.prems by simp
  qed
next
  case Nil
  have "flushed wid [] st = wa_velocity_usage st" by (simp add: flushed_def fun_eq_iff)
  then show ?case by simp
qed

lemma map_of_update_nth:
  "distinct (map fst es) \<Longrightarrow> k < length es \<Longrightarrow> fst (es ! k) = a \<Longrightarrow>
     map_of (es[k := (a, y)]) = (map_of es)(a \<mapsto> y)"
proof (induction es arbitrary: k)
  case (Cons e es)
  show ?case
  proof (cases k)
    case (Suc j)
    then have "es ! j \<in> set es" "fst (es ! j) = a" using Cons.prems by simp_all
    then have "a \<in> fst ` set es" by force
    then have "fst e \<noteq> a" using Cons.prems(1) by auto
    then show ?thesis using Suc Cons.IH [of j] Cons.prems by (cases e) (auto simp: fun_upd_twist)
  qed (use Cons.prems in \<open>cases e; auto simp: fun_eq_iff\<close>)
qed simp

lemma gate_index_Some:
  "gate_index a es = Some k \<Longrightarrow> k < length es \<and> fst (es ! k) = a"
  by (induction es arbitrary: k) (auto split: if_splits)

lemma gate_index_None: "gate_index a es = None \<longleftrightarrow> a \<notin> fst ` set es"
  by (induction es) auto

text \<open>A record that is already aged to the current time is left alone by ageing.\<close>

definition aged :: "env \<Rightarrow> velocity_limit \<Rightarrow> velocity_usage \<Rightarrow> bool" where
  "aged env lim u \<longleftrightarrow> length (vu_spent u) = 4 \<and> 0 < vl_window_seconds lim div 4 \<and>
     timestamp env div (vl_window_seconds lim div 4) \<le> vu_bucket u"

lemma rolled_aged: "rolled_velocity_usage env st wid a lim = Ok u \<Longrightarrow> aged env lim u"
  by (auto simp: rolled_velocity_usage_def aged_def Let_def VELOCITY_BUCKETS_def split: if_splits option.splits)

lemma aged_rolled:
  "aged env lim u \<Longrightarrow> wa_velocity_usage st (wid, a) = Some u \<Longrightarrow> rolled_velocity_usage env st wid a lim = Ok u"
  by (auto simp: rolled_velocity_usage_def aged_def Let_def VELOCITY_BUCKETS_def shift_buckets_zero max_def int_limits)

lemma aged_charged: "charge lim amt u = Ok u' \<Longrightarrow> aged env l u \<Longrightarrow> aged env l u'"
  using charge_Ok [of lim amt u u'] by (auto simp: aged_def charged_def)


definition gate_ok :: "env \<Rightarrow> wallet_state \<Rightarrow> u64 \<Rightarrow> gate_entry list \<Rightarrow> bool" where
  "gate_ok env st wid es \<longleftrightarrow> distinct (map fst es) \<and>
     (\<forall>(a, l, u)\<in>set es. l = wa_velocity_limit st (wid, a) \<and>
        (case l of None \<Rightarrow> u = None | Some lim \<Rightarrow> \<exists>v. u = Some v \<and> aged env lim v))"

lemma gate_enforce_single:
  assumes "gate_ok env st wid es"
  shows "rbind (gate_enforce env st wid a amt es) (\<lambda>es'. Ok (gate_flush wid es' st))
       = enforce_velocity env wid a amt (gate_flush wid es st)"
    and "gate_enforce env st wid a amt es = Ok es' \<Longrightarrow> gate_ok env st wid es'"
proof -
  have dis: "distinct (map fst es)" using assms by (simp add: gate_ok_def)
  let ?st = "st\<lparr>wa_velocity_usage := flushed wid es st\<rparr>"
  have fl: "gate_flush wid es st = ?st" by (rule gate_flush_eq [OF dis])
  have upd: "gate_flush wid es2 st = ?st\<lparr>wa_velocity_usage := (wa_velocity_usage ?st)((wid, a) \<mapsto> u')\<rparr>"
    if "distinct (map fst es2)" "map_of es2 = (map_of es)(a \<mapsto> (Some lim, Some u'))" for es2 lim u'
    using that by (auto simp: gate_flush_eq [OF that(1)] flushed_def fun_eq_iff)
  have goal: "rbind (gate_enforce env st wid a amt es) (\<lambda>es'. Ok (gate_flush wid es' st)) = enforce_velocity env wid a amt ?st \<and>
    (gate_enforce env st wid a amt es = Ok es' \<longrightarrow> gate_ok env st wid es')"
  proof (cases "gate_index a es")
    case (Some k)
    note k = gate_index_Some [OF Some]
    obtain l u where e: "es ! k = (a, l, u)" using k by (cases "es ! k") auto
    then have mem: "(a, l, u) \<in> set es" using k nth_mem by metis
    note ent = bspec [OF conjunct2 [OF assms [unfolded gate_ok_def]] mem, unfolded prod.case]
    then have l: "l = wa_velocity_limit st (wid, a)" by simp
    show ?thesis
    proof (cases l)
      case None
      then have "gate_enforce env st wid a amt es = Ok es" "enforce_velocity env wid a amt ?st = Ok ?st"
        using l Some e by (simp_all add: gate_enforce_charge gate_position_def enforce_velocity_eq)
      then show ?thesis using fl assms by auto
    next
      case l': (Some lim)
      then obtain v where v: "u = Some v" "aged env lim v" using ent by auto
      have "map_of es a = Some (Some lim, Some v)" using mem dis l' v by simp
      then have "wa_velocity_usage ?st (wid, a) = Some v" by (simp add: flushed_def)
      note r = aged_rolled [OF v(2) this]
      have d2: "distinct (map fst (es[k := (a, Some lim, Some u')]))" for u'
      proof -
        have "map fst (es[k := (a, Some lim, Some u')]) = map fst es" using k by (metis fst_conv list_update_id map_update nth_map)
        then show ?thesis using dis by simp
      qed
      have m2: "map_of (es[k := (a, Some lim, Some u')]) = (map_of es)(a \<mapsto> (Some lim, Some u'))" for u'
        using map_of_update_nth [OF dis] k by simp
      have ge: "gate_enforce env st wid a amt es = rbind (charge lim amt v) (\<lambda>u'. Ok (es[k := (a, Some lim, Some u')]))"
        using Some e l' v by (simp add: gate_enforce_charge gate_position_def)
      have ev: "enforce_velocity env wid a amt ?st = rbind (charge lim amt v) (\<lambda>u'.
          Ok (?st\<lparr>wa_velocity_usage := (wa_velocity_usage ?st)((wid, a) \<mapsto> u')\<rparr>))"
        using l [symmetric] l' r by (simp add: enforce_velocity_eq)
      have "gate_ok env st wid (es[k := (a, Some lim, Some u')])" if "charge lim amt v = Ok u'" for u'
        using assms d2 [of u'] aged_charged [OF that v(2)] l l' set_update_subset_insert [of es k "(a, Some lim, Some u')"]
        by (fastforce simp: gate_ok_def)
      then show ?thesis unfolding ge ev by (auto simp: rbind_assoc upd [OF d2 m2] ok_simps)
    qed
  next
    case None
    then have fresh: "a \<notin> fst ` set es" by (simp add: gate_index_None)
    then have mo: "map_of es a = None" by (simp add: map_of_eq_None_iff)
    show ?thesis
    proof (cases "wa_velocity_limit st (wid, a)")
      case n: None
      then have "gate_enforce env st wid a amt es = Ok (es @ [(a, None, None)])" "enforce_velocity env wid a amt ?st = Ok ?st"
        using None by (simp_all add: gate_enforce_charge gate_position_def enforce_velocity_eq)
      moreover have "flushed wid (es @ [(a, None, None)]) st = flushed wid es st"
        using mo by (auto simp: flushed_def fun_eq_iff map_add_def split: option.splits)
      moreover have "gate_ok env st wid (es @ [(a, None, None)])" using assms fresh n by (auto simp: gate_ok_def)
      moreover have "distinct (map fst (es @ [(a, None, None)]))" using dis fresh by simp
      ultimately show ?thesis by (auto simp: gate_flush_eq)
    next
      case l': (Some lim)
      let ?es = "\<lambda>u'. es @ [(a, Some lim, Some u')]"
      have "wa_velocity_usage ?st (wid, a) = wa_velocity_usage st (wid, a)" using mo by (simp add: flushed_def)
      then have r: "rolled_velocity_usage env ?st wid a lim = rolled_velocity_usage env st wid a lim"
        unfolding rolled_velocity_usage_def by (simp only:)
      have d2: "distinct (map fst (?es u'))" for u' using dis fresh by simp
      have m2: "map_of (?es u') = (map_of es)(a \<mapsto> (Some lim, Some u'))" for u'
        using mo by (auto simp: fun_eq_iff map_add_def split: option.splits)
      have ge: "gate_enforce env st wid a amt es =
          rbind (rolled_velocity_usage env st wid a lim) (\<lambda>v. rbind (charge lim amt v) (\<lambda>u'. Ok (?es u')))"
        using None l' by (simp add: gate_enforce_charge gate_position_def rbind_assoc)
      have ev: "enforce_velocity env wid a amt ?st =
          rbind (rolled_velocity_usage env st wid a lim) (\<lambda>v. rbind (charge lim amt v) (\<lambda>u'.
          Ok (?st\<lparr>wa_velocity_usage := (wa_velocity_usage ?st)((wid, a) \<mapsto> u')\<rparr>)))"
        using l' r by (simp add: enforce_velocity_eq)
      have "gate_ok env st wid (?es u')" if "rolled_velocity_usage env st wid a lim = Ok v" "charge lim amt v = Ok u'" for v u'
        using assms d2 [of u'] aged_charged [OF that(2) rolled_aged [OF that(1)]] l' by (fastforce simp: gate_ok_def)
      then show ?thesis unfolding ge ev by (auto simp: rbind_assoc upd [OF d2 m2] ok_simps)
    qed
  qed
  then show "rbind (gate_enforce env st wid a amt es) (\<lambda>es'. Ok (gate_flush wid es' st)) = enforce_velocity env wid a amt (gate_flush wid es st)"
    and "gate_enforce env st wid a amt es = Ok es' \<Longrightarrow> gate_ok env st wid es'" using fl by simp_all
qed

lemma gate_all_charge_all:
  assumes "gate_ok env st wid es"
  shows "rbind (gate_all env st wid xs es) (\<lambda>es'. Ok (gate_flush wid es' st)) = charge_all env wid xs (gate_flush wid es st)"
  using assms
proof (induction xs arbitrary: es)
  case (Cons x xs)
  obtain a amt where x: "x = (a, amt)" by fastforce
  note one = gate_enforce_single [OF Cons.prems, of a amt]
  show ?case
  proof (cases "gate_enforce env st wid a amt es")
    case (Ok es')
    then have "enforce_velocity env wid a amt (gate_flush wid es st) = Ok (gate_flush wid es' st)" using one(1) by simp
    then show ?thesis using Cons.IH [OF one(2) [OF Ok]] x Ok by simp
  next
    case (Err er)
    then have "enforce_velocity env wid a amt (gate_flush wid es st) = Err er" using one(1) by simp
    then show ?thesis using x Err by simp
  next
    case Panic
    then have "enforce_velocity env wid a amt (gate_flush wid es st) = Panic" using one(1) by simp
    then show ?thesis using x Panic by simp
  qed
qed simp

end
