(* ===== verification/Wallet_Runs.thy ===== *)
theory Wallet_Runs
  imports Wallet_Props
begin

text \<open>
  The wallet contract over whole runs: what every entrypoint except the validated batch does to the
  tracked balances, and the invariant that the contract's token holdings cover them. The batch is
  left out on purpose: the last property shows that it breaks the invariant.
\<close>

section \<open>Effects of the gates\<close>

lemma require_policy_check_emit:
  "require_policy_check cl wid p pid a r amt (st, w) = Ok (st', w') \<Longrightarrow>
     (\<exists>es. st' = wa_emit es st) \<and> cl_check_transfer cl p pid a r amt w = CallOk w'"
  by (auto simp: require_policy_check_def split: call_result.splits)

lemma pre_execute_checks_Ok:
  assumes "pre_execute_checks cl wid a r amt c (st, w) = Ok (st', w')"
  obtains es w1 pa ba where "st' = wa_emit es st" and "resolve_gates cl st w = Ok (pa, ba)"
    and "case pa of Some p \<Rightarrow> if get_policy_bypass st wid then w1 = w
           else cl_check_transfer cl p ''active'' a r amt w = CallOk w1 | None \<Rightarrow> w1 = w"
    and "case ba of Some b \<Rightarrow> (case budget_id_for st a of Some i \<Rightarrow> \<exists>n. cl_consume cl b c i amt w1 = CallOk (n, w') | None \<Rightarrow> w' = w1)
           | None \<Rightarrow> w' = w1"
proof -
  from assms obtain pa ba st1 w1 where g: "resolve_gates cl st w = Ok (pa, ba)"
    and p: "(case pa of Some p \<Rightarrow> if \<not> get_policy_bypass st wid
               then require_policy_check cl wid p ''active'' a r amt (st, w) else Ok (st, w)
             | None \<Rightarrow> Ok (st, w)) = Ok (st1, w1)"
    and b: "(case ba of Some b \<Rightarrow> (case budget_id_for st1 a of
               Some i \<Rightarrow> consume_budget cl b i c amt w1 | None \<Rightarrow> Ok w1) | None \<Rightarrow> Ok w1) = Ok w'" and "st' = st1"
    by (auto simp: pre_execute_checks_def ok_simps)
  have id: "st = wa_emit [] st" by (simp add: wa_emit_def)
  obtain es where es: "st1 = wa_emit es st"
    using p id by (auto dest!: require_policy_check_emit split: option.splits if_splits)
  have "case pa of Some p \<Rightarrow> if get_policy_bypass st wid then w1 = w
      else cl_check_transfer cl p ''active'' a r amt w = CallOk w1 | None \<Rightarrow> w1 = w"
    using p by (auto dest!: require_policy_check_emit split: option.splits if_splits)
  moreover have bid: "budget_id_for st1 a = budget_id_for st a" using es by (simp add: budget_id_for_def wa_emit_def split: option.split)
  have "case ba of Some b \<Rightarrow> (case budget_id_for st a of Some i \<Rightarrow> \<exists>n. cl_consume cl b c i amt w1 = CallOk (n, w') | None \<Rightarrow> w' = w1)
      | None \<Rightarrow> w' = w1"
    using b unfolding bid
    by (auto simp: consume_budget_def try_consume_def ok_simps split: option.splits call_result.splits)
  ultimately show ?thesis using that g es \<open>st' = st1\<close> by blast
qed

lemma enforce_velocity_frame:
  "enforce_velocity env wid a amt st = Ok st' \<Longrightarrow> \<exists>m. st' = st\<lparr>wa_velocity_usage := m\<rparr>"
proof (cases "wa_velocity_limit st (wid, a)")
  case None
  assume "enforce_velocity env wid a amt st = Ok st'"
  then have "st' = st\<lparr>wa_velocity_usage := wa_velocity_usage st\<rparr>" using None by (simp add: enforce_velocity_eq)
  then show ?thesis by blast
qed (auto simp: enforce_velocity_eq ok_simps)

lemma enforce_rate_limit_frame:
  "enforce_rate_limit env wid amt n st = Ok st' \<Longrightarrow> \<exists>m. st' = st\<lparr>wa_rate_usage := m\<rparr>"
proof (cases "wa_rate_limit st wid")
  case None
  assume "enforce_rate_limit env wid amt n st = Ok st'"
  then have "st' = st\<lparr>wa_rate_usage := wa_rate_usage st\<rparr>" using None by (simp add: enforce_rate_limit_def)
  then show ?thesis by blast
next
  case (Some cfg)
  assume a: "enforce_rate_limit env wid amt n st = Ok st'"
  show ?thesis
  proof (cases "rl_window_seconds cfg = 0")
    case True
    then have "st' = st\<lparr>wa_rate_usage := wa_rate_usage st\<rparr>" using a Some by (simp add: enforce_rate_limit_def)
    then show ?thesis by blast
  qed (use a Some in \<open>auto simp: enforce_rate_limit_def ok_simps\<close>)
qed

lemma balance_ops_Ok:
  "credit wid a amt st = Ok st' \<longleftrightarrow> in_i128 (wa_balance st wid a + amt) \<and>
     st' = st\<lparr>wa_balances := (wa_balances st)((wid, a) \<mapsto> wa_balance st wid a + amt)\<rparr>"
  "debit wid a amt st = Ok st' \<longleftrightarrow> amt \<le> wa_balance st wid a \<and> in_i128 (wa_balance st wid a - amt) \<and>
     st' = st\<lparr>wa_balances := (wa_balances st)((wid, a) \<mapsto> wa_balance st wid a - amt)\<rparr>"
  by (auto simp: credit_def debit_def wa_balance_def Let_def ok_simps)

text \<open>A successful outbound movement.\<close>

lemma outbound_Ok:
  assumes "outbound tk cl env c wid r a amt (st, w) = Ok (st', w')"
  obtains es vm rm w1 where "0 < amt" "amt \<le> wa_balance st wid a" "wa_lock st \<noteq> Some True"
    "pre_execute_checks cl wid a r amt c (st\<lparr>wa_lock := Some True\<rparr>, w) = Ok (wa_emit es (st\<lparr>wa_lock := Some True\<rparr>), w1)"
    "tk_transfer tk w1 a (this_contract env) r amt = TryOk w'"
    "st' = (wa_emit es (st\<lparr>wa_lock := Some True\<rparr>))\<lparr>wa_velocity_usage := vm, wa_rate_usage := rm,
       wa_balances := (wa_balances st)((wid, a) \<mapsto> wa_balance st wid a - amt)\<rparr>"
proof -
  let ?l = "st\<lparr>wa_lock := Some True\<rparr>"
  from assms obtain st2 w1 st3 st4 where l: "wa_lock st \<noteq> Some True"
    and p: "pre_execute_checks cl wid a r amt c (?l, w) = Ok (st2, w1)"
    and v: "enforce_velocity env wid a amt st2 = Ok st3" and rt: "enforce_rate_limit env wid amt 1 st3 = Ok st4"
    and cu: "require_custody_funds tk env st4 wid a amt w1 = Ok ()" and d: "debit wid a amt st4 = Ok st'"
    and t: "safe_transfer tk w1 a (this_contract env) r amt = Ok w'"
    by (auto simp: outbound_def ok_simps)
  obtain es where es: "st2 = wa_emit es ?l" using pre_execute_checks_Ok [OF p] by metis
  obtain vm where vm: "st3 = st2\<lparr>wa_velocity_usage := vm\<rparr>" using enforce_velocity_frame [OF v] ..
  obtain rm where rm: "st4 = st3\<lparr>wa_rate_usage := rm\<rparr>" using enforce_rate_limit_frame [OF rt] ..
  have b: "wa_balances st4 = wa_balances st" using es vm rm by simp
  have pos: "0 < amt" and tr: "tk_transfer tk w1 a (this_contract env) r amt = TryOk w'"
    using t by (auto simp: safe_transfer_Ok)
  have le: "amt \<le> wa_balance st wid a" and st': "st' = st4\<lparr>wa_balances := (wa_balances st)((wid, a) \<mapsto> wa_balance st wid a - amt)\<rparr>"
    using d b by (auto simp: balance_ops_Ok wa_balance_def)
  show ?thesis
    by (rule that [OF pos le l _ tr]) (use p es vm rm st' in simp_all)
qed


section \<open>Custody\<close>

definition wallet_count :: "wallet_state \<Rightarrow> nat" where
  "wallet_count st = unwrap_or (wa_count st) 0"

definition tracked :: "wallet_state \<Rightarrow> address \<Rightarrow> int" where
  "tracked st a = (\<Sum>i\<le>wallet_count st. wa_balance st i a)"

definition wa_inv :: "wallet_state \<Rightarrow> bool" where
  "wa_inv st \<longleftrightarrow> (\<forall>i a v. wa_balances st (i, a) = Some v \<longrightarrow> 0 \<le> v \<and> wa_wallets st i \<noteq> None) \<and>
     (\<forall>i. wa_wallets st i \<noteq> None \<longrightarrow> i \<le> wallet_count st) \<and> (wa_admin st = None \<longrightarrow> wa_count st = None) \<and>
     wa_lock st \<noteq> Some True"

lemma wa_inv_nonneg: "wa_inv st \<Longrightarrow> 0 \<le> wa_balance st i a"
  by (cases "wa_balances st (i, a)") (auto simp: wa_inv_def wa_balance_def)

lemma wa_inv_fresh: "wa_inv st \<Longrightarrow> wallet_count st < i \<Longrightarrow> wa_balance st i a = 0"
  by (cases "wa_balances st (i, a)") (fastforce simp: wa_inv_def wa_balance_def)+

text \<open>The entrypoints that leave the balances, the counter and the set of wallets alone.\<close>

definition same_books :: "wallet_state \<Rightarrow> wallet_state \<Rightarrow> bool" where
  "same_books st st' \<longleftrightarrow> wa_balances st' = wa_balances st \<and> wa_count st' = wa_count st \<and>
     dom (wa_wallets st') = dom (wa_wallets st) \<and> wa_admin st' = wa_admin st \<and> wa_lock st' = wa_lock st"

lemma same_books_keeps:
  assumes "same_books st st'"
  shows "wa_inv st \<Longrightarrow> wa_inv st'" and "tracked st' a = tracked st a"
proof -
  have d: "wa_wallets st' i \<noteq> None \<longleftrightarrow> wa_wallets st i \<noteq> None" for i
    using assms by (auto simp: same_books_def dom_def set_eq_iff)
  show "wa_inv st \<Longrightarrow> wa_inv st'" using assms d by (auto simp: wa_inv_def same_books_def wallet_count_def)
  show "tracked st' a = tracked st a"
    using assms by (simp add: tracked_def same_books_def wallet_count_def wa_balance_def)
qed

lemma tracked_update:
  assumes "wa_balances st' = (wa_balances st)((i, a) \<mapsto> v)" and "wa_count st' = wa_count st" and "i \<le> wallet_count st"
  shows "tracked st' b = tracked st b + (if b = a then v - wa_balance st i a else 0)"
proof -
  have other: "wa_balance st' j b = wa_balance st j b" if "j \<noteq> i \<or> b \<noteq> a" for j
    using assms(1) that by (auto simp: wa_balance_def)
  have c: "wallet_count st' = wallet_count st" using assms(2) by (simp add: wallet_count_def)
  show ?thesis
  proof (cases "b = a")
    case True
    have "(\<Sum>j\<in>{..wallet_count st} - {i}. wa_balance st' j b) = (\<Sum>j\<in>{..wallet_count st} - {i}. wa_balance st j b)"
      using other by (intro sum.cong) auto
    moreover have "wa_balance st' i a = v" using assms(1) by (simp add: wa_balance_def)
    ultimately show ?thesis using True assms(3) c
      sum.remove [of "{..wallet_count st}" i "\<lambda>j. wa_balance st' j b"]
      sum.remove [of "{..wallet_count st}" i "\<lambda>j. wa_balance st j b"] by (simp add: tracked_def)
  next
    case False
    then show ?thesis using other c by (simp add: tracked_def)
  qed
qed


section \<open>Steps\<close>

text \<open>What the wallet relies on of the contracts it consults: none can take what it holds.\<close>

definition clients_keep :: "'w wallet_clients \<Rightarrow> ('w \<Rightarrow> address \<Rightarrow> address \<Rightarrow> int) \<Rightarrow> address \<Rightarrow> bool" where
  "clients_keep cl bal self \<longleftrightarrow>
     (\<forall>p i a r n w w' b. cl_check_transfer cl p i a r n w = CallOk w' \<longrightarrow> bal w b self \<le> bal w' b self) \<and>
     (\<forall>p c i n w m w' b. cl_consume cl p c i n w = CallOk (m, w') \<longrightarrow> bal w b self \<le> bal w' b self)"

inductive wa_config :: "wallet_state \<Rightarrow> wallet_state \<Rightarrow> bool" where
  "set_guardian env c g st = Ok (u, st') \<Longrightarrow> wa_config st st'"
| "emergency_pause env c st = Ok (u, st') \<Longrightarrow> wa_config st st'"
| "emergency_unpause env c st = Ok (u, st') \<Longrightarrow> wa_config st st'"
| "set_policy env c p st = Ok (u, st') \<Longrightarrow> wa_config st st'"
| "clear_policy env c st = Ok (u, st') \<Longrightarrow> wa_config st st'"
| "set_policy_bypass env c i b st = Ok (u, st') \<Longrightarrow> wa_config st st'"
| "set_velocity_limit env c i a n s st = Ok (u, st') \<Longrightarrow> wa_config st st'"
| "clear_velocity_limit env c i a st = Ok (u, st') \<Longrightarrow> wa_config st st'"
| "set_rate_limit env c i v n s st = Ok (u, st') \<Longrightarrow> wa_config st st'"
| "clear_rate_limit env c i st = Ok (u, st') \<Longrightarrow> wa_config st st'"
| "set_budget env c b st = Ok (u, st') \<Longrightarrow> wa_config st st'"
| "set_registry env c r st = Ok (u, st') \<Longrightarrow> wa_config st st'"
| "set_org env c og st = Ok (u, st') \<Longrightarrow> wa_config st st'"
| "set_default_budget_id env c b st = Ok (u, st') \<Longrightarrow> wa_config st st'"
| "clear_default_budget_id env c st = Ok (u, st') \<Longrightarrow> wa_config st st'"
| "set_asset_budget_id env c a b st = Ok (u, st') \<Longrightarrow> wa_config st st'"
| "clear_asset_budget_id env c a st = Ok (u, st') \<Longrightarrow> wa_config st st'"
| "grant_role env c i ac r st = Ok (u, st') \<Longrightarrow> wa_config st st'"
| "revoke_role env c i ac st = Ok (u, st') \<Longrightarrow> wa_config st st'"
| "wa_freeze env c i st = Ok (u, st') \<Longrightarrow> wa_config st st'"
| "wa_unfreeze env c i st = Ok (u, st') \<Longrightarrow> wa_config st st'"
| "wa_pause env c i st = Ok (u, st') \<Longrightarrow> wa_config st st'"
| "wa_unpause env c i st = Ok (u, st') \<Longrightarrow> wa_config st st'"
| "wa_archive env c i st = Ok (u, st') \<Longrightarrow> wa_config st st'"

inductive wa_step ::
  "'w token_api \<Rightarrow> 'w wallet_clients \<Rightarrow> ('w \<Rightarrow> address \<Rightarrow> address \<Rightarrow> int) \<Rightarrow> address \<Rightarrow>
   wallet_state \<times> 'w \<Rightarrow> wallet_state \<times> 'w \<Rightarrow> bool"
  for tk cl bal self where
  wst_world: "(\<And>a. bal w a self \<le> bal w' a self) \<Longrightarrow> wa_step tk cl bal self (st, w) (st, w')"
| wst_config: "wa_config st st' \<Longrightarrow> wa_step tk cl bal self (st, w) (st', w)"
| wst_initialize: "wa_initialize ad st = Ok (u, st') \<Longrightarrow> wa_step tk cl bal self (st, w) (st', w)"
| wst_create: "\<lbrakk>create_wallet env ow st = Ok (i, st'); wallet_count st < u64_max\<rbrakk>
    \<Longrightarrow> wa_step tk cl bal self (st, w) (st', w)"
| wst_deposit: "\<lbrakk>wa_deposit tk env i f a n (st, w) = Ok (u, st', w'); this_contract env = self; \<not> authorized env self\<rbrakk>
    \<Longrightarrow> wa_step tk cl bal self (st, w) (st', w')"
| wst_transfer: "\<lbrakk>wa_transfer tk cl env c i r a n (st, w) = Ok (u, st', w'); this_contract env = self\<rbrakk>
    \<Longrightarrow> wa_step tk cl bal self (st, w) (st', w')"
| wst_withdraw: "\<lbrakk>wa_withdraw tk cl env c i a n (st, w) = Ok (u, st', w'); this_contract env = self\<rbrakk>
    \<Longrightarrow> wa_step tk cl bal self (st, w) (st', w')"

lemma wallet_role_Ok:
  "require_wallet_role env st i c r = Ok d \<Longrightarrow> wa_wallets st i = Some d \<and> authorized env c \<and>
     (\<exists>q. effective_role st i (wd_owner d) c = Some q \<and> role_satisfies q r)"
  "require_wallet_role_or_admin env st i c r = Ok d \<Longrightarrow> wa_wallets st i = Some d"
  by (auto simp: require_wallet_role_def require_wallet_role_or_admin_def require_role_def ok_simps
      split: option.splits if_splits)

lemma wa_config_books: "wa_config st st' \<Longrightarrow> same_books st st'"
  by (induction rule: wa_config.induct)
     (auto simp: same_books_def set_guardian_def emergency_pause_def emergency_unpause_def set_policy_def clear_policy_def
       set_policy_bypass_def set_velocity_limit_def clear_velocity_limit_def set_rate_limit_def clear_rate_limit_def
       set_budget_def set_registry_def set_org_def set_default_budget_id_def clear_default_budget_id_def
       set_asset_budget_id_def clear_asset_budget_id_def grant_role_def set_role_def revoke_role_def clear_role_def
       wa_freeze_def wa_unfreeze_def wa_pause_def wa_unpause_def wa_archive_def emit_state_def store_wallet_def
       wa_emit_def ok_simps Let_def dest!: wallet_role_Ok split: if_splits)


definition wa_custody ::
  "'w token_api \<Rightarrow> 'w wallet_clients \<Rightarrow> ('w \<Rightarrow> address \<Rightarrow> address \<Rightarrow> int) \<Rightarrow> address \<Rightarrow> 'w \<Rightarrow> wallet_state \<times> 'w \<Rightarrow> bool" where
  "wa_custody tk cl bal self w0 s \<longleftrightarrow> wa_inv (fst s) \<and>
     (token_laws tk bal \<longrightarrow> clients_keep cl bal self \<longrightarrow>
       (\<forall>a. bal w0 a self + tracked (fst s) a \<le> bal (snd s) a self))"

text \<open>A step keeps the invariant, and what the contract holds beyond the tracked sum never shrinks.\<close>

definition wa_ok_step where
  "wa_ok_step tk cl bal self st w st' w' \<longleftrightarrow> wa_inv st' \<and> (token_laws tk bal \<longrightarrow> clients_keep cl bal self \<longrightarrow>
     (\<forall>a. bal w a self - tracked st a \<le> bal w' a self - tracked st' a))"

lemma pre_execute_checks_keeps:
  assumes "pre_execute_checks cl wid a r amt c (st, w) = Ok (st', w')" and "clients_keep cl bal self"
  shows "bal w x self \<le> bal w' x self"
proof -
  obtain w1 pa ba where
    p: "case pa of Some p \<Rightarrow> if get_policy_bypass st wid then w1 = w
           else cl_check_transfer cl p ''active'' a r amt w = CallOk w1 | None \<Rightarrow> w1 = w"
    and b: "case ba of Some b \<Rightarrow> (case budget_id_for st a of Some i \<Rightarrow> \<exists>n. cl_consume cl b c i amt w1 = CallOk (n, w') | None \<Rightarrow> w' = w1)
           | None \<Rightarrow> w' = w1"
    by (rule pre_execute_checks_Ok [OF assms(1)])
  have "bal w x self \<le> bal w1 x self"
    using p assms(2) by (auto simp: clients_keep_def split: option.splits if_splits)
  also have "\<dots> \<le> bal w' x self"
    using b assms(2) by (auto simp: clients_keep_def split: option.splits)
  finally show ?thesis .
qed

lemma outbound_step:
  assumes "outbound tk cl env c i r a n (st, w) = Ok (st1, w')" and "wa_inv st" and "wa_wallets st i \<noteq> None"
    and "this_contract env = self" and "st' = unlock (wa_emit es st1)"
  shows "wa_ok_step tk cl bal self st w st' w'"
proof -
  obtain es' vm rm w1 where o: "0 < n" "n \<le> wa_balance st i a"
    "pre_execute_checks cl i a r n c (st\<lparr>wa_lock := Some True\<rparr>, w) = Ok (wa_emit es' (st\<lparr>wa_lock := Some True\<rparr>), w1)"
    "tk_transfer tk w1 a self r n = TryOk w'"
    "st1 = (wa_emit es' (st\<lparr>wa_lock := Some True\<rparr>))\<lparr>wa_velocity_usage := vm, wa_rate_usage := rm,
       wa_balances := (wa_balances st)((i, a) \<mapsto> wa_balance st i a - n)\<rparr>"
    using outbound_Ok [OF assms(1)] assms(4) by metis
  have b: "wa_balances st' = (wa_balances st)((i, a) \<mapsto> wa_balance st i a - n)" "wa_count st' = wa_count st"
    "wa_wallets st' = wa_wallets st" "wa_admin st' = wa_admin st" "wa_lock st' = Some False"
    using assms(5) o(5) by simp_all
  have inv: "wa_inv st'" using assms(2,3) b o(2) by (auto simp: wa_inv_def wallet_count_def)
  have i: "i \<le> wallet_count st" using assms(2,3) by (auto simp: wa_inv_def)
  have "bal w x self - tracked st x \<le> bal w' x self - tracked st' x"
    if t: "token_laws tk bal" and k: "clients_keep cl bal self" for x
  proof -
    have "bal w x self \<le> bal w1 x self"
      by (rule pre_execute_checks_keeps [OF o(3) k])
    moreover have "bal w1 x self - (if x = a then n else 0) \<le> bal w' x self"
      using token_laws_transfer [OF t o(4)] o(1) by (auto simp: moved_def)
    moreover have "tracked st' x = tracked st x - (if x = a then n else 0)"
      using tracked_update [OF b(1,2) i, of x] by simp
    ultimately show ?thesis by linarith
  qed
  with inv show ?thesis by (simp add: wa_ok_step_def)
qed

lemma wallet_deposit_step:
  assumes "wa_deposit tk env i f a n (st, w) = Ok (u, st', w')" and "wa_inv st"
    and "this_contract env = self" and "\<not> authorized env self"
  shows "wa_ok_step tk cl bal self st w st' w'"
proof -
  from assms(1,3) obtain d st1 where d: "0 < n" "authorized env f" "wa_wallets st i = Some d"
    "tk_transfer tk w a f self n = TryOk w'" "credit i a n st = Ok st1" "st' = wa_emit [WeFunded i f a n] st1"
    by (auto simp: wa_deposit_def ok_simps)
  have b: "wa_balances st' = (wa_balances st)((i, a) \<mapsto> wa_balance st i a + n)" "wa_count st' = wa_count st"
    "wa_wallets st' = wa_wallets st" "wa_admin st' = wa_admin st" "wa_lock st' = wa_lock st"
    using d(5,6) by (simp_all add: balance_ops_Ok)
  have inv: "wa_inv st'" using assms(2) d b wa_inv_nonneg [OF assms(2), of i a] by (auto simp: wa_inv_def wallet_count_def)
  have i: "i \<le> wallet_count st" using assms(2) d(3) by (auto simp: wa_inv_def)
  have "f \<noteq> self" using d(2) assms(4) by auto
  then have "bal w x self - tracked st x \<le> bal w' x self - tracked st' x" if "token_laws tk bal" for x
    using token_laws_transfer [OF that d(4)] tracked_update [OF b(1,2) i, of x] by (auto simp: moved_def)
  with inv show ?thesis by (simp add: wa_ok_step_def)
qed

lemma wallet_create_step:
  assumes "create_wallet env ow st = Ok (i, st')" and "wa_inv st" and "wallet_count st < u64_max"
  shows "wa_ok_step tk cl bal self st w st' w"
proof -
  from assms(1) obtain n where n: "wa_count st = Some n" "i = as_u64 (int n + 1)"
    and st': "st' = wa_emit [WeCreated i ow] (st\<lparr>wa_wallets := (wa_wallets st)(i \<mapsto> \<lparr>wd_owner = ow, wd_state = Active\<rparr>), wa_count := Some i\<rparr>)"
    by (auto simp: create_wallet_def ok_simps Let_def)
  have "as_u64 (int (Suc n)) = Suc n" using assms(3) n(1) by (intro as_u64_int) (simp add: wallet_count_def)
  then have i: "i = Suc n" using n(2) by (simp add: add.commute)
  have c: "wallet_count st = n" "wallet_count st' = Suc n" using n st' i by (simp_all add: wallet_count_def)
  have inv: "wa_inv st'" using assms(2) st' c i n by (auto simp: wa_inv_def le_Suc_eq)
  have "tracked st' x = tracked st x + wa_balance st (Suc n) x" for x
    using c st' by (simp add: tracked_def wa_balance_def)
  then have "tracked st' x = tracked st x" for x using wa_inv_fresh [OF assms(2), of "Suc n" x] c by simp
  with inv show ?thesis by (simp add: wa_ok_step_def)
qed

lemma wa_step_ok:
  assumes "wa_step tk cl bal self (st, w) (st', w')" and "wa_inv st"
  shows "wa_ok_step tk cl bal self st w st' w'"
  using assms
proof (cases rule: wa_step.cases)
  case wst_world
  then show ?thesis using assms(2) by (simp add: wa_ok_step_def)
next
  case wst_config
  then show ?thesis using same_books_keeps [OF wa_config_books] assms(2) by (auto simp: wa_ok_step_def)
next
  case (wst_initialize ad u)
  then have "wa_admin st = None" "wa_balances st' = wa_balances st" "wa_wallets st' = wa_wallets st" "wa_count st' = Some 0"
    "wa_lock st' = wa_lock st" "wa_admin st' \<noteq> None"
    by (auto simp: wa_initialize_def split: if_splits)
  moreover from this assms(2) have "wallet_count st = 0" by (simp add: wa_inv_def wallet_count_def)
  ultimately show ?thesis using assms(2) wst_initialize
    by (auto simp: wa_ok_step_def wa_inv_def tracked_def wallet_count_def wa_balance_def)
next
  case (wst_create env ow i)
  then show ?thesis using wallet_create_step [OF _ assms(2)] by simp
next
  case (wst_deposit env i f a n u)
  then show ?thesis using wallet_deposit_step [OF _ assms(2)] by simp
next
  case (wst_transfer env c i r a n u)
  then obtain st1 d where x: "outbound tk cl env c i r a n (st, w) = Ok (st1, w')" "wa_wallets st i = Some d"
    "st' = unlock (wa_emit [WeTransfer (this_contract env) r a n] st1)"
    by (auto simp: wa_transfer_def ok_simps dest!: wallet_role_Ok)
  from outbound_step [OF x(1) assms(2) _ wst_transfer(2) x(3)] x(2) show ?thesis by simp
next
  case (wst_withdraw env c i a n u)
  then obtain st1 d where x: "outbound tk cl env c i (wd_owner d) a n (st, w) = Ok (st1, w')" "wa_wallets st i = Some d"
    "st' = unlock (wa_emit [WeWithdrawn i (wd_owner d) a n] st1)"
    by (auto simp: wa_withdraw_def ok_simps dest!: wallet_role_Ok)
  from outbound_step [OF x(1) assms(2) _ wst_withdraw(2) x(3)] x(2) show ?thesis by simp
qed

interpretation wallet_sys: invariant_system "\<lambda>s. s = (wallet_empty, w0)" "wa_step tk cl bal self"
    "wa_custody tk cl bal self w0"
  for tk :: "'w token_api" and cl bal self w0
proof
  show "s = (wallet_empty, w0) \<Longrightarrow> wa_custody tk cl bal self w0 s" for s
    by (auto simp: wa_custody_def wa_inv_def wallet_empty_def tracked_def wallet_count_def wa_balance_def)
next
  fix s t assume c: "wa_custody tk cl bal self w0 s" and e: "wa_step tk cl bal self s t"
  obtain st w st' w' where s: "s = (st, w)" "t = (st', w')" by (metis surj_pair)
  then have ok: "wa_ok_step tk cl bal self st w st' w'" using wa_step_ok [of tk cl bal self st w st' w'] e c
    by (simp add: wa_custody_def)
  have "bal w0 a self + tracked st' a \<le> bal w' a self" if "token_laws tk bal" "clients_keep cl bal self" for a
    using ok that c s by (auto simp: wa_custody_def wa_ok_step_def dest!: spec [of _ a])
  then show "wa_custody tk cl bal self w0 t" using ok s by (simp add: wa_custody_def wa_ok_step_def)
qed

end
