(* ===== verification/Wallet_Safety.thy ===== *)
theory Wallet_Safety
  imports Wallet_Runs
begin

text \<open>
  The properties of the wallet contract: the velocity ceiling over time, the batch cache, custody of
  the tracked balances, the exact effect of a transfer, the circuit breaker, and the batch that
  spends past the bookkeeping.
\<close>

section \<open>A concrete run\<close>

text \<open>Accounts 1 and 2 own wallets 1 and 2 of the contract at address 9; token 7 is a plain ledger.\<close>

definition wdemo_env :: "u64 \<Rightarrow> env" where
  "wdemo_env t = \<lparr>timestamp = t, sequence = 1, this_contract = 9, authorized = (\<lambda>a. a = 1 \<or> a = 2),
     authorized_args = (\<lambda>_ _. False)\<rparr>"

definition wdemo_world :: "address \<Rightarrow> address \<Rightarrow> int" where
  "wdemo_world t x = (if x = 1 then 1000 else 0)"

definition wdemo_clients :: "(address \<Rightarrow> address \<Rightarrow> int) wallet_clients" where
  "wdemo_clients = \<lparr>cl_check_transfer = (\<lambda>_ _ _ _ _ w. CallOk w), cl_consume = (\<lambda>_ _ _ _ _. CallInvoke),
     cl_modules_batch = (\<lambda>_ _ _. CallInvoke)\<rparr>"

definition wdemo_state :: "wallet_event list \<Rightarrow> (u64 \<times> address \<rightharpoonup> i128) \<Rightarrow> wallet_state" where
  "wdemo_state es bals = wallet_empty\<lparr>wa_admin := Some 1, wa_guardian := Some 1, wa_paused := Some False,
     wa_count := Some 2, wa_wallets := [1 \<mapsto> \<lparr>wd_owner = 1, wd_state = Active\<rparr>, 2 \<mapsto> \<lparr>wd_owner = 2, wd_state = Active\<rparr>],
     wa_balances := bals, wa_events := es\<rparr>"

lemma wdemo_env_sel [simp]:
  "timestamp (wdemo_env t) = t" "this_contract (wdemo_env t) = 9"
  "authorized (wdemo_env t) a \<longleftrightarrow> a = 1 \<or> a = 2"
  by (simp_all add: wdemo_env_def)

lemma wdemo_state_sel [simp]:
  "wa_paused (wdemo_state es b) = Some False" "wa_lock (wdemo_state es b) = None" "wa_roles (wdemo_state es b) = Map.empty"
  "wa_wallets (wdemo_state es b) = [1 \<mapsto> \<lparr>wd_owner = 1, wd_state = Active\<rparr>, 2 \<mapsto> \<lparr>wd_owner = 2, wd_state = Active\<rparr>]"
  "wa_balances (wdemo_state es b) = b" "wa_velocity_limit (wdemo_state es b) = Map.empty"
  "wa_rate_limit (wdemo_state es b) = Map.empty" "wa_registry (wdemo_state es b) = None" "wa_policy (wdemo_state es b) = None"
  "wa_budget (wdemo_state es b) = None" "wa_count (wdemo_state es b) = Some 2"
  by (simp_all add: wdemo_state_def wallet_empty_def)

abbreviation wdemo_reach :: "wallet_state \<times> (address \<Rightarrow> address \<Rightarrow> int) \<Rightarrow> bool" where
  "wdemo_reach \<equiv> reach (\<lambda>s. s = (wallet_empty, wdemo_world)) (wa_step ledger_token wdemo_clients (\<lambda>w. w) 9)"

lemma wdemo_step: "wdemo_reach s \<Longrightarrow> wa_step ledger_token wdemo_clients (\<lambda>w. w) 9 s t \<Longrightarrow> wdemo_reach t"
  by (rule reach_step)

lemma wdemo_two_wallets: "wdemo_reach (wdemo_state [WeCreated 1 1, WeCreated 2 2] Map.empty, wdemo_world)"
proof -
  let ?s0 = "wallet_empty\<lparr>wa_admin := Some 1, wa_guardian := Some 1, wa_count := Some 0, wa_paused := Some False\<rparr>"
  let ?s1 = "?s0\<lparr>wa_wallets := [1 \<mapsto> \<lparr>wd_owner = 1, wd_state = Active\<rparr>], wa_count := Some 1, wa_events := [WeCreated 1 1]\<rparr>"
  have u: "as_u64 1 = 1" "as_u64 2 = 2" using as_u64_int [of 1] as_u64_int [of 2] by (simp_all add: int_limits)
  have a: "wa_initialize 1 wallet_empty = Ok ((), ?s0)" by (simp add: wa_initialize_def wallet_empty_def)
  have b: "create_wallet (wdemo_env 0) 1 ?s0 = Ok (1, ?s1)"
    by (simp add: create_wallet_def when_not_paused_def paused_def require_auth_def safe_add_def in_i128_def int_limits
        u wa_emit_def wallet_empty_def)
  have c: "create_wallet (wdemo_env 0) 2 ?s1 = Ok (2, wdemo_state [WeCreated 1 1, WeCreated 2 2] Map.empty)"
    by (simp add: create_wallet_def when_not_paused_def paused_def require_auth_def safe_add_def in_i128_def int_limits
        u wa_emit_def wallet_empty_def wdemo_state_def)
  have i: "wdemo_reach (wallet_empty, wdemo_world)" by (rule reach_init) (rule refl)
  show ?thesis
    by (rule wdemo_step [OF wdemo_step [OF wdemo_step [OF i wst_initialize [OF a]] wst_create [OF b]] wst_create [OF c]])
       (simp_all add: wallet_count_def int_limits)
qed

lemma wdemo_funded:
  "\<exists>es. wdemo_reach (wdemo_state es [(1, 7) \<mapsto> 100], moved wdemo_world 7 1 9 100)"
proof -
  have d: "wa_deposit ledger_token (wdemo_env 5) 1 1 7 100 (wdemo_state es Map.empty, wdemo_world)
      = Ok ((), wdemo_state (es @ [WeFunded 1 1 7 100]) [(1, 7) \<mapsto> 100], moved wdemo_world 7 1 9 100)" for es
    by (simp add: wa_deposit_def require_positive_amount_def require_auth_def load_wallet_def token_transfer_def
        ledger_token_def wdemo_world_def credit_def safe_add_def in_i128_def int_limits wa_emit_def,
        simp add: wdemo_state_def)
  show ?thesis by (rule exI, rule wdemo_step [OF wdemo_two_wallets wst_deposit [OF d]]) simp_all
qed

lemma wdemo_clients_keep: "clients_keep wdemo_clients (\<lambda>w. w) 9"
  by (simp add: clients_keep_def wdemo_clients_def)

text \<open>A token called by the contract itself, which the host counts as authorised by it.\<close>

definition token_target :: "address \<Rightarrow> (address \<Rightarrow> address \<Rightarrow> int) call_target" where
  "token_target self call w =
     (case cc_args call of
        [SvAddress f, SvAddress t, SvI128 n] \<Rightarrow>
          if cc_fn_name call = ''transfer'' \<and> f = self
          then (case tk_transfer ledger_token w (cc_contract call) f t n of TryOk w' \<Rightarrow> TargetOk w' | _ \<Rightarrow> TargetAbort)
          else TargetAbort
      | _ \<Rightarrow> TargetAbort)"

section \<open>The effect of a transfer\<close>

lemma transfer_effect:
  assumes "wa_transfer tk cl env c wid to_a a n (st, w) = Ok ((), st', w')"
  shows "0 < n \<and> n \<le> wa_balance st wid a \<and> authorized env c \<and> \<not> paused st \<and> to_a \<noteq> this_contract env \<and>
     (\<exists>d q. wa_wallets st wid = Some d \<and> wd_state d = Active \<and>
            effective_role st wid (wd_owner d) c = Some q \<and> q \<noteq> Auditor) \<and>
     (\<forall>i b. wa_balance st' i b = wa_balance st i b - (if i = wid \<and> b = a then n else 0)) \<and>
     (\<exists>pa ba w1 w2. resolve_gates cl st w = Ok (pa, ba) \<and>
       (case pa of Some p \<Rightarrow> if get_policy_bypass st wid then w1 = w
          else cl_check_transfer cl p ''active'' a to_a n w = CallOk w1 | None \<Rightarrow> w1 = w) \<and>
       (case ba of Some b \<Rightarrow> (case budget_id_for st a of Some i \<Rightarrow> \<exists>m. cl_consume cl b c i n w1 = CallOk (m, w2) | None \<Rightarrow> w2 = w1)
          | None \<Rightarrow> w2 = w1) \<and>
       tk_transfer tk w2 a (this_contract env) to_a n = TryOk w')"
proof -
  let ?l = "st\<lparr>wa_lock := Some True\<rparr>"
  from assms obtain d st1 where g: "\<not> paused st" "require_wallet_role env st wid c Agent = Ok d" "wd_state d = Active"
    "to_a \<noteq> this_contract env" and o: "outbound tk cl env c wid to_a a n (st, w) = Ok (st1, w')"
    and st': "st' = unlock (wa_emit [WeTransfer (this_contract env) to_a a n] st1)"
    by (auto simp: wa_transfer_def ok_simps)
  obtain q where role: "wa_wallets st wid = Some d" "authorized env c" "effective_role st wid (wd_owner d) c = Some q"
    "role_satisfies q Agent" using wallet_role_Ok(1) [OF g(2)] by blast
  then have q: "q \<noteq> Auditor" by (auto simp: role_satisfies_def role_rank_def)
  obtain es vm rm w2 where out: "0 < n" "n \<le> wa_balance st wid a"
    "pre_execute_checks cl wid a to_a n c (?l, w) = Ok (wa_emit es ?l, w2)"
    "tk_transfer tk w2 a (this_contract env) to_a n = TryOk w'"
    "st1 = (wa_emit es ?l)\<lparr>wa_velocity_usage := vm, wa_rate_usage := rm,
       wa_balances := (wa_balances st)((wid, a) \<mapsto> wa_balance st wid a - n)\<rparr>"
    by (rule outbound_Ok [OF o])
  obtain pa ba w1 where gates: "resolve_gates cl ?l w = Ok (pa, ba)"
    "case pa of Some p \<Rightarrow> if get_policy_bypass ?l wid then w1 = w
       else cl_check_transfer cl p ''active'' a to_a n w = CallOk w1 | None \<Rightarrow> w1 = w"
    "case ba of Some b \<Rightarrow> (case budget_id_for ?l a of Some i \<Rightarrow> \<exists>m. cl_consume cl b c i n w1 = CallOk (m, w2) | None \<Rightarrow> w2 = w1)
       | None \<Rightarrow> w2 = w1"
    by (rule pre_execute_checks_Ok [OF out(3)])
  have same: "resolve_gates cl ?l w = resolve_gates cl st w" "get_policy_bypass ?l wid = get_policy_bypass st wid"
    "budget_id_for ?l a = budget_id_for st a"
    by (simp_all add: resolve_gates_def get_policy_bypass_def budget_id_for_def cong: option.case_cong)
  have "\<forall>i b. wa_balance st' i b = wa_balance st i b - (if i = wid \<and> b = a then n else 0)"
    using st' out(5) by (simp add: wa_balance_def)
  moreover note gates [unfolded same]
  ultimately show ?thesis using g role q out(1,2,4) by blast
qed

section \<open>Properties\<close>

text \<open>C3. The contract can always pay what the wallets own: after any run of the entrypoints other than
  validated batches, in any order and by any callers, the tokens the contract holds of every asset
  cover its initial holdings plus the sum of all tracked wallet balances.\<close>

theorem wallets_fully_backed:
  assumes "reach (\<lambda>s. s = (wallet_empty, w0)) (wa_step tk cl bal self) (st, w)"
    and "token_laws tk bal" and "clients_keep cl bal self"
  shows "bal w0 a self + tracked st a \<le> bal w a self \<and> (\<forall>i. 0 \<le> wa_balance st i a)"
  using wallet_sys.reach_inv [OF assms(1)] assms(2,3) wa_inv_nonneg by (auto simp: wa_custody_def)

theorem wallets_fully_backed_witness:
  "\<exists>st w. wdemo_reach (st, w) \<and> tracked st 7 = 100 \<and> 100 \<le> w 7 9"
proof -
  obtain es where r: "wdemo_reach (wdemo_state es [(1, 7) \<mapsto> 100], moved wdemo_world 7 1 9 100)" using wdemo_funded ..
  have t: "tracked (wdemo_state es [(1, 7) \<mapsto> 100]) 7 = 100"
    by (simp add: tracked_def wallet_count_def wa_balance_def numeral_2_eq_2)
  from wallets_fully_backed [OF r ledger_token_laws wdemo_clients_keep, of 7] r t show ?thesis
    by (intro exI [of _ "wdemo_state es [(1, 7) \<mapsto> 100]"] exI [of _ "moved wdemo_world 7 1 9 100"])
       (simp add: wdemo_world_def)
qed

text \<open>C7. The velocity ceiling holds over time: for one wallet and asset under one ceiling, any
  consecutive spends whose times lie less than three quarters of the window apart sum to at most the
  ceiling, whatever else happens between them.\<close>

theorem velocity_window_bound:
  assumes "velocity_run wid a lim st h" and "j < length h"
    and "fst (h ! j) - fst (h ! i) < 3 * (vl_window_seconds lim div 4)"
  shows "(\<Sum>k\<in>{i..j}. snd (h ! k)) \<le> vl_max_amount lim"
  by (rule velocity_inv_span [OF velocity_run_inv [OF assms(1)] assms(2,3)])

theorem velocity_window_bound_witness:
  "\<exists>st. velocity_run 1 7 \<lparr>vl_max_amount = 100, vl_window_seconds = 40\<rparr> st [(0, 60), (25, 40)] \<and> (60 :: int) + 40 \<le> 100"
proof -
  let ?lim = "\<lparr>vl_max_amount = 100, vl_window_seconds = 40\<rparr>"
  let ?s0 = "wallet_empty\<lparr>wa_velocity_limit := [(1, 7) \<mapsto> ?lim]\<rparr>"
  let ?s1 = "?s0\<lparr>wa_velocity_usage := [(1, 7) \<mapsto> \<lparr>vu_bucket = 0, vu_spent = [60, 0, 0, 0]\<rparr>]\<rparr>"
  let ?s2 = "?s0\<lparr>wa_velocity_usage := [(1, 7) \<mapsto> \<lparr>vu_bucket = 2, vu_spent = [40, 0, 60, 0]\<rparr>]\<rparr>"
  have four: "[0..<4] = [0, 1, 2, 3 :: nat]" "replicate 4 (0 :: int) = [0, 0, 0, 0]"
    by (simp add: upt_rec, simp add: numeral_eq_Suc)
  have two: "{0..1 :: nat} = {0, 1}" by auto
  have e: "enforce_velocity (wdemo_env 0) 1 7 60 ?s0 = Ok ?s1" "enforce_velocity (wdemo_env 25) 1 7 40 ?s1 = Ok ?s2"
    by (simp_all add: enforce_velocity_eq rolled_velocity_usage_def VELOCITY_BUCKETS_def charge_def velocity_total_def
        safe_add_def get_or_zero_def in_i128_def int_limits shift_buckets_4 four Let_def wallet_empty_def)
  have "velocity_run 1 7 ?lim ?s0 []" by (rule vr_start) (simp_all add: wallet_empty_def)
  from vr_charge [OF vr_charge [OF this e(1)] e(2)]
  have r: "velocity_run 1 7 ?lim ?s2 [(0, 60), (25, 40)]" by simp
  from velocity_window_bound [OF r, of 1 0] show ?thesis
    using r by (intro exI [of _ ?s2]) (simp add: two)
qed

text \<open>The batch cache changes nothing: charging a list of spends through one cache and writing it
  back once gives the same final state, the same error or the same trap as charging every spend on
  its own.\<close>

theorem batch_cache_agrees:
  "rbind (gate_all env st wid xs []) (\<lambda>es. Ok (gate_flush wid es st)) = charge_all env wid xs st"
  using gate_all_charge_all [of env st wid "[]" xs] by (simp add: gate_ok_def)

text \<open>C23. The exact effect of a transfer: it succeeds only for an authenticated caller who owns the
  wallet or holds a role above auditor, on an active wallet, outside the emergency pause, to a foreign
  recipient, for a positive amount the wallet owns; where a policy is resolved for the call and the wallet has no
  policy bypass, that policy has accepted exactly this transfer, and where a budget is resolved and the asset has a
  budget id, that budget has been charged exactly this amount (a bypass skips the policy alone, and an asset
  without a budget id is not charged); it reduces exactly that one balance and moves exactly that amount.\<close>

theorem transfer_exact:
  assumes "wa_transfer tk cl env c wid to_a a n (st, w) = Ok ((), st', w')" and "token_laws tk bal"
  shows "0 < n \<and> n \<le> wa_balance st wid a \<and> authorized env c \<and> \<not> paused st \<and> to_a \<noteq> this_contract env \<and>
     (\<exists>d q. wa_wallets st wid = Some d \<and> wd_state d = Active \<and>
            effective_role st wid (wd_owner d) c = Some q \<and> q \<noteq> Auditor) \<and>
     (\<forall>i b. wa_balance st' i b = wa_balance st i b - (if i = wid \<and> b = a then n else 0)) \<and>
     (\<exists>pa ba w1 w2. resolve_gates cl st w = Ok (pa, ba) \<and>
       (case pa of Some p \<Rightarrow> if get_policy_bypass st wid then w1 = w
          else cl_check_transfer cl p ''active'' a to_a n w = CallOk w1 | None \<Rightarrow> w1 = w) \<and>
       (case ba of Some b \<Rightarrow> (case budget_id_for st a of Some i \<Rightarrow> \<exists>m. cl_consume cl b c i n w1 = CallOk (m, w2) | None \<Rightarrow> w2 = w1)
          | None \<Rightarrow> w2 = w1) \<and>
       bal w' = moved (bal w2) a (this_contract env) to_a n)"
  using transfer_effect [OF assms(1)] token_laws_transfer [OF assms(2)] by blast

theorem transfer_exact_witness:
  "\<exists>st w st' w'. wdemo_reach (st, w) \<and> wa_transfer ledger_token wdemo_clients (wdemo_env 6) 1 1 5 7 40 (st, w) = Ok ((), st', w') \<and>
     wa_balance st' 1 7 = 60 \<and> w' 7 5 = 40"
proof -
  let ?w = "moved wdemo_world 7 1 9 100" and ?st = "\<lambda>es. wdemo_state es [(1, 7) \<mapsto> 100]"
  obtain es where r: "wdemo_reach (?st es, ?w)" using wdemo_funded ..
  obtain st' where x: "wa_transfer ledger_token wdemo_clients (wdemo_env 6) 1 1 5 7 40 (?st es, ?w)
      = Ok ((), st', moved ?w 7 9 5 40)"
    by (simp add: wa_transfer_def require_positive_amount_def when_not_paused_def paused_def require_wallet_role_def
        require_auth_def load_wallet_def require_role_def effective_role_def role_satisfies_def role_rank_def
        require_active_for_transfer_def validate_transfer_recipient_def zero_address_def outbound_def lock_def
        pre_execute_checks_def resolve_gates_def enforce_velocity_eq enforce_rate_limit_def require_custody_funds_def
        validate_sufficient_balance_def sac_balance_def token_balance_def ledger_token_def debit_def safe_sub_def
        safe_transfer_def validate_transfer_amount_def checked_balance_add_def in_i128_def int_limits moved_def wdemo_world_def)
  from transfer_exact [OF x ledger_token_laws] have "wa_balance st' 1 7 = 60"
    by (simp add: wa_balance_def)
  with r x show ?thesis
    by (intro exI [of _ "?st es"] exI [of _ ?w] exI [of _ st'] exI [of _ "moved ?w 7 9 5 40"])
       (simp add: moved_def wdemo_world_def)
qed

text \<open>The circuit breaker stops every outflow: while it is tripped no transfer, no withdrawal, no
  batch and no creation of a wallet succeeds, each reporting the pause, and only the admin resets it.\<close>

theorem breaker_stops_outflow:
  assumes "paused st" and "0 < n"
  shows "wa_transfer tk cl env c wid to_a a n (st, w) = Err WalletPaused \<and>
     wa_withdraw tk cl env c wid a n (st, w) = Err WalletPaused \<and>
     batch_execute_validated cl invk env c wid acts (st, w) = Err WalletPaused \<and>
     create_wallet env c st = Err WalletPaused \<and>
     (emergency_unpause env c st = Ok (u, st') \<longrightarrow> wa_admin st = Some c \<and> authorized env c)"
  using assms by (auto simp: wa_transfer_def wa_withdraw_def batch_execute_validated_def create_wallet_def
      when_not_paused_def require_positive_amount_def emergency_unpause_def wa_require_admin_def ok_simps)


theorem breaker_stops_outflow_witness:
  "wa_transfer ledger_token wdemo_clients (wdemo_env 6) 1 1 5 7 40
     (wdemo_state [] [(1, 7) \<mapsto> 100]\<lparr>wa_paused := Some True\<rparr>, wdemo_world) = Err WalletPaused"
  using breaker_stops_outflow [of "wdemo_state [] [(1, 7) \<mapsto> 100]\<lparr>wa_paused := Some True\<rparr>" 40 ledger_token wdemo_clients
      "wdemo_env 6" 1 1 5 7 wdemo_world] by (simp add: paused_def)

text \<open>C24. A validated batch spends past the bookkeeping: its calls run with the contract's own authority
  and debit no wallet, so the owner of an empty wallet can have the contract pay out what another
  wallet deposited. Wallet 2 owns nothing, its owner batches one token transfer without policy or
  budget id, and afterwards the contract holds nothing while wallet 1 still shows its 100.\<close>

theorem batch_drains_other_wallets:
  "\<exists>st w r st' w'. wdemo_reach (st, w) \<and> wa_balance st 2 7 = 0 \<and>
     batch_execute_validated wdemo_clients (token_target 9) (wdemo_env 6) 2 2
       [\<lparr>ba_call = \<lparr>cc_contract = 7, cc_fn_name = ''transfer'', cc_args = [SvAddress 9, SvAddress 2, SvI128 100]\<rparr>,
         ba_policy_id = [], ba_budget_id = [], ba_asset = 7, ba_recipient = 2, ba_amount = 100\<rparr>] (st, w) = Ok (r, st', w') \<and>
     wa_balance st' 1 7 = 100 \<and> w 7 9 = 100 \<and> w' 7 9 = 0 \<and> w' 7 2 = 100"
proof -
  let ?w = "moved wdemo_world 7 1 9 100" and ?st = "\<lambda>es. wdemo_state es [(1, 7) \<mapsto> 100]"
  obtain es where r: "wdemo_reach (?st es, ?w)" using wdemo_funded ..
  obtain rc st' where x: "batch_execute_validated wdemo_clients (token_target 9) (wdemo_env 6) 2 2
       [\<lparr>ba_call = \<lparr>cc_contract = 7, cc_fn_name = ''transfer'', cc_args = [SvAddress 9, SvAddress 2, SvI128 100]\<rparr>,
         ba_policy_id = [], ba_budget_id = [], ba_asset = 7, ba_recipient = 2, ba_amount = 100\<rparr>] (?st es, ?w)
      = Ok (rc, st', moved ?w 7 9 2 100)" and b: "wa_balance st' 1 7 = 100"
    by (simp add: batch_execute_validated_def when_not_paused_def paused_def require_wallet_role_def
        require_auth_def load_wallet_def require_role_def effective_role_def role_satisfies_def role_rank_def
        require_active_def MAX_BATCH_CALLS_def lock_def resolve_gates_def require_positive_amount_def checked_add_def safe_add_def
        in_i128_def int_limits gate_enforce_charge gate_position_def enforce_rate_limit_def wa_execute_call_def token_target_def
        ledger_token_def moved_def wdemo_world_def Let_def wa_balance_def)
  show ?thesis using r x b
    by (intro exI [of _ "?st es"] exI [of _ ?w] exI [of _ rc] exI [of _ st'] exI [of _ "moved ?w 7 9 2 100"])
       (simp add: moved_def wdemo_world_def wa_balance_def)
qed

end
