(* ===== verification/Policy.thy ===== *)
theory Policy
  imports Upgrade Balance
begin

text \<open>
  The policy contract \<^verbatim>\<open>contracts/policy/src/lib.rs\<close>: registered policies with scalar gates, block and
  allow lists, operating hours, per-asset allowances with rate windows, and rule trees. The rule
  engine walks a flattened tree by index under a depth limit and carries a cache of blocklist
  lookups. The walk behind \<open>check_transfer\<close> publishes events even when it refuses a transfer, so the
  screening steps carry the state along; storage is written by the owner's entrypoints only.
\<close>

section \<open>Records and storage\<close>

definition MAX_RULE_DEPTH :: u32 where "MAX_RULE_DEPTH = 10"
definition MAX_SPEND_ENTRIES :: u32 where "MAX_SPEND_ENTRIES = 10"
definition MAX_POLICY_RULES :: u32 where "MAX_POLICY_RULES = 16"

record transaction_payload =
  tp_asset :: address
  tp_recipient :: address
  tp_amount :: i128

datatype rule_op =
    MaxAmount | AllowedRecipient | AllowedAsset | RecipientBlacklisted | MerchantBlacklisted
  | OpAnd | OpOr | OpNot

record rule_node =
  rn_op :: rule_op
  rn_value_i128 :: i128
  rn_value_address :: address
  rn_children_start :: u32
  rn_children_end :: u32

type_synonym rule_tree = "rule_node list"
type_synonym rule_stack = "rule_tree list"

datatype combination_strategy = StrategyAll | StrategyAny

definition default_strategy :: combination_strategy where
  "default_strategy = StrategyAll"

datatype denial_reason =
    DrDisabled | DrExpired | DrRecipientBlacklisted | DrMerchantBlacklisted
  | DrRecipientNotWhitelisted | DrAboveMaxTransactionLimit | DrRecipientNotAllowed
  | DrAssetNotAllowed | DrAssetBlacklisted | DrAssetNotWhitelisted | DrAllowanceExceeded
  | DrAllowanceExpired | DrCompositeRuleDenied | DrRuleStackDenied | DrOutsideTransferWindow

fun to_error :: "denial_reason \<Rightarrow> error" where
  "to_error DrDisabled = PolicyDenied"
| "to_error DrExpired = PolicyDenied"
| "to_error DrRecipientNotWhitelisted = PolicyDenied"
| "to_error DrAboveMaxTransactionLimit = PolicyDenied"
| "to_error DrRecipientNotAllowed = PolicyDenied"
| "to_error DrAssetNotAllowed = PolicyDenied"
| "to_error DrAssetBlacklisted = PolicyDenied"
| "to_error DrCompositeRuleDenied = PolicyDenied"
| "to_error DrRuleStackDenied = PolicyDenied"
| "to_error DrOutsideTransferWindow = PolicyDenied"
| "to_error DrRecipientBlacklisted = PolicyRecipientRestricted"
| "to_error DrMerchantBlacklisted = PolicyMerchantBlocked"
| "to_error DrAssetNotWhitelisted = AssetNotAuthorized"
| "to_error DrAllowanceExceeded = AllowanceExceeded"
| "to_error DrAllowanceExpired = AllowanceExpired"

fun reason_str :: "denial_reason \<Rightarrow> string" where
  "reason_str DrDisabled = ''disabled''"
| "reason_str DrExpired = ''expired''"
| "reason_str DrRecipientBlacklisted = ''blacklisted''"
| "reason_str DrMerchantBlacklisted = ''merchant_blocked''"
| "reason_str DrRecipientNotWhitelisted = ''not_whitelisted''"
| "reason_str DrAboveMaxTransactionLimit = ''above_max''"
| "reason_str DrRecipientNotAllowed = ''bad_recipient''"
| "reason_str DrAssetNotAllowed = ''bad_asset''"
| "reason_str DrAssetBlacklisted = ''asset_blacklisted''"
| "reason_str DrAssetNotWhitelisted = ''asset_not_whitelisted''"
| "reason_str DrAllowanceExceeded = ''allowance_exceeded''"
| "reason_str DrAllowanceExpired = ''allowance_expired''"
| "reason_str DrCompositeRuleDenied = ''rule_denied''"
| "reason_str DrRuleStackDenied = ''rules_denied''"
| "reason_str DrOutsideTransferWindow = ''outside_window''"

definition is_self_reported :: "denial_reason \<Rightarrow> bool" where
  "is_self_reported r \<longleftrightarrow> r = DrAllowanceExceeded \<or> r = DrAllowanceExpired"

datatype policy_verdict = Allowed | Denied denial_reason

record policy_decision =
  pd_verdict :: policy_verdict
  pd_max_transaction_amount :: i128

definition decision_allow :: "i128 \<Rightarrow> policy_decision" where
  "decision_allow m = \<lparr>pd_verdict = Allowed, pd_max_transaction_amount = m\<rparr>"

definition decision_deny :: "denial_reason \<Rightarrow> i128 \<Rightarrow> policy_decision" where
  "decision_deny r m = \<lparr>pd_verdict = Denied r, pd_max_transaction_amount = m\<rparr>"

definition decision_allowed :: "policy_decision \<Rightarrow> bool" where
  "decision_allowed d \<longleftrightarrow> pd_verdict d = Allowed"

definition decision_reason :: "policy_decision \<Rightarrow> denial_reason option" where
  "decision_reason d = (case pd_verdict d of Allowed \<Rightarrow> None | Denied r \<Rightarrow> Some r)"

record policy =
  pl_owner :: address
  pl_config_hash :: bytes
  pl_max_amount :: i128
  pl_allowed_recipient :: "address option"
  pl_allowed_asset :: "address option"
  pl_expires_at :: u64
  pl_enabled :: bool
  pl_strategy :: combination_strategy
  pl_window_start_time :: u64
  pl_window_end_time :: u64
  pl_window_days :: u64

definition is_within_transfer_window :: "policy \<Rightarrow> u64 \<Rightarrow> bool" where
  "is_within_transfer_window p now =
     (if pl_window_days p = 0 then True
      else let time_of_day = now mod pl_window_days p in
           if pl_window_start_time p < pl_window_end_time p
           then time_of_day \<ge> pl_window_start_time p \<and> time_of_day < pl_window_end_time p
           else if pl_window_start_time p = pl_window_end_time p then False
           else time_of_day \<ge> pl_window_start_time p \<or> time_of_day < pl_window_end_time p)"

record asset_allowance =
  al_policy_id :: string
  al_asset :: address
  al_limit :: i128
  al_spent :: i128
  al_expires_at :: u64
  al_window_seconds :: u64
  al_window_start :: u64

text \<open>One constructor per published topic, with its payload.\<close>

datatype policy_event =
    PvRegistered string
  | PvRotated string
  | PvEnabled string bool u64
  | PvStrategy string combination_strategy
  | PvTimeWindow string u64 u64 u64
  | PvAssetAdded string address
  | PvAssetRemoved string address
  | PvAssetBlacklisted string address
  | PvAssetUnblacklisted string address
  | PvAssetMode string bool u64
  | PvBlacklisted string address
  | PvUnblacklisted string address
  | PvMerchantAdded string address
  | PvMerchantRemoved string address
  | PvCategoryAdded string string
  | PvCategoryRemoved string string
  | PvWhitelistMode string bool
  | PvWhitelisted string address
  | PvUnwhitelisted string address
  | PvAllowanceSet string address i128
  | PvAllowanceRemoved string address
  | PvAllowanceUsed string address i128 i128
  | PvRuleSet string
  | PvRuleCleared string
  | PvRuleAdded string u32
  | PvRuleRemoved string u32
  | PvRulesCleared string
  | PvViolationTopic string symbol
  | PvViolation string symbol

record policy_state =
  po_policies :: "string \<Rightarrow> policy option"
  po_count :: "u32 option"
  po_blacklist :: "address \<Rightarrow> string option"
  po_merchant_blacklist :: "address \<Rightarrow> string option"
  po_category_blacklist :: "string \<Rightarrow> string option"
  po_asset_whitelist :: "string \<times> address \<Rightarrow> bool option"
  po_asset_blacklist :: "string \<times> address \<Rightarrow> unit option"
  po_asset_whitelist_enabled :: "string \<Rightarrow> bool option"
  po_recipient_whitelist :: "string \<times> address \<Rightarrow> bool option"
  po_recipient_whitelist_enabled :: "string \<Rightarrow> bool option"
  po_recipient_whitelist_index :: "string \<Rightarrow> address list option"
  po_allowances :: "string \<times> address \<Rightarrow> asset_allowance option"
  po_composite_rule :: "string \<Rightarrow> rule_tree option"
  po_policy_rules :: "string \<Rightarrow> rule_stack option"
  po_events :: "policy_event list"

definition policy_empty :: policy_state where
  "policy_empty = \<lparr>po_policies = Map.empty, po_count = None, po_blacklist = Map.empty,
     po_merchant_blacklist = Map.empty, po_category_blacklist = Map.empty, po_asset_whitelist = Map.empty,
     po_asset_blacklist = Map.empty, po_asset_whitelist_enabled = Map.empty,
     po_recipient_whitelist = Map.empty, po_recipient_whitelist_enabled = Map.empty,
     po_recipient_whitelist_index = Map.empty, po_allowances = Map.empty,
     po_composite_rule = Map.empty, po_policy_rules = Map.empty, po_events = []\<rparr>"

definition po_emit :: "policy_event list \<Rightarrow> policy_state \<Rightarrow> policy_state" where
  "po_emit es st = st\<lparr>po_events := po_events st @ es\<rparr>"

definition events_policy_violation :: "string \<Rightarrow> string \<Rightarrow> policy_state \<Rightarrow> policy_state" where
  "events_policy_violation pid reason st = po_emit [PvViolationTopic pid reason, PvViolation pid reason] st"

section \<open>Rule trees\<close>

definition bad_children :: "nat \<Rightarrow> rule_node \<Rightarrow> bool" where
  "bad_children len node =
     (case rn_op node of
        OpAnd \<Rightarrow> rn_children_start node \<ge> rn_children_end node \<or> rn_children_end node > len
      | OpOr \<Rightarrow> rn_children_start node \<ge> rn_children_end node \<or> rn_children_end node > len
      | OpNot \<Rightarrow> checked_sub_word (rn_children_end node) (rn_children_start node) \<noteq> Some 1 \<or>
                rn_children_end node > len
      | _ \<Rightarrow> False)"

definition validate_rule_tree :: "rule_tree \<Rightarrow> unit res" where
  "validate_rule_tree tree =
     (if tree = [] then Err InvalidInput
      else if list_ex (bad_children (length tree)) tree then Err InvalidInput else Ok ())"

record rule_context =
  rc_recipient_blacklisted :: "bool option"
  rc_merchant_blacklisted :: "bool option"

definition fresh_context :: rule_context where
  "fresh_context = \<lparr>rc_recipient_blacklisted = None, rc_merchant_blacklisted = None\<rparr>"

definition recipient_blacklisted :: "policy_state \<Rightarrow> address \<Rightarrow> rule_context \<Rightarrow> bool \<times> rule_context" where
  "recipient_blacklisted st recip c =
     (case rc_recipient_blacklisted c of
        Some b \<Rightarrow> (b, c)
      | None \<Rightarrow> let b = (po_blacklist st recip \<noteq> None) in (b, c\<lparr>rc_recipient_blacklisted := Some b\<rparr>))"

definition merchant_blacklisted :: "policy_state \<Rightarrow> address \<Rightarrow> rule_context \<Rightarrow> bool \<times> rule_context" where
  "merchant_blacklisted st recip c =
     (case rc_merchant_blacklisted c of
        Some b \<Rightarrow> (b, c)
      | None \<Rightarrow> let b = (po_merchant_blacklist st recip \<noteq> None) in (b, c\<lparr>rc_merchant_blacklisted := Some b\<rparr>))"

text \<open>The loops over the children: they stop at the first verdict that decides the node.\<close>

fun eval_all :: "('i \<Rightarrow> 'c \<Rightarrow> (bool \<times> 'c) res) \<Rightarrow> 'i list \<Rightarrow> 'c \<Rightarrow> (bool \<times> 'c) res" where
  "eval_all ev [] c = Ok (True, c)"
| "eval_all ev (i # is) c =
     rbind (ev i c) (\<lambda>(b, c1). if \<not> b then Ok (False, c1) else eval_all ev is c1)"

fun eval_any :: "('i \<Rightarrow> 'c \<Rightarrow> (bool \<times> 'c) res) \<Rightarrow> 'i list \<Rightarrow> 'c \<Rightarrow> (bool \<times> 'c) res" where
  "eval_any ev [] c = Ok (False, c)"
| "eval_any ev (i # is) c =
     rbind (ev i c) (\<lambda>(b, c1). if b then Ok (True, c1) else eval_any ev is c1)"

fun evaluate_node ::
  "policy_state \<Rightarrow> rule_tree \<Rightarrow> transaction_payload \<Rightarrow> u32 \<Rightarrow> u32 \<Rightarrow> rule_context \<Rightarrow> (bool \<times> rule_context) res" where
  "evaluate_node st tree p 0 node_idx c = Err InvalidInput"
| "evaluate_node st tree p (Suc remaining) node_idx c =
     (if node_idx \<ge> length tree then Err InvalidInput
      else let node = tree ! node_idx; kids = [rn_children_start node..<rn_children_end node] in
      case rn_op node of
        MaxAmount \<Rightarrow> Ok (tp_amount p \<le> rn_value_i128 node, c)
      | AllowedRecipient \<Rightarrow> Ok (tp_recipient p = rn_value_address node, c)
      | AllowedAsset \<Rightarrow> Ok (tp_asset p = rn_value_address node, c)
      | RecipientBlacklisted \<Rightarrow> Ok (recipient_blacklisted st (tp_recipient p) c)
      | MerchantBlacklisted \<Rightarrow> Ok (merchant_blacklisted st (tp_recipient p) c)
      | OpAnd \<Rightarrow>
          if rn_children_start node = rn_children_end node then Err InvalidInput
          else eval_all (evaluate_node st tree p remaining) kids c
      | OpOr \<Rightarrow>
          if rn_children_start node = rn_children_end node then Err InvalidInput
          else eval_any (evaluate_node st tree p remaining) kids c
      | OpNot \<Rightarrow>
          if checked_sub_word (rn_children_end node) (rn_children_start node) \<noteq> Some 1 then Err InvalidInput
          else rbind (evaluate_node st tree p remaining (rn_children_start node) c)
                 (\<lambda>(b, c1). Ok (\<not> b, c1)))"

definition composite_rule_with_context ::
  "policy_state \<Rightarrow> string \<Rightarrow> transaction_payload \<Rightarrow> rule_context \<Rightarrow> (bool \<times> rule_context) res" where
  "composite_rule_with_context st pid p c =
     (case po_composite_rule st pid of
        None \<Rightarrow> Ok (True, c)
      | Some tree \<Rightarrow> if tree = [] then Ok (True, c) else evaluate_node st tree p MAX_RULE_DEPTH 0 c)"

definition get_policy_rules :: "policy_state \<Rightarrow> string \<Rightarrow> rule_stack" where
  "get_policy_rules st pid = unwrap_or (po_policy_rules st pid) []"

text \<open>An empty tree is skipped, which the verdict that continues the loop expresses.\<close>

definition policy_rules_with_context ::
  "policy_state \<Rightarrow> string \<Rightarrow> transaction_payload \<Rightarrow> combination_strategy \<Rightarrow> rule_context \<Rightarrow> (bool \<times> rule_context) res" where
  "policy_rules_with_context st pid p strategy c =
     (let stack = get_policy_rules st pid in
      case strategy of
        StrategyAll \<Rightarrow>
          eval_all (\<lambda>tree c. if tree = [] then Ok (True, c) else evaluate_node st tree p MAX_RULE_DEPTH 0 c) stack c
      | StrategyAny \<Rightarrow>
          if length stack = 0 then Ok (True, c)
          else eval_any (\<lambda>tree c. if tree = [] then Ok (False, c) else evaluate_node st tree p MAX_RULE_DEPTH 0 c) stack c)"

definition evaluate_composite_rule :: "policy_state \<Rightarrow> string \<Rightarrow> transaction_payload \<Rightarrow> bool res" where
  "evaluate_composite_rule st pid p =
     rbind (composite_rule_with_context st pid p fresh_context) (\<lambda>(b, _). Ok b)"

definition pol_load :: "policy_state \<Rightarrow> string \<Rightarrow> policy res" where
  "pol_load st pid = ok_or (po_policies st pid) NotFound"

definition evaluate_policy_rules :: "policy_state \<Rightarrow> string \<Rightarrow> transaction_payload \<Rightarrow> bool res" where
  "evaluate_policy_rules st pid p =
     rbind (pol_load st pid) (\<lambda>pol.
     rbind (policy_rules_with_context st pid p (pl_strategy pol) fresh_context) (\<lambda>(b, _). Ok b))"

section \<open>Allowances\<close>

definition settle_window :: "asset_allowance \<Rightarrow> u64 \<Rightarrow> asset_allowance res" where
  "settle_window al now =
     (if al_window_seconds al = 0 \<or> now < al_window_start al then Ok al
      else let periods = (now - al_window_start al) div al_window_seconds al in
           if periods = 0 then Ok al
           else rbind (ok_or (checked_mul_word u64_max periods (al_window_seconds al)) Overflow) (\<lambda>advance.
                rbind (ok_or (checked_add_word u64_max (al_window_start al) advance) Overflow) (\<lambda>start.
                Ok (al\<lparr>al_window_start := start, al_spent := 0\<rparr>))))"

definition get_allowance :: "env \<Rightarrow> policy_state \<Rightarrow> string \<Rightarrow> address \<Rightarrow> asset_allowance" where
  "get_allowance env st pid a =
     (let al = unwrap_or (po_allowances st (pid, a))
                 \<lparr>al_policy_id = pid, al_asset = a, al_limit = 0, al_spent = 0, al_expires_at = 0,
                  al_window_seconds = 0, al_window_start = 0\<rparr> in
      case settle_window al (timestamp env) of Ok settled \<Rightarrow> settled | _ \<Rightarrow> al)"

text \<open>An error after a published event: the state is kept beside the result, because the rule walk
  catches the two allowance errors.\<close>

definition attempt :: "'s \<Rightarrow> 'a res \<Rightarrow> ('a \<Rightarrow> 's \<times> 'b res) \<Rightarrow> 's \<times> 'b res" where
  "attempt s r f = (case r of Ok x \<Rightarrow> f x | Err e \<Rightarrow> (s, Err e) | Panic \<Rightarrow> (s, Panic))"

definition consume_allowance ::
  "env \<Rightarrow> string \<Rightarrow> address \<Rightarrow> i128 \<Rightarrow> policy_state \<Rightarrow> policy_state \<times> asset_allowance option res" where
  "consume_allowance env pid a amt st =
     (case po_allowances st (pid, a) of
        None \<Rightarrow> (st, Ok None)
      | Some al \<Rightarrow>
          if al_limit al = 0 then (st, Ok None)
          else if al_expires_at al \<noteq> 0 \<and> timestamp env \<ge> al_expires_at al
          then (events_policy_violation pid ''allowance_expired'' st, Err AllowanceExpired)
          else attempt st (settle_window al (timestamp env)) (\<lambda>al1.
               attempt st (checked_sub (al_limit al1) (al_spent al1)) (\<lambda>headroom.
               if amt > headroom
               then (events_policy_violation pid ''allowance_exceeded'' st, Err AllowanceExceeded)
               else attempt st (checked_add (al_spent al1) amt) (\<lambda>spent.
                    (st, Ok (Some (al1\<lparr>al_spent := spent\<rparr>)))))))"

definition persist_spend :: "asset_allowance \<Rightarrow> i128 \<Rightarrow> policy_state \<Rightarrow> policy_state" where
  "persist_spend al amt st =
     po_emit [PvAllowanceUsed (al_policy_id al) (al_asset al) amt (al_spent al)]
       (st\<lparr>po_allowances := (po_allowances st)((al_policy_id al, al_asset al) \<mapsto> al)\<rparr>)"

section \<open>Owner entrypoints\<close>

definition require_policy_owner :: "env \<Rightarrow> policy_state \<Rightarrow> address \<Rightarrow> string \<Rightarrow> unit res" where
  "require_policy_owner env st caller pid =
     rbind (require_auth env caller) (\<lambda>_.
     rbind (pol_load st pid) (\<lambda>p. if pl_owner p \<noteq> caller then Err Unauthorized else Ok ()))"

definition policy_initialize :: "policy_state \<Rightarrow> (unit \<times> policy_state) res" where
  "policy_initialize st = (if po_count st \<noteq> None then Err AlreadyInitialized else Ok ((), st\<lparr>po_count := Some 0\<rparr>))"

definition pol_store :: "string \<Rightarrow> policy \<Rightarrow> policy_state \<Rightarrow> policy_state" where
  "pol_store pid p st = st\<lparr>po_policies := (po_policies st)(pid \<mapsto> p)\<rparr>"

definition register_policy ::
  "env \<Rightarrow> address \<Rightarrow> string \<Rightarrow> bytes \<Rightarrow> i128 \<Rightarrow> address option \<Rightarrow> address option \<Rightarrow> u64 \<Rightarrow>
   combination_strategy option \<Rightarrow> policy_state \<Rightarrow> (unit \<times> policy_state) res" where
  "register_policy env owner pid config_hash max_amount allowed_recipient allowed_asset expires_at strategy st =
     rbind (require_auth env owner) (\<lambda>_.
     rbind (require_non_empty pid) (\<lambda>_.
     if po_policies st pid \<noteq> None then Err AlreadyExists
     else Ok ((), po_emit [PvRegistered pid] (pol_store pid
            \<lparr>pl_owner = owner, pl_config_hash = config_hash, pl_max_amount = max_amount,
             pl_allowed_recipient = allowed_recipient, pl_allowed_asset = allowed_asset,
             pl_expires_at = expires_at, pl_enabled = True,
             pl_strategy = unwrap_or strategy default_strategy,
             pl_window_start_time = 0, pl_window_end_time = 0, pl_window_days = 0\<rparr> st))))"

text \<open>The prologue of every owner entrypoint: authenticate, load, compare the owner.\<close>

definition owned_policy :: "env \<Rightarrow> policy_state \<Rightarrow> address \<Rightarrow> string \<Rightarrow> policy res" where
  "owned_policy env st caller pid =
     rbind (require_auth env caller) (\<lambda>_.
     rbind (pol_load st pid) (\<lambda>p. if pl_owner p \<noteq> caller then Err Unauthorized else Ok p))"

definition rotate_policy ::
  "env \<Rightarrow> address \<Rightarrow> string \<Rightarrow> bytes \<Rightarrow> i128 \<Rightarrow> policy_state \<Rightarrow> (unit \<times> policy_state) res" where
  "rotate_policy env caller pid new_hash new_max st =
     rbind (owned_policy env st caller pid) (\<lambda>p.
     Ok ((), po_emit [PvRotated pid]
           (pol_store pid (p\<lparr>pl_config_hash := new_hash, pl_max_amount := new_max\<rparr>) st)))"

definition set_enabled :: "env \<Rightarrow> address \<Rightarrow> string \<Rightarrow> bool \<Rightarrow> policy_state \<Rightarrow> (unit \<times> policy_state) res" where
  "set_enabled env caller pid enabled st =
     rbind (owned_policy env st caller pid) (\<lambda>p.
     Ok ((), po_emit [PvEnabled pid enabled (timestamp env)] (pol_store pid (p\<lparr>pl_enabled := enabled\<rparr>) st)))"

definition set_rule_combination_strategy ::
  "env \<Rightarrow> address \<Rightarrow> string \<Rightarrow> combination_strategy \<Rightarrow> policy_state \<Rightarrow> (unit \<times> policy_state) res" where
  "set_rule_combination_strategy env caller pid strategy st =
     rbind (owned_policy env st caller pid) (\<lambda>p.
     Ok ((), po_emit [PvStrategy pid strategy] (pol_store pid (p\<lparr>pl_strategy := strategy\<rparr>) st)))"

definition set_transfer_window ::
  "env \<Rightarrow> address \<Rightarrow> string \<Rightarrow> u64 \<Rightarrow> u64 \<Rightarrow> u64 \<Rightarrow> policy_state \<Rightarrow> (unit \<times> policy_state) res" where
  "set_transfer_window env caller pid start_time end_time window_days st =
     rbind (require_policy_owner env st caller pid) (\<lambda>_.
     if window_days \<noteq> 0 \<and> (start_time \<ge> window_days \<or> end_time \<ge> window_days) then Err InvalidInput
     else if window_days > SECONDS_PER_MONTH then Err InvalidInput
     else rbind (pol_load st pid) (\<lambda>p.
          Ok ((), po_emit [PvTimeWindow pid start_time end_time window_days]
                (pol_store pid (p\<lparr>pl_window_start_time := start_time, pl_window_end_time := end_time,
                                  pl_window_days := window_days\<rparr>) st))))"

definition get_transfer_window :: "policy_state \<Rightarrow> string \<Rightarrow> u64 \<times> u64 \<times> u64" where
  "get_transfer_window st pid =
     (case pol_load st pid of
        Ok p \<Rightarrow> (pl_window_start_time p, pl_window_end_time p, pl_window_days p)
      | _ \<Rightarrow> (0, 0, 0))"

section \<open>Asset lists\<close>

definition add_asset_to_whitelist ::
  "env \<Rightarrow> address \<Rightarrow> string \<Rightarrow> address \<Rightarrow> policy_state \<Rightarrow> (unit \<times> policy_state) res" where
  "add_asset_to_whitelist env caller pid a st =
     rbind (owned_policy env st caller pid) (\<lambda>_.
     if po_asset_whitelist st (pid, a) \<noteq> None then Err AlreadyExists
     else Ok ((), po_emit [PvAssetAdded pid a]
            (st\<lparr>po_asset_whitelist := (po_asset_whitelist st)((pid, a) \<mapsto> True)\<rparr>)))"

definition remove_asset_from_whitelist ::
  "env \<Rightarrow> address \<Rightarrow> string \<Rightarrow> address \<Rightarrow> policy_state \<Rightarrow> (unit \<times> policy_state) res" where
  "remove_asset_from_whitelist env caller pid a st =
     rbind (owned_policy env st caller pid) (\<lambda>_.
     if po_asset_whitelist st (pid, a) = None then Err NotFound
     else Ok ((), po_emit [PvAssetRemoved pid a]
            (st\<lparr>po_asset_whitelist := (po_asset_whitelist st)((pid, a) := None)\<rparr>)))"

definition add_asset_blacklist ::
  "env \<Rightarrow> address \<Rightarrow> string \<Rightarrow> address \<Rightarrow> policy_state \<Rightarrow> (unit \<times> policy_state) res" where
  "add_asset_blacklist env caller pid a st =
     rbind (require_policy_owner env st caller pid) (\<lambda>_.
     if po_asset_blacklist st (pid, a) \<noteq> None then Err AlreadyExists
     else Ok ((), po_emit [PvAssetBlacklisted pid a]
            (st\<lparr>po_asset_blacklist := (po_asset_blacklist st)((pid, a) \<mapsto> ())\<rparr>)))"

definition remove_asset_blacklist ::
  "env \<Rightarrow> address \<Rightarrow> string \<Rightarrow> address \<Rightarrow> policy_state \<Rightarrow> (unit \<times> policy_state) res" where
  "remove_asset_blacklist env caller pid a st =
     rbind (require_policy_owner env st caller pid) (\<lambda>_.
     if po_asset_blacklist st (pid, a) = None then Err NotFound
     else Ok ((), po_emit [PvAssetUnblacklisted pid a]
            (st\<lparr>po_asset_blacklist := (po_asset_blacklist st)((pid, a) := None)\<rparr>)))"

definition is_asset_blacklisted :: "policy_state \<Rightarrow> string \<Rightarrow> address \<Rightarrow> bool" where
  "is_asset_blacklisted st pid a \<longleftrightarrow> po_asset_blacklist st (pid, a) \<noteq> None"

definition set_asset_whitelist_enabled ::
  "env \<Rightarrow> address \<Rightarrow> string \<Rightarrow> bool \<Rightarrow> policy_state \<Rightarrow> (unit \<times> policy_state) res" where
  "set_asset_whitelist_enabled env caller pid enabled st =
     rbind (owned_policy env st caller pid) (\<lambda>_.
     Ok ((), po_emit [PvAssetMode pid enabled (timestamp env)]
           (st\<lparr>po_asset_whitelist_enabled := (po_asset_whitelist_enabled st)(pid \<mapsto> enabled)\<rparr>)))"

definition asset_whitelist_denied :: "policy_state \<Rightarrow> string \<Rightarrow> address \<Rightarrow> bool" where
  "asset_whitelist_denied st pid a \<longleftrightarrow>
     unwrap_or (po_asset_whitelist_enabled st pid) False \<and> po_asset_whitelist st (pid, a) = None"

definition validate_asset :: "policy_state \<Rightarrow> string \<Rightarrow> address \<Rightarrow> unit res" where
  "validate_asset st pid a = (if asset_whitelist_denied st pid a then Err AssetNotAuthorized else Ok ())"

section \<open>Block lists\<close>

definition add_blacklist ::
  "env \<Rightarrow> address \<Rightarrow> string \<Rightarrow> address \<Rightarrow> policy_state \<Rightarrow> (unit \<times> policy_state) res" where
  "add_blacklist env caller pid addr st =
     rbind (require_policy_owner env st caller pid) (\<lambda>_.
     if po_blacklist st addr \<noteq> None then Err AlreadyExists
     else Ok ((), po_emit [PvBlacklisted pid addr] (st\<lparr>po_blacklist := (po_blacklist st)(addr \<mapsto> pid)\<rparr>)))"

definition remove_blacklist ::
  "env \<Rightarrow> address \<Rightarrow> string \<Rightarrow> address \<Rightarrow> policy_state \<Rightarrow> (unit \<times> policy_state) res" where
  "remove_blacklist env caller pid addr st =
     rbind (require_policy_owner env st caller pid) (\<lambda>_.
     if po_blacklist st addr = None then Err NotFound
     else Ok ((), po_emit [PvUnblacklisted pid addr] (st\<lparr>po_blacklist := (po_blacklist st)(addr := None)\<rparr>)))"

definition add_merchant_blacklist ::
  "env \<Rightarrow> address \<Rightarrow> string \<Rightarrow> address \<Rightarrow> policy_state \<Rightarrow> (unit \<times> policy_state) res" where
  "add_merchant_blacklist env caller pid addr st =
     rbind (owned_policy env st caller pid) (\<lambda>_.
     if po_merchant_blacklist st addr \<noteq> None then Err AlreadyExists
     else Ok ((), po_emit [PvMerchantAdded pid addr]
            (st\<lparr>po_merchant_blacklist := (po_merchant_blacklist st)(addr \<mapsto> pid)\<rparr>)))"

definition remove_merchant_blacklist ::
  "env \<Rightarrow> address \<Rightarrow> string \<Rightarrow> address \<Rightarrow> policy_state \<Rightarrow> (unit \<times> policy_state) res" where
  "remove_merchant_blacklist env caller pid addr st =
     rbind (owned_policy env st caller pid) (\<lambda>_.
     if po_merchant_blacklist st addr = None then Err NotFound
     else Ok ((), po_emit [PvMerchantRemoved pid addr]
            (st\<lparr>po_merchant_blacklist := (po_merchant_blacklist st)(addr := None)\<rparr>)))"

definition add_category_blacklist ::
  "env \<Rightarrow> address \<Rightarrow> string \<Rightarrow> string \<Rightarrow> policy_state \<Rightarrow> (unit \<times> policy_state) res" where
  "add_category_blacklist env caller pid category st =
     rbind (owned_policy env st caller pid) (\<lambda>_.
     rbind (require_non_empty category) (\<lambda>_.
     if po_category_blacklist st category \<noteq> None then Err AlreadyExists
     else Ok ((), po_emit [PvCategoryAdded pid category]
            (st\<lparr>po_category_blacklist := (po_category_blacklist st)(category \<mapsto> pid)\<rparr>))))"

definition remove_category_blacklist ::
  "env \<Rightarrow> address \<Rightarrow> string \<Rightarrow> string \<Rightarrow> policy_state \<Rightarrow> (unit \<times> policy_state) res" where
  "remove_category_blacklist env caller pid category st =
     rbind (owned_policy env st caller pid) (\<lambda>_.
     if po_category_blacklist st category = None then Err NotFound
     else Ok ((), po_emit [PvCategoryRemoved pid category]
            (st\<lparr>po_category_blacklist := (po_category_blacklist st)(category := None)\<rparr>)))"

definition add_to_blocklist ::
  "env \<Rightarrow> address \<Rightarrow> string \<Rightarrow> address \<Rightarrow> policy_state \<Rightarrow> (unit \<times> policy_state) res" where
  "add_to_blocklist env caller pid addr st =
     rbind (owned_policy env st caller pid) (\<lambda>_.
     if po_blacklist st addr \<noteq> None then Err AlreadyExists
     else Ok ((), po_emit [PvBlacklisted pid addr] (st\<lparr>po_blacklist := (po_blacklist st)(addr \<mapsto> pid)\<rparr>)))"

definition remove_from_blocklist ::
  "env \<Rightarrow> address \<Rightarrow> string \<Rightarrow> address \<Rightarrow> policy_state \<Rightarrow> (unit \<times> policy_state) res" where
  "remove_from_blocklist env caller pid addr st =
     rbind (owned_policy env st caller pid) (\<lambda>_.
     if po_blacklist st addr = None then Err NotFound
     else Ok ((), po_emit [PvUnblacklisted pid addr] (st\<lparr>po_blacklist := (po_blacklist st)(addr := None)\<rparr>)))"

definition check_category :: "policy_state \<Rightarrow> string \<Rightarrow> string \<Rightarrow> unit res" where
  "check_category st pid category =
     (if category = [] then Ok ()
      else if po_category_blacklist st category \<noteq> None then Err PolicyCategoryRestricted else Ok ())"

section \<open>Recipient whitelist\<close>

definition set_recipient_whitelist_enabled ::
  "env \<Rightarrow> address \<Rightarrow> string \<Rightarrow> bool \<Rightarrow> policy_state \<Rightarrow> (unit \<times> policy_state) res" where
  "set_recipient_whitelist_enabled env caller pid enabled st =
     rbind (require_policy_owner env st caller pid) (\<lambda>_.
     Ok ((), po_emit [PvWhitelistMode pid enabled]
           (st\<lparr>po_recipient_whitelist_enabled := (po_recipient_whitelist_enabled st)(pid \<mapsto> enabled)\<rparr>)))"

definition get_recipient_whitelist :: "policy_state \<Rightarrow> string \<Rightarrow> address list" where
  "get_recipient_whitelist st pid = unwrap_or (po_recipient_whitelist_index st pid) []"

definition add_recipient_to_whitelist ::
  "env \<Rightarrow> address \<Rightarrow> string \<Rightarrow> address \<Rightarrow> policy_state \<Rightarrow> (unit \<times> policy_state) res" where
  "add_recipient_to_whitelist env caller pid recip st =
     rbind (require_policy_owner env st caller pid) (\<lambda>_.
     if po_recipient_whitelist st (pid, recip) \<noteq> None then Err AlreadyExists
     else Ok ((), po_emit [PvWhitelisted pid recip]
            (st\<lparr>po_recipient_whitelist := (po_recipient_whitelist st)((pid, recip) \<mapsto> True),
                po_recipient_whitelist_index := (po_recipient_whitelist_index st)
                  (pid \<mapsto> unwrap_or (po_recipient_whitelist_index st pid) [] @ [recip])\<rparr>)))"

definition remove_recipient_from_whitelist ::
  "env \<Rightarrow> address \<Rightarrow> string \<Rightarrow> address \<Rightarrow> policy_state \<Rightarrow> (unit \<times> policy_state) res" where
  "remove_recipient_from_whitelist env caller pid recip st =
     rbind (require_policy_owner env st caller pid) (\<lambda>_.
     if po_recipient_whitelist st (pid, recip) = None then Err NotFound
     else let index = remove1 recip (unwrap_or (po_recipient_whitelist_index st pid) []) in
          Ok ((), po_emit [PvUnwhitelisted pid recip]
            (st\<lparr>po_recipient_whitelist := (po_recipient_whitelist st)((pid, recip) := None),
                po_recipient_whitelist_index := (po_recipient_whitelist_index st)
                  (pid := if index = [] then None else Some index)\<rparr>)))"

definition is_recipient_whitelisted :: "policy_state \<Rightarrow> string \<Rightarrow> address \<Rightarrow> bool" where
  "is_recipient_whitelisted st pid recip \<longleftrightarrow> po_recipient_whitelist st (pid, recip) \<noteq> None"

definition recipient_whitelist_denied :: "policy_state \<Rightarrow> string \<Rightarrow> address \<Rightarrow> bool" where
  "recipient_whitelist_denied st pid recip \<longleftrightarrow>
     unwrap_or (po_recipient_whitelist_enabled st pid) False \<and> po_recipient_whitelist st (pid, recip) = None"

definition check_recipient_whitelist :: "policy_state \<Rightarrow> string \<Rightarrow> address \<Rightarrow> unit res" where
  "check_recipient_whitelist st pid recip =
     (if recipient_whitelist_denied st pid recip then Err PolicyDenied else Ok ())"

definition evaluate_recipient_whitelist :: "policy_state \<Rightarrow> string \<Rightarrow> transaction_payload \<Rightarrow> unit res" where
  "evaluate_recipient_whitelist st pid p = check_recipient_whitelist st pid (tp_recipient p)"

definition set_whitelist_enabled ::
  "env \<Rightarrow> address \<Rightarrow> string \<Rightarrow> bool \<Rightarrow> policy_state \<Rightarrow> (unit \<times> policy_state) res" where
  "set_whitelist_enabled env caller pid enabled st = set_recipient_whitelist_enabled env caller pid enabled st"

definition add_whitelist ::
  "env \<Rightarrow> address \<Rightarrow> string \<Rightarrow> address \<Rightarrow> policy_state \<Rightarrow> (unit \<times> policy_state) res" where
  "add_whitelist env caller pid recip st = add_recipient_to_whitelist env caller pid recip st"

definition remove_whitelist ::
  "env \<Rightarrow> address \<Rightarrow> string \<Rightarrow> address \<Rightarrow> policy_state \<Rightarrow> (unit \<times> policy_state) res" where
  "remove_whitelist env caller pid recip st = remove_recipient_from_whitelist env caller pid recip st"

section \<open>Allowance entrypoints\<close>

definition store_allowance ::
  "env \<Rightarrow> address \<Rightarrow> string \<Rightarrow> address \<Rightarrow> i128 \<Rightarrow> u64 option \<Rightarrow> u64 \<Rightarrow> policy_state \<Rightarrow> (unit \<times> policy_state) res" where
  "store_allowance env caller pid a limit window_seconds expires_at st =
     rbind (require_policy_owner env st caller pid) (\<lambda>_.
     rbind (require_non_negative_amount limit) (\<lambda>_.
     let now = timestamp env;
         al = get_allowance env st pid a;
         al1 = (if po_allowances st (pid, a) = None then al\<lparr>al_window_start := now\<rparr> else al);
         al2 = (case window_seconds of
                  Some window \<Rightarrow>
                    if window \<noteq> al_window_seconds al1
                    then al1\<lparr>al_window_seconds := window, al_window_start := now\<rparr> else al1
                | None \<Rightarrow> al1);
         al3 = al2\<lparr>al_limit := limit, al_expires_at := expires_at, al_policy_id := pid, al_asset := a\<rparr> in
     Ok ((), po_emit [PvAllowanceSet pid a limit]
           (st\<lparr>po_allowances := (po_allowances st)((pid, a) \<mapsto> al3)\<rparr>))))"

definition set_allowance ::
  "env \<Rightarrow> address \<Rightarrow> string \<Rightarrow> address \<Rightarrow> i128 \<Rightarrow> u64 \<Rightarrow> policy_state \<Rightarrow> (unit \<times> policy_state) res" where
  "set_allowance env caller pid a limit expires_at st = store_allowance env caller pid a limit None expires_at st"

definition set_recurring_allowance ::
  "env \<Rightarrow> address \<Rightarrow> string \<Rightarrow> address \<Rightarrow> i128 \<Rightarrow> u64 \<Rightarrow> u64 \<Rightarrow> policy_state \<Rightarrow> (unit \<times> policy_state) res" where
  "set_recurring_allowance env caller pid a limit window_seconds expires_at st =
     store_allowance env caller pid a limit (Some window_seconds) expires_at st"

definition remove_allowance ::
  "env \<Rightarrow> address \<Rightarrow> string \<Rightarrow> address \<Rightarrow> policy_state \<Rightarrow> (unit \<times> policy_state) res" where
  "remove_allowance env caller pid a st =
     rbind (owned_policy env st caller pid) (\<lambda>_.
     if po_allowances st (pid, a) = None then Err NotFound
     else Ok ((), po_emit [PvAllowanceRemoved pid a]
            (st\<lparr>po_allowances := (po_allowances st)((pid, a) := None)\<rparr>)))"

definition check_allowance :: "env \<Rightarrow> policy_state \<Rightarrow> string \<Rightarrow> address \<Rightarrow> i128 \<Rightarrow> i128 res" where
  "check_allowance env st pid a amt =
     rbind (require_non_negative_amount amt) (\<lambda>_.
     rbind (snd (consume_allowance env pid a amt st)) (\<lambda>r.
     case r of None \<Rightarrow> Ok i128_max | Some al \<Rightarrow> checked_sub (al_limit al) (al_spent al)))"

definition update_allowance ::
  "env \<Rightarrow> address \<Rightarrow> string \<Rightarrow> address \<Rightarrow> i128 \<Rightarrow> policy_state \<Rightarrow> (unit \<times> policy_state) res" where
  "update_allowance env caller pid a amt st =
     rbind (require_policy_owner env st caller pid) (\<lambda>_.
     rbind (require_positive_amount amt) (\<lambda>_.
     case consume_allowance env pid a amt st of (st1, r) \<Rightarrow>
     rbind r (\<lambda>x. case x of Some al \<Rightarrow> Ok ((), persist_spend al amt st1) | None \<Rightarrow> Ok ((), st1))))"

section \<open>Rule entrypoints\<close>

definition set_composite_rule ::
  "env \<Rightarrow> address \<Rightarrow> string \<Rightarrow> rule_tree \<Rightarrow> policy_state \<Rightarrow> (unit \<times> policy_state) res" where
  "set_composite_rule env caller pid tree st =
     rbind (owned_policy env st caller pid) (\<lambda>_.
     rbind (validate_rule_tree tree) (\<lambda>_.
     Ok ((), po_emit [PvRuleSet pid] (st\<lparr>po_composite_rule := (po_composite_rule st)(pid \<mapsto> tree)\<rparr>))))"

definition clear_composite_rule :: "env \<Rightarrow> address \<Rightarrow> string \<Rightarrow> policy_state \<Rightarrow> (unit \<times> policy_state) res" where
  "clear_composite_rule env caller pid st =
     rbind (owned_policy env st caller pid) (\<lambda>_.
     if po_composite_rule st pid = None then Err NotFound
     else Ok ((), po_emit [PvRuleCleared pid] (st\<lparr>po_composite_rule := (po_composite_rule st)(pid := None)\<rparr>)))"

definition get_composite_rule :: "policy_state \<Rightarrow> string \<Rightarrow> rule_tree res" where
  "get_composite_rule st pid = ok_or (po_composite_rule st pid) NotFound"

definition add_policy_rule ::
  "env \<Rightarrow> address \<Rightarrow> string \<Rightarrow> rule_tree \<Rightarrow> policy_state \<Rightarrow> (u32 \<times> policy_state) res" where
  "add_policy_rule env caller pid tree st =
     rbind (require_policy_owner env st caller pid) (\<lambda>_.
     rbind (validate_rule_tree tree) (\<lambda>_.
     let stack = unwrap_or (po_policy_rules st pid) [] in
     if length stack \<ge> MAX_POLICY_RULES then Err InvalidInput
     else let stack' = stack @ [tree] in
          Ok (length stack', po_emit [PvRuleAdded pid (length stack')]
                (st\<lparr>po_policy_rules := (po_policy_rules st)(pid \<mapsto> stack')\<rparr>))))"

definition remove_policy_rule ::
  "env \<Rightarrow> address \<Rightarrow> string \<Rightarrow> u32 \<Rightarrow> policy_state \<Rightarrow> (unit \<times> policy_state) res" where
  "remove_policy_rule env caller pid index st =
     rbind (require_policy_owner env st caller pid) (\<lambda>_.
     rbind (ok_or (po_policy_rules st pid) NotFound) (\<lambda>stack.
     if index \<ge> length stack then Err InvalidInput
     else let stack' = take index stack @ drop (Suc index) stack in
          Ok ((), po_emit [PvRuleRemoved pid index]
                (st\<lparr>po_policy_rules := (po_policy_rules st)(pid := if stack' = [] then None else Some stack')\<rparr>))))"

definition clear_policy_rules :: "env \<Rightarrow> address \<Rightarrow> string \<Rightarrow> policy_state \<Rightarrow> (unit \<times> policy_state) res" where
  "clear_policy_rules env caller pid st =
     rbind (require_policy_owner env st caller pid) (\<lambda>_.
     if po_policy_rules st pid = None then Err NotFound
     else Ok ((), po_emit [PvRulesCleared pid] (st\<lparr>po_policy_rules := (po_policy_rules st)(pid := None)\<rparr>)))"

definition pol_get :: "policy_state \<Rightarrow> string \<Rightarrow> policy res" where
  "pol_get st pid = pol_load st pid"

section \<open>The rule walk\<close>

definition screen_recipient_rules ::
  "env \<Rightarrow> policy_state \<Rightarrow> string \<Rightarrow> policy \<Rightarrow> address \<Rightarrow> rule_context \<Rightarrow> (denial_reason option \<times> rule_context) res" where
  "screen_recipient_rules env st pid p recip c =
     (if \<not> pl_enabled p then Ok (Some DrDisabled, c)
      else case recipient_blacklisted st recip c of (b, c1) \<Rightarrow>
      if b then Ok (Some DrRecipientBlacklisted, c1)
      else case merchant_blacklisted st recip c1 of (b2, c2) \<Rightarrow>
      if b2 then Ok (Some DrMerchantBlacklisted, c2)
      else if recipient_whitelist_denied st pid recip then Ok (Some DrRecipientNotWhitelisted, c2)
      else if \<not> is_within_transfer_window p (timestamp env) then Ok (Some DrOutsideTransferWindow, c2)
      else if pl_expires_at p \<noteq> 0 \<and> timestamp env \<ge> pl_expires_at p then Ok (Some DrExpired, c2)
      else Ok (None, c2))"

definition screen_asset_rules ::
  "env \<Rightarrow> policy \<Rightarrow> string \<Rightarrow> address \<Rightarrow> address \<Rightarrow> i128 \<Rightarrow> rule_context \<Rightarrow> policy_state
     \<Rightarrow> (asset_allowance option \<times> denial_reason option \<times> rule_context \<times> policy_state) res" where
  "screen_asset_rules env p pid a recip amt c st =
     (if pl_max_amount p \<noteq> 0 \<and> amt > pl_max_amount p then Ok (None, Some DrAboveMaxTransactionLimit, c, st)
      else if (case pl_allowed_recipient p of Some r \<Rightarrow> r \<noteq> recip | None \<Rightarrow> False)
      then Ok (None, Some DrRecipientNotAllowed, c, st)
      else if (case pl_allowed_asset p of Some b \<Rightarrow> b \<noteq> a | None \<Rightarrow> False)
      then Ok (None, Some DrAssetNotAllowed, c, st)
      else if po_asset_blacklist st (pid, a) \<noteq> None then Ok (None, Some DrAssetBlacklisted, c, st)
      else if asset_whitelist_denied st pid a then Ok (None, Some DrAssetNotWhitelisted, c, st)
      else case consume_allowance env pid a amt st of (st1, r) \<Rightarrow>
      (case r of
         Ok al \<Rightarrow>
           let payload = \<lparr>tp_asset = a, tp_recipient = recip, tp_amount = amt\<rparr> in
           rbind (composite_rule_with_context st1 pid payload c) (\<lambda>(b, c1).
           if \<not> b then Ok (None, Some DrCompositeRuleDenied, c1, st1)
           else rbind (policy_rules_with_context st1 pid payload (pl_strategy p) c1) (\<lambda>(b2, c2).
                if \<not> b2 then Ok (None, Some DrRuleStackDenied, c2, st1)
                else Ok (al, None, c2, st1)))
       | Err e \<Rightarrow>
           if e = AllowanceExpired then Ok (None, Some DrAllowanceExpired, c, st1)
           else if e = AllowanceExceeded then Ok (None, Some DrAllowanceExceeded, c, st1)
           else Err e
       | Panic \<Rightarrow> Panic))"

definition evaluate_policy_decision ::
  "env \<Rightarrow> string \<Rightarrow> transaction_payload \<Rightarrow> policy_state \<Rightarrow> (policy_decision \<times> policy_state) res" where
  "evaluate_policy_decision env pid payload st =
     rbind (pol_load st pid) (\<lambda>p.
     rbind (screen_recipient_rules env st pid p (tp_recipient payload) fresh_context) (\<lambda>(d, c).
     case d of
       Some reason \<Rightarrow> Ok (decision_deny reason (pl_max_amount p), st)
     | None \<Rightarrow>
         rbind (screen_asset_rules env p pid (tp_asset payload) (tp_recipient payload) (tp_amount payload) c st)
           (\<lambda>(_, denial, _, st1).
            case denial of
              Some reason \<Rightarrow> Ok (decision_deny reason (pl_max_amount p), st1)
            | None \<Rightarrow> Ok (decision_allow (pl_max_amount p), st1))))"

definition report_denial :: "string \<Rightarrow> denial_reason \<Rightarrow> policy_state \<Rightarrow> policy_state" where
  "report_denial pid reason st =
     (if \<not> is_self_reported reason then events_policy_violation pid (reason_str reason) st else st)"

definition enforce_decision :: "string \<Rightarrow> policy_decision \<Rightarrow> policy_state \<Rightarrow> (unit \<times> policy_state) res" where
  "enforce_decision pid d st = (case decision_reason d of None \<Rightarrow> Ok ((), st) | Some reason \<Rightarrow> Err (to_error reason))"

definition check_transfer ::
  "env \<Rightarrow> string \<Rightarrow> address \<Rightarrow> address \<Rightarrow> i128 \<Rightarrow> policy_state \<Rightarrow> (unit \<times> policy_state) res" where
  "check_transfer env pid a recip amt st =
     rbind (require_positive_amount amt) (\<lambda>_.
     rbind (evaluate_policy_decision env pid \<lparr>tp_asset = a, tp_recipient = recip, tp_amount = amt\<rparr> st) (\<lambda>(d, st1).
     enforce_decision pid d st1))"

definition evaluate_policy ::
  "env \<Rightarrow> string \<Rightarrow> transaction_payload \<Rightarrow> policy_state \<Rightarrow> (policy_decision \<times> policy_state) res" where
  "evaluate_policy env pid payload st =
     rbind (require_positive_amount (tp_amount payload)) (\<lambda>_.
     rbind (evaluate_policy_decision env pid payload st) (\<lambda>(d, st1).
     Ok (d, case decision_reason d of Some reason \<Rightarrow> report_denial pid reason st1 | None \<Rightarrow> st1)))"

section \<open>Multi-asset requests\<close>

fun aggregate_amounts_loop :: "asset_amount list \<Rightarrow> bal_map \<Rightarrow> bal_map res" where
  "aggregate_amounts_loop [] totals = Ok totals"
| "aggregate_amounts_loop (e # es) totals =
     rbind (require_positive_amount (amount e)) (\<lambda>_.
     rbind (checked_add (unwrap_or (smap_get totals (asset e)) 0) (amount e)) (\<lambda>total.
     aggregate_amounts_loop es (smap_set (asset e) total totals)))"

definition aggregate_amounts :: "asset_amount list \<Rightarrow> bal_map res" where
  "aggregate_amounts amounts =
     (if amounts = [] \<or> length amounts > MAX_SPEND_ENTRIES then Err InvalidInput
      else aggregate_amounts_loop amounts [])"

fun screen_legs ::
  "env \<Rightarrow> policy \<Rightarrow> string \<Rightarrow> address \<Rightarrow> bal_map \<Rightarrow> rule_context \<Rightarrow> policy_state \<Rightarrow> asset_allowance list
     \<Rightarrow> asset_allowance list res" where
  "screen_legs env p pid recip [] c st updated = Ok updated"
| "screen_legs env p pid recip ((a, tot) # legs) c st updated =
     rbind (screen_asset_rules env p pid a recip tot c st) (\<lambda>(al, denial, c1, st1).
     case denial of
       Some reason \<Rightarrow> Err (to_error reason)
     | None \<Rightarrow> screen_legs env p pid recip legs c1 st1 (case al of Some x \<Rightarrow> updated @ [x] | None \<Rightarrow> updated))"

definition evaluate_spend ::
  "env \<Rightarrow> policy_state \<Rightarrow> string \<Rightarrow> address \<Rightarrow> asset_amount list \<Rightarrow> (bal_map \<times> asset_allowance list) res" where
  "evaluate_spend env st pid recip amounts =
     rbind (aggregate_amounts amounts) (\<lambda>totals.
     rbind (pol_load st pid) (\<lambda>p.
     rbind (screen_recipient_rules env st pid p recip fresh_context) (\<lambda>(d, c).
     case d of
       Some reason \<Rightarrow> Err (to_error reason)
     | None \<Rightarrow>
         rbind (screen_legs env p pid recip totals c st []) (\<lambda>updated. Ok (totals, updated)))))"

definition check_multi_asset_transfer ::
  "env \<Rightarrow> policy_state \<Rightarrow> string \<Rightarrow> address \<Rightarrow> asset_amount list \<Rightarrow> unit res" where
  "check_multi_asset_transfer env st pid recip amounts =
     rbind (evaluate_spend env st pid recip amounts) (\<lambda>_. Ok ())"

fun record_spends :: "bal_map \<Rightarrow> asset_allowance list \<Rightarrow> policy_state \<Rightarrow> policy_state res" where
  "record_spends totals [] st = Ok st"
| "record_spends totals (al # als) st =
     rbind (ok_or (smap_get totals (al_asset al)) NotFound) (\<lambda>amt.
     record_spends totals als (persist_spend al amt st))"

definition record_multi_asset_spend ::
  "env \<Rightarrow> address \<Rightarrow> string \<Rightarrow> address \<Rightarrow> asset_amount list \<Rightarrow> policy_state \<Rightarrow> (unit \<times> policy_state) res" where
  "record_multi_asset_spend env caller pid recip amounts st =
     rbind (require_policy_owner env st caller pid) (\<lambda>_.
     rbind (evaluate_spend env st pid recip amounts) (\<lambda>(totals, updated).
     rbind (record_spends totals updated st) (\<lambda>st1. Ok ((), st1))))"

end
