(* ===== verification/Policy_Rules.thy ===== *)
theory Policy_Rules
  imports Policy
begin

text \<open>
  The rule engine of the policy contract. The flattened trees are related to ordinary Boolean rules:
  \<open>decode\<close> reads a rule off a tree as far as the depth limit sees it, \<open>flatten\<close> lays a rule out level by
  level. The cache of blocklist lookups is shown not to influence a verdict.
\<close>

section \<open>Rules\<close>

datatype rule =
    RMax i128 | RRecipient address | RAsset address | RBlacklisted | RMerchant
  | RAll "rule list" | RSome "rule list" | RNot rule

fun rule_holds :: "policy_state \<Rightarrow> transaction_payload \<Rightarrow> rule \<Rightarrow> bool" where
  "rule_holds st p (RMax n) \<longleftrightarrow> tp_amount p \<le> n"
| "rule_holds st p (RRecipient a) \<longleftrightarrow> tp_recipient p = a"
| "rule_holds st p (RAsset a) \<longleftrightarrow> tp_asset p = a"
| "rule_holds st p RBlacklisted \<longleftrightarrow> po_blacklist st (tp_recipient p) \<noteq> None"
| "rule_holds st p RMerchant \<longleftrightarrow> po_merchant_blacklist st (tp_recipient p) \<noteq> None"
| "rule_holds st p (RAll rs) \<longleftrightarrow> list_all (rule_holds st p) rs"
| "rule_holds st p (RSome rs) \<longleftrightarrow> list_ex (rule_holds st p) rs"
| "rule_holds st p (RNot r) \<longleftrightarrow> \<not> rule_holds st p r"

fun kids :: "rule \<Rightarrow> rule list" where
  "kids (RAll rs) = rs"
| "kids (RSome rs) = rs"
| "kids (RNot r) = [r]"
| "kids _ = []"

fun rule_height :: "rule \<Rightarrow> nat" where
  "rule_height (RAll rs) = Suc (fold max (map rule_height rs) 0)"
| "rule_height (RSome rs) = Suc (fold max (map rule_height rs) 0)"
| "rule_height (RNot r) = Suc (rule_height r)"
| "rule_height _ = 1"

text \<open>The rules a tree can express: no branch is empty.\<close>

fun rule_wf :: "rule \<Rightarrow> bool" where
  "rule_wf (RAll rs) \<longleftrightarrow> rs \<noteq> [] \<and> list_all rule_wf rs"
| "rule_wf (RSome rs) \<longleftrightarrow> rs \<noteq> [] \<and> list_all rule_wf rs"
| "rule_wf (RNot r) \<longleftrightarrow> rule_wf r"
| "rule_wf _ \<longleftrightarrow> True"

fun decode :: "rule_tree \<Rightarrow> nat \<Rightarrow> nat \<Rightarrow> rule option" where
  "decode tree 0 i = None"
| "decode tree (Suc d) i =
     (if i \<ge> length tree then None
      else let n = tree ! i; ks = [rn_children_start n..<rn_children_end n] in
      case rn_op n of
        MaxAmount \<Rightarrow> Some (RMax (rn_value_i128 n))
      | AllowedRecipient \<Rightarrow> Some (RRecipient (rn_value_address n))
      | AllowedAsset \<Rightarrow> Some (RAsset (rn_value_address n))
      | RecipientBlacklisted \<Rightarrow> Some RBlacklisted
      | MerchantBlacklisted \<Rightarrow> Some RMerchant
      | OpAnd \<Rightarrow> if ks = [] then None else map_option RAll (those (map (decode tree d) ks))
      | OpOr \<Rightarrow> if ks = [] then None else map_option RSome (those (map (decode tree d) ks))
      | OpNot \<Rightarrow> if length ks \<noteq> 1 then None else map_option RNot (decode tree d (rn_children_start n)))"

text \<open>Level by level: the nodes of a level in order, then the level of all their children.\<close>

fun node_of :: "rule \<Rightarrow> nat \<Rightarrow> rule_node" where
  "node_of (RMax n) s = \<lparr>rn_op = MaxAmount, rn_value_i128 = n, rn_value_address = 0, rn_children_start = 0, rn_children_end = 0\<rparr>"
| "node_of (RRecipient a) s = \<lparr>rn_op = AllowedRecipient, rn_value_i128 = 0, rn_value_address = a, rn_children_start = 0, rn_children_end = 0\<rparr>"
| "node_of (RAsset a) s = \<lparr>rn_op = AllowedAsset, rn_value_i128 = 0, rn_value_address = a, rn_children_start = 0, rn_children_end = 0\<rparr>"
| "node_of RBlacklisted s = \<lparr>rn_op = RecipientBlacklisted, rn_value_i128 = 0, rn_value_address = 0, rn_children_start = 0, rn_children_end = 0\<rparr>"
| "node_of RMerchant s = \<lparr>rn_op = MerchantBlacklisted, rn_value_i128 = 0, rn_value_address = 0, rn_children_start = 0, rn_children_end = 0\<rparr>"
| "node_of (RAll rs) s = \<lparr>rn_op = OpAnd, rn_value_i128 = 0, rn_value_address = 0, rn_children_start = s, rn_children_end = s + length rs\<rparr>"
| "node_of (RSome rs) s = \<lparr>rn_op = OpOr, rn_value_i128 = 0, rn_value_address = 0, rn_children_start = s, rn_children_end = s + length rs\<rparr>"
| "node_of (RNot r) s = \<lparr>rn_op = OpNot, rn_value_i128 = 0, rn_value_address = 0, rn_children_start = s, rn_children_end = Suc s\<rparr>"

fun layer :: "nat \<Rightarrow> rule list \<Rightarrow> rule_tree" where
  "layer s [] = []"
| "layer s (r # rs) = node_of r s # layer (s + length (kids r)) rs"

lemma size_level: "rs \<noteq> [] \<Longrightarrow> size_list size (concat (map kids rs)) < size_list size rs"
proof (induction rs)
  case Nil
  then show ?case by simp
next
  case (Cons r rs)
  have k: "size_list size (kids r) < Suc (size r)" by (cases r) auto
  have "size_list size (xs @ ys) = size_list size xs + size_list size ys" for xs ys :: "rule list"
    by (induction xs) auto
  then show ?case using Cons k by (cases "rs = []") auto
qed

function flatten_from :: "nat \<Rightarrow> rule list \<Rightarrow> rule_tree" where
  "flatten_from base rs =
     (if rs = [] then []
      else layer (base + length rs) rs @ flatten_from (base + length rs) (concat (map kids rs)))"
  by auto
termination by (relation "measure (\<lambda>(_, rs). size_list size rs)") (use size_level in auto)

declare flatten_from.simps [simp del]

definition flatten :: "rule \<Rightarrow> rule_tree" where
  "flatten r = flatten_from 0 [r]"

section \<open>The cache\<close>

definition ctx_ok :: "policy_state \<Rightarrow> address \<Rightarrow> rule_context \<Rightarrow> bool" where
  "ctx_ok st recip c \<longleftrightarrow>
     (\<forall>b. rc_recipient_blacklisted c = Some b \<longrightarrow> b = (po_blacklist st recip \<noteq> None)) \<and>
     (\<forall>b. rc_merchant_blacklisted c = Some b \<longrightarrow> b = (po_merchant_blacklist st recip \<noteq> None))"

lemma ctx_ok_fresh [simp]: "ctx_ok st recip fresh_context"
  by (simp add: ctx_ok_def fresh_context_def)

lemma blacklisted_cache:
  assumes "ctx_ok st recip c"
  obtains c1 c2 where "recipient_blacklisted st recip c = (po_blacklist st recip \<noteq> None, c1)" "ctx_ok st recip c1"
    "merchant_blacklisted st recip c = (po_merchant_blacklist st recip \<noteq> None, c2)" "ctx_ok st recip c2"
proof -
  have "\<exists>c1. recipient_blacklisted st recip c = (po_blacklist st recip \<noteq> None, c1) \<and> ctx_ok st recip c1"
    using assms by (cases "rc_recipient_blacklisted c") (simp_all add: recipient_blacklisted_def ctx_ok_def Let_def)
  moreover have "\<exists>c2. merchant_blacklisted st recip c = (po_merchant_blacklist st recip \<noteq> None, c2) \<and> ctx_ok st recip c2"
    using assms by (cases "rc_merchant_blacklisted c") (simp_all add: merchant_blacklisted_def ctx_ok_def Let_def)
  ultimately show ?thesis using that by blast
qed

text \<open>Two evaluations with the same verdict, both leaving a correct cache.\<close>

abbreviation same_verdict ::
  "policy_state \<Rightarrow> address \<Rightarrow> (bool \<times> rule_context) res \<Rightarrow> (bool \<times> rule_context) res \<Rightarrow> bool" where
  "same_verdict st recip \<equiv> rel_result (=) (rel_prod (=) (\<lambda>c c'. ctx_ok st recip c \<and> ctx_ok st recip c'))"

lemma same_verdict_bind:
  assumes "same_verdict st recip m m'"
    and "\<And>b c c'. ctx_ok st recip c \<Longrightarrow> ctx_ok st recip c' \<Longrightarrow> same_verdict st recip (f (b, c)) (f (b, c'))"
  shows "same_verdict st recip (rbind m f) (rbind m' f)"
  using assms by (cases m; cases m') (auto simp: rel_prod_sel)

lemma same_verdict_loops:
  assumes "\<And>i c c'. i \<in> set is \<Longrightarrow> ctx_ok st recip c \<Longrightarrow> ctx_ok st recip c' \<Longrightarrow> same_verdict st recip (ev i c) (ev i c')"
    and "ctx_ok st recip c" "ctx_ok st recip c'"
  shows "same_verdict st recip (eval_all ev is c) (eval_all ev is c')"
    and "same_verdict st recip (eval_any ev is c) (eval_any ev is c')"
proof -
  show "same_verdict st recip (eval_all ev is c) (eval_all ev is c')"
    using assms by (induction "is" arbitrary: c c') (auto intro!: same_verdict_bind)
  show "same_verdict st recip (eval_any ev is c) (eval_any ev is c')"
    using assms by (induction "is" arbitrary: c c') (auto intro!: same_verdict_bind)
qed

lemma evaluate_node_cache:
  assumes "ctx_ok st (tp_recipient p) c" "ctx_ok st (tp_recipient p) c'"
  shows "same_verdict st (tp_recipient p) (evaluate_node st tree p d i c) (evaluate_node st tree p d i c')"
  using assms
proof (induction d arbitrary: i c c')
  case 0
  then show ?case by simp
next
  case (Suc d)
  let ?r = "tp_recipient p"
  have loops: "same_verdict st ?r (eval_all (evaluate_node st tree p d) ks c) (eval_all (evaluate_node st tree p d) ks c')"
    "same_verdict st ?r (eval_any (evaluate_node st tree p d) ks c) (eval_any (evaluate_node st tree p d) ks c')" for ks
    by (rule same_verdict_loops [OF Suc.IH Suc.prems], assumption+)+
  have neg: "same_verdict st ?r (rbind (evaluate_node st tree p d k c) (\<lambda>(b, c1). Ok (\<not> b, c1)))
      (rbind (evaluate_node st tree p d k c') (\<lambda>(b, c1). Ok (\<not> b, c1)))" for k
    by (rule same_verdict_bind [OF Suc.IH [OF Suc.prems]]) simp
  obtain c1 c2 where c: "recipient_blacklisted st ?r c = (po_blacklist st ?r \<noteq> None, c1)" "ctx_ok st ?r c1"
    "merchant_blacklisted st ?r c = (po_merchant_blacklist st ?r \<noteq> None, c2)" "ctx_ok st ?r c2"
    by (rule blacklisted_cache [OF Suc.prems(1)])
  obtain c1' c2' where c': "recipient_blacklisted st ?r c' = (po_blacklist st ?r \<noteq> None, c1')" "ctx_ok st ?r c1'"
    "merchant_blacklisted st ?r c' = (po_merchant_blacklist st ?r \<noteq> None, c2')" "ctx_ok st ?r c2'"
    by (rule blacklisted_cache [OF Suc.prems(2)])
  show ?case using loops neg Suc.prems c c' by (auto simp: Let_def split: rule_op.split)
qed

section \<open>The engine computes the decoded rule\<close>

lemma loops_eval:
  assumes "\<And>i c. i \<in> set is \<Longrightarrow> C c \<Longrightarrow> \<exists>c'. ev i c = Ok (P i, c') \<and> C c'" and "C c"
  shows "\<exists>c'. eval_all ev is c = Ok (list_all P is, c') \<and> C c'"
    and "\<exists>c'. eval_any ev is c = Ok (list_ex P is, c') \<and> C c'"
proof -
  show "\<exists>c'. eval_all ev is c = Ok (list_all P is, c') \<and> C c'"
    using assms
  proof (induction "is" arbitrary: c)
    case (Cons i "is")
    from Cons.prems(1) [of i c] Cons.prems(2) obtain c1 where "ev i c = Ok (P i, c1)" "C c1" by auto
    then show ?case using Cons.IH [of c1] Cons.prems(1) by (cases "P i") auto
  qed simp
  show "\<exists>c'. eval_any ev is c = Ok (list_ex P is, c') \<and> C c'"
    using assms
  proof (induction "is" arbitrary: c)
    case (Cons i "is")
    from Cons.prems(1) [of i c] Cons.prems(2) obtain c1 where "ev i c = Ok (P i, c1)" "C c1" by auto
    then show ?case using Cons.IH [of c1] Cons.prems(1) by (cases "P i") auto
  qed simp
qed

lemma those_map_Some:
  assumes "those (map f xs) = Some ys"
  shows "length ys = length xs \<and> (\<forall>x \<in> set xs. f x \<noteq> None) \<and> ys = map (\<lambda>x. the (f x)) xs"
  using assms by (induction xs arbitrary: ys) (auto split: option.splits)

lemma decode_eval:
  assumes "decode tree d i = Some r" "ctx_ok st (tp_recipient p) c"
  shows "\<exists>c'. evaluate_node st tree p d i c = Ok (rule_holds st p r, c') \<and> ctx_ok st (tp_recipient p) c'"
  using assms
proof (induction d arbitrary: i r c)
  case 0
  then show ?case by simp
next
  case (Suc d)
  let ?n = "tree ! i" and ?C = "ctx_ok st (tp_recipient p)"
  let ?ks = "[rn_children_start ?n..<rn_children_end ?n]"
  have i: "\<not> length tree \<le> i" using Suc.prems(1) by (auto split: if_splits)
  obtain c1 c2 where c: "recipient_blacklisted st (tp_recipient p) c = (po_blacklist st (tp_recipient p) \<noteq> None, c1)" "?C c1"
    "merchant_blacklisted st (tp_recipient p) c = (po_merchant_blacklist st (tp_recipient p) \<noteq> None, c2)" "?C c2"
    by (rule blacklisted_cache [OF Suc.prems(2)])
  have loops: "(\<exists>c'. eval_all (evaluate_node st tree p d) ?ks c = Ok (list_all (rule_holds st p) rs, c') \<and> ?C c') \<and>
      (\<exists>c'. eval_any (evaluate_node st tree p d) ?ks c = Ok (list_ex (rule_holds st p) rs, c') \<and> ?C c')"
    if "those (map (decode tree d) ?ks) = Some rs" for rs
  proof -
    have d: "\<forall>x \<in> set ?ks. decode tree d x \<noteq> None" "rs = map (\<lambda>x. the (decode tree d x)) ?ks"
      using those_map_Some [OF that] by blast+
    have ev: "\<exists>c'. evaluate_node st tree p d k c = Ok (rule_holds st p (the (decode tree d k)), c') \<and> ?C c'"
      if "k \<in> set ?ks" "?C c" for k c using Suc.IH [of k] that d(1) by auto
    from loops_eval [of ?ks ?C, OF ev Suc.prems(2)] show ?thesis
      unfolding d(2) by (simp add: list_all_iff list_ex_iff)
  qed
  have one: "rn_children_end ?n - rn_children_start ?n = Suc 0 \<Longrightarrow> rn_children_start ?n \<le> rn_children_end ?n" by simp
  show ?case
  proof (cases "rn_op ?n")
    case OpAnd
    then obtain rs where "those (map (decode tree d) ?ks) = Some rs" "r = RAll rs" "?ks \<noteq> []"
      using Suc.prems(1) i by (auto simp: Let_def split: if_splits)
    then show ?thesis using loops [of rs] OpAnd i by (auto simp: Let_def)
  next
    case OpOr
    then obtain rs where "those (map (decode tree d) ?ks) = Some rs" "r = RSome rs" "?ks \<noteq> []"
      using Suc.prems(1) i by (auto simp: Let_def split: if_splits)
    then show ?thesis using loops [of rs] OpOr i by (auto simp: Let_def)
  next
    case OpNot
    then obtain q where q: "decode tree d (rn_children_start ?n) = Some q" "r = RNot q"
      "rn_children_end ?n - rn_children_start ?n = Suc 0"
      using Suc.prems(1) i by (auto simp: Let_def split: if_splits)
    then show ?thesis using Suc.IH [OF q(1) Suc.prems(2)] OpNot i one by (auto simp: Let_def checked_sub_word_def)
  qed (use Suc.prems i c in \<open>auto simp: Let_def\<close>)
qed

section \<open>Every rule within the limit can be written\<close>

lemma length_layer [simp]: "length (layer s rs) = length rs"
  by (induction rs arbitrary: s) auto

lemma layer_nth:
  "i < length rs \<Longrightarrow> layer s rs ! i = node_of (rs ! i) (s + length (concat (map kids (take i rs))))"
  by (induction rs arbitrary: s i) (auto simp: nth_Cons add.assoc split: nat.splits)

lemma concat_kids_nth:
  assumes "i < length rs" "j < length (kids (rs ! i))"
  shows "length (concat (map kids (take i rs))) + j < length (concat (map kids rs)) \<and>
    concat (map kids rs) ! (length (concat (map kids (take i rs))) + j) = kids (rs ! i) ! j"
  using assms by (induction rs arbitrary: i) (auto simp: nth_Cons nth_append split: nat.splits)

lemma height_kids: "q \<in> set (kids r) \<Longrightarrow> rule_height q < rule_height r"
proof -
  have "x \<in> set xs \<Longrightarrow> x \<le> fold max xs (0 :: nat)" for x and xs
    using Max.set_eq_fold [of 0 xs] by (metis List.finite_set Max_ge list.set_intros(2))
  then show "q \<in> set (kids r) \<Longrightarrow> rule_height q < rule_height r"
    by (cases r) (auto simp: less_Suc_eq_le)
qed

lemma height_pos: "0 < rule_height r"
  by (cases r) auto

lemma wf_kids: "rule_wf r \<Longrightarrow> q \<in> set (kids r) \<Longrightarrow> rule_wf q"
  by (cases r) (auto simp: list_all_iff)

lemma those_map_all: "(\<And>j. j < length qs \<Longrightarrow> f (s + j) = Some (qs ! j)) \<Longrightarrow> those (map f [s..<s + length qs]) = Some qs"
proof (induction qs arbitrary: s)
  case (Cons q qs)
  have "f s = Some q" using Cons.prems [of 0] by simp
  moreover have "those (map f [Suc s..<Suc s + length qs]) = Some qs"
    using Cons.IH [of "Suc s"] Cons.prems [of "Suc j" for j] by simp
  ultimately show ?case by (simp add: upt_conv_Cons del: upt_Suc)
qed simp

lemma decode_flatten_from:
  assumes "tree = pre @ flatten_from (length pre) rs" "\<And>r. r \<in> set rs \<Longrightarrow> rule_wf r \<and> rule_height r \<le> d" "i < length rs"
  shows "decode tree d (length pre + i) = Some (rs ! i)"
  using assms
proof (induction d arbitrary: rs pre i)
  case 0
  then show ?case using height_pos [of "rs ! i"] nth_mem by fastforce
next
  case (Suc d)
  let ?r = "rs ! i" and ?cs = "concat (map kids rs)" and ?s = "length pre + length rs"
  let ?off = "length (concat (map kids (take i rs)))"
  have tree: "tree = (pre @ layer ?s rs) @ flatten_from ?s ?cs"
    using Suc.prems(1,3) flatten_from.simps [of "length pre" rs] by auto
  have r: "rule_wf ?r" "rule_height ?r \<le> Suc d" using Suc.prems(2) [of ?r] Suc.prems(3) by auto
  have node: "tree ! (length pre + i) = node_of ?r (?s + ?off)" "length pre + i < length tree"
    using Suc.prems(3) layer_nth [of i rs ?s] by (simp_all add: tree nth_append)
  have "rule_wf q \<and> rule_height q \<le> d" if "q \<in> set ?cs" for q
  proof -
    from that obtain r' where "r' \<in> set rs" "q \<in> set (kids r')" by auto
    then show ?thesis using Suc.prems(2) [of r'] height_kids [of q r'] wf_kids [of r' q] by auto
  qed
  then have level: "decode tree d (?s + m) = Some (?cs ! m)" if "m < length ?cs" for m
    using Suc.IH [of "pre @ layer ?s rs" ?cs m] tree that by simp
  have K: "decode tree d (?s + ?off + j) = Some (kids ?r ! j)" if "j < length (kids ?r)" for j
    using concat_kids_nth [OF Suc.prems(3) that] level [of "?off + j"] by (simp add: add.assoc)
  have branch: "those (map (decode tree d) [?s + ?off..<?s + ?off + length (kids ?r)]) = Some (kids ?r)"
    by (rule those_map_all) (rule K)
  show ?case
  proof (cases ?r)
    case (RAll qs)
    then show ?thesis using node branch r by (simp add: Let_def)
  next
    case (RSome qs)
    then show ?thesis using node branch r by (simp add: Let_def)
  next
    case (RNot q)
    then show ?thesis using node K [of 0] r by (simp add: Let_def)
  qed (use node in \<open>simp_all add: Let_def\<close>)
qed

lemma decode_flatten:
  assumes "rule_wf r" "rule_height r \<le> d"
  shows "decode (flatten r) d 0 = Some r"
  using decode_flatten_from [of "flatten r" "[]" "[r]" d 0] assms by (simp add: flatten_def)

text \<open>Child ranges stay inside the tree.\<close>

lemma flatten_ranges:
  "n \<in> set (flatten_from base rs) \<Longrightarrow> rn_children_end n \<le> base + length (flatten_from base rs)"
proof (induction base rs rule: flatten_from.induct)
  case (1 base rs)
  let ?s = "base + length rs" and ?cs = "concat (map kids rs)"
  have unf: "rs \<noteq> [] \<Longrightarrow> flatten_from base rs = layer ?s rs @ flatten_from ?s ?cs"
    using flatten_from.simps [of base rs] by simp
  have grow: "length ?cs \<le> length (flatten_from ?s ?cs)" using flatten_from.simps [of ?s ?cs] by auto
  have e: "rn_children_end (node_of r t) \<le> t + length (kids r)" for r t by (cases r) auto
  have "rn_children_end n \<le> t + length (concat (map kids qs))" if "n \<in> set (layer t qs)" for n t qs
    using that
  proof (induction qs arbitrary: t)
    case (Cons q qs)
    then show ?case using e [of q t] by (fastforce simp: add.assoc)
  qed simp
  from this [of n ?s rs] show ?case using 1 unf grow flatten_from.simps [of base rs] by (auto split: if_splits)
qed

lemma flatten_nodes:
  "n \<in> set (flatten_from base rs) \<Longrightarrow> \<forall>r \<in> set rs. rule_wf r \<Longrightarrow> \<exists>r s. rule_wf r \<and> n = node_of r s"
proof (induction base rs rule: flatten_from.induct)
  case (1 base rs)
  have "\<exists>r s. r \<in> set qs \<and> n = node_of r s" if "n \<in> set (layer t qs)" for n t qs
    using that by (induction qs arbitrary: t) (simp, force)
  then show ?case using 1 wf_kids flatten_from.simps [of base rs] by (auto split: if_splits) blast+
qed

lemma flatten_valid:
  assumes "rule_wf r"
  shows "validate_rule_tree (flatten r) = Ok ()"
proof -
  have "\<not> bad_children (length (flatten r)) n" if n: "n \<in> set (flatten r)" for n
  proof -
    obtain q s where "rule_wf q" "n = node_of q s" using flatten_nodes [of n 0 "[r]"] n assms by (auto simp: flatten_def)
    then show ?thesis using flatten_ranges [of n 0 "[r]"] n
      by (cases q) (auto simp: bad_children_def flatten_def checked_sub_word_def)
  qed
  moreover have "flatten r \<noteq> []" using flatten_from.simps [of 0 "[r]"] by (simp add: flatten_def)
  ultimately show ?thesis by (simp add: validate_rule_tree_def list_ex_iff)
qed

section \<open>Termination with a verdict\<close>

text \<open>A tree whose child ranges point forward, as every layout from the root does.\<close>

definition forward_tree :: "rule_tree \<Rightarrow> bool" where
  "forward_tree tree \<longleftrightarrow>
     (\<forall>i < length tree. rn_op (tree ! i) \<in> {OpAnd, OpOr, OpNot} \<longrightarrow> i < rn_children_start (tree ! i))"

lemma valid_node:
  assumes "validate_rule_tree tree = Ok ()" "i < length tree" "rn_op (tree ! i) \<in> {OpAnd, OpOr, OpNot}"
  shows "rn_children_start (tree ! i) < rn_children_end (tree ! i)" "rn_children_end (tree ! i) \<le> length tree"
    "rn_op (tree ! i) = OpNot \<Longrightarrow> rn_children_end (tree ! i) = Suc (rn_children_start (tree ! i))"
proof -
  have "\<not> bad_children (length tree) (tree ! i)"
    using assms(1,2) by (auto simp: validate_rule_tree_def list_ex_iff split: if_splits)
  then show "rn_children_start (tree ! i) < rn_children_end (tree ! i)" "rn_children_end (tree ! i) \<le> length tree"
    "rn_op (tree ! i) = OpNot \<Longrightarrow> rn_children_end (tree ! i) = Suc (rn_children_start (tree ! i))"
    using assms(3) by (auto simp: bad_children_def checked_sub_word_def split: if_splits)
qed

lemma those_total: "(\<And>x. x \<in> set xs \<Longrightarrow> f x \<noteq> None) \<Longrightarrow> those (map f xs) \<noteq> None"
  by (induction xs) (auto split: option.splits)

lemma forward_decodes:
  assumes "validate_rule_tree tree = Ok ()" "forward_tree tree" "i < length tree" "length tree - i \<le> d"
  shows "decode tree d i \<noteq> None"
  using assms(3,4)
proof (induction d arbitrary: i)
  case 0
  then show ?case by simp
next
  case (Suc d)
  let ?n = "tree ! i"
  have kids: "decode tree d k \<noteq> None"
    if "rn_op ?n \<in> {OpAnd, OpOr, OpNot}" "k \<in> set [rn_children_start ?n..<rn_children_end ?n]" for k
  proof (rule Suc.IH)
    have "i < rn_children_start ?n" using assms(2) Suc.prems(1) that(1) unfolding forward_tree_def by blast
    then show "k < length tree" "length tree - k \<le> d"
      using that(2) valid_node [OF assms(1) Suc.prems(1) that(1)] Suc.prems by auto
  qed
  have loop: "rn_op ?n \<in> {OpAnd, OpOr, OpNot} \<Longrightarrow> those (map (decode tree d) [rn_children_start ?n..<rn_children_end ?n]) \<noteq> None"
    by (rule those_total) (rule kids)
  show ?case using kids [of "rn_children_start ?n"] loop valid_node [OF assms(1) Suc.prems(1)] Suc.prems(1)
    by (cases "rn_op ?n") (auto simp: Let_def)
qed

lemma loops_total:
  assumes "\<And>i c. is_ok (ev i c) \<or> ev i c = Err InvalidInput"
  shows "is_ok (eval_all ev is c) \<or> eval_all ev is c = Err InvalidInput"
    and "is_ok (eval_any ev is c) \<or> eval_any ev is c = Err InvalidInput"
proof -
  show "is_ok (eval_all ev is c) \<or> eval_all ev is c = Err InvalidInput"
  proof (induction "is" arbitrary: c)
    case (Cons i "is")
    then have "is_ok (eval_all ev is c1) \<or> eval_all ev is c1 = Err InvalidInput" for c1 by blast
    then show ?case using assms [of i c] by (cases "ev i c") (simp_all split: prod.split)
  qed simp
  show "is_ok (eval_any ev is c) \<or> eval_any ev is c = Err InvalidInput"
  proof (induction "is" arbitrary: c)
    case (Cons i "is")
    then have "is_ok (eval_any ev is c1) \<or> eval_any ev is c1 = Err InvalidInput" for c1 by blast
    then show ?case using assms [of i c] by (cases "ev i c") (simp_all split: prod.split)
  qed simp
qed

lemma evaluate_node_total:
  "is_ok (evaluate_node st tree p d i c) \<or> evaluate_node st tree p d i c = Err InvalidInput"
proof (induction d arbitrary: i c)
  case (Suc d)
  have neg: "is_ok (rbind m (\<lambda>(b, c1). Ok (\<not> b, c1))) \<or> rbind m (\<lambda>(b, c1). Ok (\<not> b, c1)) = Err InvalidInput"
    if "is_ok m \<or> m = Err InvalidInput" for m :: "(bool \<times> rule_context) res"
    using that by (cases m) auto
  show ?case using loops_total [of "evaluate_node st tree p d", OF Suc] neg [OF Suc]
    by (cases "rn_op (tree ! i)") (simp_all add: Let_def)
qed simp

end
