(* ===== verification/Policy_Props.thy ===== *)
theory Policy_Props
  imports Policy_Rules
begin

text \<open>
  The policy contract as a whole: the storage invariant over every run, ownership of what a policy
  stores, the exact meaning of the rule walk, the agreement of its entry points, the rate limit of an
  allowance and the exact effect of a multi-asset spend.
\<close>

section \<open>Guards and effects\<close>

lemma po_emit_sel [simp]:
  "po_policies (po_emit es st) = po_policies st" "po_count (po_emit es st) = po_count st"
  "po_blacklist (po_emit es st) = po_blacklist st" "po_merchant_blacklist (po_emit es st) = po_merchant_blacklist st"
  "po_category_blacklist (po_emit es st) = po_category_blacklist st"
  "po_asset_whitelist (po_emit es st) = po_asset_whitelist st" "po_asset_blacklist (po_emit es st) = po_asset_blacklist st"
  "po_asset_whitelist_enabled (po_emit es st) = po_asset_whitelist_enabled st"
  "po_recipient_whitelist (po_emit es st) = po_recipient_whitelist st"
  "po_recipient_whitelist_enabled (po_emit es st) = po_recipient_whitelist_enabled st"
  "po_recipient_whitelist_index (po_emit es st) = po_recipient_whitelist_index st"
  "po_allowances (po_emit es st) = po_allowances st" "po_composite_rule (po_emit es st) = po_composite_rule st"
  "po_policy_rules (po_emit es st) = po_policy_rules st" "po_events (po_emit es st) = po_events st @ es"
  by (simp_all add: po_emit_def)

lemma pol_store_sel [simp]:
  "po_policies (pol_store pid p st) = (po_policies st)(pid \<mapsto> p)"
  "po_blacklist (pol_store pid p st) = po_blacklist st" "po_merchant_blacklist (pol_store pid p st) = po_merchant_blacklist st"
  "po_category_blacklist (pol_store pid p st) = po_category_blacklist st"
  "po_asset_whitelist (pol_store pid p st) = po_asset_whitelist st" "po_asset_blacklist (pol_store pid p st) = po_asset_blacklist st"
  "po_asset_whitelist_enabled (pol_store pid p st) = po_asset_whitelist_enabled st"
  "po_recipient_whitelist (pol_store pid p st) = po_recipient_whitelist st"
  "po_recipient_whitelist_enabled (pol_store pid p st) = po_recipient_whitelist_enabled st"
  "po_recipient_whitelist_index (pol_store pid p st) = po_recipient_whitelist_index st"
  "po_allowances (pol_store pid p st) = po_allowances st" "po_composite_rule (pol_store pid p st) = po_composite_rule st"
  "po_policy_rules (pol_store pid p st) = po_policy_rules st"
  by (simp_all add: pol_store_def)

lemma policy_guards_Ok [ok_simps]:
  "pol_load st pid = Ok p \<longleftrightarrow> po_policies st pid = Some p"
  "owned_policy env st c pid = Ok p \<longleftrightarrow> authorized env c \<and> po_policies st pid = Some p \<and> pl_owner p = c"
  "require_policy_owner env st c pid = Ok u \<longleftrightarrow> authorized env c \<and> (\<exists>p. po_policies st pid = Some p \<and> pl_owner p = c)"
  by (auto simp: pol_load_def owned_policy_def require_policy_owner_def require_auth_def ok_or_def rbind_eq_Ok
      split: option.splits)

section \<open>Allowance windows\<close>

definition al_settled :: "asset_allowance \<Rightarrow> u64 \<Rightarrow> asset_allowance" where
  "al_settled al now =
     (let k = (now - al_window_start al) div al_window_seconds al in
      if al_window_seconds al = 0 \<or> now < al_window_start al \<or> k = 0 then al
      else al\<lparr>al_window_start := al_window_start al + k * al_window_seconds al, al_spent := 0\<rparr>)"

lemma whole_windows_le: "s \<le> now \<Longrightarrow> s + (now - s) div w * w \<le> (now :: nat)"
  using div_times_less_eq_dividend [of "now - s" w] by linarith

lemma settle_window_eq:
  assumes "now \<le> u64_max"
  shows "settle_window al now = Ok (al_settled al now)"
proof (cases "al_window_seconds al = 0 \<or> now < al_window_start al")
  case True
  then show ?thesis by (auto simp: settle_window_def al_settled_def)
next
  case False
  then show ?thesis using whole_windows_le [of "al_window_start al" now "al_window_seconds al"] assms
    by (simp add: settle_window_def al_settled_def Let_def checked_mul_word_def checked_add_word_def)
qed

lemma al_settled_sel [simp]:
  "al_policy_id (al_settled al now) = al_policy_id al" "al_asset (al_settled al now) = al_asset al"
  "al_limit (al_settled al now) = al_limit al" "al_expires_at (al_settled al now) = al_expires_at al"
  "al_window_seconds (al_settled al now) = al_window_seconds al"
  by (simp_all add: al_settled_def Let_def)

lemma al_settled_spent: "al_spent (al_settled al now) = al_spent al \<or> al_spent (al_settled al now) = 0"
  by (simp add: al_settled_def Let_def)

lemma al_settled_start_le: "al_window_start al \<le> b \<Longrightarrow> now \<le> b \<Longrightarrow> al_window_start (al_settled al now) \<le> b"
  using whole_windows_le [of "al_window_start al" now "al_window_seconds al"]
  by (auto simp: al_settled_def Let_def)

definition allowance_wf :: "string \<Rightarrow> address \<Rightarrow> asset_allowance \<Rightarrow> bool" where
  "allowance_wf pid a al \<longleftrightarrow> al_policy_id al = pid \<and> al_asset al = a \<and> 0 \<le> al_limit al \<and> al_limit al \<le> i128_max \<and>
     0 \<le> al_spent al \<and> al_spent al \<le> i128_max \<and> al_window_start al \<le> u64_max"

lemma al_settled_wf: "allowance_wf pid a al \<Longrightarrow> now \<le> u64_max \<Longrightarrow> allowance_wf pid a (al_settled al now)"
  using al_settled_spent [of al now] al_settled_start_le [of al u64_max now] by (auto simp: allowance_wf_def i128_max_def)

definition allowances_wf :: "policy_state \<Rightarrow> bool" where
  "allowances_wf st \<longleftrightarrow> (\<forall>pid a al. po_allowances st (pid, a) = Some al \<longrightarrow> allowance_wf pid a al)"

text \<open>What the allowance gate demands of a spend.\<close>

definition allowance_admits :: "env \<Rightarrow> asset_allowance \<Rightarrow> i128 \<Rightarrow> bool" where
  "allowance_admits env al amt \<longleftrightarrow> al_limit al = 0 \<or>
     ((al_expires_at al = 0 \<or> timestamp env < al_expires_at al) \<and>
      al_spent (al_settled al (timestamp env)) + amt \<le> al_limit al)"

definition charged :: "env \<Rightarrow> asset_allowance \<Rightarrow> i128 \<Rightarrow> asset_allowance" where
  "charged env al amt = (al_settled al (timestamp env))\<lparr>al_spent := al_spent (al_settled al (timestamp env)) + amt\<rparr>"

lemma consume_allowance_eq:
  assumes "allowances_wf st" "0 \<le> amt" "timestamp env \<le> u64_max"
  shows "consume_allowance env pid a amt st =
    (case po_allowances st (pid, a) of
       None \<Rightarrow> (st, Ok None)
     | Some al \<Rightarrow>
         if al_limit al = 0 then (st, Ok None)
         else if allowance_admits env al amt then (st, Ok (Some (charged env al amt)))
         else if al_expires_at al \<noteq> 0 \<and> al_expires_at al \<le> timestamp env
         then (events_policy_violation pid ''allowance_expired'' st, Err AllowanceExpired)
         else (events_policy_violation pid ''allowance_exceeded'' st, Err AllowanceExceeded))"
proof (cases "po_allowances st (pid, a)")
  case None
  then show ?thesis by (simp add: consume_allowance_def)
next
  case (Some al)
  let ?s = "al_settled al (timestamp env)"
  have wf: "allowance_wf pid a ?s" using al_settled_wf [OF _ assms(3)] assms(1) Some by (auto simp: allowances_wf_def)
  then have r: "in_i128 (al_limit al - al_spent ?s)" "al_spent ?s + amt \<le> al_limit al \<Longrightarrow> in_i128 (al_spent ?s + amt)"
    using assms(2) by (auto simp: allowance_wf_def in_i128_def int_limits)
  then show ?thesis using Some
    by (auto simp: consume_allowance_def attempt_def settle_window_eq [OF assms(3)] checked_sub_def safe_sub_def
        checked_add_def safe_add_def allowance_admits_def charged_def algebra_simps)
qed

section \<open>The rule walk\<close>

lemma same_verdictD:
  assumes "same_verdict st recip m m'"
  shows "rbind m (\<lambda>(b, _). Ok b) = rbind m' (\<lambda>(b, _). Ok b)" and "m = Ok (b, c) \<Longrightarrow> ctx_ok st recip c"
  using assms by (cases m; cases m'; auto simp: rel_prod_sel split: prod.splits)+

lemma composite_cache:
  assumes "ctx_ok st (tp_recipient p) c"
  shows "same_verdict st (tp_recipient p) (composite_rule_with_context st pid p c) (composite_rule_with_context st pid p fresh_context)"
  using assms evaluate_node_cache [OF assms ctx_ok_fresh]
  by (auto simp: composite_rule_with_context_def split: option.split)

lemma rules_cache:
  assumes "ctx_ok st (tp_recipient p) c"
  shows "same_verdict st (tp_recipient p) (policy_rules_with_context st pid p s c) (policy_rules_with_context st pid p s fresh_context)"
proof -
  have "same_verdict st (tp_recipient p) (if tree = [] then Ok (b, c1) else evaluate_node st tree p d i c1)
      (if tree = [] then Ok (b, c2) else evaluate_node st tree p d i c2)"
    if "ctx_ok st (tp_recipient p) c1" "ctx_ok st (tp_recipient p) c2" for tree b c1 c2 d i
    using that evaluate_node_cache [OF that] by auto
  then show ?thesis using assms
    by (cases s) (auto simp: policy_rules_with_context_def Let_def intro!: same_verdict_loops)
qed

lemma fst_Ok_iff: "rbind m (\<lambda>(b, _). Ok b) = Ok b \<longleftrightarrow> (\<exists>c. m = Ok (b, c))"
  by (auto simp: rbind_eq_Ok split: prod.splits)

text \<open>The verdict of both rule layers, from any correct cache.\<close>

lemma rule_layers:
  assumes "ctx_ok st (tp_recipient p) c" "po_policies st pid = Some pol"
  shows "(\<exists>c1 c2. composite_rule_with_context st pid p c = Ok (True, c1) \<and>
            policy_rules_with_context st pid p (pl_strategy pol) c1 = Ok (True, c2)) \<longleftrightarrow>
         evaluate_composite_rule st pid p = Ok True \<and> evaluate_policy_rules st pid p = Ok True"
    and "composite_rule_with_context st pid p c = Ok (b, c1) \<Longrightarrow>
         policy_rules_with_context st pid p (pl_strategy pol) c1 = Ok (b', c2) \<Longrightarrow> ctx_ok st (tp_recipient p) c2"
proof -
  have comp: "evaluate_composite_rule st pid p = Ok True \<longleftrightarrow> (\<exists>c1. composite_rule_with_context st pid p c = Ok (True, c1))"
    unfolding evaluate_composite_rule_def same_verdictD(1) [OF composite_cache [OF assms(1)], symmetric] fst_Ok_iff ..
  have ok1: "ctx_ok st (tp_recipient p) c1" if "composite_rule_with_context st pid p c = Ok (b, c1)" for b c1
    by (rule same_verdictD(2) [OF composite_cache [OF assms(1)] that])
  have rules: "evaluate_policy_rules st pid p = Ok True \<longleftrightarrow>
      (\<exists>c2. policy_rules_with_context st pid p (pl_strategy pol) c1 = Ok (True, c2))"
    if "ctx_ok st (tp_recipient p) c1" for c1
    unfolding evaluate_policy_rules_def pol_load_def assms(2) ok_or_simps rbind.simps
      same_verdictD(1) [OF rules_cache [OF that], symmetric] fst_Ok_iff ..
  show "(\<exists>c1 c2. composite_rule_with_context st pid p c = Ok (True, c1) \<and>
            policy_rules_with_context st pid p (pl_strategy pol) c1 = Ok (True, c2)) \<longleftrightarrow>
         evaluate_composite_rule st pid p = Ok True \<and> evaluate_policy_rules st pid p = Ok True"
    using comp ok1 rules by blast
  show "ctx_ok st (tp_recipient p) c2" if "composite_rule_with_context st pid p c = Ok (b, c1)"
    "policy_rules_with_context st pid p (pl_strategy pol) c1 = Ok (b', c2)"
    by (rule same_verdictD(2) [OF rules_cache [OF ok1 [OF that(1)]] that(2)])
qed

definition recipient_gates :: "env \<Rightarrow> policy_state \<Rightarrow> string \<Rightarrow> policy \<Rightarrow> address \<Rightarrow> bool" where
  "recipient_gates env st pid p recip \<longleftrightarrow>
     pl_enabled p \<and> po_blacklist st recip = None \<and> po_merchant_blacklist st recip = None \<and>
     (po_recipient_whitelist_enabled st pid = Some True \<longrightarrow> is_recipient_whitelisted st pid recip) \<and>
     is_within_transfer_window p (timestamp env) \<and>
     (pl_expires_at p = 0 \<or> timestamp env < pl_expires_at p)"

definition asset_gates :: "env \<Rightarrow> policy_state \<Rightarrow> string \<Rightarrow> policy \<Rightarrow> address \<Rightarrow> address \<Rightarrow> i128 \<Rightarrow> bool" where
  "asset_gates env st pid p a recip amt \<longleftrightarrow>
     (pl_max_amount p = 0 \<or> amt \<le> pl_max_amount p) \<and>
     (\<forall>r. pl_allowed_recipient p = Some r \<longrightarrow> r = recip) \<and> (\<forall>b. pl_allowed_asset p = Some b \<longrightarrow> b = a) \<and>
     \<not> is_asset_blacklisted st pid a \<and>
     (po_asset_whitelist_enabled st pid = Some True \<longrightarrow> po_asset_whitelist st (pid, a) \<noteq> None) \<and>
     (\<forall>al. po_allowances st (pid, a) = Some al \<longrightarrow> allowance_admits env al amt) \<and>
     evaluate_composite_rule st pid \<lparr>tp_asset = a, tp_recipient = recip, tp_amount = amt\<rparr> = Ok True \<and>
     evaluate_policy_rules st pid \<lparr>tp_asset = a, tp_recipient = recip, tp_amount = amt\<rparr> = Ok True"

lemma unwrap_or_False: "unwrap_or v False \<longleftrightarrow> v = Some True"
  by (cases v) auto

lemma screen_recipient_rules_iff:
  "\<exists>d c. screen_recipient_rules env st pid p recip fresh_context = Ok (d, c) \<and> ctx_ok st recip c \<and>
         (d = None \<longleftrightarrow> recipient_gates env st pid p recip)"
proof -
  obtain c1 where c1: "recipient_blacklisted st recip fresh_context = (po_blacklist st recip \<noteq> None, c1)" "ctx_ok st recip c1"
    using blacklisted_cache [OF ctx_ok_fresh] by metis
  obtain c2 where c2: "merchant_blacklisted st recip c1 = (po_merchant_blacklist st recip \<noteq> None, c2)" "ctx_ok st recip c2"
    using blacklisted_cache [OF c1(2)] by metis
  show ?thesis using c1 c2
    by (simp add: screen_recipient_rules_def recipient_gates_def recipient_whitelist_denied_def unwrap_or_False
        is_recipient_whitelisted_def not_le)
qed

text \<open>The allowance record a passing spend leaves, when one is configured.\<close>

definition charged_allowance :: "env \<Rightarrow> policy_state \<Rightarrow> string \<Rightarrow> address \<Rightarrow> i128 \<Rightarrow> asset_allowance option" where
  "charged_allowance env st pid a amt =
     (case po_allowances st (pid, a) of
        Some al \<Rightarrow> if al_limit al = 0 then None else Some (charged env al amt)
      | None \<Rightarrow> None)"

lemma consume_allowance_Ok:
  assumes "allowances_wf st" "0 \<le> amt" "timestamp env \<le> u64_max"
  shows "consume_allowance env pid a amt st = (st1, Ok r) \<longleftrightarrow>
     st1 = st \<and> r = charged_allowance env st pid a amt \<and>
     (\<forall>al. po_allowances st (pid, a) = Some al \<longrightarrow> allowance_admits env al amt)"
  unfolding consume_allowance_eq [OF assms]
  by (cases "po_allowances st (pid, a)") (auto simp: charged_allowance_def allowance_admits_def)

lemma screen_asset_rules_iff:
  assumes "allowances_wf st" "0 \<le> amt" "timestamp env \<le> u64_max" "ctx_ok st recip c" "po_policies st pid = Some p"
  shows "(\<exists>al c' st'. screen_asset_rules env p pid a recip amt c st = Ok (al, None, c', st')) \<longleftrightarrow>
         asset_gates env st pid p a recip amt"
    and "screen_asset_rules env p pid a recip amt c st = Ok (al, None, c', st') \<Longrightarrow>
         al = charged_allowance env st pid a amt \<and> st' = st \<and> ctx_ok st recip c'"
proof -
  let ?pl = "\<lparr>tp_asset = a, tp_recipient = recip, tp_amount = amt\<rparr>"
  have ctx: "ctx_ok st (tp_recipient ?pl) c" using assms(4) by simp
  obtain st1 r where cons: "consume_allowance env pid a amt st = (st1, r)" by (cases "consume_allowance env pid a amt st")
  note admit = consume_allowance_Ok [OF assms(1-3), of pid a]
  have pass: "screen_asset_rules env p pid a recip amt c st = Ok (al, None, c', st') \<longleftrightarrow>
      (pl_max_amount p = 0 \<or> amt \<le> pl_max_amount p) \<and>
      (\<forall>r. pl_allowed_recipient p = Some r \<longrightarrow> r = recip) \<and> (\<forall>b. pl_allowed_asset p = Some b \<longrightarrow> b = a) \<and>
      \<not> is_asset_blacklisted st pid a \<and> \<not> asset_whitelist_denied st pid a \<and>
      consume_allowance env pid a amt st = (st, Ok al) \<and> st' = st \<and>
      (\<exists>c1. composite_rule_with_context st pid ?pl c = Ok (True, c1) \<and>
            policy_rules_with_context st pid ?pl (pl_strategy p) c1 = Ok (True, c'))" for al c' st'
    using admit [of st1] unfolding cons
    by (cases r) (auto simp: screen_asset_rules_def cons is_asset_blacklisted_def Let_def rbind_eq_Ok not_le
        split: option.splits if_splits prod.splits)
  show "(\<exists>al c' st'. screen_asset_rules env p pid a recip amt c st = Ok (al, None, c', st')) \<longleftrightarrow>
         asset_gates env st pid p a recip amt"
    using rule_layers(1) [OF ctx assms(5)] unfolding pass admit asset_gates_def asset_whitelist_denied_def unwrap_or_False
    by auto
  show "al = charged_allowance env st pid a amt \<and> st' = st \<and> ctx_ok st recip c'"
    if "screen_asset_rules env p pid a recip amt c st = Ok (al, None, c', st')"
    using that rule_layers(2) [OF ctx assms(5)] unfolding pass admit by auto
qed

lemma decision_simps [simp]:
  "decision_reason (decision_deny r m) = Some r" "decision_reason (decision_allow m) = None"
  by (simp_all add: decision_reason_def decision_deny_def decision_allow_def)

lemma check_transfer_iff:
  assumes "allowances_wf st" "timestamp env \<le> u64_max"
  shows "check_transfer env pid a recip amt st = Ok ((), st') \<longleftrightarrow>
     0 < amt \<and> st' = st \<and>
     (\<exists>p. po_policies st pid = Some p \<and> recipient_gates env st pid p recip \<and> asset_gates env st pid p a recip amt)"
proof (cases "0 < amt \<and> po_policies st pid \<noteq> None")
  case False
  then show ?thesis
    by (auto simp: check_transfer_def evaluate_policy_decision_def pol_load_def ok_simps)
next
  case True
  then obtain p where amt: "0 < amt" and p: "po_policies st pid = Some p" by auto
  obtain d c where d: "screen_recipient_rules env st pid p recip fresh_context = Ok (d, c)" "ctx_ok st recip c"
    "d = None \<longleftrightarrow> recipient_gates env st pid p recip" using screen_recipient_rules_iff by blast
  note iff = screen_asset_rules_iff [OF assms(1) _ assms(2) d(2) p, of amt a]
  show ?thesis
  proof (cases d)
    case (Some r)
    then show ?thesis using amt p d
      by (auto simp: check_transfer_def evaluate_policy_decision_def pol_load_def ok_simps enforce_decision_def)
  next
    case None
    have "check_transfer env pid a recip amt st = Ok ((), st') \<longleftrightarrow>
        (\<exists>al c'. screen_asset_rules env p pid a recip amt c st = Ok (al, None, c', st'))"
      using amt p d None
      by (auto simp: check_transfer_def evaluate_policy_decision_def pol_load_def ok_simps enforce_decision_def
          split: option.splits)
    then show ?thesis using iff amt p d(3) None by auto
  qed
qed

section \<open>Multi-asset requests\<close>

lemma aggregate_amounts_loop_Ok:
  assumes "aggregate_amounts_loop es m = Ok m'" "smap_ok m" "\<And>k v. smap_get m k = Some v \<Longrightarrow> 0 < v"
  shows "smap_ok m' \<and> (\<forall>k. get_balance m' k = get_balance m k + leg_sum es k) \<and>
    (\<forall>k v. smap_get m' k = Some v \<longrightarrow> 0 < v) \<and> (\<forall>e \<in> set es. 0 < amount e)"
  using assms
proof (induction es arbitrary: m)
  case Nil
  then show ?case by simp
next
  case (Cons e es)
  let ?t = "get_balance m (asset e) + amount e"
  from Cons.prems(1) have e: "0 < amount e" "aggregate_amounts_loop es (smap_set (asset e) ?t m) = Ok m'"
    by (auto simp: ok_simps checked_add_def safe_add_def unwrap_get_balance split: if_splits)
  have "0 \<le> get_balance m (asset e)"
    using Cons.prems(3) by (cases "smap_get m (asset e)") (auto simp: get_balance_def dest: less_imp_le)
  then have pos: "\<And>k v. smap_get (smap_set (asset e) ?t m) k = Some v \<Longrightarrow> 0 < v"
    using e(1) Cons.prems(2,3) by (auto simp: smap_get_set split: if_splits)
  show ?case using Cons.IH [OF e(2) smap_ok_set [OF Cons.prems(2)] pos] e(1) Cons.prems(2) by auto
qed

lemma screen_legs_iff:
  assumes "allowances_wf st" "timestamp env \<le> u64_max" "po_policies st pid = Some p"
    and "ctx_ok st recip c" "\<forall>(a, t) \<in> set legs. 0 \<le> t"
  shows "screen_legs env p pid recip legs c st upd = Ok r \<longleftrightarrow>
     (\<forall>(a, t) \<in> set legs. asset_gates env st pid p a recip t) \<and>
     r = upd @ List.map_filter (\<lambda>(a, t). charged_allowance env st pid a t) legs"
  using assms(4,5)
proof (induction legs arbitrary: c upd)
  case Nil
  then show ?case by (auto simp: map_filter_simps)
next
  case (Cons leg legs)
  obtain a t where leg: "leg = (a, t)" by (cases leg)
  have t: "0 \<le> t" and rest: "\<forall>(a, t) \<in> set legs. 0 \<le> t" using Cons.prems(2) leg by auto
  note iff = screen_asset_rules_iff [OF assms(1) t assms(2) Cons.prems(1) assms(3), of a]
  show ?case
  proof (cases "asset_gates env st pid p a recip t")
    case False
    then have "\<nexists>al c' st'. screen_asset_rules env p pid a recip t c st = Ok (al, None, c', st')" using iff(1) by blast
    then have "screen_legs env p pid recip (leg # legs) c st upd \<noteq> Ok r"
      by (auto simp: leg rbind_eq_Ok split: option.splits)
    then show ?thesis using False by (simp add: leg)
  next
    case True
    then obtain al c' st' where s: "screen_asset_rules env p pid a recip t c st = Ok (al, None, c', st')" using iff(1) by blast
    from iff(2) [OF s] have "al = charged_allowance env st pid a t" "st' = st" "ctx_ok st recip c'" by auto
    then show ?thesis using s True Cons.IH [OF _ rest, of c']
      by (auto simp: leg map_filter_simps split: option.splits)
  qed
qed

lemma record_spends_Ok:
  assumes "record_spends totals als st = Ok st'" "\<forall>al \<in> set als. al_policy_id al = pid" "distinct (map al_asset als)"
  shows "po_allowances st' = (\<lambda>(q, a). if q = pid then (case find (\<lambda>al. al_asset al = a) als of
      Some al \<Rightarrow> Some al | None \<Rightarrow> po_allowances st (q, a)) else po_allowances st (q, a))"
  using assms
proof (induction als arbitrary: st)
  case Nil
  then show ?case by (auto simp: fun_eq_iff)
next
  case (Cons al als)
  from Cons.prems obtain amt where "record_spends totals als (persist_spend al amt st) = Ok st'"
    by (auto simp: ok_simps)
  moreover have "find (\<lambda>x. al_asset x = al_asset al) als = None" using Cons.prems(3) by (simp add: find_None_iff_notin)
  ultimately show ?case using Cons.IH Cons.prems(2,3) by (auto simp: fun_eq_iff persist_spend_def split: option.split)
qed

lemma charged_sel [simp]:
  "al_policy_id (charged env al amt) = al_policy_id al" "al_asset (charged env al amt) = al_asset al"
  "al_limit (charged env al amt) = al_limit al"
  by (simp_all add: charged_def)

text \<open>The records written for the legs are found under their assets.\<close>

lemma find_charged:
  assumes "allowances_wf st" "distinct (map fst legs)"
  shows "find (\<lambda>al. al_asset al = k) (List.map_filter (\<lambda>(a, t). charged_allowance env st pid a t) legs) =
         (case map_of legs k of Some t \<Rightarrow> charged_allowance env st pid k t | None \<Rightarrow> None)"
    and "al \<in> set (List.map_filter (\<lambda>(a, t). charged_allowance env st pid a t) legs) \<Longrightarrow>
         al_policy_id al = pid \<and> al_asset al \<in> fst ` set legs"
    and "distinct (map al_asset (List.map_filter (\<lambda>(a, t). charged_allowance env st pid a t) legs))"
proof -
  let ?f = "\<lambda>(a, t). charged_allowance env st pid a t"
  have ca: "charged_allowance env st pid a t = Some al \<Longrightarrow> al_policy_id al = pid \<and> al_asset al = a" for a t al
    using assms(1) by (auto simp: charged_allowance_def allowances_wf_def allowance_wf_def split: option.splits if_splits)
  have mem: "al \<in> set (List.map_filter ?f xs) \<Longrightarrow> al_policy_id al = pid \<and> al_asset al \<in> fst ` set xs" for al xs
    using ca by (induction xs) (auto simp: map_filter_simps split: option.splits)
  then show "al \<in> set (List.map_filter ?f legs) \<Longrightarrow> al_policy_id al = pid \<and> al_asset al \<in> fst ` set legs" .
  show "distinct (map al_asset (List.map_filter ?f legs))"
    using assms(2) ca mem by (induction legs) (fastforce simp: map_filter_simps split: option.splits)+
  have none: "find (\<lambda>al. al_asset al = k) (List.map_filter ?f xs) = None" if "k \<notin> fst ` set xs" for k xs
    using mem [of _ xs] that by (auto simp: find_None_iff)
  show "find (\<lambda>al. al_asset al = k) (List.map_filter ?f legs) =
         (case map_of legs k of Some t \<Rightarrow> charged_allowance env st pid k t | None \<Rightarrow> None)"
    using assms(2)
  proof (induction legs)
    case (Cons leg legs)
    obtain a t where leg: "leg = (a, t)" by (cases leg)
    have "find (\<lambda>al. al_asset al = a) (List.map_filter ?f legs) = None" using none Cons.prems leg by simp
    moreover have "map_of legs a = None" using Cons.prems leg by (simp add: map_of_eq_None_iff)
    ultimately show ?case using Cons ca [of a t] leg
      by (cases "charged_allowance env st pid a t"; cases "k = a") (auto simp: map_filter_simps)
  qed (simp add: map_filter_simps)
qed

lemma record_multi_Ok:
  assumes "record_multi_asset_spend env c pid recip amounts st = Ok ((), st')"
    and "allowances_wf st" "timestamp env \<le> u64_max"
  shows "\<exists>p. po_policies st pid = Some p \<and> pl_owner p = c \<and> authorized env c \<and> recipient_gates env st pid p recip \<and>
     (\<forall>e \<in> set amounts. 0 < amount e \<and> asset_gates env st pid p (asset e) recip (leg_sum amounts (asset e))) \<and>
     po_allowances st' = (\<lambda>(q, a). if q = pid \<and> a \<in> asset ` set amounts \<and> charged_allowance env st pid a (leg_sum amounts a) \<noteq> None
       then charged_allowance env st pid a (leg_sum amounts a) else po_allowances st (q, a))"
proof -
  from assms(1) obtain p totals upd where p: "po_policies st pid = Some p" "pl_owner p = c" "authorized env c"
    and ev: "evaluate_spend env st pid recip amounts = Ok (totals, upd)" and rec: "record_spends totals upd st = Ok st'"
    by (auto simp: record_multi_asset_spend_def ok_simps)
  obtain d cx where d: "screen_recipient_rules env st pid p recip fresh_context = Ok (d, cx)" "ctx_ok st recip cx"
    "d = None \<longleftrightarrow> recipient_gates env st pid p recip" using screen_recipient_rules_iff by blast
  have agg: "aggregate_amounts_loop amounts [] = Ok totals" and gates: "recipient_gates env st pid p recip"
    and legs: "screen_legs env p pid recip totals cx st [] = Ok upd"
    using ev d p(1) by (auto simp: evaluate_spend_def aggregate_amounts_def pol_load_def ok_simps split: option.splits)
  have tot: "smap_ok totals" "\<And>k. get_balance totals k = leg_sum amounts k" "\<And>k v. smap_get totals k = Some v \<Longrightarrow> 0 < v"
    and pos: "\<forall>e \<in> set amounts. 0 < amount e"
    using aggregate_amounts_loop_Ok [OF agg] by auto
  have keys: "smap_get totals k = (if k \<in> asset ` set amounts then Some (leg_sum amounts k) else None)" for k
  proof -
    have "0 \<le> leg_sum es k \<and> (k \<in> asset ` set es \<longleftrightarrow> leg_sum es k \<noteq> 0)" if "\<forall>e \<in> set es. 0 < amount e" for es
      using that by (induction es) auto
    from this [OF pos] tot(2) [of k] tot(3) [of k] show ?thesis
      by (cases "smap_get totals k") (auto simp: get_balance_def)
  qed
  have nn: "\<forall>(a, t) \<in> set totals. 0 \<le> t" using tot(1,3) by (auto simp: in_set_smap less_imp_le)
  from legs [unfolded screen_legs_iff [OF assms(2,3) p(1) d(2) nn]]
  have ag: "\<forall>(a, t) \<in> set totals. asset_gates env st pid p a recip t"
    and upd: "upd = List.map_filter (\<lambda>(a, t). charged_allowance env st pid a t) totals" by auto
  have eg: "asset_gates env st pid p (asset e) recip (leg_sum amounts (asset e))" if e: "e \<in> set amounts" for e
  proof -
    have "smap_get totals (asset e) = Some (leg_sum amounts (asset e))" using keys [of "asset e"] e by simp
    then have "(asset e, leg_sum amounts (asset e)) \<in> set totals" by (simp add: in_set_smap [OF tot(1)])
    then show ?thesis using ag by fastforce
  qed
  note dist = smap_ok_distinct [OF tot(1)]
  have upd_ok: "\<forall>al \<in> set upd. al_policy_id al = pid" "distinct (map al_asset upd)"
    using find_charged(2,3) [OF assms(2) dist] unfolding upd by blast+
  have found: "find (\<lambda>al. al_asset al = k) upd =
      (if k \<in> asset ` set amounts then charged_allowance env st pid k (leg_sum amounts k) else None)" for k
    using find_charged(1) [OF assms(2) dist] keys [of k] unfolding upd smap_get_def by simp
  have al: "po_allowances st' = (\<lambda>(q, a). if q = pid \<and> a \<in> asset ` set amounts \<and> charged_allowance env st pid a (leg_sum amounts a) \<noteq> None
       then charged_allowance env st pid a (leg_sum amounts a) else po_allowances st (q, a))"
    unfolding record_spends_Ok [OF rec upd_ok] found by (auto simp: fun_eq_iff split: option.splits)
  show ?thesis
    by (intro exI [of _ p] conjI ballI; (rule p gates eg al)?; use pos in \<open>simp add: eg\<close>)
qed

end
