(* ===== verification/Policy_Runs.thy ===== *)
theory Policy_Runs
  imports Policy_Props
begin

text \<open>
  Runs of the policy contract: the storage that belongs to one policy, its well-formedness, the step
  relation over all entrypoints, and the invariant that every step keeps.
\<close>

section \<open>What a policy governs\<close>

record governed =
  gv_policy :: "policy option"
  gv_asset_whitelist :: "address \<Rightarrow> bool option"
  gv_asset_blacklist :: "address \<Rightarrow> unit option"
  gv_asset_mode :: "bool option"
  gv_recipients :: "address \<Rightarrow> bool option"
  gv_recipient_mode :: "bool option"
  gv_index :: "address list option"
  gv_allowances :: "address \<Rightarrow> asset_allowance option"
  gv_composite :: "rule_tree option"
  gv_rules :: "rule_stack option"

definition governed :: "policy_state \<Rightarrow> string \<Rightarrow> governed" where
  "governed st pid =
     \<lparr>gv_policy = po_policies st pid, gv_asset_whitelist = (\<lambda>a. po_asset_whitelist st (pid, a)),
      gv_asset_blacklist = (\<lambda>a. po_asset_blacklist st (pid, a)), gv_asset_mode = po_asset_whitelist_enabled st pid,
      gv_recipients = (\<lambda>r. po_recipient_whitelist st (pid, r)),
      gv_recipient_mode = po_recipient_whitelist_enabled st pid, gv_index = po_recipient_whitelist_index st pid,
      gv_allowances = (\<lambda>a. po_allowances st (pid, a)), gv_composite = po_composite_rule st pid,
      gv_rules = po_policy_rules st pid\<rparr>"

definition window_wf :: "policy \<Rightarrow> bool" where
  "window_wf p \<longleftrightarrow> pl_window_days p = 0 \<or>
     (pl_window_start_time p < pl_window_days p \<and> pl_window_end_time p < pl_window_days p \<and>
      pl_window_days p \<le> SECONDS_PER_MONTH)"

definition index_wf :: "address list option \<Rightarrow> (address \<Rightarrow> bool option) \<Rightarrow> bool" where
  "index_wf ix rs \<longleftrightarrow> ix \<noteq> Some [] \<and> distinct (unwrap_or ix []) \<and> set (unwrap_or ix []) = {r. rs r \<noteq> None}"

definition rules_wf :: "rule_stack option \<Rightarrow> bool" where
  "rules_wf rs \<longleftrightarrow> (\<forall>stack. rs = Some stack \<longrightarrow>
     stack \<noteq> [] \<and> length stack \<le> MAX_POLICY_RULES \<and> (\<forall>tree \<in> set stack. validate_rule_tree tree = Ok ()))"

definition governed_wf :: "string \<Rightarrow> governed \<Rightarrow> bool" where
  "governed_wf pid g \<longleftrightarrow>
     (\<forall>p. gv_policy g = Some p \<longrightarrow> window_wf p) \<and> index_wf (gv_index g) (gv_recipients g) \<and> rules_wf (gv_rules g) \<and>
     (\<forall>tree. gv_composite g = Some tree \<longrightarrow> validate_rule_tree tree = Ok ()) \<and>
     (\<forall>a al. gv_allowances g a = Some al \<longrightarrow> allowance_wf pid a al) \<and>
     (gv_policy g = None \<longrightarrow> gv_index g = None \<and> gv_rules g = None \<and> gv_composite g = None \<and>
        gv_allowances g = Map.empty \<and> gv_asset_whitelist g = Map.empty \<and> gv_asset_blacklist g = Map.empty \<and>
        gv_asset_mode g = None \<and> gv_recipient_mode g = None)"

definition policy_inv :: "policy_state \<Rightarrow> bool" where
  "policy_inv st \<longleftrightarrow> (\<forall>pid. governed_wf pid (governed st pid))"

lemma policy_inv_allowances: "policy_inv st \<Longrightarrow> allowances_wf st"
  by (simp add: policy_inv_def governed_wf_def allowances_wf_def governed_def)

text \<open>A write by the owner of a policy to what it governs, with the owner kept.\<close>

definition owner_write :: "env \<Rightarrow> address \<Rightarrow> string \<Rightarrow> policy_state \<Rightarrow> policy_state \<Rightarrow> bool" where
  "owner_write env c pid st st' \<longleftrightarrow>
     authorized env c \<and> (\<exists>p. po_policies st pid = Some p \<and> pl_owner p = c) \<and>
     (\<exists>p'. po_policies st' pid = Some p' \<and> pl_owner p' = c) \<and>
     governed_wf pid (governed st' pid) \<and> (\<forall>q. q \<noteq> pid \<longrightarrow> governed st' q = governed st q)"

definition registration :: "env \<Rightarrow> address \<Rightarrow> string \<Rightarrow> policy_state \<Rightarrow> policy_state \<Rightarrow> bool" where
  "registration env c pid st st' \<longleftrightarrow>
     authorized env c \<and> po_policies st pid = None \<and> (\<exists>p'. po_policies st' pid = Some p' \<and> pl_owner p' = c) \<and>
     governed_wf pid (governed st' pid) \<and> (\<forall>q. q \<noteq> pid \<longrightarrow> governed st' q = governed st q)"

lemma owner_writeI:
  assumes "authorized env c" "po_policies st pid = Some p" "pl_owner p = c" "policy_inv st"
    and "\<And>q. governed st' q = (if q = pid then g else governed st q)" "governed_wf pid g"
    and "gv_policy g = Some p'" "pl_owner p' = c"
  shows "owner_write env c pid st st'"
proof -
  have "po_policies st' pid = gv_policy (governed st' pid)" by (simp add: governed_def)
  then show ?thesis using assms by (auto simp: owner_write_def)
qed

section \<open>Entrypoints\<close>

text \<open>Owner entrypoints that store the policy record itself.\<close>

lemma governed_store:
  "governed (po_emit es (pol_store pid p st)) q = (if q = pid then (governed st pid)\<lparr>gv_policy := Some p\<rparr> else governed st q)"
  by (simp add: governed_def)

lemma policy_inv_D:
  assumes "policy_inv st"
  shows "governed_wf pid (governed st pid)" and "po_policies st pid = Some p \<Longrightarrow> window_wf p"
  using assms by (auto simp: policy_inv_def governed_wf_def governed_def)

lemma stores_owner_write:
  assumes "policy_inv st" "authorized env c" "po_policies st pid = Some p" "pl_owner p = c"
    and "pl_owner p' = c" "window_wf p'"
  shows "owner_write env c pid st (po_emit es (pol_store pid p' st))"
proof (rule owner_writeI [OF assms(2-4,1) governed_store, where p' = p'])
  show "governed_wf pid ((governed st pid)\<lparr>gv_policy := Some p'\<rparr>)"
    using policy_inv_D(1) [OF assms(1), of pid] assms(3,6) by (simp add: governed_wf_def governed_def)
qed (use assms in simp_all)

lemma record_entrypoints:
  assumes "policy_inv st"
  shows "rotate_policy env c pid h m st = Ok (u, st') \<Longrightarrow> owner_write env c pid st st'"
    and "set_enabled env c pid b st = Ok (u, st') \<Longrightarrow> owner_write env c pid st st'"
    and "set_rule_combination_strategy env c pid s st = Ok (u, st') \<Longrightarrow> owner_write env c pid st st'"
    and "set_transfer_window env c pid s1 s2 d st = Ok (u, st') \<Longrightarrow> owner_write env c pid st st'"
  using policy_inv_D(2) [OF assms]
  by (auto simp: rotate_policy_def set_enabled_def set_rule_combination_strategy_def set_transfer_window_def ok_simps
      window_wf_def intro!: stores_owner_write [OF assms])

lemma register_entrypoint:
  assumes "policy_inv st" "register_policy env c pid h m r a e s st = Ok (u, st')"
  shows "registration env c pid st st'"
proof -
  let ?p = "\<lparr>pl_owner = c, pl_config_hash = h, pl_max_amount = m, pl_allowed_recipient = r, pl_allowed_asset = a,
    pl_expires_at = e, pl_enabled = True, pl_strategy = unwrap_or s default_strategy,
    pl_window_start_time = 0, pl_window_end_time = 0, pl_window_days = 0\<rparr>"
  have st': "authorized env c" "po_policies st pid = None" "st' = po_emit [PvRegistered pid] (pol_store pid ?p st)"
    using assms(2) by (simp_all add: register_policy_def ok_simps)
  moreover have "governed_wf pid ((governed st pid)\<lparr>gv_policy := Some ?p\<rparr>)"
    using policy_inv_D(1) [OF assms(1), of pid] by (simp add: governed_wf_def window_wf_def)
  ultimately show ?thesis by (simp add: registration_def governed_store)
qed

text \<open>Owner entrypoints that store one keyed entry.\<close>

lemma governed_write:
  "governed (po_emit es (st\<lparr>po_asset_whitelist := (po_asset_whitelist st)((pid, a) := v1)\<rparr>)) q =
     (if q = pid then (governed st pid)\<lparr>gv_asset_whitelist := (gv_asset_whitelist (governed st pid))(a := v1)\<rparr> else governed st q)"
  "governed (po_emit es (st\<lparr>po_asset_blacklist := (po_asset_blacklist st)((pid, a) := v2)\<rparr>)) q =
     (if q = pid then (governed st pid)\<lparr>gv_asset_blacklist := (gv_asset_blacklist (governed st pid))(a := v2)\<rparr> else governed st q)"
  "governed (po_emit es (st\<lparr>po_asset_whitelist_enabled := (po_asset_whitelist_enabled st)(pid := v3)\<rparr>)) q =
     (if q = pid then (governed st pid)\<lparr>gv_asset_mode := v3\<rparr> else governed st q)"
  "governed (po_emit es (st\<lparr>po_recipient_whitelist_enabled := (po_recipient_whitelist_enabled st)(pid := v4)\<rparr>)) q =
     (if q = pid then (governed st pid)\<lparr>gv_recipient_mode := v4\<rparr> else governed st q)"
  "governed (po_emit es (st\<lparr>po_allowances := (po_allowances st)((pid, a) := v5)\<rparr>)) q =
     (if q = pid then (governed st pid)\<lparr>gv_allowances := (gv_allowances (governed st pid))(a := v5)\<rparr> else governed st q)"
  "governed (po_emit es (st\<lparr>po_composite_rule := (po_composite_rule st)(pid := v6)\<rparr>)) q =
     (if q = pid then (governed st pid)\<lparr>gv_composite := v6\<rparr> else governed st q)"
  "governed (po_emit es (st\<lparr>po_policy_rules := (po_policy_rules st)(pid := v7)\<rparr>)) q =
     (if q = pid then (governed st pid)\<lparr>gv_rules := v7\<rparr> else governed st q)"
  "governed (po_emit es (st\<lparr>po_recipient_whitelist := (po_recipient_whitelist st)((pid, a) := v1),
      po_recipient_whitelist_index := (po_recipient_whitelist_index st)(pid := v8)\<rparr>)) q =
     (if q = pid then (governed st pid)\<lparr>gv_recipients := (gv_recipients (governed st pid))(a := v1), gv_index := v8\<rparr> else governed st q)"
  by (auto simp: governed_def fun_eq_iff)

text \<open>Which writes keep a registered policy well-formed.\<close>

lemma governed_wf_write:
  assumes "governed_wf pid g" "gv_policy g = Some p"
  shows "governed_wf pid (g\<lparr>gv_asset_whitelist := f1\<rparr>)" "governed_wf pid (g\<lparr>gv_asset_blacklist := f2\<rparr>)"
    "governed_wf pid (g\<lparr>gv_asset_mode := m\<rparr>)" "governed_wf pid (g\<lparr>gv_recipient_mode := m\<rparr>)"
    "(\<And>al. v = Some al \<Longrightarrow> allowance_wf pid a al) \<Longrightarrow> governed_wf pid (g\<lparr>gv_allowances := (gv_allowances g)(a := v)\<rparr>)"
    "(\<And>tree. t = Some tree \<Longrightarrow> validate_rule_tree tree = Ok ()) \<Longrightarrow> governed_wf pid (g\<lparr>gv_composite := t\<rparr>)"
    "rules_wf rs \<Longrightarrow> governed_wf pid (g\<lparr>gv_rules := rs\<rparr>)"
    "index_wf ix f3 \<Longrightarrow> governed_wf pid (g\<lparr>gv_recipients := f3, gv_index := ix\<rparr>)"
  using assms by (simp_all add: governed_wf_def)

lemma owner_write_governed:
  assumes "policy_inv st" "authorized env c" "po_policies st pid = Some p" "pl_owner p = c"
    and "\<And>q. governed st' q = (if q = pid then g else governed st q)" "gv_policy g = gv_policy (governed st pid)"
    and "governed_wf pid (governed st pid) \<Longrightarrow> gv_policy (governed st pid) = Some p \<Longrightarrow> governed_wf pid g"
  shows "owner_write env c pid st st'"
proof (rule owner_writeI [OF assms(2-4,1,5)])
  have "gv_policy (governed st pid) = Some p" using assms(3) by (simp add: governed_def)
  then show "governed_wf pid g" "gv_policy g = Some p" using assms(6,7) policy_inv_D(1) [OF assms(1)] by auto
qed (rule assms(4))

lemma owner_writes:
  assumes "policy_inv st" "authorized env c" "po_policies st pid = Some p" "pl_owner p = c"
  shows "owner_write env c pid st (po_emit es (st\<lparr>po_asset_whitelist := (po_asset_whitelist st)((pid, a) := v1)\<rparr>))"
    "owner_write env c pid st (po_emit es (st\<lparr>po_asset_blacklist := (po_asset_blacklist st)((pid, a) := v2)\<rparr>))"
    "owner_write env c pid st (po_emit es (st\<lparr>po_asset_whitelist_enabled := (po_asset_whitelist_enabled st)(pid := v3)\<rparr>))"
    "owner_write env c pid st (po_emit es (st\<lparr>po_recipient_whitelist_enabled := (po_recipient_whitelist_enabled st)(pid := v4)\<rparr>))"
    "(\<And>al. v5 = Some al \<Longrightarrow> allowance_wf pid a al) \<Longrightarrow>
     owner_write env c pid st (po_emit es (st\<lparr>po_allowances := (po_allowances st)((pid, a) := v5)\<rparr>))"
    "(\<And>tree. v6 = Some tree \<Longrightarrow> validate_rule_tree tree = Ok ()) \<Longrightarrow>
     owner_write env c pid st (po_emit es (st\<lparr>po_composite_rule := (po_composite_rule st)(pid := v6)\<rparr>))"
    "rules_wf v7 \<Longrightarrow> owner_write env c pid st (po_emit es (st\<lparr>po_policy_rules := (po_policy_rules st)(pid := v7)\<rparr>))"
    "index_wf v8 ((\<lambda>r. po_recipient_whitelist st (pid, r))(a := v1)) \<Longrightarrow>
     owner_write env c pid st (po_emit es (st\<lparr>po_recipient_whitelist := (po_recipient_whitelist st)((pid, a) := v1),
       po_recipient_whitelist_index := (po_recipient_whitelist_index st)(pid := v8)\<rparr>))"
  by (rule owner_write_governed [OF assms], rule governed_write, simp, rule governed_wf_write, assumption+,
      (simp add: governed_def)?)+

lemma list_entrypoints:
  assumes "policy_inv st"
  shows "add_asset_to_whitelist env c pid a st = Ok (u, st') \<Longrightarrow> owner_write env c pid st st'"
    and "remove_asset_from_whitelist env c pid a st = Ok (u, st') \<Longrightarrow> owner_write env c pid st st'"
    and "add_asset_blacklist env c pid a st = Ok (u, st') \<Longrightarrow> owner_write env c pid st st'"
    and "remove_asset_blacklist env c pid a st = Ok (u, st') \<Longrightarrow> owner_write env c pid st st'"
    and "set_asset_whitelist_enabled env c pid b st = Ok (u, st') \<Longrightarrow> owner_write env c pid st st'"
    and "set_recipient_whitelist_enabled env c pid b st = Ok (u, st') \<Longrightarrow> owner_write env c pid st st'"
  by (auto simp: add_asset_to_whitelist_def remove_asset_from_whitelist_def add_asset_blacklist_def
      remove_asset_blacklist_def set_asset_whitelist_enabled_def set_recipient_whitelist_enabled_def ok_simps
      intro: owner_writes [OF assms])

lemma index_wf_add: "index_wf ix f \<Longrightarrow> f r = None \<Longrightarrow> index_wf (Some (unwrap_or ix [] @ [r])) (f(r \<mapsto> b))"
  by (auto simp: index_wf_def)

lemma index_wf_remove:
  assumes "index_wf ix f"
  shows "index_wf (if remove1 r (unwrap_or ix []) = [] then None else Some (remove1 r (unwrap_or ix []))) (f(r := None))"
proof -
  have "set (remove1 r (unwrap_or ix [])) = {x. (f(r := None)) x \<noteq> None}" "distinct (remove1 r (unwrap_or ix []))"
    using assms by (auto simp: index_wf_def)
  then show ?thesis by (cases "remove1 r (unwrap_or ix []) = []") (auto simp: index_wf_def)
qed

lemma recipient_entrypoints:
  assumes "policy_inv st"
  shows "add_recipient_to_whitelist env c pid r st = Ok (u, st') \<Longrightarrow> owner_write env c pid st st'"
    and "remove_recipient_from_whitelist env c pid r st = Ok (u, st') \<Longrightarrow> owner_write env c pid st st'"
proof -
  have ix: "index_wf (po_recipient_whitelist_index st pid) (\<lambda>r. po_recipient_whitelist st (pid, r))"
    using policy_inv_D(1) [OF assms, of pid] by (simp add: governed_wf_def governed_def)
  show "add_recipient_to_whitelist env c pid r st = Ok (u, st') \<Longrightarrow> owner_write env c pid st st'"
    using index_wf_add [OF ix, of r]
    by (auto simp: add_recipient_to_whitelist_def ok_simps intro!: owner_writes [OF assms])
  show "remove_recipient_from_whitelist env c pid r st = Ok (u, st') \<Longrightarrow> owner_write env c pid st st'"
    using index_wf_remove [OF ix, of r]
    by (auto simp: remove_recipient_from_whitelist_def ok_simps Let_def intro!: owner_writes [OF assms] split del: if_split)
qed

lemma rule_entrypoints:
  assumes "policy_inv st"
  shows "set_composite_rule env c pid tree st = Ok (u, st') \<Longrightarrow> owner_write env c pid st st'"
    and "clear_composite_rule env c pid st = Ok (u, st') \<Longrightarrow> owner_write env c pid st st'"
    and "add_policy_rule env c pid tree st = Ok (n, st') \<Longrightarrow> owner_write env c pid st st'"
    and "remove_policy_rule env c pid i st = Ok (u, st') \<Longrightarrow> owner_write env c pid st st'"
    and "clear_policy_rules env c pid st = Ok (u, st') \<Longrightarrow> owner_write env c pid st st'"
proof -
  have rules: "rules_wf (po_policy_rules st pid)"
    using policy_inv_D(1) [OF assms, of pid] by (simp add: governed_wf_def governed_def)
  show "set_composite_rule env c pid tree st = Ok (u, st') \<Longrightarrow> owner_write env c pid st st'"
    and "clear_composite_rule env c pid st = Ok (u, st') \<Longrightarrow> owner_write env c pid st st'"
    and "clear_policy_rules env c pid st = Ok (u, st') \<Longrightarrow> owner_write env c pid st st'"
    by (auto simp: set_composite_rule_def clear_composite_rule_def clear_policy_rules_def rules_wf_def ok_simps
        intro!: owner_writes [OF assms])
  have "rules_wf (Some (unwrap_or (po_policy_rules st pid) [] @ [tree]))"
    if "\<not> MAX_POLICY_RULES \<le> length (unwrap_or (po_policy_rules st pid) [])" "validate_rule_tree tree = Ok ()"
    using rules that by (cases "po_policy_rules st pid") (auto simp: rules_wf_def)
  then show "add_policy_rule env c pid tree st = Ok (n, st') \<Longrightarrow> owner_write env c pid st st'"
    by (auto simp: add_policy_rule_def ok_simps Let_def intro!: owner_writes [OF assms])
  have "rules_wf (if take i stack @ drop (Suc i) stack = [] then None else Some (take i stack @ drop (Suc i) stack))"
    if "po_policy_rules st pid = Some stack" for stack
    using rules that by (auto simp: rules_wf_def dest: in_set_takeD in_set_dropD)
  then show "remove_policy_rule env c pid i st = Ok (u, st') \<Longrightarrow> owner_write env c pid st st'"
    by (auto simp: remove_policy_rule_def ok_simps Let_def intro!: owner_writes [OF assms] simp del: append_is_Nil_conv split del: if_split)
qed

lemma get_allowance_wf:
  assumes "allowances_wf st" "timestamp env \<le> u64_max"
  shows "allowance_wf pid a (get_allowance env st pid a)"
proof (cases "po_allowances st (pid, a)")
  case None
  then show ?thesis by (simp add: get_allowance_def settle_window_def allowance_wf_def i128_max_def)
next
  case (Some al)
  then have "allowance_wf pid a (al_settled al (timestamp env))" using assms al_settled_wf by (auto simp: allowances_wf_def)
  then show ?thesis using Some by (simp add: get_allowance_def settle_window_eq [OF assms(2)])
qed

lemma charged_wf:
  assumes "allowances_wf st" "0 < amt" "timestamp env \<le> u64_max"
    and "po_allowances st (pid, a) = Some al" "allowance_admits env al amt" "al_limit al \<noteq> 0"
  shows "allowance_wf pid a (charged env al amt)"
proof -
  have "allowance_wf pid a al" using assms(1,4) by (simp add: allowances_wf_def)
  from this al_settled_wf [OF this assms(3)] show ?thesis
    using assms(2,5,6) by (auto simp: allowance_wf_def charged_def allowance_admits_def)
qed

lemma charged_allowance_wf:
  assumes "allowances_wf st" "0 < amt" "timestamp env \<le> u64_max"
    and "\<And>al. po_allowances st (pid, a) = Some al \<Longrightarrow> allowance_admits env al amt"
    and "charged_allowance env st pid a amt = Some al"
  shows "allowance_wf pid a al"
  using assms(4,5) charged_wf [OF assms(1-3)] by (auto simp: charged_allowance_def split: option.splits if_splits)

lemma record_spends_frame:
  "record_spends totals als st = Ok st' \<Longrightarrow> \<exists>es. st' = st\<lparr>po_allowances := po_allowances st', po_events := po_events st @ es\<rparr>"
proof (induction als arbitrary: st)
  case (Cons al als)
  then obtain amt where "record_spends totals als (persist_spend al amt st) = Ok st'" by (auto simp: ok_simps)
  from Cons.IH [OF this] show ?case by (auto simp: persist_spend_def po_emit_def)
qed (auto intro!: exI [of _ "[]"])

lemma allowance_wf_rewindow:
  assumes "allowance_wf pid a al" "now \<le> u64_max"
  shows "allowance_wf pid a (case w of Some window \<Rightarrow> if window \<noteq> al_window_seconds al
      then al\<lparr>al_window_seconds := window, al_window_start := now\<rparr> else al | None \<Rightarrow> al)"
    and "allowance_wf pid a (if b then al\<lparr>al_window_start := now\<rparr> else al)"
    and "0 \<le> limit \<Longrightarrow> limit \<le> i128_max \<Longrightarrow>
      allowance_wf pid a (al\<lparr>al_limit := limit, al_expires_at := e, al_policy_id := pid, al_asset := a\<rparr>)"
  using assms by (simp_all add: allowance_wf_def split: option.split)

lemma store_entrypoint:
  assumes "policy_inv st" "timestamp env \<le> u64_max" "limit \<le> i128_max"
    and "store_allowance env c pid a limit w e st = Ok (u, st')"
  shows "owner_write env c pid st st'"
proof -
  note ga = get_allowance_wf [OF policy_inv_allowances [OF assms(1)] assms(2), of pid a]
  note wf = allowance_wf_rewindow(3) [OF allowance_wf_rewindow(1) [OF allowance_wf_rewindow(2) [OF ga]], OF assms(2,2,2) _ assms(3)]
  obtain p where p: "authorized env c" "po_policies st pid = Some p" "pl_owner p = c" "0 \<le> limit"
    using assms(4) by (auto simp: store_allowance_def ok_simps)
  show ?thesis using assms(4) p owner_writes(5) [OF assms(1) p(1-3), of "Some al" a for al] wf [OF p(4)]
    unfolding store_allowance_def Let_def by (auto simp: ok_simps simp del: not_None_eq split del: if_split)
qed

lemma update_entrypoint:
  assumes "policy_inv st" "timestamp env \<le> u64_max" "update_allowance env c pid a amt st = Ok (u, st')"
  shows "st' = st \<or> owner_write env c pid st st'"
proof -
  note wf = policy_inv_allowances [OF assms(1)]
    from assms(3) obtain p r st1 where p: "authorized env c" "po_policies st pid = Some p" "pl_owner p = c" "0 < amt"
      and cons: "consume_allowance env pid a amt st = (st1, Ok r)"
      and st': "st' = (case r of Some al \<Rightarrow> persist_spend al amt st1 | None \<Rightarrow> st1)"
      by (auto simp: update_allowance_def ok_simps split: prod.splits option.splits)
    note cn = cons [unfolded consume_allowance_Ok [OF wf less_imp_le [OF p(4)] assms(2)]]
    show ?thesis
    proof (cases r)
      case (Some al)
      have al: "allowance_wf pid a al"
        by (rule charged_allowance_wf [OF wf p(4) assms(2)]) (use cn Some in auto)
      then have "al_policy_id al = pid" "al_asset al = a" by (auto simp: allowance_wf_def)
      moreover have "st1 = st" using cn by blast
      then have "st' = persist_spend al amt st" using st' Some by simp
      ultimately show ?thesis using owner_writes(5) [OF assms(1) p(1-3), of "Some al" a] al
        by (simp add: persist_spend_def)
    qed (use cn st' in simp)
qed

lemma record_entrypoint:
  assumes "policy_inv st" "timestamp env \<le> u64_max" "record_multi_asset_spend env c pid r amounts st = Ok (u, st')"
  shows "owner_write env c pid st st'"
proof -
  note wf = policy_inv_allowances [OF assms(1)]
    have ok: "record_multi_asset_spend env c pid r amounts st = Ok ((), st')" using assms(3) by simp
    obtain p where p: "po_policies st pid = Some p" "pl_owner p = c" "authorized env c"
      and gates: "\<forall>e \<in> set amounts. 0 < amount e \<and> asset_gates env st pid p (asset e) r (leg_sum amounts (asset e))"
      and al: "po_allowances st' = (\<lambda>(q, a). if q = pid \<and> a \<in> asset ` set amounts \<and> charged_allowance env st pid a (leg_sum amounts a) \<noteq> None
       then charged_allowance env st pid a (leg_sum amounts a) else po_allowances st (q, a))"
      using record_multi_Ok [OF ok wf assms(2)] by blast
    obtain es where st': "st' = st\<lparr>po_allowances := po_allowances st', po_events := po_events st @ es\<rparr>"
      using ok by (auto simp: record_multi_asset_spend_def ok_simps dest!: record_spends_frame)
    let ?g = "(governed st pid)\<lparr>gv_allowances := \<lambda>a. po_allowances st' (pid, a)\<rparr>"
    have gov: "governed st' q = (if q = pid then ?g else governed st q)" for q
      by (subst (1) st') (auto simp: governed_def al fun_eq_iff)
    have pos: "0 < leg_sum amounts k" if "k \<in> asset ` set amounts" for k
    proof -
      have "(\<forall>e \<in> set xs. 0 < amount e) \<Longrightarrow> 0 \<le> leg_sum xs k \<and> (k \<in> asset ` set xs \<longrightarrow> 0 < leg_sum xs k)" for xs
        by (induction xs) auto
      then show ?thesis using gates that by blast
    qed
    have "allowance_wf pid k al" if "po_allowances st' (pid, k) = Some al" for k al
    proof (cases "k \<in> asset ` set amounts \<and> charged_allowance env st pid k (leg_sum amounts k) \<noteq> None")
      case True
      then have "\<And>al. po_allowances st (pid, k) = Some al \<Longrightarrow> allowance_admits env al (leg_sum amounts k)"
        using gates by (auto simp: asset_gates_def)
      from charged_allowance_wf [OF wf pos assms(2) this] True that show ?thesis by (auto simp: al)
    next
      case False
      then show ?thesis using that wf by (auto simp: al allowances_wf_def)
    qed
    then have "governed_wf pid ?g" if "governed_wf pid (governed st pid)" "gv_policy (governed st pid) = Some p"
      using that by (simp add: governed_wf_def)
    then show ?thesis by (intro owner_write_governed [OF assms(1) p(3,1,2) gov]) auto
qed

lemma remove_allowance_entrypoint:
  "policy_inv st \<Longrightarrow> remove_allowance env c pid a st = Ok (u, st') \<Longrightarrow> owner_write env c pid st st'"
  by (auto simp: remove_allowance_def ok_simps intro!: owner_writes)

text \<open>Entrypoints that leave what every policy governs alone: the lists shared by all policies, the
  evaluations.\<close>

lemma shared_entrypoints:
  "policy_initialize st = Ok (u, st') \<Longrightarrow> governed st' q = governed st q"
  "add_blacklist env c pid x st = Ok (u, st') \<Longrightarrow> governed st' q = governed st q"
  "remove_blacklist env c pid x st = Ok (u, st') \<Longrightarrow> governed st' q = governed st q"
  "add_to_blocklist env c pid x st = Ok (u, st') \<Longrightarrow> governed st' q = governed st q"
  "remove_from_blocklist env c pid x st = Ok (u, st') \<Longrightarrow> governed st' q = governed st q"
  "add_merchant_blacklist env c pid x st = Ok (u, st') \<Longrightarrow> governed st' q = governed st q"
  "remove_merchant_blacklist env c pid x st = Ok (u, st') \<Longrightarrow> governed st' q = governed st q"
  "add_category_blacklist env c pid k st = Ok (u, st') \<Longrightarrow> governed st' q = governed st q"
  "remove_category_blacklist env c pid k st = Ok (u, st') \<Longrightarrow> governed st' q = governed st q"
  by (auto simp: policy_initialize_def add_blacklist_def remove_blacklist_def add_to_blocklist_def remove_from_blocklist_def
      add_merchant_blacklist_def remove_merchant_blacklist_def add_category_blacklist_def remove_category_blacklist_def
      governed_def ok_simps)

lemma consume_allowance_governed: "consume_allowance env pid a n st = (st1, r) \<Longrightarrow> \<exists>es. st1 = po_emit es st"
proof -
  have e: "\<exists>es. st = po_emit es st" by (rule exI [of _ "[]"]) (simp add: po_emit_def)
  have "\<exists>es. fst (attempt st m f) = po_emit es st" if "\<And>x. \<exists>es. fst (f x) = po_emit es st" for m f
    using that e by (cases m) (auto simp: attempt_def)
  note at = this
  have v: "\<exists>es. events_policy_violation pid x st = po_emit es st" for x by (auto simp: events_policy_violation_def)
  have "\<exists>es. fst (consume_allowance env pid a n st) = po_emit es st"
    unfolding consume_allowance_def using v by (auto split: option.split intro!: at e)
  then show "consume_allowance env pid a n st = (st1, r) \<Longrightarrow> \<exists>es. st1 = po_emit es st" by simp
qed

lemma governed_emit [simp]: "governed (po_emit es st) q = governed st q"
  by (simp add: governed_def)

lemma screen_asset_rules_governed:
  assumes "screen_asset_rules env p pid a r n c st = Ok (al, d, c', st')"
  shows "\<exists>es. st' = po_emit es st"
proof -
  have e: "\<exists>es. st = po_emit es st" by (rule exI [of _ "[]"]) (simp add: po_emit_def)
  obtain st1 res where "consume_allowance env pid a n st = (st1, res)" by (cases "consume_allowance env pid a n st")
  then show ?thesis using assms e consume_allowance_governed
    by (cases res) (auto simp: screen_asset_rules_def Let_def ok_simps split: if_splits prod.splits)
qed

lemma walk_entrypoints:
  "check_transfer env pid a r n st = Ok (u, st') \<Longrightarrow> governed st' q = governed st q"
  "evaluate_policy env pid payload st = Ok (dec, st'') \<Longrightarrow> governed st'' q = governed st q"
proof -
  have ev: "evaluate_policy_decision env pid pl st = Ok (dec, st1) \<Longrightarrow> governed st1 q = governed st q" for pl dec st1
    by (auto simp: evaluate_policy_decision_def ok_simps split: prod.splits option.splits
        dest!: screen_asset_rules_governed)
  show "check_transfer env pid a r n st = Ok (u, st') \<Longrightarrow> governed st' q = governed st q"
    using ev by (auto simp: check_transfer_def enforce_decision_def ok_simps split: option.splits)
  show "evaluate_policy env pid payload st = Ok (dec, st'') \<Longrightarrow> governed st'' q = governed st q"
    using ev by (auto simp: evaluate_policy_def report_denial_def events_policy_violation_def ok_simps split: option.splits)
qed

section \<open>Runs\<close>

inductive po_step :: "env \<Rightarrow> address \<Rightarrow> policy_state \<Rightarrow> policy_state \<Rightarrow> bool" for env :: env and c :: address where
  ps_initialize: "policy_initialize st = Ok (u, st') \<Longrightarrow> po_step env c st st'"
| ps_register: "register_policy env c pid h m r a e s st = Ok (u, st') \<Longrightarrow> po_step env c st st'"
| ps_rotate: "rotate_policy env c pid h m st = Ok (u, st') \<Longrightarrow> po_step env c st st'"
| ps_enable: "set_enabled env c pid b st = Ok (u, st') \<Longrightarrow> po_step env c st st'"
| ps_strategy: "set_rule_combination_strategy env c pid s st = Ok (u, st') \<Longrightarrow> po_step env c st st'"
| ps_hours: "set_transfer_window env c pid t1 t2 d st = Ok (u, st') \<Longrightarrow> po_step env c st st'"
| ps_asset_add: "add_asset_to_whitelist env c pid a st = Ok (u, st') \<Longrightarrow> po_step env c st st'"
| ps_asset_remove: "remove_asset_from_whitelist env c pid a st = Ok (u, st') \<Longrightarrow> po_step env c st st'"
| ps_asset_block: "add_asset_blacklist env c pid a st = Ok (u, st') \<Longrightarrow> po_step env c st st'"
| ps_asset_unblock: "remove_asset_blacklist env c pid a st = Ok (u, st') \<Longrightarrow> po_step env c st st'"
| ps_asset_mode: "set_asset_whitelist_enabled env c pid b st = Ok (u, st') \<Longrightarrow> po_step env c st st'"
| ps_block: "add_blacklist env c pid x st = Ok (u, st') \<Longrightarrow> po_step env c st st'"
| ps_unblock: "remove_blacklist env c pid x st = Ok (u, st') \<Longrightarrow> po_step env c st st'"
| ps_merchant: "add_merchant_blacklist env c pid x st = Ok (u, st') \<Longrightarrow> po_step env c st st'"
| ps_unmerchant: "remove_merchant_blacklist env c pid x st = Ok (u, st') \<Longrightarrow> po_step env c st st'"
| ps_category: "add_category_blacklist env c pid k st = Ok (u, st') \<Longrightarrow> po_step env c st st'"
| ps_uncategory: "remove_category_blacklist env c pid k st = Ok (u, st') \<Longrightarrow> po_step env c st st'"
| ps_blocklist: "add_to_blocklist env c pid x st = Ok (u, st') \<Longrightarrow> po_step env c st st'"
| ps_unblocklist: "remove_from_blocklist env c pid x st = Ok (u, st') \<Longrightarrow> po_step env c st st'"
| ps_recipient_mode: "set_recipient_whitelist_enabled env c pid b st = Ok (u, st') \<Longrightarrow> po_step env c st st'"
| ps_recipient_add: "add_recipient_to_whitelist env c pid x st = Ok (u, st') \<Longrightarrow> po_step env c st st'"
| ps_recipient_remove: "remove_recipient_from_whitelist env c pid x st = Ok (u, st') \<Longrightarrow> po_step env c st st'"
| ps_allowance: "limit \<le> i128_max \<Longrightarrow> store_allowance env c pid a limit w e st = Ok (u, st') \<Longrightarrow> po_step env c st st'"
| ps_allowance_remove: "remove_allowance env c pid a st = Ok (u, st') \<Longrightarrow> po_step env c st st'"
| ps_allowance_use: "update_allowance env c pid a n st = Ok (u, st') \<Longrightarrow> po_step env c st st'"
| ps_composite: "set_composite_rule env c pid tree st = Ok (u, st') \<Longrightarrow> po_step env c st st'"
| ps_composite_clear: "clear_composite_rule env c pid st = Ok (u, st') \<Longrightarrow> po_step env c st st'"
| ps_rule_add: "add_policy_rule env c pid tree st = Ok (k, st') \<Longrightarrow> po_step env c st st'"
| ps_rule_remove: "remove_policy_rule env c pid i st = Ok (u, st') \<Longrightarrow> po_step env c st st'"
| ps_rules_clear: "clear_policy_rules env c pid st = Ok (u, st') \<Longrightarrow> po_step env c st st'"
| ps_check: "check_transfer env pid a x n st = Ok (u, st') \<Longrightarrow> po_step env c st st'"
| ps_dry_run: "evaluate_policy env pid payload st = Ok (dec, st') \<Longrightarrow> po_step env c st st'"
| ps_record: "record_multi_asset_spend env c pid x amounts st = Ok (u, st') \<Longrightarrow> po_step env c st st'"

text \<open>What a step can do to the policies: nothing, register one, or write as the owner of one.\<close>

inductive po_effect :: "env \<Rightarrow> address \<Rightarrow> policy_state \<Rightarrow> policy_state \<Rightarrow> bool" for env c st st' where
  pe_same: "(\<And>q. governed st' q = governed st q) \<Longrightarrow> po_effect env c st st'"
| pe_registered: "registration env c pid st st' \<Longrightarrow> po_effect env c st st'"
| pe_written: "owner_write env c pid st st' \<Longrightarrow> po_effect env c st st'"

lemma po_step_effect:
  assumes "po_step env c st st'" "policy_inv st" "timestamp env \<le> u64_max"
  shows "po_effect env c st st'"
proof -
  note written = record_entrypoints [OF assms(2)] list_entrypoints [OF assms(2)] recipient_entrypoints [OF assms(2)]
    rule_entrypoints [OF assms(2)] remove_allowance_entrypoint [OF assms(2)] record_entrypoint [OF assms(2,3)]
  from assms(1) show ?thesis
  proof cases
    case (ps_allowance_use pid a n u)
    from update_entrypoint [OF assms(2,3) this] show ?thesis by (auto intro: po_effect.intros)
  next
    case (ps_allowance limit pid a w e u)
    then show ?thesis by (rule pe_written [OF store_entrypoint [OF assms(2,3)]])
  next
    case (ps_register pid h m r a e s u)
    then show ?thesis by (rule pe_registered [OF register_entrypoint [OF assms(2)]])
  qed ((rule pe_written, erule written) | (rule pe_same, erule shared_entrypoints walk_entrypoints))+
qed

text \<open>A transaction: any entrypoint, by any caller, at any ledger time.\<close>

definition po_next :: "policy_state \<Rightarrow> policy_state \<Rightarrow> bool" where
  "po_next st st' \<longleftrightarrow> (\<exists>env c. timestamp env \<le> u64_max \<and> po_step env c st st')"

lemma policy_inv_empty: "policy_inv policy_empty"
  by (simp add: policy_inv_def governed_wf_def governed_def policy_empty_def index_wf_def rules_wf_def)

lemma po_next_inv: "policy_inv st \<Longrightarrow> po_next st st' \<Longrightarrow> policy_inv st'"
proof -
  assume inv: "policy_inv st" and "po_next st st'"
  then obtain env c where "timestamp env \<le> u64_max" "po_step env c st st'" by (auto simp: po_next_def)
  then have "po_effect env c st st'" using po_step_effect inv by blast
  then show "policy_inv st'" using inv
    by cases (auto simp: policy_inv_def registration_def owner_write_def, metis+)
qed

interpretation policy_sys: invariant_system "\<lambda>st. st = policy_empty" po_next policy_inv
  by unfold_locales (auto intro: policy_inv_empty po_next_inv)

end
