(* ===== verification/Policy_Safety.thy ===== *)
theory Policy_Safety
  imports Policy_Runs
begin

text \<open>
  The properties of the policy contract: well-formed storage, isolation of policies, the exact gate of a
  transfer, the rule engine, the rate limit of allowances, multi-asset spends, and what the shared
  blocklists and the registration of rule trees leave open.
\<close>

section \<open>Rate limits over a run\<close>

definition window_sum :: "u64 \<Rightarrow> u64 \<Rightarrow> nat \<Rightarrow> (u64 \<times> i128) list \<Rightarrow> i128" where
  "window_sum s w k h = (\<Sum>(t, n)\<leftarrow>h. if s + k * w \<le> t \<and> t < s + Suc k * w then n else 0)"

lemma window_sum_snoc:
  "window_sum s w k (h @ [(t, n)]) = window_sum s w k h + (if s + k * w \<le> t \<and> t < s + Suc k * w then n else 0)"
  by (simp add: window_sum_def)

text \<open>Spends recorded against one allowance with its limit and window unchanged, at ledger times that
  do not run backwards, with anything else in between that leaves that allowance alone.\<close>

inductive allowance_run ::
  "string \<Rightarrow> address \<Rightarrow> i128 \<Rightarrow> u64 \<Rightarrow> u64 \<Rightarrow> policy_state \<Rightarrow> (u64 \<times> i128) list \<Rightarrow> bool"
  for pid :: string and a :: address and L :: i128 and w :: u64 and s :: u64 where
  ar_start: "po_allowances st (pid, a) = Some al \<Longrightarrow> al_limit al = L \<Longrightarrow> al_window_seconds al = w \<Longrightarrow>
     al_window_start al = s \<Longrightarrow> al_spent al = 0 \<Longrightarrow> allowances_wf st \<Longrightarrow> allowance_run pid a L w s st []"
| ar_update: "allowance_run pid a L w s st h \<Longrightarrow> update_allowance env c pid a n st = Ok (u, st') \<Longrightarrow>
     timestamp env \<le> u64_max \<Longrightarrow> (\<And>t. t \<in> fst ` set h \<Longrightarrow> t \<le> timestamp env) \<Longrightarrow>
     allowances_wf st' \<Longrightarrow> allowance_run pid a L w s st' (h @ [(timestamp env, n)])"
| ar_record: "allowance_run pid a L w s st h \<Longrightarrow> record_multi_asset_spend env c pid r amounts st = Ok (u, st') \<Longrightarrow>
     a \<in> asset ` set amounts \<Longrightarrow> timestamp env \<le> u64_max \<Longrightarrow> (\<And>t. t \<in> fst ` set h \<Longrightarrow> t \<le> timestamp env) \<Longrightarrow>
     allowances_wf st' \<Longrightarrow> allowance_run pid a L w s st' (h @ [(timestamp env, leg_sum amounts a)])"
| ar_other: "allowance_run pid a L w s st h \<Longrightarrow> po_allowances st' (pid, a) = po_allowances st (pid, a) \<Longrightarrow>
     allowances_wf st' \<Longrightarrow> allowance_run pid a L w s st' h"

definition rate_inv :: "i128 \<Rightarrow> u64 \<Rightarrow> u64 \<Rightarrow> asset_allowance \<Rightarrow> (u64 \<times> i128) list \<Rightarrow> bool" where
  "rate_inv L w s al h \<longleftrightarrow> al_limit al = L \<and> al_window_seconds al = w \<and> al_spent al \<le> L \<and>
     (\<forall>j. window_sum s w j h \<le> L) \<and>
     (\<exists>k. al_window_start al = s + k * w \<and> window_sum s w k h \<le> al_spent al \<and>
          (\<forall>t \<in> fst ` set h. t < s + Suc k * w) \<and> (0 < k \<longrightarrow> (\<exists>t \<in> fst ` set h. s + k * w \<le> t)))"

lemma window_sum_later:
  assumes "\<forall>t \<in> fst ` set h. t < s + Suc k * w" "k < j"
  shows "window_sum s w j h = 0"
proof -
  have "Suc k * w \<le> j * w" using assms(2) by (intro mult_le_mono1) simp
  then have "\<not> s + j * w \<le> t" if "t \<in> fst ` set h" for t using assms(1) that by fastforce
  then show ?thesis unfolding window_sum_def by (induction h) auto
qed

lemma rate_inv_charge:
  assumes "rate_inv L w s al h" "0 < w" "0 < L" "0 \<le> n"
    and "\<And>t. t \<in> fst ` set h \<Longrightarrow> t \<le> timestamp env" "allowance_admits env al n"
  shows "rate_inv L w s (charged env al n) (h @ [(timestamp env, n)])"
proof -
  let ?t = "timestamp env"
  obtain k where k: "al_window_start al = s + k * w" "window_sum s w k h \<le> al_spent al"
    "\<forall>t \<in> fst ` set h. t < s + Suc k * w" "0 < k \<longrightarrow> (\<exists>t \<in> fst ` set h. s + k * w \<le> t)"
    and al: "al_limit al = L" "al_window_seconds al = w" "al_spent al \<le> L" "\<And>j. window_sum s w j h \<le> L"
    using assms(1) by (auto simp: rate_inv_def)
  have adm: "al_spent (al_settled al ?t) + n \<le> L" using assms(3,6) al(1) by (auto simp: allowance_admits_def)
  show ?thesis
  proof (cases "?t < al_window_start al")
    case True
    then have k0: "k = 0" using k(1,4) assms(5) by (metis (no_types, lifting) gr0I le_trans not_le)
    have st: "al_settled al ?t = al" using True by (simp add: al_settled_def Let_def)
    have "\<not> s + j * w \<le> ?t" for j using True k(1) k0 by simp
    then have ws: "window_sum s w j (h @ [(?t, n)]) = window_sum s w j h" for j by (simp add: window_sum_snoc)
    show ?thesis unfolding rate_inv_def ws using k al adm st assms(4) True k0
      by (auto simp: charged_def intro!: exI [of _ 0])
  next
    case False
    define d where "d = (?t - al_window_start al) div w"
    define m where "m = k + d"
    have inwin: "s + m * w \<le> ?t" "?t < s + Suc m * w"
      using False k(1) whole_windows_le [of "al_window_start al" ?t w]
        dividend_less_div_times [OF assms(2), of "?t - al_window_start al"]
      by (auto simp: m_def d_def add_mult_distrib)
    have only: "s + j * w \<le> ?t \<and> ?t < s + Suc j * w \<longleftrightarrow> j = m" for j
    proof
      assume j: "s + j * w \<le> ?t \<and> ?t < s + Suc j * w"
      then have "j * w < Suc m * w" "m * w < Suc j * w" using inwin by linarith+
      then show "j = m" unfolding mult_less_cancel2 by linarith
    qed (use inwin in simp)
    have ws: "window_sum s w j (h @ [(?t, n)]) = window_sum s w j h + (if j = m then n else 0)" for j
      unfolding window_sum_snoc only by simp
    have set: "al_window_start (al_settled al ?t) = s + m * w"
      "al_spent (al_settled al ?t) = (if d = 0 then al_spent al else 0)"
      using False k(1) al(2) assms(2) by (auto simp: al_settled_def Let_def m_def d_def add_mult_distrib)
    have le: "window_sum s w m h \<le> al_spent (al_settled al ?t)"
      using k(2) window_sum_later [OF k(3), of m] set(2) by (cases "d = 0") (auto simp: m_def)
    have "\<forall>t \<in> fst ` set (h @ [(?t, n)]). t < s + Suc m * w"
      using assms(5) inwin(2) by (auto intro: le_less_trans)
    moreover have "window_sum s w j (h @ [(?t, n)]) \<le> L" for j using al(4) [of j] le adm by (auto simp: ws)
    ultimately show ?thesis unfolding rate_inv_def using al adm le set inwin
      by (auto simp: charged_def ws intro!: exI [of _ m])
  qed
qed

lemma allowance_run_inv:
  assumes "allowance_run pid a L w s st h" "0 < w" "0 < L"
  shows "allowances_wf st \<and> (\<exists>al. po_allowances st (pid, a) = Some al \<and> rate_inv L w s al h)"
  using assms(1)
proof induction
  case (ar_start st al)
  then show ?case using assms(3) by (auto simp: rate_inv_def window_sum_def intro!: exI [of _ 0])
next
  case (ar_update st h env c n u st')
  then obtain al where al: "po_allowances st (pid, a) = Some al" "rate_inv L w s al h" and wf: "allowances_wf st" by auto
  have lim: "al_limit al \<noteq> 0" using al(2) assms(3) by (auto simp: rate_inv_def)
  from ar_update.hyps(2) obtain st1 r where n: "0 < n" and cons: "consume_allowance env pid a n st = (st1, Ok r)"
    and st': "st' = (case r of Some al \<Rightarrow> persist_spend al n st1 | None \<Rightarrow> st1)"
    by (auto simp: update_allowance_def ok_simps split: prod.splits option.splits)
  note cn = cons [unfolded consume_allowance_Ok [OF wf less_imp_le [OF n] ar_update.hyps(3)]]
  have "allowance_wf pid a al" using wf al(1) by (simp add: allowances_wf_def)
  then have "po_allowances st' (pid, a) = Some (charged env al n)"
    using cn st' al(1) lim by (auto simp: charged_allowance_def persist_spend_def allowance_wf_def)
  moreover have "rate_inv L w s (charged env al n) (h @ [(timestamp env, n)])"
    by (rule rate_inv_charge [OF al(2) assms(2,3)]) (use n cn al(1) ar_update.hyps(4) in auto)
  ultimately show ?case using ar_update.hyps(5) by blast
next
  case (ar_record st h env c r amounts u st')
  then obtain al where al: "po_allowances st (pid, a) = Some al" "rate_inv L w s al h" and wf: "allowances_wf st" by auto
  have lim: "al_limit al \<noteq> 0" using al(2) assms(3) by (auto simp: rate_inv_def)
  let ?n = "leg_sum amounts a"
  have ok: "record_multi_asset_spend env c pid r amounts st = Ok ((), st')" using ar_record.hyps(2) by simp
  obtain p where p: "\<forall>e \<in> set amounts. 0 < amount e \<and> asset_gates env st pid p (asset e) r (leg_sum amounts (asset e))"
    and eff: "po_allowances st' = (\<lambda>(q, a). if q = pid \<and> a \<in> asset ` set amounts \<and> charged_allowance env st pid a (leg_sum amounts a) \<noteq> None
       then charged_allowance env st pid a (leg_sum amounts a) else po_allowances st (q, a))"
    using record_multi_Ok [OF ok wf ar_record.hyps(4)] by blast
  have adm: "allowance_admits env al ?n" using p ar_record.hyps(3) al(1) by (auto simp: asset_gates_def)
  have "0 \<le> leg_sum xs a" if "\<forall>e \<in> set xs. 0 < amount e" for xs using that by (induction xs) auto
  then have n: "0 \<le> ?n" using p by blast
  have "po_allowances st' (pid, a) = Some (charged env al ?n)"
    using ar_record.hyps(3) al(1) lim by (simp add: eff charged_allowance_def)
  moreover have "rate_inv L w s (charged env al ?n) (h @ [(timestamp env, ?n)])"
    by (rule rate_inv_charge [OF al(2) assms(2,3) n _ adm]) (rule ar_record.hyps(5))
  ultimately show ?case using ar_record.hyps(6) by blast
next
  case (ar_other st h st')
  then show ?case by auto
qed

section \<open>A sample policy\<close>

definition pdemo_env :: "u64 \<Rightarrow> env" where
  "pdemo_env t = \<lparr>timestamp = t, sequence = 0, this_contract = 9, authorized = (\<lambda>_. True), authorized_args = (\<lambda>_ _. True)\<rparr>"

definition pdemo_policy :: policy where
  "pdemo_policy = \<lparr>pl_owner = 1, pl_config_hash = [], pl_max_amount = 500, pl_allowed_recipient = None,
     pl_allowed_asset = None, pl_expires_at = 0, pl_enabled = True, pl_strategy = StrategyAll,
     pl_window_start_time = 0, pl_window_end_time = 0, pl_window_days = 0\<rparr>"

definition pdemo_state :: policy_state where
  "pdemo_state = policy_empty\<lparr>po_policies := [''p'' \<mapsto> pdemo_policy], po_events := [PvRegistered ''p'']\<rparr>"

lemma pdemo_env_sel [simp]: "timestamp (pdemo_env t) = t" "authorized (pdemo_env t) c"
  by (simp_all add: pdemo_env_def)

lemma pdemo_state_sel [simp]:
  "po_policies pdemo_state = [''p'' \<mapsto> pdemo_policy]" "po_blacklist pdemo_state = Map.empty"
  "po_merchant_blacklist pdemo_state = Map.empty" "po_recipient_whitelist_enabled pdemo_state = Map.empty"
  "po_recipient_whitelist pdemo_state = Map.empty" "po_recipient_whitelist_index pdemo_state = Map.empty"
  "po_asset_blacklist pdemo_state = Map.empty" "po_asset_whitelist_enabled pdemo_state = Map.empty"
  "po_asset_whitelist pdemo_state = Map.empty"
  "po_allowances pdemo_state = Map.empty" "po_composite_rule pdemo_state = Map.empty" "po_policy_rules pdemo_state = Map.empty"
  by (simp_all add: pdemo_state_def policy_empty_def)

abbreviation pdemo_reach :: "policy_state \<Rightarrow> bool" where
  "pdemo_reach \<equiv> reach (\<lambda>st. st = policy_empty) po_next"

lemma pdemo_step: "pdemo_reach st \<Longrightarrow> po_step (pdemo_env t) c st st' \<Longrightarrow> t \<le> u64_max \<Longrightarrow> pdemo_reach st'"
  by (rule reach_step) (auto simp: po_next_def intro!: exI [of _ "pdemo_env t"])

lemma pdemo_registered: "pdemo_reach pdemo_state"
proof (rule pdemo_step [of policy_empty 0 1])
  show "pdemo_reach policy_empty" by (rule reach_init) simp
  have "register_policy (pdemo_env 0) 1 ''p'' [] 500 None None 0 None policy_empty = Ok ((), pdemo_state)"
    by (simp add: register_policy_def require_auth_def require_non_empty_def policy_empty_def pdemo_state_def
        pdemo_policy_def po_emit_def pol_store_def default_strategy_def)
  then show "po_step (pdemo_env 0) 1 policy_empty pdemo_state" by (rule ps_register)
qed simp

section \<open>Properties\<close>

text \<open>The storage of the contract stays well-formed over every run: the directory of approved recipients
  lists exactly the stored entries without repetition, every stored rule tree has child ranges inside the
  tree, at most sixteen rules are stacked, an operating window fits into its day, and every allowance
  carries its own key and non-negative 128-bit amounts.\<close>

theorem policy_storage_well_formed:
  assumes "pdemo_reach st"
  shows "distinct (get_recipient_whitelist st pid) \<and>
     set (get_recipient_whitelist st pid) = {r. is_recipient_whitelisted st pid r} \<and>
     length (get_policy_rules st pid) \<le> MAX_POLICY_RULES \<and>
     (\<forall>tree. tree \<in> set (get_policy_rules st pid) \<or> get_composite_rule st pid = Ok tree \<longrightarrow> validate_rule_tree tree = Ok ()) \<and>
     (case get_transfer_window st pid of (s, e, d) \<Rightarrow> d = 0 \<or> (s < d \<and> e < d \<and> d \<le> SECONDS_PER_MONTH)) \<and>
     (\<forall>a al. po_allowances st (pid, a) = Some al \<longrightarrow> al_policy_id al = pid \<and> al_asset al = a \<and>
        0 \<le> al_limit al \<and> al_limit al \<le> i128_max \<and> 0 \<le> al_spent al \<and> al_spent al \<le> i128_max)"
proof -
  from policy_sys.reach_inv [OF assms] have wf: "governed_wf pid (governed st pid)" by (simp add: policy_inv_def)
  have "po_policy_rules st pid = Some stack \<Longrightarrow> rules_wf (Some stack)" for stack
    using wf by (auto simp: governed_wf_def governed_def)
  then show ?thesis using wf
    by (cases "po_policies st pid"; cases "po_policy_rules st pid")
       (auto simp: governed_wf_def governed_def index_wf_def rules_wf_def get_recipient_whitelist_def
        is_recipient_whitelisted_def get_policy_rules_def get_composite_rule_def get_transfer_window_def pol_load_def
        ok_simps window_wf_def allowance_wf_def MAX_POLICY_RULES_def)
qed

theorem policy_storage_well_formed_witness:
  "\<exists>st. pdemo_reach st \<and> get_recipient_whitelist st ''p'' = [5] \<and> {r. is_recipient_whitelisted st ''p'' r} = {5}"
proof -
  obtain st where a: "add_recipient_to_whitelist (pdemo_env 1) 1 ''p'' 5 pdemo_state = Ok ((), st)"
    and i: "get_recipient_whitelist st ''p'' = [5]"
    by (simp add: add_recipient_to_whitelist_def require_policy_owner_def require_auth_def pol_load_def pdemo_policy_def
        get_recipient_whitelist_def)
  have r: "pdemo_reach st" by (rule pdemo_step [OF pdemo_registered ps_recipient_add [OF a]]) (simp add: u64_max_def)
  from policy_storage_well_formed [OF r, of "''p''"] i r show ?thesis by auto
qed

text \<open>Policies are isolated: a transaction that changes anything stored for a policy (its record, its
  asset and recipient lists, its allowances, its rules) was made by its owner with his authorisation, or
  registers it for the first time in the name of the caller; the owner never changes.\<close>

theorem policies_isolated:
  assumes "pdemo_reach st" "po_step env c st st'" "timestamp env \<le> u64_max" "governed st' pid \<noteq> governed st pid"
  shows "authorized env c \<and> (\<forall>p. po_policies st pid = Some p \<longrightarrow> pl_owner p = c) \<and>
     (\<exists>p'. po_policies st' pid = Some p' \<and> pl_owner p' = c)"
proof -
  from po_step_effect [OF assms(2) policy_sys.reach_inv [OF assms(1)] assms(3)] show ?thesis
    using assms(4)
  proof cases
    case (pe_registered q)
    then show ?thesis using assms(4) by (cases "q = pid") (auto simp: registration_def)
  next
    case (pe_written q)
    then show ?thesis using assms(4) by (cases "q = pid") (auto simp: owner_write_def)
  qed simp
qed

theorem policies_isolated_witness:
  "\<exists>st'. po_step (pdemo_env 1) 1 pdemo_state st' \<and> pl_enabled (the (po_policies st' ''p'')) = False \<and>
     pl_owner (the (po_policies st' ''p'')) = 1"
proof -
  obtain st' where a: "set_enabled (pdemo_env 1) 1 ''p'' False pdemo_state = Ok ((), st')"
    and e: "po_policies st' ''p'' = Some (pdemo_policy\<lparr>pl_enabled := False\<rparr>)"
    by (simp add: set_enabled_def owned_policy_def require_auth_def pol_load_def pdemo_policy_def)
  have ne: "governed st' ''p'' \<noteq> governed pdemo_state ''p''" using e by (simp add: governed_def pdemo_policy_def)
  show ?thesis using policies_isolated [OF pdemo_registered ps_enable [OF a] _ ne] e ps_enable [OF a]
    by (auto simp: u64_max_def)
qed

text \<open>C9. The exact gate of a transfer: \<open>check_transfer\<close> accepts exactly the positive amounts that pass every
  configured rule (enabled, recipient on no blocklist, approved directory, operating hours, expiry,
  ceiling, pinned recipient and asset, asset lists, allowance, composite rule and rule stack), and it
  changes nothing.\<close>

theorem check_transfer_exact:
  assumes "pdemo_reach st" "timestamp env \<le> u64_max"
  shows "check_transfer env pid a recip amt st = Ok ((), st') \<longleftrightarrow>
     0 < amt \<and> st' = st \<and>
     (\<exists>p. po_policies st pid = Some p \<and> recipient_gates env st pid p recip \<and> asset_gates env st pid p a recip amt)"
  by (rule check_transfer_iff [OF policy_inv_allowances [OF policy_sys.reach_inv [OF assms(1)]] assms(2)])

theorem check_transfer_exact_witness:
  "check_transfer (pdemo_env 1) ''p'' 7 5 500 pdemo_state = Ok ((), pdemo_state) \<and>
   check_transfer (pdemo_env 1) ''p'' 7 5 501 pdemo_state \<noteq> Ok ((), pdemo_state)"
proof -
  have t: "timestamp (pdemo_env 1) \<le> u64_max" by (simp add: u64_max_def)
  show ?thesis unfolding check_transfer_exact [OF pdemo_registered t]
    by (simp add: recipient_gates_def asset_gates_def pdemo_policy_def is_within_transfer_window_def is_asset_blacklisted_def
        evaluate_composite_rule_def composite_rule_with_context_def evaluate_policy_rules_def pol_load_def
        policy_rules_with_context_def get_policy_rules_def)
qed

text \<open>C10. Rules mean what they say: every Boolean combination of the leaf tests with non-empty branches and
  height at most the depth limit can be laid out as a tree that its owner may register, and from then on
  the engine answers every payload with the truth value of that combination.\<close>

theorem rules_mean_what_they_say:
  assumes "rule_wf r" "rule_height r \<le> MAX_RULE_DEPTH" "po_policies st pid = Some p" "authorized env (pl_owner p)"
  shows "\<exists>st'. set_composite_rule env (pl_owner p) pid (flatten r) st = Ok ((), st') \<and>
     (\<forall>payload. evaluate_composite_rule st' pid payload = Ok (rule_holds st' payload r))"
proof -
  let ?st = "po_emit [PvRuleSet pid] (st\<lparr>po_composite_rule := (po_composite_rule st)(pid \<mapsto> flatten r)\<rparr>)"
  have "set_composite_rule env (pl_owner p) pid (flatten r) st = Ok ((), ?st)"
    using assms(3,4) flatten_valid [OF assms(1)]
    by (simp add: set_composite_rule_def owned_policy_def require_auth_def pol_load_def)
  moreover have "evaluate_composite_rule ?st pid payload = Ok (rule_holds ?st payload r)" for payload
  proof -
    obtain c where "evaluate_node ?st (flatten r) payload MAX_RULE_DEPTH 0 fresh_context = Ok (rule_holds ?st payload r, c)"
      using decode_eval [OF decode_flatten [OF assms(1,2)] ctx_ok_fresh] by blast
    moreover have "flatten r \<noteq> []" using flatten_valid [OF assms(1)] by (auto simp: validate_rule_tree_def)
    ultimately show ?thesis by (simp add: evaluate_composite_rule_def composite_rule_with_context_def)
  qed
  ultimately show ?thesis by blast
qed

theorem rules_mean_what_they_say_witness:
  "\<exists>st'. set_composite_rule (pdemo_env 1) 1 ''p'' (flatten (RAll [RNot RBlacklisted, RSome [RMax 50, RRecipient 5]])) pdemo_state = Ok ((), st') \<and>
     evaluate_composite_rule st' ''p'' \<lparr>tp_asset = 7, tp_recipient = 6, tp_amount = 51\<rparr> = Ok False"
proof -
  have "rule_wf (RAll [RNot RBlacklisted, RSome [RMax 50, RRecipient 5]])"
    "rule_height (RAll [RNot RBlacklisted, RSome [RMax 50, RRecipient 5]]) \<le> MAX_RULE_DEPTH"
    by (simp_all add: MAX_RULE_DEPTH_def)
  from rules_mean_what_they_say [OF this, of pdemo_state "''p''" pdemo_policy "pdemo_env 1"] show ?thesis
    by (auto simp: pdemo_policy_def)
qed

text \<open>C31. The rule engine always answers: on any stored tree, cyclic ones included, it returns a verdict or
  \<open>InvalidInput\<close> and never traps, and on an accepted tree of at most ten nodes whose child ranges point
  forward it returns a verdict.\<close>

theorem rule_engine_answers:
  assumes "po_composite_rule st pid = Some tree"
  shows "((\<exists>b. evaluate_composite_rule st pid payload = Ok b) \<or> evaluate_composite_rule st pid payload = Err InvalidInput) \<and>
    (validate_rule_tree tree = Ok () \<and> forward_tree tree \<and> length tree \<le> MAX_RULE_DEPTH \<longrightarrow>
      (\<exists>b. evaluate_composite_rule st pid payload = Ok b))"
proof -
  let ?ev = "evaluate_node st tree payload MAX_RULE_DEPTH 0 fresh_context"
  have ev: "evaluate_composite_rule st pid payload = (if tree = [] then Ok True else rbind ?ev (\<lambda>(b, _). Ok b))"
    using assms by (simp add: evaluate_composite_rule_def composite_rule_with_context_def)
  have "(\<exists>b. evaluate_composite_rule st pid payload = Ok b) \<or> evaluate_composite_rule st pid payload = Err InvalidInput"
    unfolding ev using evaluate_node_total [of st tree payload MAX_RULE_DEPTH 0 fresh_context] by (cases ?ev) auto
  moreover have "\<exists>b. evaluate_composite_rule st pid payload = Ok b"
    if v: "validate_rule_tree tree = Ok ()" and f: "forward_tree tree" and l: "length tree \<le> MAX_RULE_DEPTH"
  proof -
    have "tree \<noteq> []" using v by (auto simp: validate_rule_tree_def)
    then obtain r where "decode tree MAX_RULE_DEPTH 0 = Some r" using forward_decodes [OF v f, of 0 MAX_RULE_DEPTH] l by auto
    from decode_eval [OF this ctx_ok_fresh, of st payload] show ?thesis unfolding ev by auto
  qed
  ultimately show ?thesis by blast
qed

theorem rule_engine_answers_witness:
  "\<exists>b. evaluate_composite_rule (pdemo_state\<lparr>po_composite_rule := [''p'' \<mapsto> flatten (RNot RBlacklisted)]\<rparr>) ''p''
     \<lparr>tp_asset = 7, tp_recipient = 6, tp_amount = 51\<rparr> = Ok b"
proof -
  have fl: "flatten (RNot RBlacklisted) = [node_of (RNot RBlacklisted) 1, node_of RBlacklisted 2]"
    by (simp add: flatten_def flatten_from.simps [of 0] flatten_from.simps [of "Suc 0"] flatten_from.simps [of _ "[]"])
  have "validate_rule_tree (flatten (RNot RBlacklisted)) = Ok ()" by (rule flatten_valid) simp
  moreover have "forward_tree (flatten (RNot RBlacklisted))" by (auto simp: fl forward_tree_def nth_Cons split: nat.splits)
  moreover have "length (flatten (RNot RBlacklisted)) \<le> MAX_RULE_DEPTH" by (simp add: fl MAX_RULE_DEPTH_def)
  ultimately show ?thesis
    using rule_engine_answers [of "pdemo_state\<lparr>po_composite_rule := [''p'' \<mapsto> flatten (RNot RBlacklisted)]\<rparr>" "''p''"] by simp
qed

text \<open>The three evaluations agree: for a positive amount, \<open>check_transfer\<close>, the dry run \<open>evaluate_policy\<close> and
  a multi-asset request with that single entry all accept, or all report the same refusal or error.\<close>

theorem evaluations_agree:
  assumes "0 < amt" "amt \<le> i128_max"
  shows "case evaluate_policy env pid \<lparr>tp_asset = a, tp_recipient = recip, tp_amount = amt\<rparr> st of
      Ok (d, _) \<Rightarrow> (case decision_reason d of
         None \<Rightarrow> is_ok (check_transfer env pid a recip amt st) \<and>
                 check_multi_asset_transfer env st pid recip [\<lparr>asset = a, amount = amt\<rparr>] = Ok ()
       | Some r \<Rightarrow> check_transfer env pid a recip amt st = Err (to_error r) \<and>
                 check_multi_asset_transfer env st pid recip [\<lparr>asset = a, amount = amt\<rparr>] = Err (to_error r))
    | Err e \<Rightarrow> check_transfer env pid a recip amt st = Err e \<and>
              check_multi_asset_transfer env st pid recip [\<lparr>asset = a, amount = amt\<rparr>] = Err e
    | Panic \<Rightarrow> check_transfer env pid a recip amt st = Panic \<and>
              check_multi_asset_transfer env st pid recip [\<lparr>asset = a, amount = amt\<rparr>] = Panic"
proof -
  have agg: "aggregate_amounts [\<lparr>asset = a, amount = amt\<rparr>] = Ok [(a, amt)]"
    using assms by (simp add: aggregate_amounts_def MAX_SPEND_ENTRIES_def require_positive_amount_def checked_add_def
        safe_add_def in_i128_def i128_min_def)
  show ?thesis
  proof (cases "po_policies st pid")
    case None
    then show ?thesis using assms(1) agg
      by (simp add: evaluate_policy_def check_transfer_def check_multi_asset_transfer_def evaluate_spend_def
          evaluate_policy_decision_def pol_load_def require_positive_amount_def)
  next
    case (Some p)
    obtain d c where d: "screen_recipient_rules env st pid p recip fresh_context = Ok (d, c)"
      using screen_recipient_rules_iff by blast
    show ?thesis
      using assms(1) agg Some d
      by (cases d; cases "screen_asset_rules env p pid a recip amt c st")
         (auto simp: evaluate_policy_def check_transfer_def check_multi_asset_transfer_def evaluate_spend_def
          evaluate_policy_decision_def pol_load_def require_positive_amount_def enforce_decision_def
          split: option.splits)
  qed
qed

theorem evaluations_agree_witness:
  "check_transfer (pdemo_env 1) ''p'' 7 5 501 pdemo_state = Err PolicyDenied \<and>
   check_multi_asset_transfer (pdemo_env 1) pdemo_state ''p'' 5 [\<lparr>asset = 7, amount = 501\<rparr>] = Err PolicyDenied"
proof -
  obtain st1 where "evaluate_policy (pdemo_env 1) ''p'' \<lparr>tp_asset = 7, tp_recipient = 5, tp_amount = 501\<rparr> pdemo_state
      = Ok (decision_deny DrAboveMaxTransactionLimit 500, st1)"
    by (simp add: evaluate_policy_def require_positive_amount_def evaluate_policy_decision_def pol_load_def
        screen_recipient_rules_def recipient_blacklisted_def merchant_blacklisted_def fresh_context_def
        recipient_whitelist_denied_def is_within_transfer_window_def screen_asset_rules_def pdemo_policy_def Let_def)
  then show ?thesis using evaluations_agree [of 501 "pdemo_env 1" "''p''" 7 5 pdemo_state]
    by (simp add: i128_max_def)
qed

text \<open>C30. The rate limit of an allowance: over any sequence of recorded spends at ledger times that do not run
  backwards, the amounts that fall into one window of the configured length, counted from the time the
  window was set, never add up to more than the limit.\<close>

theorem allowance_rate_limited:
  assumes "allowance_run pid a L w s st h" "0 < w" "0 < L"
  shows "window_sum s w k h \<le> L"
  using allowance_run_inv [OF assms] by (auto simp: rate_inv_def)

theorem allowance_rate_limited_witness:
  "\<exists>st. allowance_run ''p'' 7 100 10 0 st [(3, 60), (12, 90)] \<and> window_sum 0 10 0 [(3, 60), (12, 90)] \<le> 100"
proof -
  let ?al = "\<lambda>n s. \<lparr>al_policy_id = ''p'', al_asset = 7, al_limit = 100, al_spent = n, al_expires_at = 0,
     al_window_seconds = 10, al_window_start = s\<rparr>"
  let ?st = "\<lambda>n s es. pdemo_state\<lparr>po_allowances := [(''p'', 7) \<mapsto> ?al n s], po_events := es\<rparr>"
  have wf: "allowances_wf (?st n s es)" if "0 \<le> n" "n \<le> 100" "s \<le> 100" for n s es
    using that by (simp add: allowances_wf_def allowance_wf_def int_limits)
  have up: "update_allowance (pdemo_env t) 1 ''p'' 7 m (?st n s es) =
      Ok ((), ?st (al_spent (al_settled (?al n s) t) + m) (al_window_start (al_settled (?al n s) t))
        (es @ [PvAllowanceUsed ''p'' 7 m (al_spent (al_settled (?al n s) t) + m)]))"
    if "0 < m" "al_spent (al_settled (?al n s) t) + m \<le> 100" "0 \<le> n" "n \<le> 100" "s \<le> 100" "t \<le> 100" for t n m s es
  proof -
    have t: "t \<le> u64_max" using that(6) by (simp add: u64_max_def)
    have "consume_allowance (pdemo_env t) ''p'' 7 m (?st n s es) = (?st n s es, Ok (Some (charged (pdemo_env t) (?al n s) m)))"
      using that t consume_allowance_eq [OF wf [OF that(3-5)], of m "pdemo_env t" "''p''" 7]
      by (simp add: allowance_admits_def)
    then show ?thesis using that(1)
      by (simp add: update_allowance_def require_policy_owner_def require_auth_def pol_load_def pdemo_policy_def
          require_positive_amount_def persist_spend_def po_emit_def charged_def al_settled_def Let_def)
  qed
  have r0: "allowance_run ''p'' 7 100 10 0 (?st 0 0 []) []" by (rule ar_start) (auto simp: wf)
  let ?e1 = "[PvAllowanceUsed ''p'' 7 60 60]" and ?e2 = "[PvAllowanceUsed ''p'' 7 60 60, PvAllowanceUsed ''p'' 7 90 90]"
  have u1: "update_allowance (pdemo_env 3) 1 ''p'' 7 60 (?st 0 0 []) = Ok ((), ?st 60 0 ?e1)"
    using up [of 60 0 0 3 "[]"] by (simp add: al_settled_def)
  have u2: "update_allowance (pdemo_env 12) 1 ''p'' 7 90 (?st 60 0 ?e1) = Ok ((), ?st 90 10 ?e2)"
    using up [of 90 60 0 12 ?e1] by (simp add: al_settled_def)
  have r1: "allowance_run ''p'' 7 100 10 0 (?st 60 0 ?e1) [(3, 60)]"
    using ar_update [OF r0 u1] by (simp add: wf u64_max_def)
  have r2: "allowance_run ''p'' 7 100 10 0 (?st 90 10 ?e2) [(3, 60), (12, 90)]"
    using ar_update [OF r1 u2] by (simp add: wf u64_max_def)
  from allowance_rate_limited [OF r2, of 0] r2 show ?thesis by auto
qed

text \<open>A recorded multi-asset spend is all or nothing and cannot be split: it succeeds only for the owner,
  when the recipient passes and every asset passes all its rules with the sum of its entries; then
  exactly the allowances of the requested assets are charged, each with that sum.\<close>

theorem multi_asset_spend_exact:
  assumes "pdemo_reach st" "timestamp env \<le> u64_max"
    and "record_multi_asset_spend env c pid recip amounts st = Ok ((), st')"
  shows "\<exists>p. po_policies st pid = Some p \<and> pl_owner p = c \<and> authorized env c \<and> recipient_gates env st pid p recip \<and>
     (\<forall>e \<in> set amounts. 0 < amount e \<and> asset_gates env st pid p (asset e) recip (leg_sum amounts (asset e))) \<and>
     po_allowances st' = (\<lambda>(q, a). if q = pid \<and> a \<in> asset ` set amounts \<and> charged_allowance env st pid a (leg_sum amounts a) \<noteq> None
       then charged_allowance env st pid a (leg_sum amounts a) else po_allowances st (q, a))"
  by (rule record_multi_Ok [OF assms(3) policy_inv_allowances [OF policy_sys.reach_inv [OF assms(1)]] assms(2)])

theorem multi_asset_spend_exact_witness:
  "\<exists>st'. record_multi_asset_spend (pdemo_env 1) 1 ''p'' 5 [\<lparr>asset = 7, amount = 20\<rparr>, \<lparr>asset = 7, amount = 30\<rparr>] pdemo_state = Ok ((), st') \<and>
     po_allowances st' = Map.empty"
proof -
  have ok: "record_multi_asset_spend (pdemo_env 1) 1 ''p'' 5 [\<lparr>asset = 7, amount = 20\<rparr>, \<lparr>asset = 7, amount = 30\<rparr>] pdemo_state = Ok ((), pdemo_state)"
    by (simp add: record_multi_asset_spend_def require_policy_owner_def require_auth_def pol_load_def pdemo_policy_def
        evaluate_spend_def aggregate_amounts_def MAX_SPEND_ENTRIES_def require_positive_amount_def checked_add_def safe_add_def
        in_i128_def int_limits screen_recipient_rules_def recipient_blacklisted_def merchant_blacklisted_def fresh_context_def
        recipient_whitelist_denied_def is_within_transfer_window_def screen_asset_rules_def asset_whitelist_denied_def
        consume_allowance_def composite_rule_with_context_def policy_rules_with_context_def get_policy_rules_def Let_def smap_get_def)
  have t: "timestamp (pdemo_env 1) \<le> u64_max" by (simp add: u64_max_def)
  from multi_asset_spend_exact [OF pdemo_registered t ok] ok show ?thesis by auto
qed

text \<open>C32. The blocklists are open to anyone: an account that owns nothing can register a policy of its own and
  with it take any address off the blocklist that protects every other policy.\<close>

theorem blocklist_open_to_anyone:
  assumes "po_blacklist st x = Some q" "po_policies st pid = None" "pid \<noteq> []" "authorized env c"
  shows "\<exists>st1 st2. register_policy env c pid h 0 None None 0 None st = Ok ((), st1) \<and>
     remove_blacklist env c pid x st1 = Ok ((), st2) \<and> po_blacklist st2 x = None \<and>
     (\<forall>q. q \<noteq> pid \<longrightarrow> governed st2 q = governed st q)"
  using assms
  by (simp add: register_policy_def require_auth_def require_non_empty_def remove_blacklist_def require_policy_owner_def
      pol_load_def governed_def)

theorem blocklist_open_to_anyone_witness:
  "\<exists>st1 st2. register_policy (pdemo_env 1) 8 ''mine'' [] 0 None None 0 None (pdemo_state\<lparr>po_blacklist := [5 \<mapsto> ''p'']\<rparr>) = Ok ((), st1) \<and>
     remove_blacklist (pdemo_env 1) 8 ''mine'' 5 st1 = Ok ((), st2) \<and> po_blacklist st2 5 = None"
  using blocklist_open_to_anyone [of "pdemo_state\<lparr>po_blacklist := [5 \<mapsto> ''p'']\<rparr>" 5 "''p''" "''mine''" "pdemo_env 1" 8 "[]"]
  by auto

end
