(* ===== verification/Composition.thy ===== *)
theory Composition
  imports Wallet_Safety Policy_Safety Budget_Props
begin

text \<open>
  The wallet with the contracts it calls. A ledger holds the storage of one policy contract and one budget
  contract beside the token balances; the client calls of the wallet model are instantiated with the
  entrypoints of the policy and the budget models, as the generated clients call them.
\<close>

section \<open>The composed ledger\<close>

record 'w ledger =
  ld_policy :: policy_state
  ld_budget :: budget_state
  ld_tokens :: 'w

text \<open>A client call runs the entrypoint in the same ledger and the same tree of authorisations; a trap
  of the callee reaches the caller as a failed invocation.\<close>

definition policy_call :: "env \<Rightarrow> address \<Rightarrow> string \<Rightarrow> address \<Rightarrow> address \<Rightarrow> i128 \<Rightarrow> 'w ledger \<Rightarrow> ('w ledger, error) call_result" where
  "policy_call env addr pid a recip amt l =
     (case check_transfer env pid a recip amt (ld_policy l) of
        Ok (_, ps) \<Rightarrow> CallOk (l\<lparr>ld_policy := ps\<rparr>) | Err e \<Rightarrow> CallErr e | Panic \<Rightarrow> CallInvoke)"

definition budget_call :: "env \<Rightarrow> address \<Rightarrow> address \<Rightarrow> string \<Rightarrow> i128 \<Rightarrow> 'w ledger \<Rightarrow> (i128 \<times> 'w ledger, budget_error) call_result" where
  "budget_call env addr caller bid amt l =
     (case consume env caller bid amt (ld_budget l) of
        Ok (rem, bs) \<Rightarrow> CallOk (rem, l\<lparr>ld_budget := bs\<rparr>) | Err e \<Rightarrow> CallErr e | Panic \<Rightarrow> CallInvoke)"

definition composed_clients :: "env \<Rightarrow> (address \<Rightarrow> module_id list \<Rightarrow> 'w ledger \<Rightarrow> (module_info option list, error) call_result)
     \<Rightarrow> 'w ledger wallet_clients" where
  "composed_clients env registry =
     \<lparr>cl_check_transfer = policy_call env, cl_consume = budget_call env, cl_modules_batch = registry\<rparr>"

definition ledger_tokens :: "'w token_api \<Rightarrow> 'w ledger token_api" where
  "ledger_tokens tk =
     \<lparr>tk_balance = (\<lambda>l. tk_balance tk (ld_tokens l)),
      tk_transfer = (\<lambda>l t f r n. case tk_transfer tk (ld_tokens l) t f r n of
         TryOk w \<Rightarrow> TryOk (l\<lparr>ld_tokens := w\<rparr>) | TryConversion \<Rightarrow> TryConversion | TryErr e \<Rightarrow> TryErr e | TryInvoke \<Rightarrow> TryInvoke)\<rparr>"

lemma ledger_tokens_laws: "token_laws tk bal \<Longrightarrow> token_laws (ledger_tokens tk) (\<lambda>l. bal (ld_tokens l))"
  by (auto simp: token_laws_def ledger_tokens_def split: try_result.splits)

lemma policy_call_Ok:
  assumes "policy_inv (ld_policy l)" "timestamp env \<le> u64_max" "policy_call env addr pid a recip amt l = CallOk l'"
  shows "l' = l \<and> (\<exists>p. po_policies (ld_policy l) pid = Some p \<and> recipient_gates env (ld_policy l) pid p recip \<and>
    asset_gates env (ld_policy l) pid p a recip amt)"
proof -
  from assms(3) obtain ps where ok: "check_transfer env pid a recip amt (ld_policy l) = Ok ((), ps)" "l' = l\<lparr>ld_policy := ps\<rparr>"
    by (auto simp: policy_call_def split: result.splits)
  from ok(1) [unfolded check_transfer_iff [OF policy_inv_allowances [OF assms(1)] assms(2)]] ok(2) show ?thesis by auto
qed

lemma budget_call_Ok:
  assumes "budget_call env addr c bid amt l = CallOk (m, l')"
  obtains bs b where "l' = l\<lparr>ld_budget := bs\<rparr>" and "consume env c bid amt (ld_budget l) = Ok (m, bs)"
    and "bs_budgets (ld_budget l) bid = Some b" and "b_owner b = c"
proof -
  from assms obtain bs where ok: "l' = l\<lparr>ld_budget := bs\<rparr>" "consume env c bid amt (ld_budget l) = Ok (m, bs)"
    by (auto simp: budget_call_def split: result.splits)
  moreover obtain b where "bs_budgets (ld_budget l) bid = Some b" "b_owner b = c"
    using ok(2) by (auto simp: consume_def ok_simps)
  ultimately show ?thesis using that by blast
qed

lemma ledger_transfer_Ok:
  "tk_transfer (ledger_tokens tk) l t f r n = TryOk l' \<longleftrightarrow>
     (\<exists>w. tk_transfer tk (ld_tokens l) t f r n = TryOk w \<and> l' = l\<lparr>ld_tokens := w\<rparr>)"
  by (auto simp: ledger_tokens_def split: try_result.splits)

section \<open>A composed deployment\<close>

text \<open>Wallet 1 of account 1 holds 100 of token 7 and is wired to a policy whose allowance for the token is 60
  and to a budget of 100.\<close>

definition cdemo_allowance :: asset_allowance where
  "cdemo_allowance = \<lparr>al_policy_id = ''active'', al_asset = 7, al_limit = 60, al_spent = 0, al_expires_at = 0,
     al_window_seconds = 0, al_window_start = 2\<rparr>"

definition cdemo_policies :: policy_state where
  "cdemo_policies = policy_empty\<lparr>po_policies := [''active'' \<mapsto> pdemo_policy],
     po_allowances := [(''active'', 7) \<mapsto> cdemo_allowance],
     po_events := [PvRegistered ''active'', PvAllowanceSet ''active'' 7 60]\<rparr>"

definition cdemo_budget :: "i128 \<Rightarrow> budget" where
  "cdemo_budget s = \<lparr>b_owner = 1, b_limit = 100, b_spent = s, b_period = PeriodNone, b_period_seconds = 0,
     b_window_start = 0, b_rollover_enabled = False, b_rollover_credit = 0, b_rollover_cap = 0,
     b_rollover_max_bps = 0, b_rollover_bps = 0, b_allow_deficit = False, b_deficit_amount = 0,
     b_expires_at = 0, b_state = Active\<rparr>"

definition cdemo_wallet :: wallet_state where
  "cdemo_wallet = (wdemo_state [] [(1, 7) \<mapsto> 100])\<lparr>wa_policy := Some 20, wa_budget := Some 21, wa_default_budget := Some ''ops''\<rparr>"

text \<open>What a transfer out of wallet 1 needs of the wallet state, with balance \<open>b\<close>.\<close>

definition cdemo_ready :: "wallet_state \<Rightarrow> i128 \<Rightarrow> bool" where
  "cdemo_ready st b \<longleftrightarrow> wa_paused st = Some False \<and> wa_lock st \<noteq> Some True \<and> wa_wallets st 1 = Some \<lparr>wd_owner = 1, wd_state = Active\<rparr> \<and>
     wa_balances st (1, 7) = Some b \<and> wa_velocity_limit st = Map.empty \<and> wa_rate_limit st = Map.empty \<and>
     wa_registry st = None \<and> wa_policy st = Some 20 \<and> wa_bypass st = Map.empty \<and> wa_budget st = Some 21 \<and>
     wa_asset_budget st = Map.empty \<and> wa_default_budget st = Some ''ops''"

lemma cdemo_wallet_ready: "cdemo_ready cdemo_wallet 100"
  by (simp add: cdemo_ready_def cdemo_wallet_def wdemo_state_def wallet_empty_def)

lemma cdemo_policies_reach: "pdemo_reach cdemo_policies"
proof -
  let ?s = "policy_empty\<lparr>po_policies := [''active'' \<mapsto> pdemo_policy], po_events := [PvRegistered ''active'']\<rparr>"
  have i: "pdemo_reach policy_empty" by (rule reach_init) simp
  have r: "register_policy (pdemo_env 0) 1 ''active'' [] 500 None None 0 None policy_empty = Ok ((), ?s)"
    by (simp add: register_policy_def require_auth_def require_non_empty_def policy_empty_def
        pdemo_policy_def po_emit_def pol_store_def default_strategy_def)
  have a: "store_allowance (pdemo_env 2) 1 ''active'' 7 60 None 0 ?s = Ok ((), cdemo_policies)"
    by (simp add: store_allowance_def require_policy_owner_def require_auth_def pol_load_def require_non_negative_amount_def
        get_allowance_def settle_window_def cdemo_policies_def cdemo_allowance_def po_emit_def policy_empty_def pdemo_policy_def)
  show ?thesis
    by (rule pdemo_step [OF pdemo_step [OF i ps_register [OF r]] ps_allowance [OF _ a]]) (simp_all add: int_limits)
qed

lemma cdemo_check:
  assumes "0 < n" "n \<le> 60" "t \<le> u64_max"
  shows "check_transfer (wdemo_env t) ''active'' 7 5 n cdemo_policies = Ok ((), cdemo_policies)"
proof -
  have wf: "allowances_wf cdemo_policies" by (rule policy_inv_allowances [OF policy_sys.reach_inv [OF cdemo_policies_reach]])
  have ts: "timestamp (wdemo_env t) \<le> u64_max" using assms(3) by simp
  show ?thesis unfolding check_transfer_iff [OF wf ts] using assms(1,2)
    by (simp add: recipient_gates_def asset_gates_def pdemo_policy_def is_within_transfer_window_def is_asset_blacklisted_def
        evaluate_composite_rule_def composite_rule_with_context_def evaluate_policy_rules_def pol_load_def
        policy_rules_with_context_def get_policy_rules_def cdemo_policies_def policy_empty_def allowance_admits_def
        cdemo_allowance_def al_settled_def)
qed

lemma cdemo_consume:
  assumes "0 < n" "0 \<le> s" "s + n \<le> 100" "bs_budgets bs ''ops'' = Some (cdemo_budget s)"
  shows "\<exists>bs'. consume (wdemo_env t) 1 ''ops'' n bs = Ok (100 - (s + n), bs') \<and> bs_budgets bs' ''ops'' = Some (cdemo_budget (s + n))"
  using assms
  by (simp add: consume_def require_positive_amount_def require_owner_def require_auth_def budget_load_def
      Budget.require_active_def require_started_def window_transition_def calculate_rollover_def window_of_def
      checked_add_def checked_sub_def safe_add_def safe_sub_def in_i128_def int_limits cdemo_budget_def)

lemma cdemo_transfer:
  assumes "cdemo_ready st b" "0 < n" "n \<le> b" "b \<le> 100" "n \<le> 60" "0 \<le> s" "s + n \<le> 100"
    and "ld_policy l = cdemo_policies" "bs_budgets (ld_budget l) ''ops'' = Some (cdemo_budget s)"
    and "ld_tokens l 7 9 = b" "0 \<le> ld_tokens l 7 5" "ld_tokens l 7 5 \<le> 100"
  shows "\<exists>st' l'. wa_transfer (ledger_tokens ledger_token) (composed_clients (wdemo_env 6) (\<lambda>_ _ _. CallInvoke)) (wdemo_env 6)
      1 1 5 7 n (st, l) = Ok ((), st', l') \<and> cdemo_ready st' (b - n) \<and> ld_policy l' = cdemo_policies \<and>
      bs_budgets (ld_budget l') ''ops'' = Some (cdemo_budget (s + n)) \<and> ld_tokens l' = moved (ld_tokens l) 7 9 5 n"
proof -
  obtain bs' where c: "consume (wdemo_env 6) 1 ''ops'' n (ld_budget l) = Ok (100 - (s + n), bs')"
    "bs_budgets bs' ''ops'' = Some (cdemo_budget (s + n))" using cdemo_consume [OF assms(2,6,7,9)] by blast
  have k: "check_transfer (wdemo_env 6) ''active'' 7 5 n (ld_policy l) = Ok ((), ld_policy l)"
    unfolding assms(8) by (rule cdemo_check [OF assms(2,5)]) (simp add: u64_max_def)
  show ?thesis using assms c k
    by (simp add: wa_transfer_def require_positive_amount_def when_not_paused_def paused_def require_wallet_role_def
        require_auth_def load_wallet_def require_role_def effective_role_def role_satisfies_def role_rank_def
        require_active_for_transfer_def validate_transfer_recipient_def zero_address_def outbound_def lock_def
        pre_execute_checks_def resolve_gates_def enforce_velocity_eq enforce_rate_limit_def require_custody_funds_def
        validate_sufficient_balance_def sac_balance_def token_balance_def ledger_token_def debit_def safe_sub_def
        safe_transfer_def validate_transfer_amount_def checked_balance_add_def in_i128_def int_limits moved_def
        cdemo_ready_def composed_clients_def policy_call_def budget_call_def require_policy_check_def get_policy_bypass_def
        budget_id_for_def consume_budget_def try_consume_def ledger_tokens_def unwrap_or_False unlock_def wa_emit_def)
qed

abbreviation cdemo_run :: "i128 \<Rightarrow> wallet_state \<times> (address \<Rightarrow> address \<Rightarrow> int) ledger
     \<Rightarrow> (unit \<times> wallet_state \<times> (address \<Rightarrow> address \<Rightarrow> int) ledger) res" where
  "cdemo_run n \<equiv> wa_transfer (ledger_tokens ledger_token) (composed_clients (wdemo_env 6) (\<lambda>_ _ _. CallInvoke)) (wdemo_env 6) 1 1 5 7 n"

definition cdemo_ledger :: "(address \<Rightarrow> address \<Rightarrow> int) ledger" where
  "cdemo_ledger = \<lparr>ld_policy = cdemo_policies, ld_budget = budget_store ''ops'' (cdemo_budget 0) budget_empty,
     ld_tokens = moved wdemo_world 7 1 9 100\<rparr>"

lemma cdemo_ledger_sel:
  "ld_policy cdemo_ledger = cdemo_policies" "bs_budgets (ld_budget cdemo_ledger) ''ops'' = Some (cdemo_budget 0)"
  "ld_tokens cdemo_ledger 7 9 = 100" "ld_tokens cdemo_ledger 7 5 = 0"
  by (simp_all add: cdemo_ledger_def budget_store_def moved_def wdemo_world_def)

section \<open>Properties\<close>

text \<open>C8. A transfer passes both gates: when the wallet is wired to a policy and a budget and no bypass is set, a
  successful transfer means that the policy \<open>active\<close> permits it under every one of its rules, that the
  budget configured for the asset has been charged with exactly the amount, that the caller owns that
  budget, and that exactly the amount moved; the policy contract itself is left unchanged.\<close>

theorem transfer_passes_both_gates:
  assumes "wa_transfer (ledger_tokens tk) (composed_clients env reg) env c wid to_a a n (st, l) = Ok ((), st', l')"
    and "token_laws tk bal" and "reach (\<lambda>s. s = policy_empty) po_next (ld_policy l)" and "timestamp env \<le> u64_max"
    and "wa_registry st = None" and "wa_policy st = Some pa" and "\<not> get_policy_bypass st wid"
    and "wa_budget st = Some ba" and "budget_id_for st a = Some i"
  shows "(\<exists>p. po_policies (ld_policy l) ''active'' = Some p \<and> recipient_gates env (ld_policy l) ''active'' p to_a \<and>
            asset_gates env (ld_policy l) ''active'' p a to_a n) \<and>
         (\<exists>b m. bs_budgets (ld_budget l) i = Some b \<and> b_owner b = c \<and>
            consume env c i n (ld_budget l) = Ok (m, ld_budget l')) \<and>
         ld_policy l' = ld_policy l \<and> bal (ld_tokens l') = moved (bal (ld_tokens l)) a (this_contract env) to_a n"
proof -
  have rg: "resolve_gates (composed_clients env reg) st l = Ok (Some pa, Some ba)"
    using assms(5,6,8) by (simp add: resolve_gates_def)
  from transfer_effect [OF assms(1)] obtain pa' ba' l1 l2
    where r: "resolve_gates (composed_clients env reg) st l = Ok (pa', ba')"
      and c1: "case pa' of Some p \<Rightarrow> if get_policy_bypass st wid then l1 = l
          else cl_check_transfer (composed_clients env reg) p ''active'' a to_a n l = CallOk l1 | None \<Rightarrow> l1 = l"
      and c2: "case ba' of Some b \<Rightarrow> (case budget_id_for st a of
            Some i \<Rightarrow> \<exists>m. cl_consume (composed_clients env reg) b c i n l1 = CallOk (m, l2) | None \<Rightarrow> l2 = l1) | None \<Rightarrow> l2 = l1"
      and t: "tk_transfer (ledger_tokens tk) l2 a (this_contract env) to_a n = TryOk l'"
    by (elim conjE exE) (rule that)
  have g: "pa' = Some pa" "ba' = Some ba" using r rg by simp_all
  have p: "policy_call env pa ''active'' a to_a n l = CallOk l1" using c1 assms(7) by (simp add: g composed_clients_def)
  obtain m where b: "budget_call env ba c i n l1 = CallOk (m, l2)" using c2 assms(9) by (auto simp: g composed_clients_def)
  note pc = policy_call_Ok [OF policy_sys.reach_inv [OF assms(3)] assms(4) p]
  obtain bs b' where bc: "l2 = l1\<lparr>ld_budget := bs\<rparr>" "consume env c i n (ld_budget l1) = Ok (m, bs)"
    "bs_budgets (ld_budget l1) i = Some b'" "b_owner b' = c" by (rule budget_call_Ok [OF b])
  obtain w where w: "tk_transfer tk (ld_tokens l2) a (this_contract env) to_a n = TryOk w" "l' = l2\<lparr>ld_tokens := w\<rparr>"
    using t by (auto simp: ledger_transfer_Ok)
  have l1: "l1 = l" using pc by blast
  have "bal (ld_tokens l') = moved (bal (ld_tokens l)) a (this_contract env) to_a n"
    using token_laws_transfer [OF assms(2) w(1)] w(2) bc(1) l1 by simp
  moreover have "ld_policy l' = ld_policy l" "ld_budget l' = bs" using w(2) bc(1) l1 by simp_all
  ultimately show ?thesis using pc bc(2-4) l1 by blast
qed

theorem transfer_passes_both_gates_witness:
  "\<exists>st' l'. cdemo_run 40 (cdemo_wallet, cdemo_ledger) = Ok ((), st', l') \<and> ld_tokens l' 7 5 = 40 \<and>
     po_policies (ld_policy cdemo_ledger) ''active'' = Some pdemo_policy \<and> ld_policy l' = ld_policy cdemo_ledger"
proof -
  obtain st' l' where x: "cdemo_run 40 (cdemo_wallet, cdemo_ledger) = Ok ((), st', l')"
    using cdemo_transfer [OF cdemo_wallet_ready, of 40 0 cdemo_ledger] by (auto simp: cdemo_ledger_sel)
  have r: "reach (\<lambda>s. s = policy_empty) po_next (ld_policy cdemo_ledger)"
    unfolding cdemo_ledger_sel by (rule cdemo_policies_reach)
  have "ld_policy l' = ld_policy cdemo_ledger \<and> ld_tokens l' = moved (ld_tokens cdemo_ledger) 7 9 5 40"
    using transfer_passes_both_gates [OF x ledger_token_laws r, of 20 21 "''ops''"]
    by (simp add: cdemo_wallet_def wdemo_state_def wallet_empty_def get_policy_bypass_def budget_id_for_def u64_max_def)
  then show ?thesis using x by (simp add: cdemo_ledger_sel moved_def cdemo_policies_def)
qed

text \<open>C33. The allowance of a policy does not limit the wallets behind it: \<open>check_transfer\<close> compares a transfer with
  the allowance and never charges it. With an allowance of 60 in total, two transfers of 50 each pass both
  gates, the recipient holds 100 and the recorded use of the allowance is still zero.\<close>

theorem allowance_never_charged:
  "\<exists>st1 l1 st2 l2. pdemo_reach (ld_policy cdemo_ledger) \<and>
     po_allowances (ld_policy cdemo_ledger) (''active'', 7) = Some cdemo_allowance \<and> al_limit cdemo_allowance = 60 \<and>
     cdemo_run 50 (cdemo_wallet, cdemo_ledger) = Ok ((), st1, l1) \<and> cdemo_run 50 (st1, l1) = Ok ((), st2, l2) \<and>
     ld_tokens l2 7 5 = 100 \<and> po_allowances (ld_policy l2) (''active'', 7) = Some cdemo_allowance \<and> al_spent cdemo_allowance = 0"
proof -
  obtain st1 l1 where a: "cdemo_run 50 (cdemo_wallet, cdemo_ledger) = Ok ((), st1, l1)" "cdemo_ready st1 50"
    "ld_policy l1 = cdemo_policies" "bs_budgets (ld_budget l1) ''ops'' = Some (cdemo_budget 50)"
    "ld_tokens l1 = moved (ld_tokens cdemo_ledger) 7 9 5 50"
    using cdemo_transfer [OF cdemo_wallet_ready, of 50 0 cdemo_ledger] by (auto simp: cdemo_ledger_sel)
  have t: "ld_tokens l1 7 9 = 50" "ld_tokens l1 7 5 = 50" using a(5) by (simp_all add: moved_def cdemo_ledger_sel)
  obtain st2 l2 where b: "cdemo_run 50 (st1, l1) = Ok ((), st2, l2)" "ld_policy l2 = cdemo_policies"
    "ld_tokens l2 = moved (ld_tokens l1) 7 9 5 50"
    using cdemo_transfer [OF a(2), of 50 50 l1] a(3,4) t by auto
  show ?thesis using a(1) b t cdemo_policies_reach
    by (intro exI [of _ st1] exI [of _ l1] exI [of _ st2] exI [of _ l2])
       (simp add: cdemo_ledger_sel moved_def cdemo_policies_def cdemo_allowance_def)
qed

end
