(* ===== verification/Treasury.thy ===== *)
theory Treasury
  imports Upgrade
begin

text \<open>
  The treasury contract \<^verbatim>\<open>contracts/treasury/src/lib.rs\<close>: custody of approved assets with one holding
  per asset, withdrawals and batches behind the pause, the freeze, the whitelist, the registry check of
  contract callers, the policy and budget contracts, allowances and the withdrawal time-lock, and milestone
  disbursements. The policy, budget and registry contracts are parameters (direct client calls trap when
  the callee fails, the registry lookup is a \<open>try_\<close> call), as are the tokens and the string form of an
  address.
\<close>

section \<open>Records and storage\<close>

definition MAX_TREASURY_ASSETS :: u32 where "MAX_TREASURY_ASSETS = 32"
definition MAX_BALANCE_ASSETS :: u32 where "MAX_BALANCE_ASSETS = MAX_TREASURY_ASSETS"

record treasury =
  tr_org :: string
  tr_admin :: address
  tr_multisig :: "address option"
  tr_policy :: "address option"
  tr_budget :: "address option"
  tr_state :: resource_state
  tr_registry :: "address option"
  tr_guardian :: address
  tr_paused :: bool
  tr_paused_at :: u64

record milestone_disbursement =
  md_total_amount :: i128
  md_milestones :: u32
  md_disbursed :: u32
  md_amount_per_milestone :: i128
  md_asset :: address
  md_to :: address

record holding =
  ho_asset :: address
  ho_total_in :: i128
  ho_total_out :: i128
  ho_budget_id :: "string option"

record asset_balance =
  ab_asset :: address
  ab_balance :: i128

record asset_position =
  ap_asset :: address
  ap_decimals :: u32
  ap_balance :: i128
  ap_recorded :: i128
  ap_total_out :: i128

record allowance_id =
  ai_agent :: address
  ai_recipient :: address
  ai_asset :: address

record allowance =
  aw_agent :: address
  aw_recipient :: address
  aw_asset :: address
  aw_limit :: i128
  aw_spent :: i128
  aw_expires_at :: u64

record withdrawal_time_lock =
  tl_delay :: u64
  tl_threshold :: i128

definition tl_disabled :: withdrawal_time_lock where
  "tl_disabled = \<lparr>tl_delay = 0, tl_threshold = 0\<rparr>"

definition tl_applies :: "withdrawal_time_lock \<Rightarrow> i128 \<Rightarrow> bool" where
  "tl_applies l amt \<longleftrightarrow> tl_delay l > 0 \<and> amt \<ge> tl_threshold l"

record pending_withdrawal =
  pw_id :: u64
  pw_requester :: address
  pw_asset :: address
  pw_to :: address
  pw_amount :: i128
  pw_payments :: "payment list"
  pw_requested_at :: u64
  pw_execute_after :: u64
  pw_expires_at :: u64
  pw_cancelled :: bool
  pw_executed :: bool

definition is_pending :: "pending_withdrawal \<Rightarrow> bool" where
  "is_pending p \<longleftrightarrow> \<not> pw_cancelled p \<and> \<not> pw_executed p"

text \<open>One constructor per published topic, with its payload.\<close>

datatype treasury_event =
    TeCreated string address
  | TeTopic symbol
  | TeConfigUpdated string symbol
  | TeAssetTopic symbol address
  | TeFrozen string
  | TeUnfrozen string
  | TeDepositedTopic address i128
  | TeDeposited string address address i128 i128
  | TeBudgetAlloc address string u64
  | TeAllowanceSet address address address i128 u64 u64
  | TeAllowanceUsed address address address i128 u64
  | TeAllowanceRemoved address address address u64
  | TeTransferTopic address address address i128
  | TeTransferExecuted address address address i128
  | TeWithdrawn string address address i128 i128
  | TeBatchExecuted address address u32 i128
  | TeBatchPay address u32 i128
  | TeTimeLock u64 i128
  | TeQueued u64 i128 u64
  | TeExecuted u64 i128
  | TeCanceled u64
  | TeMilestoneInit u64 i128 u32
  | TeMilestoneDisbursed u64 u32 i128

record treasury_state =
  ts_treasury :: "treasury option"
  ts_holdings :: "address \<Rightarrow> holding option"
  ts_approved :: "address \<Rightarrow> bool option"
  ts_approved_count :: "u32 option"
  ts_approved_list :: "address list option"
  ts_asset_balance :: "address \<Rightarrow> i128 option"
  ts_lock :: "bool option"
  ts_frozen :: "bool option"
  ts_milestones :: "u64 \<Rightarrow> milestone_disbursement option"
  ts_milestone_count :: "u64 option"
  ts_allowances :: "allowance_id \<Rightarrow> allowance option"
  ts_time_lock :: "withdrawal_time_lock option"
  ts_pending :: "u64 \<Rightarrow> pending_withdrawal option"
  ts_pending_count :: "u64 option"
  ts_events :: "treasury_event list"

definition treasury_empty :: treasury_state where
  "treasury_empty = \<lparr>ts_treasury = None, ts_holdings = Map.empty, ts_approved = Map.empty, ts_approved_count = None,
     ts_approved_list = None, ts_asset_balance = Map.empty, ts_lock = None, ts_frozen = None,
     ts_milestones = Map.empty, ts_milestone_count = None, ts_allowances = Map.empty, ts_time_lock = None,
     ts_pending = Map.empty, ts_pending_count = None, ts_events = []\<rparr>"

definition ts_emit :: "treasury_event list \<Rightarrow> treasury_state \<Rightarrow> treasury_state" where
  "ts_emit es st = st\<lparr>ts_events := ts_events st @ es\<rparr>"

text \<open>The contracts the treasury calls: a direct call that fails (\<open>None\<close>) traps the invocation.\<close>

record 'w treasury_clients =
  tc_check_transfer :: "address \<Rightarrow> string \<Rightarrow> address \<Rightarrow> address \<Rightarrow> i128 \<Rightarrow> 'w \<Rightarrow> 'w option"
  tc_consume :: "address \<Rightarrow> address \<Rightarrow> string \<Rightarrow> i128 \<Rightarrow> 'w \<Rightarrow> (i128 \<times> 'w) option"
  tc_lookup :: "address \<Rightarrow> string \<Rightarrow> module_kind \<Rightarrow> 'w \<Rightarrow> address try_result"

definition or_trap :: "'a option \<Rightarrow> 'a res" where
  "or_trap r = (case r of Some x \<Rightarrow> Ok x | None \<Rightarrow> Panic)"

text \<open>A direct \<open>TokenClient::balance\<close>.\<close>

definition direct_balance :: "'w token_api \<Rightarrow> 'w \<Rightarrow> address \<Rightarrow> address \<Rightarrow> i128 res" where
  "direct_balance tk w token who = (case tk_balance tk w token who of TryOk b \<Rightarrow> Ok b | _ \<Rightarrow> Panic)"

section \<open>Internals\<close>

definition tr_load :: "treasury_state \<Rightarrow> treasury res" where
  "tr_load st = ok_or (ts_treasury st) NotInitialized"

definition tr_store :: "treasury \<Rightarrow> treasury_state \<Rightarrow> treasury_state" where
  "tr_store t st = st\<lparr>ts_treasury := Some t\<rparr>"

definition tr_require_admin :: "env \<Rightarrow> address \<Rightarrow> treasury_state \<Rightarrow> treasury res" where
  "tr_require_admin env caller st =
     rbind (tr_load st) (\<lambda>t.
     if tr_admin t \<noteq> caller then Err Unauthorized
     else rbind (require_auth env caller) (\<lambda>_. Ok t))"

definition is_asset_approved :: "treasury_state \<Rightarrow> address \<Rightarrow> bool" where
  "is_asset_approved st a = unwrap_or (ts_approved st a) False"

definition read_token_balance :: "'w token_api \<Rightarrow> env \<Rightarrow> treasury_state \<Rightarrow> address \<Rightarrow> 'w \<Rightarrow> i128 res" where
  "read_token_balance tk env st a w =
     (if \<not> is_asset_approved st a then Err AssetNotAuthorized
      else direct_balance tk w a (this_contract env))"

definition require_approved_asset :: "treasury_state \<Rightarrow> address \<Rightarrow> unit res" where
  "require_approved_asset st a = (if \<not> is_asset_approved st a then Err AssetNotAuthorized else Ok ())"

definition transfer_out :: "'w token_api \<Rightarrow> env \<Rightarrow> address \<Rightarrow> address \<Rightarrow> i128 \<Rightarrow> 'w \<Rightarrow> 'w res" where
  "transfer_out tk env a to_a amt w =
     rbind (direct_balance tk w a (this_contract env)) (\<lambda>before.
     if before < amt then Err InsufficientFunds
     else rbind (token_transfer tk w a (this_contract env) to_a amt) (\<lambda>w1.
     rbind (direct_balance tk w1 a (this_contract env)) (\<lambda>after.
     rbind (checked_sub before after) (\<lambda>d.
     if d \<noteq> amt then Err InvalidState else Ok w1))))"

definition approved_list :: "treasury_state \<Rightarrow> address list" where
  "approved_list st = unwrap_or (ts_approved_list st) []"

definition store_approved_list :: "address list \<Rightarrow> treasury_state \<Rightarrow> treasury_state" where
  "store_approved_list l st = st\<lparr>ts_approved_list := Some l\<rparr>"

definition approved_count :: "treasury_state \<Rightarrow> u32" where
  "approved_count st = unwrap_or (ts_approved_count st) 0"

definition store_asset_balance :: "address \<Rightarrow> i128 \<Rightarrow> treasury_state \<Rightarrow> treasury_state" where
  "store_asset_balance a b st = st\<lparr>ts_asset_balance := (ts_asset_balance st)(a \<mapsto> b)\<rparr>"

definition store_approved_count :: "u32 \<Rightarrow> treasury_state \<Rightarrow> treasury_state" where
  "store_approved_count n st = st\<lparr>ts_approved_count := Some n\<rparr>"

definition emit_asset_change :: "treasury \<Rightarrow> address \<Rightarrow> symbol \<Rightarrow> treasury_state \<Rightarrow> treasury_state" where
  "emit_asset_change t a action st = ts_emit [TeAssetTopic action a, TeConfigUpdated (tr_org t) action] st"

definition require_multisig :: "env \<Rightarrow> address \<Rightarrow> treasury_state \<Rightarrow> treasury res" where
  "require_multisig env caller st =
     rbind (tr_load st) (\<lambda>t.
     case tr_multisig t of
       Some m \<Rightarrow> if m = caller then rbind (require_auth env caller) (\<lambda>_. Ok t) else Err Unauthorized
     | None \<Rightarrow> Err Unauthorized)"

definition require_guardian :: "env \<Rightarrow> address \<Rightarrow> treasury_state \<Rightarrow> treasury res" where
  "require_guardian env caller st =
     rbind (tr_load st) (\<lambda>t.
     let is_multisig = (case tr_multisig t of Some m \<Rightarrow> m = caller | None \<Rightarrow> False) in
     if tr_guardian t \<noteq> caller \<and> \<not> is_multisig then Err Unauthorized
     else rbind (require_auth env caller) (\<lambda>_. Ok t))"

definition pause_is_active :: "treasury \<Rightarrow> env \<Rightarrow> bool" where
  "pause_is_active t env \<longleftrightarrow> tr_paused t \<and> timestamp env < sat_add_u64 (tr_paused_at t) MAX_PAUSE_DURATION"

definition require_not_paused :: "env \<Rightarrow> treasury_state \<Rightarrow> unit res" where
  "require_not_paused env st =
     rbind (tr_load st) (\<lambda>t. if pause_is_active t env then Err TreasuryPaused else Ok ())"

definition tr_check_frozen :: "treasury_state \<Rightarrow> unit res" where
  "tr_check_frozen st = (if unwrap_or (ts_frozen st) False then Err InvalidState else Ok ())"

definition tr_require_active :: "treasury \<Rightarrow> unit res" where
  "tr_require_active t = (case tr_state t of Active \<Rightarrow> Ok () | _ \<Rightarrow> Err InvalidState)"

definition tr_lock :: "treasury_state \<Rightarrow> treasury_state res" where
  "tr_lock st = (if unwrap_or (ts_lock st) False then Err InvalidState else Ok (st\<lparr>ts_lock := Some True\<rparr>))"

definition tr_unlock :: "treasury_state \<Rightarrow> treasury_state" where
  "tr_unlock st = st\<lparr>ts_lock := Some False\<rparr>"

definition load_time_lock :: "treasury_state \<Rightarrow> withdrawal_time_lock" where
  "load_time_lock st = unwrap_or (ts_time_lock st) tl_disabled"

definition require_not_time_locked :: "treasury_state \<Rightarrow> i128 \<Rightarrow> unit res" where
  "require_not_time_locked st amt = (if tl_applies (load_time_lock st) amt then Err TimelockNotExpired else Ok ())"

definition require_time_lock_applies :: "treasury_state \<Rightarrow> i128 \<Rightarrow> unit res" where
  "require_time_lock_applies st amt = (if tl_applies (load_time_lock st) amt then Ok () else Err InvalidInput)"

definition open_pending ::
  "env \<Rightarrow> address \<Rightarrow> address \<Rightarrow> address \<Rightarrow> i128 \<Rightarrow> payment list \<Rightarrow> treasury_state \<Rightarrow> (u64 \<times> treasury_state) res" where
  "open_pending env requester a to_a amt payments st =
     (let config = load_time_lock st; now = timestamp env in
      rbind (safe_add_u64 now (tl_delay config)) (\<lambda>execute_after.
      rbind (safe_add_u64 execute_after GOVERNANCE_GRACE_PERIOD) (\<lambda>expires_at.
      rbind (ok_or (checked_add_word u64_max (unwrap_or (ts_pending_count st) 0) 1) Overflow) (\<lambda>i.
      let pending = \<lparr>pw_id = i, pw_requester = requester, pw_asset = a, pw_to = to_a, pw_amount = amt,
            pw_payments = payments, pw_requested_at = now, pw_execute_after = execute_after,
            pw_expires_at = expires_at, pw_cancelled = False, pw_executed = False\<rparr>;
          st1 = st\<lparr>ts_pending := (ts_pending st)(i \<mapsto> pending)\<rparr>;
          st2 = st1\<lparr>ts_pending_count := Some i\<rparr> in
      Ok (i, ts_emit [TeQueued i amt execute_after] st2)))))"

definition tr_is_contract_address :: "(address \<Rightarrow> string) \<Rightarrow> address \<Rightarrow> bool" where
  "tr_is_contract_address strkey a =
     (let s = strkey a in if length s \<noteq> 56 then False else s ! 0 = CHR ''C'')"

definition require_verified_caller ::
  "(address \<Rightarrow> string) \<Rightarrow> 'w treasury_clients \<Rightarrow> treasury \<Rightarrow> address \<Rightarrow> module_kind \<Rightarrow> 'w \<Rightarrow> unit res" where
  "require_verified_caller strkey cl t caller expected_kind w =
     (if \<not> tr_is_contract_address strkey caller then Ok ()
      else case tr_registry t of
        None \<Rightarrow> Ok ()
      | Some reg \<Rightarrow>
          let verified = (case tc_lookup cl reg (tr_org t) expected_kind w of
                            TryOk recorded \<Rightarrow> recorded = caller | _ \<Rightarrow> False) in
          if verified then Ok () else Err Unauthorized)"

definition load_holding :: "treasury_state \<Rightarrow> address \<Rightarrow> holding" where
  "load_holding st a =
     unwrap_or (ts_holdings st a) \<lparr>ho_asset = a, ho_total_in = 0, ho_total_out = 0, ho_budget_id = None\<rparr>"

definition store_holding :: "address \<Rightarrow> holding \<Rightarrow> treasury_state \<Rightarrow> treasury_state" where
  "store_holding a h st = st\<lparr>ts_holdings := (ts_holdings st)(a \<mapsto> h)\<rparr>"

section \<open>Configuration\<close>

definition tr_initialize :: "env \<Rightarrow> string \<Rightarrow> address \<Rightarrow> treasury_state \<Rightarrow> (unit \<times> treasury_state) res" where
  "tr_initialize env org admin st =
     (if ts_treasury st \<noteq> None then Err AlreadyInitialized
      else rbind (require_auth env admin) (\<lambda>_.
      rbind (require_non_empty org) (\<lambda>_.
      Ok ((), ts_emit [TeCreated org admin] (st\<lparr>ts_treasury := Some \<lparr>tr_org = org, tr_admin = admin,
            tr_multisig = None, tr_policy = None, tr_budget = None, tr_state = Active, tr_registry = None,
            tr_guardian = admin, tr_paused = False, tr_paused_at = 0\<rparr>\<rparr>)))))"

definition tr_set_registry :: "env \<Rightarrow> address \<Rightarrow> address option \<Rightarrow> treasury_state \<Rightarrow> (unit \<times> treasury_state) res" where
  "tr_set_registry env caller registry st =
     rbind (tr_require_admin env caller st) (\<lambda>t.
     Ok ((), ts_emit [TeConfigUpdated (tr_org t) ''registry'', TeTopic ''registry''] (tr_store (t\<lparr>tr_registry := registry\<rparr>) st)))"

definition tr_set_policy :: "env \<Rightarrow> address \<Rightarrow> address \<Rightarrow> treasury_state \<Rightarrow> (unit \<times> treasury_state) res" where
  "tr_set_policy env caller policy st =
     rbind (tr_require_admin env caller st) (\<lambda>t.
     Ok ((), ts_emit [TeConfigUpdated (tr_org t) ''policy'', TeTopic ''policy''] (tr_store (t\<lparr>tr_policy := Some policy\<rparr>) st)))"

definition tr_set_budget :: "env \<Rightarrow> address \<Rightarrow> address \<Rightarrow> treasury_state \<Rightarrow> (unit \<times> treasury_state) res" where
  "tr_set_budget env caller budget st =
     rbind (tr_require_admin env caller st) (\<lambda>t.
     Ok ((), ts_emit [TeConfigUpdated (tr_org t) ''budget'', TeTopic ''budget''] (tr_store (t\<lparr>tr_budget := Some budget\<rparr>) st)))"

definition add_approved_asset :: "env \<Rightarrow> address \<Rightarrow> address \<Rightarrow> treasury_state \<Rightarrow> (unit \<times> treasury_state) res" where
  "add_approved_asset env caller a st =
     rbind (tr_require_admin env caller st) (\<lambda>t.
     if unwrap_or (ts_approved st a) False then Err AlreadyExists
     else let l = approved_list st in
     if length l \<ge> MAX_TREASURY_ASSETS then Err InvalidInput
     else let st1 = store_approved_list (l @ [a]) st;
              st2 = st1\<lparr>ts_approved := (ts_approved st1)(a \<mapsto> True)\<rparr> in
     rbind (checked_add (int (approved_count st2)) 1) (\<lambda>n.
     Ok ((), emit_asset_change t a ''asset_add'' (store_approved_count (as_u32 n) st2))))"

text \<open>The list drops the first occurrence of the asset where there is one.\<close>

definition remove_approved_asset :: "env \<Rightarrow> address \<Rightarrow> address \<Rightarrow> treasury_state \<Rightarrow> (unit \<times> treasury_state) res" where
  "remove_approved_asset env caller a st =
     rbind (tr_require_admin env caller st) (\<lambda>t.
     if \<not> unwrap_or (ts_approved st a) False then Err NotFound
     else let st1 = st\<lparr>ts_approved := (ts_approved st)(a := None)\<rparr>;
              l = approved_list st1;
              st2 = (if a \<in> set l then store_approved_list (remove1 a l) st1 else st1) in
     Ok ((), emit_asset_change t a ''asset_rm'' (store_approved_count (approved_count st2 - 1) st2)))"

definition tr_set_multisig :: "env \<Rightarrow> address \<Rightarrow> address \<Rightarrow> treasury_state \<Rightarrow> (unit \<times> treasury_state) res" where
  "tr_set_multisig env caller multisig st =
     rbind (tr_require_admin env caller st) (\<lambda>t.
     Ok ((), ts_emit [TeConfigUpdated (tr_org t) ''multisig'', TeTopic ''multisig''] (tr_store (t\<lparr>tr_multisig := Some multisig\<rparr>) st)))"

definition tr_freeze :: "env \<Rightarrow> address \<Rightarrow> treasury_state \<Rightarrow> (unit \<times> treasury_state) res" where
  "tr_freeze env caller st =
     rbind (require_multisig env caller st) (\<lambda>t.
     Ok ((), ts_emit [TeFrozen (tr_org t), TeTopic ''frozen''] (st\<lparr>ts_frozen := Some True\<rparr>)))"

definition tr_unfreeze :: "env \<Rightarrow> address \<Rightarrow> treasury_state \<Rightarrow> (unit \<times> treasury_state) res" where
  "tr_unfreeze env caller st =
     rbind (require_multisig env caller st) (\<lambda>t.
     if \<not> unwrap_or (ts_frozen st) False then Err InvalidState
     else Ok ((), ts_emit [TeUnfrozen (tr_org t), TeTopic ''unfrozen''] (st\<lparr>ts_frozen := Some False\<rparr>)))"

definition tr_set_guardian :: "env \<Rightarrow> address \<Rightarrow> address \<Rightarrow> treasury_state \<Rightarrow> (unit \<times> treasury_state) res" where
  "tr_set_guardian env caller guardian st =
     rbind (tr_require_admin env caller st) (\<lambda>t.
     Ok ((), ts_emit [TeConfigUpdated (tr_org t) ''guardian'', TeTopic ''guardian''] (tr_store (t\<lparr>tr_guardian := guardian\<rparr>) st)))"

definition tr_pause :: "env \<Rightarrow> address \<Rightarrow> treasury_state \<Rightarrow> (unit \<times> treasury_state) res" where
  "tr_pause env caller st =
     rbind (require_guardian env caller st) (\<lambda>t.
     if pause_is_active t env then Err InvalidState
     else Ok ((), ts_emit [TeConfigUpdated (tr_org t) ''pause'', TeTopic ''paused'']
            (tr_store (t\<lparr>tr_paused := True, tr_paused_at := timestamp env\<rparr>) st)))"

definition tr_unpause :: "env \<Rightarrow> address \<Rightarrow> treasury_state \<Rightarrow> (unit \<times> treasury_state) res" where
  "tr_unpause env caller st =
     rbind (require_guardian env caller st) (\<lambda>t.
     if \<not> tr_paused t then Err InvalidState
     else Ok ((), ts_emit [TeConfigUpdated (tr_org t) ''unpause'', TeTopic ''unpaused'']
            (tr_store (t\<lparr>tr_paused := False, tr_paused_at := 0\<rparr>) st)))"

section \<open>Deposits, envelopes and allowances\<close>

definition tr_deposit ::
  "(address \<Rightarrow> string) \<Rightarrow> 'w token_api \<Rightarrow> 'w treasury_clients \<Rightarrow> env \<Rightarrow> address \<Rightarrow> address \<Rightarrow> i128
     \<Rightarrow> treasury_state \<times> 'w \<Rightarrow> (unit \<times> treasury_state \<times> 'w) res" where
  "tr_deposit strkey tk cl env from_a a amt = (\<lambda>(st, w).
     rbind (require_positive_amount amt) (\<lambda>_.
     rbind (require_auth env from_a) (\<lambda>_.
     rbind (tr_load st) (\<lambda>t.
     rbind (tr_require_active t) (\<lambda>_.
     rbind (require_approved_asset st a) (\<lambda>_.
     rbind (require_verified_caller strkey cl t from_a KWallet w) (\<lambda>_.
     rbind (tr_lock st) (\<lambda>st1.
     let custody = this_contract env in
     rbind (direct_balance tk w a custody) (\<lambda>before.
     rbind (token_transfer tk w a from_a custody amt) (\<lambda>w1.
     rbind (direct_balance tk w1 a custody) (\<lambda>after.
     rbind (checked_sub after before) (\<lambda>received.
     if received \<le> 0 then Err InvalidAmount
     else if received > amt then Err InvalidState
     else let h = load_holding st1 a in
     rbind (checked_add (ho_total_in h) received) (\<lambda>total_in.
     let st2 = store_holding a (h\<lparr>ho_total_in := total_in\<rparr>) st1;
         st3 = store_asset_balance a total_in st2 in
     Ok ((), tr_unlock (ts_emit [TeDepositedTopic a received, TeDeposited (tr_org t) from_a a received total_in] st3), w1))))))))))))))"

definition allocate_budget ::
  "env \<Rightarrow> address \<Rightarrow> address \<Rightarrow> string \<Rightarrow> treasury_state \<Rightarrow> (unit \<times> treasury_state) res" where
  "allocate_budget env admin a budget_id st =
     rbind (tr_require_admin env admin st) (\<lambda>t.
     rbind (require_non_empty budget_id) (\<lambda>_.
     rbind (require_approved_asset st a) (\<lambda>_.
     let h = load_holding st a in
     Ok ((), ts_emit [TeBudgetAlloc a budget_id (timestamp env), TeConfigUpdated (tr_org t) ''bgt_alloc'']
            (store_holding a (h\<lparr>ho_budget_id := Some budget_id\<rparr>) st)))))"

definition tr_set_allowance ::
  "env \<Rightarrow> address \<Rightarrow> address \<Rightarrow> address \<Rightarrow> address \<Rightarrow> i128 \<Rightarrow> u64 \<Rightarrow> treasury_state \<Rightarrow> (unit \<times> treasury_state) res" where
  "tr_set_allowance env admin agent recip a limit expires_at st =
     rbind (tr_require_admin env admin st) (\<lambda>t.
     rbind (require_positive_amount limit) (\<lambda>_.
     if agent = recip then Err InvalidInput
     else let i = \<lparr>ai_agent = agent, ai_recipient = recip, ai_asset = a\<rparr>;
              al = \<lparr>aw_agent = agent, aw_recipient = recip, aw_asset = a, aw_limit = limit, aw_spent = 0,
                    aw_expires_at = expires_at\<rparr> in
     Ok ((), ts_emit [TeAllowanceSet agent recip a limit expires_at (timestamp env)]
            (st\<lparr>ts_allowances := (ts_allowances st)(i \<mapsto> al)\<rparr>))))"

definition tr_remove_allowance ::
  "env \<Rightarrow> address \<Rightarrow> address \<Rightarrow> address \<Rightarrow> address \<Rightarrow> treasury_state \<Rightarrow> (unit \<times> treasury_state) res" where
  "tr_remove_allowance env admin agent recip a st =
     rbind (tr_require_admin env admin st) (\<lambda>t.
     let i = \<lparr>ai_agent = agent, ai_recipient = recip, ai_asset = a\<rparr> in
     if ts_allowances st i = None then Err NotFound
     else Ok ((), ts_emit [TeAllowanceRemoved agent recip a (timestamp env)]
            (st\<lparr>ts_allowances := (ts_allowances st)(i := None)\<rparr>)))"

definition tr_allowance :: "treasury_state \<Rightarrow> address \<Rightarrow> address \<Rightarrow> address \<Rightarrow> allowance res" where
  "tr_allowance st agent recip a =
     ok_or (ts_allowances st \<lparr>ai_agent = agent, ai_recipient = recip, ai_asset = a\<rparr>) NotFound"

section \<open>Withdrawals and batches\<close>

text \<open>The two optional gates of an outflow, in their order: the policy, then the budget envelope.\<close>

definition policy_gate ::
  "'w treasury_clients \<Rightarrow> treasury \<Rightarrow> address \<Rightarrow> address \<Rightarrow> i128 \<Rightarrow> 'w \<Rightarrow> 'w res" where
  "policy_gate cl t a to_a amt w =
     (case tr_policy t of
        Some p \<Rightarrow> or_trap (tc_check_transfer cl p ''active'' a to_a amt w)
      | None \<Rightarrow> Ok w)"

definition budget_gate ::
  "'w treasury_clients \<Rightarrow> treasury \<Rightarrow> holding \<Rightarrow> address \<Rightarrow> i128 \<Rightarrow> 'w \<Rightarrow> 'w res" where
  "budget_gate cl t h caller amt w =
     (case (tr_budget t, ho_budget_id h) of
        (Some b, Some i) \<Rightarrow> rbind (or_trap (tc_consume cl b caller i amt w)) (\<lambda>(_, w1). Ok w1)
      | _ \<Rightarrow> Ok w)"

text \<open>The allowance of this caller, recipient and asset, where there is one.\<close>

definition spend_allowance ::
  "env \<Rightarrow> address \<Rightarrow> address \<Rightarrow> address \<Rightarrow> i128 \<Rightarrow> treasury_state \<Rightarrow> treasury_state res" where
  "spend_allowance env caller to_a a amt st =
     (let i = \<lparr>ai_agent = caller, ai_recipient = to_a, ai_asset = a\<rparr> in
      case ts_allowances st i of
        None \<Rightarrow> Ok st
      | Some al \<Rightarrow>
          if aw_expires_at al \<noteq> 0 \<and> timestamp env \<ge> aw_expires_at al then Err AllowanceExpired
          else rbind (checked_sub (aw_limit al) (aw_spent al)) (\<lambda>remaining.
          if amt > remaining then Err AllowanceExceeded
          else rbind (checked_add (aw_spent al) amt) (\<lambda>spent.
          Ok (ts_emit [TeAllowanceUsed caller to_a a amt (timestamp env)]
                (st\<lparr>ts_allowances := (ts_allowances st)(i \<mapsto> al\<lparr>aw_spent := spent\<rparr>)\<rparr>)))))"

text \<open>The debit of the internal ledger and its mirror.\<close>

definition debit_holding :: "address \<Rightarrow> holding \<Rightarrow> i128 \<Rightarrow> treasury_state \<Rightarrow> (i128 \<times> treasury_state) res" where
  "debit_holding a h amt st =
     rbind (checked_sub (ho_total_in h) amt) (\<lambda>total_in.
     rbind (checked_add (ho_total_out h) amt) (\<lambda>total_out.
     let h' = h\<lparr>ho_total_in := total_in, ho_total_out := total_out\<rparr> in
     Ok (total_in, store_asset_balance a total_in (store_holding a h' st))))"

definition settle_withdrawal ::
  "'w token_api \<Rightarrow> 'w treasury_clients \<Rightarrow> env \<Rightarrow> treasury \<Rightarrow> address \<Rightarrow> address \<Rightarrow> address \<Rightarrow> i128
     \<Rightarrow> treasury_state \<times> 'w \<Rightarrow> (unit \<times> treasury_state \<times> 'w) res" where
  "settle_withdrawal tk cl env t caller a to_a amt = (\<lambda>(st, w).
     rbind (tr_lock st) (\<lambda>st1.
     rbind (policy_gate cl t a to_a amt w) (\<lambda>w1.
     let h = load_holding st1 a in
     rbind (budget_gate cl t h caller amt w1) (\<lambda>w2.
     rbind (spend_allowance env caller to_a a amt st1) (\<lambda>st2.
     if ho_total_in h < amt then Err InsufficientFunds
     else rbind (debit_holding a h amt st2) (\<lambda>(balance, st3).
     rbind (transfer_out tk env a to_a amt w2) (\<lambda>w3.
     Ok ((), tr_unlock (ts_emit [TeTransferTopic (tr_admin t) to_a a amt, TeTransferTopic (tr_admin t) to_a a amt,
             TeTransferExecuted (tr_admin t) to_a a amt, TeWithdrawn (tr_org t) to_a a amt balance] st3), w3))))))))"

definition tr_withdraw ::
  "(address \<Rightarrow> string) \<Rightarrow> 'w token_api \<Rightarrow> 'w treasury_clients \<Rightarrow> env \<Rightarrow> address \<Rightarrow> address \<Rightarrow> address \<Rightarrow> i128
     \<Rightarrow> treasury_state \<times> 'w \<Rightarrow> (unit \<times> treasury_state \<times> 'w) res" where
  "tr_withdraw strkey tk cl env caller a to_a amt = (\<lambda>(st, w).
     rbind (require_positive_amount amt) (\<lambda>_.
     rbind (require_not_paused env st) (\<lambda>_.
     rbind (tr_check_frozen st) (\<lambda>_.
     rbind (tr_require_admin env caller st) (\<lambda>t.
     rbind (tr_require_active t) (\<lambda>_.
     rbind (require_approved_asset st a) (\<lambda>_.
     rbind (require_verified_caller strkey cl t caller KMultisig w) (\<lambda>_.
     rbind (require_not_time_locked st amt) (\<lambda>_.
     settle_withdrawal tk cl env t caller a to_a amt (st, w))))))))))"

text \<open>The loops over the legs of a batch: the validated total, the total alone, the policy of each leg,
  and the transfers.\<close>

fun validate_legs :: "payment list \<Rightarrow> i128 \<Rightarrow> i128 res" where
  "validate_legs [] acc = Ok acc"
| "validate_legs (p # ps) acc =
     rbind (require_positive_amount (pay_amount p)) (\<lambda>_.
     rbind (checked_add acc (pay_amount p)) (validate_legs ps))"

fun total_legs :: "payment list \<Rightarrow> i128 \<Rightarrow> i128 res" where
  "total_legs [] acc = Ok acc"
| "total_legs (p # ps) acc = rbind (checked_add acc (pay_amount p)) (total_legs ps)"

fun policy_legs :: "'w treasury_clients \<Rightarrow> treasury \<Rightarrow> address \<Rightarrow> payment list \<Rightarrow> 'w \<Rightarrow> 'w res" where
  "policy_legs cl t a [] w = Ok w"
| "policy_legs cl t a (p # ps) w =
     rbind (policy_gate cl t a (recipient p) (pay_amount p) w) (policy_legs cl t a ps)"

fun transfer_legs :: "'w token_api \<Rightarrow> address \<Rightarrow> address \<Rightarrow> payment list \<Rightarrow> 'w \<Rightarrow> 'w res" where
  "transfer_legs tk custody a [] w = Ok w"
| "transfer_legs tk custody a (p # ps) w =
     rbind (token_transfer tk w a custody (recipient p) (pay_amount p)) (transfer_legs tk custody a ps)"

definition settle_batch ::
  "'w token_api \<Rightarrow> 'w treasury_clients \<Rightarrow> env \<Rightarrow> treasury \<Rightarrow> address \<Rightarrow> address \<Rightarrow> payment list
     \<Rightarrow> treasury_state \<times> 'w \<Rightarrow> (unit \<times> treasury_state \<times> 'w) res" where
  "settle_batch tk cl env t caller a payments = (\<lambda>(st, w).
     rbind (total_legs payments 0) (\<lambda>tot.
     rbind (tr_lock st) (\<lambda>st1.
     rbind (policy_legs cl t a payments w) (\<lambda>w1.
     let h = load_holding st1 a in
     rbind (budget_gate cl t h caller tot w1) (\<lambda>w2.
     rbind (debit_holding a h tot st1) (\<lambda>(_, st2).
     let custody = this_contract env in
     rbind (direct_balance tk w2 a custody) (\<lambda>before.
     if before < tot then Err InsufficientFunds
     else rbind (transfer_legs tk custody a payments w2) (\<lambda>w3.
     rbind (direct_balance tk w3 a custody) (\<lambda>after.
     rbind (checked_sub before after) (\<lambda>d.
     if d \<noteq> tot then Err InvalidState
     else Ok ((), tr_unlock (ts_emit [TeBatchExecuted (tr_admin t) a (length payments) tot,
             TeBatchPay a (length payments) tot] st2), w3)))))))))))"

definition batch_transfer ::
  "(address \<Rightarrow> string) \<Rightarrow> 'w token_api \<Rightarrow> 'w treasury_clients \<Rightarrow> env \<Rightarrow> address \<Rightarrow> address \<Rightarrow> payment list
     \<Rightarrow> treasury_state \<times> 'w \<Rightarrow> (unit \<times> treasury_state \<times> 'w) res" where
  "batch_transfer strkey tk cl env caller a payments = (\<lambda>(st, w).
     if payments = [] \<or> length payments > MAX_BATCH_PAYMENTS then Err InvalidInput
     else rbind (require_not_paused env st) (\<lambda>_.
     rbind (tr_check_frozen st) (\<lambda>_.
     rbind (tr_require_admin env caller st) (\<lambda>t.
     rbind (tr_require_active t) (\<lambda>_.
     rbind (validate_legs payments 0) (\<lambda>tot.
     let h = load_holding st a in
     if ho_total_in h < tot then Err InsufficientFunds
     else rbind (require_verified_caller strkey cl t caller KMultisig w) (\<lambda>_.
     rbind (require_not_time_locked st tot) (\<lambda>_.
     settle_batch tk cl env t caller a payments (st, w)))))))))"

section \<open>The withdrawal time-lock\<close>

definition set_withdrawal_time_lock ::
  "env \<Rightarrow> address \<Rightarrow> u64 \<Rightarrow> i128 \<Rightarrow> treasury_state \<Rightarrow> (unit \<times> treasury_state) res" where
  "set_withdrawal_time_lock env caller delay threshold st =
     rbind (tr_require_admin env caller st) (\<lambda>_.
     rbind (if delay = 0 then Ok tl_disabled
            else if \<not> (MIN_TIMELOCK_DELAY \<le> delay \<and> delay \<le> MAX_TIMELOCK_DELAY) then Err InvalidInput
            else rbind (require_positive_amount threshold) (\<lambda>_.
                 Ok \<lparr>tl_delay = delay, tl_threshold = threshold\<rparr>)) (\<lambda>config.
     Ok ((), ts_emit [TeTimeLock (tl_delay config) (tl_threshold config)] (st\<lparr>ts_time_lock := Some config\<rparr>))))"

definition withdrawal_time_lock_view :: "treasury_state \<Rightarrow> withdrawal_time_lock" where
  "withdrawal_time_lock_view st = load_time_lock st"

definition queue_withdrawal ::
  "(address \<Rightarrow> string) \<Rightarrow> 'w treasury_clients \<Rightarrow> env \<Rightarrow> address \<Rightarrow> address \<Rightarrow> address \<Rightarrow> i128
     \<Rightarrow> treasury_state \<times> 'w \<Rightarrow> (u64 \<times> treasury_state) res" where
  "queue_withdrawal strkey cl env caller a to_a amt = (\<lambda>(st, w).
     rbind (require_positive_amount amt) (\<lambda>_.
     rbind (require_not_paused env st) (\<lambda>_.
     rbind (tr_check_frozen st) (\<lambda>_.
     rbind (tr_require_admin env caller st) (\<lambda>t.
     rbind (tr_require_active t) (\<lambda>_.
     rbind (require_approved_asset st a) (\<lambda>_.
     rbind (require_verified_caller strkey cl t caller KMultisig w) (\<lambda>_.
     rbind (require_time_lock_applies st amt) (\<lambda>_.
     open_pending env caller a to_a amt [] st)))))))))"

definition queue_batch_transfer ::
  "(address \<Rightarrow> string) \<Rightarrow> 'w treasury_clients \<Rightarrow> env \<Rightarrow> address \<Rightarrow> address \<Rightarrow> payment list
     \<Rightarrow> treasury_state \<times> 'w \<Rightarrow> (u64 \<times> treasury_state) res" where
  "queue_batch_transfer strkey cl env caller a payments = (\<lambda>(st, w).
     if payments = [] \<or> length payments > MAX_BATCH_PAYMENTS then Err InvalidInput
     else rbind (require_not_paused env st) (\<lambda>_.
     rbind (tr_check_frozen st) (\<lambda>_.
     rbind (tr_require_admin env caller st) (\<lambda>t.
     rbind (tr_require_active t) (\<lambda>_.
     rbind (validate_legs payments 0) (\<lambda>tot.
     rbind (require_verified_caller strkey cl t caller KMultisig w) (\<lambda>_.
     rbind (require_time_lock_applies st tot) (\<lambda>_.
     rbind (case payments of p # _ \<Rightarrow> Ok (recipient p) | [] \<Rightarrow> Panic) (\<lambda>to_a.
     open_pending env caller a to_a tot payments st)))))))))"

definition execute_withdrawal ::
  "(address \<Rightarrow> string) \<Rightarrow> 'w token_api \<Rightarrow> 'w treasury_clients \<Rightarrow> env \<Rightarrow> address \<Rightarrow> u64
     \<Rightarrow> treasury_state \<times> 'w \<Rightarrow> (unit \<times> treasury_state \<times> 'w) res" where
  "execute_withdrawal strkey tk cl env caller i = (\<lambda>(st, w).
     rbind (require_not_paused env st) (\<lambda>_.
     rbind (tr_check_frozen st) (\<lambda>_.
     rbind (tr_require_admin env caller st) (\<lambda>t.
     rbind (tr_require_active t) (\<lambda>_.
     rbind (ok_or (ts_pending st i) NotFound) (\<lambda>p.
     if \<not> is_pending p then Err InvalidState
     else if timestamp env \<ge> pw_expires_at p then Err ProposalExpired
     else rbind (require_time_reached env (pw_execute_after p)) (\<lambda>_.
     rbind (require_approved_asset st (pw_asset p)) (\<lambda>_.
     rbind (require_verified_caller strkey cl t caller KMultisig w) (\<lambda>_.
     let st1 = st\<lparr>ts_pending := (ts_pending st)(i \<mapsto> p\<lparr>pw_executed := True\<rparr>)\<rparr> in
     rbind (if pw_payments p = []
            then settle_withdrawal tk cl env t caller (pw_asset p) (pw_to p) (pw_amount p) (st1, w)
            else settle_batch tk cl env t caller (pw_asset p) (pw_payments p) (st1, w)) (\<lambda>(_, st2, w2).
     Ok ((), ts_emit [TeExecuted i (pw_amount p)] st2, w2)))))))))))"

definition cancel_withdrawal :: "env \<Rightarrow> address \<Rightarrow> u64 \<Rightarrow> treasury_state \<Rightarrow> (unit \<times> treasury_state) res" where
  "cancel_withdrawal env caller i st =
     rbind (tr_require_admin env caller st) (\<lambda>_.
     rbind (ok_or (ts_pending st i) NotFound) (\<lambda>p.
     if \<not> is_pending p then Err InvalidState
     else Ok ((), ts_emit [TeCanceled i] (st\<lparr>ts_pending := (ts_pending st)(i \<mapsto> p\<lparr>pw_cancelled := True\<rparr>)\<rparr>))))"

definition pending_withdrawal_view :: "treasury_state \<Rightarrow> u64 \<Rightarrow> pending_withdrawal res" where
  "pending_withdrawal_view st i = ok_or (ts_pending st i) NotFound"

definition pending_withdrawal_count :: "treasury_state \<Rightarrow> u64" where
  "pending_withdrawal_count st = unwrap_or (ts_pending_count st) 0"

definition tr_guardian_view :: "treasury_state \<Rightarrow> address res" where
  "tr_guardian_view st = rbind (tr_load st) (\<lambda>t. Ok (tr_guardian t))"

definition tr_registry_view :: "treasury_state \<Rightarrow> address option" where
  "tr_registry_view st = (case tr_load st of Ok t \<Rightarrow> tr_registry t | _ \<Rightarrow> None)"

section \<open>Milestone disbursements\<close>

definition init_milestone_disbursement ::
  "env \<Rightarrow> address \<Rightarrow> address \<Rightarrow> address \<Rightarrow> i128 \<Rightarrow> u32 \<Rightarrow> treasury_state \<Rightarrow> (u64 \<times> treasury_state) res" where
  "init_milestone_disbursement env caller a to_a total_amount milestones st =
     rbind (tr_require_admin env caller st) (\<lambda>_.
     rbind (require_positive_amount total_amount) (\<lambda>_.
     rbind (require_approved_asset st a) (\<lambda>_.
     if milestones = 0 then Err InvalidInput
     else rbind (checked_div total_amount (int milestones)) (\<lambda>amount_per_milestone.
     if amount_per_milestone = 0 then Err InvalidAmount
     else rbind (ok_or (checked_add_word u64_max (unwrap_or (ts_milestone_count st) 0) 1) Overflow) (\<lambda>n.
     let d = \<lparr>md_total_amount = total_amount, md_milestones = milestones, md_disbursed = 0,
              md_amount_per_milestone = amount_per_milestone, md_asset = a, md_to = to_a\<rparr>;
         st1 = st\<lparr>ts_milestones := (ts_milestones st)(n \<mapsto> d)\<rparr>;
         st2 = st1\<lparr>ts_milestone_count := Some n\<rparr> in
     Ok (n, ts_emit [TeMilestoneInit n total_amount milestones] st2))))))"

definition release_next_milestone ::
  "(address \<Rightarrow> string) \<Rightarrow> 'w token_api \<Rightarrow> 'w treasury_clients \<Rightarrow> env \<Rightarrow> address \<Rightarrow> u64
     \<Rightarrow> treasury_state \<times> 'w \<Rightarrow> (unit \<times> treasury_state \<times> 'w) res" where
  "release_next_milestone strkey tk cl env caller i = (\<lambda>(st, w).
     rbind (require_not_paused env st) (\<lambda>_.
     rbind (tr_require_admin env caller st) (\<lambda>t.
     rbind (require_verified_caller strkey cl t caller KMultisig w) (\<lambda>_.
     rbind (tr_lock st) (\<lambda>st1.
     rbind (ok_or (ts_milestones st1 i) NotFound) (\<lambda>d.
     if md_disbursed d \<ge> md_milestones d then Err InvalidState
     else rbind (require_approved_asset st1 (md_asset d)) (\<lambda>_.
     let final = md_milestones d - 1 in
     rbind (if md_disbursed d = final
            then rbind (checked_mul (md_amount_per_milestone d) (int final)) (\<lambda>so_far.
                 checked_sub (md_total_amount d) so_far)
            else Ok (md_amount_per_milestone d)) (\<lambda>amt.
     rbind (ok_or (checked_add_word u32_max (md_disbursed d) 1) Overflow) (\<lambda>disbursed.
     let d' = d\<lparr>md_disbursed := disbursed\<rparr>;
         st2 = st1\<lparr>ts_milestones := (ts_milestones st1)(i \<mapsto> d')\<rparr>;
         h = load_holding st2 (md_asset d') in
     rbind (budget_gate cl t h caller amt w) (\<lambda>w1.
     if ho_total_in h < amt then Err InsufficientFunds
     else rbind (debit_holding (md_asset d') h amt st2) (\<lambda>(_, st3).
     rbind (transfer_out tk env (md_asset d') (md_to d') amt w1) (\<lambda>w2.
     Ok ((), tr_unlock (ts_emit [TeMilestoneDisbursed i disbursed amt] st3), w2)))))))))))))"

section \<open>Views\<close>

definition tr_get :: "treasury_state \<Rightarrow> treasury res" where
  "tr_get st = tr_load st"

definition tr_holding :: "treasury_state \<Rightarrow> address \<Rightarrow> holding" where
  "tr_holding st a = load_holding st a"

fun balance_report :: "'w token_api \<Rightarrow> env \<Rightarrow> treasury_state \<Rightarrow> 'w \<Rightarrow> address list \<Rightarrow> asset_balance list res" where
  "balance_report tk env st w [] = Ok []"
| "balance_report tk env st w (a # as) =
     rbind (read_token_balance tk env st a w) (\<lambda>b.
     rbind (balance_report tk env st w as) (\<lambda>rest. Ok (\<lparr>ab_asset = a, ab_balance = b\<rparr> # rest)))"

definition tr_balances :: "'w token_api \<Rightarrow> env \<Rightarrow> treasury_state \<Rightarrow> 'w \<Rightarrow> address list \<Rightarrow> asset_balance list res" where
  "tr_balances tk env st w assets =
     (if length assets > MAX_BALANCE_ASSETS then Err InvalidInput
      else if has_duplicate assets then Err InvalidInput
      else balance_report tk env st w assets)"

definition get_all_balances :: "'w token_api \<Rightarrow> env \<Rightarrow> treasury_state \<Rightarrow> 'w \<Rightarrow> (address \<times> i128) list res" where
  "get_all_balances tk env st w =
     rbind (balance_report tk env st w (approved_list st)) (\<lambda>l. Ok (map (\<lambda>b. (ab_asset b, ab_balance b)) l))"

definition approved_asset_count :: "treasury_state \<Rightarrow> u32" where
  "approved_asset_count st = approved_count st"

definition approved_assets :: "treasury_state \<Rightarrow> address list" where
  "approved_assets st = approved_list st"

fun portfolio_loop ::
  "'w token_api \<Rightarrow> ('w \<Rightarrow> address \<Rightarrow> u32 option) \<Rightarrow> env \<Rightarrow> treasury_state \<Rightarrow> 'w \<Rightarrow> address list \<Rightarrow> asset_position list res" where
  "portfolio_loop tk decimals env st w [] = Ok []"
| "portfolio_loop tk decimals env st w (a # as) =
     (let h = load_holding st a in
      rbind (or_trap (decimals w a)) (\<lambda>ds.
      rbind (direct_balance tk w a (this_contract env)) (\<lambda>b.
      rbind (portfolio_loop tk decimals env st w as) (\<lambda>rest.
      Ok (\<lparr>ap_asset = a, ap_decimals = ds, ap_balance = b, ap_recorded = ho_total_in h,
           ap_total_out = ho_total_out h\<rparr> # rest)))))"

definition portfolio ::
  "'w token_api \<Rightarrow> ('w \<Rightarrow> address \<Rightarrow> u32 option) \<Rightarrow> env \<Rightarrow> treasury_state \<Rightarrow> 'w \<Rightarrow> asset_position list res" where
  "portfolio tk decimals env st w = portfolio_loop tk decimals env st w (approved_list st)"

definition tr_balance :: "'w token_api \<Rightarrow> env \<Rightarrow> treasury_state \<Rightarrow> address \<Rightarrow> 'w \<Rightarrow> i128 res" where
  "tr_balance tk env st a w = read_token_balance tk env st a w"

definition is_approved_asset :: "treasury_state \<Rightarrow> address \<Rightarrow> bool" where
  "is_approved_asset st a = is_asset_approved st a"

definition tr_is_paused :: "env \<Rightarrow> treasury_state \<Rightarrow> bool" where
  "tr_is_paused env st = (case tr_load st of Ok t \<Rightarrow> pause_is_active t env | _ \<Rightarrow> False)"

end
