(* ===== verification/Treasury_Props.thy ===== *)
theory Treasury_Props
  imports Treasury
begin

text \<open>
  What the entrypoints of the treasury do: inversions of the guards, the effect of a deposit, of a payout
  and of a configuration change, and what the treasury relies on of the tokens and of the contracts it
  consults.
\<close>

section \<open>Inversions of the guards\<close>

lemma tr_guards_Ok [ok_simps]:
  "tr_load st = Ok t \<longleftrightarrow> ts_treasury st = Some t"
  "tr_require_admin env c st = Ok t \<longleftrightarrow> ts_treasury st = Some t \<and> tr_admin t = c \<and> authorized env c"
  "require_approved_asset st a = Ok u \<longleftrightarrow> is_asset_approved st a"
  "tr_check_frozen st = Ok u \<longleftrightarrow> ts_frozen st \<noteq> Some True"
  "tr_require_active t = Ok u \<longleftrightarrow> tr_state t = Active"
  "require_not_time_locked st n = Ok u \<longleftrightarrow> \<not> tl_applies (load_time_lock st) n"
  "require_time_lock_applies st n = Ok u \<longleftrightarrow> tl_applies (load_time_lock st) n"
  "or_trap r = Ok x \<longleftrightarrow> r = Some x"
  by (auto simp: tr_load_def tr_require_admin_def require_approved_asset_def tr_check_frozen_def tr_require_active_def
      require_not_time_locked_def require_time_lock_applies_def or_trap_def ok_simps unwrap_or_def
      split: option.splits resource_state.splits)

lemma tr_role_Ok [ok_simps]:
  "require_multisig env c st = Ok t \<longleftrightarrow> ts_treasury st = Some t \<and> tr_multisig t = Some c \<and> authorized env c"
  "require_guardian env c st = Ok t \<longleftrightarrow>
     ts_treasury st = Some t \<and> (tr_guardian t = c \<or> tr_multisig t = Some c) \<and> authorized env c"
  "require_not_paused env st = Ok u \<longleftrightarrow> (\<exists>t. ts_treasury st = Some t \<and> \<not> pause_is_active t env)"
  by (auto simp: require_multisig_def require_guardian_def require_not_paused_def tr_load_def Let_def ok_simps
      split: option.splits)

lemma tr_lock_Ok [ok_simps]: "tr_lock st = Ok st' \<longleftrightarrow> ts_lock st \<noteq> Some True \<and> st' = st\<lparr>ts_lock := Some True\<rparr>"
  by (auto simp: tr_lock_def unwrap_or_def split: option.splits)

lemma direct_balance_Ok [ok_simps]: "direct_balance tk w t x = Ok b \<longleftrightarrow> tk_balance tk w t x = TryOk b"
  by (auto simp: direct_balance_def split: try_result.splits)

section \<open>What the treasury relies on\<close>

text \<open>
  Of a token only that its balance can be read and that calling it does not take other assets out of the
  treasury. Nothing is assumed of the amount a transfer really moves: a token that charges fees or moves
  something else is covered.
\<close>

definition custody_laws :: "'w token_api \<Rightarrow> ('w \<Rightarrow> address \<Rightarrow> address \<Rightarrow> int) \<Rightarrow> address \<Rightarrow> bool" where
  "custody_laws tk bal self \<longleftrightarrow>
     (\<forall>w t x. tk_balance tk w t x = TryOk (bal w t x)) \<and>
     (\<forall>w t f r n w' s. tk_transfer tk w t f r n = TryOk w' \<longrightarrow> s \<noteq> t \<longrightarrow> bal w s self \<le> bal w' s self)"

lemma token_laws_custody: "token_laws tk bal \<Longrightarrow> custody_laws tk bal self"
  by (auto simp: custody_laws_def token_laws_def moved_def)

lemma custody_laws_D:
  assumes "custody_laws tk bal self"
  shows "tk_balance tk w t x = TryOk (bal w t x)"
    and "tk_transfer tk w t f r n = TryOk w' \<Longrightarrow> s \<noteq> t \<Longrightarrow> bal w s self \<le> bal w' s self"
  using assms by (auto simp: custody_laws_def)

definition treasury_clients_keep :: "'w treasury_clients \<Rightarrow> ('w \<Rightarrow> address \<Rightarrow> address \<Rightarrow> int) \<Rightarrow> address \<Rightarrow> bool" where
  "treasury_clients_keep cl bal self \<longleftrightarrow>
     (\<forall>p i a r n w w' s. tc_check_transfer cl p i a r n w = Some w' \<longrightarrow> bal w s self \<le> bal w' s self) \<and>
     (\<forall>p c i n w m w' s. tc_consume cl p c i n w = Some (m, w') \<longrightarrow> bal w s self \<le> bal w' s self)"

lemma gates_keep:
  assumes "treasury_clients_keep cl bal self"
  shows "policy_gate cl t a r n w = Ok w' \<Longrightarrow> bal w s self \<le> bal w' s self"
    and "budget_gate cl t h c n w = Ok w' \<Longrightarrow> bal w s self \<le> bal w' s self"
    and "policy_legs cl t a ps w = Ok w' \<Longrightarrow> bal w s self \<le> bal w' s self"
proof -
  show p: "policy_gate cl t a r n w = Ok w' \<Longrightarrow> bal w s self \<le> bal w' s self" for r n w w'
    using assms by (auto simp: policy_gate_def treasury_clients_keep_def ok_simps split: option.splits)
  show "budget_gate cl t h c n w = Ok w' \<Longrightarrow> bal w s self \<le> bal w' s self"
    using assms by (auto simp: budget_gate_def treasury_clients_keep_def ok_simps split: option.splits)
  show "policy_legs cl t a ps w = Ok w' \<Longrightarrow> bal w s self \<le> bal w' s self"
  proof (induction ps arbitrary: w)
    case (Cons q ps)
    then obtain w1 where "policy_gate cl t a (recipient q) (pay_amount q) w = Ok w1" "policy_legs cl t a ps w1 = Ok w'"
      by (auto simp: ok_simps)
    then show ?case using p Cons.IH by (meson order_trans)
  qed simp
qed

text \<open>What a payout takes from custody: exactly the amount of the one asset.\<close>

definition custody_out :: "('w \<Rightarrow> address \<Rightarrow> address \<Rightarrow> int) \<Rightarrow> address \<Rightarrow> address \<Rightarrow> int \<Rightarrow> 'w \<Rightarrow> 'w \<Rightarrow> bool" where
  "custody_out bal self a n w w' \<longleftrightarrow> (\<forall>s. bal w s self - (if s = a then n else 0) \<le> bal w' s self)"

lemma custody_out_mono: "(\<And>s. bal w s self \<le> bal w1 s self) \<Longrightarrow> custody_out bal self a n w1 w' \<Longrightarrow> custody_out bal self a n w w'"
  unfolding custody_out_def by (metis diff_right_mono order_trans)

lemma transfer_out_custody:
  assumes "transfer_out tk env a r n w = Ok w'" "custody_laws tk bal self" "this_contract env = self"
  shows "custody_out bal self a n w w'" and "n \<le> bal w a self" and "tk_transfer tk w a self r n = TryOk w'"
    and "bal w' a self = bal w a self - n"
  using assms custody_laws_D [OF assms(2)] by (auto simp: transfer_out_def custody_out_def ok_simps)

lemma transfer_legs_frame:
  assumes "custody_laws tk bal self"
  shows "transfer_legs tk c a ps w = Ok w' \<Longrightarrow> s \<noteq> a \<Longrightarrow> bal w s self \<le> bal w' s self"
proof (induction ps arbitrary: w)
  case (Cons p ps)
  then obtain w1 where "tk_transfer tk w a c (recipient p) (pay_amount p) = TryOk w1" "transfer_legs tk c a ps w1 = Ok w'"
    by (auto simp: ok_simps)
  then show ?case using custody_laws_D(2) [OF assms] Cons.IH Cons.prems(2) by (meson order_trans)
qed simp

section \<open>Deposits and payouts\<close>

text \<open>The internal ledger of an asset.\<close>

abbreviation total_in :: "treasury_state \<Rightarrow> address \<Rightarrow> int" where
  "total_in st a \<equiv> ho_total_in (load_holding st a)"

abbreviation total_out :: "treasury_state \<Rightarrow> address \<Rightarrow> int" where
  "total_out st a \<equiv> ho_total_out (load_holding st a)"

definition recorded :: "treasury_state \<Rightarrow> address \<Rightarrow> int" where
  "recorded st a = unwrap_or (ts_asset_balance st a) 0"

text \<open>The fields that no movement of value touches.\<close>

definition settings_kept :: "treasury_state \<Rightarrow> treasury_state \<Rightarrow> bool" where
  "settings_kept st st' \<longleftrightarrow> ts_treasury st' = ts_treasury st \<and> ts_approved st' = ts_approved st \<and>
     ts_approved_count st' = ts_approved_count st \<and> ts_approved_list st' = ts_approved_list st \<and>
     ts_frozen st' = ts_frozen st \<and> ts_milestone_count st' = ts_milestone_count st \<and>
     ts_time_lock st' = ts_time_lock st \<and> ts_pending_count st' = ts_pending_count st"

text \<open>The books after value moved: the holding of the asset and its mirror.\<close>

definition booked :: "treasury_state \<Rightarrow> treasury_state \<Rightarrow> address \<Rightarrow> int \<Rightarrow> int \<Rightarrow> bool" where
  "booked st st' a i j \<longleftrightarrow>
     ts_holdings st' = (ts_holdings st)(a \<mapsto> (load_holding st a)\<lparr>ho_total_in := i, ho_total_out := j\<rparr>) \<and>
     ts_asset_balance st' = (ts_asset_balance st)(a \<mapsto> i) \<and> ts_lock st' = Some False"

lemma ts_emit_sel [simp]:
  "ts_treasury (ts_emit es st) = ts_treasury st" "ts_holdings (ts_emit es st) = ts_holdings st"
  "ts_approved (ts_emit es st) = ts_approved st" "ts_approved_count (ts_emit es st) = ts_approved_count st"
  "ts_approved_list (ts_emit es st) = ts_approved_list st" "ts_asset_balance (ts_emit es st) = ts_asset_balance st"
  "ts_lock (ts_emit es st) = ts_lock st" "ts_frozen (ts_emit es st) = ts_frozen st"
  "ts_milestones (ts_emit es st) = ts_milestones st" "ts_milestone_count (ts_emit es st) = ts_milestone_count st"
  "ts_allowances (ts_emit es st) = ts_allowances st" "ts_time_lock (ts_emit es st) = ts_time_lock st"
  "ts_pending (ts_emit es st) = ts_pending st" "ts_pending_count (ts_emit es st) = ts_pending_count st"
  by (simp_all add: ts_emit_def)

lemma tr_unlock_sel [simp]:
  "ts_treasury (tr_unlock st) = ts_treasury st" "ts_holdings (tr_unlock st) = ts_holdings st"
  "ts_approved (tr_unlock st) = ts_approved st" "ts_approved_count (tr_unlock st) = ts_approved_count st"
  "ts_approved_list (tr_unlock st) = ts_approved_list st" "ts_asset_balance (tr_unlock st) = ts_asset_balance st"
  "ts_lock (tr_unlock st) = Some False" "ts_frozen (tr_unlock st) = ts_frozen st"
  "ts_milestones (tr_unlock st) = ts_milestones st" "ts_milestone_count (tr_unlock st) = ts_milestone_count st"
  "ts_allowances (tr_unlock st) = ts_allowances st" "ts_time_lock (tr_unlock st) = ts_time_lock st"
  "ts_pending (tr_unlock st) = ts_pending st" "ts_pending_count (tr_unlock st) = ts_pending_count st"
  by (simp_all add: tr_unlock_def)

lemma load_holding_cong: "ts_holdings st' a = ts_holdings st a \<Longrightarrow> load_holding st' a = load_holding st a"
  by (simp add: load_holding_def)

lemma load_holding_lock [simp]: "load_holding (st\<lparr>ts_lock := l\<rparr>) a = load_holding st a"
  by (simp add: load_holding_def)

lemma booked_totals:
  assumes "booked st st' a i j"
  shows "total_in st' b = (if b = a then i else total_in st b)" "total_out st' b = (if b = a then j else total_out st b)"
    "recorded st' b = (if b = a then i else recorded st b)" "ho_asset (load_holding st' b) = ho_asset (load_holding st b)"
  using assms by (simp_all add: booked_def load_holding_def recorded_def)

lemma debit_holding_Ok [ok_simps]:
  "debit_holding a h n st = Ok (b, st') \<longleftrightarrow>
     in_i128 (ho_total_in h - n) \<and> in_i128 (ho_total_out h + n) \<and> b = ho_total_in h - n \<and>
     st' = store_asset_balance a (ho_total_in h - n)
       (store_holding a (h\<lparr>ho_total_in := ho_total_in h - n, ho_total_out := ho_total_out h + n\<rparr>) st)"
  by (auto simp: debit_holding_def ok_simps Let_def)

lemma tr_deposit_effect:
  assumes "tr_deposit strkey tk cl env f a n (st, w) = Ok (u, st', w')" "custody_laws tk bal self" "this_contract env = self"
  shows "\<exists>r. 0 < r \<and> r \<le> n \<and> bal w' a self = bal w a self + r \<and> (\<forall>s. s \<noteq> a \<longrightarrow> bal w s self \<le> bal w' s self) \<and>
     booked st st' a (total_in st a + r) (total_out st a) \<and> settings_kept st st' \<and>
     ts_allowances st' = ts_allowances st \<and> ts_pending st' = ts_pending st \<and> ts_milestones st' = ts_milestones st \<and>
     authorized env f \<and> is_asset_approved st a"
proof -
  let ?r = "bal w' a self - bal w a self"
  from assms(1) obtain t st1 before w1 after received ti where "tr_load st = Ok t" "tr_lock st = Ok st1"
    "direct_balance tk w a (this_contract env) = Ok before"
    "token_transfer tk w a f (this_contract env) n = Ok w1" "direct_balance tk w1 a (this_contract env) = Ok after"
    "checked_sub after before = Ok received" "\<not> received \<le> 0" "\<not> n < received"
    "checked_add (total_in st1 a) received = Ok ti"
    "Ok ((), tr_unlock (ts_emit [TeDepositedTopic a received, TeDeposited (tr_org t) f a received ti]
      (store_asset_balance a ti (store_holding a ((load_holding st1 a)\<lparr>ho_total_in := ti\<rparr>) st1))), w1) = (Ok (u, st', w') :: _ res)"
    "authorized env f" "is_asset_approved st a"
    unfolding tr_deposit_def Let_def prod.case by (elim rbind_OkE if_OkE) (rule that, (assumption | simp add: ok_simps)+)
  then have t: "authorized env f" "is_asset_approved st a" "0 < ?r" "?r \<le> n" "tk_transfer tk w a f self n = TryOk w'"
    and st': "st' = tr_unlock (ts_emit [TeDepositedTopic a ?r, TeDeposited (tr_org t) f a ?r (total_in st a + ?r)]
      (store_asset_balance a (total_in st a + ?r) (store_holding a ((load_holding st a)\<lparr>ho_total_in := total_in st a + ?r\<rparr>)
        (st\<lparr>ts_lock := Some True\<rparr>))))"
    using assms(3) custody_laws_D(1) [OF assms(2)] by (simp_all add: ok_simps)
  have "\<forall>s. s \<noteq> a \<longrightarrow> bal w s self \<le> bal w' s self" using custody_laws_D(2) [OF assms(2) t(5)] by blast
  moreover have "booked st st' a (total_in st a + ?r) (total_out st a)"
    unfolding st' by (simp add: booked_def store_asset_balance_def store_holding_def)
  ultimately show ?thesis using t
    by (intro exI [of _ ?r]) (simp add: settings_kept_def st' store_asset_balance_def store_holding_def)
qed

text \<open>The allowance of a withdrawal, charged where there is one.\<close>

definition allowance_wf :: "treasury_state \<Rightarrow> bool" where
  "allowance_wf st \<longleftrightarrow> (\<forall>i al. ts_allowances st i = Some al \<longrightarrow> 0 \<le> aw_spent al \<and> aw_spent al \<le> aw_limit al)"

lemma allowance_wf_lock [simp]: "allowance_wf (st\<lparr>ts_lock := l\<rparr>) = allowance_wf st"
  by (simp add: allowance_wf_def)

lemma spend_allowance_Ok:
  assumes "spend_allowance env c r a n st = Ok st'"
  shows "\<exists>m es. st' = ts_emit es (st\<lparr>ts_allowances := m\<rparr>) \<and> (0 < n \<longrightarrow> allowance_wf st \<longrightarrow> allowance_wf st')"
proof (cases "ts_allowances st \<lparr>ai_agent = c, ai_recipient = r, ai_asset = a\<rparr>")
  case None
  then have "st' = st" using assms by (simp add: spend_allowance_def)
  then show ?thesis by (intro exI [of _ "ts_allowances st"] exI [of _ "[]"]) (simp add: ts_emit_def)
next
  case (Some al)
  let ?m = "(ts_allowances st)(\<lparr>ai_agent = c, ai_recipient = r, ai_asset = a\<rparr> \<mapsto> al\<lparr>aw_spent := aw_spent al + n\<rparr>)"
  have st': "st' = ts_emit [TeAllowanceUsed c r a n (timestamp env)] (st\<lparr>ts_allowances := ?m\<rparr>)"
    and n: "n \<le> aw_limit al - aw_spent al"
    using assms Some by (auto simp: spend_allowance_def ok_simps Let_def)
  have "allowance_wf st'" if "0 < n" "allowance_wf st"
    using that Some n by (auto simp: allowance_wf_def st')
  then show ?thesis using st' by blast
qed

text \<open>A payout of \<open>n\<close> units of asset \<open>a\<close>: the gates let it pass, the books are debited, exactly that
  amount leaves custody.\<close>

definition paid :: "('w \<Rightarrow> address \<Rightarrow> address \<Rightarrow> int) \<Rightarrow> address \<Rightarrow> address \<Rightarrow> int \<Rightarrow> treasury_state \<times> 'w \<Rightarrow> treasury_state \<times> 'w \<Rightarrow> bool" where
  "paid bal self a n s s' \<longleftrightarrow>
     booked (fst s) (fst s') a (total_in (fst s) a - n) (total_out (fst s) a + n) \<and>
     settings_kept (fst s) (fst s') \<and> custody_out bal self a n (snd s) (snd s') \<and>
     (0 < n \<longrightarrow> allowance_wf (fst s) \<longrightarrow> allowance_wf (fst s'))"

lemma settle_withdrawal_parts:
  assumes "settle_withdrawal tk cl env t c a r n (st, w) = Ok (u, st', w')"
  obtains w1 w2 m es where "policy_gate cl t a r n w = Ok w1" "budget_gate cl t (load_holding st a) c n w1 = Ok w2"
    "transfer_out tk env a r n w2 = Ok w'" "n \<le> total_in st a" "0 < n \<longrightarrow> allowance_wf st \<longrightarrow> allowance_wf st'"
    "st' = tr_unlock (ts_emit es (store_asset_balance a (total_in st a - n) (store_holding a
       ((load_holding st a)\<lparr>ho_total_in := total_in st a - n, ho_total_out := total_out st a + n\<rparr>)
       (st\<lparr>ts_lock := Some True, ts_allowances := m\<rparr>))))"
proof -
  from assms obtain st1 w1 w2 st2 b st3 w3 where "tr_lock st = Ok st1" and g: "policy_gate cl t a r n w = Ok w1"
    and "budget_gate cl t (load_holding st1 a) c n w1 = Ok w2" "spend_allowance env c r a n st1 = Ok st2"
    "\<not> total_in st1 a < n" "debit_holding a (load_holding st1 a) n st2 = Ok (b, st3)" "transfer_out tk env a r n w2 = Ok w3"
    "Ok ((), tr_unlock (ts_emit [TeTransferTopic (tr_admin t) r a n, TeTransferTopic (tr_admin t) r a n,
       TeTransferExecuted (tr_admin t) r a n, TeWithdrawn (tr_org t) r a n b] st3), w3) = (Ok (u, st', w') :: _ res)"
    unfolding settle_withdrawal_def Let_def prod.case
    by (elim rbind_OkE if_OkE case_prod_OkE) (rule that, (assumption | simp add: ok_simps)+)
  note parts = this
  let ?es = "[TeTransferTopic (tr_admin t) r a n, TeTransferTopic (tr_admin t) r a n,
       TeTransferExecuted (tr_admin t) r a n, TeWithdrawn (tr_org t) r a n (total_in st a - n)]"
  have st1: "st1 = st\<lparr>ts_lock := Some True\<rparr>" and w3: "w3 = w'" using parts(1,8) by (simp_all add: ok_simps)
  have sp: "spend_allowance env c r a n (st\<lparr>ts_lock := Some True\<rparr>) = Ok st2" and le: "n \<le> total_in st a"
    and gb: "budget_gate cl t (load_holding st a) c n w1 = Ok w2" "transfer_out tk env a r n w2 = Ok w'"
    using parts(3-5,7) by (simp_all add: st1 w3)
  have st': "st' = tr_unlock (ts_emit ?es (store_asset_balance a (total_in st a - n) (store_holding a
       ((load_holding st a)\<lparr>ho_total_in := total_in st a - n, ho_total_out := total_out st a + n\<rparr>) st2)))"
    using parts(6,8) by (simp add: debit_holding_Ok st1)
  from spend_allowance_Ok [OF sp] obtain m es2 where m: "st2 = ts_emit es2 (st\<lparr>ts_lock := Some True, ts_allowances := m\<rparr>)"
    "0 < n \<longrightarrow> allowance_wf st \<longrightarrow> allowance_wf st2" unfolding allowance_wf_lock by blast
  have "ts_emit ?es (store_asset_balance a x (store_holding a y (ts_emit es2 z))) =
      ts_emit (es2 @ ?es) (store_asset_balance a x (store_holding a y z))" for x y z
    by (simp add: ts_emit_def store_asset_balance_def store_holding_def)
  then have "st' = tr_unlock (ts_emit (es2 @ ?es) (store_asset_balance a (total_in st a - n) (store_holding a
       ((load_holding st a)\<lparr>ho_total_in := total_in st a - n, ho_total_out := total_out st a + n\<rparr>)
       (st\<lparr>ts_lock := Some True, ts_allowances := m\<rparr>))))" using st' m(1) by simp
  moreover have "allowance_wf st'" if "allowance_wf st2"
    using that st' by (simp add: allowance_wf_def store_asset_balance_def store_holding_def)
  ultimately show ?thesis using that [OF g gb le] m(2) by blast
qed

lemma settle_withdrawal_paid:
  assumes "settle_withdrawal tk cl env t c a r n (st, w) = Ok (u, st', w')"
    and "custody_laws tk bal self" "treasury_clients_keep cl bal self" "this_contract env = self"
  shows "paid bal self a n (st, w) (st', w')" and "ts_pending st' = ts_pending st" and "ts_milestones st' = ts_milestones st"
proof -
  obtain w1 w2 m es where g: "policy_gate cl t a r n w = Ok w1" "budget_gate cl t (load_holding st a) c n w1 = Ok w2"
    "transfer_out tk env a r n w2 = Ok w'" "n \<le> total_in st a" "0 < n \<longrightarrow> allowance_wf st \<longrightarrow> allowance_wf st'"
    and st': "st' = tr_unlock (ts_emit es (store_asset_balance a (total_in st a - n) (store_holding a
       ((load_holding st a)\<lparr>ho_total_in := total_in st a - n, ho_total_out := total_out st a + n\<rparr>)
       (st\<lparr>ts_lock := Some True, ts_allowances := m\<rparr>))))"
    by (rule settle_withdrawal_parts [OF assms(1)])
  have "bal w s self \<le> bal w2 s self" for s
    using gates_keep(1) [OF assms(3) g(1), of s] gates_keep(2) [OF assms(3) g(2), of s] by linarith
  moreover have "custody_out bal self a n w2 w'" by (rule transfer_out_custody(1) [OF g(3) assms(2,4)])
  ultimately have "custody_out bal self a n w w'" by (rule custody_out_mono)
  moreover have "booked st st' a (total_in st a - n) (total_out st a + n)" "settings_kept st st'"
    by (simp_all add: st' booked_def settings_kept_def store_asset_balance_def store_holding_def)
  ultimately show "paid bal self a n (st, w) (st', w')" using g(5) by (simp add: paid_def)
  show "ts_pending st' = ts_pending st" "ts_milestones st' = ts_milestones st"
    by (simp_all add: st' store_asset_balance_def store_holding_def)
qed

lemma validate_legs_Ok: "validate_legs ps acc = Ok n \<Longrightarrow> total_legs ps acc = Ok n \<and> n = acc + (\<Sum>p\<leftarrow>ps. pay_amount p) \<and> (\<forall>p\<in>set ps. 0 < pay_amount p)"
  by (induction ps arbitrary: acc) (fastforce simp: ok_simps)+

lemma total_legs_Ok: "total_legs ps acc = Ok n \<Longrightarrow> n = acc + (\<Sum>p\<leftarrow>ps. pay_amount p)"
  by (induction ps arbitrary: acc) (fastforce simp: ok_simps)+

lemma settle_batch_parts:
  assumes "settle_batch tk cl env t c a ps (st, w) = Ok (u, st', w')"
  obtains w1 w2 n es b where "total_legs ps 0 = Ok n" "policy_legs cl t a ps w = Ok w1"
    "budget_gate cl t (load_holding st a) c n w1 = Ok w2" "transfer_legs tk (this_contract env) a ps w2 = Ok w'"
    "tk_balance tk w2 a (this_contract env) = TryOk b" "tk_balance tk w' a (this_contract env) = TryOk (b - n)" "n \<le> b"
    "in_i128 (total_in st a - n)"
    "st' = tr_unlock (ts_emit es (store_asset_balance a (total_in st a - n) (store_holding a
       ((load_holding st a)\<lparr>ho_total_in := total_in st a - n, ho_total_out := total_out st a + n\<rparr>)
       (st\<lparr>ts_lock := Some True\<rparr>))))"
proof -
  from assms obtain n st1 w1 w2 x st2 b w3 b' d where parts: "total_legs ps 0 = Ok n" "tr_lock st = Ok st1"
    "policy_legs cl t a ps w = Ok w1" "budget_gate cl t (load_holding st1 a) c n w1 = Ok w2"
    "debit_holding a (load_holding st1 a) n st1 = Ok (x, st2)" "direct_balance tk w2 a (this_contract env) = Ok b" "\<not> b < n"
    "transfer_legs tk (this_contract env) a ps w2 = Ok w3" "direct_balance tk w3 a (this_contract env) = Ok b'"
    "checked_sub b b' = Ok d" "\<not> d \<noteq> n"
    "Ok ((), tr_unlock (ts_emit [TeBatchExecuted (tr_admin t) a (length ps) n, TeBatchPay a (length ps) n] st2), w3) =
      (Ok (u, st', w') :: _ res)"
    unfolding settle_batch_def Let_def prod.case
    by (elim rbind_OkE if_OkE case_prod_OkE) (rule that, (assumption | simp add: ok_simps)+)
  have st1: "st1 = st\<lparr>ts_lock := Some True\<rparr>" and w3: "w3 = w'" using parts(2,12) by (simp_all add: ok_simps)
  have b: "tk_balance tk w2 a (this_contract env) = TryOk b" "tk_balance tk w' a (this_contract env) = TryOk (b - n)"
    using parts(6,9-11) by (auto simp: ok_simps w3)
  have st': "st' = tr_unlock (ts_emit [TeBatchExecuted (tr_admin t) a (length ps) n, TeBatchPay a (length ps) n]
      (store_asset_balance a (total_in st a - n) (store_holding a
       ((load_holding st a)\<lparr>ho_total_in := total_in st a - n, ho_total_out := total_out st a + n\<rparr>) (st\<lparr>ts_lock := Some True\<rparr>))))"
    and r: "in_i128 (total_in st a - n)"
    using parts(5,12) by (simp_all add: debit_holding_Ok st1)
  show ?thesis by (rule that [OF parts(1,3) _ _ b _ r st']) (use parts(4,7,8) in \<open>simp_all add: st1 w3\<close>)
qed

lemma settle_batch_paid:
  assumes "settle_batch tk cl env t c a ps (st, w) = Ok (u, st', w')"
    and "custody_laws tk bal self" "treasury_clients_keep cl bal self" "this_contract env = self"
  shows "paid bal self a (\<Sum>p\<leftarrow>ps. pay_amount p) (st, w) (st', w')" and "ts_pending st' = ts_pending st"
    and "ts_milestones st' = ts_milestones st" and "ts_allowances st' = ts_allowances st"
proof -
  let ?n = "\<Sum>p\<leftarrow>ps. pay_amount p"
  obtain w1 w2 m es b where g: "total_legs ps 0 = Ok m" "policy_legs cl t a ps w = Ok w1"
    "budget_gate cl t (load_holding st a) c m w1 = Ok w2" "transfer_legs tk (this_contract env) a ps w2 = Ok w'"
    "tk_balance tk w2 a (this_contract env) = TryOk b" "tk_balance tk w' a (this_contract env) = TryOk (b - m)" "m \<le> b"
    and st': "st' = tr_unlock (ts_emit es (store_asset_balance a (total_in st a - m) (store_holding a
       ((load_holding st a)\<lparr>ho_total_in := total_in st a - m, ho_total_out := total_out st a + m\<rparr>)
       (st\<lparr>ts_lock := Some True\<rparr>))))"
    by (rule settle_batch_parts [OF assms(1)])
  have m: "m = ?n" using total_legs_Ok [OF g(1)] by simp
  have "bal w s self \<le> bal w2 s self" for s
    using gates_keep(3) [OF assms(3) g(2), of s] gates_keep(2) [OF assms(3) g(3), of s] by linarith
  moreover have "bal w' a self = bal w2 a self - ?n" using g(5,6) custody_laws_D(1) [OF assms(2)] assms(4) m by simp
  moreover have "s \<noteq> a \<Longrightarrow> bal w2 s self \<le> bal w' s self" for s by (rule transfer_legs_frame [OF assms(2) g(4)])
  ultimately have "custody_out bal self a ?n w w'"
    by (intro custody_out_mono [of bal w self w2]) (auto simp: custody_out_def)
  moreover have "booked st st' a (total_in st a - ?n) (total_out st a + ?n)" "settings_kept st st'"
    by (simp_all add: st' m booked_def settings_kept_def store_asset_balance_def store_holding_def)
  moreover have al: "ts_allowances st' = ts_allowances st" by (simp add: st' store_asset_balance_def store_holding_def)
  ultimately show "paid bal self a ?n (st, w) (st', w')" by (simp add: paid_def allowance_wf_def)
  show "ts_pending st' = ts_pending st" "ts_milestones st' = ts_milestones st"
    by (simp_all add: st' store_asset_balance_def store_holding_def)
  show "ts_allowances st' = ts_allowances st" by (rule al)
qed

end
