(* ===== verification/Treasury_Runs.thy ===== *)
theory Treasury_Runs
  imports Treasury_Props
begin

text \<open>
  The treasury over whole runs: the effect of each entrypoint that moves value, the step relation over all
  entrypoints and the outside world, the well-formedness of the storage, and the custody invariant.
\<close>

section \<open>Entrypoints that move value\<close>

lemma tr_withdraw_parts:
  assumes "tr_withdraw strkey tk cl env c a r n (st, w) = Ok (u, st', w')"
  obtains t where "ts_treasury st = Some t" "tr_admin t = c" "authorized env c" "tr_state t = Active"
    "\<not> pause_is_active t env" "ts_frozen st \<noteq> Some True" "is_asset_approved st a" "0 < n"
    "require_verified_caller strkey cl t c KMultisig w = Ok ()" "\<not> tl_applies (load_time_lock st) n"
    "settle_withdrawal tk cl env t c a r n (st, w) = Ok ((), st', w')"
  using assms by (auto simp: tr_withdraw_def ok_simps)

lemma batch_transfer_parts:
  assumes "batch_transfer strkey tk cl env c a ps (st, w) = Ok (u, st', w')"
  obtains t n where "ts_treasury st = Some t" "tr_admin t = c" "authorized env c" "tr_state t = Active"
    "\<not> pause_is_active t env" "ts_frozen st \<noteq> Some True" "ps \<noteq> []" "length ps \<le> MAX_BATCH_PAYMENTS"
    "validate_legs ps 0 = Ok n" "n \<le> total_in st a"
    "require_verified_caller strkey cl t c KMultisig w = Ok ()" "\<not> tl_applies (load_time_lock st) n"
    "settle_batch tk cl env t c a ps (st, w) = Ok ((), st', w')"
  using assms by (auto simp: batch_transfer_def ok_simps Let_def)

text \<open>What a request pays: its legs where it has some, else its amount.\<close>

definition pw_value :: "pending_withdrawal \<Rightarrow> int" where
  "pw_value p = (if pw_payments p = [] then pw_amount p else (\<Sum>q\<leftarrow>pw_payments p. pay_amount q))"

lemma execute_withdrawal_parts:
  assumes "execute_withdrawal strkey tk cl env c i (st, w) = Ok (u, st', w')"
  obtains t p st2 where "ts_treasury st = Some t" "tr_admin t = c" "authorized env c" "\<not> pause_is_active t env"
    "ts_frozen st \<noteq> Some True" "ts_pending st i = Some p" "is_pending p" "timestamp env < pw_expires_at p"
    "pw_execute_after p \<le> timestamp env" "is_asset_approved st (pw_asset p)"
    "(if pw_payments p = [] then settle_withdrawal tk cl env t c (pw_asset p) (pw_to p) (pw_amount p)
        (st\<lparr>ts_pending := (ts_pending st)(i \<mapsto> p\<lparr>pw_executed := True\<rparr>)\<rparr>, w)
      else settle_batch tk cl env t c (pw_asset p) (pw_payments p)
        (st\<lparr>ts_pending := (ts_pending st)(i \<mapsto> p\<lparr>pw_executed := True\<rparr>)\<rparr>, w)) = Ok ((), st2, w')"
    "st' = ts_emit [TeExecuted i (pw_amount p)] st2"
proof -
  from assms obtain t p st2 w2 where parts: "require_not_paused env st = Ok ()" "tr_check_frozen st = Ok ()"
    "tr_require_admin env c st = Ok t" "ts_pending st i = Some p" "is_pending p" "\<not> pw_expires_at p \<le> timestamp env"
    "pw_execute_after p \<le> timestamp env" "is_asset_approved st (pw_asset p)"
    "(if pw_payments p = [] then settle_withdrawal tk cl env t c (pw_asset p) (pw_to p) (pw_amount p)
        (st\<lparr>ts_pending := (ts_pending st)(i \<mapsto> p\<lparr>pw_executed := True\<rparr>)\<rparr>, w)
      else settle_batch tk cl env t c (pw_asset p) (pw_payments p)
        (st\<lparr>ts_pending := (ts_pending st)(i \<mapsto> p\<lparr>pw_executed := True\<rparr>)\<rparr>, w)) = Ok ((), st2, w2)"
    "st' = ts_emit [TeExecuted i (pw_amount p)] st2" "w2 = w'"
    by (auto simp: execute_withdrawal_def rbind_eq_Ok if_Err_eq_Ok ok_or_eq_Ok guards_Ok tr_guards_Ok(3) Let_def
        simp del: fun_upd_apply split del: if_split)
  then show ?thesis using that [of t p st2] by (auto simp: ok_simps split del: if_split)
qed

lemma booked_emit [simp]: "booked st (ts_emit es st') a i j = booked st st' a i j"
  by (simp add: booked_def)

lemma settings_kept_emit [simp]: "settings_kept st (ts_emit es st') = settings_kept st st'"
  by (simp add: settings_kept_def)

lemma allowance_wf_emit [simp]: "allowance_wf (ts_emit es st) = allowance_wf st"
  by (simp add: allowance_wf_def)

lemma load_holding_pending: "load_holding (st\<lparr>ts_pending := m\<rparr>) a = load_holding st a"
  by (simp add: load_holding_def)

lemma pending_frame:
  "booked (st\<lparr>ts_pending := m\<rparr>) st' a i j = booked st st' a i j"
  "settings_kept (st\<lparr>ts_pending := m\<rparr>) st' = settings_kept st st'"
  "allowance_wf (st\<lparr>ts_pending := m\<rparr>) = allowance_wf st"
  by (simp_all add: booked_def settings_kept_def allowance_wf_def load_holding_pending)

lemma paid_frame:
  "paid bal self a n (st\<lparr>ts_pending := m\<rparr>, w) (st', w') \<Longrightarrow> paid bal self a n (st, w) (ts_emit es st', w')"
  unfolding paid_def fst_conv snd_conv booked_emit settings_kept_emit allowance_wf_emit
    pending_frame load_holding_pending by assumption

lemma execute_withdrawal_paid:
  assumes "execute_withdrawal strkey tk cl env c i (st, w) = Ok (u, st', w')"
    and "custody_laws tk bal self" "treasury_clients_keep cl bal self" "this_contract env = self"
    and "ts_pending st i = Some p"
  shows "paid bal self (pw_asset p) (pw_value p) (st, w) (st', w')"
    and "ts_pending st' = (ts_pending st)(i \<mapsto> p\<lparr>pw_executed := True\<rparr>)" and "ts_milestones st' = ts_milestones st"
proof -
  let ?s = "st\<lparr>ts_pending := (ts_pending st)(i \<mapsto> p\<lparr>pw_executed := True\<rparr>)\<rparr>"
  obtain t q st2 where q: "ts_pending st i = Some q" and s: "(if pw_payments q = [] then settle_withdrawal tk cl env t c (pw_asset q) (pw_to q) (pw_amount q)
        (st\<lparr>ts_pending := (ts_pending st)(i \<mapsto> q\<lparr>pw_executed := True\<rparr>)\<rparr>, w)
      else settle_batch tk cl env t c (pw_asset q) (pw_payments q)
        (st\<lparr>ts_pending := (ts_pending st)(i \<mapsto> q\<lparr>pw_executed := True\<rparr>)\<rparr>, w)) = Ok ((), st2, w')"
    and st': "st' = ts_emit [TeExecuted i (pw_amount q)] st2"
    by (rule execute_withdrawal_parts [OF assms(1)])
  have "q = p" using q assms(5) by simp
  note s = s [unfolded this] and st' = st' [unfolded this]
  have *: "paid bal self (pw_asset p) (pw_value p) (?s, w) (st2, w') \<and> ts_pending st2 = ts_pending ?s \<and> ts_milestones st2 = ts_milestones ?s"
  proof (cases "pw_payments p = []")
    case True
    with s have "settle_withdrawal tk cl env t c (pw_asset p) (pw_to p) (pw_amount p) (?s, w) = Ok ((), st2, w')" by simp
    from settle_withdrawal_paid [OF this assms(2-4)] show ?thesis using True by (simp add: pw_value_def)
  next
    case False
    with s have "settle_batch tk cl env t c (pw_asset p) (pw_payments p) (?s, w) = Ok ((), st2, w')" by simp
    from settle_batch_paid [OF this assms(2-4)] show ?thesis using False by (simp add: pw_value_def)
  qed
  show "paid bal self (pw_asset p) (pw_value p) (st, w) (st', w')" unfolding st' by (rule paid_frame) (use * in blast)
  show "ts_pending st' = (ts_pending st)(i \<mapsto> p\<lparr>pw_executed := True\<rparr>)" "ts_milestones st' = ts_milestones st"
    using * by (simp_all add: st')
qed

text \<open>The next payout of a milestone schedule: the last one absorbs the rounding remainder.\<close>

definition md_payout :: "milestone_disbursement \<Rightarrow> int" where
  "md_payout d = (if md_disbursed d = md_milestones d - 1
     then md_total_amount d - md_amount_per_milestone d * int (md_milestones d - 1) else md_amount_per_milestone d)"

lemma release_milestone_parts:
  assumes "release_next_milestone strkey tk cl env c i (st, w) = Ok (u, st', w')"
  obtains t d w1 es where "ts_treasury st = Some t" "tr_admin t = c" "authorized env c" "\<not> pause_is_active t env"
    "ts_milestones st i = Some d" "md_disbursed d < md_milestones d" "is_asset_approved st (md_asset d)"
    "budget_gate cl t (load_holding st (md_asset d)) c (md_payout d) w = Ok w1" "md_payout d \<le> total_in st (md_asset d)"
    "transfer_out tk env (md_asset d) (md_to d) (md_payout d) w1 = Ok w'"
    "st' = tr_unlock (ts_emit es (store_asset_balance (md_asset d) (total_in st (md_asset d) - md_payout d)
       (store_holding (md_asset d) ((load_holding st (md_asset d))\<lparr>ho_total_in := total_in st (md_asset d) - md_payout d,
          ho_total_out := total_out st (md_asset d) + md_payout d\<rparr>)
       (st\<lparr>ts_lock := Some True, ts_milestones := (ts_milestones st)(i \<mapsto> d\<lparr>md_disbursed := md_disbursed d + 1\<rparr>)\<rparr>))))"
proof -
  from assms obtain t st1 d n k w1 b st3 w2 where parts: "tr_require_admin env c st = Ok t" "tr_lock st = Ok st1"
    "ok_or (ts_milestones st1 i) NotFound = Ok d" "\<not> md_milestones d \<le> md_disbursed d"
    "(if md_disbursed d = md_milestones d - 1
      then rbind (checked_mul (md_amount_per_milestone d) (int (md_milestones d - 1))) (\<lambda>so_far. checked_sub (md_total_amount d) so_far)
      else Ok (md_amount_per_milestone d)) = Ok n"
    "ok_or (checked_add_word u32_max (md_disbursed d) 1) Overflow = Ok k"
    "budget_gate cl t (load_holding (st1\<lparr>ts_milestones := (ts_milestones st1)(i \<mapsto> d\<lparr>md_disbursed := k\<rparr>)\<rparr>) (md_asset (d\<lparr>md_disbursed := k\<rparr>))) c n w = Ok w1"
    "\<not> ho_total_in (load_holding (st1\<lparr>ts_milestones := (ts_milestones st1)(i \<mapsto> d\<lparr>md_disbursed := k\<rparr>)\<rparr>) (md_asset (d\<lparr>md_disbursed := k\<rparr>))) < n"
    "debit_holding (md_asset (d\<lparr>md_disbursed := k\<rparr>))
      (load_holding (st1\<lparr>ts_milestones := (ts_milestones st1)(i \<mapsto> d\<lparr>md_disbursed := k\<rparr>)\<rparr>) (md_asset (d\<lparr>md_disbursed := k\<rparr>))) n
      (st1\<lparr>ts_milestones := (ts_milestones st1)(i \<mapsto> d\<lparr>md_disbursed := k\<rparr>)\<rparr>) = Ok (b, st3)"
    "transfer_out tk env (md_asset (d\<lparr>md_disbursed := k\<rparr>)) (md_to (d\<lparr>md_disbursed := k\<rparr>)) n w1 = Ok w2"
    "Ok ((), tr_unlock (ts_emit [TeMilestoneDisbursed i k n] st3), w2) = (Ok (u, st', w') :: _ res)"
    "require_not_paused env st = Ok ()" "require_approved_asset st1 (md_asset d) = Ok ()"
    unfolding release_next_milestone_def Let_def prod.case
    by (elim rbind_OkE if_OkE case_prod_OkE) (rule that, (assumption | simp add: ok_simps)+)
  have st1: "st1 = st\<lparr>ts_lock := Some True\<rparr>" and d: "ts_milestones st i = Some d" using parts(2,3) by (auto simp: ok_simps)
  have n: "n = md_payout d" and k: "k = md_disbursed d + 1"
    using parts(5,6) by (auto simp: md_payout_def ok_simps split: if_splits)
  have h: "load_holding (st1\<lparr>ts_milestones := m\<rparr>) a = load_holding st a" for m a by (simp add: load_holding_def st1)
  have ms: "ts_milestones st1 = ts_milestones st" by (simp add: st1)
  have md: "md_asset (d\<lparr>md_disbursed := k\<rparr>) = md_asset d" "md_to (d\<lparr>md_disbursed := k\<rparr>) = md_to d" by simp_all
  note facts = parts(7-11) [unfolded h ms md n]
  have w2: "w2 = w'" and st': "st' = tr_unlock (ts_emit [TeMilestoneDisbursed i k (md_payout d)] st3)" using facts(5) by simp_all
  have st3: "st3 = store_asset_balance (md_asset d) (total_in st (md_asset d) - md_payout d)
       (store_holding (md_asset d) ((load_holding st (md_asset d))\<lparr>ho_total_in := total_in st (md_asset d) - md_payout d,
          ho_total_out := total_out st (md_asset d) + md_payout d\<rparr>)
       (st1\<lparr>ts_milestones := (ts_milestones st)(i \<mapsto> d\<lparr>md_disbursed := k\<rparr>)\<rparr>))"
    using facts(3) unfolding debit_holding_Ok by blast
  have ap: "is_asset_approved st (md_asset d)" using parts(13) by (simp add: ok_simps st1 is_asset_approved_def)
  have t: "ts_treasury st = Some t" "tr_admin t = c" "authorized env c" "\<not> pause_is_active t env"
    using parts(1,12) by (auto simp: ok_simps)
  show ?thesis
    by (rule that [OF t d _ ap facts(1) _ _ st' [unfolded st3 st1 k]]) (use parts(4) facts(2,4) w2 in simp_all)
qed

lemma release_milestone_paid:
  assumes "release_next_milestone strkey tk cl env c i (st, w) = Ok (u, st', w')"
    and "custody_laws tk bal self" "treasury_clients_keep cl bal self" "this_contract env = self"
    and "ts_milestones st i = Some d"
  shows "paid bal self (md_asset d) (md_payout d) (st, w) (st', w')" and "ts_pending st' = ts_pending st"
    and "ts_milestones st' = (ts_milestones st)(i \<mapsto> d\<lparr>md_disbursed := md_disbursed d + 1\<rparr>)"
    and "md_disbursed d < md_milestones d"
proof -
  let ?a = "md_asset d" and ?n = "md_payout d"
  obtain t d' w1 es where d': "ts_milestones st i = Some d'" and g': "md_disbursed d' < md_milestones d'"
    "budget_gate cl t (load_holding st (md_asset d')) c (md_payout d') w = Ok w1"
    "transfer_out tk env (md_asset d') (md_to d') (md_payout d') w1 = Ok w'"
    and s: "st' = tr_unlock (ts_emit es (store_asset_balance (md_asset d') (total_in st (md_asset d') - md_payout d')
       (store_holding (md_asset d') ((load_holding st (md_asset d'))\<lparr>ho_total_in := total_in st (md_asset d') - md_payout d',
          ho_total_out := total_out st (md_asset d') + md_payout d'\<rparr>)
       (st\<lparr>ts_lock := Some True, ts_milestones := (ts_milestones st)(i \<mapsto> d'\<lparr>md_disbursed := md_disbursed d' + 1\<rparr>)\<rparr>))))"
    by (rule release_milestone_parts [OF assms(1)])
  have "d' = d" using d' assms(5) by simp
  note g = g' [unfolded this] and st' = s [unfolded this]
  have "custody_out bal self ?a ?n w w'"
    using gates_keep(2) [OF assms(3) g(2)] transfer_out_custody(1) [OF g(3) assms(2,4)] by (rule custody_out_mono)
  moreover have "booked st st' ?a (total_in st ?a - ?n) (total_out st ?a + ?n)" "settings_kept st st'" "ts_allowances st' = ts_allowances st"
    by (simp_all add: st' booked_def settings_kept_def store_asset_balance_def store_holding_def)
  ultimately show "paid bal self ?a ?n (st, w) (st', w')" by (simp add: paid_def allowance_wf_def)
  show "ts_pending st' = ts_pending st" "ts_milestones st' = (ts_milestones st)(i \<mapsto> d\<lparr>md_disbursed := md_disbursed d + 1\<rparr>)"
    by (simp_all add: st' store_asset_balance_def store_holding_def)
  show "md_disbursed d < md_milestones d" by (rule g(1))
qed

section \<open>Runs\<close>

text \<open>One rule per entrypoint that changes state; \<open>env\<close> carries the time and the authorizations of the invocation.\<close>

inductive tr_call :: "(address \<Rightarrow> string) \<Rightarrow> 'w token_api \<Rightarrow> 'w treasury_clients \<Rightarrow> env \<Rightarrow>
    treasury_state \<times> 'w \<Rightarrow> treasury_state \<times> 'w \<Rightarrow> bool"
  for strkey :: "address \<Rightarrow> string" and tk :: "'w token_api" and cl :: "'w treasury_clients" and env :: env where
  c_initialize: "tr_initialize env org c st = Ok (u, st') \<Longrightarrow> tr_call strkey tk cl env (st, w) (st', w)"
| c_set_registry: "tr_set_registry env c r st = Ok (u, st') \<Longrightarrow> tr_call strkey tk cl env (st, w) (st', w)"
| c_set_policy: "tr_set_policy env c a st = Ok (u, st') \<Longrightarrow> tr_call strkey tk cl env (st, w) (st', w)"
| c_set_budget: "tr_set_budget env c a st = Ok (u, st') \<Longrightarrow> tr_call strkey tk cl env (st, w) (st', w)"
| c_set_multisig: "tr_set_multisig env c a st = Ok (u, st') \<Longrightarrow> tr_call strkey tk cl env (st, w) (st', w)"
| c_set_guardian: "tr_set_guardian env c a st = Ok (u, st') \<Longrightarrow> tr_call strkey tk cl env (st, w) (st', w)"
| c_freeze: "tr_freeze env c st = Ok (u, st') \<Longrightarrow> tr_call strkey tk cl env (st, w) (st', w)"
| c_unfreeze: "tr_unfreeze env c st = Ok (u, st') \<Longrightarrow> tr_call strkey tk cl env (st, w) (st', w)"
| c_pause: "tr_pause env c st = Ok (u, st') \<Longrightarrow> tr_call strkey tk cl env (st, w) (st', w)"
| c_unpause: "tr_unpause env c st = Ok (u, st') \<Longrightarrow> tr_call strkey tk cl env (st, w) (st', w)"
| c_add_asset: "add_approved_asset env c a st = Ok (u, st') \<Longrightarrow> tr_call strkey tk cl env (st, w) (st', w)"
| c_remove_asset: "remove_approved_asset env c a st = Ok (u, st') \<Longrightarrow> tr_call strkey tk cl env (st, w) (st', w)"
| c_allocate: "allocate_budget env c a b st = Ok (u, st') \<Longrightarrow> tr_call strkey tk cl env (st, w) (st', w)"
| c_set_allowance: "tr_set_allowance env c g r a n e st = Ok (u, st') \<Longrightarrow> tr_call strkey tk cl env (st, w) (st', w)"
| c_remove_allowance: "tr_remove_allowance env c g r a st = Ok (u, st') \<Longrightarrow> tr_call strkey tk cl env (st, w) (st', w)"
| c_time_lock: "set_withdrawal_time_lock env c d n st = Ok (u, st') \<Longrightarrow> tr_call strkey tk cl env (st, w) (st', w)"
| c_queue: "queue_withdrawal strkey cl env c a r n (st, w) = Ok (i, st') \<Longrightarrow> tr_call strkey tk cl env (st, w) (st', w)"
| c_queue_batch: "queue_batch_transfer strkey cl env c a ps (st, w) = Ok (i, st') \<Longrightarrow> tr_call strkey tk cl env (st, w) (st', w)"
| c_cancel: "cancel_withdrawal env c i st = Ok (u, st') \<Longrightarrow> tr_call strkey tk cl env (st, w) (st', w)"
| c_init_milestones: "init_milestone_disbursement env c a r n m st = Ok (i, st') \<Longrightarrow> tr_call strkey tk cl env (st, w) (st', w)"
| c_deposit: "tr_deposit strkey tk cl env f a n (st, w) = Ok (u, s') \<Longrightarrow> tr_call strkey tk cl env (st, w) s'"
| c_withdraw: "tr_withdraw strkey tk cl env c a r n (st, w) = Ok (u, s') \<Longrightarrow> tr_call strkey tk cl env (st, w) s'"
| c_batch: "batch_transfer strkey tk cl env c a ps (st, w) = Ok (u, s') \<Longrightarrow> tr_call strkey tk cl env (st, w) s'"
| c_execute: "execute_withdrawal strkey tk cl env c i (st, w) = Ok (u, s') \<Longrightarrow> tr_call strkey tk cl env (st, w) s'"
| c_release: "release_next_milestone strkey tk cl env c i (st, w) = Ok (u, s') \<Longrightarrow> tr_call strkey tk cl env (st, w) s'"

text \<open>A run: an entrypoint, or anything else on the ledger that takes nothing out of the treasury.\<close>

definition tr_step :: "(address \<Rightarrow> string) \<Rightarrow> 'w token_api \<Rightarrow> 'w treasury_clients \<Rightarrow> ('w \<Rightarrow> address \<Rightarrow> address \<Rightarrow> int) \<Rightarrow>
    address \<Rightarrow> treasury_state \<times> 'w \<Rightarrow> treasury_state \<times> 'w \<Rightarrow> bool" where
  "tr_step strkey tk cl bal self s s' \<longleftrightarrow>
     (\<exists>env. this_contract env = self \<and> tr_call strkey tk cl env s s') \<or>
     (fst s' = fst s \<and> (\<forall>a. bal (snd s) a self \<le> bal (snd s') a self))"

definition deployed_treasury :: "('w \<Rightarrow> address \<Rightarrow> address \<Rightarrow> int) \<Rightarrow> address \<Rightarrow> (address \<Rightarrow> int) \<Rightarrow> treasury_state \<times> 'w \<Rightarrow> bool" where
  "deployed_treasury bal self base s \<longleftrightarrow> fst s = treasury_empty \<and> (\<forall>a. base a \<le> bal (snd s) a self)"

section \<open>Effects\<close>

text \<open>What the invariants read; the settings, the freeze flag and the events are left out.\<close>

definition kept :: "treasury_state \<Rightarrow> treasury_state \<Rightarrow> bool" where
  "kept st st' \<longleftrightarrow> ts_holdings st' = ts_holdings st \<and> ts_asset_balance st' = ts_asset_balance st \<and> ts_lock st' = ts_lock st \<and>
     ts_approved st' = ts_approved st \<and> ts_approved_count st' = ts_approved_count st \<and>
     ts_approved_list st' = ts_approved_list st \<and> ts_milestones st' = ts_milestones st \<and>
     ts_milestone_count st' = ts_milestone_count st \<and> ts_allowances st' = ts_allowances st \<and>
     ts_time_lock st' = ts_time_lock st \<and> ts_pending st' = ts_pending st \<and> ts_pending_count st' = ts_pending_count st"

definition tl_wf :: "withdrawal_time_lock \<Rightarrow> bool" where
  "tl_wf l \<longleftrightarrow> tl_delay l = 0 \<or> MIN_TIMELOCK_DELAY \<le> tl_delay l \<and> tl_delay l \<le> MAX_TIMELOCK_DELAY \<and> 0 < tl_threshold l"

definition is_paused :: "treasury_state \<Rightarrow> env \<Rightarrow> bool" where
  "is_paused st env \<longleftrightarrow> (\<exists>t. ts_treasury st = Some t \<and> pause_is_active t env)"

text \<open>A request as it is queued.\<close>

definition queued :: "env \<Rightarrow> treasury_state \<Rightarrow> u64 \<Rightarrow> pending_withdrawal \<Rightarrow> bool" where
  "queued env st i p \<longleftrightarrow> i = Suc (pending_withdrawal_count st) \<and> pw_id p = i \<and> is_pending p \<and>
     pw_requested_at p = timestamp env \<and> pw_execute_after p = timestamp env + tl_delay (load_time_lock st) \<and>
     pw_expires_at p = pw_execute_after p + GOVERNANCE_GRACE_PERIOD \<and> pw_value p = pw_amount p \<and> 0 < pw_amount p \<and>
     tl_applies (load_time_lock st) (pw_amount p)"

text \<open>A milestone schedule as it is opened.\<close>

definition opened :: "milestone_disbursement \<Rightarrow> bool" where
  "opened d \<longleftrightarrow> 0 < md_milestones d \<and> md_disbursed d = 0 \<and> 0 < md_amount_per_milestone d \<and>
     md_amount_per_milestone d = md_total_amount d div int (md_milestones d)"

inductive tr_effect :: "('w \<Rightarrow> address \<Rightarrow> address \<Rightarrow> int) \<Rightarrow> address \<Rightarrow> env \<Rightarrow> treasury_state \<times> 'w \<Rightarrow> treasury_state \<times> 'w \<Rightarrow> bool"
  for bal :: "'w \<Rightarrow> address \<Rightarrow> address \<Rightarrow> int" and self :: address and env :: env where
  e_config: "kept st st' \<Longrightarrow> tr_effect bal self env (st, w) (st', w)"
| e_approve: "\<not> is_asset_approved st a \<Longrightarrow> length (approved_list st) < MAX_TREASURY_ASSETS \<Longrightarrow>
    kept (st\<lparr>ts_approved := (ts_approved st)(a \<mapsto> True), ts_approved_list := Some (approved_list st @ [a]),
      ts_approved_count := Some (as_u32 (int (approved_count st) + 1))\<rparr>) st' \<Longrightarrow> tr_effect bal self env (st, w) (st', w)"
| e_unapprove: "is_asset_approved st a \<Longrightarrow>
    kept (st\<lparr>ts_approved := (ts_approved st)(a := None),
      ts_approved_list := (if a \<in> set (approved_list st) then Some (remove1 a (approved_list st)) else ts_approved_list st),
      ts_approved_count := Some (approved_count st - 1)\<rparr>) st' \<Longrightarrow> tr_effect bal self env (st, w) (st', w)"
| e_envelope: "kept (st\<lparr>ts_holdings := (ts_holdings st)(a \<mapsto> (load_holding st a)\<lparr>ho_budget_id := Some b\<rparr>)\<rparr>) st' \<Longrightarrow>
    tr_effect bal self env (st, w) (st', w)"
| e_allowance: "(\<And>al. x = Some al \<Longrightarrow> aw_spent al = 0 \<and> 0 < aw_limit al) \<Longrightarrow>
    kept (st\<lparr>ts_allowances := (ts_allowances st)(j := x)\<rparr>) st' \<Longrightarrow> tr_effect bal self env (st, w) (st', w)"
| e_time_lock: "tl_wf l \<Longrightarrow> kept (st\<lparr>ts_time_lock := Some l\<rparr>) st' \<Longrightarrow> tr_effect bal self env (st, w) (st', w)"
| e_queue: "queued env st i p \<Longrightarrow>
    kept (st\<lparr>ts_pending := (ts_pending st)(i \<mapsto> p), ts_pending_count := Some i\<rparr>) st' \<Longrightarrow> tr_effect bal self env (st, w) (st', w)"
| e_cancel: "ts_pending st i = Some p \<Longrightarrow> is_pending p \<Longrightarrow>
    kept (st\<lparr>ts_pending := (ts_pending st)(i \<mapsto> p\<lparr>pw_cancelled := True\<rparr>)\<rparr>) st' \<Longrightarrow> tr_effect bal self env (st, w) (st', w)"
| e_schedule: "opened d \<Longrightarrow> i = Suc (unwrap_or (ts_milestone_count st) 0) \<Longrightarrow>
    kept (st\<lparr>ts_milestones := (ts_milestones st)(i \<mapsto> d), ts_milestone_count := Some i\<rparr>) st' \<Longrightarrow>
    tr_effect bal self env (st, w) (st', w)"
| e_deposit: "0 < r \<Longrightarrow> bal w' a self = bal w a self + r \<Longrightarrow> (\<And>s. s \<noteq> a \<Longrightarrow> bal w s self \<le> bal w' s self) \<Longrightarrow>
    booked st st' a (total_in st a + r) (total_out st a) \<Longrightarrow> settings_kept st st' \<Longrightarrow> ts_allowances st' = ts_allowances st \<Longrightarrow>
    ts_pending st' = ts_pending st \<Longrightarrow> ts_milestones st' = ts_milestones st \<Longrightarrow> tr_effect bal self env (st, w) (st', w')"
| e_pay: "0 < n \<Longrightarrow> \<not> is_paused st env \<Longrightarrow> ts_frozen st \<noteq> Some True \<Longrightarrow> \<not> tl_applies (load_time_lock st) n \<Longrightarrow>
    paid bal self a n (st, w) (st', w') \<Longrightarrow>
    ts_pending st' = ts_pending st \<Longrightarrow> ts_milestones st' = ts_milestones st \<Longrightarrow> tr_effect bal self env (st, w) (st', w')"
| e_execute: "ts_pending st i = Some p \<Longrightarrow> is_pending p \<Longrightarrow> \<not> is_paused st env \<Longrightarrow> ts_frozen st \<noteq> Some True \<Longrightarrow>
    pw_execute_after p \<le> timestamp env \<Longrightarrow> timestamp env < pw_expires_at p \<Longrightarrow>
    paid bal self (pw_asset p) (pw_value p) (st, w) (st', w') \<Longrightarrow>
    ts_pending st' = (ts_pending st)(i \<mapsto> p\<lparr>pw_executed := True\<rparr>) \<Longrightarrow> ts_milestones st' = ts_milestones st \<Longrightarrow>
    tr_effect bal self env (st, w) (st', w')"
| e_release: "ts_milestones st i = Some d \<Longrightarrow> md_disbursed d < md_milestones d \<Longrightarrow> \<not> is_paused st env \<Longrightarrow>
    paid bal self (md_asset d) (md_payout d) (st, w) (st', w') \<Longrightarrow> ts_pending st' = ts_pending st \<Longrightarrow>
    ts_milestones st' = (ts_milestones st)(i \<mapsto> d\<lparr>md_disbursed := md_disbursed d + 1\<rparr>) \<Longrightarrow>
    tr_effect bal self env (st, w) (st', w')"

lemma kept_emit [simp]: "kept st (ts_emit es st') = kept st st'"
  by (simp add: kept_def)

lemma kept_refl [simp]: "kept st st"
  by (simp add: kept_def)

lemma config_kept:
  "tr_initialize env org c st = Ok (u, st') \<Longrightarrow> kept st st'" "tr_set_registry env c r st = Ok (u, st') \<Longrightarrow> kept st st'"
  "tr_set_policy env c a st = Ok (u, st') \<Longrightarrow> kept st st'" "tr_set_budget env c a st = Ok (u, st') \<Longrightarrow> kept st st'"
  "tr_set_multisig env c a st = Ok (u, st') \<Longrightarrow> kept st st'" "tr_set_guardian env c a st = Ok (u, st') \<Longrightarrow> kept st st'"
  "tr_freeze env c st = Ok (u, st') \<Longrightarrow> kept st st'" "tr_unfreeze env c st = Ok (u, st') \<Longrightarrow> kept st st'"
  "tr_pause env c st = Ok (u, st') \<Longrightarrow> kept st st'" "tr_unpause env c st = Ok (u, st') \<Longrightarrow> kept st st'"
  by (auto simp: tr_initialize_def tr_set_registry_def tr_set_policy_def tr_set_budget_def tr_set_multisig_def
      tr_set_guardian_def tr_freeze_def tr_unfreeze_def tr_pause_def tr_unpause_def tr_store_def ok_simps kept_def)

lemma effect_add_asset:
  assumes "add_approved_asset env c a st = Ok (u, st')"
  shows "tr_effect bal self env (st, w) (st', w)"
  by (rule e_approve [of st a]) (use assms in \<open>auto simp: add_approved_asset_def ok_simps Let_def is_asset_approved_def
      emit_asset_change_def store_approved_count_def store_approved_list_def approved_count_def kept_def\<close>)

lemma effect_remove_asset:
  assumes "remove_approved_asset env c a st = Ok (u, st')"
  shows "tr_effect bal self env (st, w) (st', w)"
  by (rule e_unapprove [of st a]) (use assms in \<open>auto simp: remove_approved_asset_def ok_simps Let_def is_asset_approved_def
      emit_asset_change_def store_approved_count_def store_approved_list_def approved_count_def approved_list_def kept_def\<close>)

lemma effect_allocate:
  assumes "allocate_budget env c a b st = Ok (u, st')"
  shows "tr_effect bal self env (st, w) (st', w)"
  by (rule e_envelope [of st a b]) (use assms in \<open>auto simp: allocate_budget_def ok_simps Let_def store_holding_def\<close>)

lemma effect_set_allowance:
  assumes "tr_set_allowance env c g r a n e st = Ok (u, st')"
  shows "tr_effect bal self env (st, w) (st', w)"
  by (rule e_allowance [of "Some \<lparr>aw_agent = g, aw_recipient = r, aw_asset = a, aw_limit = n, aw_spent = 0, aw_expires_at = e\<rparr>"
        st "\<lparr>ai_agent = g, ai_recipient = r, ai_asset = a\<rparr>"])
    (use assms in \<open>auto simp: tr_set_allowance_def ok_simps Let_def\<close>)

lemma effect_remove_allowance:
  assumes "tr_remove_allowance env c g r a st = Ok (u, st')"
  shows "tr_effect bal self env (st, w) (st', w)"
  by (rule e_allowance [of None st "\<lparr>ai_agent = g, ai_recipient = r, ai_asset = a\<rparr>"])
    (use assms in \<open>auto simp: tr_remove_allowance_def ok_simps Let_def\<close>)

lemma effect_time_lock:
  assumes "set_withdrawal_time_lock env c d n st = Ok (u, st')"
  shows "tr_effect bal self env (st, w) (st', w)"
  by (rule e_time_lock [of "if d = 0 then tl_disabled else \<lparr>tl_delay = d, tl_threshold = n\<rparr>" st])
    (use assms in \<open>auto simp: set_withdrawal_time_lock_def ok_simps tl_wf_def tl_disabled_def split: if_splits\<close>)

lemma open_pending_Ok:
  assumes "open_pending env c a r n ps st = Ok (i, st')" "tl_applies (load_time_lock st) n" "0 < n"
    "ps = [] \<or> n = (\<Sum>q\<leftarrow>ps. pay_amount q)"
  obtains p where "queued env st i p" "pw_asset p = a" "pw_to p = r" "pw_amount p = n" "pw_payments p = ps"
    "kept (st\<lparr>ts_pending := (ts_pending st)(i \<mapsto> p), ts_pending_count := Some i\<rparr>) st'" "ts_pending st' i = Some p"
proof -
  let ?p = "\<lparr>pw_id = i, pw_requester = c, pw_asset = a, pw_to = r, pw_amount = n, pw_payments = ps,
    pw_requested_at = timestamp env, pw_execute_after = timestamp env + tl_delay (load_time_lock st),
    pw_expires_at = timestamp env + tl_delay (load_time_lock st) + GOVERNANCE_GRACE_PERIOD, pw_cancelled = False, pw_executed = False\<rparr>"
  have i: "i = Suc (pending_withdrawal_count st)"
    and st': "st' = ts_emit [TeQueued i n (timestamp env + tl_delay (load_time_lock st))]
      (st\<lparr>ts_pending := (ts_pending st)(i \<mapsto> ?p), ts_pending_count := Some i\<rparr>)"
    using assms(1) by (auto simp: open_pending_def safe_add_u64_def ok_simps Let_def pending_withdrawal_count_def)
  show ?thesis
    by (rule that [of ?p]) (use i st' assms(2-4) in \<open>auto simp: queued_def is_pending_def pw_value_def\<close>)
qed

lemma queue_withdrawal_Ok:
  assumes "queue_withdrawal strkey cl env c a r n (st, w) = Ok (i, st')"
  obtains p where "queued env st i p" "pw_asset p = a" "pw_to p = r" "pw_amount p = n" "pw_payments p = []"
    "kept (st\<lparr>ts_pending := (ts_pending st)(i \<mapsto> p), ts_pending_count := Some i\<rparr>) st'" "ts_pending st' i = Some p"
proof -
  have "open_pending env c a r n [] st = Ok (i, st')" "tl_applies (load_time_lock st) n" "0 < n"
    using assms by (auto simp: queue_withdrawal_def ok_simps)
  from open_pending_Ok [OF this] that show ?thesis by blast
qed

lemma legs_positive: "ps \<noteq> [] \<Longrightarrow> (\<forall>p\<in>set ps. 0 < pay_amount p) \<Longrightarrow> 0 < (\<Sum>p\<leftarrow>ps. pay_amount p)"
  by (induction ps rule: list_nonempty_induct) (auto intro: add_pos_pos)

lemma queue_batch_Ok:
  assumes "queue_batch_transfer strkey cl env c a ps (st, w) = Ok (i, st')"
  obtains p where "queued env st i p" "pw_asset p = a" "pw_payments p = ps"
    "kept (st\<lparr>ts_pending := (ts_pending st)(i \<mapsto> p), ts_pending_count := Some i\<rparr>) st'" "ts_pending st' i = Some p"
proof -
  obtain n r where v: "validate_legs ps 0 = Ok n" and o: "open_pending env c a r n ps st = Ok (i, st')" "tl_applies (load_time_lock st) n"
    and ne: "ps \<noteq> []"
    using assms by (auto simp: queue_batch_transfer_def ok_simps)
  have "n = (\<Sum>q\<leftarrow>ps. pay_amount q)" "0 < n" using validate_legs_Ok [OF v] legs_positive [OF ne] by auto
  from open_pending_Ok [OF o this(2)] this(1) that show ?thesis by blast
qed

lemma effect_cancel:
  assumes "cancel_withdrawal env c i st = Ok (u, st')"
  shows "tr_effect bal self env (st, w) (st', w)"
proof -
  obtain p where "ts_pending st i = Some p" "is_pending p" and
    st': "st' = ts_emit [TeCanceled i] (st\<lparr>ts_pending := (ts_pending st)(i \<mapsto> p\<lparr>pw_cancelled := True\<rparr>)\<rparr>)"
    using assms by (auto simp: cancel_withdrawal_def ok_simps)
  then show ?thesis by (intro e_cancel [of st i p]) simp_all
qed

lemma effect_schedule:
  assumes "init_milestone_disbursement env c a r n m st = Ok (i, st')"
  shows "tr_effect bal self env (st, w) (st', w)"
proof -
  let ?d = "\<lparr>md_total_amount = n, md_milestones = m, md_disbursed = 0, md_amount_per_milestone = n div int m, md_asset = a, md_to = r\<rparr>"
  obtain q where "0 < n" "0 < m" and q: "q = n sdiv int m" "q \<noteq> 0" and i: "i = Suc (unwrap_or (ts_milestone_count st) 0)"
    and st': "st' = ts_emit [TeMilestoneInit i n m] (st\<lparr>ts_milestones := (ts_milestones st)(i \<mapsto>
      \<lparr>md_total_amount = n, md_milestones = m, md_disbursed = 0, md_amount_per_milestone = q, md_asset = a, md_to = r\<rparr>),
      ts_milestone_count := Some i\<rparr>)"
    using assms by (auto simp: init_milestone_disbursement_def ok_simps Let_def)
  have q': "q = n div int m" using q(1) \<open>0 < n\<close> \<open>0 < m\<close> by (simp add: sdiv_nonneg)
  have "0 \<le> n div int m" using \<open>0 < n\<close> \<open>0 < m\<close> by (simp add: pos_imp_zdiv_nonneg_iff)
  then have "opened ?d" using q(2) q' \<open>0 < m\<close> by (simp add: opened_def)
  then show ?thesis by (rule e_schedule [OF _ i]) (simp add: st' q')
qed

lemma not_paused_iff: "ts_treasury st = Some t \<Longrightarrow> is_paused st env \<longleftrightarrow> pause_is_active t env"
  by (simp add: is_paused_def)

lemma effect_deposit:
  assumes "tr_deposit strkey tk cl env f a n (st, w) = Ok (u, st', w')" "custody_laws tk bal self" "this_contract env = self"
  shows "tr_effect bal self env (st, w) (st', w')"
  using tr_deposit_effect [OF assms] by (auto intro: e_deposit)

lemma effect_withdraw:
  assumes "tr_withdraw strkey tk cl env c a r n (st, w) = Ok (u, st', w')"
    and laws: "custody_laws tk bal self" "treasury_clients_keep cl bal self" "this_contract env = self"
  shows "tr_effect bal self env (st, w) (st', w')"
proof (rule tr_withdraw_parts [OF assms(1)])
  fix t assume t: "ts_treasury st = Some t" "\<not> pause_is_active t env" "ts_frozen st \<noteq> Some True" "0 < n"
    "\<not> tl_applies (load_time_lock st) n" "settle_withdrawal tk cl env t c a r n (st, w) = Ok ((), st', w')"
  note p = settle_withdrawal_paid [OF t(6) laws]
  show ?thesis by (rule e_pay [OF t(4) _ t(3,5) p]) (use t(2) in \<open>simp add: not_paused_iff [OF t(1)]\<close>)
qed

lemma effect_batch:
  assumes "batch_transfer strkey tk cl env c a ps (st, w) = Ok (u, st', w')"
    and laws: "custody_laws tk bal self" "treasury_clients_keep cl bal self" "this_contract env = self"
  shows "tr_effect bal self env (st, w) (st', w')"
proof (rule batch_transfer_parts [OF assms(1)])
  fix t n assume t: "ts_treasury st = Some t" "\<not> pause_is_active t env" "ts_frozen st \<noteq> Some True" "ps \<noteq> []"
    "validate_legs ps 0 = Ok n" "\<not> tl_applies (load_time_lock st) n" "settle_batch tk cl env t c a ps (st, w) = Ok ((), st', w')"
  have n: "n = (\<Sum>p\<leftarrow>ps. pay_amount p)" "0 < n" using validate_legs_Ok [OF t(5)] legs_positive [OF t(4)] by auto
  note p = settle_batch_paid(1-3) [OF t(7) laws]
  show ?thesis by (rule e_pay [OF n(2) _ t(3,6) p [folded n(1)]]) (use t(2) in \<open>simp add: not_paused_iff [OF t(1)]\<close>)
qed

lemma effect_execute:
  assumes "execute_withdrawal strkey tk cl env c i (st, w) = Ok (u, st', w')"
    and laws: "custody_laws tk bal self" "treasury_clients_keep cl bal self" "this_contract env = self"
  shows "tr_effect bal self env (st, w) (st', w')"
proof (rule execute_withdrawal_parts [OF assms(1)])
  fix t p assume t: "ts_treasury st = Some t" "\<not> pause_is_active t env" "ts_frozen st \<noteq> Some True" "ts_pending st i = Some p"
    "is_pending p" "timestamp env < pw_expires_at p" "pw_execute_after p \<le> timestamp env"
  note e = execute_withdrawal_paid [OF assms t(4)]
  show ?thesis by (rule e_execute [OF t(4,5) _ t(3,7,6) e]) (use t(2) in \<open>simp add: not_paused_iff [OF t(1)]\<close>)
qed

lemma effect_release:
  assumes "release_next_milestone strkey tk cl env c i (st, w) = Ok (u, st', w')"
    and laws: "custody_laws tk bal self" "treasury_clients_keep cl bal self" "this_contract env = self"
  shows "tr_effect bal self env (st, w) (st', w')"
proof (rule release_milestone_parts [OF assms(1)])
  fix t d assume t: "ts_treasury st = Some t" "\<not> pause_is_active t env" "ts_milestones st i = Some d"
  note e = release_milestone_paid [OF assms t(3)]
  show ?thesis by (rule e_release [OF t(3) e(4) _ e(1-3)]) (use t(2) in \<open>simp add: not_paused_iff [OF t(1)]\<close>)
qed

lemma call_effect:
  assumes "tr_call strkey tk cl env s s'"
    and laws: "custody_laws tk bal self" "treasury_clients_keep cl bal self" "this_contract env = self"
  shows "tr_effect bal self env s s'"
  using assms(1)
proof cases
  case (c_queue c a r n st w i st')
  from queue_withdrawal_Ok [OF c_queue(3)] show ?thesis unfolding c_queue(1,2) using e_queue by metis
next
  case (c_queue_batch c a ps st w i st')
  from queue_batch_Ok [OF c_queue_batch(3)] show ?thesis unfolding c_queue_batch(1,2) using e_queue by metis
next
  case (c_deposit f a n st w u)
  then show ?thesis by (cases s') (auto intro: effect_deposit [OF _ laws(1,3)])
next
  case (c_withdraw c a r n st w u)
  then show ?thesis by (cases s') (auto intro: effect_withdraw [OF _ laws])
next
  case (c_batch c a ps st w u)
  then show ?thesis by (cases s') (auto intro: effect_batch [OF _ laws])
next
  case (c_execute c i st w u)
  then show ?thesis by (cases s') (auto intro: effect_execute [OF _ laws])
next
  case (c_release c i st w u)
  then show ?thesis by (cases s') (auto intro: effect_release [OF _ laws])
qed (auto intro: e_config config_kept effect_add_asset effect_remove_asset effect_allocate effect_set_allowance
    effect_remove_allowance effect_time_lock effect_cancel effect_schedule)

section \<open>Well-formed storage\<close>

definition books_wf :: "treasury_state \<Rightarrow> bool" where
  "books_wf st \<longleftrightarrow> ts_lock st \<noteq> Some True \<and> (\<forall>a. recorded st a = total_in st a)"

definition whitelist_wf :: "treasury_state \<Rightarrow> bool" where
  "whitelist_wf st \<longleftrightarrow> distinct (approved_list st) \<and> length (approved_list st) \<le> MAX_TREASURY_ASSETS \<and>
     approved_count st = length (approved_list st) \<and> (\<forall>a. is_asset_approved st a \<longleftrightarrow> a \<in> set (approved_list st))"

text \<open>A request was queued under a time-lock in force, and knows its window.\<close>

definition pw_wf :: "pending_withdrawal \<Rightarrow> bool" where
  "pw_wf p \<longleftrightarrow> pw_requested_at p + MIN_TIMELOCK_DELAY \<le> pw_execute_after p \<and>
     pw_execute_after p \<le> pw_requested_at p + MAX_TIMELOCK_DELAY \<and>
     pw_expires_at p = pw_execute_after p + GOVERNANCE_GRACE_PERIOD \<and> pw_value p = pw_amount p \<and> 0 < pw_amount p \<and>
     \<not> (pw_cancelled p \<and> pw_executed p)"

definition queue_wf :: "treasury_state \<Rightarrow> bool" where
  "queue_wf st \<longleftrightarrow> tl_wf (load_time_lock st) \<and>
     (\<forall>i p. ts_pending st i = Some p \<longrightarrow> i \<le> pending_withdrawal_count st \<and> pw_id p = i \<and> pw_wf p)"

definition md_wf :: "milestone_disbursement \<Rightarrow> bool" where
  "md_wf d \<longleftrightarrow> 0 < md_milestones d \<and> md_disbursed d \<le> md_milestones d \<and> 0 < md_amount_per_milestone d \<and>
     md_amount_per_milestone d = md_total_amount d div int (md_milestones d)"

definition schedules_wf :: "treasury_state \<Rightarrow> bool" where
  "schedules_wf st \<longleftrightarrow> (\<forall>i d. ts_milestones st i = Some d \<longrightarrow> i \<le> unwrap_or (ts_milestone_count st) 0 \<and> md_wf d)"

definition tr_wf :: "treasury_state \<Rightarrow> bool" where
  "tr_wf st \<longleftrightarrow> books_wf st \<and> whitelist_wf st \<and> allowance_wf st \<and> queue_wf st \<and> schedules_wf st"

text \<open>The books are backed: what the holdings record, on top of what was there before.\<close>

definition backed :: "('w \<Rightarrow> address \<Rightarrow> address \<Rightarrow> int) \<Rightarrow> address \<Rightarrow> (address \<Rightarrow> int) \<Rightarrow> treasury_state \<times> 'w \<Rightarrow> bool" where
  "backed bal self base s \<longleftrightarrow> (\<forall>a. base a + total_in (fst s) a \<le> bal (snd s) a self)"

lemma empty_wf: "tr_wf treasury_empty" "total_in treasury_empty a = 0"
  by (simp_all add: tr_wf_def books_wf_def recorded_def load_holding_def whitelist_wf_def approved_list_def approved_count_def
      is_asset_approved_def allowance_wf_def queue_wf_def schedules_wf_def load_time_lock_def tl_disabled_def tl_wf_def
      treasury_empty_def)

section \<open>The invariant\<close>

lemma books_wf_cong:
  assumes "ts_holdings st' = ts_holdings st" "ts_asset_balance st' = ts_asset_balance st" "ts_lock st' = ts_lock st"
  shows "books_wf st' \<longleftrightarrow> books_wf st"
  using assms by (simp add: books_wf_def recorded_def load_holding_def)

lemma books_wf_booked:
  assumes "booked st st' a i j" "books_wf st"
  shows "books_wf st'"
  using assms booked_totals [OF assms(1)] by (simp add: books_wf_def) (simp add: booked_def)

lemma books_wf_envelope:
  "books_wf (st\<lparr>ts_holdings := (ts_holdings st)(a \<mapsto> (load_holding st a)\<lparr>ho_budget_id := b\<rparr>)\<rparr>) \<longleftrightarrow> books_wf st"
  by (auto simp: books_wf_def recorded_def load_holding_def)

lemma whitelist_wf_cong:
  assumes "ts_approved st' = ts_approved st" "ts_approved_count st' = ts_approved_count st" "ts_approved_list st' = ts_approved_list st"
  shows "whitelist_wf st' \<longleftrightarrow> whitelist_wf st"
  using assms by (simp add: whitelist_wf_def approved_list_def approved_count_def is_asset_approved_def)

lemma queue_wf_cong:
  assumes "ts_pending st' = ts_pending st" "ts_pending_count st' = ts_pending_count st" "ts_time_lock st' = ts_time_lock st"
  shows "queue_wf st' \<longleftrightarrow> queue_wf st"
  using assms by (simp add: queue_wf_def pending_withdrawal_count_def load_time_lock_def)

lemma schedules_wf_cong:
  assumes "ts_milestones st' = ts_milestones st" "ts_milestone_count st' = ts_milestone_count st"
  shows "schedules_wf st' \<longleftrightarrow> schedules_wf st"
  using assms by (simp add: schedules_wf_def)

lemma allowance_wf_cong: "ts_allowances st' = ts_allowances st \<Longrightarrow> allowance_wf st' \<longleftrightarrow> allowance_wf st"
  by (simp add: allowance_wf_def)

lemma kept_wf:
  assumes "kept st st'"
  shows "tr_wf st' \<longleftrightarrow> tr_wf st" and "total_in st' a = total_in st a"
  using assms books_wf_cong [of st' st] whitelist_wf_cong [of st' st] queue_wf_cong [of st' st] schedules_wf_cong [of st' st]
    allowance_wf_cong [of st' st] load_holding_cong [of st' a st] by (simp_all add: tr_wf_def kept_def)

lemma approve_wf:
  assumes "whitelist_wf st" "\<not> is_asset_approved st a" "length (approved_list st) < MAX_TREASURY_ASSETS"
  shows "whitelist_wf (st\<lparr>ts_approved := (ts_approved st)(a \<mapsto> True), ts_approved_list := Some (approved_list st @ [a]),
      ts_approved_count := Some (as_u32 (int (approved_count st) + 1))\<rparr>)"
proof -
  have "as_u32 (int (length (approved_list st)) + 1) = length (approved_list st) + 1"
    using assms(3) by (simp add: as_u32_def MAX_TREASURY_ASSETS_def)
  then show ?thesis using assms
    by (auto simp: whitelist_wf_def approved_list_def approved_count_def is_asset_approved_def)
qed

lemma unapprove_wf:
  assumes "whitelist_wf st" "is_asset_approved st a"
  shows "whitelist_wf (st\<lparr>ts_approved := (ts_approved st)(a := None),
      ts_approved_list := (if a \<in> set (approved_list st) then Some (remove1 a (approved_list st)) else ts_approved_list st),
      ts_approved_count := Some (approved_count st - 1)\<rparr>)"
proof -
  have a: "a \<in> set (approved_list st)" using assms by (simp add: whitelist_wf_def)
  show ?thesis using assms a
    by (auto simp: whitelist_wf_def approved_list_def approved_count_def is_asset_approved_def length_remove1)
qed

lemma queued_wf:
  assumes "queue_wf st" "queued env st i p"
  shows "pw_wf p" and "queue_wf (st\<lparr>ts_pending := (ts_pending st)(i \<mapsto> p), ts_pending_count := Some i\<rparr>)"
proof -
  have "0 < tl_delay (load_time_lock st)" "tl_wf (load_time_lock st)" using assms by (auto simp: queued_def tl_applies_def queue_wf_def)
  then show "pw_wf p" using assms(2) by (auto simp: queued_def pw_wf_def tl_wf_def is_pending_def)
  then show "queue_wf (st\<lparr>ts_pending := (ts_pending st)(i \<mapsto> p), ts_pending_count := Some i\<rparr>)"
    using assms by (auto simp: queue_wf_def queued_def pending_withdrawal_count_def load_time_lock_def le_SucI)
qed

lemma settled_wf:
  assumes "queue_wf st" "ts_pending st i = Some p" "is_pending p" "q = p\<lparr>pw_cancelled := True\<rparr> \<or> q = p\<lparr>pw_executed := True\<rparr>"
  shows "queue_wf (st\<lparr>ts_pending := (ts_pending st)(i \<mapsto> q)\<rparr>)"
proof -
  have "pw_wf p" "i \<le> pending_withdrawal_count st" "pw_id p = i" using assms(1,2) by (auto simp: queue_wf_def)
  then have "pw_wf q" "pw_id q = i" using assms(3,4) by (auto simp: pw_wf_def is_pending_def pw_value_def)
  then show ?thesis using assms(1,2) by (auto simp: queue_wf_def pending_withdrawal_count_def load_time_lock_def)
qed

lemma opened_wf:
  assumes "schedules_wf st" "opened d" "i = Suc (unwrap_or (ts_milestone_count st) 0)"
  shows "schedules_wf (st\<lparr>ts_milestones := (ts_milestones st)(i \<mapsto> d), ts_milestone_count := Some i\<rparr>)"
proof -
  have "md_wf d" using assms(2) by (simp add: opened_def md_wf_def)
  then show ?thesis using assms(1,3) by (auto simp: schedules_wf_def le_SucI)
qed

lemma md_payout_pos: "md_wf d \<Longrightarrow> md_disbursed d < md_milestones d \<Longrightarrow> 0 < md_payout d"
proof -
  assume d: "md_wf d"
  let ?k = "md_amount_per_milestone d" and ?m = "int (md_milestones d)"
  have "?k * ?m \<le> md_total_amount d" using d by (simp add: md_wf_def) (metis minus_mod_eq_div_mult Euclidean_Rings.pos_mod_sign of_nat_0_less_iff diff_left_mono diff_zero)
  moreover have "?k * int (md_milestones d - 1) = ?k * ?m - ?k" using d by (simp add: md_wf_def of_nat_diff algebra_simps)
  ultimately show ?thesis using d by (simp add: md_payout_def md_wf_def)
qed

lemma released_wf:
  assumes "schedules_wf st" "ts_milestones st i = Some d" "md_disbursed d < md_milestones d"
  shows "schedules_wf (st\<lparr>ts_milestones := (ts_milestones st)(i \<mapsto> d\<lparr>md_disbursed := md_disbursed d + 1\<rparr>)\<rparr>)"
proof -
  have "md_wf d" using assms(1,2) by (simp add: schedules_wf_def)
  then have "md_wf (d\<lparr>md_disbursed := md_disbursed d + 1\<rparr>)" using assms(3) by (simp add: md_wf_def)
  then show ?thesis using assms(1,2) by (auto simp: schedules_wf_def)
qed

text \<open>A payout keeps everything but the records it marks.\<close>

lemma paid_wf:
  assumes "paid bal self a n (st, w) (st', w')" "0 < n" "tr_wf st"
  shows "books_wf st'" "whitelist_wf st'" "allowance_wf st'"
    and "queue_wf st' \<longleftrightarrow> queue_wf (st\<lparr>ts_pending := ts_pending st'\<rparr>)"
    and "schedules_wf st' \<longleftrightarrow> schedules_wf (st\<lparr>ts_milestones := ts_milestones st'\<rparr>)"
proof -
  have p: "booked st st' a (total_in st a - n) (total_out st a + n)" "settings_kept st st'" "allowance_wf st'"
    using assms by (auto simp: paid_def tr_wf_def)
  show "books_wf st'" using books_wf_booked [OF p(1)] assms(3) by (simp add: tr_wf_def)
  show "whitelist_wf st'" using whitelist_wf_cong [of st' st] p(2) assms(3) by (simp add: settings_kept_def tr_wf_def)
  show "allowance_wf st'" by (rule p(3))
  show "queue_wf st' \<longleftrightarrow> queue_wf (st\<lparr>ts_pending := ts_pending st'\<rparr>)"
    by (rule queue_wf_cong) (use p(2) in \<open>simp_all add: settings_kept_def\<close>)
  show "schedules_wf st' \<longleftrightarrow> schedules_wf (st\<lparr>ts_milestones := ts_milestones st'\<rparr>)"
    by (rule schedules_wf_cong) (use p(2) in \<open>simp_all add: settings_kept_def\<close>)
qed

lemma wf_frame [simp]:
  "books_wf (st\<lparr>ts_approved := xapproved\<rparr>) \<longleftrightarrow> books_wf st"
  "books_wf (st\<lparr>ts_approved_list := xapproved_list\<rparr>) \<longleftrightarrow> books_wf st"
  "books_wf (st\<lparr>ts_approved_count := xapproved_count\<rparr>) \<longleftrightarrow> books_wf st"
  "books_wf (st\<lparr>ts_pending := xpending\<rparr>) \<longleftrightarrow> books_wf st"
  "books_wf (st\<lparr>ts_pending_count := xpending_count\<rparr>) \<longleftrightarrow> books_wf st"
  "books_wf (st\<lparr>ts_time_lock := xtime_lock\<rparr>) \<longleftrightarrow> books_wf st"
  "books_wf (st\<lparr>ts_milestones := xmilestones\<rparr>) \<longleftrightarrow> books_wf st"
  "books_wf (st\<lparr>ts_milestone_count := xmilestone_count\<rparr>) \<longleftrightarrow> books_wf st"
  "books_wf (st\<lparr>ts_allowances := xallowances\<rparr>) \<longleftrightarrow> books_wf st"
  "whitelist_wf (st\<lparr>ts_holdings := xholdings\<rparr>) \<longleftrightarrow> whitelist_wf st"
  "whitelist_wf (st\<lparr>ts_pending := xpending\<rparr>) \<longleftrightarrow> whitelist_wf st"
  "whitelist_wf (st\<lparr>ts_pending_count := xpending_count\<rparr>) \<longleftrightarrow> whitelist_wf st"
  "whitelist_wf (st\<lparr>ts_time_lock := xtime_lock\<rparr>) \<longleftrightarrow> whitelist_wf st"
  "whitelist_wf (st\<lparr>ts_milestones := xmilestones\<rparr>) \<longleftrightarrow> whitelist_wf st"
  "whitelist_wf (st\<lparr>ts_milestone_count := xmilestone_count\<rparr>) \<longleftrightarrow> whitelist_wf st"
  "whitelist_wf (st\<lparr>ts_allowances := xallowances\<rparr>) \<longleftrightarrow> whitelist_wf st"
  "allowance_wf (st\<lparr>ts_holdings := xholdings\<rparr>) \<longleftrightarrow> allowance_wf st"
  "allowance_wf (st\<lparr>ts_approved := xapproved\<rparr>) \<longleftrightarrow> allowance_wf st"
  "allowance_wf (st\<lparr>ts_approved_list := xapproved_list\<rparr>) \<longleftrightarrow> allowance_wf st"
  "allowance_wf (st\<lparr>ts_approved_count := xapproved_count\<rparr>) \<longleftrightarrow> allowance_wf st"
  "allowance_wf (st\<lparr>ts_pending := xpending\<rparr>) \<longleftrightarrow> allowance_wf st"
  "allowance_wf (st\<lparr>ts_pending_count := xpending_count\<rparr>) \<longleftrightarrow> allowance_wf st"
  "allowance_wf (st\<lparr>ts_time_lock := xtime_lock\<rparr>) \<longleftrightarrow> allowance_wf st"
  "allowance_wf (st\<lparr>ts_milestones := xmilestones\<rparr>) \<longleftrightarrow> allowance_wf st"
  "allowance_wf (st\<lparr>ts_milestone_count := xmilestone_count\<rparr>) \<longleftrightarrow> allowance_wf st"
  "queue_wf (st\<lparr>ts_holdings := xholdings\<rparr>) \<longleftrightarrow> queue_wf st"
  "queue_wf (st\<lparr>ts_approved := xapproved\<rparr>) \<longleftrightarrow> queue_wf st"
  "queue_wf (st\<lparr>ts_approved_list := xapproved_list\<rparr>) \<longleftrightarrow> queue_wf st"
  "queue_wf (st\<lparr>ts_approved_count := xapproved_count\<rparr>) \<longleftrightarrow> queue_wf st"
  "queue_wf (st\<lparr>ts_milestones := xmilestones\<rparr>) \<longleftrightarrow> queue_wf st"
  "queue_wf (st\<lparr>ts_milestone_count := xmilestone_count\<rparr>) \<longleftrightarrow> queue_wf st"
  "queue_wf (st\<lparr>ts_allowances := xallowances\<rparr>) \<longleftrightarrow> queue_wf st"
  "schedules_wf (st\<lparr>ts_holdings := xholdings\<rparr>) \<longleftrightarrow> schedules_wf st"
  "schedules_wf (st\<lparr>ts_approved := xapproved\<rparr>) \<longleftrightarrow> schedules_wf st"
  "schedules_wf (st\<lparr>ts_approved_list := xapproved_list\<rparr>) \<longleftrightarrow> schedules_wf st"
  "schedules_wf (st\<lparr>ts_approved_count := xapproved_count\<rparr>) \<longleftrightarrow> schedules_wf st"
  "schedules_wf (st\<lparr>ts_pending := xpending\<rparr>) \<longleftrightarrow> schedules_wf st"
  "schedules_wf (st\<lparr>ts_pending_count := xpending_count\<rparr>) \<longleftrightarrow> schedules_wf st"
  "schedules_wf (st\<lparr>ts_time_lock := xtime_lock\<rparr>) \<longleftrightarrow> schedules_wf st"
  "schedules_wf (st\<lparr>ts_allowances := xallowances\<rparr>) \<longleftrightarrow> schedules_wf st"
  by (simp_all add: books_wf_def recorded_def load_holding_def whitelist_wf_def approved_list_def approved_count_def
      is_asset_approved_def allowance_wf_def queue_wf_def pending_withdrawal_count_def load_time_lock_def schedules_wf_def)

lemma total_in_frame [simp]:
  "total_in (st\<lparr>ts_approved := xapproved\<rparr>) a = total_in st a"
  "total_in (st\<lparr>ts_approved_list := xapproved_list\<rparr>) a = total_in st a"
  "total_in (st\<lparr>ts_approved_count := xapproved_count\<rparr>) a = total_in st a"
  "total_in (st\<lparr>ts_pending := xpending\<rparr>) a = total_in st a"
  "total_in (st\<lparr>ts_pending_count := xpending_count\<rparr>) a = total_in st a"
  "total_in (st\<lparr>ts_time_lock := xtime_lock\<rparr>) a = total_in st a"
  "total_in (st\<lparr>ts_milestones := xmilestones\<rparr>) a = total_in st a"
  "total_in (st\<lparr>ts_milestone_count := xmilestone_count\<rparr>) a = total_in st a"
  "total_in (st\<lparr>ts_allowances := xallowances\<rparr>) a = total_in st a"
  by (simp_all add: load_holding_def)

lemma total_in_envelope [simp]:
  "total_in (st\<lparr>ts_holdings := (ts_holdings st)(b \<mapsto> (load_holding st b)\<lparr>ho_budget_id := i\<rparr>)\<rparr>) a = total_in st a"
  by (simp add: load_holding_def)

lemma self_update: "st\<lparr>ts_pending := ts_pending st\<rparr> = st" "st\<lparr>ts_milestones := ts_milestones st\<rparr> = st"
  by simp_all

lemma effect_wf: "tr_effect bal self env s s' \<Longrightarrow> tr_wf (fst s) \<Longrightarrow> tr_wf (fst s')"
proof (induction rule: tr_effect.induct)
  case (e_config st st')
  then show ?case by (simp add: kept_wf)
next
  case (e_approve st a st')
  then have "whitelist_wf st" by (simp add: tr_wf_def)
  from approve_wf [OF this e_approve(1,2)] e_approve(4) show ?case unfolding fst_conv kept_wf(1) [OF e_approve(3)]
    by (simp add: tr_wf_def)
next
  case (e_unapprove st a st')
  then have "whitelist_wf st" by (simp add: tr_wf_def)
  from unapprove_wf [OF this e_unapprove(1)] e_unapprove(3) show ?case unfolding fst_conv kept_wf(1) [OF e_unapprove(2)]
    by (simp add: tr_wf_def)
next
  case (e_envelope st a b st')
  from e_envelope(2) show ?case unfolding fst_conv kept_wf(1) [OF e_envelope(1)]
    by (simp add: tr_wf_def books_wf_envelope)
next
  case (e_allowance x st j st')
  have "allowance_wf (st\<lparr>ts_allowances := (ts_allowances st)(j := x)\<rparr>)"
    using e_allowance(1,3) by (auto simp: allowance_wf_def tr_wf_def)
  with e_allowance(3) show ?case unfolding fst_conv kept_wf(1) [OF e_allowance(2)]
    by (simp add: tr_wf_def)
next
  case (e_time_lock l st st')
  have "queue_wf (st\<lparr>ts_time_lock := Some l\<rparr>)"
    using e_time_lock(1,3) by (simp add: queue_wf_def tr_wf_def load_time_lock_def pending_withdrawal_count_def)
  with e_time_lock(3) show ?case unfolding fst_conv kept_wf(1) [OF e_time_lock(2)]
    by (simp add: tr_wf_def)
next
  case (e_queue st i p st')
  then have "queue_wf st" by (simp add: tr_wf_def)
  from queued_wf(2) [OF this e_queue(1)] e_queue(3) show ?case unfolding fst_conv kept_wf(1) [OF e_queue(2)]
    by (simp add: tr_wf_def)
next
  case (e_cancel st i p st')
  then have "queue_wf st" by (simp add: tr_wf_def)
  from settled_wf [OF this e_cancel(1,2)] e_cancel(4) show ?case unfolding fst_conv kept_wf(1) [OF e_cancel(3)]
    by (simp add: tr_wf_def)
next
  case (e_schedule d i st st')
  then have "schedules_wf st" by (simp add: tr_wf_def)
  from opened_wf [OF this e_schedule(1,2)] e_schedule(4) show ?case unfolding fst_conv kept_wf(1) [OF e_schedule(3)]
    by (simp add: tr_wf_def)
next
  case (e_deposit r w' a w st st')
  then show ?case using books_wf_booked [OF e_deposit(4)] whitelist_wf_cong [of st' st] queue_wf_cong [of st' st]
      schedules_wf_cong [of st' st] allowance_wf_cong [of st' st] by (simp add: tr_wf_def settings_kept_def)
next
  case (e_pay n st a w st' w')
  then have wf: "tr_wf st" by simp
  note p = paid_wf [OF e_pay(5,1) wf]
  show ?case using p wf e_pay(6,7) self_update by (simp add: tr_wf_def)
next
  case (e_execute st i p w st' w')
  then have wf: "tr_wf st" by simp
  then have q: "queue_wf st" by (simp add: tr_wf_def)
  then have "0 < pw_value p" using e_execute(1) by (auto simp: queue_wf_def pw_wf_def)
  note p = paid_wf [OF e_execute(7) this wf]
  show ?case using p wf e_execute(8,9) settled_wf [OF q e_execute(1,2)] self_update by (simp add: tr_wf_def)
next
  case (e_release st i d w st' w')
  then have wf: "tr_wf st" by simp
  then have q: "schedules_wf st" by (simp add: tr_wf_def)
  then have "0 < md_payout d" using e_release(1,2) md_payout_pos by (auto simp: schedules_wf_def)
  note p = paid_wf [OF e_release(4) this wf]
  show ?case using p wf e_release(5,6) released_wf [OF q e_release(1,2)] self_update by (simp add: tr_wf_def)
qed

lemma backed_paid:
  assumes "paid bal self a n (st, w) (st', w')" "backed bal self base (st, w)"
  shows "backed bal self base (st', w')"
proof -
  have b: "booked st st' a (total_in st a - n) (total_out st a + n)" and o: "custody_out bal self a n w w'"
    using assms(1) by (auto simp: paid_def)
  show ?thesis unfolding backed_def fst_conv snd_conv booked_totals(1) [OF b]
  proof
    fix s
    have "base s + total_in st s \<le> bal w s self" "bal w s self - (if s = a then n else 0) \<le> bal w' s self"
      using assms(2) o by (simp_all add: backed_def custody_out_def)
    then show "base s + (if s = a then total_in st a - n else total_in st s) \<le> bal w' s self" by (simp split: if_splits)
  qed
qed

lemma effect_backed: "tr_effect bal self env s s' \<Longrightarrow> backed bal self base s \<Longrightarrow> backed bal self base s'"
proof (induction rule: tr_effect.induct)
  case (e_deposit r w' a w st st')
  have "base s + (if s = a then total_in st a + r else total_in st s) \<le> bal w' s self" for s
    using e_deposit(9) e_deposit(2) e_deposit(3) [of s] by (cases "s = a") (auto simp: backed_def intro: order_trans)
  then show ?case unfolding backed_def fst_conv snd_conv booked_totals(1) [OF e_deposit(4)] by blast
qed (auto simp: backed_def kept_wf(2) dest: backed_paid)

lemma tr_step_wf: "tr_step strkey tk cl bal self s s' \<Longrightarrow> custody_laws tk bal self \<Longrightarrow> treasury_clients_keep cl bal self \<Longrightarrow>
    tr_wf (fst s) \<and> backed bal self base s \<Longrightarrow> tr_wf (fst s') \<and> backed bal self base s'"
proof -
  assume a: "custody_laws tk bal self" "treasury_clients_keep cl bal self" "tr_wf (fst s) \<and> backed bal self base s"
  assume "tr_step strkey tk cl bal self s s'"
  then consider env where "this_contract env = self" "tr_call strkey tk cl env s s'"
    | "fst s' = fst s" "\<forall>a. bal (snd s) a self \<le> bal (snd s') a self" by (auto simp: tr_step_def)
  then show ?thesis
  proof cases
    case 1
    from call_effect [OF 1(2) a(1,2) 1(1)] a(3) show ?thesis using effect_wf effect_backed by blast
  next
    case 2
    then show ?thesis using a(3) by (auto simp: backed_def intro: order_trans)
  qed
qed

definition tr_custody :: "'w token_api \<Rightarrow> 'w treasury_clients \<Rightarrow> ('w \<Rightarrow> address \<Rightarrow> address \<Rightarrow> int) \<Rightarrow> address \<Rightarrow>
    (address \<Rightarrow> int) \<Rightarrow> treasury_state \<times> 'w \<Rightarrow> bool" where
  "tr_custody tk cl bal self base s \<longleftrightarrow>
     (custody_laws tk bal self \<and> treasury_clients_keep cl bal self \<longrightarrow> tr_wf (fst s) \<and> backed bal self base s)"

interpretation treasury_sys: invariant_system "deployed_treasury bal self base" "tr_step strkey tk cl bal self"
    "tr_custody tk cl bal self base"
  for tk :: "'w token_api" and cl bal self base strkey
proof
  show "deployed_treasury bal self base s \<Longrightarrow> tr_custody tk cl bal self base s" for s :: "treasury_state \<times> 'w"
    using empty_wf by (simp add: deployed_treasury_def tr_custody_def backed_def)
next
  show "tr_custody tk cl bal self base s \<Longrightarrow> tr_step strkey tk cl bal self s t \<Longrightarrow> tr_custody tk cl bal self base t" for s t
    unfolding tr_custody_def using tr_step_wf by blast
qed

lemma treasury_reach_wf:
  assumes "reach (deployed_treasury bal self base) (tr_step strkey tk cl bal self) (st, w)"
    and "custody_laws tk bal self" "treasury_clients_keep cl bal self"
  shows "tr_wf st" and "backed bal self base (st, w)"
  using treasury_sys.reach_inv [OF assms(1)] assms(2,3) by (auto simp: tr_custody_def)

section \<open>Requests over a run\<close>

text \<open>A request never changes but for its two final flags.\<close>

definition pw_moves :: "pending_withdrawal \<Rightarrow> pending_withdrawal \<Rightarrow> bool" where
  "pw_moves p q \<longleftrightarrow> (\<exists>c e. q = p\<lparr>pw_cancelled := c, pw_executed := e\<rparr> \<and> (pw_cancelled p \<longrightarrow> c) \<and> (pw_executed p \<longrightarrow> e))"

lemma pw_moves_refl [simp]: "pw_moves p p"
  unfolding pw_moves_def by (rule exI [of _ "pw_cancelled p"], rule exI [of _ "pw_executed p"]) simp

lemma pw_moves_trans: "pw_moves p q \<Longrightarrow> pw_moves q r \<Longrightarrow> pw_moves p r"
  unfolding pw_moves_def by (elim exE conjE) (intro exI, auto)

lemma pw_moves_flags [simp]: "pw_moves p (p\<lparr>pw_cancelled := True\<rparr>)" "pw_moves p (p\<lparr>pw_executed := True\<rparr>)"
  unfolding pw_moves_def
  by (rule exI [of _ True], rule exI [of _ "pw_executed p"], simp) (rule exI [of _ "pw_cancelled p"], rule exI [of _ True], simp)

lemma pw_moves_D:
  assumes "pw_moves p q"
  shows "pw_requested_at q = pw_requested_at p" "pw_execute_after q = pw_execute_after p" "pw_expires_at q = pw_expires_at p"
    "pw_asset q = pw_asset p" "pw_to q = pw_to p" "pw_amount q = pw_amount p" "pw_payments q = pw_payments p"
    "is_pending q \<Longrightarrow> is_pending p" "pw_value q = pw_value p"
  using assms by (auto simp: pw_moves_def is_pending_def pw_value_def)

lemma effect_pending:
  assumes "tr_effect bal self env s s'" "tr_wf (fst s)" "ts_pending (fst s) i = Some p"
  shows "\<exists>q. ts_pending (fst s') i = Some q \<and> pw_moves p q"
  using assms
proof (induction rule: tr_effect.induct)
  case (e_queue st j q st')
  then have "i \<le> pending_withdrawal_count st" by (auto simp: tr_wf_def queue_wf_def)
  then show ?case using e_queue by (auto simp: queued_def kept_def)
next
  case (e_execute st j q w st' w')
  then show ?case by (cases "i = j") auto
next
  case (e_cancel st j q st')
  then show ?case by (cases "i = j") (auto simp: kept_def)
qed (auto simp: kept_def)

lemma step_pending:
  assumes "tr_step strkey tk cl bal self s s'" "tr_wf (fst s)" "custody_laws tk bal self" "treasury_clients_keep cl bal self"
    and "ts_pending (fst s) i = Some p"
  shows "\<exists>q. ts_pending (fst s') i = Some q \<and> pw_moves p q"
  using assms(1) unfolding tr_step_def
proof (elim disjE exE conjE)
  fix env assume "this_contract env = self" "tr_call strkey tk cl env s s'"
  from effect_pending [OF call_effect [OF this(2) assms(3,4) this(1)] assms(2,5)] show ?thesis .
qed (use assms(5) in simp)

lemma steps_pending:
  assumes "(tr_step strkey tk cl bal self)\<^sup>*\<^sup>* s s'" "tr_wf (fst s) \<and> backed bal self base s"
    and "custody_laws tk bal self" "treasury_clients_keep cl bal self" "ts_pending (fst s) i = Some p"
  shows "\<exists>q. ts_pending (fst s') i = Some q \<and> pw_moves p q"
  using assms(1,5)
proof (induction rule: rtranclp_induct)
  case (step s1 s2)
  then obtain q where q: "ts_pending (fst s1) i = Some q" "pw_moves p q" by blast
  have "tr_wf (fst s1)" using treasury_sys.steps_inv [OF step(1), of base] assms(2-4) by (simp add: tr_custody_def)
  from step_pending [OF step(2) this assms(3,4) q(1)] have "\<exists>r. ts_pending (fst s2) i = Some r \<and> pw_moves q r" .
  with q(2) show ?case using pw_moves_trans by blast
qed auto

lemma call_step: "tr_call strkey tk cl env s s' \<Longrightarrow> this_contract env = self \<Longrightarrow> tr_step strkey tk cl bal self s s'"
  by (auto simp: tr_step_def)

end
