(* ===== verification/Treasury_Safety.thy ===== *)
theory Treasury_Safety
  imports Treasury_Runs
begin

text \<open>
  What the treasury guarantees over any run: the books are backed, queued requests wait out their delay and
  are paid at most once, a pause stops every outflow, milestone schedules pay their total. And what it does
  not: the milestone path around the freeze and the time-lock, and the queued batch that overdraws the books.
\<close>

section \<open>Supporting facts\<close>

lemma execute_needs_pending:
  assumes "execute_withdrawal strkey tk cl env c i (st, w) = Ok x" "ts_pending st i = Some p"
  shows "is_pending p \<and> pw_execute_after p \<le> timestamp env \<and> timestamp env < pw_expires_at p"
proof -
  obtain u st' w' where "x = (u, st', w')" by (metis prod_cases3)
  from execute_withdrawal_parts [OF assms(1) [unfolded this]] assms(2) show ?thesis by auto
qed

text \<open>Once executed or cancelled, a request is closed for good.\<close>

lemma closed_stays_closed:
  assumes "(tr_step strkey tk cl bal self)\<^sup>*\<^sup>* (st, w) (st', w')" "tr_wf st" "backed bal self base (st, w)"
    and "custody_laws tk bal self" "treasury_clients_keep cl bal self" "ts_pending st i = Some p" "\<not> is_pending p"
  shows "execute_withdrawal strkey' tk' cl' env c i (st', w'') \<noteq> Ok x"
proof
  assume e: "execute_withdrawal strkey' tk' cl' env c i (st', w'') = Ok x"
  from steps_pending [OF assms(1) _ assms(4,5), of base i p] assms(2,3,6) obtain q where q: "ts_pending st' i = Some q" "pw_moves p q" by auto
  from execute_needs_pending [OF e q(1)] pw_moves_D(8) [OF q(2)] assms(7) show False by blast
qed

text \<open>A request without legs hands its amount to the token, for the recipient it names, once the gates let it pass.\<close>

lemma execute_single_pays:
  assumes "execute_withdrawal strkey tk cl env c i (st, w) = Ok (u, st', w')"
    and "custody_laws tk bal self" "treasury_clients_keep cl bal self" "this_contract env = self"
    and "ts_pending st i = Some p" "pw_payments p = []"
  shows "\<exists>wg. (\<forall>s. bal w s self \<le> bal wg s self) \<and> tk_transfer tk wg (pw_asset p) self (pw_to p) (pw_amount p) = TryOk w' \<and>
     bal w' (pw_asset p) self = bal wg (pw_asset p) self - pw_amount p"
proof -
  let ?s = "st\<lparr>ts_pending := (ts_pending st)(i \<mapsto> p\<lparr>pw_executed := True\<rparr>)\<rparr>"
  obtain t q st2 where q: "ts_pending st i = Some q" and e: "(if pw_payments q = [] then settle_withdrawal tk cl env t c (pw_asset q) (pw_to q) (pw_amount q)
        (st\<lparr>ts_pending := (ts_pending st)(i \<mapsto> q\<lparr>pw_executed := True\<rparr>)\<rparr>, w)
      else settle_batch tk cl env t c (pw_asset q) (pw_payments q)
        (st\<lparr>ts_pending := (ts_pending st)(i \<mapsto> q\<lparr>pw_executed := True\<rparr>)\<rparr>, w)) = Ok ((), st2, w')"
    by (rule execute_withdrawal_parts [OF assms(1)])
  have "q = p" using q assms(5) by simp
  with e assms(6) have s: "settle_withdrawal tk cl env t c (pw_asset p) (pw_to p) (pw_amount p) (?s, w) = Ok ((), st2, w')" by simp
  obtain w1 w2 where g: "policy_gate cl t (pw_asset p) (pw_to p) (pw_amount p) w = Ok w1"
    "budget_gate cl t (load_holding ?s (pw_asset p)) c (pw_amount p) w1 = Ok w2"
    "transfer_out tk env (pw_asset p) (pw_to p) (pw_amount p) w2 = Ok w'" by (rule settle_withdrawal_parts [OF s])
  have "bal w x self \<le> bal w2 x self" for x
    using gates_keep(1) [OF assms(3) g(1), of x] gates_keep(2) [OF assms(3) g(2), of x] by linarith
  then show ?thesis using transfer_out_custody(3,4) [OF g(3) assms(2,4)] by blast
qed

lemma paused_iff: "tr_is_paused env st \<longleftrightarrow> is_paused st env"
  by (auto simp: tr_is_paused_def is_paused_def tr_load_def ok_or_def split: option.splits)

text \<open>What can take something out of custody.\<close>

lemma outflow_calls:
  assumes "tr_call strkey tk cl env (st, w) (st', w')" "custody_laws tk bal self" "this_contract env = self"
    and "bal w' a self < bal w a self"
  obtains (withdraw) c b r n where "tr_withdraw strkey tk cl env c b r n (st, w) = Ok ((), st', w')"
    | (batch) c b ps where "batch_transfer strkey tk cl env c b ps (st, w) = Ok ((), st', w')"
    | (execute) c i where "execute_withdrawal strkey tk cl env c i (st, w) = Ok ((), st', w')"
    | (release) c i where "release_next_milestone strkey tk cl env c i (st, w) = Ok ((), st', w')"
  using assms(1)
proof cases
  case (c_deposit f b n u)
  from tr_deposit_effect [OF c_deposit assms(2,3)] assms(4) show ?thesis by (cases "a = b") force+
qed (use assms(4) that in auto)

lemma payouts_sum:
  assumes "md_wf d"
  shows "(\<Sum>k<md_milestones d. md_payout (d\<lparr>md_disbursed := k\<rparr>)) = md_total_amount d"
proof -
  obtain m where m: "md_milestones d = Suc m" using assms by (cases "md_milestones d") (auto simp: md_wf_def)
  have "md_payout (d\<lparr>md_disbursed := k\<rparr>) = md_amount_per_milestone d" if "k < m" for k using that m by (simp add: md_payout_def)
  then show ?thesis by (simp add: m) (simp add: md_payout_def m)
qed

section \<open>A concrete run\<close>

text \<open>The admin 5 runs the treasury at address 9, whose multisig is 3; token 7 is a plain ledger.\<close>

definition tdemo_env :: "u64 \<Rightarrow> env" where
  "tdemo_env t = \<lparr>timestamp = t, sequence = 1, this_contract = 9, authorized = (\<lambda>a. a = 5 \<or> a = 3), authorized_args = (\<lambda>_ _. False)\<rparr>"

definition tdemo_world :: "address \<Rightarrow> address \<Rightarrow> int" where
  "tdemo_world t x = (if x = 5 then 1000 else if x = 9 then 500 else 0)"

definition tdemo_clients :: "(address \<Rightarrow> address \<Rightarrow> int) treasury_clients" where
  "tdemo_clients = \<lparr>tc_check_transfer = (\<lambda>_ _ _ _ _ w. Some w), tc_consume = (\<lambda>_ _ _ _ _. None), tc_lookup = (\<lambda>_ _ _ _. TryInvoke)\<rparr>"

definition tdemo_key :: "address \<Rightarrow> string" where
  "tdemo_key a = ''G''"

definition tdemo_treasury :: treasury where
  "tdemo_treasury = \<lparr>tr_org = ''org'', tr_admin = 5, tr_multisig = Some 3, tr_policy = None, tr_budget = None, tr_state = Active,
     tr_registry = None, tr_guardian = 5, tr_paused = False, tr_paused_at = 0\<rparr>"

text \<open>100 units of the whitelisted token booked; withdrawals of 50 or more wait a day.\<close>

definition tdemo_state :: "treasury_event list \<Rightarrow> treasury_state" where
  "tdemo_state es = treasury_empty\<lparr>ts_treasury := Some tdemo_treasury, ts_approved := [7 \<mapsto> True], ts_approved_count := Some 1,
     ts_approved_list := Some [7], ts_lock := Some False, ts_asset_balance := [7 \<mapsto> 100],
     ts_holdings := [7 \<mapsto> \<lparr>ho_asset = 7, ho_total_in = 100, ho_total_out = 0, ho_budget_id = None\<rparr>],
     ts_time_lock := Some \<lparr>tl_delay = 86400, tl_threshold = 50\<rparr>, ts_events := es\<rparr>"

abbreviation tdemo_step :: "treasury_state \<times> (address \<Rightarrow> address \<Rightarrow> int) \<Rightarrow> treasury_state \<times> (address \<Rightarrow> address \<Rightarrow> int) \<Rightarrow> bool" where
  "tdemo_step \<equiv> tr_step tdemo_key ledger_token tdemo_clients (\<lambda>w. w) 9"

abbreviation tdemo_reach :: "treasury_state \<times> (address \<Rightarrow> address \<Rightarrow> int) \<Rightarrow> bool" where
  "tdemo_reach \<equiv> reach (deployed_treasury (\<lambda>w. w) 9 (\<lambda>_. 500)) tdemo_step"

lemma tdemo_laws: "custody_laws ledger_token (\<lambda>w. w) 9" "treasury_clients_keep tdemo_clients (\<lambda>w. w) 9"
  by (rule token_laws_custody [OF ledger_token_laws]) (simp add: treasury_clients_keep_def tdemo_clients_def)

lemma tdemo_env_sel [simp]:
  "timestamp (tdemo_env t) = t" "this_contract (tdemo_env t) = 9" "authorized (tdemo_env t) a \<longleftrightarrow> a = 5 \<or> a = 3"
  by (simp_all add: tdemo_env_def)

lemma tdemo_sel [simp]:
  "tr_is_contract_address tdemo_key a = False" "direct_balance ledger_token w t x = Ok (w t x)"
  "0 \<le> n \<Longrightarrow> n \<le> w t f \<Longrightarrow> token_transfer ledger_token w t f r n = Ok (moved w t f r n)"
  by (simp_all add: tr_is_contract_address_def tdemo_key_def direct_balance_def ledger_token_def token_transfer_def)

lemma tdemo_balances [simp]:
  "tdemo_world 7 5 = 1000" "tdemo_world 7 9 = 500" "moved tdemo_world 7 5 9 100 7 9 = 600" "moved tdemo_world 7 5 9 100 7 2 = 0"
  by (simp_all add: tdemo_world_def moved_def)

lemma tdemo_call: "tdemo_reach s \<Longrightarrow> tr_call tdemo_key ledger_token tdemo_clients (tdemo_env t) s s' \<Longrightarrow> tdemo_reach s'"
  by (erule reach_step) (auto intro: call_step)

lemmas tdemo_simps = tr_load_def tr_require_admin_def require_auth_def tr_store_def ts_emit_def tdemo_treasury_def
  require_approved_asset_def is_asset_approved_def require_verified_caller_def tr_require_active_def tr_lock_def tr_unlock_def
  load_holding_def store_holding_def store_asset_balance_def require_not_paused_def pause_is_active_def tr_check_frozen_def
  load_time_lock_def tl_applies_def ok_or_def checked_add_def checked_sub_def safe_add_def safe_sub_def in_i128_def int_limits
  require_positive_amount_def treasury_empty_def

definition tdemo_funded :: "treasury_event list \<Rightarrow> treasury_state" where
  "tdemo_funded es = (tdemo_state es)\<lparr>ts_time_lock := None\<rparr>"

lemma tdemo_setup:
  "\<exists>es. tr_initialize (tdemo_env 0) ''org'' 5 treasury_empty =
     Ok ((), treasury_empty\<lparr>ts_treasury := Some (tdemo_treasury\<lparr>tr_multisig := None\<rparr>), ts_events := es\<rparr>)"
  "\<exists>es'. tr_set_multisig (tdemo_env 0) 5 3 (treasury_empty\<lparr>ts_treasury := Some (tdemo_treasury\<lparr>tr_multisig := None\<rparr>), ts_events := es\<rparr>) =
     Ok ((), treasury_empty\<lparr>ts_treasury := Some tdemo_treasury, ts_events := es'\<rparr>)"
  "\<exists>es'. add_approved_asset (tdemo_env 0) 5 7 (treasury_empty\<lparr>ts_treasury := Some tdemo_treasury, ts_events := es\<rparr>) =
     Ok ((), treasury_empty\<lparr>ts_treasury := Some tdemo_treasury, ts_approved := [7 \<mapsto> True], ts_approved_count := Some 1,
       ts_approved_list := Some [7], ts_events := es'\<rparr>)"
  by (simp_all add: tr_initialize_def tr_set_multisig_def add_approved_asset_def approved_list_def approved_count_def
      store_approved_list_def store_approved_count_def emit_asset_change_def MAX_TREASURY_ASSETS_def as_u32_def
      require_non_empty_def Let_def tdemo_simps)

lemma tdemo_deposit:
  "\<exists>es'. tr_deposit tdemo_key ledger_token tdemo_clients (tdemo_env 0) 5 7 100
     (treasury_empty\<lparr>ts_treasury := Some tdemo_treasury, ts_approved := [7 \<mapsto> True], ts_approved_count := Some 1,
       ts_approved_list := Some [7], ts_events := es\<rparr>, tdemo_world) = Ok ((), tdemo_funded es', moved tdemo_world 7 5 9 100)"
  by (simp add: tr_deposit_def tdemo_funded_def tdemo_state_def Let_def tdemo_simps)

lemma tdemo_delays: "MIN_TIMELOCK_DELAY = 86400" "MAX_TIMELOCK_DELAY = 2592000" "GOVERNANCE_GRACE_PERIOD = 604800"
  by (simp_all add: limit_defs)

lemma tdemo_set_lock:
  "\<exists>es'. set_withdrawal_time_lock (tdemo_env 0) 5 86400 50 (tdemo_funded es) = Ok ((), tdemo_state es')"
  by (simp add: set_withdrawal_time_lock_def tdemo_funded_def tdemo_state_def tdemo_delays tdemo_simps)

lemma tdemo_start: "\<exists>es. tdemo_reach (tdemo_state es, moved tdemo_world 7 5 9 100)"
proof -
  have r: "tdemo_reach (treasury_empty, tdemo_world)"
    by (rule reach_init) (simp add: deployed_treasury_def tdemo_world_def)
  obtain e1 where e1: "tr_initialize (tdemo_env 0) ''org'' 5 treasury_empty =
      Ok ((), treasury_empty\<lparr>ts_treasury := Some (tdemo_treasury\<lparr>tr_multisig := None\<rparr>), ts_events := e1\<rparr>)"
    using tdemo_setup(1) ..
  note r = tdemo_call [OF r c_initialize [OF e1]]
  obtain e2 where "tr_set_multisig (tdemo_env 0) 5 3 (treasury_empty\<lparr>ts_treasury := Some (tdemo_treasury\<lparr>tr_multisig := None\<rparr>), ts_events := e1\<rparr>) =
      Ok ((), treasury_empty\<lparr>ts_treasury := Some tdemo_treasury, ts_events := e2\<rparr>)" using tdemo_setup(2) ..
  note r = tdemo_call [OF r c_set_multisig [OF this]]
  obtain e3 where "add_approved_asset (tdemo_env 0) 5 7 (treasury_empty\<lparr>ts_treasury := Some tdemo_treasury, ts_events := e2\<rparr>) =
      Ok ((), treasury_empty\<lparr>ts_treasury := Some tdemo_treasury, ts_approved := [7 \<mapsto> True], ts_approved_count := Some 1,
       ts_approved_list := Some [7], ts_events := e3\<rparr>)" using tdemo_setup(3) ..
  note r = tdemo_call [OF r c_add_asset [OF this]]
  obtain e4 where "tr_deposit tdemo_key ledger_token tdemo_clients (tdemo_env 0) 5 7 100
     (treasury_empty\<lparr>ts_treasury := Some tdemo_treasury, ts_approved := [7 \<mapsto> True], ts_approved_count := Some 1,
       ts_approved_list := Some [7], ts_events := e3\<rparr>, tdemo_world) = Ok ((), tdemo_funded e4, moved tdemo_world 7 5 9 100)"
    using tdemo_deposit ..
  note r = tdemo_call [OF r c_deposit [OF this]]
  obtain e5 where "set_withdrawal_time_lock (tdemo_env 0) 5 86400 50 (tdemo_funded e4) = Ok ((), tdemo_state e5)"
    using tdemo_set_lock ..
  from tdemo_call [OF r c_time_lock [OF this]] show ?thesis ..
qed

definition tdemo_queued :: "treasury_event list \<Rightarrow> treasury_state" where
  "tdemo_queued es = (tdemo_state es)\<lparr>ts_pending := [1 \<mapsto> \<lparr>pw_id = 1, pw_requester = 5, pw_asset = 7, pw_to = 2, pw_amount = 60,
     pw_payments = [], pw_requested_at = 0, pw_execute_after = 86400, pw_expires_at = 691200, pw_cancelled = False,
     pw_executed = False\<rparr>], ts_pending_count := Some 1\<rparr>"

lemma tdemo_queue:
  "\<exists>es'. queue_withdrawal tdemo_key tdemo_clients (tdemo_env 0) 5 7 2 60 (tdemo_state es, w) = Ok (1, tdemo_queued es')"
  by (simp add: queue_withdrawal_def open_pending_def tdemo_queued_def tdemo_state_def require_time_lock_applies_def Let_def
      safe_add_u64_def checked_add_word_def tdemo_delays tdemo_simps)

lemma tdemo_settle:
  assumes "ts_lock st = Some False" "ts_holdings st = ts_holdings (tdemo_state [])" "ts_allowances st = Map.empty"
    and "w 7 9 = 600" "this_contract env = 9"
  shows "\<exists>st'. settle_withdrawal ledger_token tdemo_clients env tdemo_treasury 5 7 2 60 (st, w) = Ok ((), st', moved w 7 9 2 60)"
  using assms by (auto simp: settle_withdrawal_def transfer_out_def policy_gate_def budget_gate_def spend_allowance_def debit_holding_def
      tdemo_state_def Let_def moved_def tdemo_simps)

lemma tdemo_execute:
  assumes "w 7 9 = 600"
  shows "\<exists>st'. execute_withdrawal tdemo_key ledger_token tdemo_clients (tdemo_env 86400) 5 1 (tdemo_queued es, w) =
     Ok ((), st', moved w 7 9 2 60)"
proof -
  let ?p = "the (ts_pending (tdemo_queued es) 1)"
  let ?s = "(tdemo_queued es)\<lparr>ts_pending := (ts_pending (tdemo_queued es))(1 \<mapsto> ?p\<lparr>pw_executed := True\<rparr>)\<rparr>"
  obtain st' where "settle_withdrawal ledger_token tdemo_clients (tdemo_env 86400) tdemo_treasury 5 7 2 60 (?s, w) = Ok ((), st', moved w 7 9 2 60)"
    using tdemo_settle [of ?s w "tdemo_env 86400"] assms by (auto simp: tdemo_queued_def tdemo_state_def treasury_empty_def)
  then show ?thesis
    by (simp add: execute_withdrawal_def require_not_paused_def tr_check_frozen_def tr_require_admin_def tr_load_def require_auth_def
        tr_require_active_def is_pending_def require_time_reached_def require_approved_asset_def is_asset_approved_def
        require_verified_caller_def pause_is_active_def Let_def tdemo_queued_def tdemo_state_def treasury_empty_def
        tdemo_treasury_def ts_emit_def ok_or_def)
qed

text \<open>The same treasury frozen by its multisig, and with a schedule of one milestone.\<close>

definition tdemo_frozen :: "treasury_event list \<Rightarrow> treasury_state" where
  "tdemo_frozen es = (tdemo_state es)\<lparr>ts_frozen := Some True\<rparr>"

definition tdemo_milestone :: milestone_disbursement where
  "tdemo_milestone = \<lparr>md_total_amount = 60, md_milestones = 1, md_disbursed = 0, md_amount_per_milestone = 60, md_asset = 7, md_to = 2\<rparr>"

definition tdemo_scheduled :: "treasury_event list \<Rightarrow> treasury_state" where
  "tdemo_scheduled es = (tdemo_frozen es)\<lparr>ts_milestones := [1 \<mapsto> tdemo_milestone], ts_milestone_count := Some 1\<rparr>"

lemma tdemo_freeze: "\<exists>es'. tr_freeze (tdemo_env 0) 3 (tdemo_state es) = Ok ((), tdemo_frozen es')"
  by (simp add: tr_freeze_def require_multisig_def tdemo_frozen_def tdemo_state_def tdemo_simps)

lemma tdemo_schedule: "\<exists>es'. init_milestone_disbursement (tdemo_env 0) 5 7 2 60 1 (tdemo_frozen es) = Ok (1, tdemo_scheduled es')"
  by (simp add: init_milestone_disbursement_def tdemo_scheduled_def tdemo_milestone_def tdemo_frozen_def tdemo_state_def
      checked_div_def safe_div_def sdiv_nonneg checked_add_word_def Let_def tdemo_simps)

lemma tdemo_release:
  assumes "w 7 9 = 600"
  shows "\<exists>st'. release_next_milestone tdemo_key ledger_token tdemo_clients (tdemo_env 0) 5 1 (tdemo_scheduled es, w) =
     Ok ((), st', moved w 7 9 2 60)"
  using assms by (simp add: release_next_milestone_def tdemo_scheduled_def tdemo_milestone_def tdemo_frozen_def tdemo_state_def
      checked_mul_def safe_mul_def checked_add_word_def budget_gate_def debit_holding_def transfer_out_def moved_def Let_def tdemo_simps)

lemma tdemo_frozen_reach: "\<exists>es. tdemo_reach (tdemo_frozen es, moved tdemo_world 7 5 9 100)"
proof -
  obtain es where r: "tdemo_reach (tdemo_state es, moved tdemo_world 7 5 9 100)" using tdemo_start ..
  obtain e1 where "tr_freeze (tdemo_env 0) 3 (tdemo_state es) = Ok ((), tdemo_frozen e1)" using tdemo_freeze ..
  from tdemo_call [OF r c_freeze [OF this]] show ?thesis ..
qed

lemma tdemo_scheduled_reach: "\<exists>es. tdemo_reach (tdemo_scheduled es, moved tdemo_world 7 5 9 100)"
proof -
  obtain es where r: "tdemo_reach (tdemo_frozen es, moved tdemo_world 7 5 9 100)" using tdemo_frozen_reach ..
  obtain e1 where "init_milestone_disbursement (tdemo_env 0) 5 7 2 60 1 (tdemo_frozen es) = Ok (1, tdemo_scheduled e1)"
    using tdemo_schedule ..
  from tdemo_call [OF r c_init_milestones [OF this]] show ?thesis ..
qed

text \<open>A queued batch of 150 units, more than the books hold.\<close>

definition tdemo_legs :: "payment list" where
  "tdemo_legs = [\<lparr>recipient = 2, pay_amount = 90\<rparr>, \<lparr>recipient = 4, pay_amount = 60\<rparr>]"

definition tdemo_batch :: "treasury_event list \<Rightarrow> treasury_state" where
  "tdemo_batch es = (tdemo_state es)\<lparr>ts_pending := [1 \<mapsto> \<lparr>pw_id = 1, pw_requester = 5, pw_asset = 7, pw_to = 2, pw_amount = 150,
     pw_payments = tdemo_legs, pw_requested_at = 0, pw_execute_after = 86400, pw_expires_at = 691200, pw_cancelled = False,
     pw_executed = False\<rparr>], ts_pending_count := Some 1\<rparr>"

lemma tdemo_queue_batch:
  "\<exists>es'. queue_batch_transfer tdemo_key tdemo_clients (tdemo_env 0) 5 7 tdemo_legs (tdemo_state es, w) = Ok (1, tdemo_batch es')"
  by (simp add: queue_batch_transfer_def open_pending_def tdemo_batch_def tdemo_state_def tdemo_legs_def require_time_lock_applies_def
      Let_def safe_add_u64_def checked_add_word_def tdemo_delays MAX_BATCH_PAYMENTS_def tdemo_simps)

lemma tdemo_execute_batch:
  assumes "w 7 9 = 600"
  shows "\<exists>st'. execute_withdrawal tdemo_key ledger_token tdemo_clients (tdemo_env 86400) 5 1 (tdemo_batch es, w) =
     Ok ((), st', moved (moved w 7 9 2 90) 7 9 4 60)"
  using assms by (simp add: execute_withdrawal_def settle_batch_def tdemo_batch_def tdemo_state_def tdemo_legs_def is_pending_def
      require_time_reached_def policy_gate_def budget_gate_def debit_holding_def moved_def Let_def tdemo_simps)

lemma tdemo_refuses_batch:
  "batch_transfer tdemo_key ledger_token tdemo_clients (tdemo_env 0) 5 7 tdemo_legs (tdemo_state es, w) = Err InsufficientFunds"
  by (simp add: batch_transfer_def tdemo_state_def tdemo_legs_def MAX_BATCH_PAYMENTS_def Let_def tdemo_simps)

section \<open>Properties\<close>

text \<open>C4. The treasury's books are always backed. After any run from empty storage, by any callers, with any
  interleaving of entrypoints and of outside activity that takes nothing out of the treasury, and whatever the
  tokens charge on a transfer, the treasury holds of every asset at least what its holding records on top of
  what it had at deployment; and the stored balance of the asset is the recorded one.\<close>

theorem treasury_fully_backed:
  assumes "reach (deployed_treasury bal self base) (tr_step strkey tk cl bal self) (st, w)"
    and "custody_laws tk bal self" and "treasury_clients_keep cl bal self"
  shows "base a + ho_total_in (tr_holding st a) \<le> bal w a self \<and>
     (case ts_asset_balance st a of Some b \<Rightarrow> b | None \<Rightarrow> 0) = ho_total_in (tr_holding st a)"
  using treasury_reach_wf [OF assms]
  by (simp add: tr_holding_def backed_def tr_wf_def books_wf_def recorded_def unwrap_or_def)

theorem treasury_fully_backed_witness:
  "\<exists>st w. tdemo_reach (st, w) \<and> ho_total_in (tr_holding st 7) = 100 \<and> 600 \<le> w 7 9"
proof -
  obtain es where r: "tdemo_reach (tdemo_state es, moved tdemo_world 7 5 9 100)" using tdemo_start ..
  have "ho_total_in (tr_holding (tdemo_state es) 7) = 100" by (simp add: tr_holding_def load_holding_def tdemo_state_def)
  with treasury_fully_backed [OF r tdemo_laws, of 7] r show ?thesis by fastforce
qed

text \<open>C26. The storage stays consistent over any run: the whitelist has no duplicates, at most 32 entries, the
  stored count is its length and the per-asset flags agree with it; no allowance is spent past its limit; a
  time-lock in force delays by one to thirty days; every request has a number the counter has reached, is
  payable for a week starting at least a day after it was made, and is never both executed and cancelled;
  no schedule has paid more milestones than it has.\<close>

theorem treasury_storage_well_formed:
  assumes "reach (deployed_treasury bal self base) (tr_step strkey tk cl bal self) (st, w)"
    and "custody_laws tk bal self" and "treasury_clients_keep cl bal self"
  shows "distinct (approved_assets st) \<and> approved_asset_count st = length (approved_assets st) \<and>
     length (approved_assets st) \<le> 32 \<and> (\<forall>a. is_approved_asset st a \<longleftrightarrow> a \<in> set (approved_assets st)) \<and>
     (\<forall>g r a. case tr_allowance st g r a of Ok al \<Rightarrow> 0 \<le> aw_spent al \<and> aw_spent al \<le> aw_limit al | _ \<Rightarrow> True) \<and>
     (tl_delay (withdrawal_time_lock_view st) = 0 \<or> 86400 \<le> tl_delay (withdrawal_time_lock_view st) \<and>
        tl_delay (withdrawal_time_lock_view st) \<le> 30 * 86400) \<and>
     (\<forall>i. case pending_withdrawal_view st i of
        Ok p \<Rightarrow> i \<le> pending_withdrawal_count st \<and> pw_id p = i \<and> 0 < pw_amount p \<and> \<not> (pw_cancelled p \<and> pw_executed p) \<and>
          pw_requested_at p + 86400 \<le> pw_execute_after p \<and> pw_expires_at p = pw_execute_after p + 7 * 86400
      | _ \<Rightarrow> True) \<and>
     (\<forall>i. case ts_milestones st i of Some d \<Rightarrow> md_disbursed d \<le> md_milestones d \<and> 0 < md_milestones d | None \<Rightarrow> True)"
proof -
  have wf: "whitelist_wf st" "allowance_wf st" "queue_wf st" "schedules_wf st"
    using treasury_reach_wf [OF assms] by (simp_all add: tr_wf_def)
  show ?thesis
  proof (intro conjI allI)
    show "tl_delay (withdrawal_time_lock_view st) = 0 \<or> 86400 \<le> tl_delay (withdrawal_time_lock_view st) \<and>
        tl_delay (withdrawal_time_lock_view st) \<le> 30 * 86400"
      using wf(3) by (auto simp: queue_wf_def tl_wf_def withdrawal_time_lock_view_def limit_defs)
    show "case tr_allowance st g r a of Ok al \<Rightarrow> 0 \<le> aw_spent al \<and> aw_spent al \<le> aw_limit al | _ \<Rightarrow> True" for g r a
      using wf(2) by (auto simp: tr_allowance_def allowance_wf_def ok_or_def split: option.split)
    show "case pending_withdrawal_view st i of
        Ok p \<Rightarrow> i \<le> pending_withdrawal_count st \<and> pw_id p = i \<and> 0 < pw_amount p \<and> \<not> (pw_cancelled p \<and> pw_executed p) \<and>
          pw_requested_at p + 86400 \<le> pw_execute_after p \<and> pw_expires_at p = pw_execute_after p + 7 * 86400
      | _ \<Rightarrow> True" for i
      using wf(3) by (auto simp: pending_withdrawal_view_def queue_wf_def pw_wf_def limit_defs ok_or_def split: option.split)
    show "case ts_milestones st i of Some d \<Rightarrow> md_disbursed d \<le> md_milestones d \<and> 0 < md_milestones d | None \<Rightarrow> True" for i
      using wf(4) by (auto simp: schedules_wf_def md_wf_def split: option.split)
  qed (use wf(1) in \<open>simp_all add: whitelist_wf_def approved_assets_def approved_asset_count_def is_approved_asset_def
      MAX_TREASURY_ASSETS_def\<close>)
qed

theorem treasury_storage_well_formed_witness:
  "\<exists>st w. tdemo_reach (st, w) \<and> approved_assets st = [7] \<and> approved_asset_count st = 1 \<and> is_approved_asset st 7"
proof -
  obtain es where r: "tdemo_reach (tdemo_state es, moved tdemo_world 7 5 9 100)" using tdemo_start ..
  have "approved_assets (tdemo_state es) = [7]" by (simp add: approved_assets_def approved_list_def tdemo_state_def)
  with treasury_storage_well_formed [OF r tdemo_laws] r show ?thesis
    by (intro exI [of _ "tdemo_state es"] exI [of _ "moved tdemo_world 7 5 9 100"]) simp
qed

text \<open>C5. The time-lock holds. A withdrawal queued at some moment in a reachable state can be executed only
  after the delay then in force (at least a day) and within a week of the end of that delay, whatever happens in between; it
  is debited once and pays exactly what was queued: once the policy and the budget let it pass, the token is called
  to move the queued amount of the queued asset from the treasury to the queued recipient, and custody falls by that
  amount; and once executed it is never executed again.\<close>

theorem timelock_enforced:
  assumes "reach (deployed_treasury bal self base) (tr_step strkey tk cl bal self) (st0, w0)"
    and "custody_laws tk bal self" and "treasury_clients_keep cl bal self"
    and "queue_withdrawal strkey cl env0 c a r n (st0, w0) = Ok (i, st1)" and "this_contract env0 = self"
    and "(tr_step strkey tk cl bal self)\<^sup>*\<^sup>* (st1, w0) (st2, w2)"
    and "execute_withdrawal strkey tk cl env c' i (st2, w2) = Ok (u, st3, w3)" and "this_contract env = self"
    and "(tr_step strkey tk cl bal self)\<^sup>*\<^sup>* (st3, w3) (st4, w4)"
  shows "let due = timestamp env0 + tl_delay (withdrawal_time_lock_view st0) in
     timestamp env0 + 86400 \<le> due \<and> due \<le> timestamp env \<and> timestamp env < due + 7 * 86400 \<and>
     ho_total_in (tr_holding st3 a) = ho_total_in (tr_holding st2 a) - n \<and>
     bal w2 a self - n \<le> bal w3 a self \<and>
     (\<exists>wg. (\<forall>s. bal w2 s self \<le> bal wg s self) \<and> tk_transfer tk wg a self r n = TryOk w3 \<and>
        bal w3 a self = bal wg a self - n) \<and>
     execute_withdrawal strkey tk cl env' c'' i (st4, w4) \<noteq> Ok x"
proof -
  note laws = assms(2,3)
  have wf0: "tr_wf st0" using treasury_reach_wf(1) [OF assms(1) laws] .
  from queue_withdrawal_Ok [OF assms(4)] obtain p where p: "queued env0 st0 i p" "pw_asset p = a" "pw_amount p = n"
    "ts_pending st1 i = Some p" and leg: "pw_payments p = []" "pw_to p = r" by metis
  have r1: "reach (deployed_treasury bal self base) (tr_step strkey tk cl bal self) (st1, w0)"
    by (rule reach_step [OF assms(1)], rule call_step [OF c_queue [OF assms(4)] assms(5)])
  have wf1: "tr_wf st1 \<and> backed bal self base (st1, w0)" using treasury_reach_wf [OF r1 laws] by blast
  have wf2: "tr_wf st2" "backed bal self base (st2, w2)"
    using treasury_sys.steps_inv [OF assms(6), of base] wf1 laws by (simp_all add: tr_custody_def)
  obtain q where q: "ts_pending st2 i = Some q" "pw_moves p q"
    using steps_pending [OF assms(6) _ laws, of base i p] wf1 p(4) by auto
  note m = pw_moves_D [OF q(2)]
  note paid = execute_withdrawal_paid [OF assms(7) laws assms(8) q(1)]
  have v: "pw_value q = n" "pw_asset q = a" using p m by (simp_all add: queued_def)
  have pay: "\<exists>wg. (\<forall>s. bal w2 s self \<le> bal wg s self) \<and> tk_transfer tk wg a self r n = TryOk w3 \<and> bal w3 a self = bal wg a self - n"
    using execute_single_pays [OF assms(7) laws assms(8) q(1)] leg m p(2,3) by simp
  have s3: "tr_step strkey tk cl bal self (st2, w2) (st3, w3)" by (rule call_step [OF c_execute [OF assms(7)] assms(8)])
  have wf3: "tr_wf st3" "backed bal self base (st3, w3)" using tr_step_wf [OF s3 laws, of base] wf2 by simp_all
  have pend: "ts_pending st3 i = Some (q\<lparr>pw_executed := True\<rparr>)" "\<not> is_pending (q\<lparr>pw_executed := True\<rparr>)"
    using paid(2) by (simp_all add: is_pending_def)
  have x: "execute_withdrawal strkey tk cl env' c'' i (st4, w4) \<noteq> Ok x"
    by (rule closed_stays_closed [OF assms(9) wf3 laws pend])
  have b: "booked st2 st3 a (total_in st2 a - n) (total_out st2 a + n)" "bal w2 a self - n \<le> bal w3 a self"
    using paid(1) v by (auto simp: paid_def custody_out_def dest: spec [of _ a])
  have t: "pw_execute_after q = timestamp env0 + tl_delay (load_time_lock st0)" "pw_expires_at q = pw_execute_after q + 7 * 86400"
    using p(1) m by (simp_all add: queued_def limit_defs)
  have d: "86400 \<le> tl_delay (load_time_lock st0)"
    using wf0 p(1) by (auto simp: tr_wf_def queue_wf_def tl_wf_def queued_def tl_applies_def limit_defs)
  show ?thesis using d t b(2) x pay execute_needs_pending [OF assms(7) q(1)] booked_totals(1) [OF b(1), of a]
    by (simp add: withdrawal_time_lock_view_def tr_holding_def Let_def)
qed

theorem timelock_enforced_witness:
  "\<exists>st0 w0 st1 st3. tdemo_reach (st0, w0) \<and>
     queue_withdrawal tdemo_key tdemo_clients (tdemo_env 0) 5 7 2 60 (st0, w0) = Ok (1, st1) \<and>
     execute_withdrawal tdemo_key ledger_token tdemo_clients (tdemo_env 86400) 5 1 (st1, w0) = Ok ((), st3, moved w0 7 9 2 60) \<and>
     ho_total_in (tr_holding st3 7) = 40 \<and>
     (\<exists>wg. tk_transfer ledger_token wg 7 9 2 60 = TryOk (moved w0 7 9 2 60)) \<and>
     execute_withdrawal tdemo_key ledger_token tdemo_clients (tdemo_env 90000) 5 1 (st3, moved w0 7 9 2 60) \<noteq> Ok ((), st3, w0)"
proof -
  let ?w = "moved tdemo_world 7 5 9 100"
  obtain es where r: "tdemo_reach (tdemo_state es, ?w)" using tdemo_start ..
  obtain es' where q: "queue_withdrawal tdemo_key tdemo_clients (tdemo_env 0) 5 7 2 60 (tdemo_state es, ?w) = Ok (1, tdemo_queued es')"
    using tdemo_queue ..
  obtain st3 where e: "execute_withdrawal tdemo_key ledger_token tdemo_clients (tdemo_env 86400) 5 1 (tdemo_queued es', ?w) =
      Ok ((), st3, moved ?w 7 9 2 60)" using tdemo_execute [of ?w es'] by auto
  have "ho_total_in (tr_holding (tdemo_queued es') 7) = 100" by (simp add: tr_holding_def load_holding_def tdemo_queued_def tdemo_state_def)
  with timelock_enforced [OF r tdemo_laws q _ rtranclp.rtrancl_refl e _ rtranclp.rtrancl_refl,
      of "tdemo_env 90000" 5 "((), st3, ?w)"] r q e
  have "\<exists>wg. tk_transfer ledger_token wg 7 9 2 60 = TryOk (moved ?w 7 9 2 60)"
    "execute_withdrawal tdemo_key ledger_token tdemo_clients (tdemo_env 90000) 5 1 (st3, moved ?w 7 9 2 60) \<noteq> Ok ((), st3, ?w)"
    "ho_total_in (tr_holding st3 7) = 40" by (auto simp: Let_def)
  with r q e show ?thesis
    by - (rule exI [of _ "tdemo_state es"], rule exI [of _ ?w], rule exI [of _ "tdemo_queued es'"], rule exI [of _ st3], intro conjI)
qed

text \<open>C13. A pause stops every outflow. While it is in force no entrypoint takes anything out of the treasury or
  off its books, whoever calls: withdrawals, batches, queued requests and milestones included.\<close>

theorem pause_stops_outflows:
  assumes "tr_call strkey tk cl env (st, w) (st', w')" and "tr_is_paused env st" and "this_contract env = self"
    and "custody_laws tk bal self" and "treasury_clients_keep cl bal self"
  shows "bal w a self \<le> bal w' a self \<and> ho_total_in (tr_holding st a) \<le> ho_total_in (tr_holding st' a)"
proof -
  have "tr_effect bal self env (st, w) (st', w')" by (rule call_effect [OF assms(1,4,5,3)])
  then show ?thesis using assms(2) unfolding paused_iff
  proof cases
    case (e_deposit r b)
    then show ?thesis unfolding tr_holding_def booked_totals(1) [OF e_deposit(4)] by (cases "a = b") auto
  qed (auto simp: tr_holding_def kept_wf(2))
qed

theorem pause_stops_outflows_witness:
  "\<exists>st w st' w'. tr_call tdemo_key ledger_token tdemo_clients (tdemo_env 10) (st, w) (st', w') \<and> tr_is_paused (tdemo_env 10) st \<and>
     ho_total_in (tr_holding st 7) = 100 \<and> 100 \<le> ho_total_in (tr_holding st' 7)"
proof -
  let ?t = "tdemo_treasury\<lparr>tr_paused := True, tr_paused_at := 4\<rparr>"
  let ?s = "(tdemo_state [])\<lparr>ts_treasury := Some ?t\<rparr>"
  obtain st' where "tr_unpause (tdemo_env 10) 5 ?s = Ok ((), st')"
    by (simp add: tr_unpause_def require_guardian_def tdemo_state_def Let_def tdemo_simps)
  then have c: "tr_call tdemo_key ledger_token tdemo_clients (tdemo_env 10) (?s, tdemo_world) (st', tdemo_world)" by (rule c_unpause)
  have p: "tr_is_paused (tdemo_env 10) ?s"
    by (simp add: tr_is_paused_def tr_load_def ok_or_def pause_is_active_def tdemo_treasury_def sat_add_u64_def limit_defs int_limits)
  have h: "ho_total_in (tr_holding ?s 7) = 100" by (simp add: tr_holding_def load_holding_def tdemo_state_def)
  have "100 \<le> ho_total_in (tr_holding st' 7)"
    using pause_stops_outflows [OF c p _ tdemo_laws, of 7] unfolding h by simp
  with c p h show ?thesis by blast
qed

text \<open>The freeze of the multisig stops every outflow but one: if an entrypoint takes something out of a
  frozen treasury, it is the release of a milestone.\<close>

theorem freeze_leaves_only_milestones:
  assumes "tr_call strkey tk cl env (st, w) (st', w')" and "ts_frozen st = Some True" and "this_contract env = self"
    and "custody_laws tk bal self" and "treasury_clients_keep cl bal self" and "bal w' a self < bal w a self"
  shows "\<exists>c i u. release_next_milestone strkey tk cl env c i (st, w) = Ok (u, st', w')"
  using assms(1,4,3,6)
proof (cases rule: outflow_calls)
  case (withdraw c b r n)
  from tr_withdraw_parts [OF withdraw] assms(2) show ?thesis by metis
next
  case (batch c b ps)
  from batch_transfer_parts [OF batch] assms(2) show ?thesis by metis
next
  case (execute c i)
  from execute_withdrawal_parts [OF execute] assms(2) show ?thesis by metis
qed blast

theorem freeze_leaves_only_milestones_witness:
  "\<exists>st w st' w'. tr_call tdemo_key ledger_token tdemo_clients (tdemo_env 0) (st, w) (st', w') \<and> ts_frozen st = Some True \<and>
     w' 7 9 < w 7 9 \<and> (\<exists>c i u. release_next_milestone tdemo_key ledger_token tdemo_clients (tdemo_env 0) c i (st, w) = Ok (u, st', w'))"
proof -
  let ?w = "moved tdemo_world 7 5 9 100" and ?s = "tdemo_scheduled []"
  obtain st' where "release_next_milestone tdemo_key ledger_token tdemo_clients (tdemo_env 0) 5 1 (?s, ?w) = Ok ((), st', moved ?w 7 9 2 60)"
    using tdemo_release [of ?w] by auto
  then have c: "tr_call tdemo_key ledger_token tdemo_clients (tdemo_env 0) (?s, ?w) (st', moved ?w 7 9 2 60)" by (rule c_release)
  have f: "ts_frozen ?s = Some True" by (simp add: tdemo_scheduled_def tdemo_frozen_def)
  have b: "moved ?w 7 9 2 60 7 9 < ?w 7 9" by (simp add: moved_def)
  from freeze_leaves_only_milestones [OF c f _ tdemo_laws, of 7] b
  have "\<exists>c i u. release_next_milestone tdemo_key ledger_token tdemo_clients (tdemo_env 0) c i (?s, ?w) = Ok (u, st', moved ?w 7 9 2 60)"
    by simp
  with c f b show ?thesis by blast
qed

text \<open>A milestone schedule pays its total, no more and no less: each release of a reachable schedule takes the
  next positive payout off the books and counts it, and the payouts of all its milestones add up to the total.\<close>

theorem milestones_pay_the_total:
  assumes "reach (deployed_treasury bal self base) (tr_step strkey tk cl bal self) (st, w)"
    and "custody_laws tk bal self" and "treasury_clients_keep cl bal self" and "ts_milestones st i = Some d"
  shows "(\<Sum>k<md_milestones d. md_payout (d\<lparr>md_disbursed := k\<rparr>)) = md_total_amount d \<and>
     (\<forall>env c st' w'. this_contract env = self \<longrightarrow> release_next_milestone strkey tk cl env c i (st, w) = Ok ((), st', w') \<longrightarrow>
        0 < md_payout d \<and> md_disbursed d < md_milestones d \<and>
        ho_total_in (tr_holding st' (md_asset d)) = ho_total_in (tr_holding st (md_asset d)) - md_payout d \<and>
        ts_milestones st' i = Some (d\<lparr>md_disbursed := md_disbursed d + 1\<rparr>))"
proof -
  have d: "md_wf d" using treasury_reach_wf(1) [OF assms(1-3)] assms(4) by (simp add: tr_wf_def schedules_wf_def)
  have "0 < md_payout d \<and> md_disbursed d < md_milestones d \<and>
        ho_total_in (tr_holding st' (md_asset d)) = ho_total_in (tr_holding st (md_asset d)) - md_payout d \<and>
        ts_milestones st' i = Some (d\<lparr>md_disbursed := md_disbursed d + 1\<rparr>)"
    if "this_contract env = self" "release_next_milestone strkey tk cl env c i (st, w) = Ok ((), st', w')" for env c st' w'
  proof -
    note e = release_milestone_paid [OF that(2) assms(2,3) that(1) assms(4)]
    have "booked st st' (md_asset d) (total_in st (md_asset d) - md_payout d) (total_out st (md_asset d) + md_payout d)"
      using e(1) by (simp add: paid_def)
    from booked_totals(1) [OF this] show ?thesis using e(3,4) md_payout_pos [OF d e(4)] by (simp add: tr_holding_def)
  qed
  then show ?thesis using payouts_sum [OF d] by blast
qed

theorem milestones_pay_the_total_witness:
  "\<exists>st w st'. tdemo_reach (st, w) \<and> ts_milestones st 1 = Some tdemo_milestone \<and>
     release_next_milestone tdemo_key ledger_token tdemo_clients (tdemo_env 0) 5 1 (st, w) = Ok ((), st', moved w 7 9 2 60) \<and>
     ho_total_in (tr_holding st' 7) = 40"
proof -
  let ?w = "moved tdemo_world 7 5 9 100"
  obtain es where r: "tdemo_reach (tdemo_scheduled es, ?w)" using tdemo_scheduled_reach ..
  have d: "ts_milestones (tdemo_scheduled es) 1 = Some tdemo_milestone" by (simp add: tdemo_scheduled_def)
  obtain st' where e: "release_next_milestone tdemo_key ledger_token tdemo_clients (tdemo_env 0) 5 1 (tdemo_scheduled es, ?w) =
      Ok ((), st', moved ?w 7 9 2 60)" using tdemo_release [of ?w es] by auto
  have h: "ho_total_in (tr_holding (tdemo_scheduled es) 7) = 100" "md_asset tdemo_milestone = 7" "md_payout tdemo_milestone = 60"
    by (simp_all add: tr_holding_def load_holding_def tdemo_scheduled_def tdemo_frozen_def tdemo_state_def tdemo_milestone_def md_payout_def)
  have "ho_total_in (tr_holding st' 7) = 40"
    using milestones_pay_the_total [OF r tdemo_laws d, THEN conjunct2, rule_format, OF _ e] unfolding h by simp
  with r d e show ?thesis by blast
qed

text \<open>C27. The milestone path goes around the freeze and the time-lock. In a reachable frozen treasury whose
  time-lock covers an amount, no withdrawal of it passes; but the admin opens a schedule of one milestone for it and
  releases it in the same moment, and the recipient is paid.\<close>

theorem milestone_escapes_freeze_and_timelock:
  "\<exists>st w st1 st2. tdemo_reach (st, w) \<and> ts_frozen st = Some True \<and> tl_applies (withdrawal_time_lock_view st) 60 \<and>
     (\<forall>env c x. tr_withdraw tdemo_key ledger_token tdemo_clients env c 7 2 60 (st, w) \<noteq> Ok x) \<and>
     init_milestone_disbursement (tdemo_env 0) 5 7 2 60 1 st = Ok (1, st1) \<and>
     release_next_milestone tdemo_key ledger_token tdemo_clients (tdemo_env 0) 5 1 (st1, w) = Ok ((), st2, moved w 7 9 2 60)"
proof -
  let ?w = "moved tdemo_world 7 5 9 100"
  obtain es where r: "tdemo_reach (tdemo_frozen es, ?w)" using tdemo_frozen_reach ..
  obtain e1 where i: "init_milestone_disbursement (tdemo_env 0) 5 7 2 60 1 (tdemo_frozen es) = Ok (1, tdemo_scheduled e1)"
    using tdemo_schedule ..
  obtain st2 where e: "release_next_milestone tdemo_key ledger_token tdemo_clients (tdemo_env 0) 5 1 (tdemo_scheduled e1, ?w) =
      Ok ((), st2, moved ?w 7 9 2 60)" using tdemo_release [of ?w e1] by auto
  have f: "ts_frozen (tdemo_frozen es) = Some True" "tl_applies (withdrawal_time_lock_view (tdemo_frozen es)) 60"
    by (simp_all add: tdemo_frozen_def tdemo_state_def withdrawal_time_lock_view_def load_time_lock_def tl_applies_def)
  have "tr_withdraw tdemo_key ledger_token tdemo_clients env c 7 2 60 (tdemo_frozen es, ?w) \<noteq> Ok x" for env c x
    using f(1) by (cases x) (auto elim: tr_withdraw_parts)
  with r f i e show ?thesis by blast
qed

text \<open>C28. A queued batch is never compared with the holding it draws on. From a reachable treasury with 100 units
  of an asset on its books, the direct batch of legs worth 150 is refused for lack of funds, and no caller can get it
  through at any time; the same legs are queued, executed a day later, pay both recipients in full, and leave a
  reachable treasury whose recorded balance is -50 and which holds less than it had before its first deposit.\<close>

theorem queued_batch_overdraws:
  "\<exists>st0 w st1 st2 w2. tdemo_reach (st0, w) \<and> ho_total_in (tr_holding st0 7) = 100 \<and>
     (\<Sum>p\<leftarrow>tdemo_legs. pay_amount p) = 150 \<and>
     batch_transfer tdemo_key ledger_token tdemo_clients (tdemo_env 0) 5 7 tdemo_legs (st0, w) = Err InsufficientFunds \<and>
     (\<forall>env c x. batch_transfer tdemo_key ledger_token tdemo_clients env c 7 tdemo_legs (st0, w) \<noteq> Ok x) \<and>
     queue_batch_transfer tdemo_key tdemo_clients (tdemo_env 0) 5 7 tdemo_legs (st0, w) = Ok (1, st1) \<and>
     execute_withdrawal tdemo_key ledger_token tdemo_clients (tdemo_env 86400) 5 1 (st1, w) = Ok ((), st2, w2) \<and>
     tdemo_reach (st2, w2) \<and> ho_total_in (tr_holding st2 7) = -50 \<and> w2 7 2 = 90 \<and> w2 7 4 = 60 \<and> w2 7 9 = 450"
proof -
  let ?w = "moved tdemo_world 7 5 9 100"
  obtain es where r: "tdemo_reach (tdemo_state es, ?w)" using tdemo_start ..
  obtain e1 where q: "queue_batch_transfer tdemo_key tdemo_clients (tdemo_env 0) 5 7 tdemo_legs (tdemo_state es, ?w) = Ok (1, tdemo_batch e1)"
    using tdemo_queue_batch ..
  note r1 = tdemo_call [OF r c_queue_batch [OF q]]
  obtain st' where e: "execute_withdrawal tdemo_key ledger_token tdemo_clients (tdemo_env 86400) 5 1 (tdemo_batch e1, ?w) =
      Ok ((), st', moved (moved ?w 7 9 2 90) 7 9 4 60)"
    using tdemo_execute_batch [of ?w e1] by auto
  obtain p where p: "ts_pending (tdemo_batch e1) 1 = Some p" "pw_asset p = 7" "pw_value p = 150"
    by (simp add: tdemo_batch_def pw_value_def tdemo_legs_def)
  have h: "total_in (tdemo_batch e1) 7 = 100" "total_in (tdemo_state es) 7 = 100"
    by (simp_all add: load_holding_def tdemo_batch_def tdemo_state_def)
  have "booked (tdemo_batch e1) st' 7 (total_in (tdemo_batch e1) 7 - 150) (total_out (tdemo_batch e1) 7 + 150)"
    using execute_withdrawal_paid(1) [OF e tdemo_laws _ p(1)] p(2,3) by (simp add: paid_def)
  from booked_totals(1) [OF this, of 7] have b: "ho_total_in (tr_holding st' 7) = -50" unfolding h tr_holding_def by simp
  have l: "(\<Sum>p\<leftarrow>tdemo_legs. pay_amount p) = 150" by (simp add: tdemo_legs_def)
  have v: "validate_legs tdemo_legs 0 = Ok 150" by (simp add: tdemo_legs_def tdemo_simps)
  have no: "\<forall>env c x. batch_transfer tdemo_key ledger_token tdemo_clients env c 7 tdemo_legs (tdemo_state es, ?w) \<noteq> Ok x"
    using v h(2) by (auto elim!: batch_transfer_parts)
  have w: "moved (moved ?w 7 9 2 90) 7 9 4 60 7 2 = 90" "moved (moved ?w 7 9 2 90) 7 9 4 60 7 4 = 60"
    "moved (moved ?w 7 9 2 90) 7 9 4 60 7 9 = 450" by (simp_all add: moved_def tdemo_world_def)
  have "ho_total_in (tr_holding (tdemo_state es) 7) = 100" using h(2) by (simp add: tr_holding_def)
  with r l tdemo_refuses_batch [of es ?w] no q e tdemo_call [OF r1 c_execute [OF e]] b w show ?thesis
    by - (rule exI [of _ "tdemo_state es"], rule exI [of _ ?w], rule exI [of _ "tdemo_batch e1"], rule exI [of _ st'],
        rule exI [of _ "moved (moved ?w 7 9 2 90) 7 9 4 60"], intro conjI)
qed

text \<open>C12. A successful withdrawal is exact. The caller is the authorized admin of an active treasury that is neither
  paused nor frozen, the asset is whitelisted, the amount is positive, below the time-lock and covered by the books;
  the policy and the budget envelope have passed exactly this asset, recipient and amount; then exactly this
  amount of this asset is handed to the token for the recipient, leaves custody, and moves from the incoming
  to the outgoing total; no other holding changes.\<close>

theorem withdraw_exact:
  assumes "tr_withdraw strkey tk cl env c a r n (st, w) = Ok ((), st', w')"
    and "this_contract env = self" and "custody_laws tk bal self" and "treasury_clients_keep cl bal self"
  shows "\<exists>t w1 w2. tr_get st = Ok t \<and> tr_admin t = c \<and> authorized env c \<and> tr_state t = Active \<and> \<not> tr_is_paused env st \<and>
     ts_frozen st \<noteq> Some True \<and> is_approved_asset st a \<and> \<not> tl_applies (withdrawal_time_lock_view st) n \<and>
     0 < n \<and> n \<le> ho_total_in (tr_holding st a) \<and>
     (case tr_policy t of Some p \<Rightarrow> tc_check_transfer cl p ''active'' a r n w = Some w1 | None \<Rightarrow> w1 = w) \<and>
     (case (tr_budget t, ho_budget_id (tr_holding st a)) of
        (Some b, Some i) \<Rightarrow> \<exists>k. tc_consume cl b c i n w1 = Some (k, w2) | _ \<Rightarrow> w2 = w1) \<and>
     tk_transfer tk w2 a self r n = TryOk w' \<and> bal w' a self = bal w2 a self - n \<and>
     (\<forall>b. ho_total_in (tr_holding st' b) = ho_total_in (tr_holding st b) - (if b = a then n else 0) \<and>
          ho_total_out (tr_holding st' b) = ho_total_out (tr_holding st b) + (if b = a then n else 0))"
proof -
  from tr_withdraw_parts [OF assms(1)] obtain t where t: "ts_treasury st = Some t" "tr_admin t = c" "authorized env c" "tr_state t = Active"
    "\<not> pause_is_active t env" "ts_frozen st \<noteq> Some True" "is_asset_approved st a" "0 < n" "\<not> tl_applies (load_time_lock st) n"
    and s: "settle_withdrawal tk cl env t c a r n (st, w) = Ok ((), st', w')" by metis
  obtain w1 w2 where g: "policy_gate cl t a r n w = Ok w1" "budget_gate cl t (load_holding st a) c n w1 = Ok w2"
    "transfer_out tk env a r n w2 = Ok w'" "n \<le> total_in st a" by (rule settle_withdrawal_parts [OF s])
  note o = transfer_out_custody(3,4) [OF g(3) assms(3,2)]
  have b: "booked st st' a (total_in st a - n) (total_out st a + n)"
    using settle_withdrawal_paid(1) [OF s assms(3,4,2)] by (simp add: paid_def)
  have p: "case tr_policy t of Some p \<Rightarrow> tc_check_transfer cl p ''active'' a r n w = Some w1 | None \<Rightarrow> w1 = w"
    using g(1) by (auto simp: policy_gate_def ok_simps split: option.splits)
  have q: "case (tr_budget t, ho_budget_id (load_holding st a)) of
      (Some b, Some i) \<Rightarrow> \<exists>k. tc_consume cl b c i n w1 = Some (k, w2) | _ \<Rightarrow> w2 = w1"
    using g(2) by (auto simp: budget_gate_def ok_simps split: option.splits)
  have "tr_get st = Ok t" using t(1) by (simp add: tr_get_def ok_simps)
  moreover have "\<not> tr_is_paused env st" using t(1,5) by (simp add: paused_iff is_paused_def)
  ultimately show ?thesis using t(2-9) g(4) p q o
    unfolding tr_holding_def is_approved_asset_def withdrawal_time_lock_view_def booked_totals(1,2) [OF b]
    by (intro exI [of _ t] exI [of _ w1] exI [of _ w2]) simp
qed

theorem withdraw_exact_witness:
  "\<exists>es st'. tr_withdraw tdemo_key ledger_token tdemo_clients (tdemo_env 0) 5 7 2 60 (tdemo_funded es, moved tdemo_world 7 5 9 100) =
       Ok ((), st', moved (moved tdemo_world 7 5 9 100) 7 9 2 60) \<and>
     ho_total_in (tr_holding st' 7) = 40 \<and> ho_total_out (tr_holding st' 7) = 60"
proof -
  let ?w = "moved tdemo_world 7 5 9 100" and ?s = "tdemo_funded []"
  obtain st' where s: "settle_withdrawal ledger_token tdemo_clients (tdemo_env 0) tdemo_treasury 5 7 2 60 (?s, ?w) = Ok ((), st', moved ?w 7 9 2 60)"
    using tdemo_settle [of ?s ?w "tdemo_env 0"] by (auto simp: tdemo_funded_def tdemo_state_def treasury_empty_def)
  have "tr_withdraw tdemo_key ledger_token tdemo_clients (tdemo_env 0) 5 7 2 60 (?s, ?w) =
      settle_withdrawal ledger_token tdemo_clients (tdemo_env 0) tdemo_treasury 5 7 2 60 (?s, ?w)"
    by (simp add: tr_withdraw_def require_not_paused_def tr_check_frozen_def tr_require_admin_def tr_load_def require_auth_def
        tr_require_active_def require_approved_asset_def is_asset_approved_def require_verified_caller_def pause_is_active_def
        require_positive_amount_def require_not_time_locked_def load_time_lock_def tl_applies_def tl_disabled_def tdemo_funded_def
        tdemo_state_def treasury_empty_def tdemo_treasury_def ok_or_def)
  with s have e: "tr_withdraw tdemo_key ledger_token tdemo_clients (tdemo_env 0) 5 7 2 60 (?s, ?w) = Ok ((), st', moved ?w 7 9 2 60)" by simp
  have "ho_total_in (tr_holding ?s 7) = 100" "ho_total_out (tr_holding ?s 7) = 0"
    by (simp_all add: tr_holding_def load_holding_def tdemo_funded_def tdemo_state_def)
  with withdraw_exact [OF e _ tdemo_laws] e show ?thesis by (intro exI [of _ "[]"] exI [of _ st']) (simp, elim exE conjE, simp)
qed

end
