(* ===== verification/Registry.thy ===== *)
theory Registry
  imports Upgrade
begin

text \<open>
  The registry contract \<^verbatim>\<open>contracts/registry/src/lib.rs\<close>: organizations and their owners, module
  records with deprecation flags and version pins, delegated roles, the published versions with their
  bound hashes, approved hashes, upgrade proposals with their audit log, the freeze, the administrators,
  and the upgrade of the registry's own code. The string form of an address is a host function and a
  parameter here.
\<close>

section \<open>Records and storage\<close>

definition MAX_UPGRADE_SCAN :: u32 where "MAX_UPGRADE_SCAN = 64"

record upgrade_proposal =
  upr_version :: u32
  upr_wasm_hash :: bytes
  upr_address :: address
  upr_org :: string
  upr_proposer :: address
  upr_expires_at :: u64

datatype upgrade_action = UaProposed | UaCommitted | UaRejected

record upgrade_audit =
  ua_kind :: module_kind
  ua_version :: u32
  ua_wasm_hash :: bytes
  ua_org :: string
  ua_actor :: address
  ua_recorded_at :: u64

record upgrade_audit_record =
  uar_action :: upgrade_action
  uar_audit :: upgrade_audit

datatype registry_role = RrOwner | RrPolicyManager | RrTreasuryOperator | RrModuleUpgrader

fun may_manage :: "registry_role \<Rightarrow> module_kind \<Rightarrow> bool" where
  "may_manage RrOwner kind = True"
| "may_manage RrModuleUpgrader kind = True"
| "may_manage RrPolicyManager kind = (kind = KPolicy)"
| "may_manage RrTreasuryOperator kind = (kind = KTreasury \<or> kind = KBudget \<or> kind = KEscrow)"

record version_id =
  vi_kind :: module_kind
  vi_version :: u32

datatype bound_hash = Bound bytes | Unbound

record version_record =
  vr_address :: address
  vr_hash :: bound_hash

record upgrade_plan =
  pn_from_version :: u32
  pn_to_version :: u32
  pn_address :: address
  pn_hash :: bytes

record registry_upgrade_plan =
  rp_from_version :: u32
  rp_to_version :: u32
  rp_wasm_hash :: bytes

text \<open>One constructor per published topic, with its payload; the \<open>ContractEvent\<close> variants have the
  names of the source.\<close>

datatype registry_event =
    RvInit address
  | RvOrgRegister string address
  | RvOrgOwner string address
  | OrgOwnerChanged string address
  | RvModuleRegister string module_kind address
  | RegistryModuleUpdated string module_kind address
  | RvModuleDeprecate string module_kind
  | RvModuleRestore string module_kind
  | RvModuleRemove string module_kind
  | RvRoleGranted string address registry_role
  | RvRoleRevoked string address
  | RegistryVersionRegistered module_kind u32 address bytes
  | RvVersionRegister module_kind u32 address
  | RvVersionProposed module_kind u32 bytes
  | UpgradeProposed upgrade_audit
  | RvVersionCommitted module_kind u32 bytes address
  | UpgradeCommitted upgrade_audit address
  | RvVersionRejected module_kind u32 bytes
  | UpgradeRejected upgrade_audit
  | RegistryModuleUpgraded string module_kind u32 u32 address bytes
  | RvModuleUpgrade string module_kind u32
  | RvSetAdmin address
  | RvAdminAdded address
  | RvAdminRemoved address
  | RvMultisig address
  | RegistryFrozenEvent string bool
  | RvFrozen string
  | RvUnfrozen string
  | RvWasmApproved module_kind bytes
  | RvWasmRemoved module_kind bytes
  | RegistryUpgraded u32 u32 bytes

record registry_state =
  rg_admin :: "address option"
  rg_admins :: "address list option"
  rg_multisig :: "address option"
  rg_orgs :: "string \<Rightarrow> address option"
  rg_modules :: "string \<times> module_kind \<Rightarrow> address option"
  rg_deprecated :: "string \<times> module_kind \<Rightarrow> bool option"
  rg_module_version :: "string \<times> module_kind \<Rightarrow> u32 option"
  rg_org_role :: "string \<times> address \<Rightarrow> registry_role option"
  rg_version :: "module_kind \<times> u32 \<Rightarrow> address option"
  rg_version_record :: "module_kind \<times> u32 \<Rightarrow> version_record option"
  rg_latest_version :: "module_kind \<Rightarrow> u32 option"
  rg_frozen :: "bool option"
  rg_approved_wasm :: "module_kind \<times> bytes \<Rightarrow> bool option"
  rg_upgrade_proposal :: "module_kind \<Rightarrow> upgrade_proposal option"
  rg_audit_log :: "upgrade_audit_record list option"
  rg_registry_version :: "u32 option"
  rg_upgrade :: upgrade_state
  rg_events :: "registry_event list"

text \<open>A freshly deployed registry runs the deployed code and has no storage entry.\<close>

definition registry_empty :: "bytes \<Rightarrow> registry_state" where
  "registry_empty deployed =
     \<lparr>rg_admin = None, rg_admins = None, rg_multisig = None, rg_orgs = Map.empty, rg_modules = Map.empty,
      rg_deprecated = Map.empty, rg_module_version = Map.empty, rg_org_role = Map.empty,
      rg_version = Map.empty, rg_version_record = Map.empty, rg_latest_version = Map.empty,
      rg_frozen = None, rg_approved_wasm = Map.empty, rg_upgrade_proposal = Map.empty,
      rg_audit_log = None, rg_registry_version = None,
      rg_upgrade = \<lparr>authority = None, running_wasm = deployed, upgrade_events = []\<rparr>, rg_events = []\<rparr>"

definition rg_emit :: "registry_event list \<Rightarrow> registry_state \<Rightarrow> registry_state" where
  "rg_emit es st = st\<lparr>rg_events := rg_events st @ es\<rparr>"

section \<open>Guards and reads\<close>

definition is_contract_address :: "(address \<Rightarrow> string) \<Rightarrow> address \<Rightarrow> bool" where
  "is_contract_address strkey a =
     (let s = strkey a in if length s \<noteq> 56 then False else s ! 0 = CHR ''C'')"

definition check_frozen :: "registry_state \<Rightarrow> unit res" where
  "check_frozen st = (if unwrap_or (rg_frozen st) False then Err RegistryFrozen else Ok ())"

definition is_admin :: "registry_state \<Rightarrow> address \<Rightarrow> bool" where
  "is_admin st who =
     (if rg_admin st = Some who then True
      else if (case rg_admins st of Some admins \<Rightarrow> who \<in> set admins | None \<Rightarrow> False) then True
      else if rg_multisig st = Some who then True else False)"

definition rg_require_admin :: "env \<Rightarrow> address \<Rightarrow> registry_state \<Rightarrow> unit res" where
  "rg_require_admin env caller st =
     rbind (require_auth env caller) (\<lambda>_.
     if rg_admin st = None then Err NotInitialized
     else if \<not> is_admin st caller then Err Unauthorized else Ok ())"

definition require_root_owner :: "registry_state \<Rightarrow> address \<Rightarrow> string \<Rightarrow> address res" where
  "require_root_owner st caller org =
     rbind (ok_or (rg_orgs st org) NotFound) (\<lambda>owner.
     if owner \<noteq> caller \<and> \<not> is_admin st caller then Err Unauthorized else Ok owner)"

definition rg_effective_role :: "registry_state \<Rightarrow> string \<Rightarrow> address \<Rightarrow> registry_role option" where
  "rg_effective_role st org account =
     (if rg_orgs st org = Some account then Some RrOwner else rg_org_role st (org, account))"

definition require_module_permission :: "registry_state \<Rightarrow> address \<Rightarrow> string \<Rightarrow> module_kind \<Rightarrow> unit res" where
  "require_module_permission st caller org kind =
     (if rg_orgs st org = None then Err NotFound
      else if is_admin st caller then Ok ()
      else case rg_effective_role st org caller of
             Some role \<Rightarrow> if may_manage role kind then Ok () else Err Unauthorized
           | None \<Rightarrow> Err Unauthorized)"

definition read_version :: "registry_state \<Rightarrow> module_kind \<Rightarrow> u32 \<Rightarrow> version_record option" where
  "read_version st kind version =
     (case rg_version_record st (kind, version) of
        Some r \<Rightarrow> Some r
      | None \<Rightarrow> map_option (\<lambda>a. \<lparr>vr_address = a, vr_hash = Unbound\<rparr>) (rg_version st (kind, version)))"

definition is_wasm_approved :: "registry_state \<Rightarrow> module_kind \<Rightarrow> bytes \<Rightarrow> bool" where
  "is_wasm_approved st kind h = unwrap_or (rg_approved_wasm st (kind, h)) False"

definition clear_module_version :: "string \<Rightarrow> module_kind \<Rightarrow> registry_state \<Rightarrow> registry_state" where
  "clear_module_version org kind st =
     (if rg_module_version st (org, kind) \<noteq> None
      then st\<lparr>rg_module_version := (rg_module_version st)((org, kind) := None)\<rparr> else st)"

text \<open>The removal of a deprecation flag that the writes of a module record share.\<close>

definition clear_deprecation :: "string \<Rightarrow> module_kind \<Rightarrow> registry_state \<Rightarrow> registry_state" where
  "clear_deprecation org kind st =
     (if rg_deprecated st (org, kind) \<noteq> None
      then st\<lparr>rg_deprecated := (rg_deprecated st)((org, kind) := None)\<rparr> else st)"

definition upgrade_log :: "registry_state \<Rightarrow> upgrade_audit_record list" where
  "upgrade_log st = unwrap_or (rg_audit_log st) []"

text \<open>The loop drops the oldest entries until the limit is met.\<close>

function trim_log :: "upgrade_audit_record list \<Rightarrow> upgrade_audit_record list" where
  "trim_log log = (if length log > MAX_UPGRADE_AUDIT_ENTRIES then trim_log (butlast log) else log)"
  by pat_completeness auto
termination
  by (relation "measure length") (auto simp: MAX_UPGRADE_AUDIT_ENTRIES_def)

declare trim_log.simps [simp del]

definition append_audit :: "upgrade_action \<Rightarrow> upgrade_audit \<Rightarrow> registry_state \<Rightarrow> registry_state" where
  "append_audit action audit st =
     st\<lparr>rg_audit_log := Some (trim_log (\<lparr>uar_action = action, uar_audit = audit\<rparr> # upgrade_log st))\<rparr>"

definition pending_proposal :: "registry_state \<Rightarrow> module_kind \<Rightarrow> upgrade_proposal option" where
  "pending_proposal st kind = rg_upgrade_proposal st kind"

definition read_module :: "registry_state \<Rightarrow> string \<Rightarrow> module_kind \<Rightarrow> module_info option" where
  "read_module st org kind =
     (case rg_modules st (org, kind) of
        None \<Rightarrow> None
      | Some a \<Rightarrow> Some \<lparr>mi_address = a, mi_deprecated = unwrap_or (rg_deprecated st (org, kind)) False\<rparr>)"

section \<open>Organizations, modules and roles\<close>

definition rg_initialize :: "env \<Rightarrow> address \<Rightarrow> registry_state \<Rightarrow> (unit \<times> registry_state) res" where
  "rg_initialize env admin st =
     (if rg_admin st \<noteq> None then Err AlreadyInitialized
      else Ok ((), rg_emit [RvInit admin] (st\<lparr>rg_admin := Some admin, rg_admins := Some [admin]\<rparr>)))"

definition register_org :: "env \<Rightarrow> address \<Rightarrow> string \<Rightarrow> address \<Rightarrow> registry_state \<Rightarrow> (unit \<times> registry_state) res" where
  "register_org env caller org owner st =
     rbind (check_frozen st) (\<lambda>_.
     rbind (require_non_empty org) (\<lambda>_.
     rbind (rg_require_admin env caller st) (\<lambda>_.
     if rg_orgs st org \<noteq> None then Err AlreadyExists
     else Ok ((), rg_emit [RvOrgRegister org owner] (st\<lparr>rg_orgs := (rg_orgs st)(org \<mapsto> owner)\<rparr>)))))"

definition set_org_owner :: "env \<Rightarrow> address \<Rightarrow> string \<Rightarrow> address \<Rightarrow> registry_state \<Rightarrow> (unit \<times> registry_state) res" where
  "set_org_owner env caller org new_owner st =
     rbind (check_frozen st) (\<lambda>_.
     rbind (require_auth env caller) (\<lambda>_.
     rbind (ok_or (rg_orgs st org) NotFound) (\<lambda>current.
     if caller \<noteq> current \<and> \<not> is_admin st caller then Err Unauthorized
     else Ok ((), rg_emit [OrgOwnerChanged org new_owner, RvOrgOwner org new_owner]
            (st\<lparr>rg_orgs := (rg_orgs st)(org \<mapsto> new_owner)\<rparr>)))))"

definition register_module :: "env \<Rightarrow> address \<Rightarrow> string \<Rightarrow> module_kind \<Rightarrow> address \<Rightarrow> registry_state \<Rightarrow> (unit \<times> registry_state) res" where
  "register_module env caller org kind a st =
     rbind (check_frozen st) (\<lambda>_.
     rbind (require_auth env caller) (\<lambda>_.
     rbind (require_module_permission st caller org kind) (\<lambda>_.
     let st1 = st\<lparr>rg_modules := (rg_modules st)((org, kind) \<mapsto> a)\<rparr>;
         st2 = clear_deprecation org kind st1;
         st3 = clear_module_version org kind st2 in
     Ok ((), rg_emit [RegistryModuleUpdated org kind a, RvModuleRegister org kind a] st3))))"

definition deprecate_module :: "env \<Rightarrow> address \<Rightarrow> string \<Rightarrow> module_kind \<Rightarrow> registry_state \<Rightarrow> (unit \<times> registry_state) res" where
  "deprecate_module env caller org kind st =
     rbind (check_frozen st) (\<lambda>_.
     rbind (rg_require_admin env caller st) (\<lambda>_.
     if rg_modules st (org, kind) = None then Err NotFound
     else Ok ((), rg_emit [RvModuleDeprecate org kind]
            (st\<lparr>rg_deprecated := (rg_deprecated st)((org, kind) \<mapsto> True)\<rparr>))))"

definition reactivate_module :: "env \<Rightarrow> address \<Rightarrow> string \<Rightarrow> module_kind \<Rightarrow> registry_state \<Rightarrow> (unit \<times> registry_state) res" where
  "reactivate_module env caller org kind st =
     rbind (check_frozen st) (\<lambda>_.
     rbind (rg_require_admin env caller st) (\<lambda>_.
     if rg_modules st (org, kind) = None then Err NotFound
     else Ok ((), rg_emit [RvModuleRestore org kind]
            (st\<lparr>rg_deprecated := (rg_deprecated st)((org, kind) \<mapsto> False)\<rparr>))))"

definition is_module_deprecated :: "registry_state \<Rightarrow> string \<Rightarrow> module_kind \<Rightarrow> bool" where
  "is_module_deprecated st org kind = unwrap_or (rg_deprecated st (org, kind)) False"

definition get_module_address :: "registry_state \<Rightarrow> string \<Rightarrow> module_kind \<Rightarrow> address res" where
  "get_module_address st org kind = ok_or (rg_modules st (org, kind)) NotFound"

definition remove_module :: "env \<Rightarrow> address \<Rightarrow> string \<Rightarrow> module_kind \<Rightarrow> registry_state \<Rightarrow> (unit \<times> registry_state) res" where
  "remove_module env caller org kind st =
     rbind (check_frozen st) (\<lambda>_.
     rbind (require_auth env caller) (\<lambda>_.
     rbind (require_module_permission st caller org kind) (\<lambda>_.
     if rg_modules st (org, kind) = None then Err NotFound
     else let st1 = st\<lparr>rg_modules := (rg_modules st)((org, kind) := None)\<rparr>;
              st2 = clear_deprecation org kind st1;
              st3 = clear_module_version org kind st2 in
          Ok ((), rg_emit [RvModuleRemove org kind] st3))))"

definition rg_grant_role :: "env \<Rightarrow> address \<Rightarrow> string \<Rightarrow> address \<Rightarrow> registry_role \<Rightarrow> registry_state \<Rightarrow> (unit \<times> registry_state) res" where
  "rg_grant_role env caller org account role st =
     rbind (check_frozen st) (\<lambda>_.
     rbind (require_auth env caller) (\<lambda>_.
     rbind (require_root_owner st caller org) (\<lambda>owner.
     if account = owner then Err InvalidInput
     else Ok ((), rg_emit [RvRoleGranted org account role]
            (st\<lparr>rg_org_role := (rg_org_role st)((org, account) \<mapsto> role)\<rparr>)))))"

definition rg_revoke_role :: "env \<Rightarrow> address \<Rightarrow> string \<Rightarrow> address \<Rightarrow> registry_state \<Rightarrow> (unit \<times> registry_state) res" where
  "rg_revoke_role env caller org account st =
     rbind (require_auth env caller) (\<lambda>_.
     rbind (require_root_owner st caller org) (\<lambda>_.
     if rg_org_role st (org, account) = None then Err NotFound
     else Ok ((), rg_emit [RvRoleRevoked org account]
            (st\<lparr>rg_org_role := (rg_org_role st)((org, account) := None)\<rparr>))))"

definition rg_get_role :: "registry_state \<Rightarrow> string \<Rightarrow> address \<Rightarrow> registry_role option" where
  "rg_get_role st org account = rg_effective_role st org account"

definition can_manage_module :: "registry_state \<Rightarrow> string \<Rightarrow> address \<Rightarrow> module_kind \<Rightarrow> bool" where
  "can_manage_module st org account kind =
     (if is_admin st account then True
      else unwrap_or (map_option (\<lambda>role. may_manage role kind) (rg_effective_role st org account)) False)"

section \<open>Versions and upgrade proposals\<close>

definition register_version ::
  "env \<Rightarrow> address \<Rightarrow> module_kind \<Rightarrow> u32 \<Rightarrow> address \<Rightarrow> bytes \<Rightarrow> registry_state \<Rightarrow> (unit \<times> registry_state) res" where
  "register_version env caller kind version a h st =
     rbind (check_frozen st) (\<lambda>_.
     rbind (rg_require_admin env caller st) (\<lambda>_.
     if version = 0 then Err InvalidInput
     else if \<not> (rg_version_record st (kind, version) = None \<and> rg_version st (kind, version) = None)
     then Err AlreadyExists
     else if \<not> is_wasm_approved st kind h then Err Unauthorized
     else let st1 = st\<lparr>rg_version_record :=
                (rg_version_record st)((kind, version) \<mapsto> \<lparr>vr_address = a, vr_hash = Bound h\<rparr>)\<rparr>;
              latest = unwrap_or (rg_latest_version st1 kind) 0;
              st2 = (if version > latest
                     then st1\<lparr>rg_latest_version := (rg_latest_version st1)(kind \<mapsto> version)\<rparr> else st1) in
          Ok ((), rg_emit [RegistryVersionRegistered kind version a h, RvVersionRegister kind version a] st2)))"

definition propose_upgrade ::
  "env \<Rightarrow> address \<Rightarrow> string \<Rightarrow> module_kind \<Rightarrow> u32 \<Rightarrow> bytes \<Rightarrow> address \<Rightarrow> registry_state \<Rightarrow> (unit \<times> registry_state) res" where
  "propose_upgrade env caller org kind version h a st =
     rbind (check_frozen st) (\<lambda>_.
     rbind (require_non_empty org) (\<lambda>_.
     rbind (require_auth env caller) (\<lambda>_.
     rbind (if \<not> is_admin st caller
            then (case rg_effective_role st org caller of
                    Some RrModuleUpgrader \<Rightarrow> Ok ()
                  | Some RrOwner \<Rightarrow> Ok ()
                  | _ \<Rightarrow> if rg_orgs st org = None then Err NotFound else Err Unauthorized)
            else Ok ()) (\<lambda>_.
     if version = 0 then Err InvalidInput
     else rbind (require_valid_wasm_hash h) (\<lambda>_.
     if \<not> version > unwrap_or (rg_latest_version st kind) 0 then Err InvalidState
     else if rg_upgrade_proposal st kind \<noteq> None then Err InvalidState
     else if unwrap_or (rg_approved_wasm st (kind, h)) False then Err InvalidInput
     else if timestamp env + UPGRADE_PROPOSAL_EXPIRY > u64_max then Panic
     else let proposal = \<lparr>upr_version = version, upr_wasm_hash = h, upr_address = a, upr_org = org,
                          upr_proposer = caller, upr_expires_at = timestamp env + UPGRADE_PROPOSAL_EXPIRY\<rparr>;
              st1 = st\<lparr>rg_upgrade_proposal := (rg_upgrade_proposal st)(kind \<mapsto> proposal)\<rparr>;
              audit = \<lparr>ua_kind = kind, ua_version = version, ua_wasm_hash = h, ua_org = org,
                       ua_actor = caller, ua_recorded_at = timestamp env\<rparr>;
              st2 = append_audit UaProposed audit st1 in
          Ok ((), rg_emit [RvVersionProposed kind version h, UpgradeProposed audit] st2))))))"

definition commit_upgrade :: "env \<Rightarrow> address \<Rightarrow> module_kind \<Rightarrow> registry_state \<Rightarrow> ((u32 \<times> address) \<times> registry_state) res" where
  "commit_upgrade env caller kind st =
     rbind (check_frozen st) (\<lambda>_.
     rbind (rg_require_admin env caller st) (\<lambda>_.
     rbind (ok_or (rg_upgrade_proposal st kind) NotFound) (\<lambda>proposal.
     if timestamp env > upr_expires_at proposal then Err NotFound
     else rbind (require_valid_wasm_hash (upr_wasm_hash proposal)) (\<lambda>_.
     if \<not> upr_version proposal > unwrap_or (rg_latest_version st kind) 0 then Err InvalidState
     else let version = upr_version proposal; a = upr_address proposal; h = upr_wasm_hash proposal;
              st1 = st\<lparr>rg_version := (rg_version st)((kind, version) \<mapsto> a)\<rparr>;
              st2 = st1\<lparr>rg_latest_version := (rg_latest_version st1)(kind \<mapsto> version)\<rparr>;
              st3 = st2\<lparr>rg_approved_wasm := (rg_approved_wasm st2)((kind, h) \<mapsto> True)\<rparr>;
              st4 = st3\<lparr>rg_upgrade_proposal := (rg_upgrade_proposal st3)(kind := None)\<rparr>;
              audit = \<lparr>ua_kind = kind, ua_version = version, ua_wasm_hash = h, ua_org = upr_org proposal,
                       ua_actor = caller, ua_recorded_at = timestamp env\<rparr>;
              st5 = append_audit UaCommitted audit st4 in
          Ok ((version, a), rg_emit [RvVersionCommitted kind version h a, UpgradeCommitted audit a,
                              RvVersionRegister kind version a] st5)))))"

definition reject_upgrade :: "env \<Rightarrow> address \<Rightarrow> module_kind \<Rightarrow> registry_state \<Rightarrow> (unit \<times> registry_state) res" where
  "reject_upgrade env caller kind st =
     rbind (check_frozen st) (\<lambda>_.
     rbind (require_auth env caller) (\<lambda>_.
     rbind (ok_or (rg_upgrade_proposal st kind) NotFound) (\<lambda>proposal.
     if \<not> (is_admin st caller \<or> upr_proposer proposal = caller \<or>
            unwrap_or (map_option (\<lambda>owner. owner = caller) (rg_orgs st (upr_org proposal))) False)
     then Err Unauthorized
     else let st1 = st\<lparr>rg_upgrade_proposal := (rg_upgrade_proposal st)(kind := None)\<rparr>;
              audit = \<lparr>ua_kind = kind, ua_version = upr_version proposal, ua_wasm_hash = upr_wasm_hash proposal,
                       ua_org = upr_org proposal, ua_actor = caller, ua_recorded_at = timestamp env\<rparr>;
              st2 = append_audit UaRejected audit st1 in
          Ok ((), rg_emit [RvVersionRejected kind (upr_version proposal) (upr_wasm_hash proposal),
                           UpgradeRejected audit] st2))))"

definition get_upgrade_history :: "registry_state \<Rightarrow> upgrade_audit_record list" where
  "get_upgrade_history st = unwrap_or (rg_audit_log st) []"

definition get_upgrade_history_len :: "registry_state \<Rightarrow> u32" where
  "get_upgrade_history_len st = length (upgrade_log st)"

definition get_upgrade_proposal :: "registry_state \<Rightarrow> module_kind \<Rightarrow> upgrade_proposal option" where
  "get_upgrade_proposal st kind = pending_proposal st kind"

definition get_version :: "registry_state \<Rightarrow> module_kind \<Rightarrow> u32 \<Rightarrow> address res" where
  "get_version st kind version =
     rbind (ok_or (read_version st kind version) NotFound) (\<lambda>r. Ok (vr_address r))"

definition get_version_wasm :: "registry_state \<Rightarrow> module_kind \<Rightarrow> u32 \<Rightarrow> bytes res" where
  "get_version_wasm st kind version =
     (case map_option vr_hash (read_version st kind version) of
        Some (Bound h) \<Rightarrow> Ok h | _ \<Rightarrow> Err NotFound)"

definition verify_version :: "registry_state \<Rightarrow> module_kind \<Rightarrow> u32 \<Rightarrow> bytes \<Rightarrow> address res" where
  "verify_version st kind version h =
     rbind (ok_or (read_version st kind version) NotFound) (\<lambda>r.
     if \<not> (case vr_hash r of Bound bound \<Rightarrow> bound = h | Unbound \<Rightarrow> False) then Err InvalidInput
     else if \<not> is_wasm_approved st kind h then Err Unauthorized
     else Ok (vr_address r))"

section \<open>Upgrades of modules\<close>

definition resolve_upgrade_target ::
  "(address \<Rightarrow> string) \<Rightarrow> registry_state \<Rightarrow> string \<Rightarrow> module_kind \<Rightarrow> u32 \<Rightarrow> address option \<Rightarrow> upgrade_plan res" where
  "resolve_upgrade_target strkey st org kind target current =
     (if target = 0 then Err InvalidInput
      else let from = unwrap_or (rg_module_version st (org, kind)) 0 in
      if \<not> target > from then Err CircularUpgrade
      else rbind (ok_or (read_version st kind target) NotFound) (\<lambda>r.
      rbind (case vr_hash r of Bound h \<Rightarrow> Ok h | Unbound \<Rightarrow> Err InvalidInput) (\<lambda>h.
      if \<not> is_wasm_approved st kind h then Err Unauthorized
      else if \<not> is_contract_address strkey (vr_address r) then Err InvalidInput
      else if (case current of Some a \<Rightarrow> vr_address r = a | None \<Rightarrow> False) then Err CircularUpgrade
      else Ok \<lparr>pn_from_version = from, pn_to_version = target, pn_address = vr_address r, pn_hash = h\<rparr>)))"

definition plan_upgrade ::
  "(address \<Rightarrow> string) \<Rightarrow> registry_state \<Rightarrow> string \<Rightarrow> module_kind \<Rightarrow> u32 \<Rightarrow> upgrade_plan res" where
  "plan_upgrade strkey st org kind target =
     rbind (ok_or (rg_modules st (org, kind)) NotFound) (\<lambda>current.
     resolve_upgrade_target strkey st org kind target (Some current))"

text \<open>The three writes that move a module: the pointer, the pin, the deprecation flag.\<close>

definition move_module :: "string \<Rightarrow> module_kind \<Rightarrow> upgrade_plan \<Rightarrow> registry_state \<Rightarrow> registry_state" where
  "move_module org kind plan st =
     (let st1 = st\<lparr>rg_modules := (rg_modules st)((org, kind) \<mapsto> pn_address plan)\<rparr>;
          st2 = st1\<lparr>rg_module_version := (rg_module_version st1)((org, kind) \<mapsto> pn_to_version plan)\<rparr> in
      clear_deprecation org kind st2)"

definition upgrade_module ::
  "(address \<Rightarrow> string) \<Rightarrow> env \<Rightarrow> address \<Rightarrow> string \<Rightarrow> module_kind \<Rightarrow> u32 \<Rightarrow> registry_state \<Rightarrow> (u32 \<times> registry_state) res" where
  "upgrade_module strkey env caller org kind target st =
     rbind (check_frozen st) (\<lambda>_.
     rbind (require_non_empty org) (\<lambda>_.
     rbind (require_auth env caller) (\<lambda>_.
     rbind (require_module_permission st caller org kind) (\<lambda>_.
     rbind (plan_upgrade strkey st org kind target) (\<lambda>plan.
     Ok (pn_to_version plan,
         rg_emit [RegistryModuleUpgraded org kind (pn_from_version plan) (pn_to_version plan)
                    (pn_address plan) (pn_hash plan),
                  RvModuleUpgrade org kind (pn_to_version plan)]
           (move_module org kind plan st)))))))"

definition register_module_version ::
  "(address \<Rightarrow> string) \<Rightarrow> env \<Rightarrow> address \<Rightarrow> string \<Rightarrow> module_kind \<Rightarrow> u32 \<Rightarrow> registry_state \<Rightarrow> (u32 \<times> registry_state) res" where
  "register_module_version strkey env caller org kind version st =
     rbind (check_frozen st) (\<lambda>_.
     rbind (require_non_empty org) (\<lambda>_.
     rbind (require_auth env caller) (\<lambda>_.
     rbind (require_module_permission st caller org kind) (\<lambda>_.
     let current = rg_modules st (org, kind); existed = (current \<noteq> None) in
     rbind (resolve_upgrade_target strkey st org kind version current) (\<lambda>plan.
     let st1 = rg_emit [RegistryModuleUpdated org kind (pn_address plan),
                        RvModuleRegister org kind (pn_address plan)] (move_module org kind plan st) in
     Ok (pn_to_version plan,
         if existed
         then rg_emit [RegistryModuleUpgraded org kind (pn_from_version plan) (pn_to_version plan)
                         (pn_address plan) (pn_hash plan),
                       RvModuleUpgrade org kind (pn_to_version plan)] st1
         else st1))))))"

definition validate_upgrade ::
  "(address \<Rightarrow> string) \<Rightarrow> registry_state \<Rightarrow> string \<Rightarrow> module_kind \<Rightarrow> u32 \<Rightarrow> address res" where
  "validate_upgrade strkey st org kind target =
     rbind (check_frozen st) (\<lambda>_.
     rbind (require_non_empty org) (\<lambda>_.
     rbind (plan_upgrade strkey st org kind target) (\<lambda>plan. Ok (pn_address plan))))"

definition get_module_version :: "registry_state \<Rightarrow> string \<Rightarrow> module_kind \<Rightarrow> u32 res" where
  "get_module_version st org kind =
     (if rg_modules st (org, kind) = None then Err NotFound
      else Ok (unwrap_or (rg_module_version st (org, kind)) 0))"

section \<open>The upgrade of the registry itself\<close>

definition get_registry_version :: "registry_state \<Rightarrow> u32" where
  "get_registry_version st = unwrap_or (rg_registry_version st) 0"

text \<open>The loop from the newest version down to the floor of the window.\<close>

fun scan_versions :: "registry_state \<Rightarrow> bytes \<Rightarrow> u32 \<Rightarrow> u32 \<Rightarrow> (u32 \<times> version_record) option" where
  "scan_versions st h lowest 0 = None"
| "scan_versions st h lowest (Suc v) =
     (if \<not> Suc v \<ge> lowest then None
      else case read_version st KOrganization (Suc v) of
             Some r \<Rightarrow>
               if (case vr_hash r of Bound bound \<Rightarrow> bound = h | Unbound \<Rightarrow> False) then Some (Suc v, r)
               else scan_versions st h lowest v
           | None \<Rightarrow> scan_versions st h lowest v)"

definition plan_registry_upgrade ::
  "(address \<Rightarrow> string) \<Rightarrow> registry_state \<Rightarrow> bytes \<Rightarrow> registry_upgrade_plan res" where
  "plan_registry_upgrade strkey st h =
     (let from = unwrap_or (rg_registry_version st) 0;
          latest = unwrap_or (rg_latest_version st KOrganization) 0 in
      if latest = 0 then Err NotFound
      else let lowest = latest - (MAX_UPGRADE_SCAN - 1) in
      rbind (ok_or (scan_versions st h lowest latest) NotFound) (\<lambda>(to_version, r).
      if \<not> to_version > from then Err CircularUpgrade
      else if \<not> is_contract_address strkey (vr_address r) then Err InvalidInput
      else Ok \<lparr>rp_from_version = from, rp_to_version = to_version, rp_wasm_hash = h\<rparr>))"

definition validate_registry_upgrade :: "(address \<Rightarrow> string) \<Rightarrow> registry_state \<Rightarrow> bytes \<Rightarrow> u32 res" where
  "validate_registry_upgrade strkey st h =
     rbind (plan_registry_upgrade strkey st h) (\<lambda>plan. Ok (rp_to_version plan))"

definition rg_set_upgrade_authority ::
  "env \<Rightarrow> address \<Rightarrow> address \<Rightarrow> address \<Rightarrow> registry_state \<Rightarrow> (unit \<times> registry_state) res" where
  "rg_set_upgrade_authority env caller admin registry st =
     rbind (if \<not> is_ok (get_authority (rg_upgrade st))
            then if \<not> is_admin st caller then Err Unauthorized else Ok () else Ok ()) (\<lambda>_.
     rbind (set_authority env caller admin registry (rg_upgrade st)) (\<lambda>(_, up).
     Ok ((), st\<lparr>rg_upgrade := up\<rparr>)))"

definition rg_get_upgrade_authority :: "registry_state \<Rightarrow> upgrade_authority res" where
  "rg_get_upgrade_authority st = get_authority (rg_upgrade st)"

definition registry_upgrade ::
  "(address \<Rightarrow> string) \<Rightarrow> env \<Rightarrow> address \<Rightarrow> bytes \<Rightarrow> registry_state \<Rightarrow> (unit \<times> registry_state) res" where
  "registry_upgrade strkey env caller h st =
     rbind (require_auth env caller) (\<lambda>_.
     rbind (get_authority (rg_upgrade st)) (\<lambda>au.
     if up_admin au \<noteq> caller \<and> \<not> is_admin st caller then Err Unauthorized
     else if \<not> is_wasm_approved st KOrganization h then Err Unauthorized
     else rbind (plan_registry_upgrade strkey st h) (\<lambda>plan.
     rbind (upgrade_apply KOrganization h (rg_upgrade st)) (\<lambda>(_, up).
     let st1 = st\<lparr>rg_upgrade := up\<rparr>;
         st2 = st1\<lparr>rg_registry_version := Some (rp_to_version plan)\<rparr> in
     Ok ((), rg_emit [RegistryUpgraded (rp_from_version plan) (rp_to_version plan) (rp_wasm_hash plan)] st2)))))"

section \<open>Lookups\<close>

definition get_latest :: "registry_state \<Rightarrow> module_kind \<Rightarrow> address res" where
  "get_latest st kind =
     rbind (ok_or (rg_latest_version st kind) NotFound) (\<lambda>latest. get_version st kind latest)"

type_synonym version_cache = "(module_kind \<times> u32 \<times> version_record option) list"

text \<open>The linear scan over the cached entries.\<close>

fun cache_find :: "version_cache \<Rightarrow> module_kind \<Rightarrow> u32 \<Rightarrow> version_record option option" where
  "cache_find [] kind version = None"
| "cache_find ((k, v, r) # entries) kind version =
     (if k = kind \<and> v = version then Some r else cache_find entries kind version)"

definition cache_get ::
  "registry_state \<Rightarrow> module_kind \<Rightarrow> u32 \<Rightarrow> version_cache \<Rightarrow> version_record option \<times> version_cache" where
  "cache_get st kind version entries =
     (case cache_find entries kind version of
        Some r \<Rightarrow> (r, entries)
      | None \<Rightarrow> let r = read_version st kind version in (r, entries @ [(kind, version, r)]))"

fun versions_loop :: "registry_state \<Rightarrow> version_id list \<Rightarrow> version_cache \<Rightarrow> address option list" where
  "versions_loop st [] entries = []"
| "versions_loop st (vid # ids) entries =
     (case cache_get st (vi_kind vid) (vi_version vid) entries of
        (r, entries') \<Rightarrow> map_option vr_address r # versions_loop st ids entries')"

definition get_versions_batch :: "registry_state \<Rightarrow> version_id list \<Rightarrow> address option list res" where
  "get_versions_batch st ids =
     (if \<not> length ids \<le> MAX_REGISTRY_BATCH then Err InvalidInput else Ok (versions_loop st ids []))"

definition get_org_owner :: "registry_state \<Rightarrow> string \<Rightarrow> address res" where
  "get_org_owner st org = ok_or (rg_orgs st org) NotFound"

definition lookup :: "registry_state \<Rightarrow> string \<Rightarrow> module_kind \<Rightarrow> address res" where
  "lookup st org kind =
     rbind (check_frozen st) (\<lambda>_.
     rbind (ok_or (read_module st org kind) NotFound) (\<lambda>module.
     if mi_deprecated module then Err ModuleDeprecated else Ok (mi_address module)))"

definition verify_owner :: "registry_state \<Rightarrow> string \<Rightarrow> address \<Rightarrow> bool res" where
  "verify_owner st org owner =
     rbind (check_frozen st) (\<lambda>_.
     rbind (ok_or (rg_orgs st org) NotFound) (\<lambda>recorded. Ok (recorded = owner)))"

definition get_modules_batch :: "registry_state \<Rightarrow> module_id list \<Rightarrow> module_info option list res" where
  "get_modules_batch st ids =
     (if \<not> length ids \<le> MAX_REGISTRY_BATCH then Err InvalidInput
      else rbind (check_frozen st) (\<lambda>_. Ok (map (\<lambda>i. read_module st (mi_org i) (mi_kind i)) ids)))"

section \<open>Administrators, freeze and approvals\<close>

definition rg_get_admin :: "registry_state \<Rightarrow> address res" where
  "rg_get_admin st = ok_or (rg_admin st) NotInitialized"

text \<open>The stored administrators, or the primary one where none are stored.\<close>

definition admins_or_primary :: "registry_state \<Rightarrow> address list" where
  "admins_or_primary st =
     (case rg_admins st of
        Some admins \<Rightarrow> admins
      | None \<Rightarrow> (case rg_admin st of Some a \<Rightarrow> [a] | None \<Rightarrow> []))"

definition rg_set_admin :: "env \<Rightarrow> address \<Rightarrow> address \<Rightarrow> registry_state \<Rightarrow> (unit \<times> registry_state) res" where
  "rg_set_admin env caller new_admin st =
     rbind (rg_require_admin env caller st) (\<lambda>_.
     let old_admin = rg_admin st;
         admins = unwrap_or (rg_admins st) [];
         updated = filter (\<lambda>a. old_admin \<noteq> Some a \<and> a \<noteq> new_admin) admins @ [new_admin] in
     Ok ((), rg_emit [RvSetAdmin new_admin] (st\<lparr>rg_admin := Some new_admin, rg_admins := Some updated\<rparr>)))"

definition add_admin :: "env \<Rightarrow> address \<Rightarrow> address \<Rightarrow> registry_state \<Rightarrow> (unit \<times> registry_state) res" where
  "add_admin env caller new_admin st =
     rbind (rg_require_admin env caller st) (\<lambda>_.
     let admins = admins_or_primary st in
     if \<not> length admins < MAX_APPROVERS then Err InvalidInput
     else if new_admin \<in> set admins then Err AlreadyExists
     else Ok ((), rg_emit [RvAdminAdded new_admin] (st\<lparr>rg_admins := Some (admins @ [new_admin])\<rparr>)))"

definition remove_admin :: "env \<Rightarrow> address \<Rightarrow> address \<Rightarrow> registry_state \<Rightarrow> (unit \<times> registry_state) res" where
  "remove_admin env caller admin st =
     rbind (rg_require_admin env caller st) (\<lambda>_.
     let admins = admins_or_primary st in
     if admin \<notin> set admins then Err NotFound
     else if \<not> length admins > 1 then Err InvalidInput
     else let new_admins = filter (\<lambda>a. a \<noteq> admin) admins;
              st1 = st\<lparr>rg_admins := Some new_admins\<rparr> in
          rbind (if rg_admin st1 = Some admin
                 then (case new_admins of
                         next_primary # _ \<Rightarrow> Ok (st1\<lparr>rg_admin := Some next_primary\<rparr>)
                       | [] \<Rightarrow> Panic)
                 else Ok st1) (\<lambda>st2.
          Ok ((), rg_emit [RvAdminRemoved admin] st2)))"

definition get_admins :: "registry_state \<Rightarrow> address list res" where
  "get_admins st = (if rg_admin st = None then Err NotInitialized else Ok (admins_or_primary st))"

definition set_multisig :: "env \<Rightarrow> address \<Rightarrow> address \<Rightarrow> registry_state \<Rightarrow> (unit \<times> registry_state) res" where
  "set_multisig env caller multisig st =
     rbind (rg_require_admin env caller st) (\<lambda>_.
     Ok ((), rg_emit [RvMultisig multisig] (st\<lparr>rg_multisig := Some multisig\<rparr>)))"

definition get_multisig :: "registry_state \<Rightarrow> address option" where
  "get_multisig st = rg_multisig st"

definition remove_multisig :: "env \<Rightarrow> address \<Rightarrow> registry_state \<Rightarrow> (unit \<times> registry_state) res" where
  "remove_multisig env caller st =
     rbind (rg_require_admin env caller st) (\<lambda>_.
     if rg_multisig st = None then Err NotFound else Ok ((), st\<lparr>rg_multisig := None\<rparr>))"

definition is_authorized_admin :: "registry_state \<Rightarrow> address \<Rightarrow> bool" where
  "is_authorized_admin st who = is_admin st who"

definition rg_freeze :: "env \<Rightarrow> address \<Rightarrow> string \<Rightarrow> registry_state \<Rightarrow> (unit \<times> registry_state) res" where
  "rg_freeze env caller org st =
     rbind (require_auth env caller) (\<lambda>_.
     rbind (ok_or (rg_orgs st org) NotFound) (\<lambda>owner.
     if \<not> (owner = caller \<or> is_admin st caller) then Err Unauthorized
     else Ok ((), rg_emit [RegistryFrozenEvent org True, RvFrozen org] (st\<lparr>rg_frozen := Some True\<rparr>))))"

definition rg_unfreeze :: "env \<Rightarrow> address \<Rightarrow> string \<Rightarrow> registry_state \<Rightarrow> (unit \<times> registry_state) res" where
  "rg_unfreeze env caller org st =
     rbind (require_auth env caller) (\<lambda>_.
     rbind (ok_or (rg_orgs st org) NotFound) (\<lambda>owner.
     if \<not> (owner = caller \<or> is_admin st caller) then Err Unauthorized
     else Ok ((), rg_emit [RegistryFrozenEvent org False, RvUnfrozen org] (st\<lparr>rg_frozen := Some False\<rparr>))))"

definition add_approved_wasm :: "env \<Rightarrow> address \<Rightarrow> module_kind \<Rightarrow> bytes \<Rightarrow> registry_state \<Rightarrow> (unit \<times> registry_state) res" where
  "add_approved_wasm env caller kind h st =
     rbind (rg_require_admin env caller st) (\<lambda>_.
     rbind (require_valid_wasm_hash h) (\<lambda>_.
     if (case pending_proposal st kind of Some pending \<Rightarrow> upr_wasm_hash pending \<noteq> h | None \<Rightarrow> False)
     then Err InvalidState
     else Ok ((), rg_emit [RvWasmApproved kind h]
            (st\<lparr>rg_approved_wasm := (rg_approved_wasm st)((kind, h) \<mapsto> True)\<rparr>))))"

definition remove_approved_wasm :: "env \<Rightarrow> address \<Rightarrow> module_kind \<Rightarrow> bytes \<Rightarrow> registry_state \<Rightarrow> (unit \<times> registry_state) res" where
  "remove_approved_wasm env caller kind h st =
     rbind (rg_require_admin env caller st) (\<lambda>_.
     if rg_approved_wasm st (kind, h) = None then Err NotFound
     else Ok ((), rg_emit [RvWasmRemoved kind h]
            (st\<lparr>rg_approved_wasm := (rg_approved_wasm st)((kind, h) := None)\<rparr>)))"

end
