(* ===== verification/Registry_Props.thy ===== *)
theory Registry_Props
  imports Registry
begin

text \<open>
  The step relation of the registry, the well-formedness of its storage, and the abstract upgrade map the
  registry implements: which version stands for which code, where the modules of the organizations point,
  and which version the registry itself runs.
\<close>

section \<open>Inversions\<close>

lemma rg_guards_Ok [ok_simps]:
  "check_frozen st = Ok u \<longleftrightarrow> rg_frozen st \<noteq> Some True"
  "rg_require_admin env c st = Ok u \<longleftrightarrow> authorized env c \<and> rg_admin st \<noteq> None \<and> is_admin st c"
  "require_root_owner st c org = Ok w \<longleftrightarrow> rg_orgs st org = Some w \<and> (w = c \<or> is_admin st c)"
  by (auto simp: check_frozen_def rg_require_admin_def require_root_owner_def ok_simps unwrap_or_def split: option.splits)

lemma require_module_permission_Ok [ok_simps]:
  "require_module_permission st c org kind = Ok u \<longleftrightarrow>
     rg_orgs st org \<noteq> None \<and> (is_admin st c \<or> (\<exists>role. rg_effective_role st org c = Some role \<and> may_manage role kind))"
  by (auto simp: require_module_permission_def ok_simps split: option.splits)

lemma can_manage_module_iff:
  "rg_orgs st org \<noteq> None \<Longrightarrow> can_manage_module st org c kind \<longleftrightarrow> require_module_permission st c org kind = Ok ()"
  by (auto simp: require_module_permission_Ok can_manage_module_def unwrap_or_def split: option.splits)

lemma clear_module_version_eq:
  "clear_module_version org kind st = st\<lparr>rg_module_version := (rg_module_version st)((org, kind) := None)\<rparr>"
  by (auto simp: clear_module_version_def fun_eq_iff)

lemma clear_deprecation_eq:
  "clear_deprecation org kind st = st\<lparr>rg_deprecated := (rg_deprecated st)((org, kind) := None)\<rparr>"
  by (auto simp: clear_deprecation_def fun_eq_iff)

lemma trim_log_eq: "trim_log log = take MAX_UPGRADE_AUDIT_ENTRIES log"
proof (induction log rule: trim_log.induct)
  case (1 log)
  then show ?case by (subst trim_log.simps) (auto simp: take_butlast)
qed

text \<open>The target of an upgrade: a published version with a bound and approved hash at a contract address.\<close>

definition upgrade_target ::
  "(address \<Rightarrow> string) \<Rightarrow> registry_state \<Rightarrow> string \<Rightarrow> module_kind \<Rightarrow> u32 \<Rightarrow> address \<Rightarrow> bytes \<Rightarrow> bool" where
  "upgrade_target strkey st org kind v a h \<longleftrightarrow>
     unwrap_or (rg_module_version st (org, kind)) 0 < v \<and>
     read_version st kind v = Some \<lparr>vr_address = a, vr_hash = Bound h\<rparr> \<and>
     is_wasm_approved st kind h \<and> is_contract_address strkey a \<and> rg_modules st (org, kind) \<noteq> Some a"

lemma resolve_upgrade_target_Ok [ok_simps]:
  "resolve_upgrade_target strkey st org kind v (rg_modules st (org, kind)) = Ok plan \<longleftrightarrow>
     (\<exists>a h. upgrade_target strkey st org kind v a h \<and>
        plan = \<lparr>pn_from_version = unwrap_or (rg_module_version st (org, kind)) 0, pn_to_version = v,
                pn_address = a, pn_hash = h\<rparr>)"
proof -
  have "(case (hash :: bound_hash) of Bound h \<Rightarrow> Ok h | Unbound \<Rightarrow> Err InvalidInput) = Ok h \<longleftrightarrow> hash = Bound h" for hash h
    by (cases hash) auto
  moreover have "\<And>r. \<exists>a hash. r = \<lparr>vr_address = a, vr_hash = hash\<rparr>"
    by (meson version_record.cases)
  ultimately show ?thesis
    by (cases "read_version st kind v"; cases "rg_modules st (org, kind)")
       (auto simp: resolve_upgrade_target_def upgrade_target_def ok_simps Let_def)
qed

lemma plan_upgrade_Ok [ok_simps]:
  "plan_upgrade strkey st org kind v = Ok plan \<longleftrightarrow>
     rg_modules st (org, kind) \<noteq> None \<and>
     resolve_upgrade_target strkey st org kind v (rg_modules st (org, kind)) = Ok plan"
  by (cases "rg_modules st (org, kind)") (simp_all add: plan_upgrade_def)

lemma move_module_eq:
  "move_module org kind plan st =
     st\<lparr>rg_modules := (rg_modules st)((org, kind) \<mapsto> pn_address plan),
        rg_module_version := (rg_module_version st)((org, kind) \<mapsto> pn_to_version plan),
        rg_deprecated := (rg_deprecated st)((org, kind) := None)\<rparr>"
  by (simp add: move_module_def clear_deprecation_eq Let_def)

lemma scan_versions_Some:
  "scan_versions st h lo v = Some (w, r) \<longleftrightarrow>
     0 < w \<and> lo \<le> w \<and> w \<le> v \<and> read_version st KOrganization w = Some r \<and> vr_hash r = Bound h \<and>
     (\<forall>x r'. w < x \<and> x \<le> v \<and> read_version st KOrganization x = Some r' \<longrightarrow> vr_hash r' \<noteq> Bound h)"
proof (induction v)
  case (Suc v)
  show ?case
  proof (cases "\<exists>r. read_version st KOrganization (Suc v) = Some r \<and> vr_hash r = Bound h \<and> lo \<le> Suc v")
    case True
    then show ?thesis by (auto simp: le_Suc_eq dest: spec [of _ "Suc v"])
  next
    case False
    have "scan_versions st h lo (Suc v) = (if lo \<le> Suc v then scan_versions st h lo v else None)"
      using False by (auto split: option.splits bound_hash.splits)
    then show ?thesis using False Suc by (auto simp: le_Suc_eq)
  qed
qed auto

section \<open>Steps\<close>

text \<open>One committed invocation by the given caller; \<open>initialize\<close> asks for no signature.\<close>

inductive rg_step :: "(address \<Rightarrow> string) \<Rightarrow> address \<Rightarrow> registry_state \<Rightarrow> registry_state \<Rightarrow> bool"
  for strkey :: "address \<Rightarrow> string" and c :: address where
  s_initialize: "rg_initialize env a st = Ok (u, st') \<Longrightarrow> rg_step strkey c st st'"
| s_register_org: "register_org env c org a st = Ok (u, st') \<Longrightarrow> rg_step strkey c st st'"
| s_set_org_owner: "set_org_owner env c org a st = Ok (u, st') \<Longrightarrow> rg_step strkey c st st'"
| s_register_module: "register_module env c org kind a st = Ok (u, st') \<Longrightarrow> rg_step strkey c st st'"
| s_deprecate: "deprecate_module env c org kind st = Ok (u, st') \<Longrightarrow> rg_step strkey c st st'"
| s_reactivate: "reactivate_module env c org kind st = Ok (u, st') \<Longrightarrow> rg_step strkey c st st'"
| s_remove_module: "remove_module env c org kind st = Ok (u, st') \<Longrightarrow> rg_step strkey c st st'"
| s_grant: "rg_grant_role env c org a role st = Ok (u, st') \<Longrightarrow> rg_step strkey c st st'"
| s_revoke: "rg_revoke_role env c org a st = Ok (u, st') \<Longrightarrow> rg_step strkey c st st'"
| s_register_version: "register_version env c kind v a h st = Ok (u, st') \<Longrightarrow> rg_step strkey c st st'"
| s_propose: "propose_upgrade env c org kind v h a st = Ok (u, st') \<Longrightarrow> rg_step strkey c st st'"
| s_commit: "commit_upgrade env c kind st = Ok (w, st') \<Longrightarrow> rg_step strkey c st st'"
| s_reject: "reject_upgrade env c kind st = Ok (u, st') \<Longrightarrow> rg_step strkey c st st'"
| s_upgrade_module: "upgrade_module strkey env c org kind v st = Ok (n, st') \<Longrightarrow> rg_step strkey c st st'"
| s_register_module_version: "register_module_version strkey env c org kind v st = Ok (n, st') \<Longrightarrow> rg_step strkey c st st'"
| s_set_admin: "rg_set_admin env c a st = Ok (u, st') \<Longrightarrow> rg_step strkey c st st'"
| s_add_admin: "add_admin env c a st = Ok (u, st') \<Longrightarrow> rg_step strkey c st st'"
| s_remove_admin: "remove_admin env c a st = Ok (u, st') \<Longrightarrow> rg_step strkey c st st'"
| s_set_multisig: "set_multisig env c a st = Ok (u, st') \<Longrightarrow> rg_step strkey c st st'"
| s_remove_multisig: "remove_multisig env c st = Ok (u, st') \<Longrightarrow> rg_step strkey c st st'"
| s_freeze: "rg_freeze env c org st = Ok (u, st') \<Longrightarrow> rg_step strkey c st st'"
| s_unfreeze: "rg_unfreeze env c org st = Ok (u, st') \<Longrightarrow> rg_step strkey c st st'"
| s_approve: "add_approved_wasm env c kind h st = Ok (u, st') \<Longrightarrow> rg_step strkey c st st'"
| s_unapprove: "remove_approved_wasm env c kind h st = Ok (u, st') \<Longrightarrow> rg_step strkey c st st'"
| s_authority: "rg_set_upgrade_authority env c a r st = Ok (u, st') \<Longrightarrow> rg_step strkey c st st'"
| s_upgrade: "registry_upgrade strkey env c h st = Ok (u, st') \<Longrightarrow> rg_step strkey c st st'"

definition rg_move :: "(address \<Rightarrow> string) \<Rightarrow> registry_state \<Rightarrow> registry_state \<Rightarrow> bool" where
  "rg_move strkey st st' \<longleftrightarrow> (\<exists>c. rg_step strkey c st st')"

definition deployed_registry :: "bytes \<Rightarrow> registry_state \<Rightarrow> bool" where
  "deployed_registry code st \<longleftrightarrow> st = registry_empty code"

section \<open>Well-formed storage\<close>

definition admins_wf :: "registry_state \<Rightarrow> bool" where
  "admins_wf st \<longleftrightarrow>
     (case rg_admin st of
        None \<Rightarrow> rg_admins st = None \<and> rg_multisig st = None
      | Some a \<Rightarrow> (\<exists>admins. rg_admins st = Some admins \<and> a \<in> set admins \<and> distinct admins \<and>
                    length admins \<le> MAX_APPROVERS))"

definition versions_wf :: "registry_state \<Rightarrow> bool" where
  "versions_wf st \<longleftrightarrow>
     (\<forall>kind v. read_version st kind v \<noteq> None \<longrightarrow> 0 < v \<and> v \<le> unwrap_or (rg_latest_version st kind) 0) \<and>
     (\<forall>kind v. rg_latest_version st kind = Some v \<longrightarrow> read_version st kind v \<noteq> None)"

definition modules_wf :: "registry_state \<Rightarrow> bool" where
  "modules_wf st \<longleftrightarrow>
     (\<forall>org. rg_orgs st org = None \<longrightarrow>
        (\<forall>kind. rg_modules st (org, kind) = None) \<and> (\<forall>a. rg_org_role st (org, a) = None)) \<and>
     (\<forall>org kind. rg_modules st (org, kind) = None \<longrightarrow>
        rg_module_version st (org, kind) = None \<and> rg_deprecated st (org, kind) = None)"

definition proposals_wf :: "registry_state \<Rightarrow> bool" where
  "proposals_wf st \<longleftrightarrow>
     (\<forall>kind p. rg_upgrade_proposal st kind = Some p \<longrightarrow> 0 < upr_version p \<and> upr_wasm_hash p \<noteq> replicate 32 0) \<and>
     length (upgrade_log st) \<le> MAX_UPGRADE_AUDIT_ENTRIES"

definition rg_inv :: "registry_state \<Rightarrow> bool" where
  "rg_inv st \<longleftrightarrow> admins_wf st \<and> versions_wf st \<and> modules_wf st \<and> proposals_wf st"

lemma empty_inv: "rg_inv (registry_empty code)"
  by (simp add: rg_inv_def admins_wf_def versions_wf_def modules_wf_def proposals_wf_def read_version_def
      registry_empty_def upgrade_log_def)

lemma rg_emit_sel [simp]:
  "rg_admin (rg_emit es st) = rg_admin st" "rg_admins (rg_emit es st) = rg_admins st"
  "rg_multisig (rg_emit es st) = rg_multisig st" "rg_orgs (rg_emit es st) = rg_orgs st"
  "rg_modules (rg_emit es st) = rg_modules st" "rg_deprecated (rg_emit es st) = rg_deprecated st"
  "rg_module_version (rg_emit es st) = rg_module_version st" "rg_org_role (rg_emit es st) = rg_org_role st"
  "rg_version (rg_emit es st) = rg_version st" "rg_version_record (rg_emit es st) = rg_version_record st"
  "rg_latest_version (rg_emit es st) = rg_latest_version st" "rg_frozen (rg_emit es st) = rg_frozen st"
  "rg_approved_wasm (rg_emit es st) = rg_approved_wasm st" "rg_upgrade_proposal (rg_emit es st) = rg_upgrade_proposal st"
  "rg_audit_log (rg_emit es st) = rg_audit_log st" "rg_registry_version (rg_emit es st) = rg_registry_version st"
  "rg_upgrade (rg_emit es st) = rg_upgrade st"
  by (simp_all add: rg_emit_def)

section \<open>Effects\<close>

text \<open>What a committed invocation of caller \<open>c\<close> writes: fifteen kinds of writes, each with what the
  entrypoint established before it.\<close>

definition root_of :: "registry_state \<Rightarrow> address \<Rightarrow> string \<Rightarrow> bool" where
  "root_of st c org \<longleftrightarrow> rg_orgs st org = Some c \<or> is_admin st c"

definition permitted :: "registry_state \<Rightarrow> address \<Rightarrow> string \<Rightarrow> module_kind \<Rightarrow> bool" where
  "permitted st c org kind \<longleftrightarrow> require_module_permission st c org kind = Ok ()"

definition live :: "registry_state \<Rightarrow> bool" where
  "live st \<longleftrightarrow> rg_frozen st \<noteq> Some True"

inductive rg_effect :: "(address \<Rightarrow> string) \<Rightarrow> address \<Rightarrow> registry_state \<Rightarrow> registry_state \<Rightarrow> bool"
  for strkey :: "address \<Rightarrow> string" and c :: address and st :: registry_state where
  e_init: "rg_admin st = None \<Longrightarrow> rg_effect strkey c st (rg_emit es (st\<lparr>rg_admin := Some a, rg_admins := Some [a]\<rparr>))"
| e_org: "live st \<Longrightarrow> root_of st c org \<Longrightarrow> rg_effect strkey c st (rg_emit es (st\<lparr>rg_orgs := (rg_orgs st)(org \<mapsto> a)\<rparr>))"
| e_role: "rg_orgs st org \<noteq> None \<Longrightarrow> root_of st c org \<Longrightarrow>
    rg_effect strkey c st (rg_emit es (st\<lparr>rg_org_role := (rg_org_role st)((org, a) := r)\<rparr>))"
| e_route: "live st \<Longrightarrow> permitted st c org kind \<Longrightarrow> rg_effect strkey c st (rg_emit es (st\<lparr>rg_modules := (rg_modules st)((org, kind) := m),
      rg_deprecated := (rg_deprecated st)((org, kind) := None),
      rg_module_version := (rg_module_version st)((org, kind) := None)\<rparr>))"
| e_flag: "live st \<Longrightarrow> is_admin st c \<Longrightarrow> rg_modules st (org, kind) \<noteq> None \<Longrightarrow>
    rg_effect strkey c st (rg_emit es (st\<lparr>rg_deprecated := (rg_deprecated st)((org, kind) \<mapsto> b)\<rparr>))"
| e_publish: "live st \<Longrightarrow> is_admin st c \<Longrightarrow> 0 < v \<Longrightarrow> read_version st kind v = None \<Longrightarrow> is_wasm_approved st kind h \<Longrightarrow>
    rg_effect strkey c st (rg_emit es (st\<lparr>
      rg_version_record := (rg_version_record st)((kind, v) \<mapsto> \<lparr>vr_address = a, vr_hash = Bound h\<rparr>),
      rg_latest_version := (rg_latest_version st)(kind \<mapsto> max v (unwrap_or (rg_latest_version st kind) 0))\<rparr>))"
| e_commit: "live st \<Longrightarrow> is_admin st c \<Longrightarrow> rg_upgrade_proposal st kind = Some p \<Longrightarrow>
    unwrap_or (rg_latest_version st kind) 0 < upr_version p \<Longrightarrow> length log \<le> MAX_UPGRADE_AUDIT_ENTRIES \<Longrightarrow>
    rg_effect strkey c st (rg_emit es (st\<lparr>
      rg_version := (rg_version st)((kind, upr_version p) \<mapsto> upr_address p),
      rg_latest_version := (rg_latest_version st)(kind \<mapsto> upr_version p),
      rg_approved_wasm := (rg_approved_wasm st)((kind, upr_wasm_hash p) \<mapsto> True),
      rg_upgrade_proposal := (rg_upgrade_proposal st)(kind := None), rg_audit_log := Some log\<rparr>))"
| e_proposal: "live st \<Longrightarrow> length log \<le> MAX_UPGRADE_AUDIT_ENTRIES \<Longrightarrow>
    (\<And>p. np = Some p \<Longrightarrow> 0 < upr_version p \<and> upr_wasm_hash p \<noteq> replicate 32 0) \<Longrightarrow>
    rg_effect strkey c st (rg_emit es (st\<lparr>
      rg_upgrade_proposal := (rg_upgrade_proposal st)(kind := np), rg_audit_log := Some log\<rparr>))"
| e_move: "live st \<Longrightarrow> permitted st c org kind \<Longrightarrow> upgrade_target strkey st org kind v a h \<Longrightarrow>
    rg_effect strkey c st (rg_emit es (st\<lparr>rg_modules := (rg_modules st)((org, kind) \<mapsto> a),
      rg_module_version := (rg_module_version st)((org, kind) \<mapsto> v),
      rg_deprecated := (rg_deprecated st)((org, kind) := None)\<rparr>))"
| e_admins: "is_admin st c \<Longrightarrow> rg_admin st \<noteq> None \<Longrightarrow>
    (admins_wf st \<Longrightarrow> a \<in> set admins \<and> distinct admins \<and> length admins \<le> MAX_APPROVERS) \<Longrightarrow>
    rg_effect strkey c st (rg_emit es (st\<lparr>rg_admin := Some a, rg_admins := Some admins\<rparr>))"
| e_multisig: "is_admin st c \<Longrightarrow> rg_admin st \<noteq> None \<Longrightarrow> rg_effect strkey c st (rg_emit es (st\<lparr>rg_multisig := m\<rparr>))"
| e_frozen: "root_of st c org \<Longrightarrow> rg_effect strkey c st (rg_emit es (st\<lparr>rg_frozen := Some b\<rparr>))"
| e_approved: "is_admin st c \<Longrightarrow>
    rg_effect strkey c st (rg_emit es (st\<lparr>rg_approved_wasm := (rg_approved_wasm st)((kind, h) := b)\<rparr>))"
| e_authority: "running_wasm up = running_wasm (rg_upgrade st) \<Longrightarrow> rg_effect strkey c st (rg_emit es (st\<lparr>rg_upgrade := up\<rparr>))"
| e_self: "is_wasm_approved st KOrganization h \<Longrightarrow> unwrap_or (rg_registry_version st) 0 < v \<Longrightarrow>
    read_version st KOrganization v = Some r \<Longrightarrow> vr_hash r = Bound h \<Longrightarrow> is_contract_address strkey (vr_address r) \<Longrightarrow>
    running_wasm up = h \<Longrightarrow>
    rg_effect strkey c st (rg_emit es (st\<lparr>rg_upgrade := up, rg_registry_version := Some v\<rparr>))"


lemma read_version_None: "read_version st kind v = None \<longleftrightarrow> rg_version_record st (kind, v) = None \<and> rg_version st (kind, v) = None"
  by (auto simp: read_version_def split: option.splits)

lemma rg_emit_Nil: "rg_emit [] st = st"
  by (simp add: rg_emit_def)

lemma effect_org:
  "register_org env c org a st = Ok (u, st') \<Longrightarrow> rg_effect strkey c st st'"
  "set_org_owner env c org a st = Ok (u, st') \<Longrightarrow> rg_effect strkey c st st'"
  "rg_grant_role env c org a role st = Ok (u, st') \<Longrightarrow> rg_effect strkey c st st'"
  "rg_revoke_role env c org a st = Ok (u, st') \<Longrightarrow> rg_effect strkey c st st'"
  by (auto simp: register_org_def set_org_owner_def rg_grant_role_def rg_revoke_role_def ok_simps root_of_def live_def
      intro!: rg_effect.intros)

lemma effect_module:
  "register_module env c org kind a st = Ok (u, st') \<Longrightarrow> rg_effect strkey c st st'"
  "remove_module env c org kind st = Ok (u, st') \<Longrightarrow> rg_effect strkey c st st'"
  "deprecate_module env c org kind st = Ok (u, st') \<Longrightarrow> rg_effect strkey c st st'"
  "reactivate_module env c org kind st = Ok (u, st') \<Longrightarrow> rg_effect strkey c st st'"
proof -
  show "register_module env c org kind a st = Ok (u, st') \<Longrightarrow> rg_effect strkey c st st'"
    using e_route [of st c org kind strkey _ "Some a"]
    by (auto simp: register_module_def clear_module_version_eq clear_deprecation_eq rbind_eq_Ok rg_guards_Ok live_def permitted_def Let_def)
  show "remove_module env c org kind st = Ok (u, st') \<Longrightarrow> rg_effect strkey c st st'"
    using e_route [of st c org kind strkey _ None]
    by (auto simp: remove_module_def clear_module_version_eq clear_deprecation_eq rbind_eq_Ok if_Err_eq_Ok rg_guards_Ok live_def permitted_def Let_def)
qed (auto simp: deprecate_module_def reactivate_module_def ok_simps live_def intro!: rg_effect.intros)

lemma register_version_Ok:
  "register_version env c kind v a h st = Ok (u, st') \<longleftrightarrow>
     live st \<and> authorized env c \<and> rg_admin st \<noteq> None \<and> is_admin st c \<and> 0 < v \<and> read_version st kind v = None \<and>
     is_wasm_approved st kind h \<and>
     st' = rg_emit [RegistryVersionRegistered kind v a h, RvVersionRegister kind v a] (st\<lparr>
       rg_version_record := (rg_version_record st)((kind, v) \<mapsto> \<lparr>vr_address = a, vr_hash = Bound h\<rparr>),
       rg_latest_version := (if v > unwrap_or (rg_latest_version st kind) 0
         then (rg_latest_version st)(kind \<mapsto> v) else rg_latest_version st)\<rparr>)"
  by (auto simp: register_version_def ok_simps live_def read_version_None Let_def)

lemma effect_publish:
  assumes "register_version env c kind v a h st = Ok (u, st')"
  shows "rg_effect strkey c st st'"
proof -
  from assms have g: "live st" "is_admin st c" "0 < v" "read_version st kind v = None" "is_wasm_approved st kind h"
    by (auto simp: register_version_Ok)
  have l: "(if v > unwrap_or (rg_latest_version st kind) 0 then (rg_latest_version st)(kind \<mapsto> v) else rg_latest_version st) =
      (rg_latest_version st)(kind \<mapsto> max v (unwrap_or (rg_latest_version st kind) 0))"
    using g(3) by (cases "rg_latest_version st kind") (auto simp: fun_eq_iff max_def)
  have "st' = rg_emit [RegistryVersionRegistered kind v a h, RvVersionRegister kind v a] (st\<lparr>
       rg_version_record := (rg_version_record st)((kind, v) \<mapsto> \<lparr>vr_address = a, vr_hash = Bound h\<rparr>),
       rg_latest_version := (rg_latest_version st)(kind \<mapsto> max v (unwrap_or (rg_latest_version st kind) 0))\<rparr>)"
    using assms by (simp only: register_version_Ok l)
  then show ?thesis using e_publish [OF g] by simp
qed

lemma effect_proposals:
  "propose_upgrade env c org kind v h a st = Ok (u, st') \<Longrightarrow> rg_effect strkey c st st'"
  "commit_upgrade env c kind st = Ok (w, st') \<Longrightarrow> rg_effect strkey c st st'"
  "reject_upgrade env c kind st = Ok (u, st') \<Longrightarrow> rg_effect strkey c st st'"
  by (auto simp: propose_upgrade_def commit_upgrade_def reject_upgrade_def append_audit_def trim_log_eq rbind_eq_Ok
      if_Err_eq_Ok if_Panic_eq_Ok ok_or_eq_Ok rg_guards_Ok guards_Ok live_def Let_def simp del: fun_upd_apply intro!: rg_effect.intros)

lemma ex_plan: "(\<exists>p. (\<exists>a h. T a h \<and> p = P a h) \<and> F p) \<longleftrightarrow> (\<exists>a h. T a h \<and> F (P a h))"
  by blast

lemma upgrade_module_Ok:
  "upgrade_module strkey env c org kind v st = Ok (n, st') \<longleftrightarrow>
     live st \<and> org \<noteq> [] \<and> authorized env c \<and> permitted st c org kind \<and> rg_modules st (org, kind) \<noteq> None \<and> n = v \<and>
     (\<exists>a h. upgrade_target strkey st org kind v a h \<and>
       st' = rg_emit [RegistryModuleUpgraded org kind (unwrap_or (rg_module_version st (org, kind)) 0) v a h,
                      RvModuleUpgrade org kind v]
         (st\<lparr>rg_modules := (rg_modules st)((org, kind) \<mapsto> a),
             rg_module_version := (rg_module_version st)((org, kind) \<mapsto> v),
             rg_deprecated := (rg_deprecated st)((org, kind) := None)\<rparr>))"
  by (simp add: upgrade_module_def rbind_eq_Ok rg_guards_Ok guards_Ok require_auth_eq_Ok plan_upgrade_Ok
      resolve_upgrade_target_Ok move_module_eq live_def permitted_def conj_assoc ex_plan del: not_None_eq)
     (blast)

lemma register_module_version_Ok:
  "register_module_version strkey env c org kind v st = Ok (n, st') \<longleftrightarrow>
     live st \<and> org \<noteq> [] \<and> authorized env c \<and> permitted st c org kind \<and> n = v \<and>
     (\<exists>a h. upgrade_target strkey st org kind v a h \<and>
       st' = rg_emit ([RegistryModuleUpdated org kind a, RvModuleRegister org kind a] @
           (if rg_modules st (org, kind) = None then []
            else [RegistryModuleUpgraded org kind (unwrap_or (rg_module_version st (org, kind)) 0) v a h,
                  RvModuleUpgrade org kind v]))
         (st\<lparr>rg_modules := (rg_modules st)((org, kind) \<mapsto> a),
             rg_module_version := (rg_module_version st)((org, kind) \<mapsto> v),
             rg_deprecated := (rg_deprecated st)((org, kind) := None)\<rparr>))"
proof -
  have "(if rg_modules st (org, kind) \<noteq> None then rg_emit es (rg_emit fs s) else rg_emit fs s) =
      rg_emit (fs @ (if rg_modules st (org, kind) = None then [] else es)) s" for es fs s
    by (simp add: rg_emit_def)
  then show ?thesis
    by (simp add: register_module_version_def rbind_eq_Ok rg_guards_Ok guards_Ok require_auth_eq_Ok
        resolve_upgrade_target_Ok move_module_eq live_def permitted_def Let_def conj_assoc ex_plan del: not_None_eq cong: if_cong split del: if_split)
       (blast)
qed

lemma effect_move:
  "upgrade_module strkey env c org kind v st = Ok (n, st') \<Longrightarrow> rg_effect strkey c st st'"
  "register_module_version strkey env c org kind v st = Ok (n, st') \<Longrightarrow> rg_effect strkey c st st'"
  by (auto simp: upgrade_module_Ok register_module_version_Ok intro: e_move)

lemma filter_admins_wf:
  assumes "distinct admins" "length admins \<le> m" "old \<in> set admins"
  shows "distinct (filter (\<lambda>a. a \<noteq> old \<and> a \<noteq> n) admins @ [n])"
    and "length (filter (\<lambda>a. a \<noteq> old \<and> a \<noteq> n) admins @ [n]) \<le> m"
proof -
  have "length (filter (\<lambda>a. a \<noteq> old \<and> a \<noteq> n) admins) < length admins"
    by (rule length_filter_less [OF assms(3)]) simp
  then show "length (filter (\<lambda>a. a \<noteq> old \<and> a \<noteq> n) admins @ [n]) \<le> m" using assms(2) by simp
qed (use assms(1) in simp)

lemma effect_set_admin:
  assumes "rg_set_admin env c a st = Ok (u, st')"
  shows "rg_effect strkey c st st'"
proof -
  let ?admins = "filter (\<lambda>x. rg_admin st \<noteq> Some x \<and> x \<noteq> a) (unwrap_or (rg_admins st) []) @ [a]"
  have g: "is_admin st c" "rg_admin st \<noteq> None"
    and st': "st' = rg_emit [RvSetAdmin a] (st\<lparr>rg_admin := Some a, rg_admins := Some ?admins\<rparr>)"
    using assms by (auto simp: rg_set_admin_def ok_simps Let_def)
  have "a \<in> set ?admins \<and> distinct ?admins \<and> length ?admins \<le> MAX_APPROVERS" if wf: "admins_wf st"
  proof -
    obtain p admins where "rg_admin st = Some p" "rg_admins st = Some admins" "p \<in> set admins" "distinct admins"
      "length admins \<le> MAX_APPROVERS"
      using wf g(2) by (auto simp: admins_wf_def)
    then show ?thesis using filter_admins_wf [of admins MAX_APPROVERS p a] by (auto simp: neq_commute [of p])
  qed
  from e_admins [OF g this] show ?thesis unfolding st' by simp
qed

lemma effect_add_admin:
  assumes "add_admin env c a st = Ok (u, st')"
  shows "rg_effect strkey c st st'"
proof -
  let ?admins = "admins_or_primary st @ [a]"
  have g: "is_admin st c" "rg_admin st \<noteq> None" and l: "length ?admins \<le> MAX_APPROVERS" "a \<notin> set (admins_or_primary st)"
    and st': "st' = rg_emit [RvAdminAdded a] (st\<lparr>rg_admins := Some ?admins\<rparr>)"
    using assms by (auto simp: add_admin_def ok_simps Let_def)
  obtain p where p: "rg_admin st = Some p" using g(2) by auto
  have "p \<in> set ?admins \<and> distinct ?admins \<and> length ?admins \<le> MAX_APPROVERS" if "admins_wf st"
    using that l p by (auto simp: admins_wf_def admins_or_primary_def)
  moreover have "st\<lparr>rg_admins := Some ?admins\<rparr> = st\<lparr>rg_admin := Some p, rg_admins := Some ?admins\<rparr>"
    using p by (cases st) simp
  ultimately show ?thesis using e_admins [OF g] unfolding st' by simp
qed

lemma effect_remove_admin:
  assumes "remove_admin env c a st = Ok (u, st')"
  shows "rg_effect strkey c st st'"
proof -
  let ?admins = "filter (\<lambda>x. x \<noteq> a) (admins_or_primary st)"
  have g: "is_admin st c" "rg_admin st \<noteq> None" using assms by (auto simp: remove_admin_def ok_simps)
  obtain p where p: "rg_admin st = Some p" using g(2) by auto
  obtain q where q: "st' = rg_emit [RvAdminRemoved a] (st\<lparr>rg_admin := Some q, rg_admins := Some ?admins\<rparr>)"
    "q = p \<and> p \<noteq> a \<or> q \<in> set ?admins"
  proof (cases "p = a")
    case True
    then obtain n ns where n: "?admins = n # ns"
      using assms p by (cases ?admins) (auto simp: remove_admin_def ok_simps Let_def)
    then have "st' = rg_emit [RvAdminRemoved a] (st\<lparr>rg_admins := Some ?admins, rg_admin := Some n\<rparr>)"
      using True assms p by (auto simp: remove_admin_def ok_simps Let_def)
    also have "st\<lparr>rg_admins := Some ?admins, rg_admin := Some n\<rparr> = st\<lparr>rg_admin := Some n, rg_admins := Some ?admins\<rparr>"
      by (cases st) simp
    finally show ?thesis using that [of n] n by simp
  next
    case False
    have "st\<lparr>rg_admins := Some ?admins\<rparr> = st\<lparr>rg_admin := Some p, rg_admins := Some ?admins\<rparr>"
      using p by (cases st) simp
    moreover have "st' = rg_emit [RvAdminRemoved a] (st\<lparr>rg_admins := Some ?admins\<rparr>)"
      using assms p False by (auto simp: remove_admin_def ok_simps Let_def)
    ultimately show ?thesis using that [of p] False by simp
  qed
  have "q \<in> set ?admins \<and> distinct ?admins \<and> length ?admins \<le> MAX_APPROVERS" if "admins_wf st"
    using that q(2) p by (auto simp: admins_wf_def admins_or_primary_def intro: order_trans [OF length_filter_le])
  from e_admins [OF g this] show ?thesis unfolding q(1) by simp
qed

lemma effect_admin:
  "rg_initialize env a st = Ok (u, st') \<Longrightarrow> rg_effect strkey c st st'"
  "set_multisig env c a st = Ok (u, st') \<Longrightarrow> rg_effect strkey c st st'"
  "rg_freeze env c org st = Ok (u, st') \<Longrightarrow> rg_effect strkey c st st'"
  "rg_unfreeze env c org st = Ok (u, st') \<Longrightarrow> rg_effect strkey c st st'"
  "add_approved_wasm env c kind h st = Ok (u, st') \<Longrightarrow> rg_effect strkey c st st'"
  "remove_approved_wasm env c kind h st = Ok (u, st') \<Longrightarrow> rg_effect strkey c st st'"
  by (auto simp: rg_initialize_def set_multisig_def rg_freeze_def rg_unfreeze_def add_approved_wasm_def
      remove_approved_wasm_def ok_simps root_of_def intro: rg_effect.intros)

lemma plan_registry_upgrade_Ok:
  "plan_registry_upgrade strkey st h = Ok plan \<longleftrightarrow>
     (\<exists>v r. scan_versions st h (unwrap_or (rg_latest_version st KOrganization) 0 - (MAX_UPGRADE_SCAN - 1))
              (unwrap_or (rg_latest_version st KOrganization) 0) = Some (v, r) \<and>
        unwrap_or (rg_registry_version st) 0 < v \<and> is_contract_address strkey (vr_address r) \<and>
        plan = \<lparr>rp_from_version = unwrap_or (rg_registry_version st) 0, rp_to_version = v, rp_wasm_hash = h\<rparr>)"
  by (cases "unwrap_or (rg_latest_version st KOrganization) 0")
     (auto simp: plan_registry_upgrade_def ok_simps Let_def split: prod.splits simp del: scan_versions.simps(2))

lemma effect_self:
  "remove_multisig env c st = Ok (u, st') \<Longrightarrow> rg_effect strkey c st st'"
  "rg_set_upgrade_authority env c a r st = Ok (u, st') \<Longrightarrow> rg_effect strkey c st st'"
  "registry_upgrade strkey env c h st = Ok (u, st') \<Longrightarrow> rg_effect strkey c st st'"
proof -
  show "remove_multisig env c st = Ok (u, st') \<Longrightarrow> rg_effect strkey c st st'"
    using e_multisig [of st c strkey "[]" None] by (auto simp: remove_multisig_def ok_simps rg_emit_Nil)
  show "rg_set_upgrade_authority env c a r st = Ok (u, st') \<Longrightarrow> rg_effect strkey c st st'"
    using e_authority [of _ st strkey c "[]"]
    by (auto simp: rg_set_upgrade_authority_def ok_simps rg_emit_Nil split: prod.splits if_splits)
  show "registry_upgrade strkey env c h st = Ok (u, st') \<Longrightarrow> rg_effect strkey c st st'"
    by (auto simp: registry_upgrade_def ok_simps plan_registry_upgrade_Ok upgrade_apply_def Let_def scan_versions_Some
        split: prod.splits intro!: e_self)
qed

lemmas effects = effect_org effect_module effect_publish effect_proposals effect_move effect_set_admin effect_add_admin
  effect_remove_admin effect_admin effect_self

lemma rg_step_effect: "rg_step strkey c st st' \<Longrightarrow> rg_effect strkey c st st'"
  by (induction rule: rg_step.induct) (erule effects)+


section \<open>The invariant\<close>

lemma read_version_cong:
  "rg_version_record st' = rg_version_record st \<Longrightarrow> rg_version st' = rg_version st \<Longrightarrow> read_version st' = read_version st"
  by (simp add: read_version_def fun_eq_iff split: option.split)

lemma read_version_emit [simp]: "read_version (rg_emit es st) = read_version st"
  by (rule read_version_cong) simp_all

lemma read_version_publish:
  "read_version (st\<lparr>rg_version_record := (rg_version_record st)((kind, v) \<mapsto> r), rg_latest_version := l\<rparr>) k w =
     (if k = kind \<and> w = v then Some r else read_version st k w)"
  by (auto simp: read_version_def split: option.split)

lemma read_version_commit:
  assumes "read_version st kind v = None"
  shows "read_version (st\<lparr>rg_version := (rg_version st)((kind, v) \<mapsto> a), rg_latest_version := l, rg_approved_wasm := w,
      rg_upgrade_proposal := x, rg_audit_log := g\<rparr>) k u =
     (if k = kind \<and> u = v then Some \<lparr>vr_address = a, vr_hash = Unbound\<rparr> else read_version st k u)"
  using assms by (auto simp: read_version_def split: option.splits)

lemma versions_wf_fresh: "versions_wf st \<Longrightarrow> unwrap_or (rg_latest_version st kind) 0 < v \<Longrightarrow> read_version st kind v = None"
  by (auto simp: versions_wf_def) (meson not_le option.exhaust_sel option.distinct(1))

lemma versions_wf_frame:
  assumes "versions_wf st" "rg_version_record st' = rg_version_record st" "rg_version st' = rg_version st"
    "rg_latest_version st' = rg_latest_version st"
  shows "versions_wf st'"
  using assms(1,4) read_version_cong [OF assms(2,3)] by (simp add: versions_wf_def)

lemma effect_admins_wf: "rg_effect strkey c st st' \<Longrightarrow> admins_wf st \<Longrightarrow> admins_wf st'"
  by (induction rule: rg_effect.induct) (auto simp: admins_wf_def MAX_APPROVERS_def split: option.splits)

lemma effect_modules_wf: "rg_effect strkey c st st' \<Longrightarrow> modules_wf st \<Longrightarrow> modules_wf st'"
  by (induction rule: rg_effect.induct) (auto simp: modules_wf_def permitted_def require_module_permission_Ok)

lemma effect_proposals_wf: "rg_effect strkey c st st' \<Longrightarrow> proposals_wf st \<Longrightarrow> proposals_wf st'"
  by (induction rule: rg_effect.induct) (auto simp: proposals_wf_def upgrade_log_def)

lemma effect_versions_wf: "rg_effect strkey c st st' \<Longrightarrow> versions_wf st \<Longrightarrow> versions_wf st'"
proof (induction rule: rg_effect.induct)
  case (e_publish v kind h es a)
  have "read_version st kind (unwrap_or (rg_latest_version st kind) 0) \<noteq> None" if "v \<le> unwrap_or (rg_latest_version st kind) 0"
    using that e_publish(3,6) by (cases "rg_latest_version st kind") (auto simp: versions_wf_def)
  moreover have "w \<le> unwrap_or (rg_latest_version st k) 0" if "read_version st k w \<noteq> None" for k w
    using that e_publish(6) by (auto simp: versions_wf_def)
  ultimately show ?case using e_publish
    by (auto simp: versions_wf_def read_version_publish max_def le_eq_less_or_eq split: if_splits) fastforce+
next
  case (e_commit kind p log es)
  note fresh = versions_wf_fresh [OF e_commit(6,4)]
  have "w \<le> upr_version p" if "read_version st kind w \<noteq> None" for w
    using that e_commit(4,6) by (force simp: versions_wf_def)
  then show ?case using e_commit(4,6) by (auto simp: versions_wf_def read_version_commit [OF fresh] split: if_splits)
qed (erule versions_wf_frame; simp)+

lemma rg_move_inv: "rg_move strkey st st' \<Longrightarrow> rg_inv st \<Longrightarrow> rg_inv st'"
  unfolding rg_move_def rg_inv_def
  using effect_admins_wf effect_versions_wf effect_modules_wf effect_proposals_wf rg_step_effect by blast

interpretation registry_sys: invariant_system "deployed_registry code" "rg_move strkey" rg_inv for code strkey
  by unfold_locales (auto simp: deployed_registry_def empty_inv intro: rg_move_inv)

section \<open>The abstract upgrade map\<close>

text \<open>
  What the registry promises its consumers, without the two storage layouts, the proposals, the roles and
  the flags: a growing table of versions, modules that are routed freely or moved forward onto published
  code, and the registry's own version and code.
\<close>

record upgrade_map =
  um_table :: "module_kind \<times> u32 \<Rightarrow> version_record option"
  um_routes :: "string \<times> module_kind \<Rightarrow> (address \<times> u32) option"
  um_self :: "u32 \<times> bytes"

inductive map_step :: "(address \<Rightarrow> string) \<Rightarrow> upgrade_map \<Rightarrow> upgrade_map \<Rightarrow> bool" for strkey :: "address \<Rightarrow> string" where
  m_stay: "map_step strkey m m"
| m_publish: "um_table m (kind, v) = None \<Longrightarrow> 0 < v \<Longrightarrow> map_step strkey m (m\<lparr>um_table := (um_table m)((kind, v) \<mapsto> r)\<rparr>)"
| m_route: "map_step strkey m (m\<lparr>um_routes := (um_routes m)((org, kind) \<mapsto> (a, 0))\<rparr>)"
| m_remove: "map_step strkey m (m\<lparr>um_routes := (um_routes m)((org, kind) := None)\<rparr>)"
| m_move: "um_table m (kind, v) = Some \<lparr>vr_address = a, vr_hash = Bound h\<rparr> \<Longrightarrow> is_contract_address strkey a \<Longrightarrow>
    (\<And>b w. um_routes m (org, kind) = Some (b, w) \<Longrightarrow> w < v \<and> b \<noteq> a) \<Longrightarrow> 0 < v \<Longrightarrow>
    map_step strkey m (m\<lparr>um_routes := (um_routes m)((org, kind) \<mapsto> (a, v))\<rparr>)"
| m_self: "um_table m (KOrganization, v) = Some r \<Longrightarrow> vr_hash r = Bound h \<Longrightarrow> fst (um_self m) < v \<Longrightarrow>
    map_step strkey m (m\<lparr>um_self := (v, h)\<rparr>)"

definition abs_map :: "registry_state \<Rightarrow> upgrade_map" where
  "abs_map st =
     \<lparr>um_table = (\<lambda>(kind, v). read_version st kind v),
      um_routes = (\<lambda>i. map_option (\<lambda>a. (a, unwrap_or (rg_module_version st i) 0)) (rg_modules st i)),
      um_self = (unwrap_or (rg_registry_version st) 0, running_wasm (rg_upgrade st))\<rparr>"

definition map_init :: "bytes \<Rightarrow> upgrade_map \<Rightarrow> bool" where
  "map_init code m \<longleftrightarrow> m = \<lparr>um_table = Map.empty, um_routes = Map.empty, um_self = (0, code)\<rparr>"

lemma abs_init: "deployed_registry code st \<Longrightarrow> map_init code (abs_map st)"
  by (auto simp: deployed_registry_def registry_empty_def abs_map_def map_init_def read_version_def)

lemma abs_map_frame:
  assumes "rg_version_record st' = rg_version_record st" "rg_version st' = rg_version st" "rg_modules st' = rg_modules st"
    "rg_module_version st' = rg_module_version st" "rg_registry_version st' = rg_registry_version st"
    "running_wasm (rg_upgrade st') = running_wasm (rg_upgrade st)"
  shows "abs_map st' = abs_map st"
  using assms read_version_cong [OF assms(1,2)] by (simp add: abs_map_def)

lemma abs_map_emit [simp]: "abs_map (rg_emit es st) = abs_map st"
  by (rule abs_map_frame) simp_all

lemma abs_map_publish:
  "abs_map (st\<lparr>rg_version_record := (rg_version_record st)((kind, v) \<mapsto> r), rg_latest_version := l\<rparr>) =
     (abs_map st)\<lparr>um_table := (um_table (abs_map st))((kind, v) \<mapsto> r)\<rparr>"
  by (auto simp: abs_map_def fun_eq_iff read_version_publish)

lemma abs_map_commit:
  assumes "read_version st kind v = None"
  shows "abs_map (st\<lparr>rg_version := (rg_version st)((kind, v) \<mapsto> a), rg_latest_version := l, rg_approved_wasm := w,
      rg_upgrade_proposal := x, rg_audit_log := g\<rparr>) =
     (abs_map st)\<lparr>um_table := (um_table (abs_map st))((kind, v) \<mapsto> \<lparr>vr_address = a, vr_hash = Unbound\<rparr>)\<rparr>"
  by (auto simp: abs_map_def fun_eq_iff read_version_commit [OF assms])

lemma abs_map_module:
  "abs_map (st\<lparr>rg_modules := (rg_modules st)(i := m), rg_deprecated := d, rg_module_version := (rg_module_version st)(i := p)\<rparr>) =
     (abs_map st)\<lparr>um_routes := (um_routes (abs_map st))(i := map_option (\<lambda>a. (a, unwrap_or p 0)) m)\<rparr>"
  "abs_map (st\<lparr>rg_modules := (rg_modules st)(i := m), rg_module_version := (rg_module_version st)(i := p), rg_deprecated := d\<rparr>) =
     (abs_map st)\<lparr>um_routes := (um_routes (abs_map st))(i := map_option (\<lambda>a. (a, unwrap_or p 0)) m)\<rparr>"
  by (auto simp: abs_map_def fun_eq_iff read_version_def split: option.split)

lemma abs_map_self:
  "abs_map (st\<lparr>rg_upgrade := up, rg_registry_version := Some v\<rparr>) = (abs_map st)\<lparr>um_self := (v, running_wasm up)\<rparr>"
  by (auto simp: abs_map_def fun_eq_iff read_version_def split: option.split)

lemma frame_refines:
  assumes "rg_version_record st' = rg_version_record st" "rg_version st' = rg_version st" "rg_modules st' = rg_modules st"
    "rg_module_version st' = rg_module_version st" "rg_registry_version st' = rg_registry_version st"
    "running_wasm (rg_upgrade st') = running_wasm (rg_upgrade st)"
  shows "map_step strkey (abs_map st) (abs_map st')"
  using m_stay by (simp add: abs_map_frame [OF assms])

lemma effect_refines: "rg_effect strkey c st st' \<Longrightarrow> rg_inv st \<Longrightarrow> map_step strkey (abs_map st) (abs_map st')"
proof (induction rule: rg_effect.induct)
  case (e_publish v kind h es a)
  then show ?case by (auto simp: abs_map_publish intro!: m_publish) (simp add: abs_map_def)
next
  case (e_commit kind p log es)
  have fresh: "read_version st kind (upr_version p) = None"
    using e_commit by (intro versions_wf_fresh) (auto simp: rg_inv_def)
  show ?case unfolding abs_map_emit abs_map_commit [OF fresh]
    by (rule m_publish) (use fresh e_commit in \<open>auto simp: abs_map_def\<close>)
next
  case (e_route org kind es m)
  then show ?case by (cases m) (auto simp: abs_map_module intro: m_route m_remove)
next
  case (e_move org kind v a h es)
  have "map_step strkey (abs_map st) ((abs_map st)\<lparr>um_routes := (um_routes (abs_map st))((org, kind) \<mapsto> (a, v))\<rparr>)"
    by (rule m_move [of _ kind v a h]) (use e_move in \<open>auto simp: abs_map_def upgrade_target_def\<close>)
  then show ?case by (simp add: abs_map_module)
next
  case (e_self h v r up es)
  have "map_step strkey (abs_map st) ((abs_map st)\<lparr>um_self := (v, h)\<rparr>)"
    by (rule m_self [of _ v r]) (use e_self in \<open>auto simp: abs_map_def\<close>)
  then show ?case using e_self(6) by (simp add: abs_map_self)
qed (rule frame_refines; simp)+

lemma rg_move_refines: "rg_inv st \<Longrightarrow> rg_move strkey st st' \<Longrightarrow> map_step strkey (abs_map st) (abs_map st')"
  by (auto simp: rg_move_def dest: rg_step_effect effect_refines)

interpretation registry_map: refinement_system
  "deployed_registry code" "rg_move strkey" rg_inv "map_init code" "map_step strkey" abs_map for code strkey
  by unfold_locales (simp_all add: abs_init rg_move_refines)

text \<open>What the abstract map keeps: entries of the table stay, pinned routes and the registry's own code
  are those of a table entry, and the registry's own version only grows.\<close>

lemma map_step_table: "map_step strkey m m' \<Longrightarrow> um_table m i = Some r \<Longrightarrow> um_table m' i = Some r"
  by (induction rule: map_step.induct) auto

lemma map_steps_table: "(map_step strkey)\<^sup>*\<^sup>* m m' \<Longrightarrow> um_table m i = Some r \<Longrightarrow> um_table m' i = Some r"
  by (induction rule: rtranclp_induct) (auto intro: map_step_table)

definition map_inv :: "(address \<Rightarrow> string) \<Rightarrow> bytes \<Rightarrow> upgrade_map \<Rightarrow> bool" where
  "map_inv strkey code m \<longleftrightarrow>
     (\<forall>org kind a v. um_routes m (org, kind) = Some (a, v) \<longrightarrow> 0 < v \<longrightarrow> is_contract_address strkey a \<and>
        (\<exists>h. um_table m (kind, v) = Some \<lparr>vr_address = a, vr_hash = Bound h\<rparr>)) \<and>
     (um_self m = (0, code) \<or>
      (\<exists>r. um_table m (KOrganization, fst (um_self m)) = Some r \<and> vr_hash r = Bound (snd (um_self m))))"

lemma map_invD:
  assumes "map_inv strkey code m"
  shows "um_routes m (org, kind) = Some (a, v) \<Longrightarrow> 0 < v \<Longrightarrow> is_contract_address strkey a \<and>
      (\<exists>h. um_table m (kind, v) = Some \<lparr>vr_address = a, vr_hash = Bound h\<rparr>)"
    and "um_self m = (0, code) \<or> (\<exists>r. um_table m (KOrganization, fst (um_self m)) = Some r \<and> vr_hash r = Bound (snd (um_self m)))"
  using assms by (simp_all add: map_inv_def)

lemma map_step_inv: "map_step strkey m m' \<Longrightarrow> map_inv strkey code m \<Longrightarrow> map_inv strkey code m'"
proof (induction rule: map_step.induct)
  case (m_publish m kind v r)
  then show ?case by (fastforce simp: map_inv_def)
qed (auto simp: map_inv_def)

interpretation map_sys: invariant_system "map_init code" "map_step strkey" "map_inv strkey code" for strkey code
  by unfold_locales (erule map_step_inv | simp add: map_init_def map_inv_def)+

lemma reach_map_inv:
  "reach (deployed_registry code) (rg_move strkey) st \<Longrightarrow> map_inv strkey code (abs_map st)"
  by (rule map_sys.reach_inv [OF registry_map.reach_view])

lemma map_steps_self: "(map_step strkey)\<^sup>*\<^sup>* m m' \<Longrightarrow> um_self m' = um_self m \<or> fst (um_self m) < fst (um_self m')"
proof (induction rule: rtranclp_induct)
  case (step m1 m2)
  have "um_self m2 = um_self m1 \<or> fst (um_self m1) < fst (um_self m2)"
    using step(2) by (induction rule: map_step.induct) auto
  then show ?case using step(3) by auto
qed simp

end
