(* ===== verification/Registry_Safety.thy ===== *)
theory Registry_Safety
  imports Registry_Props
begin

text \<open>
  What the registry guarantees, stated over its entrypoints and views: published versions and the code
  behind them, the two upgrade paths, delegation, the freeze, and the batch reads.
\<close>

section \<open>Supporting facts\<close>

lemma get_version_Ok: "get_version st kind v = Ok a \<longleftrightarrow> (\<exists>r. read_version st kind v = Some r \<and> vr_address r = a)"
  by (auto simp: get_version_def ok_simps)

lemma get_version_wasm_Ok: "get_version_wasm st kind v = Ok h \<longleftrightarrow> (\<exists>r. read_version st kind v = Some r \<and> vr_hash r = Bound h)"
  by (auto simp: get_version_wasm_def split: option.splits bound_hash.splits)

lemma um_table_abs [simp]: "um_table (abs_map st) (kind, v) = read_version st kind v"
  by (simp add: abs_map_def)

lemma um_self_abs [simp]: "um_self (abs_map st) = (get_registry_version st, running_wasm (rg_upgrade st))"
  by (simp add: abs_map_def get_registry_version_def)

lemma um_routes_abs:
  "um_routes (abs_map st) (org, kind) = Some (a, v) \<longleftrightarrow>
     get_module_address st org kind = Ok a \<and> get_module_version st org kind = Ok v"
  by (auto simp: abs_map_def get_module_address_def get_module_version_def ok_or_def split: option.splits)

lemma read_version_kept:
  assumes "reach (deployed_registry code) (rg_move strkey) st" "(rg_move strkey)\<^sup>*\<^sup>* st st'" "read_version st kind v = Some r"
  shows "read_version st' kind v = Some r"
proof -
  have "(map_step strkey)\<^sup>*\<^sup>* (abs_map st) (abs_map st')"
    by (rule registry_map.steps_view [OF assms(2) registry_sys.reach_inv [OF assms(1)]])
  from map_steps_table [OF this, of "(kind, v)"] assms(3) show ?thesis by simp
qed

lemma commit_upgrade_Ok:
  assumes "commit_upgrade env c kind st = Ok ((v, a), st')"
  shows "authorized env c \<and> is_admin st c \<and> unwrap_or (rg_latest_version st kind) 0 < v \<and>
     rg_version st' (kind, v) = Some a \<and> rg_version_record st' = rg_version_record st"
  using assms by (auto simp: commit_upgrade_def append_audit_def ok_simps Let_def)

text \<open>The cache of a batch holds what the storage holds.\<close>

definition cache_ok :: "registry_state \<Rightarrow> version_cache \<Rightarrow> bool" where
  "cache_ok st entries \<longleftrightarrow> (\<forall>(kind, v, r) \<in> set entries. r = read_version st kind v)"

lemma cache_find_ok: "cache_ok st entries \<Longrightarrow> cache_find entries kind v = Some r \<Longrightarrow> r = read_version st kind v"
  by (induction entries kind v rule: cache_find.induct) (auto simp: cache_ok_def split: if_splits)

lemma versions_loop_eq:
  "cache_ok st entries \<Longrightarrow>
     versions_loop st ids entries = map (\<lambda>i. map_option vr_address (read_version st (vi_kind i) (vi_version i))) ids"
proof (induction ids arbitrary: entries)
  case (Cons i ids)
  obtain r entries' where g: "cache_get st (vi_kind i) (vi_version i) entries = (r, entries')" by fastforce
  have "r = read_version st (vi_kind i) (vi_version i) \<and> cache_ok st entries'"
    using g Cons(2) cache_find_ok [OF Cons(2)] by (auto simp: cache_get_def cache_ok_def Let_def split: option.splits)
  then show ?case using Cons(1) g by simp
qed simp

text \<open>A sample run for the witnesses: a wallet module moved onto a published version, the registry moved
  onto its first published version, and a proposal that is committed.\<close>

definition sample_strkey :: "address \<Rightarrow> string" where
  "sample_strkey a = CHR ''C'' # replicate 55 CHR ''A''"

definition sample_renv :: env where
  "sample_renv = \<lparr>timestamp = 1000, sequence = 1, this_contract = 9, authorized = (\<lambda>a. True),
     authorized_args = (\<lambda>a x. True)\<rparr>"

definition sample_admin :: registry_state where
  "sample_admin = rg_emit [RvInit 1] ((registry_empty [1])\<lparr>rg_admin := Some 1, rg_admins := Some [1]\<rparr>)"

definition sample_org :: registry_state where
  "sample_org = rg_emit [RvOrgRegister ''acme'' 2] (sample_admin\<lparr>rg_orgs := [''acme'' \<mapsto> 2]\<rparr>)"

definition sample_approved :: registry_state where
  "sample_approved = rg_emit [RvWasmApproved KWallet [7]] (sample_org\<lparr>rg_approved_wasm := [(KWallet, [7]) \<mapsto> True]\<rparr>)"

definition sample_version :: registry_state where
  "sample_version = rg_emit [RegistryVersionRegistered KWallet 1 50 [7], RvVersionRegister KWallet 1 50]
     (sample_approved\<lparr>rg_version_record := [(KWallet, 1) \<mapsto> \<lparr>vr_address = 50, vr_hash = Bound [7]\<rparr>],
        rg_latest_version := [KWallet \<mapsto> 1]\<rparr>)"

definition sample_routed :: registry_state where
  "sample_routed = rg_emit [RegistryModuleUpdated ''acme'' KWallet 40, RvModuleRegister ''acme'' KWallet 40]
     (sample_version\<lparr>rg_modules := [(''acme'', KWallet) \<mapsto> 40]\<rparr>)"

definition sample_moved :: registry_state where
  "sample_moved = rg_emit [RegistryModuleUpgraded ''acme'' KWallet 0 1 50 [7], RvModuleUpgrade ''acme'' KWallet 1]
     (sample_routed\<lparr>rg_modules := [(''acme'', KWallet) \<mapsto> 50], rg_module_version := [(''acme'', KWallet) \<mapsto> 1]\<rparr>)"

lemmas sample_states = sample_admin_def sample_org_def sample_approved_def sample_version_def sample_routed_def
  sample_moved_def registry_empty_def sample_renv_def

lemmas sample_guards = check_frozen_def require_non_empty_def rg_require_admin_def require_auth_def is_admin_def
  require_module_permission_def rg_effective_role_def is_wasm_approved_def pending_proposal_def

lemma one_byte_hash [simp]: "require_valid_wasm_hash [x] = Ok ()" "[x] \<noteq> replicate 32 0"
  by (auto simp: require_valid_wasm_hash_def dest: arg_cong [of _ _ length])

lemma sample_contract [simp]: "is_contract_address sample_strkey a"
  by (simp add: is_contract_address_def sample_strkey_def)

lemma sample_run:
  "rg_initialize sample_renv 1 (registry_empty [1]) = Ok ((), sample_admin)"
  "register_org sample_renv 1 ''acme'' 2 sample_admin = Ok ((), sample_org)"
  "add_approved_wasm sample_renv 1 KWallet [7] sample_org = Ok ((), sample_approved)"
  "register_version sample_renv 1 KWallet 1 50 [7] sample_approved = Ok ((), sample_version)"
  "register_module sample_renv 2 ''acme'' KWallet 40 sample_version = Ok ((), sample_routed)"
  by (simp_all add: rg_initialize_def register_org_def add_approved_wasm_def register_version_def register_module_def
      clear_deprecation_def clear_module_version_def sample_guards sample_states Let_def)

lemma sample_move: "upgrade_module sample_strkey sample_renv 2 ''acme'' KWallet 1 sample_routed = Ok (1, sample_moved)"
  by (simp add: upgrade_module_def plan_upgrade_def resolve_upgrade_target_def read_version_def move_module_def
      clear_deprecation_def sample_guards sample_states Let_def)

text \<open>The registry moved onto its own first published version.\<close>

definition sample_code_approved :: registry_state where
  "sample_code_approved = rg_emit [RvWasmApproved KOrganization [8]] (sample_org\<lparr>rg_approved_wasm := [(KOrganization, [8]) \<mapsto> True]\<rparr>)"

definition sample_code_version :: registry_state where
  "sample_code_version = rg_emit [RegistryVersionRegistered KOrganization 1 60 [8], RvVersionRegister KOrganization 1 60]
     (sample_code_approved\<lparr>rg_version_record := [(KOrganization, 1) \<mapsto> \<lparr>vr_address = 60, vr_hash = Bound [8]\<rparr>],
        rg_latest_version := [KOrganization \<mapsto> 1]\<rparr>)"

definition sample_authority :: registry_state where
  "sample_authority = sample_code_version\<lparr>rg_upgrade := \<lparr>authority = Some \<lparr>up_admin = 1, up_registry = 9\<rparr>,
     running_wasm = [1], upgrade_events = [UpgradeAuth 1 9]\<rparr>\<rparr>"

definition sample_upgraded :: registry_state where
  "sample_upgraded = rg_emit [RegistryUpgraded 0 1 [8]] (sample_authority\<lparr>rg_upgrade := \<lparr>authority = Some \<lparr>up_admin = 1, up_registry = 9\<rparr>,
     running_wasm = [8], upgrade_events = [UpgradeAuth 1 9, UpgradeApplied KOrganization [8]]\<rparr>, rg_registry_version := Some 1\<rparr>)"

lemmas sample_code_states = sample_code_approved_def sample_code_version_def sample_authority_def sample_upgraded_def

lemma sample_code_run:
  "add_approved_wasm sample_renv 1 KOrganization [8] sample_org = Ok ((), sample_code_approved)"
  "register_version sample_renv 1 KOrganization 1 60 [8] sample_code_approved = Ok ((), sample_code_version)"
  "rg_set_upgrade_authority sample_renv 1 1 9 sample_code_version = Ok ((), sample_authority)"
  "registry_upgrade sample_strkey sample_renv 1 [8] sample_authority = Ok ((), sample_upgraded)"
  by (simp_all add: add_approved_wasm_def register_version_def rg_set_upgrade_authority_def get_authority_def set_authority_def
      registry_upgrade_def upgrade_apply_def plan_registry_upgrade_def MAX_UPGRADE_SCAN_def read_version_def
      sample_guards sample_states sample_code_states Let_def)

text \<open>A proposal by the owner, a delegated operator, and a frozen registry.\<close>

definition sample_proposal :: upgrade_proposal where
  "sample_proposal = \<lparr>upr_version = 3, upr_wasm_hash = [9], upr_address = 70, upr_org = ''acme'', upr_proposer = 2,
     upr_expires_at = 605800\<rparr>"

definition sample_audit :: upgrade_audit where
  "sample_audit = \<lparr>ua_kind = KPolicy, ua_version = 3, ua_wasm_hash = [9], ua_org = ''acme'', ua_actor = 2, ua_recorded_at = 1000\<rparr>"

definition sample_proposed :: registry_state where
  "sample_proposed = rg_emit [RvVersionProposed KPolicy 3 [9], UpgradeProposed sample_audit]
     (sample_org\<lparr>rg_upgrade_proposal := [KPolicy \<mapsto> sample_proposal],
        rg_audit_log := Some [\<lparr>uar_action = UaProposed, uar_audit = sample_audit\<rparr>]\<rparr>)"

definition sample_delegated :: registry_state where
  "sample_delegated = rg_emit [RvRoleGranted ''acme'' 3 RrPolicyManager]
     (sample_org\<lparr>rg_org_role := [(''acme'', 3) \<mapsto> RrPolicyManager]\<rparr>)"

definition sample_frozen :: registry_state where
  "sample_frozen = rg_emit [RegistryFrozenEvent ''acme'' True, RvFrozen ''acme''] (sample_org\<lparr>rg_frozen := Some True\<rparr>)"

lemmas sample_more_states = sample_proposal_def sample_audit_def sample_proposed_def sample_delegated_def sample_frozen_def

lemma sample_more_run:
  "propose_upgrade sample_renv 2 ''acme'' KPolicy 3 [9] 70 sample_org = Ok ((), sample_proposed)"
  "\<exists>st'. commit_upgrade sample_renv 1 KPolicy sample_proposed = Ok ((3, 70), st')"
  "\<exists>st'. register_module sample_renv 3 ''acme'' KPolicy 41 sample_delegated = Ok ((), st')"
  "\<exists>st'. add_admin sample_renv 1 5 sample_frozen = Ok ((), st')"
  by (simp_all add: propose_upgrade_def commit_upgrade_def register_module_def add_admin_def admins_or_primary_def
      append_audit_def upgrade_log_def trim_log.simps limit_defs u64_max_def sample_guards sample_states sample_more_states Let_def)

lemma reach_move: "reach I (rg_move strkey) st \<Longrightarrow> rg_step strkey c st st' \<Longrightarrow> reach I (rg_move strkey) st'"
  by (rule reach_step) (auto simp: rg_move_def)

lemma sample_reach_org: "reach (deployed_registry [1]) (rg_move sample_strkey) sample_org"
proof -
  have "reach (deployed_registry [1]) (rg_move sample_strkey) (registry_empty [1])"
    by (rule reach_init) (simp add: deployed_registry_def)
  from reach_move [OF reach_move [OF this s_initialize] s_register_org, OF sample_run(1,2)] show ?thesis .
qed

lemma sample_reach:
  "reach (deployed_registry [1]) (rg_move sample_strkey) sample_routed"
  "reach (deployed_registry [1]) (rg_move sample_strkey) sample_moved"
  "reach (deployed_registry [1]) (rg_move sample_strkey) sample_authority"
  "reach (deployed_registry [1]) (rg_move sample_strkey) sample_proposed"
proof -
  show r: "reach (deployed_registry [1]) (rg_move sample_strkey) sample_routed"
    by (rule reach_move [OF reach_move [OF reach_move [OF sample_reach_org s_approve] s_register_version] s_register_module,
          OF sample_run(3-5)])
  show "reach (deployed_registry [1]) (rg_move sample_strkey) sample_moved"
    by (rule reach_move [OF r s_upgrade_module [OF sample_move]])
  show "reach (deployed_registry [1]) (rg_move sample_strkey) sample_authority"
    by (rule reach_move [OF reach_move [OF reach_move [OF sample_reach_org s_approve] s_register_version] s_authority,
          OF sample_code_run(1-3)])
  show "reach (deployed_registry [1]) (rg_move sample_strkey) sample_proposed"
    by (rule reach_move [OF sample_reach_org s_propose [OF sample_more_run(1)]])
qed

lemma one_move: "rg_step strkey c st st' \<Longrightarrow> (rg_move strkey)\<^sup>*\<^sup>* st st'"
  by (rule r_into_rtranclp) (auto simp: rg_move_def)

section \<open>Properties\<close>

text \<open>C6. The registry implements its upgrade map: with the two storage layouts, the proposals, roles, flags
  and administrators hidden, every committed invocation in a reachable state is a step of the abstract map,
  which only publishes fresh versions, routes or removes modules without a pin, moves modules forward onto
  published and bound code at another contract, or moves the registry itself forward.\<close>

theorem registry_refines_upgrade_map:
  assumes "reach (deployed_registry code) (rg_move strkey) st" "rg_step strkey c st st'"
  shows "reach (map_init code) (map_step strkey) (abs_map st) \<and> map_step strkey (abs_map st) (abs_map st')"
proof -
  have "rg_inv st" by (rule registry_sys.reach_inv [OF assms(1)])
  then have "map_step strkey (abs_map st) (abs_map st')"
    using registry_map.step_view assms(2) by (auto simp: rg_move_def)
  then show ?thesis using registry_map.reach_view [OF assms(1)] by simp
qed

theorem registry_refines_upgrade_map_witness:
  "map_step sample_strkey (abs_map sample_routed) (abs_map sample_moved) \<and>
   um_routes (abs_map sample_moved) (''acme'', KWallet) = Some (50, 1)"
  using registry_refines_upgrade_map [OF sample_reach(1) s_upgrade_module [OF sample_move]]
  by (simp add: abs_map_def sample_states)


text \<open>C15. Published versions are immutable: whatever invocations follow, a version of a module kind keeps
  the address and the bound hash it was published with, in both storage layouts, so a consumer pinned to it
  keeps getting what it pinned.\<close>

theorem published_versions_immutable:
  assumes "reach (deployed_registry code) (rg_move strkey) st" "(rg_move strkey)\<^sup>*\<^sup>* st st'" "read_version st kind v = Some r"
  shows "read_version st' kind v = Some r"
  by (rule read_version_kept [OF assms])

theorem published_versions_immutable_witness:
  "read_version sample_routed KWallet 1 = Some \<lparr>vr_address = 50, vr_hash = Bound [7]\<rparr> \<and>
   read_version sample_moved KWallet 1 = Some \<lparr>vr_address = 50, vr_hash = Bound [7]\<rparr>"
proof -
  have "read_version sample_routed KWallet 1 = Some \<lparr>vr_address = 50, vr_hash = Bound [7]\<rparr>"
    by (simp add: read_version_def sample_states)
  with published_versions_immutable [OF sample_reach(1) one_move [OF s_upgrade_module [OF sample_move]] this]
  show ?thesis by simp
qed

text \<open>C16. In every reachable state a module whose version is pinned runs published code: its address is
  the address of that version of its kind, a contract address, and the version is bound to a hash. The
  unvalidated registration can route a module anywhere, but it leaves no pin behind.\<close>

theorem pinned_module_runs_published_code:
  assumes "reach (deployed_registry code) (rg_move strkey) st"
    and "get_module_version st org kind = Ok v" "0 < v"
  shows "\<exists>a h. get_module_address st org kind = Ok a \<and> get_version st kind v = Ok a \<and>
     get_version_wasm st kind v = Ok h \<and> is_contract_address strkey a"
proof -
  obtain a where a: "get_module_address st org kind = Ok a"
    using assms(2) by (cases "rg_modules st (org, kind)") (auto simp: get_module_version_def get_module_address_def)
  then have "um_routes (abs_map st) (org, kind) = Some (a, v)" using assms(2) by (simp add: um_routes_abs)
  from map_invD(1) [OF reach_map_inv [OF assms(1)] this assms(3)] obtain h where "is_contract_address strkey a"
    "read_version st kind v = Some \<lparr>vr_address = a, vr_hash = Bound h\<rparr>" by auto
  then show ?thesis using a by (auto simp: get_version_Ok get_version_wasm_Ok)
qed

theorem pinned_module_runs_published_code_witness:
  "get_module_version sample_moved ''acme'' KWallet = Ok 1 \<and>
   (\<exists>a h. get_module_address sample_moved ''acme'' KWallet = Ok a \<and> get_version sample_moved KWallet 1 = Ok a \<and>
     get_version_wasm sample_moved KWallet 1 = Ok h \<and> is_contract_address sample_strkey a)"
proof -
  have "get_module_version sample_moved ''acme'' KWallet = Ok 1"
    by (simp add: get_module_version_def sample_states)
  with pinned_module_runs_published_code [OF sample_reach(2) this] show ?thesis by simp
qed

text \<open>C17. Whenever a run has changed the code of the registry, its own version has grown, and the code it
  runs is the code its recorded version was published with: approval alone never moves the registry back.\<close>

theorem registry_only_moves_forward:
  assumes "reach (deployed_registry code) (rg_move strkey) st" "(rg_move strkey)\<^sup>*\<^sup>* st st'"
    and "running_wasm (rg_upgrade st') \<noteq> running_wasm (rg_upgrade st)"
  shows "get_registry_version st < get_registry_version st' \<and>
     get_version_wasm st' KOrganization (get_registry_version st') = Ok (running_wasm (rg_upgrade st'))"
proof -
  have "(map_step strkey)\<^sup>*\<^sup>* (abs_map st) (abs_map st')"
    by (rule registry_map.steps_view [OF assms(2) registry_sys.reach_inv [OF assms(1)]])
  from map_steps_self [OF this] assms(3) have lt: "get_registry_version st < get_registry_version st'" by auto
  have "map_inv strkey code (abs_map st')"
    by (rule reach_map_inv [OF registry_map.reach_steps [OF assms(1,2)]])
  then show ?thesis using lt by (auto simp: map_inv_def get_version_wasm_Ok)
qed

theorem registry_only_moves_forward_witness:
  "get_registry_version sample_authority < get_registry_version sample_upgraded \<and>
   get_version_wasm sample_upgraded KOrganization (get_registry_version sample_upgraded) = Ok (running_wasm (rg_upgrade sample_upgraded))"
proof (rule registry_only_moves_forward [OF sample_reach(3) one_move [OF s_upgrade [OF sample_code_run(4)]]])
  show "running_wasm (rg_upgrade sample_upgraded) \<noteq> running_wasm (rg_upgrade sample_authority)"
    by (simp add: sample_upgraded_def sample_authority_def)
qed

text \<open>C25. The dry run tells the truth: for a caller who signed and may manage the module, moving the module
  succeeds exactly when the validation does, lands on the address the validation reported, and otherwise
  fails with the same error.\<close>

theorem validate_upgrade_predicts:
  assumes "authorized env c" "rg_orgs st org \<noteq> None" "can_manage_module st org c kind"
  shows "rbind (upgrade_module strkey env c org kind v st) (\<lambda>(_, st'). get_module_address st' org kind) =
     validate_upgrade strkey st org kind v"
proof -
  have perm: "require_module_permission st c org kind = Ok ()" using can_manage_module_iff assms by auto
  show ?thesis
    by (cases "check_frozen st"; cases "require_non_empty org"; cases "plan_upgrade strkey st org kind v")
       (simp_all add: upgrade_module_def validate_upgrade_def perm assms(1) require_auth_def get_module_address_def move_module_eq)
qed

theorem validate_upgrade_predicts_witness:
  "can_manage_module sample_routed ''acme'' 2 KWallet \<and>
   rbind (upgrade_module sample_strkey sample_renv 2 ''acme'' KWallet 1 sample_routed) (\<lambda>(_, st'). get_module_address st' ''acme'' KWallet) =
     validate_upgrade sample_strkey sample_routed ''acme'' KWallet 1"
proof -
  have "authorized sample_renv 2" "rg_orgs sample_routed ''acme'' \<noteq> None" "can_manage_module sample_routed ''acme'' 2 KWallet"
    by (simp_all add: can_manage_module_def sample_guards sample_states)
  with validate_upgrade_predicts [OF this] show ?thesis by simp
qed

text \<open>Delegation is bounded: an invocation by someone who is neither an administrator nor the recorded
  owner of an organization, whatever role he holds, leaves its owner and all its delegated roles as they
  were, and every module record of a kind his role does not reach.\<close>

theorem delegation_bounded:
  assumes "rg_step strkey c st st'" "\<not> is_admin st c" "rg_orgs st org \<noteq> Some c"
  shows "rg_orgs st' org = rg_orgs st org \<and> (\<forall>a. rg_org_role st' (org, a) = rg_org_role st (org, a)) \<and>
     (\<forall>kind. \<not> can_manage_module st org c kind \<longrightarrow> rg_modules st' (org, kind) = rg_modules st (org, kind) \<and>
        rg_module_version st' (org, kind) = rg_module_version st (org, kind))"
proof -
  have perm: "can_manage_module st org c kind" if "permitted st c org kind" for kind
    using that by (auto simp: permitted_def can_manage_module_def require_module_permission_Ok)
  from rg_step_effect [OF assms(1)] show ?thesis
    by (cases rule: rg_effect.cases) (use assms(2,3) perm in \<open>auto simp: root_of_def\<close>)
qed

theorem delegation_bounded_witness:
  "\<exists>st'. rg_step sample_strkey 3 sample_delegated st' \<and> \<not> can_manage_module sample_delegated ''acme'' 3 KWallet \<and>
     rg_orgs st' ''acme'' = rg_orgs sample_delegated ''acme'' \<and>
     (\<forall>a. rg_org_role st' (''acme'', a) = rg_org_role sample_delegated (''acme'', a))"
proof -
  obtain st' where "register_module sample_renv 3 ''acme'' KPolicy 41 sample_delegated = Ok ((), st')"
    using sample_more_run(3) by blast
  then have step: "rg_step sample_strkey 3 sample_delegated st'" by (rule s_register_module)
  have "\<not> is_admin sample_delegated 3" "rg_orgs sample_delegated ''acme'' \<noteq> Some 3"
    "\<not> can_manage_module sample_delegated ''acme'' 3 KWallet"
    by (simp_all add: can_manage_module_def sample_guards sample_states sample_more_states)
  with delegation_bounded [OF step this(1,2)] step show ?thesis by auto
qed

text \<open>C29. A committed upgrade can never be installed: the commit stores the address in the legacy table
  without binding the hash, versions are immutable, and both upgrade paths refuse a version without a bound
  hash. So no module of any organization can ever be moved onto a version that came through the proposal
  flow, by anyone.\<close>

theorem committed_version_never_installed:
  assumes "reach (deployed_registry code) (rg_move strkey) st" "commit_upgrade env c kind st = Ok ((v, a), st')"
    and "(rg_move strkey)\<^sup>*\<^sup>* st' st''"
  shows "\<not> is_ok (upgrade_module strkey env2 c2 org kind v st'') \<and>
     \<not> is_ok (register_module_version strkey env2 c2 org kind v st'')"
proof -
  have inv: "rg_inv st" by (rule registry_sys.reach_inv [OF assms(1)])
  have "read_version st kind v = None"
    using commit_upgrade_Ok [OF assms(2)] inv by (intro versions_wf_fresh) (auto simp: rg_inv_def)
  then have "read_version st' kind v = Some \<lparr>vr_address = a, vr_hash = Unbound\<rparr>"
    using commit_upgrade_Ok [OF assms(2)] by (auto simp: read_version_def split: option.splits)
  moreover have "reach (deployed_registry code) (rg_move strkey) st'"
    by (rule reach_step [OF assms(1)]) (use s_commit [OF assms(2)] in \<open>auto simp: rg_move_def\<close>)
  ultimately have "read_version st'' kind v = Some \<lparr>vr_address = a, vr_hash = Unbound\<rparr>"
    using read_version_kept assms(3) by blast
  then show ?thesis by (auto simp: is_ok_iff upgrade_module_Ok register_module_version_Ok upgrade_target_def)
qed

theorem committed_version_never_installed_witness:
  "\<exists>st'. commit_upgrade sample_renv 1 KPolicy sample_proposed = Ok ((3, 70), st') \<and>
     \<not> is_ok (upgrade_module sample_strkey sample_renv 1 ''acme'' KPolicy 3 st') \<and>
     \<not> is_ok (register_module_version sample_strkey sample_renv 1 ''acme'' KPolicy 3 st')"
proof -
  obtain st' where st': "commit_upgrade sample_renv 1 KPolicy sample_proposed = Ok ((3, 70), st')"
    using sample_more_run(2) by blast
  from committed_version_never_installed [OF sample_reach(4) this rtranclp.rtrancl_refl] st' show ?thesis by blast
qed

text \<open>While the registry is frozen no invocation changes an organization, a module record, a version
  or a proposal, and every lookup is refused.\<close>

theorem freeze_holds_the_records:
  assumes "rg_frozen st = Some True" "rg_step strkey c st st'"
  shows "rg_orgs st' = rg_orgs st \<and> rg_modules st' = rg_modules st \<and> rg_deprecated st' = rg_deprecated st \<and>
     rg_module_version st' = rg_module_version st \<and> read_version st' = read_version st \<and>
     rg_upgrade_proposal st' = rg_upgrade_proposal st \<and> lookup st org kind = Err RegistryFrozen"
proof -
  have "lookup st org kind = Err RegistryFrozen" using assms(1) by (simp add: lookup_def check_frozen_def)
  moreover have "rg_version_record st' = rg_version_record st \<and> rg_version st' = rg_version st \<and>
      rg_orgs st' = rg_orgs st \<and> rg_modules st' = rg_modules st \<and> rg_deprecated st' = rg_deprecated st \<and>
      rg_module_version st' = rg_module_version st \<and> rg_upgrade_proposal st' = rg_upgrade_proposal st"
    using rg_step_effect [OF assms(2)] by (cases rule: rg_effect.cases) (use assms(1) in \<open>auto simp: live_def\<close>)
  ultimately show ?thesis using read_version_cong by blast
qed

theorem freeze_holds_the_records_witness:
  "\<exists>st'. rg_step sample_strkey 1 sample_frozen st' \<and> rg_orgs st' = rg_orgs sample_frozen \<and>
     lookup sample_frozen ''acme'' KWallet = Err RegistryFrozen"
proof -
  obtain st' where "add_admin sample_renv 1 5 sample_frozen = Ok ((), st')" using sample_more_run(4) by blast
  then have step: "rg_step sample_strkey 1 sample_frozen st'" by (rule s_add_admin)
  have "rg_frozen sample_frozen = Some True" by (simp add: sample_frozen_def)
  from freeze_holds_the_records [OF this step] step show ?thesis by blast
qed

text \<open>A batch of version lookups answers every position as a single lookup would, in order and with
  duplicates, although it reads each version only once.\<close>

theorem versions_batch_agrees:
  assumes "length ids \<le> MAX_REGISTRY_BATCH"
  shows "get_versions_batch st ids =
     Ok (map (\<lambda>i. case get_version st (vi_kind i) (vi_version i) of Ok a \<Rightarrow> Some a | _ \<Rightarrow> None) ids)"
proof -
  have "(case get_version st k v of Ok a \<Rightarrow> Some a | _ \<Rightarrow> None) = map_option vr_address (read_version st k v)" for k v
    by (cases "read_version st k v") (simp_all add: get_version_def)
  moreover have "versions_loop st ids [] = map (\<lambda>i. map_option vr_address (read_version st (vi_kind i) (vi_version i))) ids"
    by (rule versions_loop_eq) (simp add: cache_ok_def)
  ultimately show ?thesis using assms by (simp add: get_versions_batch_def)
qed

theorem versions_batch_agrees_witness:
  "get_versions_batch sample_version [\<lparr>vi_kind = KWallet, vi_version = 1\<rparr>, \<lparr>vi_kind = KPolicy, vi_version = 4\<rparr>] = Ok [Some 50, None]"
proof -
  have "length [\<lparr>vi_kind = KWallet, vi_version = 1\<rparr>, \<lparr>vi_kind = KPolicy, vi_version = 4\<rparr>] \<le> MAX_REGISTRY_BATCH"
    by (simp add: limit_defs)
  from versions_batch_agrees [OF this, of sample_version] show ?thesis
    by (simp add: get_version_def read_version_def sample_states)
qed

end
