(* ===== verification/Governance.thy ===== *)
theory Governance
  imports Treasury_Safety Registry_Safety
begin

text \<open>
  The treasury with the registry it consults. A network holds the storage of the deployed registries beside
  the rest of the ledger, and the registry client of the treasury is instantiated with the lookup of the
  registry model; the policy and budget clients stay parameters.
\<close>

section \<open>The composed network\<close>

record 'w network =
  nw_registries :: "address \<Rightarrow> registry_state option"
  nw_tokens :: 'w

text \<open>The \<open>try_lookup\<close> of the generated client: a contract error carries its code, a missing contract or a trap
  is a failed invocation.\<close>

definition registry_lookup :: "address \<Rightarrow> string \<Rightarrow> module_kind \<Rightarrow> 'w network \<Rightarrow> address try_result" where
  "registry_lookup r org kind n =
     (case nw_registries n r of
        None \<Rightarrow> TryInvoke
      | Some rs \<Rightarrow> (case lookup rs org kind of
          Ok a \<Rightarrow> TryOk a | Err e \<Rightarrow> TryErr (HeContract (error_code e)) | Panic \<Rightarrow> TryInvoke))"

definition governed_clients :: "'w network treasury_clients \<Rightarrow> 'w network treasury_clients" where
  "governed_clients cl = cl\<lparr>tc_lookup := registry_lookup\<rparr>"

definition network_tokens :: "'w token_api \<Rightarrow> 'w network token_api" where
  "network_tokens tk =
     \<lparr>tk_balance = (\<lambda>n. tk_balance tk (nw_tokens n)),
      tk_transfer = (\<lambda>n t f r a. case tk_transfer tk (nw_tokens n) t f r a of
         TryOk w \<Rightarrow> TryOk (n\<lparr>nw_tokens := w\<rparr>) | TryConversion \<Rightarrow> TryConversion | TryErr e \<Rightarrow> TryErr e | TryInvoke \<Rightarrow> TryInvoke)\<rparr>"

section \<open>Verified callers\<close>

lemma lookup_Ok [ok_simps]:
  "lookup rs org kind = Ok a \<longleftrightarrow> rg_frozen rs \<noteq> Some True \<and> rg_modules rs (org, kind) = Some a \<and>
     rg_deprecated rs (org, kind) \<noteq> Some True"
  by (auto simp: lookup_def check_frozen_def read_module_def ok_simps unwrap_or_def split: option.splits if_splits)

lemma network_tokens_laws: "token_laws tk bal \<Longrightarrow> token_laws (network_tokens tk) (\<lambda>n. bal (nw_tokens n))"
  by (auto simp: token_laws_def network_tokens_def split: try_result.splits)

lemma governed_keep: "treasury_clients_keep (governed_clients cl) bal self = treasury_clients_keep cl bal self"
  by (simp add: treasury_clients_keep_def governed_clients_def)

lemma verified_contract:
  assumes "require_verified_caller strkey (governed_clients cl) t c kind n = Ok u"
    and "tr_is_contract_address strkey c" "tr_registry t = Some r"
  shows "\<exists>rs. nw_registries n r = Some rs \<and> lookup rs (tr_org t) kind = Ok c"
  using assms by (auto simp: require_verified_caller_def governed_clients_def registry_lookup_def Let_def
      split: if_splits option.splits result.splits)

text \<open>Every outflow verifies its caller, who is the admin.\<close>

lemma outflow_verified:
  assumes "tr_call strkey tk cl env (st, w) (st', w')" "custody_laws tk bal self" "this_contract env = self"
    and "bal w' a self < bal w a self" "ts_treasury st = Some t"
  shows "require_verified_caller strkey cl t (tr_admin t) KMultisig w = Ok ()"
  using assms(1-4)
proof (cases rule: outflow_calls)
  case (withdraw c b r n)
  from tr_withdraw_parts [OF withdraw] assms(5) show ?thesis by (metis option.inject)
next
  case (batch c b ps)
  from batch_transfer_parts [OF batch] assms(5) show ?thesis by (metis option.inject)
next
  case (execute c i)
  from execute obtain t' where "tr_require_admin env c st = Ok t'" "require_verified_caller strkey cl t' c KMultisig w = Ok ()"
    unfolding execute_withdrawal_def Let_def prod.case by (elim rbind_OkE if_OkE case_prod_OkE) (rule that, (assumption | simp add: ok_simps)+)
  then show ?thesis using assms(5) by (auto simp: ok_simps)
next
  case (release c i)
  from release obtain t' where "tr_require_admin env c st = Ok t'" "require_verified_caller strkey cl t' c KMultisig w = Ok ()"
    unfolding release_next_milestone_def Let_def prod.case by (elim rbind_OkE if_OkE case_prod_OkE) (rule that, (assumption | simp add: ok_simps)+)
  then show ?thesis using assms(5) by (auto simp: ok_simps)
qed

section \<open>A concrete network\<close>

text \<open>The treasury of the demonstration, bound to the registry at 30, which routes the organisation's multisig to
  the contract 5.\<close>

definition gdemo_key :: "address \<Rightarrow> string" where
  "gdemo_key a = replicate 56 CHR ''C''"

definition gdemo_registry :: registry_state where
  "gdemo_registry = (registry_empty [1])\<lparr>rg_modules := [(''org'', KMultisig) \<mapsto> 5]\<rparr>"

definition gdemo_network :: "(address \<Rightarrow> address \<Rightarrow> int) network" where
  "gdemo_network = \<lparr>nw_registries = [30 \<mapsto> gdemo_registry], nw_tokens = moved tdemo_world 7 5 9 100\<rparr>"

definition gdemo_clients :: "'w network treasury_clients" where
  "gdemo_clients = \<lparr>tc_check_transfer = (\<lambda>_ _ _ _ _ w. Some w), tc_consume = (\<lambda>_ _ _ _ _. None), tc_lookup = (\<lambda>_ _ _ _. TryInvoke)\<rparr>"

definition gdemo_treasury :: treasury where
  "gdemo_treasury = tdemo_treasury\<lparr>tr_registry := Some 30\<rparr>"

definition gdemo_state :: treasury_state where
  "gdemo_state = (tdemo_funded [])\<lparr>ts_treasury := Some gdemo_treasury\<rparr>"

lemma gdemo_verified: "require_verified_caller gdemo_key (governed_clients gdemo_clients) gdemo_treasury 5 KMultisig gdemo_network = Ok ()"
  by (simp add: require_verified_caller_def governed_clients_def registry_lookup_def gdemo_treasury_def tdemo_treasury_def
      gdemo_network_def gdemo_registry_def registry_empty_def lookup_def check_frozen_def read_module_def ok_or_def Let_def)

lemma gdemo_tokens:
  "direct_balance (network_tokens ledger_token) n t x = Ok (nw_tokens n t x)"
  "0 \<le> k \<Longrightarrow> k \<le> nw_tokens n t f \<Longrightarrow>
     token_transfer (network_tokens ledger_token) n t f r k = Ok (n\<lparr>nw_tokens := moved (nw_tokens n) t f r k\<rparr>)"
  by (simp_all add: direct_balance_def network_tokens_def ledger_token_def token_transfer_def)

lemma gdemo_withdraw:
  "\<exists>st'. tr_withdraw gdemo_key (network_tokens ledger_token) (governed_clients gdemo_clients) (tdemo_env 0) 5 7 2 60 (gdemo_state, gdemo_network) =
     Ok ((), st', gdemo_network\<lparr>nw_tokens := moved (nw_tokens gdemo_network) 7 9 2 60\<rparr>)"
proof -
  have w: "nw_tokens gdemo_network 7 9 = 600" "moved (nw_tokens gdemo_network) 7 9 2 60 7 9 = 540"
    by (simp_all add: gdemo_network_def) (simp add: moved_def)
  have "\<exists>st'. settle_withdrawal (network_tokens ledger_token) (governed_clients gdemo_clients) (tdemo_env 0) gdemo_treasury 5 7 2 60
      (gdemo_state, gdemo_network) = Ok ((), st', gdemo_network\<lparr>nw_tokens := moved (nw_tokens gdemo_network) 7 9 2 60\<rparr>)"
    by (simp add: settle_withdrawal_def transfer_out_def policy_gate_def budget_gate_def spend_allowance_def debit_holding_def
        gdemo_tokens w gdemo_state_def tdemo_funded_def tdemo_state_def gdemo_treasury_def Let_def tdemo_simps)
  moreover have "tr_withdraw gdemo_key (network_tokens ledger_token) (governed_clients gdemo_clients) (tdemo_env 0) 5 7 2 60 (gdemo_state, gdemo_network) =
      settle_withdrawal (network_tokens ledger_token) (governed_clients gdemo_clients) (tdemo_env 0) gdemo_treasury 5 7 2 60 (gdemo_state, gdemo_network)"
    using gdemo_verified by (simp add: tr_withdraw_def require_not_paused_def tr_check_frozen_def tr_require_admin_def tr_load_def require_auth_def
        tr_require_active_def require_approved_asset_def is_asset_approved_def pause_is_active_def
        require_positive_amount_def require_not_time_locked_def load_time_lock_def tl_applies_def tl_disabled_def gdemo_state_def
        tdemo_funded_def tdemo_state_def treasury_empty_def gdemo_treasury_def tdemo_treasury_def ok_or_def)
  ultimately show ?thesis by simp
qed

section \<open>Properties\<close>

text \<open>C14. A contract pays out of a treasury bound to a registry only while the registry routes to it. Whenever an
  entrypoint takes something out of the treasury and its admin is a contract, the registry it is bound to exists,
  is not frozen, and records that contract as the live multisig module of the organisation: freezing the registry,
  deprecating the module or routing the organisation elsewhere cuts the contract off.\<close>

theorem contract_pays_only_while_registered:
  assumes "tr_call strkey (network_tokens tk) (governed_clients cl) env (st, n) (st', n')"
    and "token_laws tk bal" and "this_contract env = self" and "bal (nw_tokens n') a self < bal (nw_tokens n) a self"
    and "tr_get st = Ok t" and "tr_registry t = Some r" and "tr_is_contract_address strkey (tr_admin t)"
  shows "\<exists>rs. nw_registries n r = Some rs \<and> rg_frozen rs \<noteq> Some True \<and>
     get_module_address rs (tr_org t) KMultisig = Ok (tr_admin t) \<and> rg_deprecated rs (tr_org t, KMultisig) \<noteq> Some True"
proof -
  have t: "ts_treasury st = Some t" using assms(5) by (simp add: tr_get_def ok_simps)
  have "custody_laws (network_tokens tk) (\<lambda>n. bal (nw_tokens n)) self"
    by (rule token_laws_custody [OF network_tokens_laws [OF assms(2)]])
  from outflow_verified [OF assms(1) this assms(3) _ t, of a] assms(4)
  have "require_verified_caller strkey (governed_clients cl) t (tr_admin t) KMultisig n = Ok ()" by simp
  from verified_contract [OF this assms(7,6)] show ?thesis by (auto simp: ok_simps get_module_address_def)
qed

theorem contract_pays_only_while_registered_witness:
  "\<exists>st' n'. tr_call gdemo_key (network_tokens ledger_token) (governed_clients gdemo_clients) (tdemo_env 0) (gdemo_state, gdemo_network) (st', n') \<and>
     nw_tokens n' 7 9 < nw_tokens gdemo_network 7 9 \<and> tr_is_contract_address gdemo_key 5 \<and>
     (\<exists>rs. nw_registries gdemo_network 30 = Some rs \<and> get_module_address rs ''org'' KMultisig = Ok 5)"
proof -
  let ?n = "gdemo_network\<lparr>nw_tokens := moved (nw_tokens gdemo_network) 7 9 2 60\<rparr>"
  obtain st' where "tr_withdraw gdemo_key (network_tokens ledger_token) (governed_clients gdemo_clients) (tdemo_env 0) 5 7 2 60
      (gdemo_state, gdemo_network) = Ok ((), st', ?n)" using gdemo_withdraw ..
  then have c: "tr_call gdemo_key (network_tokens ledger_token) (governed_clients gdemo_clients) (tdemo_env 0) (gdemo_state, gdemo_network) (st', ?n)"
    by (rule c_withdraw)
  have b: "nw_tokens ?n 7 9 < nw_tokens gdemo_network 7 9" by (simp add: moved_def)
  have t: "tr_get gdemo_state = Ok gdemo_treasury" by (simp add: tr_get_def tr_load_def ok_or_def gdemo_state_def)
  have g: "tr_registry gdemo_treasury = Some 30" "tr_admin gdemo_treasury = 5" "tr_org gdemo_treasury = ''org''"
    by (simp_all add: gdemo_treasury_def tdemo_treasury_def)
  have k: "tr_is_contract_address gdemo_key 5" by (simp add: tr_is_contract_address_def gdemo_key_def)
  have "\<exists>rs. nw_registries gdemo_network 30 = Some rs \<and> get_module_address rs ''org'' KMultisig = Ok 5"
    using contract_pays_only_while_registered [OF c ledger_token_laws _ _ t g(1), of 9 7] b k unfolding g(2,3) by auto
  with c b k show ?thesis by blast
qed

end
