(* ===== verification/Shared_Surface.thy ===== *)
theory Shared_Surface
  imports Balance Upgrade
begin

text \<open>
  The rest of the public surface of the shared crate, which the contracts reach under other names: the naming
  variants of the balance map (\<^verbatim>\<open>balance.rs\<close>) and of the checked arithmetic (\<^verbatim>\<open>math.rs\<close>), the cost telemetry
  (\<^verbatim>\<open>telemetry.rs\<close>), and the authority entrypoints of the upgradeable contracts.
\<close>

section \<open>Balance maps\<close>

definition new_map :: bal_map where "new_map = []"

definition balance_of :: "bal_map \<Rightarrow> address \<Rightarrow> i128" where "balance_of m a = get_balance m a"
definition query_balance :: "bal_map \<Rightarrow> address \<Rightarrow> i128" where "query_balance m a = get_balance m a"
definition bal_is_empty :: "bal_map \<Rightarrow> bool" where "bal_is_empty m \<longleftrightarrow> m = []"
definition bal_len :: "bal_map \<Rightarrow> u32" where "bal_len m = length m"
definition is_zero_balance :: "bal_map \<Rightarrow> address \<Rightarrow> bool" where "is_zero_balance m a \<longleftrightarrow> get_balance m a = 0"

definition bal_credit :: "bal_map \<Rightarrow> address \<Rightarrow> i128 \<Rightarrow> (i128 \<times> bal_map) res" where
  "bal_credit m a amt = checked_add_balance m a amt"

definition bal_debit :: "bal_map \<Rightarrow> address \<Rightarrow> i128 \<Rightarrow> (i128 \<times> bal_map) res" where
  "bal_debit m a amt = checked_sub_balance m a amt"

definition add_balance :: "bal_map \<Rightarrow> address \<Rightarrow> i128 \<Rightarrow> (i128 \<times> bal_map) res" where
  "add_balance m a amt = checked_add_balance m a amt"

definition sub_balance :: "bal_map \<Rightarrow> address \<Rightarrow> i128 \<Rightarrow> (i128 \<times> bal_map) res" where
  "sub_balance m a amt = checked_sub_balance m a amt"

definition dedup_asset_amounts :: "asset_amount list \<Rightarrow> bal_map res" where
  "dedup_asset_amounts amounts = aggregate_asset_amounts amounts"

definition dedup_balances :: "asset_amount list \<Rightarrow> bal_map res" where
  "dedup_balances entries = aggregate_entries entries"

definition to_asset_amounts :: "bal_map \<Rightarrow> asset_amount list" where
  "to_asset_amounts m = map (\<lambda>(a, v). \<lparr>asset = a, amount = v\<rparr>) m"

definition bal_checked_add :: "i128 \<Rightarrow> i128 \<Rightarrow> i128 res" where "bal_checked_add a b = checked_balance_add a b"
definition bal_checked_sub :: "i128 \<Rightarrow> i128 \<Rightarrow> i128 res" where "bal_checked_sub b a = checked_balance_sub b a"

section \<open>Checked arithmetic\<close>

definition or_overflow :: "'a option \<Rightarrow> 'a res" where "or_overflow x = ok_or x Overflow"
definition or_invalid_input :: "'a option \<Rightarrow> 'a res" where "or_invalid_input x = ok_or x InvalidInput"

definition checked_add_u64 :: "u64 \<Rightarrow> u64 \<Rightarrow> u64 res" where "checked_add_u64 a b = safe_add_u64 a b"
definition checked_sub_u64 :: "u64 \<Rightarrow> u64 \<Rightarrow> u64 res" where "checked_sub_u64 a b = safe_sub_u64 a b"
definition checked_mul_u64 :: "u64 \<Rightarrow> u64 \<Rightarrow> u64 res" where "checked_mul_u64 a b = safe_mul_u64 a b"
definition checked_div_u64 :: "u64 \<Rightarrow> u64 \<Rightarrow> u64 res" where "checked_div_u64 a b = safe_div_u64 a b"
definition checked_add_u128 :: "u128 \<Rightarrow> u128 \<Rightarrow> u128 res" where "checked_add_u128 a b = safe_add_u128 a b"
definition checked_sub_u128 :: "u128 \<Rightarrow> u128 \<Rightarrow> u128 res" where "checked_sub_u128 a b = safe_sub_u128 a b"
definition checked_mul_u128 :: "u128 \<Rightarrow> u128 \<Rightarrow> u128 res" where "checked_mul_u128 a b = safe_mul_u128 a b"
definition checked_div_u128 :: "u128 \<Rightarrow> u128 \<Rightarrow> u128 res" where "checked_div_u128 a b = safe_div_u128 a b"

definition safe_debit :: "i128 \<Rightarrow> i128 \<Rightarrow> i128 res" where "safe_debit b amt = checked_balance_sub b amt"
definition safe_credit :: "i128 \<Rightarrow> i128 \<Rightarrow> i128 res" where "safe_credit b amt = checked_balance_add b amt"

definition checked_batch_allowance :: "'a batch_amount \<Rightarrow> 'a list \<Rightarrow> 'a list \<Rightarrow> 'a res" where
  "checked_batch_allowance T amounts limits = verify_batch_allowance T amounts limits"

definition checked_batch_calculation :: "'a batch_amount \<Rightarrow> 'a list \<Rightarrow> 'a list \<Rightarrow> 'a res" where
  "checked_batch_calculation T amounts limits = verify_batch_allowance T amounts limits"

definition checked_batch_calculation_with_multipliers :: "'a batch_amount \<Rightarrow> 'a list \<Rightarrow> 'a list \<Rightarrow> 'a list \<Rightarrow> 'a res" where
  "checked_batch_calculation_with_multipliers T amounts multipliers limits =
     verify_batch_allowance_with_multipliers T amounts multipliers limits"

definition validate_batch_allowance :: "'a batch_amount \<Rightarrow> 'a list \<Rightarrow> 'a list \<Rightarrow> unit res" where
  "validate_batch_allowance T amounts limits = rbind (verify_batch_allowance T amounts limits) (\<lambda>_. Ok ())"

definition compute_budget_rollover :: "i128 \<Rightarrow> i128 \<Rightarrow> i128 \<Rightarrow> i128 res" where
  "compute_budget_rollover unspent rollover_bps max_rollover_cap = calculate_budget_rollover unspent rollover_bps max_rollover_cap"

section \<open>Telemetry\<close>

record execution_cost =
  operation :: symbol
  gas_used :: u64
  cpu_instructions :: u64
  storage_bytes :: u64
  measured_at :: u64

record transaction_summary =
  total_gas :: u64
  total_cpu :: u64
  total_storage :: u64
  operation_count :: u32
  near_limit :: bool

datatype telemetry_event = ExecCost execution_cost | ExecCostFull execution_cost | TxSummary transaction_summary

text \<open>Publication appends to the event log.\<close>

definition log_execution_cost :: "env \<Rightarrow> symbol \<Rightarrow> u64 \<Rightarrow> u64 \<Rightarrow> telemetry_event list \<Rightarrow> telemetry_event list" where
  "log_execution_cost env op gas bytes es =
     es @ [ExecCost \<lparr>operation = op, gas_used = gas, cpu_instructions = 0, storage_bytes = bytes, measured_at = timestamp env\<rparr>]"

definition log_execution_cost_full :: "env \<Rightarrow> symbol \<Rightarrow> u64 \<Rightarrow> u64 \<Rightarrow> u64 \<Rightarrow> telemetry_event list \<Rightarrow> telemetry_event list" where
  "log_execution_cost_full env op gas cpu bytes es =
     es @ [ExecCostFull \<lparr>operation = op, gas_used = gas, cpu_instructions = cpu, storage_bytes = bytes, measured_at = timestamp env\<rparr>]"

definition log_transaction_summary :: "u64 \<Rightarrow> u64 \<Rightarrow> u64 \<Rightarrow> u32 \<Rightarrow> bool \<Rightarrow> telemetry_event list \<Rightarrow> telemetry_event list" where
  "log_transaction_summary gas cpu bytes ops near es =
     es @ [TxSummary \<lparr>total_gas = gas, total_cpu = cpu, total_storage = bytes, operation_count = ops, near_limit = near\<rparr>]"

text \<open>The sum and the product trap past 64 bits.\<close>

definition estimate_gas :: "string \<Rightarrow> u64 \<Rightarrow> u64 res" where
  "estimate_gas op bytes =
     (let base = (if op \<in> {''transfer'', ''mint'', ''burn''} then 100
                  else if op \<in> {''approve'', ''allowance''} then 80
                  else if op \<in> {''balance'', ''balance_of''} then 60
                  else if op = ''transfer_from'' then 150
                  else if op \<in> {''write'', ''store''} then 200 else 100);
          overhead = (bytes div 1024) * 10 in
      if overhead > u64_max \<or> base + overhead > u64_max then Panic else Ok (base + overhead))"

definition is_near_gas_limit :: "u64 \<Rightarrow> bool res" where
  "is_near_gas_limit gas =
     (if gas * 100 > u64_max then Panic else Ok ((gas * 100) div 100000000 \<ge> 90))"

section \<open>Authority entrypoints\<close>

text \<open>The seven member contracts pass these calls on unchanged.\<close>

definition treasury_set_upgrade_authority where
  "treasury_set_upgrade_authority env caller admin registry = set_authority env caller admin registry"
definition multisig_set_upgrade_authority where
  "multisig_set_upgrade_authority env caller admin registry = set_authority env caller admin registry"
definition proposal_set_upgrade_authority where
  "proposal_set_upgrade_authority env caller admin registry = set_authority env caller admin registry"
definition budget_set_upgrade_authority where
  "budget_set_upgrade_authority env caller admin registry = set_authority env caller admin registry"
definition escrow_set_upgrade_authority where
  "escrow_set_upgrade_authority env caller admin registry = set_authority env caller admin registry"
definition wallet_set_upgrade_authority where
  "wallet_set_upgrade_authority env caller admin registry = set_authority env caller admin registry"
definition policy_set_upgrade_authority where
  "policy_set_upgrade_authority env caller admin registry = set_authority env caller admin registry"

section \<open>Lemmas\<close>

text \<open>A credit and the debit of the same amount restore every balance, under either naming.\<close>

lemma credit_then_debit:
  assumes "bal_inv m" "bal_credit m a n = Ok (b, m1)" "sub_balance m1 a n = Ok (b', m2)"
  shows "balance_of m2 k = query_balance m k"
proof -
  have "bal_inv m1 \<and> (\<forall>k. get_balance m1 k = (if k = a then get_balance m a + n else get_balance m k))"
    using assms(1,2) checked_add_balance_Ok by (fastforce simp: bal_credit_def)
  moreover from this have "\<forall>k. get_balance m2 k = (if k = a then get_balance m1 a - n else get_balance m1 k)"
    using assms(3) checked_sub_balance_Ok by (fastforce simp: sub_balance_def)
  ultimately show ?thesis by (simp add: balance_of_def query_balance_def)
qed

text \<open>A measured cost never traps the estimate, and the warning starts at exactly nine tenths of the limit; a
  usage too large to be scaled traps instead of warning.\<close>

lemma estimate_gas_total:
  assumes "bytes \<le> u64_max"
  shows "\<exists>g. estimate_gas op bytes = Ok g \<and> 60 \<le> g"
proof -
  have "(bytes div 1024) * 10 + 200 \<le> u64_max" using assms by (simp add: int_limits)
  then have "(bytes div 1024) * 10 \<le> u64_max" "\<And>base. base \<le> 200 \<Longrightarrow> base + (bytes div 1024) * 10 \<le> u64_max" by linarith+
  then show ?thesis unfolding estimate_gas_def Let_def by (simp add: not_less)
qed

lemma near_gas_limit_iff: "is_near_gas_limit gas = Ok b \<longleftrightarrow> gas * 100 \<le> u64_max \<and> b = (90000000 \<le> gas)"
  by (auto simp: is_near_gas_limit_def)

text \<open>Until the authority of a contract is recorded, whoever calls first becomes its upgrade admin and names the
  registry, and with a registry that approves a hash installs it.\<close>

lemma authority_bootstrap_open:
  assumes "authority up = None" "authorized env c" "reg r KTreasury h = TryOk True"
  shows "\<exists>up1 up2. treasury_set_upgrade_authority env c c r up = Ok ((), up1) \<and> treasury_upgrade reg env c h up1 = Ok ((), up2) \<and>
     running_wasm up2 = h"
  using assms by (simp add: treasury_set_upgrade_authority_def treasury_upgrade_def ok_simps)

end
