(* ===== verification/Spec2Isabelle.thy ===== *)
theory Spec2Isabelle
  imports Balance Multisig_Props Proposal_Props Budget_Props Escrow_Safety Wallet_Safety Composition Governance Shared_Surface
begin

text \<open>
  A verification library for the Astroid smart-contract workspace (Soroban contracts in Rust).

  \<^bold>\<open>The program.\<close> The workspace has a shared crate (\<^verbatim>\<open>shared/src\<close>: errors, checked arithmetic,
  validation, multi-currency balances, token wrappers), a crate of interfaces
  (\<^verbatim>\<open>interfaces/src\<close>), and one crate per contract under \<^verbatim>\<open>contracts/\<close>. A contract keeps its
  records in ledger storage; an entrypoint authenticates its caller, reads records, checks its
  guards, writes records, moves tokens through a token contract and publishes events. An error or a
  panic rolls the whole invocation back.

  \<^bold>\<open>How it is modelled.\<close> Storage is a record with one field per storage key (a map for a keyed
  entry, an option for a single one), the token world is an explicit second component, and an
  entrypoint is a function from both to a \<open>result\<close>: \<open>Ok\<close> with the new state, \<open>Err\<close> with the error
  of \<^verbatim>\<open>errors.rs\<close>, or \<open>Panic\<close> for a trap. The guards are those of the code in their order. Amounts
  are integers with the 128-bit range tested where the code tests or traps (the release profile
  keeps overflow checks on); \<open>as u64\<close> and \<open>as u32\<close> casts wrap. The environment \<open>env\<close> carries the
  ledger time, the contract's own address and the set of addresses that authorised the call. Events
  are a list in the state. Code outside the repository is a parameter: token contracts (\<open>token_api\<close>,
  with the documented transfer behaviour \<open>token_laws\<close>, or the weaker \<open>custody_laws\<close> for the treasury), the host's
  cryptography, the callees of a batch. Where one contract calls another, the callee is a parameter of the caller's
  theory; \<open>Composition\<close> and \<open>Governance\<close> put the models of the callees in its place. Extending the life of a storage entry has no effect on the
  model.

  \<^bold>\<open>Theories.\<close>
  \<^item> \<open>Prelude\<close>: results and their inversion rules (collection \<open>ok_simps\<close>), machine ranges, the
    environment, reachability, the locale \<open>invariant_system\<close>, which every contract's step relation
    interprets, and its extension \<open>refinement_system\<close> for a contract that implements an abstract machine.
  \<^item> \<open>Errors\<close> (\<^verbatim>\<open>errors.rs\<close>): the error enums, their codes and conversions.
  \<^item> \<open>Safe_Math\<close> (\<^verbatim>\<open>math.rs\<close>, parts of \<^verbatim>\<open>constants.rs\<close>): checked arithmetic, batch allowance
    verifiers, the rollover computation and its exactness.
  \<^item> \<open>Shared_Types\<close> (\<^verbatim>\<open>types.rs\<close>, \<^verbatim>\<open>validation.rs\<close>): assets, calls, validators, quorum.
  \<^item> \<open>Balance\<close> (\<^verbatim>\<open>balance.rs\<close>): multi-currency maps, aggregation, merge and subtraction,
    reconciliation.
  \<^item> \<open>Token\<close> (\<^verbatim>\<open>token.rs\<close>): validated transfers.
  \<^item> \<open>Upgrade\<close> (\<^verbatim>\<open>interfaces/src/upgrade.rs\<close> and the upgrade entrypoints): the admin- and
    registry-gated upgrade.
  \<^item> \<open>Shared_Surface\<close> (rest of \<^verbatim>\<open>balance.rs\<close> and \<^verbatim>\<open>math.rs\<close>, \<^verbatim>\<open>telemetry.rs\<close>): naming variants, cost estimates, the
    authority entrypoints of the member contracts.
  \<^item> \<open>Multisig\<close>, \<open>Multisig_Props\<close> (\<^verbatim>\<open>contracts/multisig\<close>): signers, weights, thresholds with
    timelocks, proposals, batches with nonces. The properties: a configuration that can always reach
    its threshold, execution exactly at quorum, batches neither under-weighted nor replayed.
  \<^item> \<open>Proposal\<close>, \<open>Proposal_Props\<close> (\<^verbatim>\<open>contracts/proposal\<close>): the lifecycle with deposits, voting,
    timelock, dependencies and pruning. The properties: deposits stay backed, transitions are those
    of the documented machine, the gates of execution, acyclic dependencies; and the deposit of a failed
    proposal, which stays in the contract.
  \<^item> \<open>Budget\<close>, \<open>Budget_Props\<close> (\<^verbatim>\<open>contracts/budget\<close>): allocations, recurring windows, rollover,
    deficits, per-asset allowances and batches. The properties: well-formed budgets, the exact
    effect of a spend, of a window change and of a batch.
  \<^item> \<open>Escrow\<close>, \<open>Escrow_Props\<close>, \<open>Escrow_Runs\<close>, \<open>Escrow_Safety\<close> (\<^verbatim>\<open>contracts/escrow\<close>): creation,
    funding, vesting, release, signature override, refunds, cancellation, milestones. The
    properties: what the contract holds covers what it owes over every run, the lifecycle the code
    implements, exact pay-outs, vesting, exclusive windows; and the deposits too large to settle, which no later run
    can pay out.
  \<^item> \<open>Wallet\<close>, \<open>Wallet_Props\<close>, \<open>Wallet_Runs\<close>, \<open>Wallet_Safety\<close> (\<^verbatim>\<open>contracts/wallet\<close>): wallets with roles
    and a lifecycle, the circuit breaker, velocity and rate windows, transfers behind the policy and
    budget gates, validated batches. The properties: the tracked balances stay backed over every
    run without batches, the sliding window bounds what leaves, the cache of a batch agrees with
    single charges, the exact effect of a transfer.
  \<^item> \<open>Policy\<close>, \<open>Policy_Rules\<close>, \<open>Policy_Props\<close>, \<open>Policy_Runs\<close>, \<open>Policy_Safety\<close> (\<^verbatim>\<open>contracts/policy\<close>):
    registered policies with lists, operating hours, allowances, rule trees and stacks. The
    properties: well-formed storage, isolation of policies, the exact gate of a transfer, rule trees
    that compute the Boolean rule they encode, the rate limit of allowances, multi-asset spends.
  \<^item> \<open>Registry\<close>, \<open>Registry_Props\<close>, \<open>Registry_Safety\<close> (\<^verbatim>\<open>contracts/registry\<close>): organisations, module routing with
    delegated roles, the version table in its two storage layouts, upgrade proposals with the audit log, the validated
    and the unvalidated upgrade path, administrators, freeze, approvals and batch reads. The properties: the
    registry refines an abstract upgrade map, published versions never change, a pinned module runs published code,
    the registry's own code only moves forward, the dry run predicts the upgrade, delegation stays bounded.
  \<^item> \<open>Treasury\<close>, \<open>Treasury_Props\<close>, \<open>Treasury_Runs\<close>, \<open>Treasury_Safety\<close> (\<^verbatim>\<open>contracts/treasury\<close>): custody of whitelisted
    assets, pause and freeze, allowances, withdrawals and batches behind policy and budget, the withdrawal
    time-lock, milestone schedules. The properties: the books stay backed whatever the tokens charge,
    well-formed storage, queued requests wait out their delay and are paid once, a pause stops every outflow, the
    exact effect of a withdrawal, schedules pay their total; and the milestone path around freeze and time-lock.
  \<^item> \<open>Governance\<close>: the treasury with its registry client instantiated by the registry model.
  \<^item> \<open>Composition\<close>: the wallet with its client calls instantiated by the policy and the budget models.

  \<^bold>\<open>Shape of the proofs.\<close> Each contract has one lemma per entrypoint that reads its effect off the
  code, a step relation that collects the entrypoints (and, where tokens are held, the moves of
  third parties, who cannot spend what a contract holds), an invariant kept by every step, and an
  interpretation of \<open>invariant_system\<close>; the properties follow from it. Properties that show the code
  departing from its documentation are stated as theorems too, as closed runs or as general
  statements.

  \<^bold>\<open>Bounds.\<close> Loops of the code are structural recursions over lists, so no fuel is needed. Step
  relations that create records assume fewer than 2 to the 64 minus 1 earlier creations, because the counters
  are cast back to 64 bits; amounts that the type of an argument bounds carry that bound.

  \<^bold>\<open>Not modelled.\<close> The interface traits and generated clients, which have no bodies of their own; event
  helpers beyond the events recorded by the modelled entrypoints, because they change no state; storage
  lifetimes; tests and build files. Reentrancy through a callee is represented only by what the callee's parameter may
  do to the ledger, not by a nested invocation of the contract, which the locks of the code refuse.
\<close>

end
